(* ===== verification/Prelude.thy ===== *)
theory Prelude
  imports Main "HOL-Library.Multiset" "HOL-Library.Word"
begin

text \<open>
  Shared vocabulary of the development: the fact collections, the fixed-width integers and
  the clock arithmetic of Go as the components use them, error values, and the generic
  lemmas about lists and options that the component theories rest on.

  Go's \<^verbatim>\<open>int32\<close>, \<^verbatim>\<open>int64\<close> and \<^verbatim>\<open>int\<close> are integers of type \<open>int\<close> with the wrap-around written
  out (\<open>wrap_i32\<close>, \<open>wrap_i64\<close>); \<^verbatim>\<open>time.Duration\<close> is a 64-bit number of nanoseconds and
  \<^verbatim>\<open>time.Time\<close> the number of nanoseconds since Go's zero time, so that the zero value of
  \<^verbatim>\<open>time.Time\<close> is \<open>0\<close>.
\<close>

section \<open>Collections\<close>

named_theorems go_arith \<comment> \<open>definitions of the fixed-width and clock arithmetic\<close>
named_theorems frame_simps \<comment> \<open>fields an operation leaves alone\<close>

section \<open>Fixed-width integers\<close>

definition wrap_i32 :: "int \<Rightarrow> int" where
  "wrap_i32 x = (x + 2147483648) mod 4294967296 - 2147483648"

definition wrap_i64 :: "int \<Rightarrow> int" where
  "wrap_i64 x = (x + 9223372036854775808) mod 18446744073709551616 - 9223372036854775808"

definition is_i32 :: "int \<Rightarrow> bool" where
  "is_i32 x \<longleftrightarrow> - 2147483648 \<le> x \<and> x < 2147483648"

definition is_i64 :: "int \<Rightarrow> bool" where
  "is_i64 x \<longleftrightarrow> - 9223372036854775808 \<le> x \<and> x < 9223372036854775808"

text \<open>Integer division of Go truncates towards zero.\<close>

definition go_quot :: "int \<Rightarrow> int \<Rightarrow> int" where
  "go_quot x y = (let q = \<bar>x\<bar> div \<bar>y\<bar> in if (x < 0) = (y < 0) then q else - q)"

lemma wrap_i32_range [simp, intro]: "is_i32 (wrap_i32 x)"
  by (simp add: is_i32_def wrap_i32_def)

lemma wrap_i64_range [simp, intro]: "is_i64 (wrap_i64 x)"
proof -
  have "0 \<le> (x + 9223372036854775808) mod 18446744073709551616" by simp
  moreover have "(x + 9223372036854775808) mod 18446744073709551616 < 18446744073709551616" by simp
  ultimately show ?thesis by (simp add: is_i64_def wrap_i64_def)
qed

lemma wrap_i32_id [simp]: "is_i32 x \<Longrightarrow> wrap_i32 x = x"
  by (simp add: is_i32_def wrap_i32_def)

lemma wrap_i64_id [simp]: "is_i64 x \<Longrightarrow> wrap_i64 x = x"
  by (simp add: is_i64_def wrap_i64_def)

text \<open>The wrap-around is that of two's complement: the signed value of a machine word.\<close>

lemma wrap_i32_word: "wrap_i32 x = sint (word_of_int x :: 32 word)"
  by (simp add: wrap_i32_def sint_uint uint_word_of_int signed_take_bit_eq_take_bit_shift
      take_bit_eq_mod mod_simps algebra_simps)

lemma wrap_i64_word: "wrap_i64 x = sint (word_of_int x :: 64 word)"
  by (simp add: wrap_i64_def sint_uint uint_word_of_int signed_take_bit_eq_take_bit_shift
      take_bit_eq_mod mod_simps algebra_simps)

section \<open>Clock arithmetic\<close>

type_synonym duration = int
type_synonym gotime = int

text \<open>
  \<^verbatim>\<open>t.Sub(u)\<close> saturates at the largest and smallest duration, \<^verbatim>\<open>t.Add(d)\<close> moves the instant,
  \<^verbatim>\<open>t.UnixNano()\<close> counts from 1970 (62135596800 seconds after the zero time) in an
  \<^verbatim>\<open>int64\<close>, and the whole minutes of a duration are found by truncation.
\<close>

definition time_Sub :: "gotime \<Rightarrow> gotime \<Rightarrow> duration" where
  "time_Sub t u = max (- 9223372036854775808) (min 9223372036854775807 (t - u))"

definition time_Add :: "gotime \<Rightarrow> duration \<Rightarrow> gotime" where
  "time_Add t d = t + d"

definition time_IsZero :: "gotime \<Rightarrow> bool" where
  "time_IsZero t \<longleftrightarrow> t = 0"

definition time_Before :: "gotime \<Rightarrow> gotime \<Rightarrow> bool" where
  "time_Before t u \<longleftrightarrow> t < u"

definition time_UnixNano :: "gotime \<Rightarrow> int" where
  "time_UnixNano t = wrap_i64 (t - 62135596800000000000)"

text \<open>\<^verbatim>\<open>Time.Unix\<close>: whole seconds since 1970.\<close>

definition time_Unix :: "gotime \<Rightarrow> int" where
  "time_Unix t = t div 1000000000 - 62135596800"

definition time_Second :: duration where
  "time_Second = 1000000000"

lemmas time_defs [go_arith] = time_Add_def time_IsZero_def time_Before_def time_Second_def

lemma time_Sub_ge_iff:
  "0 \<le> w \<Longrightarrow> is_i64 w \<Longrightarrow> w \<le> time_Sub t u \<longleftrightarrow> w \<le> t - u"
  unfolding time_Sub_def is_i64_def by linarith

lemma time_Sub_less_iff:
  "0 \<le> w \<Longrightarrow> is_i64 w \<Longrightarrow> time_Sub t u < w \<longleftrightarrow> t - u < w"
  using time_Sub_ge_iff [of w t u] by linarith

section \<open>Error values\<close>

text \<open>
  A Go \<^verbatim>\<open>error\<close> is one of these values; a nil error is \<open>None\<close> of \<open>gerr option\<close>. A
  \<^verbatim>\<open>panic\<close> is the left side of a sum.
\<close>

datatype gerr =
    Err string                 \<comment> \<open>\<open>errors.New\<close> and \<open>fmt.Errorf\<close> with a fixed text\<close>
  | CtxErr                     \<comment> \<open>the error of a done context\<close>
  | RetryThreshold int gerr    \<comment> \<open>\<open>retry threshold of %d reached with error: %v\<close>\<close>
  | Wrapped string gerr        \<comment> \<open>\<open>fmt.Errorf\<close> with \<open>%w\<close>\<close>

datatype panic = Panic string

section \<open>Dropping nil entries in place\<close>

text \<open>
  Every \<^verbatim>\<open>Connect...\<close> method with a variadic argument drops the nil entries by moving the
  others to the front of the same slice:
  \<^verbatim>\<open>
    n := 0
    for _, w := range wires {
      if w != nil { wires[n] = w; n++ }
    }
    wires = wires[:n]
  \<close>
  The loop is modelled with its in-place writes; \<open>nonnil_eq\<close> gives the slice it leaves.
\<close>

function compact_loop :: "'a option list \<Rightarrow> nat \<Rightarrow> nat \<Rightarrow> 'a option list \<times> nat" where
  "compact_loop arr i n =
     (if i < length arr then
        (case arr ! i of
           None \<Rightarrow> compact_loop arr (Suc i) n
         | Some w \<Rightarrow> compact_loop (arr[n := Some w]) (Suc i) (Suc n))
      else (arr, n))"
  by pat_completeness auto
termination
  by (relation "measure (\<lambda>(arr, i, n). length arr - i)") auto

declare compact_loop.simps [simp del]

definition nonnil :: "'a option list \<Rightarrow> 'a list" where
  "nonnil xs = (case compact_loop xs 0 0 of (arr, n) \<Rightarrow> map the (take n arr))"

lemma compact_loop_inv:
  assumes "n \<le> i" and "i \<le> length arr"
    and "take n arr = filter (\<lambda>x. x \<noteq> None) (take i orig)"
    and "drop i arr = drop i orig" and "length arr = length orig"
  shows "case compact_loop arr i n of (arr', n') \<Rightarrow>
    n' \<le> length orig \<and> length arr' = length orig \<and>
    take n' arr' = filter (\<lambda>x. x \<noteq> None) orig"
  using assms
proof (induction arr i n rule: compact_loop.induct)
  case (1 arr i n)
  show ?case
  proof (cases "i < length arr")
    case False
    with 1 show ?thesis by (simp add: compact_loop.simps)
  next
    case True
    have io: "arr ! i = orig ! i"
      using 1 True by (metis nth_via_drop Cons_nth_drop_Suc)
    have dr: "drop (Suc i) arr = drop (Suc i) orig"
      using 1 by (metis drop_Suc tl_drop)
    show ?thesis
    proof (cases "arr ! i")
      case None
      with 1 True io dr show ?thesis
        by (subst compact_loop.simps) (simp add: take_Suc_conv_app_nth)
    next
      case (Some w)
      have tk: "take (Suc n) (arr[n := Some w]) = take n arr @ [Some w]"
        using 1 True by (simp add: take_Suc_conv_app_nth)
      have step: "compact_loop arr i n = compact_loop (arr[n := Some w]) (Suc i) (Suc n)"
        using True Some by (subst compact_loop.simps) simp
      have dr': "drop (Suc i) (arr[n := Some w]) = drop (Suc i) orig"
        using 1 dr by (simp add: drop_update_cancel)
      have tk': "take (Suc n) (arr[n := Some w]) = filter (\<lambda>x. x \<noteq> None) (take (Suc i) orig)"
        using 1 True Some io tk by (simp add: take_Suc_conv_app_nth)
      show ?thesis
        unfolding step by (rule "1.IH"(2) [OF True Some _ _ tk' dr']) (use 1 True in auto)
    qed
  qed
qed

lemma nonnil_eq: "nonnil xs = map the (filter (\<lambda>x. x \<noteq> None) xs)"
  using compact_loop_inv [of 0 0 xs xs] by (auto simp: nonnil_def split: prod.splits)

text \<open>What a loop visits that skips the nil entries of a slice.\<close>

definition present :: "'a option list \<Rightarrow> 'a list" where
  "present xs = List.map_filter (\<lambda>x. x) xs"

lemma present_simps [simp]:
  "present [] = []" "present (None # xs) = present xs" "present (Some x # xs) = x # present xs"
  by (simp_all add: present_def map_filter_simps)

lemma nonnil_Nil [simp]: "nonnil [] = []"
  and nonnil_None [simp]: "nonnil (None # xs) = nonnil xs"
  and nonnil_Some [simp]: "nonnil (Some x # xs) = x # nonnil xs"
  by (simp_all add: nonnil_eq)

lemma nonnil_append [simp]: "nonnil (xs @ ys) = nonnil xs @ nonnil ys"
  by (simp add: nonnil_eq)

lemma set_nonnil [simp]: "set (nonnil xs) = {x. Some x \<in> set xs}"
  by (induction xs) (auto split: option.splits simp: nonnil_eq image_iff)

lemma nonnil_map_Some [simp]: "nonnil (map Some xs) = xs"
  by (induction xs) simp_all

text \<open>The caller's slice after the loop: same length, the kept entries in front.\<close>

lemma compact_caller_slice:
  "take (length (nonnil xs)) (fst (compact_loop xs 0 0)) = map Some (nonnil xs)"
  "length (fst (compact_loop xs 0 0)) = length xs"
proof -
  obtain arr n where eq: "compact_loop xs 0 0 = (arr, n)" by fastforce
  with compact_loop_inv [of 0 0 xs xs]
  have n: "n \<le> length xs" "length arr = length xs" "take n arr = filter (\<lambda>x. x \<noteq> None) xs"
    by auto
  have len: "length (nonnil xs) = n"
    using n(1,2) eq by (simp add: nonnil_def)
  show "take (length (nonnil xs)) (fst (compact_loop xs 0 0)) = map Some (nonnil xs)"
    unfolding len eq fst_conv n(3)
    by (auto simp: nonnil_eq o_def intro!: map_idI [symmetric])
  show "length (fst (compact_loop xs 0 0)) = length xs"
    by (simp add: eq n)
qed

end
