(* ===== verification/Telemetry.thy ===== *)
theory Telemetry
  imports Prelude
begin

text \<open>
  Component metadata, log levels, loggers, sensors and the calls the components make on
  them (\<^verbatim>\<open>src/pkg/internal/types\<close>). A component never reads anything back from a logger or a
  sensor except a logger's level and a sensor's meters, so their effect is the sequence of
  calls: every operation of the model returns the list of \<open>effect\<close>s it makes, in order.
\<close>

section \<open>Metadata and log levels\<close>

record metadata =
  meta_ID :: string
  meta_Type :: string
  meta_Name :: string

definition empty_metadata :: metadata where
  "empty_metadata = \<lparr>meta_ID = '''', meta_Type = '''', meta_Name = ''''\<rparr>"

datatype loglevel =
  DebugLevel | InfoLevel | WarnLevel | ErrorLevel | DPanicLevel | PanicLevel | FatalLevel

fun level_num :: "loglevel \<Rightarrow> nat" where
  "level_num DebugLevel = 0"
| "level_num InfoLevel = 1"
| "level_num WarnLevel = 2"
| "level_num ErrorLevel = 3"
| "level_num DPanicLevel = 4"
| "level_num PanicLevel = 5"
| "level_num FatalLevel = 6"

lemma level_num_inject: "level_num a = level_num b \<longleftrightarrow> a = b"
  by (cases a; cases b) simp_all

text \<open>Levels are compared as the integers \<^verbatim>\<open>iota\<close> gives them.\<close>

instantiation loglevel :: linorder
begin

definition less_eq_loglevel :: "loglevel \<Rightarrow> loglevel \<Rightarrow> bool" where
  "less_eq_loglevel a b \<longleftrightarrow> level_num a \<le> level_num b"

definition less_loglevel :: "loglevel \<Rightarrow> loglevel \<Rightarrow> bool" where
  "less_loglevel a b \<longleftrightarrow> level_num a < level_num b"

instance
  by standard (auto simp: less_eq_loglevel_def less_loglevel_def level_num_inject)

end

section \<open>Loggers and sensors\<close>

text \<open>
  A logger is an identity, its level, and its \<^verbatim>\<open>IsLevelEnabled\<close> method when it has one. A
  sensor is an identity, its metadata and the meters attached to it.
\<close>

record logger =
  logger_id :: nat
  GetLevel :: loglevel
  IsLevelEnabled :: "(loglevel \<Rightarrow> bool) option"

record sensor =
  sensor_id :: nat
  sensor_metadata :: metadata
  GetMeters :: "nat list"

text \<open>
  A reference to another component, held by identity, with the metadata that log entries
  and sensor calls show of it.
\<close>

record component_ref =
  ref_id :: nat
  ref_metadata :: metadata

text \<open>The values that appear in the key/value lists of log entries.\<close>

datatype 'a logval =
    LMeta metadata | LInt int | LBool bool | LStr string | LTime gotime
  | LErr "gerr option" | LElem 'a | LAddr nat | LNil
  | LPtr bool \<comment> \<open>a function, channel or interface value: whether it is set\<close>

datatype 'a sensor_call =
    InvokeOnStart metadata
  | InvokeOnStop metadata
  | InvokeOnRestart metadata
  | InvokeOnComplete metadata
  | InvokeOnSubmit metadata 'a
  | InvokeOnElementProcessed metadata 'a
  | InvokeOnError metadata gerr 'a
  | InvokeOnCancel metadata 'a
  | InvokeOnInsulatorAttempt metadata 'a 'a "gerr option" gerr int int duration
  | InvokeOnInsulatorSuccess metadata 'a 'a "gerr option" gerr int int duration
  | InvokeOnInsulatorFailure metadata 'a 'a "gerr option" gerr int int duration
  | InvokeOnCircuitBreakerTrip metadata int int
  | InvokeOnCircuitBreakerReset metadata int
  | InvokeOnCircuitBreakerNeutralWireSubmission metadata 'a
  | InvokeOnCircuitBreakerRecordError metadata int
  | InvokeOnCircuitBreakerAllow metadata
  | InvokeOnCircuitBreakerDrop metadata 'a
  | InvokeOnResisterQueued metadata 'a
  | InvokeOnResisterRequeued metadata 'a
  | InvokeOnResisterDequeued metadata 'a
  | InvokeOnResisterEmpty metadata
  | InvokeOnSurgeProtectorTrip metadata
  | InvokeOnSurgeProtectorReset metadata
  | InvokeOnSurgeProtectorBackupFailure metadata gerr
  | InvokeOnSurgeProtectorBackupWireSubmit metadata 'a
  | InvokeOnSurgeProtectorReleaseToken metadata
  | InvokeOnSurgeProtectorConnectResister metadata metadata
  | InvokeOnSurgeProtectorDetachedBackups metadata metadata
  | InvokeOnSurgeProtectorSubmit metadata 'a
  | InvokeOnSurgeProtectorRateLimitExceeded metadata 'a
  | InvokeOnHTTPClientRequestStart metadata
  | InvokeOnHTTPClientResponseReceived metadata
  | InvokeOnHTTPClientError metadata gerr
  | InvokeOnHTTPClientRequestComplete metadata

datatype 'a effect =
    LogCall nat loglevel string "(string \<times> 'a logval) list"
  | SensorCall nat "'a sensor_call"
  | MeterIncrement nat string

section \<open>The two shapes of \<open>NotifyLoggers\<close>\<close>

text \<open>
  Most components ask \<^verbatim>\<open>IsLevelEnabled\<close> when the logger has it and compare levels
  otherwise; the plug and the generator always compare levels; a wire asks
  \<^verbatim>\<open>IsLevelEnabled\<close> only.
\<close>

definition logger_wants :: "loglevel \<Rightarrow> logger \<Rightarrow> bool" where
  "logger_wants level l =
     (case IsLevelEnabled l of
        Some enabled \<Rightarrow> enabled level
      | None \<Rightarrow> \<not> GetLevel l > level)"

definition logger_wants_by_level :: "loglevel \<Rightarrow> logger \<Rightarrow> bool" where
  "logger_wants_by_level level l \<longleftrightarrow> \<not> GetLevel l > level"

definition logger_wants_unless_disabled :: "loglevel \<Rightarrow> logger \<Rightarrow> bool" where
  "logger_wants_unless_disabled level l =
     (case IsLevelEnabled l of Some enabled \<Rightarrow> enabled level | None \<Rightarrow> True)"

fun log_calls ::
  "(loglevel \<Rightarrow> logger \<Rightarrow> bool) \<Rightarrow> logger list \<Rightarrow> loglevel \<Rightarrow> string \<Rightarrow>
   (string \<times> 'a logval) list \<Rightarrow> 'a effect list" where
  "log_calls wants [] level msg kvs = []"
| "log_calls wants (l # ls) level msg kvs =
     (if wants level l then LogCall (logger_id l) level msg kvs # log_calls wants ls level msg kvs
      else log_calls wants ls level msg kvs)"

definition sensor_calls :: "sensor list \<Rightarrow> 'a sensor_call \<Rightarrow> 'a effect list" where
  "sensor_calls ss c = map (\<lambda>s. SensorCall (sensor_id s) c) ss"

definition count_on_meters :: "sensor list \<Rightarrow> string \<Rightarrow> 'a effect list" where
  "count_on_meters ss metric =
     concat (map (\<lambda>s. map (\<lambda>m. MeterIncrement m metric) (GetMeters s)) ss)"

section \<open>Lemmas\<close>

definition sensor_events :: "'a effect list \<Rightarrow> (nat \<times> 'a sensor_call) list" where
  "sensor_events es =
     List.map_filter (\<lambda>e. case e of SensorCall s c \<Rightarrow> Some (s, c) | _ \<Rightarrow> None) es"

lemma sensor_events_simps [simp]:
  "sensor_events [] = []"
  "sensor_events (SensorCall s c # es) = (s, c) # sensor_events es"
  "sensor_events (LogCall l lv m kvs # es) = sensor_events es"
  "sensor_events (MeterIncrement mt k # es) = sensor_events es"
  "sensor_events (xs @ ys) = sensor_events xs @ sensor_events ys"
  by (simp_all add: sensor_events_def List.map_filter_def)

lemma sensor_events_log_calls [simp]: "sensor_events (log_calls wants ls level msg kvs) = []"
  by (induction ls) auto

lemma sensor_events_count_on_meters [simp]: "sensor_events (count_on_meters ss k) = []"
  by (induction ss) (auto simp: count_on_meters_def sensor_events_def List.map_filter_def)

lemma sensor_events_sensor_calls [simp]:
  "sensor_events (sensor_calls ss c) = map (\<lambda>s. (sensor_id s, c)) ss"
  by (induction ss) (auto simp: sensor_calls_def)

lemma log_calls_eq:
  "log_calls wants ls level msg kvs =
   map (\<lambda>l. LogCall (logger_id l) level msg kvs) (filter (wants level) ls)"
  by (induction ls) simp_all

end
