(* ===== verification/Go_Float.thy ===== *)
theory Go_Float
  imports Complex_Main Prelude
begin

text \<open>
  The part of Go's \<^verbatim>\<open>float64\<close> the meter, the plots of the display and the priorities of elements use: conversion
  from integers, addition, multiplication, division, comparison and truncation to integers. A
  finite value is the rational it denotes; every operation rounds its exact result to 53
  significant bits, ties to even, as IEEE 754 does. The operands are 64-bit integers,
  durations and percentages, whose results stay within \<open>2^-100\<close> and \<open>2^200\<close>, so neither
  overflow nor subnormal numbers arise and they are not modelled; nor is the sign of zero,
  which no comparison sees.
\<close>

datatype float64 = Fin rat | PosInf | NegInf | NaN

section \<open>Rounding\<close>

definition round_even :: "rat \<Rightarrow> int" where
  "round_even q =
     (let f = \<lfloor>q\<rfloor>; r = q - of_int f in
      if r < 1/2 then f else if 1/2 < r then f + 1
      else if even f then f else f + 1)"

text \<open>The number of binary digits.\<close>

fun bits :: "nat \<Rightarrow> nat" where
  "bits n = (if n = 0 then 0 else Suc (bits (n div 2)))"

declare bits.simps [simp del]

definition scale2 :: "int \<Rightarrow> rat" where
  "scale2 e = (if 0 \<le> e then 2 ^ nat e else 1 / 2 ^ nat (- e))"

definition round_pos :: "rat \<Rightarrow> rat" where
  "round_pos x =
     (let (n, d) = quotient_of x;
          e0 = int (bits (nat n)) - int (bits (nat d)) - 53;
          e = (if x / scale2 e0 \<ge> 2 ^ 53 then e0 + 1 else e0)
      in of_int (round_even (x / scale2 e)) * scale2 e)"

definition round64 :: "rat \<Rightarrow> rat" where
  "round64 x = (if x = 0 then 0 else if x < 0 then - round_pos (- x) else round_pos x)"

section \<open>Operations\<close>

definition float_of_int :: "int \<Rightarrow> float64" where
  "float_of_int i = Fin (round64 (of_int i))"

definition float_of_uint64 :: "64 word \<Rightarrow> float64" where
  "float_of_uint64 w = float_of_int (uint w)"

fun float_neg :: "float64 \<Rightarrow> float64" where
  "float_neg (Fin a) = Fin (- a)"
| "float_neg PosInf = NegInf"
| "float_neg NegInf = PosInf"
| "float_neg NaN = NaN"

fun float_add :: "float64 \<Rightarrow> float64 \<Rightarrow> float64" where
  "float_add (Fin a) (Fin b) = Fin (round64 (a + b))"
| "float_add NaN y = NaN"
| "float_add x NaN = NaN"
| "float_add (Fin a) y = y"
| "float_add x (Fin b) = x"
| "float_add x y = (if x = y then x else NaN)"

definition float_sign :: "float64 \<Rightarrow> int" where
  "float_sign x =
     (case x of Fin a \<Rightarrow> (if a < 0 then - 1 else if a = 0 then 0 else 1)
      | PosInf \<Rightarrow> 1 | NegInf \<Rightarrow> - 1 | NaN \<Rightarrow> 0)"

definition inf_of_sign :: "int \<Rightarrow> float64" where
  "inf_of_sign s = (if s = 0 then NaN else if s < 0 then NegInf else PosInf)"

fun float_mul :: "float64 \<Rightarrow> float64 \<Rightarrow> float64" where
  "float_mul (Fin a) (Fin b) = Fin (round64 (a * b))"
| "float_mul NaN y = NaN"
| "float_mul x NaN = NaN"
| "float_mul x y = inf_of_sign (float_sign x * float_sign y)"

text \<open>The sign of an infinite quotient by zero is that of the dividend: the code's zeros are positive.\<close>

fun float_div :: "float64 \<Rightarrow> float64 \<Rightarrow> float64" where
  "float_div (Fin a) (Fin b) = (if b = 0 then inf_of_sign (float_sign (Fin a)) else Fin (round64 (a / b)))"
| "float_div NaN y = NaN"
| "float_div x NaN = NaN"
| "float_div (Fin a) y = Fin 0"
| "float_div x (Fin b) = inf_of_sign (float_sign x * (if b < 0 then - 1 else 1))"
| "float_div x y = NaN"

fun float_less :: "float64 \<Rightarrow> float64 \<Rightarrow> bool" where
  "float_less (Fin a) (Fin b) = (a < b)"
| "float_less NaN y = False"
| "float_less x NaN = False"
| "float_less NegInf y = (y \<noteq> NegInf)"
| "float_less x PosInf = (x \<noteq> PosInf)"
| "float_less x y = False"

definition float_le :: "float64 \<Rightarrow> float64 \<Rightarrow> bool" where
  "float_le x y \<longleftrightarrow> float_less x y \<or> x = y \<and> x \<noteq> NaN"

text \<open>
  \<^verbatim>\<open>uint64(x)\<close> drops the fraction; the result for a value out of range is left to the
  implementation, an argument of the conversion.
\<close>

definition uint64_of_float :: "(float64 \<Rightarrow> 64 word) \<Rightarrow> float64 \<Rightarrow> 64 word" where
  "uint64_of_float out_of_range x =
     (case x of
        Fin a \<Rightarrow> (if - 1 < a \<and> a < 2 ^ 64 then word_of_int (if a < 0 then 0 else \<lfloor>a\<rfloor>) else out_of_range x)
      | _ \<Rightarrow> out_of_range x)"

section \<open>Lemmas\<close>

lemma round_even_of_int [simp]: "round_even (of_int i) = i"
  by (simp add: round_even_def)

lemma round_even_bounds: "\<lfloor>q\<rfloor> \<le> round_even q" "round_even q \<le> \<lfloor>q\<rfloor> + 1"
  by (auto simp: round_even_def Let_def)

lemma scale2_pos [simp]: "0 < scale2 e"
  by (simp add: scale2_def)

lemma bits_0 [simp]: "bits 0 = 0"
  by (simp add: bits.simps)

lemma bits_pos: "0 < n \<Longrightarrow> bits n = Suc (bits (n div 2))"
  by (subst bits.simps) simp

lemma bits_le: "n < 2 ^ k \<Longrightarrow> bits n \<le> k"
proof (induction k arbitrary: n)
  case (Suc k)
  then have "n div 2 < 2 ^ k" by auto
  with Suc.IH [OF this] show ?case by (cases "n = 0") (simp_all add: bits_pos)
qed simp

text \<open>Integers below \<open>2^53\<close> are represented exactly.\<close>

lemma round_pos_int:
  assumes "0 < k" and "k < 2 ^ 53"
  shows "round_pos (of_int k) = of_int k"
proof -
  define e0 where "e0 = int (bits (nat k)) - int (bits (nat 1)) - 53"
  define e where "e = (if (of_int k :: rat) / scale2 e0 \<ge> 2 ^ 53 then e0 + 1 else e0)"
  have "bits (nat k) \<le> 53" using assms by (intro bits_le) (simp add: nat_less_iff)
  then have "e \<le> 0" by (simp add: e_def e0_def bits_pos)
  then have sc: "scale2 e = 1 / 2 ^ nat (- e)" by (auto simp: scale2_def)
  have "(of_int k :: rat) / scale2 e = of_int (k * 2 ^ nat (- e))" by (simp add: sc)
  then have "round_even ((of_int k :: rat) / scale2 e) = k * 2 ^ nat (- e)"
    by (metis round_even_of_int)
  moreover have "round_pos (of_int k) = of_int (round_even ((of_int k :: rat) / scale2 e)) * scale2 e"
    by (simp add: round_pos_def e_def e0_def Let_def)
  ultimately show ?thesis by (simp add: sc)
qed

lemma round64_int: "\<bar>k\<bar> < 2 ^ 53 \<Longrightarrow> round64 (of_int k) = of_int k"
  using round_pos_int [of k] round_pos_int [of "- k"] by (auto simp: round64_def)

lemma round64_1 [simp]: "round64 1 = 1" and round64_0 [simp]: "round64 0 = 0"
  using round64_int [of 1] by (simp_all add: round64_def)

text \<open>Rounding at most doubles a value: the quotient that is rounded is at least 1.\<close>

lemma scale2_powi: "scale2 e = 2 powi e"
  unfolding scale2_def power_int_def by (simp only: power_inverse inverse_eq_divide power_one_over)

lemma bits_bounds: "0 < n \<Longrightarrow> 2 ^ (bits n - 1) \<le> n \<and> n < 2 ^ bits n"
proof (induction n rule: bits.induct)
  case (1 n)
  show ?case
  proof (cases "n = 1")
    case True
    then show ?thesis by (simp add: bits.simps)
  next
    case False
    then have "0 < n div 2" using "1.prems" by auto
    then have IH: "2 ^ (bits (n div 2) - 1) \<le> n div 2" "n div 2 < 2 ^ bits (n div 2)" using "1.IH" "1.prems" by auto
    have "bits (n div 2) \<noteq> 0" using \<open>0 < n div 2\<close> by (simp add: bits_pos)
    then have "2 ^ bits (n div 2) = 2 * (2::nat) ^ (bits (n div 2) - 1)" by (cases "bits (n div 2)") auto
    then have "2 ^ bits (n div 2) \<le> n" "n < 2 * 2 ^ bits (n div 2)" using IH by linarith+
    then show ?thesis using "1.prems" by (simp add: bits_pos)
  qed
qed

lemma round_pos_le:
  assumes "0 < x"
  shows "0 \<le> round_pos x \<and> round_pos x \<le> 2 * x"
proof -
  obtain n d where q: "quotient_of x = (n, d)" by fastforce
  have d: "0 < d" using quotient_of_denom_pos [OF q] .
  have x: "x = of_int n / of_int d" using quotient_of_div [OF q] .
  then have n: "0 < n" using assms d by (simp add: zero_less_divide_iff)
  let ?bn = "bits (nat n)" and ?bd = "bits (nat d)"
  define e0 where "e0 = int ?bn - int ?bd - 53"
  define e where "e = (if x / scale2 e0 \<ge> 2 ^ 53 then e0 + 1 else e0)"
  have bn: "2 ^ (?bn - 1) \<le> (of_int n :: rat)"
  proof -
    have "int (2 ^ (?bn - 1)) \<le> n" using bits_bounds [of "nat n"] n by (simp add: le_nat_iff)
    then have "(of_int (int (2 ^ (?bn - 1))) :: rat) \<le> of_int n" by (simp only: of_int_le_iff)
    then show ?thesis by simp
  qed
  have bd: "(of_int d :: rat) \<le> 2 ^ ?bd"
  proof -
    have "d \<le> int (2 ^ ?bd)" using bits_bounds [of "nat d"] d by linarith
    then have "(of_int d :: rat) \<le> of_int (int (2 ^ ?bd))" by (simp only: of_int_le_iff)
    then show ?thesis by simp
  qed
  have "2 ^ 52 \<le> x / scale2 e0"
  proof -
    have "0 < ?bn" using n by (simp add: bits_pos)
    then have "(2 :: rat) ^ (?bn - 1) = 2 powi (int ?bn - 1)" by (simp add: power_int_def nat_diff_distrib)
    also have "int ?bn - 1 = 52 + e0 + int ?bd" by (simp add: e0_def)
    also have "(2 :: rat) powi (52 + e0 + int ?bd) = 2 ^ 52 * scale2 e0 * 2 ^ ?bd"
      by (simp add: scale2_powi power_int_add)
    finally have two: "(2 :: rat) ^ (?bn - 1) = 2 ^ 52 * scale2 e0 * 2 ^ ?bd" .
    have "2 ^ 52 * scale2 e0 * of_int d \<le> 2 ^ 52 * scale2 e0 * 2 ^ ?bd"
      by (rule mult_left_mono [OF bd]) (simp add: less_imp_le)
    also have "\<dots> \<le> of_int n" unfolding two [symmetric] by (rule bn)
    finally have "2 ^ 52 * scale2 e0 * of_int d \<le> of_int n" .
    then show ?thesis using d scale2_pos [of e0] by (simp add: x field_simps)
  qed
  moreover have "scale2 (e0 + 1) = 2 * scale2 e0" by (simp add: scale2_powi power_int_add)
  ultimately have s: "1 \<le> x / scale2 e"
    by (simp add: e_def pos_le_divide_eq split: if_split) (use scale2_pos [of e0] in linarith)
  have r: "round_pos x = of_int (round_even (x / scale2 e)) * scale2 e"
    by (simp add: round_pos_def q Let_def e0_def e_def)
  have up: "of_int (round_even (x / scale2 e)) \<le> x / scale2 e + 1" and lo: "0 \<le> round_even (x / scale2 e)"
    using round_even_bounds [of "x / scale2 e"] s by linarith+
  have "round_pos x \<le> 2 * (x / scale2 e) * scale2 e"
    unfolding r using up s scale2_pos [of e] by (intro mult_right_mono) linarith+
  moreover have "0 \<le> round_pos x" unfolding r using lo by (intro mult_nonneg_nonneg) (simp_all add: less_imp_le)
  ultimately show ?thesis using scale2_pos [of e] by simp
qed

lemma round64_abs: "\<bar>round64 x\<bar> \<le> 2 * \<bar>x\<bar>"
  using round_pos_le [of x] round_pos_le [of "- x"] by (auto simp: round64_def)

lemma float_of_uint64_exact:
  assumes "unat w < 2 ^ 53"
  shows "float_of_uint64 w = Fin (of_nat (unat w))"
proof -
  have u: "uint w = int (unat w)" by simp
  have "int (unat w) < 2 ^ 53" using assms by (metis of_nat_less_iff of_nat_numeral of_nat_power)
  then have "\<bar>uint w\<bar> < 2 ^ 53" by (simp only: u abs_of_nat)
  from round64_int [OF this] show ?thesis
    unfolding float_of_uint64_def float_of_int_def u by simp
qed

lemma float_le_Fin [simp]: "float_le (Fin a) (Fin b) \<longleftrightarrow> a \<le> b"
  by (auto simp: float_le_def)

end
