(* ===== verification/Element.thy ===== *)
theory Element
  imports Go_Float
begin

text \<open>
  Queue elements (\<^verbatim>\<open>src/pkg/internal/types/element.go\<close>): the record, its constructors, the
  retry counter and the two priority adjustments. \<^verbatim>\<open>int32\<close> fields wrap around. The identifier
  of \<^verbatim>\<open>NewElementFast\<close> is the next value of a process-wide 64-bit sequence in base 36.
\<close>

section \<open>Elements\<close>

record 'a element =
  elem_ID :: string
  Data :: 'a
  QueuePriority :: int
  CreationTime :: gotime
  RetryCount :: int
  Hash :: string

record 'a element_error =
  ee_Err :: gerr
  ee_Elem :: 'a

text \<open>\<^verbatim>\<open>strconv.FormatUint(id, 36)\<close>: the digits of \<open>id\<close> in base 36, most significant first.\<close>

definition digit36 :: "nat \<Rightarrow> char" where
  "digit36 d = (if d < 10 then char_of (48 + d) else char_of (87 + d))"

fun FormatUint36 :: "nat \<Rightarrow> string" where
  "FormatUint36 n = (if n < 36 then [digit36 n] else FormatUint36 (n div 36) @ [digit36 (n mod 36)])"

declare FormatUint36.simps [simp del]

definition next_seq :: "nat \<Rightarrow> nat" where
  "next_seq n = (n + 1) mod 18446744073709551616"

definition NewElementFast :: "nat \<Rightarrow> gotime \<Rightarrow> 'a \<Rightarrow> nat \<times> 'a element" where
  "NewElementFast elementSeq now data =
     (let ident = next_seq elementSeq in
      (ident, \<lparr>elem_ID = FormatUint36 ident, Data = data, QueuePriority = 0, CreationTime = now,
               RetryCount = 0, Hash = ''''\<rparr>))"

text \<open>The two content-hash constructors, over the hash function of \<^verbatim>\<open>utils.GenerateSha256Hash\<close>.\<close>

definition NewElementHashed :: "('a \<Rightarrow> string) \<Rightarrow> gotime \<Rightarrow> 'a \<Rightarrow> 'a element" where
  "NewElementHashed sha256 now data =
     \<lparr>elem_ID = sha256 data, Data = data, QueuePriority = 0, CreationTime = now,
      RetryCount = 0, Hash = ''''\<rparr>"

definition NewElement :: "('a \<Rightarrow> string) \<Rightarrow> gotime \<Rightarrow> 'a \<Rightarrow> 'a element" where
  "NewElement sha256 now data =
     \<lparr>elem_ID = sha256 data, Data = data, QueuePriority = 0, CreationTime = now,
      RetryCount = 0, Hash = ''''\<rparr>"

definition IsSame :: "'a element \<Rightarrow> 'a element option \<Rightarrow> bool" where
  "IsSame e other = (case other of None \<Rightarrow> False | Some o' \<Rightarrow> elem_ID e = elem_ID o')"

definition IncrementRetryCount :: "'a element \<Rightarrow> 'a element" where
  "IncrementRetryCount e = e\<lparr>RetryCount := wrap_i32 (RetryCount e + 1)\<rparr>"

text \<open>
  \<^verbatim>\<open>Duration.Minutes\<close>, a \<^verbatim>\<open>float64\<close>, and its conversion to \<^verbatim>\<open>int32\<close>, which drops the fraction. The minutes of a
  duration are finite and within the range of \<^verbatim>\<open>int32\<close> (\<open>dur_Minutes_range\<close>), so the conversion is defined.
\<close>

definition dur_Minutes :: "duration \<Rightarrow> float64" where
  "dur_Minutes d =
     (let m = go_quot d 60000000000 in
      float_add (float_of_int m) (float_div (float_of_int (d - m * 60000000000)) (Fin 60000000000)))"

definition int32_of_float :: "float64 \<Rightarrow> int" where
  "int32_of_float x = (case x of Fin a \<Rightarrow> (if a < 0 then \<lceil>a\<rceil> else \<lfloor>a\<rfloor>) | _ \<Rightarrow> 0)"

definition AdjustPriority :: "gotime \<Rightarrow> 'a element \<Rightarrow> 'a element" where
  "AdjustPriority now e =
     (let timeInQueue = time_Sub now (CreationTime e);
          p1 = wrap_i32 (QueuePriority e + wrap_i32 (int32_of_float (dur_Minutes timeInQueue)));
          p2 = wrap_i32 (p1 + RetryCount e)
      in e\<lparr>QueuePriority := p2\<rparr>)"

definition DecayPriority :: "'a element \<Rightarrow> 'a element" where
  "DecayPriority e =
     (if RetryCount e > 5 then
        let newPriority = wrap_i32 (QueuePriority e - 2) in
        e\<lparr>QueuePriority := (if newPriority < 0 then 0 else newPriority)\<rparr>
      else e)"

section \<open>Lemmas\<close>

lemma elem_frame [simp]:
  "elem_ID (IncrementRetryCount e) = elem_ID e"
  "Data (IncrementRetryCount e) = Data e"
  "QueuePriority (IncrementRetryCount e) = QueuePriority e"
  "elem_ID (AdjustPriority now e) = elem_ID e"
  "Data (AdjustPriority now e) = Data e"
  "RetryCount (AdjustPriority now e) = RetryCount e"
  "elem_ID (DecayPriority e) = elem_ID e"
  "Data (DecayPriority e) = Data e"
  "RetryCount (DecayPriority e) = RetryCount e"
  by (simp_all add: IncrementRetryCount_def AdjustPriority_def DecayPriority_def Let_def)

definition undigit36 :: "char \<Rightarrow> nat" where
  "undigit36 c = (let k = of_char c :: nat in if k < 58 then k - 48 else k - 87)"

definition ParseUint36 :: "string \<Rightarrow> nat" where
  "ParseUint36 s = foldl (\<lambda>acc c. acc * 36 + undigit36 c) 0 s"

lemma undigit36_digit36: "d < 36 \<Longrightarrow> undigit36 (digit36 d) = d"
  by (auto simp: undigit36_def digit36_def Let_def)

lemma ParseUint36_FormatUint36 [simp]: "ParseUint36 (FormatUint36 n) = n"
proof (induction n rule: FormatUint36.induct)
  case (1 n)
  show ?case
  proof (cases "n < 36")
    case True
    then show ?thesis
      by (subst FormatUint36.simps) (simp add: ParseUint36_def undigit36_digit36)
  next
    case False
    with 1 have "ParseUint36 (FormatUint36 (n div 36)) = n div 36" by simp
    then show ?thesis using False
      by (subst FormatUint36.simps) (simp add: ParseUint36_def undigit36_digit36)
  qed
qed

lemma FormatUint36_inject [simp]: "FormatUint36 m = FormatUint36 n \<longleftrightarrow> m = n"
  by (metis ParseUint36_FormatUint36)

lemma dur_Minutes_range:
  assumes "is_i64 d"
  shows "\<exists>a. dur_Minutes d = Fin a \<and> \<bar>a\<bar> < 2 ^ 31" and "is_i32 (int32_of_float (dur_Minutes d))"
proof -
  define m r where "m = go_quot d 60000000000" and "r = d - m * 60000000000"
  have d: "\<bar>d\<bar> \<le> 9223372036854775808" using assms by (auto simp: is_i64_def)
  then have m: "\<bar>m\<bar> \<le> 153722868" by (auto simp: m_def go_quot_def Let_def)
  have r: "\<bar>r\<bar> < 60000000000" 
  proof (cases "d < 0")
    case True
    then have "r = - ((- d) mod 60000000000)" by (simp add: r_def m_def go_quot_def minus_div_mult_eq_mod [symmetric])
    then show ?thesis using pos_mod_bound [of 60000000000 "- d"] pos_mod_sign [of 60000000000 "- d"] by simp
  next
    case False
    then have "r = d mod 60000000000" by (simp add: r_def m_def go_quot_def minus_div_mult_eq_mod)
    then show ?thesis using pos_mod_bound [of 60000000000 d] pos_mod_sign [of 60000000000 d] by simp
  qed
  have exact: "round64 (of_int m) = of_int m" "round64 (of_int r) = of_int r"
    using m r by (simp_all add: round64_int)
  define q where "q = round64 (of_int r / 60000000000)"
  have "\<bar>rat_of_int r / 60000000000\<bar> < 1"
    using r by (simp add: abs_divide)
  then have q: "\<bar>q\<bar> < 2" using round64_abs [of "of_int r / 60000000000"] by (simp add: q_def)
  have "\<bar>rat_of_int m\<bar> \<le> 153722868" using m by (metis of_int_abs of_int_le_iff of_int_numeral)
  then have s: "\<bar>round64 (of_int m + q)\<bar> < 2 ^ 31"
    using q round64_abs [of "of_int m + q"] abs_triangle_ineq [of "of_int m" q] by simp
  have eq: "dur_Minutes d = Fin (round64 (of_int m + q))"
    unfolding dur_Minutes_def Let_def float_of_int_def m_def [symmetric] r_def [symmetric] exact by (simp add: q_def)
  then show "\<exists>a. dur_Minutes d = Fin a \<and> \<bar>a\<bar> < 2 ^ 31" using s by blast
  show "is_i32 (int32_of_float (dur_Minutes d))"
    using s by (auto simp: eq int32_of_float_def is_i32_def le_ceiling_iff ceiling_le_iff le_floor_iff floor_le_iff abs_less_iff)
qed

lemma is_i64_time_Sub [simp]: "is_i64 (time_Sub t u)"
  by (auto simp: is_i64_def time_Sub_def)

text \<open>A run of \<^verbatim>\<open>NewElementFast\<close> calls.\<close>

fun new_elements :: "nat \<Rightarrow> (gotime \<times> 'a) list \<Rightarrow> 'a element list" where
  "new_elements sq [] = []"
| "new_elements sq ((now, d) # xs) =
     (let (sq', e) = NewElementFast sq now d in e # new_elements sq' xs)"

lemma new_elements_ids:
  "sq + length xs < 18446744073709551616 \<Longrightarrow>
   map elem_ID (new_elements sq xs) = map FormatUint36 [Suc sq..<Suc sq + length xs]"
proof (induction sq xs rule: new_elements.induct)
  case (2 sq now d xs)
  have "next_seq sq = Suc sq" using 2 by (simp add: next_seq_def)
  with 2 show ?case by (simp add: NewElementFast_def Let_def upt_conv_Cons del: upt_Suc)
qed simp

section \<open>Properties\<close>

text \<open>
  identifiers of \<^verbatim>\<open>NewElementFast\<close> are pairwise different until the 64-bit sequence wraps
  around, and the base-36 text of a sequence number determines the number.
\<close>

theorem NewElementFast_ids_distinct:
  assumes "sq + length xs < 18446744073709551616"
  shows "distinct (map elem_ID (new_elements sq xs)) \<and>
    map (\<lambda>e. ParseUint36 (elem_ID e)) (new_elements sq xs) = [Suc sq..<Suc sq + length xs]"
proof -
  have "map (\<lambda>e. ParseUint36 (elem_ID e)) (new_elements sq xs) =
    map ParseUint36 (map elem_ID (new_elements sq xs))" by simp
  then show ?thesis
    unfolding new_elements_ids [OF assms]
    by (simp add: distinct_map inj_on_def o_def)
qed

theorem NewElementFast_ids_distinct_witness:
  "let es = new_elements 35 [(100, ''a''), (200, ''b'')] in
   distinct (map elem_ID es) \<and>
   map (\<lambda>e. ParseUint36 (elem_ID e)) es = [Suc 35..<Suc 35 + length [(100 :: int, ''a''), (200, ''b'')]]"
  unfolding Let_def by (rule NewElementFast_ids_distinct) simp

text \<open>
  \<^verbatim>\<open>DecayPriority\<close> only acts on elements retried more than five times; from a
  non-negative priority it never raises the priority and never makes it negative, and it
  takes off two points as long as two points are left.
\<close>

theorem DecayPriority_behaviour:
  assumes "0 \<le> QueuePriority e" and "is_i32 (QueuePriority e)"
  shows "QueuePriority (DecayPriority e) =
           (if RetryCount e > 5 then max 0 (QueuePriority e - 2) else QueuePriority e) \<and>
         0 \<le> QueuePriority (DecayPriority e) \<and>
         QueuePriority (DecayPriority e) \<le> QueuePriority e"
proof -
  have "wrap_i32 (QueuePriority e - 2) = QueuePriority e - 2"
    using assms by (auto simp: is_i32_def intro!: wrap_i32_id)
  then show ?thesis using assms by (auto simp: DecayPriority_def Let_def)
qed

theorem DecayPriority_behaviour_witness:
  "let e = \<lparr>elem_ID = ''x'', Data = (), QueuePriority = 1, CreationTime = 5, RetryCount = 6, Hash = ''''\<rparr> in
   QueuePriority (DecayPriority e) =
     (if RetryCount e > 5 then max 0 (QueuePriority e - 2) else QueuePriority e) \<and>
   0 \<le> QueuePriority (DecayPriority e) \<and> QueuePriority (DecayPriority e) \<le> QueuePriority e"
  unfolding Let_def by (rule DecayPriority_behaviour) (simp_all add: is_i32_def)

end
