(* ===== verification/Go_Heap.thy ===== *)
theory Go_Heap
  imports Prelude
begin

text \<open>
  Go's \<^verbatim>\<open>container/heap\<close> as the resister uses it: a binary heap in a slice, with
  \<^verbatim>\<open>up\<close>, \<^verbatim>\<open>down\<close>, \<^verbatim>\<open>Init\<close>, \<^verbatim>\<open>Push\<close>, \<^verbatim>\<open>Pop\<close> and \<^verbatim>\<open>Fix\<close> over a comparison \<open>lt\<close> (the
  \<^verbatim>\<open>Less\<close> method of \<^verbatim>\<open>heap.Interface\<close>). The locale \<open>heap_less\<close> states what the library asks
  of \<^verbatim>\<open>Less\<close> (a strict weak ordering); inside it every operation is shown to keep the heap
  order and the multiset of entries, and the root is shown to be a minimum.
\<close>

section \<open>The operations\<close>

definition swap :: "'a list \<Rightarrow> nat \<Rightarrow> nat \<Rightarrow> 'a list" where
  "swap xs i j = xs[i := xs ! j, j := xs ! i]"

function heap_up :: "('a \<Rightarrow> 'a \<Rightarrow> bool) \<Rightarrow> 'a list \<Rightarrow> nat \<Rightarrow> 'a list" where
  "heap_up lt xs j =
     (let i = (j - 1) div 2 in
      if i = j \<or> \<not> lt (xs ! j) (xs ! i) then xs
      else heap_up lt (swap xs i j) i)"
  by pat_completeness auto
termination
  by (relation "measure (\<lambda>(lt, xs, j). j)") auto

text \<open>\<open>heap_down lt xs i n\<close> returns the slice and the index the entry came to rest at.\<close>

definition pick_child :: "('a \<Rightarrow> 'a \<Rightarrow> bool) \<Rightarrow> 'a list \<Rightarrow> nat \<Rightarrow> nat \<Rightarrow> nat" where
  "pick_child lt xs i n =
     (let j1 = 2 * i + 1; j2 = j1 + 1 in
      if j2 < n \<and> lt (xs ! j2) (xs ! j1) then j2 else j1)"

function heap_down :: "('a \<Rightarrow> 'a \<Rightarrow> bool) \<Rightarrow> 'a list \<Rightarrow> nat \<Rightarrow> nat \<Rightarrow> 'a list \<times> nat" where
  "heap_down lt xs i n =
     (if 2 * i + 1 \<ge> n then (xs, i)
      else let j = pick_child lt xs i n in
        if \<not> lt (xs ! j) (xs ! i) then (xs, i)
        else heap_down lt (swap xs i j) j n)"
  by pat_completeness auto
termination
  by (relation "measure (\<lambda>(lt, xs, i, n). n - i)") (auto simp: pick_child_def Let_def)

declare heap_up.simps [simp del] heap_down.simps [simp del]

definition heap_Push :: "('a \<Rightarrow> 'a \<Rightarrow> bool) \<Rightarrow> 'a list \<Rightarrow> 'a \<Rightarrow> 'a list" where
  "heap_Push lt xs x = heap_up lt (xs @ [x]) (length (xs @ [x]) - 1)"

text \<open>\<^verbatim>\<open>heap.Pop\<close> panics on an empty heap; its callers check the length first.\<close>

definition heap_Pop :: "('a \<Rightarrow> 'a \<Rightarrow> bool) \<Rightarrow> 'a list \<Rightarrow> ('a \<times> 'a list) option" where
  "heap_Pop lt xs =
     (if xs = [] then None
      else let n = length xs - 1;
               ys = fst (heap_down lt (swap xs 0 n) 0 n)
           in Some (last ys, butlast ys))"

definition heap_Fix :: "('a \<Rightarrow> 'a \<Rightarrow> bool) \<Rightarrow> 'a list \<Rightarrow> nat \<Rightarrow> 'a list" where
  "heap_Fix lt xs i =
     (let (ys, k) = heap_down lt xs i (length xs) in
      if k > i then ys else heap_up lt ys i)"

fun heap_Init_loop :: "('a \<Rightarrow> 'a \<Rightarrow> bool) \<Rightarrow> nat \<Rightarrow> 'a list \<Rightarrow> 'a list" where
  "heap_Init_loop lt 0 xs = xs"
| "heap_Init_loop lt (Suc i) xs =
     heap_Init_loop lt i (fst (heap_down lt xs i (length xs)))"

definition heap_Init :: "('a \<Rightarrow> 'a \<Rightarrow> bool) \<Rightarrow> 'a list \<Rightarrow> 'a list" where
  "heap_Init lt xs = heap_Init_loop lt (length xs div 2) xs"

section \<open>Swapping, entries and lengths\<close>

lemma length_swap [simp]: "length (swap xs i j) = length xs"
  by (simp add: swap_def)

lemma nth_swap:
  assumes "i < length xs" and "j < length xs"
  shows "swap xs i j ! m = (if m = i then xs ! j else if m = j then xs ! i else xs ! m)"
  using assms unfolding swap_def by (simp add: nth_list_update)

lemma mset_swap_eq [simp]: "i < length xs \<Longrightarrow> j < length xs \<Longrightarrow> mset (swap xs i j) = mset xs"
  by (simp add: swap_def mset_swap)

lemma pick_child_bounds:
  "2 * i + 1 < n \<Longrightarrow> i < pick_child lt xs i n \<and> pick_child lt xs i n < n"
  by (auto simp: pick_child_def Let_def)

lemma pick_child_parent: "(pick_child lt xs i n - 1) div 2 = i"
  by (auto simp: pick_child_def Let_def)

lemma heap_up_mset: "j < length xs \<Longrightarrow> mset (heap_up lt xs j) = mset xs"
proof (induction lt xs j rule: heap_up.induct)
  case (1 lt xs j)
  have "(j - 1) div 2 < length xs" using "1.prems" by linarith
  with 1 show ?case by (subst heap_up.simps) (auto simp: Let_def)
qed

lemma heap_down_mset: "n \<le> length xs \<Longrightarrow> mset (fst (heap_down lt xs i n)) = mset xs"
proof (induction lt xs i n rule: heap_down.induct)
  case (1 lt xs i n)
  show ?case
  proof (cases "2 * i + 1 < n")
    case True
    with pick_child_bounds [OF True, of lt xs] 1 show ?thesis
      by (subst heap_down.simps) (auto simp: Let_def)
  qed (subst heap_down.simps, simp)
qed

lemma heap_up_length [simp]: "length (heap_up lt xs j) = length xs"
proof (induction lt xs j rule: heap_up.induct)
  case (1 lt xs j)
  then show ?case by (subst heap_up.simps) (simp add: Let_def)
qed

lemma heap_down_length [simp]: "length (fst (heap_down lt xs i n)) = length xs"
proof (induction lt xs i n rule: heap_down.induct)
  case (1 lt xs i n)
  then show ?case by (subst heap_down.simps) (simp add: Let_def)
qed

lemma heap_down_index: "i \<le> snd (heap_down lt xs i n)"
proof (induction lt xs i n rule: heap_down.induct)
  case (1 lt xs i n)
  show ?case
  proof (cases "2 * i + 1 < n")
    case True
    with pick_child_bounds [OF True, of lt xs] 1 show ?thesis
      by (subst heap_down.simps) (auto simp: Let_def)
  qed (subst heap_down.simps, simp)
qed

text \<open>The part of the slice beyond \<open>n\<close> is not touched by \<open>heap_down\<close>.\<close>

lemma heap_down_beyond:
  "n \<le> k \<Longrightarrow> n \<le> length xs \<Longrightarrow> fst (heap_down lt xs i n) ! k = xs ! k"
proof (induction lt xs i n rule: heap_down.induct)
  case (1 lt xs i n)
  show ?case
  proof (cases "2 * i + 1 < n")
    case True
    with pick_child_bounds [OF True, of lt xs] 1 show ?thesis
      by (subst heap_down.simps) (auto simp: Let_def nth_swap)
  qed (subst heap_down.simps, simp)
qed

section \<open>Heap order\<close>

abbreviation parent :: "nat \<Rightarrow> nat" where
  "parent c \<equiv> (c - 1) div 2"

text \<open>
  \<open>heap_from lt xs m n\<close>: below \<open>n\<close>, no entry whose parent is at or after \<open>m\<close> comes before
  its parent. \<open>fix_ok\<close> is the order with the one entry at \<open>i\<close> in doubt: the others are in
  order among themselves, across \<open>i\<close> too.
\<close>

definition heap_from :: "('a \<Rightarrow> 'a \<Rightarrow> bool) \<Rightarrow> 'a list \<Rightarrow> nat \<Rightarrow> nat \<Rightarrow> bool" where
  "heap_from lt xs m n \<longleftrightarrow>
     (\<forall>c < n. 0 < c \<longrightarrow> m \<le> parent c \<longrightarrow> \<not> lt (xs ! c) (xs ! parent c))"

definition is_heap :: "('a \<Rightarrow> 'a \<Rightarrow> bool) \<Rightarrow> 'a list \<Rightarrow> bool" where
  "is_heap lt xs \<longleftrightarrow> heap_from lt xs 0 (length xs)"

definition fix_ok :: "('a \<Rightarrow> 'a \<Rightarrow> bool) \<Rightarrow> 'a list \<Rightarrow> nat \<Rightarrow> nat \<Rightarrow> nat \<Rightarrow> bool" where
  "fix_ok lt xs m n i \<longleftrightarrow>
     (\<forall>c < n. 0 < c \<longrightarrow> c \<noteq> i \<longrightarrow> parent c \<noteq> i \<longrightarrow> m \<le> parent c \<longrightarrow> \<not> lt (xs ! c) (xs ! parent c)) \<and>
     (\<forall>c < n. 0 < c \<longrightarrow> parent c = i \<longrightarrow> 0 < i \<longrightarrow> m \<le> parent i \<longrightarrow> \<not> lt (xs ! c) (xs ! parent i))"

definition above_ok :: "('a \<Rightarrow> 'a \<Rightarrow> bool) \<Rightarrow> 'a list \<Rightarrow> nat \<Rightarrow> nat \<Rightarrow> bool" where
  "above_ok lt xs m i \<longleftrightarrow> (0 < i \<longrightarrow> m \<le> parent i \<longrightarrow> \<not> lt (xs ! i) (xs ! parent i))"

definition below_ok :: "('a \<Rightarrow> 'a \<Rightarrow> bool) \<Rightarrow> 'a list \<Rightarrow> nat \<Rightarrow> nat \<Rightarrow> bool" where
  "below_ok lt xs n i \<longleftrightarrow> (\<forall>c < n. 0 < c \<longrightarrow> parent c = i \<longrightarrow> \<not> lt (xs ! c) (xs ! i))"

lemma heap_fromI:
  "fix_ok lt xs m n i \<Longrightarrow> above_ok lt xs m i \<Longrightarrow> below_ok lt xs n i \<Longrightarrow> heap_from lt xs m n"
  unfolding heap_from_def fix_ok_def above_ok_def below_ok_def by metis

lemma parent_less: "0 < c \<Longrightarrow> parent c < c"
  by linarith

locale heap_less =
  fixes lt :: "'a \<Rightarrow> 'a \<Rightarrow> bool"
  assumes asym: "lt a b \<Longrightarrow> \<not> lt b a"
    and neg_trans: "\<not> lt a b \<Longrightarrow> \<not> lt b c \<Longrightarrow> \<not> lt a c"
begin

lemma irrefl: "\<not> lt a a"
  using asym by blast

lemma pick_child_least:
  assumes "c < n" "0 < c" "parent c = i"
  shows "\<not> lt (xs ! c) (xs ! pick_child lt xs i n)"
proof -
  from assms have "c = 2 * i + 1 \<or> c = 2 * i + 2" by linarith
  then show ?thesis
    using assms irrefl asym by (auto simp: pick_child_def Let_def)
qed

lemma stop_below_ok:
  assumes "\<not> 2 * i + 1 < n \<or> \<not> lt (xs ! pick_child lt xs i n) (xs ! i)"
  shows "below_ok lt xs n i"
  unfolding below_ok_def
proof (intro allI impI)
  fix c assume c: "c < n" "0 < c" "parent c = i"
  then have "2 * i + 1 < n" by linarith
  with assms c show "\<not> lt (xs ! c) (xs ! i)"
    using neg_trans [OF pick_child_least [OF c]] by blast
qed

text \<open>One sift step: the doubt moves to the chosen child, which is in order below its parent.\<close>

lemma sift_down_step:
  assumes ok: "fix_ok lt xs m n i" and n: "n \<le> length xs" and i: "2 * i + 1 < n"
    and j: "j = pick_child lt xs i n" and less: "lt (xs ! j) (xs ! i)"
  shows "fix_ok lt (swap xs i j) m n j" and "above_ok lt (swap xs i j) m j"
proof -
  have b: "i < j" "j < n" "parent j = i"
    using pick_child_bounds [OF i] pick_child_parent j by auto
  have sw: "swap xs i j ! k = (if k = i then xs ! j else if k = j then xs ! i else xs ! k)" for k
    using b n by (intro nth_swap) auto
  have kid: "\<not> lt (xs ! c) (xs ! j)" if "c < n" "0 < c" "parent c = i" for c
    using pick_child_least [OF that] j by simp
  show "above_ok lt (swap xs i j) m j"
    using less asym b by (auto simp: above_ok_def sw)
  have 1: "\<not> lt (swap xs i j ! c) (swap xs i j ! parent c)"
    if c: "c < n" "0 < c" "c \<noteq> j" "parent c \<noteq> j" "m \<le> parent c" for c
  proof (cases "c = i")
    case True
    have "\<not> lt (xs ! j) (xs ! parent i)"
      using ok b c True by (auto simp: fix_ok_def)
    then show ?thesis using True c parent_less [of i] b by (simp add: sw)
  next
    case False
    show ?thesis
    proof (cases "parent c = i")
      case True
      then show ?thesis using False c kid by (simp add: sw)
    next
      case False': False
      then show ?thesis using False c ok by (simp add: sw fix_ok_def)
    qed
  qed
  have 2: "\<not> lt (swap xs i j ! c) (swap xs i j ! parent j)"
    if c: "c < n" "0 < c" "parent c = j" "m \<le> parent j" for c
  proof -
    have ne: "c \<noteq> i" "c \<noteq> j" "parent c \<noteq> i" "m \<le> parent c"
      using b c parent_less [of c] by linarith+
    from ok c(1,2) ne(1,3,4) have "\<not> lt (xs ! c) (xs ! parent c)"
      unfolding fix_ok_def by blast
    with c(3) b(3) ne show ?thesis by (simp add: sw)
  qed
  show "fix_ok lt (swap xs i j) m n j"
    unfolding fix_ok_def using 1 2 by blast
qed

lemma heap_down_unfold:
  "heap_down lt xs i n =
     (let j = pick_child lt xs i n in
      if 2 * i + 1 < n \<and> lt (xs ! j) (xs ! i) then heap_down lt (swap xs i j) j n else (xs, i))"
  by (subst heap_down.simps) (simp add: Let_def)

lemma heap_down_heap:
  assumes "fix_ok lt xs m n i" and "above_ok lt xs m i" and "n \<le> length xs"
  shows "heap_from lt (fst (heap_down lt xs i n)) m n"
  using assms
proof (induction "n - i" arbitrary: xs i rule: less_induct)
  case less
  define j where "j = pick_child lt xs i n"
  show ?case
  proof (cases "2 * i + 1 < n \<and> lt (xs ! j) (xs ! i)")
    case True
    then have b: "i < j" "j < n"
      using pick_child_bounds [of i n lt xs] by (auto simp: j_def)
    have "heap_from lt (fst (heap_down lt (swap xs i j) j n)) m n"
      by (rule less.hyps)
        (use True b less.prems sift_down_step [OF less.prems(1,3) _ j_def] in auto)
    with True show ?thesis
      by (subst heap_down_unfold) (simp add: j_def Let_def)
  next
    case False
    then have "below_ok lt xs n i"
      by (intro stop_below_ok) (auto simp: j_def)
    then have "heap_from lt xs m n" using less.prems by (intro heap_fromI)
    with False show ?thesis
      by (subst heap_down_unfold) (auto simp: j_def Let_def)
  qed
qed

lemma heap_up_unfold:
  "heap_up lt xs j =
     (if 0 < j \<and> lt (xs ! j) (xs ! parent j) then heap_up lt (swap xs (parent j) j) (parent j) else xs)"
proof (cases "j = 0")
  case True
  then show ?thesis by (subst heap_up.simps) simp
next
  case False
  then have "parent j \<noteq> j" by linarith
  with False show ?thesis by (subst heap_up.simps) (simp add: Let_def)
qed

lemma sift_up_step:
  assumes ok: "fix_ok lt xs 0 n j" and below: "below_ok lt xs n j" and n: "n \<le> length xs"
    and j: "0 < j" "j < n" and less: "lt (xs ! j) (xs ! parent j)"
  shows "fix_ok lt (swap xs (parent j) j) 0 n (parent j)"
    and "below_ok lt (swap xs (parent j) j) n (parent j)"
proof -
  define i where "i = parent j"
  have b: "i < j" "i < n" using j by (auto simp: i_def)
  have sw: "swap xs i j ! k = (if k = i then xs ! j else if k = j then xs ! i else xs ! k)" for k
    using b j n by (intro nth_swap) auto
  have flat: "\<not> lt (xs ! i) (xs ! j)" using less asym by (simp add: i_def)
  have sib: "\<not> lt (xs ! c) (xs ! j)" if "c < n" "0 < c" "parent c = i" "c \<noteq> j" for c
  proof -
    have "parent c \<noteq> j" using b that by simp
    with ok that have "\<not> lt (xs ! c) (xs ! i)"
      unfolding fix_ok_def by (metis le0)
    then show ?thesis using flat by (rule neg_trans)
  qed
  show "below_ok lt (swap xs (parent j) j) n (parent j)"
    unfolding below_ok_def i_def [symmetric]
  proof (intro allI impI)
    fix c assume c: "c < n" "0 < c" "parent c = i"
    then have "c \<noteq> i" using parent_less by fastforce
    with c show "\<not> lt (swap xs i j ! c) (swap xs i j ! i)"
      using flat sib b by (cases "c = j") (auto simp: sw)
  qed
  have 1: "\<not> lt (swap xs i j ! c) (swap xs i j ! parent c)"
    if c: "c < n" "0 < c" "c \<noteq> i" "parent c \<noteq> i" for c
  proof (cases "parent c = j")
    case True
    then have "c \<noteq> j" using c parent_less by fastforce
    moreover have "\<not> lt (xs ! c) (xs ! i)"
      using ok c True j unfolding fix_ok_def i_def by blast
    ultimately show ?thesis using True c by (simp add: sw)
  next
    case False
    have "c \<noteq> j" using c by (auto simp: i_def)
    with False c ok have "\<not> lt (xs ! c) (xs ! parent c)"
      unfolding fix_ok_def by blast
    with False c \<open>c \<noteq> j\<close> show ?thesis by (simp add: sw)
  qed
  have up: "\<not> lt (xs ! i) (xs ! parent i)" if "0 < i"
  proof -
    have "i \<noteq> j" "parent i \<noteq> j" using b parent_less [OF that] by linarith+
    with ok b that show ?thesis unfolding fix_ok_def by blast
  qed
  have 2: "\<not> lt (swap xs i j ! c) (swap xs i j ! parent i)"
    if c: "c < n" "0 < c" "parent c = i" "0 < i" for c
  proof -
    have p: "parent i \<noteq> i" "parent i \<noteq> j" using b parent_less [OF c(4)] by linarith+
    have "c \<noteq> i" using c parent_less by fastforce
    show ?thesis
    proof (cases "c = j")
      case True
      then show ?thesis using up c p \<open>c \<noteq> i\<close> by (simp add: sw)
    next
      case False
      then have "parent c \<noteq> j" using b c by simp
      with ok False c have "\<not> lt (xs ! c) (xs ! i)"
        unfolding fix_ok_def by (metis le0)
      from neg_trans [OF this up [OF c(4)]] show ?thesis
        using False p \<open>c \<noteq> i\<close> by (simp add: sw)
    qed
  qed
  show "fix_ok lt (swap xs (parent j) j) 0 n (parent j)"
    unfolding fix_ok_def i_def [symmetric] using 1 2 by blast
qed

lemma heap_up_heap:
  assumes "fix_ok lt xs 0 n j" and "below_ok lt xs n j" and "n \<le> length xs" and "j < n"
  shows "heap_from lt (heap_up lt xs j) 0 n"
  using assms
proof (induction j arbitrary: xs rule: less_induct)
  case (less j)
  show ?case
  proof (cases "0 < j \<and> lt (xs ! j) (xs ! parent j)")
    case True
    then have "parent j < j" "parent j < n" using less.prems by (auto simp: parent_less)
    with True less.prems have "heap_from lt (heap_up lt (swap xs (parent j) j) (parent j)) 0 n"
      by (intro less.IH sift_up_step) auto
    with True show ?thesis by (subst heap_up_unfold) simp
  next
    case False
    then have "above_ok lt xs 0 j" by (auto simp: above_ok_def)
    then have "heap_from lt xs 0 n" using less.prems by (intro heap_fromI)
    with False show ?thesis by (subst heap_up_unfold) auto
  qed
qed

section \<open>The exported operations\<close>

lemma root_least: "is_heap lt xs \<Longrightarrow> k < length xs \<Longrightarrow> \<not> lt (xs ! k) (xs ! 0)"
proof (induction k rule: less_induct)
  case (less k)
  show ?case
  proof (cases "k = 0")
    case True
    then show ?thesis using irrefl by simp
  next
    case False
    then have p: "parent k < k" using parent_less by simp
    have "\<not> lt (xs ! k) (xs ! parent k)"
      using less.prems False by (simp add: is_heap_def heap_from_def)
    moreover have "\<not> lt (xs ! parent k) (xs ! 0)"
      using less.IH [OF p] less.prems p by simp
    ultimately show ?thesis by (rule neg_trans)
  qed
qed

lemma heap_Push_mset: "mset (heap_Push lt xs x) = add_mset x (mset xs)"
  by (simp add: heap_Push_def heap_up_mset)

lemma heap_Push_heap:
  assumes "is_heap lt xs"
  shows "is_heap lt (heap_Push lt xs x)"
proof -
  let ?ys = "xs @ [x]" and ?j = "length xs"
  have ord: "\<not> lt (?ys ! c) (?ys ! parent c)" if "c < ?j" "0 < c" for c
  proof -
    have "parent c < ?j" using that parent_less [of c] by linarith
    then show ?thesis using assms that by (simp add: is_heap_def heap_from_def nth_append)
  qed
  have np: "parent c \<noteq> ?j" if "c < Suc ?j" "0 < c" for c
    using that parent_less [of c] by linarith
  have "fix_ok lt ?ys 0 (length ?ys) ?j" "below_ok lt ?ys (length ?ys) ?j"
    using ord np by (auto simp: fix_ok_def below_ok_def less_Suc_eq)
  then have "heap_from lt (heap_up lt ?ys ?j) 0 (length ?ys)"
    by (rule heap_up_heap) simp_all
  then show ?thesis by (simp add: is_heap_def heap_Push_def)
qed

lemma heap_Pop_spec:
  assumes "is_heap lt xs" and "xs \<noteq> []"
  shows "\<exists>ys. heap_Pop lt xs = Some (xs ! 0, ys) \<and> is_heap lt ys \<and> mset xs = add_mset (xs ! 0) (mset ys)"
proof -
  define n where "n = length xs - 1"
  define zs where "zs = fst (heap_down lt (swap xs 0 n) 0 n)"
  have n: "n < length xs" "length zs = length xs" "length xs = Suc n"
    using assms by (simp_all add: n_def zs_def)
  have sw: "swap xs 0 n ! k = (if k = 0 then xs ! n else if k = n then xs ! 0 else xs ! k)" for k
    using n by (intro nth_swap) auto
  have "\<not> lt (swap xs 0 n ! c) (swap xs 0 n ! parent c)"
    if "c < n" "0 < c" "parent c \<noteq> 0" for c
  proof -
    have "parent c < n" using that parent_less [of c] by linarith
    then show ?thesis using assms(1) that n by (simp add: sw is_heap_def heap_from_def)
  qed
  then have "fix_ok lt (swap xs 0 n) 0 n 0" "above_ok lt (swap xs 0 n) 0 0"
    by (auto simp: fix_ok_def above_ok_def)
  then have h: "heap_from lt zs 0 n"
    unfolding zs_def by (rule heap_down_heap) (use n in simp)
  have last: "last zs = xs ! 0"
  proof -
    have "zs ! n = xs ! 0"
      using n heap_down_beyond [of n n "swap xs 0 n" lt 0] by (simp add: zs_def sw)
    moreover have "zs \<noteq> []" using n by auto
    ultimately show ?thesis using n by (simp add: last_conv_nth)
  qed
  have "is_heap lt (butlast zs)"
    unfolding is_heap_def heap_from_def
  proof (intro allI impI)
    fix c assume c: "c < length (butlast zs)" "0 < c"
    then have "parent c < n" using n parent_less [of c] by simp
    with c n h show "\<not> lt (butlast zs ! c) (butlast zs ! parent c)"
      by (simp add: nth_butlast heap_from_def)
  qed
  moreover have "mset zs = mset xs"
    unfolding zs_def using n by (simp add: heap_down_mset)
  moreover have "zs = butlast zs @ [last zs]" using n by (intro append_butlast_last_id [symmetric]) auto
  ultimately have "mset xs = add_mset (xs ! 0) (mset (butlast zs))" "is_heap lt (butlast zs)"
    using last by (metis mset_append mset.simps union_mset_add_mset_right add_cancel_right_right)+
  then show ?thesis
    using assms last by (auto simp: heap_Pop_def zs_def n_def Let_def)
qed

lemma heap_Fix_mset: "i < length xs \<Longrightarrow> mset (heap_Fix lt xs i) = mset xs"
  using heap_down_mset [of "length xs" xs lt i] heap_down_length [of lt xs i "length xs"]
  by (auto simp: heap_Fix_def case_prod_beta heap_up_mset simp del: heap_down_length)

lemma heap_Fix_heap:
  assumes ok: "fix_ok lt xs 0 (length xs) i" and i: "i < length xs"
  shows "is_heap lt (heap_Fix lt xs i)"
proof -
  define j where "j = pick_child lt xs i (length xs)"
  show ?thesis
  proof (cases "2 * i + 1 < length xs \<and> lt (xs ! j) (xs ! i)")
    case True
    have eq: "heap_down lt xs i (length xs) = heap_down lt (swap xs i j) j (length xs)"
      using True by (subst heap_down_unfold) (simp add: j_def Let_def)
    have "i < j" using pick_child_bounds [of i "length xs" lt xs] True by (simp add: j_def)
    then have moved: "i < snd (heap_down lt xs i (length xs))"
      using heap_down_index [of j lt "swap xs i j" "length xs"] eq by simp
    have "heap_from lt (fst (heap_down lt xs i (length xs))) 0 (length xs)"
      unfolding eq by (rule heap_down_heap)
        (use True sift_down_step [OF ok _ _ j_def] in auto)
    with moved show ?thesis
      by (simp add: heap_Fix_def case_prod_beta is_heap_def)
  next
    case False
    have eq: "heap_down lt xs i (length xs) = (xs, i)"
      using False by (subst heap_down_unfold) (auto simp: j_def Let_def)
    have "below_ok lt xs (length xs) i"
      using False by (intro stop_below_ok) (auto simp: j_def)
    with ok i have "heap_from lt (heap_up lt xs i) 0 (length xs)"
      by (intro heap_up_heap) auto
    then show ?thesis by (simp add: heap_Fix_def eq is_heap_def)
  qed
qed

lemma heap_Init_loop_heap:
  "heap_from lt xs m (length xs) \<Longrightarrow> is_heap lt (heap_Init_loop lt m xs)"
proof (induction m arbitrary: xs)
  case 0
  then show ?case by (simp add: is_heap_def)
next
  case (Suc i)
  have "fix_ok lt xs i (length xs) i" "above_ok lt xs i i"
    using Suc.prems parent_less [of i]
    by (auto simp: fix_ok_def above_ok_def heap_from_def not_less_eq_eq dest: le_neq_implies_less)
  then have "heap_from lt (fst (heap_down lt xs i (length xs))) i (length xs)"
    by (rule heap_down_heap) simp
  then show ?case using Suc.IH by simp
qed

lemma heap_Init_heap: "is_heap lt (heap_Init lt xs)"
  unfolding heap_Init_def
proof (rule heap_Init_loop_heap, unfold heap_from_def, intro allI impI)
  fix c assume "c < length xs" "0 < c" "length xs div 2 \<le> parent c"
  then have False by linarith
  then show "\<not> lt (xs ! c) (xs ! parent c)" ..
qed

end

lemma heap_Init_loop_mset: "mset (heap_Init_loop lt m xs) = mset xs"
  by (induction m arbitrary: xs) (simp_all add: heap_down_mset)

lemma heap_Init_mset: "mset (heap_Init lt xs) = mset xs"
  by (simp add: heap_Init_def heap_Init_loop_mset)

end
