(* ===== verification/Resister.thy ===== *)
theory Resister
  imports Telemetry Element Go_Heap
begin

text \<open>
  The resister (\<^verbatim>\<open>src/pkg/internal/resister\<close>): a priority queue of element pointers in a
  \<^verbatim>\<open>container/heap\<close> slice, with an index from element identifiers to the same pointers.
  Elements are shared with the callers, so they live in a store from addresses to elements,
  and the queue and the index hold addresses. The invariant \<open>res_inv\<close> ties slice, index and
  store together; every operation keeps it, and refines a map from identifiers to elements.
\<close>

section \<open>State\<close>

type_synonym 'a estore = "nat \<Rightarrow> 'a element"

record resister =
  res_metadata :: metadata
  res_queue :: "nat list"
  indexByID :: "string \<Rightarrow> nat option"
  res_loggers :: "logger list"
  res_sensors :: "sensor list"

definition NewResister_base :: "string \<Rightarrow> resister" where
  "NewResister_base hash =
     \<lparr>res_metadata = \<lparr>meta_ID = hash, meta_Type = ''RESISTER'', meta_Name = ''''\<rparr>,
      res_queue = [], indexByID = Map.empty, res_loggers = [], res_sensors = []\<rparr>"

section \<open>Configuration and telemetry\<close>

definition res_SetComponentMetadata :: "string \<Rightarrow> string \<Rightarrow> resister \<Rightarrow> resister" where
  "res_SetComponentMetadata name ident r =
     r\<lparr>res_metadata := \<lparr>meta_ID = ident, meta_Type = meta_Type (res_metadata r), meta_Name = name\<rparr>\<rparr>"

definition res_ConnectLogger :: "logger option list \<Rightarrow> resister \<Rightarrow> resister" where
  "res_ConnectLogger loggers r =
     (let ls = nonnil loggers in
      if ls = [] then r else r\<lparr>res_loggers := res_loggers r @ ls\<rparr>)"

definition res_ConnectSensor :: "sensor option list \<Rightarrow> resister \<Rightarrow> resister" where
  "res_ConnectSensor sensors r =
     (let ss = nonnil sensors in
      if ss = [] then r else r\<lparr>res_sensors := res_sensors r @ ss\<rparr>)"

datatype res_option = Res_WithLogger "logger option list" | Res_WithSensor "sensor option list"

fun apply_res_option :: "res_option \<Rightarrow> resister \<Rightarrow> resister" where
  "apply_res_option (Res_WithLogger ls) r = res_ConnectLogger ls r"
| "apply_res_option (Res_WithSensor ss) r = res_ConnectSensor ss r"

fun NewResister_options :: "res_option option list \<Rightarrow> resister \<Rightarrow> resister" where
  "NewResister_options [] r = r"
| "NewResister_options (None # os) r = NewResister_options os r"
| "NewResister_options (Some opt # os) r = NewResister_options os (apply_res_option opt r)"

definition NewResister :: "string \<Rightarrow> res_option option list \<Rightarrow> resister" where
  "NewResister hash options = NewResister_options options (NewResister_base hash)"

definition res_NotifyLoggers ::
  "resister \<Rightarrow> loglevel \<Rightarrow> string \<Rightarrow> (string \<times> 'a logval) list \<Rightarrow> 'a effect list" where
  "res_NotifyLoggers r level msg kvs = log_calls logger_wants (res_loggers r) level msg kvs"

definition notifyResisterQueued :: "resister \<Rightarrow> 'a \<Rightarrow> 'a effect list" where
  "notifyResisterQueued r d = sensor_calls (res_sensors r) (InvokeOnResisterQueued (res_metadata r) d)"

definition notifyResisterRequeued :: "resister \<Rightarrow> 'a \<Rightarrow> 'a effect list" where
  "notifyResisterRequeued r d =
     sensor_calls (res_sensors r) (InvokeOnResisterRequeued (res_metadata r) d)"

definition notifyResisterDequeued :: "resister \<Rightarrow> 'a \<Rightarrow> 'a effect list" where
  "notifyResisterDequeued r d =
     sensor_calls (res_sensors r) (InvokeOnResisterDequeued (res_metadata r) d)"

definition notifyResisterEmpty :: "resister \<Rightarrow> 'a effect list" where
  "notifyResisterEmpty r = sensor_calls (res_sensors r) (InvokeOnResisterEmpty (res_metadata r))"

section \<open>The queue\<close>

definition prio_less :: "'a estore \<Rightarrow> nat \<Rightarrow> nat \<Rightarrow> bool" where
  "prio_less st a b \<longleftrightarrow> QueuePriority (st a) > QueuePriority (st b)"

fun pq_indexOf :: "'a estore \<Rightarrow> string \<Rightarrow> nat list \<Rightarrow> nat option" where
  "pq_indexOf st ident [] = None"
| "pq_indexOf st ident (a # q) =
     (if elem_ID (st a) = ident then Some 0 else map_option Suc (pq_indexOf st ident q))"

definition res_Len :: "resister \<Rightarrow> nat" where
  "res_Len r = length (res_queue r)"

definition res_GetResisterQueueLen :: "resister \<Rightarrow> nat" where
  "res_GetResisterQueueLen r = res_Len r"

definition copy_into :: "'a element \<Rightarrow> 'a element \<Rightarrow> 'a element" where
  "copy_into existing e =
     existing\<lparr>Data := Data e, QueuePriority := QueuePriority e,
              CreationTime := CreationTime e, RetryCount := RetryCount e\<rparr>"

definition res_Push ::
  "nat option \<Rightarrow> 'a estore \<Rightarrow> resister \<Rightarrow> gerr option \<times> 'a estore \<times> resister \<times> 'a effect list" where
  "res_Push elt st r =
     (case elt of
        None \<Rightarrow> (Some (Err ''resister: nil element''), st, r, [])
      | Some a \<Rightarrow>
        let (requeued, st', r', data) =
          (case indexByID r (elem_ID (st a)) of
             Some existing \<Rightarrow>
               let st1 = (if existing \<noteq> a then st(existing := copy_into (st existing) (st a)) else st);
                   q1 = (case pq_indexOf st1 (elem_ID (st a)) (res_queue r) of
                           Some idx \<Rightarrow> heap_Fix (prio_less st1) (res_queue r) idx
                         | None \<Rightarrow> heap_Push (prio_less st1) (res_queue r) existing)
               in (True, st1, r\<lparr>res_queue := q1\<rparr>, Data (st1 existing))
           | None \<Rightarrow>
               (False, st,
                r\<lparr>indexByID := (indexByID r)(elem_ID (st a) \<mapsto> a),
                  res_queue := heap_Push (prio_less st) (res_queue r) a\<rparr>,
                Data (st a)))
        in (None, st', r',
            (if requeued then notifyResisterRequeued r' data else notifyResisterQueued r' data) @
            res_NotifyLoggers r' DebugLevel ''Resister queued element''
              [(''component'', LMeta (res_metadata r')), (''elementID'', LStr (elem_ID (st' a))),
               (''priority'', LInt (QueuePriority (st' a))), (''retryCount'', LInt (RetryCount (st' a))),
               (''requeued'', LBool requeued)]))"

definition res_Pop :: "'a estore \<Rightarrow> resister \<Rightarrow> nat option \<times> resister \<times> 'a effect list" where
  "res_Pop st r =
     (case heap_Pop (prio_less st) (res_queue r) of
        None \<Rightarrow> (None, r, [])
      | Some (a, q) \<Rightarrow>
        let r' = r\<lparr>res_queue := q, indexByID := (indexByID r)(elem_ID (st a) := None)\<rparr>;
            isEmpty = (length q = 0)
        in (Some a, r',
            notifyResisterDequeued r' (Data (st a)) @
            res_NotifyLoggers r' DebugLevel ''Resister dequeued element''
              [(''component'', LMeta (res_metadata r')), (''elementID'', LStr (elem_ID (st a))),
               (''priority'', LInt (QueuePriority (st a))), (''retryCount'', LInt (RetryCount (st a)))] @
            (if isEmpty then notifyResisterEmpty r' else [])))"

text \<open>The loop of \<^verbatim>\<open>DecayPriorities\<close>: the store after it and the number of changed priorities.\<close>

fun decay_loop :: "nat list \<Rightarrow> 'a estore \<Rightarrow> nat \<Rightarrow> 'a estore \<times> nat" where
  "decay_loop [] st changed = (st, changed)"
| "decay_loop (a # q) st changed =
     (let e = DecayPriority (st a) in
      decay_loop q (st(a := e))
        (if QueuePriority (st a) \<noteq> QueuePriority e then Suc changed else changed))"

definition res_DecayPriorities :: "'a estore \<Rightarrow> resister \<Rightarrow> 'a estore \<times> resister \<times> 'a effect list" where
  "res_DecayPriorities st r =
     (let (st', changed) = decay_loop (res_queue r) st 0;
          r' = (if changed \<noteq> 0 then r\<lparr>res_queue := heap_Init (prio_less st') (res_queue r)\<rparr> else r)
      in (st', r',
          if changed \<noteq> 0 then
            res_NotifyLoggers r' DebugLevel ''Resister decayed priorities''
              [(''component'', LMeta (res_metadata r')), (''elements'', LInt (int changed))]
          else []))"

section \<open>Invariant\<close>

definition index_ok :: "'a estore \<Rightarrow> resister \<Rightarrow> bool" where
  "index_ok st r \<longleftrightarrow> distinct (res_queue r) \<and>
     (\<forall>ident a. indexByID r ident = Some a \<longleftrightarrow> a \<in> set (res_queue r) \<and> elem_ID (st a) = ident)"

definition res_inv :: "'a estore \<Rightarrow> resister \<Rightarrow> bool" where
  "res_inv st r \<longleftrightarrow> index_ok st r \<and> is_heap (prio_less st) (res_queue r)"

text \<open>What the queue holds, by identifier: the abstract state of the resister.\<close>

definition abs_res :: "'a estore \<Rightarrow> resister \<Rightarrow> string \<Rightarrow> 'a element option" where
  "abs_res st r ident = map_option st (indexByID r ident)"

interpretation pq: heap_less "prio_less st" for st
  by unfold_locales (auto simp: prio_less_def)

lemma index_okD:
  assumes "index_ok st r"
  shows "distinct (res_queue r)"
    and "a \<in> set (res_queue r) \<Longrightarrow> indexByID r (elem_ID (st a)) = Some a"
    and "indexByID r ident = Some a \<Longrightarrow> a \<in> set (res_queue r)"
    and "indexByID r ident = Some a \<Longrightarrow> elem_ID (st a) = ident"
  using assms by (auto simp: index_ok_def)

lemma pq_indexOf_Some:
  "pq_indexOf st ident q = Some i \<Longrightarrow> i < length q \<and> elem_ID (st (q ! i)) = ident"
  by (induction q arbitrary: i) (auto split: if_splits)

lemma pq_indexOf_None: "pq_indexOf st ident q = None \<longleftrightarrow> (\<forall>a \<in> set q. elem_ID (st a) \<noteq> ident)"
  by (induction q) auto

lemma set_heap_Fix: "i < length q \<Longrightarrow> set (heap_Fix (prio_less st) q i) = set q"
  by (metis pq.heap_Fix_mset mset_eq_setD)

lemma distinct_heap_Fix: "i < length q \<Longrightarrow> distinct (heap_Fix (prio_less st) q i) = distinct q"
  by (metis pq.heap_Fix_mset mset_eq_imp_distinct_iff)

lemma mset_add_imp: "mset xs = add_mset x (mset ys) \<Longrightarrow>
  set xs = insert x (set ys) \<and> (distinct xs \<longleftrightarrow> x \<notin> set ys \<and> distinct ys)"
proof -
  assume "mset xs = add_mset x (mset ys)"
  then have m: "mset xs = mset (x # ys)" by simp
  show ?thesis using mset_eq_setD [OF m] mset_eq_imp_distinct_iff [OF m] by simp
qed

lemma set_heap_Push: "set (heap_Push (prio_less st) q a) = insert a (set q)"
  and distinct_heap_Push: "distinct (heap_Push (prio_less st) q a) \<longleftrightarrow> a \<notin> set q \<and> distinct q"
  using mset_add_imp [OF pq.heap_Push_mset] by auto

text \<open>
  When one queued element has changed, the slice is in order except at its index; this is
  the state \<^verbatim>\<open>heap.Fix\<close> repairs.
\<close>

lemma heap_doubt_at:
  assumes "is_heap (prio_less st0) q" and "distinct q" and "i < length q"
    and "\<forall>x. x \<noteq> q ! i \<longrightarrow> st x = st0 x"
  shows "fix_ok (prio_less st) q 0 (length q) i"
proof -
  have eq: "st (q ! k) = st0 (q ! k)" if "k < length q" "k \<noteq> i" for k
    using assms that by (simp add: nth_eq_iff_index_eq)
  have ord: "\<not> prio_less st0 (q ! c) (q ! parent c)" if "c < length q" "0 < c" for c
    using assms(1) that by (simp add: is_heap_def heap_from_def)
  have cross: "\<not> prio_less st0 (q ! c) (q ! parent i)"
    if c: "c < length q" "0 < c" "parent c = i" "0 < i" for c
    using pq.neg_trans [OF ord [OF c(1,2)]] ord [OF assms(3) c(4)] c(3) by simp
  show ?thesis
    unfolding fix_ok_def
  proof (intro conjI allI impI)
    fix c assume c: "c < length q" "0 < c" "c \<noteq> i" "parent c \<noteq> i"
    then have "parent c < length q" using parent_less [of c] by linarith
    with c ord eq show "\<not> prio_less st (q ! c) (q ! parent c)" by (simp add: prio_less_def)
  next
    fix c assume c: "c < length q" "0 < c" "parent c = i" "0 < i"
    have "c \<noteq> i" "parent i \<noteq> i" "parent i < length q"
      using c parent_less [of c] parent_less [of i] assms(3) by linarith+
    with c cross eq show "\<not> prio_less st (q ! c) (q ! parent i)" by (simp add: prio_less_def)
  qed
qed

lemma heap_unchanged:
  assumes "is_heap (prio_less st0) q"
    and "\<forall>a \<in> set q. QueuePriority (st a) = QueuePriority (st0 a)"
  shows "is_heap (prio_less st) q"
  unfolding is_heap_def heap_from_def
proof (intro allI impI)
  fix c assume c: "c < length q" "0 < c"
  then have "parent c < length q" using parent_less [of c] by linarith
  with c assms show "\<not> prio_less st (q ! c) (q ! parent c)"
    by (simp add: is_heap_def heap_from_def prio_less_def)
qed

section \<open>The state each operation leaves\<close>

definition push_store :: "nat \<Rightarrow> 'a estore \<Rightarrow> resister \<Rightarrow> 'a estore" where
  "push_store a st r =
     (case indexByID r (elem_ID (st a)) of
        Some existing \<Rightarrow>
          if existing \<noteq> a then st(existing := copy_into (st existing) (st a)) else st
      | None \<Rightarrow> st)"

lemma copy_into_ID [simp]: "elem_ID (copy_into e e') = elem_ID e"
  by (simp add: copy_into_def)

lemma res_Push_store: "fst (snd (res_Push (Some a) st r)) = push_store a st r"
  by (simp add: res_Push_def push_store_def Let_def split: option.split)

lemma res_Push_error:
  "fst (res_Push (Some a) st r) = None"
  "res_Push None st r = (Some (Err ''resister: nil element''), st, r, [])"
  by (simp_all add: res_Push_def case_prod_beta)

lemma push_store_ID [simp]: "elem_ID (push_store a st r x) = elem_ID (st x)"
  by (simp add: push_store_def split: option.split)

lemma res_Push_new:
  "indexByID r (elem_ID (st a)) = None \<Longrightarrow>
   fst (snd (snd (res_Push (Some a) st r))) =
     r\<lparr>indexByID := (indexByID r)(elem_ID (st a) \<mapsto> a),
       res_queue := heap_Push (prio_less st) (res_queue r) a\<rparr>"
  by (simp add: res_Push_def)

text \<open>Under the invariant a known identifier is always found in the slice, so \<^verbatim>\<open>Fix\<close> runs.\<close>

lemma res_Push_known:
  assumes "index_ok st r" and "indexByID r (elem_ID (st a)) = Some x"
  obtains i where "i < length (res_queue r)" "res_queue r ! i = x"
    "fst (snd (snd (res_Push (Some a) st r))) =
       r\<lparr>res_queue := heap_Fix (prio_less (push_store a st r)) (res_queue r) i\<rparr>"
proof -
  let ?st = "push_store a st r"
  have x: "x \<in> set (res_queue r)" "elem_ID (st x) = elem_ID (st a)"
    using index_okD(3,4) [OF assms] by auto
  then obtain i where i: "pq_indexOf ?st (elem_ID (st a)) (res_queue r) = Some i"
    using pq_indexOf_None [of ?st "elem_ID (st a)" "res_queue r"] by fastforce
  then have li: "i < length (res_queue r)" "elem_ID (st (res_queue r ! i)) = elem_ID (st a)"
    using pq_indexOf_Some [OF i] by auto
  then have "res_queue r ! i = x"
    using index_okD(2) [OF assms(1), of "res_queue r ! i"] assms(2) by simp
  moreover have "fst (snd (snd (res_Push (Some a) st r))) =
       r\<lparr>res_queue := heap_Fix (prio_less ?st) (res_queue r) i\<rparr>"
    using assms(2) i by (simp add: res_Push_def push_store_def Let_def)
  ultimately show ?thesis using that li by blast
qed

lemma res_Push_inv:
  assumes inv: "res_inv st0 r"
    and same: "\<forall>x. x \<noteq> a \<longrightarrow> st x = st0 x"
    and ident: "a \<in> set (res_queue r) \<longrightarrow> elem_ID (st a) = elem_ID (st0 a)"
  shows "res_inv (push_store a st r) (fst (snd (snd (res_Push (Some a) st r))))"
proof -
  have st_id: "elem_ID (st x) = elem_ID (st0 x)" if "x \<in> set (res_queue r)" for x
    using same ident that by (cases "x = a") auto
  have ok: "index_ok st r"
    using inv st_id by (auto simp: res_inv_def index_ok_def)
  have h0: "is_heap (prio_less st0) (res_queue r)" and d: "distinct (res_queue r)"
    using inv by (auto simp: res_inv_def index_ok_def)
  show ?thesis
  proof (cases "indexByID r (elem_ID (st a))")
    case None
    then have a: "a \<notin> set (res_queue r)" using index_okD(2) [OF ok, of a] by auto
    have "\<forall>x \<in> set (res_queue r). QueuePriority (st x) = QueuePriority (st0 x)" using a same by auto
    then have "is_heap (prio_less st) (res_queue r)" by (rule heap_unchanged [OF h0])
    moreover have "push_store a st r = st" using None by (simp add: push_store_def)
    moreover have "\<forall>x \<in> set (res_queue r). elem_ID (st x) \<noteq> elem_ID (st a)"
      using None index_okD(2) [OF ok] by force
    ultimately show ?thesis
      using None ok a
      by (auto simp: res_inv_def res_Push_new pq.heap_Push_heap index_ok_def
          set_heap_Push distinct_heap_Push)
  next
    case (Some x)
    obtain i where i: "i < length (res_queue r)" "res_queue r ! i = x"
      and eq: "fst (snd (snd (res_Push (Some a) st r))) =
        r\<lparr>res_queue := heap_Fix (prio_less (push_store a st r)) (res_queue r) i\<rparr>"
      using res_Push_known [OF ok Some] by blast
    have "push_store a st r y = st0 y" if "y \<in> set (res_queue r)" "y \<noteq> x" for y
    proof -
      have "y \<noteq> a" using index_okD(2) [OF ok, of a] Some that by auto
      then show ?thesis using that same Some by (simp add: push_store_def)
    qed
    then have st1: "\<forall>y. y \<noteq> res_queue r ! i \<longrightarrow> push_store a st r y =
        (if y \<in> set (res_queue r) then st0 y else push_store a st r y)"
      using i by simp
    have "is_heap (prio_less (\<lambda>y. if y \<in> set (res_queue r) then st0 y else push_store a st r y)) (res_queue r)"
      by (rule heap_unchanged [OF h0]) simp
    then have "fix_ok (prio_less (push_store a st r)) (res_queue r) 0 (length (res_queue r)) i"
      using d i(1) st1 by (rule heap_doubt_at)
    then have "is_heap (prio_less (push_store a st r)) (res_queue (fst (snd (snd (res_Push (Some a) st r)))))"
      unfolding eq using i by (simp add: pq.heap_Fix_heap)
    moreover have "index_ok (push_store a st r) (fst (snd (snd (res_Push (Some a) st r))))"
      using ok i unfolding eq by (simp add: index_ok_def set_heap_Fix distinct_heap_Fix)
    ultimately show ?thesis by (simp add: res_inv_def)
  qed
qed

section \<open>Popping\<close>

lemma res_Pop_None: "fst (res_Pop st r) = None \<longleftrightarrow> res_queue r = []"
  by (auto simp: res_Pop_def heap_Pop_def Let_def split: option.split)

lemma res_Pop_empty: "res_queue r = [] \<Longrightarrow> res_Pop st r = (None, r, [])"
  by (simp add: res_Pop_def heap_Pop_def)

lemma res_Pop_Some:
  assumes inv: "res_inv st r" and ne: "res_queue r \<noteq> []"
  obtains a r' es where "res_Pop st r = (Some a, r', es)" "a = res_queue r ! 0"
    "mset (res_queue r) = add_mset a (mset (res_queue r'))"
    "indexByID r' = (indexByID r)(elem_ID (st a) := None)"
    "res_inv st r'"
    "\<forall>b \<in> set (res_queue r). QueuePriority (st b) \<le> QueuePriority (st a)"
proof -
  let ?a = "res_queue r ! 0"
  obtain q where pop: "heap_Pop (prio_less st) (res_queue r) = Some (?a, q)"
    and hq: "is_heap (prio_less st) q" and ms: "mset (res_queue r) = add_mset ?a (mset q)"
    using pq.heap_Pop_spec [of st "res_queue r"] inv ne by (auto simp: res_inv_def)
  have qs: "set (res_queue r) = insert ?a (set q)" "?a \<notin> set q" "distinct q"
    using mset_add_imp [OF ms] inv by (auto simp: res_inv_def index_ok_def)
  have "QueuePriority (st b) \<le> QueuePriority (st ?a)" if "b \<in> set (res_queue r)" for b
  proof -
    from that obtain k where "k < length (res_queue r)" "b = res_queue r ! k"
      by (auto simp: in_set_conv_nth)
    then show ?thesis
      using pq.root_least [of st "res_queue r" k] inv by (simp add: res_inv_def prio_less_def)
  qed
  moreover
  define r' where "r' = r\<lparr>res_queue := q, indexByID := (indexByID r)(elem_ID (st ?a) := None)\<rparr>"
  have "index_ok st r'"
    using inv qs index_okD(2) [of st r]
    by (auto simp: res_inv_def index_ok_def r'_def) (metis option.inject)+
  then have "res_inv st r'" using hq by (simp add: res_inv_def r'_def)
  ultimately show ?thesis
    using pop ms by (intro that [of ?a r']) (auto simp: res_Pop_def Let_def r'_def)
qed

section \<open>Decay\<close>

lemma decay_loop_store:
  "distinct q \<Longrightarrow> fst (decay_loop q st n) = (\<lambda>a. if a \<in> set q then DecayPriority (st a) else st a)"
proof (induction q arbitrary: st n)
  case (Cons a q)
  then show ?case by (auto simp: Let_def fun_eq_iff)
qed simp

lemma decay_loop_count:
  "distinct q \<Longrightarrow> snd (decay_loop q st n) =
     n + length (filter (\<lambda>a. QueuePriority (DecayPriority (st a)) \<noteq> QueuePriority (st a)) q)"
proof (induction q arbitrary: st n)
  case (Cons a q)
  have "filter (\<lambda>b. QueuePriority (DecayPriority ((st(a := e)) b)) \<noteq> QueuePriority ((st(a := e)) b)) q =
        filter (\<lambda>b. QueuePriority (DecayPriority (st b)) \<noteq> QueuePriority (st b)) q" for e
    using Cons.prems by (intro filter_cong) auto
  with Cons show ?case by (auto simp: Let_def)
qed simp

lemma res_Decay_inv:
  assumes inv: "res_inv st r"
  shows "res_inv (fst (res_DecayPriorities st r)) (fst (snd (res_DecayPriorities st r)))"
proof -
  define st' where "st' = (\<lambda>a. if a \<in> set (res_queue r) then DecayPriority (st a) else st a)"
  define n where "n = snd (decay_loop (res_queue r) st 0)"
  have d: "distinct (res_queue r)" and ok: "index_ok st r" and h: "is_heap (prio_less st) (res_queue r)"
    using inv by (auto simp: res_inv_def index_ok_def)
  have eq: "decay_loop (res_queue r) st 0 = (st', n)"
    using decay_loop_store [OF d, of st 0] by (simp add: st'_def n_def prod_eq_iff)
  have ok': "index_ok st' r" using ok by (auto simp: index_ok_def st'_def)
  show ?thesis
  proof (cases "n = 0")
    case True
    then have "\<forall>a \<in> set (res_queue r). QueuePriority (st' a) = QueuePriority (st a)"
      using decay_loop_count [OF d, of st 0] by (auto simp: n_def st'_def filter_empty_conv)
    then have "is_heap (prio_less st') (res_queue r)" by (rule heap_unchanged [OF h])
    then show ?thesis
      using True ok' by (simp add: res_DecayPriorities_def eq res_inv_def Let_def)
  next
    case False
    have ms: "mset (heap_Init (prio_less st') (res_queue r)) = mset (res_queue r)"
      by (rule heap_Init_mset)
    have "set (heap_Init (prio_less st') (res_queue r)) = set (res_queue r)"
      "distinct (heap_Init (prio_less st') (res_queue r))"
      using mset_eq_setD [OF ms] mset_eq_imp_distinct_iff [OF ms] d by auto
    then show ?thesis
      using False ok' by (simp add: res_DecayPriorities_def eq res_inv_def index_ok_def
          pq.heap_Init_heap Let_def)
  qed
qed

section \<open>Refinement of a map from identifiers to elements\<close>

text \<open>
  \<open>spec_push\<close> stores an element under its identifier; pushing a known identifier through
  another pointer overwrites all but the identifier and the hash of the stored element.
  \<open>spec_pop\<close> removes an element of the highest priority.
\<close>

definition spec_push :: "bool \<Rightarrow> 'a element \<Rightarrow> (string \<Rightarrow> 'a element option) \<Rightarrow> string \<Rightarrow> 'a element option" where
  "spec_push same_pointer e m =
     m(elem_ID e \<mapsto> (case m (elem_ID e) of
                      Some old \<Rightarrow> if same_pointer then old else copy_into old e
                    | None \<Rightarrow> e))"

definition spec_pop :: "(string \<Rightarrow> 'a element option) \<Rightarrow> 'a element \<Rightarrow> (string \<Rightarrow> 'a element option) \<Rightarrow> bool" where
  "spec_pop m e m' \<longleftrightarrow>
     m (elem_ID e) = Some e \<and> m' = m(elem_ID e := None) \<and>
     (\<forall>e' \<in> ran m. QueuePriority e' \<le> QueuePriority e)"

lemma abs_res_eq:
  assumes "index_ok st r"
  shows "abs_res st r ident = Some e \<longleftrightarrow> (\<exists>a \<in> set (res_queue r). st a = e \<and> elem_ID e = ident)"
  using assms by (fastforce simp: abs_res_def index_ok_def)

lemma ran_abs_res: "index_ok st r \<Longrightarrow> ran (abs_res st r) = st ` set (res_queue r)"
  by (auto simp: ran_def abs_res_eq)

lemma push_abs:
  assumes ok: "index_ok st r"
  shows "abs_res (push_store a st r) (fst (snd (snd (res_Push (Some a) st r)))) =
    spec_push (a \<in> set (res_queue r)) (st a) (abs_res st r)"
proof (cases "indexByID r (elem_ID (st a))")
  case None
  then show ?thesis
    by (auto simp: fun_eq_iff abs_res_def res_Push_new push_store_def spec_push_def)
next
  case (Some x)
  obtain i where eq: "fst (snd (snd (res_Push (Some a) st r))) =
      r\<lparr>res_queue := heap_Fix (prio_less (push_store a st r)) (res_queue r) i\<rparr>"
    using res_Push_known [OF ok Some] by blast
  have x: "x \<in> set (res_queue r)" "elem_ID (st x) = elem_ID (st a)"
    using index_okD(3,4) [OF ok Some] by auto
  have ax: "a \<in> set (res_queue r) \<longleftrightarrow> x = a"
    using index_okD(2) [OF ok, of a] Some x by auto
  have other: "indexByID r ident = Some y \<Longrightarrow> ident \<noteq> elem_ID (st a) \<Longrightarrow> y \<noteq> x" for ident y
    using index_okD(4) [OF ok] x by auto
  show ?thesis
    unfolding eq
    by (rule ext) (use Some ax other in \<open>auto simp: abs_res_def spec_push_def push_store_def
      map_option_case split: option.split\<close>)
qed

lemma pop_abs:
  assumes inv: "res_inv st r" and ne: "res_queue r \<noteq> []"
  shows "\<exists>a r' es. res_Pop st r = (Some a, r', es) \<and> res_inv st r' \<and>
    spec_pop (abs_res st r) (st a) (abs_res st r')"
proof -
  obtain a r' es where p: "res_Pop st r = (Some a, r', es)" "a = res_queue r ! 0"
    "indexByID r' = (indexByID r)(elem_ID (st a) := None)" "res_inv st r'"
    "\<forall>b \<in> set (res_queue r). QueuePriority (st b) \<le> QueuePriority (st a)"
    using res_Pop_Some [OF inv ne] by metis
  have ok: "index_ok st r" using inv by (simp add: res_inv_def)
  have "a \<in> set (res_queue r)" using p(2) ne by simp
  then have "abs_res st r (elem_ID (st a)) = Some (st a)"
    using abs_res_eq [OF ok] by blast
  moreover have "abs_res st r' = (abs_res st r)(elem_ID (st a) := None)"
    using p(3) by (auto simp: abs_res_def fun_eq_iff)
  ultimately have "spec_pop (abs_res st r) (st a) (abs_res st r')"
    using p(5) by (simp add: spec_pop_def ran_abs_res [OF ok])
  with p show ?thesis by blast
qed

section \<open>The buffer as the surge protector sees it\<close>

text \<open>
  The contract of \<^verbatim>\<open>types.Resister\<close> that buffering relies on: a pop fails only on an empty
  buffer, takes one of the most urgent members out and keeps the rest.
\<close>

fun pops :: "('s \<Rightarrow> (nat \<times> 's) option) \<Rightarrow> nat \<Rightarrow> 's \<Rightarrow> nat list" where
  "pops pop 0 s = []"
| "pops pop (Suc n) s = (case pop s of None \<Rightarrow> [] | Some (a, s') \<Rightarrow> a # pops pop n s')"

locale prio_buffer =
  fixes pop :: "'s \<Rightarrow> (nat \<times> 's) option"
    and qlen :: "'s \<Rightarrow> nat"
    and members :: "'s \<Rightarrow> nat multiset"
    and prio :: "'s \<Rightarrow> nat \<Rightarrow> int"
    and inv :: "'s \<Rightarrow> bool"
  assumes qlen_members: "qlen s = size (members s)"
    and pop_None: "inv s \<Longrightarrow> pop s = None \<longleftrightarrow> qlen s = 0"
    and pop_members: "inv s \<Longrightarrow> pop s = Some (a, s') \<Longrightarrow> members s = add_mset a (members s')"
    and pop_inv: "inv s \<Longrightarrow> pop s = Some (a, s') \<Longrightarrow> inv s'"
    and pop_prio: "inv s \<Longrightarrow> pop s = Some (a, s') \<Longrightarrow> prio s' = prio s"
    and pop_max: "inv s \<Longrightarrow> pop s = Some (a, s') \<Longrightarrow> b \<in># members s \<Longrightarrow> prio s b \<le> prio s a"
begin

lemma pop_decreases: "inv s \<Longrightarrow> pop s = Some (a, s') \<Longrightarrow> qlen s = Suc (qlen s')"
  using pop_members [of s a s'] by (simp add: qlen_members)

lemma pops_all:
  "inv s \<Longrightarrow> n = qlen s \<Longrightarrow>
   mset (pops pop n s) = members s \<and> sorted_wrt (\<lambda>a b. prio s b \<le> prio s a) (pops pop n s)"
proof (induction n arbitrary: s)
  case 0
  then show ?case by (simp add: qlen_members)
next
  case (Suc n)
  then obtain a s' where p: "pop s = Some (a, s')"
    using pop_None [of s] by (cases "pop s") auto
  have IH: "mset (pops pop n s') = members s'"
    "sorted_wrt (\<lambda>a b. prio s' b \<le> prio s' a) (pops pop n s')"
    using Suc.IH [OF pop_inv [OF Suc.prems(1) p]] pop_decreases [OF Suc.prems(1) p] Suc.prems by auto
  have "b \<in># members s" if "b \<in> set (pops pop n s')" for b
    using that IH(1) pop_members [OF Suc.prems(1) p] by (metis insert_iff set_mset_add_mset_insert set_mset_mset)
  then show ?case
    using IH p pop_prio [OF Suc.prems(1) p] pop_members [OF Suc.prems(1) p]
      pop_max [OF Suc.prems(1) p] by auto
qed

end

definition res_pop1 :: "'a estore \<times> resister \<Rightarrow> (nat \<times> 'a estore \<times> resister) option" where
  "res_pop1 s = (case res_Pop (fst s) (snd s) of
     (None, _, _) \<Rightarrow> None
   | (Some a, r', _) \<Rightarrow> Some (a, fst s, r'))"

lemma res_pop1_None: "res_pop1 (st, r) = None \<longleftrightarrow> res_queue r = []"
  using res_Pop_None [of st r] by (auto simp: res_pop1_def split: prod.splits option.splits)

lemma res_pop1_Some:
  assumes "res_inv st r" and eq: "res_pop1 (st, r) = Some (a, s')"
  shows "\<exists>r'. s' = (st, r') \<and> res_inv st r' \<and> mset (res_queue r) = add_mset a (mset (res_queue r')) \<and>
        (\<forall>b \<in> set (res_queue r). QueuePriority (st b) \<le> QueuePriority (st a))"
proof -
  have ne: "res_queue r \<noteq> []" using eq res_pop1_None [of st r] by auto
  obtain a0 r' es where "res_Pop st r = (Some a0, r', es)" "res_inv st r'"
    "mset (res_queue r) = add_mset a0 (mset (res_queue r'))"
    "\<forall>b \<in> set (res_queue r). QueuePriority (st b) \<le> QueuePriority (st a0)"
    using res_Pop_Some [OF assms(1) ne] by metis
  with eq show ?thesis by (auto simp: res_pop1_def)
qed

interpretation rbuf: prio_buffer res_pop1 "\<lambda>s. res_Len (snd s)" "\<lambda>s. mset (res_queue (snd s))"
  "\<lambda>s a. QueuePriority (fst s a)" "\<lambda>s. res_inv (fst s) (snd s)"
proof unfold_locales
  fix s :: "'a estore \<times> resister" and a b s'
  assume i: "res_inv (fst s) (snd s)"
  show "res_pop1 s = None \<longleftrightarrow> res_Len (snd s) = 0"
    using res_pop1_None [of "fst s" "snd s"] by (simp add: res_Len_def)
  assume "res_pop1 s = Some (a, s')"
  with res_pop1_Some [OF i, of a s'] obtain r' where r': "s' = (fst s, r')" "res_inv (fst s) r'"
    "mset (res_queue (snd s)) = add_mset a (mset (res_queue r'))"
    "\<forall>b \<in> set (res_queue (snd s)). QueuePriority (fst s b) \<le> QueuePriority (fst s a)" by auto
  then show "mset (res_queue (snd s)) = add_mset a (mset (res_queue (snd s')))"
    "res_inv (fst s') (snd s')"
    "(\<lambda>a. QueuePriority (fst s' a)) = (\<lambda>a. QueuePriority (fst s a))"
    by simp_all
  assume "b \<in># mset (res_queue (snd s))"
  then have "b \<in> set (res_queue (snd s))" by (simp only: set_mset_mset)
  with r'(4) show "QueuePriority (fst s b) \<le> QueuePriority (fst s a)" by blast
qed (simp add: res_Len_def)


section \<open>Properties\<close>

text \<open>
  C8: \<^verbatim>\<open>Push\<close> keeps the resister's invariant (slice in heap order, no duplicates, index and
  slice in agreement) and acts on the contents as a map update: also when the pushed pointer
  is already queued and its fields were changed by the caller before the call, which is what
  the surge protector's retry does.
\<close>

theorem Push_keeps_invariant_and_refines:
  assumes "res_inv st0 r"
    and "\<forall>x. x \<noteq> a \<longrightarrow> st x = st0 x"
    and "a \<in> set (res_queue r) \<longrightarrow> elem_ID (st a) = elem_ID (st0 a)"
    and "res_Push (Some a) st r = (err, st', r', es)"
  shows "err = None \<and> res_inv st' r' \<and>
    abs_res st' r' = spec_push (a \<in> set (res_queue r)) (st a) (abs_res st r)"
proof -
  have eqs: "err = None" "st' = push_store a st r" "r' = fst (snd (snd (res_Push (Some a) st r)))"
    using assms(4) res_Push_store [of a st r] res_Push_error(1) [of a st r] by auto
  have "elem_ID (st x) = elem_ID (st0 x)" if "x \<in> set (res_queue r)" for x
    using assms(2,3) that by (cases "x = a") auto
  then have "index_ok st r"
    using assms(1) by (auto simp: res_inv_def index_ok_def)
  then show ?thesis
    unfolding eqs using res_Push_inv [OF assms(1-3)] push_abs by simp
qed

definition sample_store :: "int \<Rightarrow> nat estore" where
  "sample_store retries p =
     \<lparr>elem_ID = FormatUint36 p, Data = p, QueuePriority = int p, CreationTime = 1,
      RetryCount = retries, Hash = ''''\<rparr>"

definition sample_resister :: "int \<Rightarrow> resister" where
  "sample_resister retries =
     fst (snd (snd (res_Push (Some 4) (sample_store retries) (NewResister ''h'' []))))"

lemma sample_resister_inv: "res_inv (sample_store retries) (sample_resister retries)"
  and sample_resister_queue: "res_queue (sample_resister retries) = [4]"
  by (auto simp: sample_resister_def sample_store_def NewResister_def NewResister_base_def res_Push_new
      res_inv_def index_ok_def is_heap_def heap_from_def heap_Push_def heap_up.simps)

theorem Push_keeps_invariant_and_refines_witness:
  "let st = sample_store 0; r = sample_resister 0; res = res_Push (Some 9) st r
   in fst res = None \<and> res_inv (fst (snd res)) (fst (snd (snd res))) \<and>
      abs_res (fst (snd res)) (fst (snd (snd res))) =
        spec_push (9 \<in> set (res_queue r)) (st 9) (abs_res st r)"
  unfolding Let_def
  by (rule Push_keeps_invariant_and_refines [OF sample_resister_inv, 
      where es = "snd (snd (snd (res_Push (Some 9) (sample_store 0) (sample_resister 0))))"])
    simp_all

text \<open>
  C9: \<^verbatim>\<open>Pop\<close> on a non-empty resister removes an element whose priority no queued element
  exceeds, keeps the invariant, and forgets exactly that identifier.
\<close>

theorem Pop_takes_highest_priority:
  assumes "res_inv st r" and "res_queue r \<noteq> []"
  shows "\<exists>a r' es. res_Pop st r = (Some a, r', es) \<and> res_inv st r' \<and>
    spec_pop (abs_res st r) (st a) (abs_res st r') \<and> res_Len r = Suc (res_Len r')"
proof -
  obtain a r' es where p: "res_Pop st r = (Some a, r', es)" "res_inv st r'"
    "spec_pop (abs_res st r) (st a) (abs_res st r')"
    using pop_abs [OF assms] by blast
  then have "res_pop1 (st, r) = Some (a, st, r')" by (simp add: res_pop1_def)
  with p show ?thesis
    using rbuf.pop_decreases [of "(st, r)"] assms by fastforce
qed

theorem Pop_takes_highest_priority_witness:
  "\<exists>a r' es. res_Pop (sample_store 0) (sample_resister 0) = (Some a, r', es) \<and>
     res_inv (sample_store 0) r' \<and>
     spec_pop (abs_res (sample_store 0) (sample_resister 0)) (sample_store 0 a) (abs_res (sample_store 0) r') \<and>
     res_Len (sample_resister 0) = Suc (res_Len r')"
  by (rule Pop_takes_highest_priority [OF sample_resister_inv]) (simp add: sample_resister_queue)

text \<open>
  draining a resister yields every queued element once, in order of falling priority.
\<close>

theorem drain_in_priority_order:
  assumes "res_inv st r"
  shows "mset (pops res_pop1 (res_Len r) (st, r)) = mset (res_queue r) \<and>
    sorted_wrt (\<lambda>a b. QueuePriority (st b) \<le> QueuePriority (st a)) (pops res_pop1 (res_Len r) (st, r))"
  using rbuf.pops_all [of "(st, r)" "res_Len r"] assms by simp

theorem drain_in_priority_order_witness:
  "let st = sample_store 0; r = fst (snd (snd (res_Push (Some 9) (sample_store 0) (sample_resister 0))))
   in mset (pops res_pop1 (res_Len r) (push_store 9 st (sample_resister 0), r)) = mset (res_queue r) \<and>
      sorted_wrt (\<lambda>a b. QueuePriority (push_store 9 st (sample_resister 0) b) \<le>
                        QueuePriority (push_store 9 st (sample_resister 0) a))
        (pops res_pop1 (res_Len r) (push_store 9 st (sample_resister 0), r))"
  unfolding Let_def
  by (rule drain_in_priority_order, rule res_Push_inv [OF sample_resister_inv]) simp_all

text \<open>
  \<^verbatim>\<open>DecayPriorities\<close> keeps the invariant, keeps the queued identifiers, and applies
  \<^verbatim>\<open>DecayPriority\<close> to every queued element and to nothing else.
\<close>

theorem DecayPriorities_keeps_invariant:
  assumes "res_inv st r" and "res_DecayPriorities st r = (st', r', es)"
  shows "res_inv st' r' \<and> mset (res_queue r') = mset (res_queue r) \<and>
    st' = (\<lambda>a. if a \<in> set (res_queue r) then DecayPriority (st a) else st a)"
proof -
  have d: "distinct (res_queue r)" using assms(1) by (simp add: res_inv_def index_ok_def)
  have "mset (res_queue r') = mset (res_queue r)" "st' = fst (decay_loop (res_queue r) st 0)"
    using assms(2) by (auto simp: res_DecayPriorities_def case_prod_beta Let_def heap_Init_mset)
  with decay_loop_store [OF d, of st 0] res_Decay_inv [OF assms(1)] assms(2)
  show ?thesis by simp
qed

theorem DecayPriorities_keeps_invariant_witness:
  "let st = sample_store 6; r = sample_resister 6; d = res_DecayPriorities st r
   in res_inv (fst d) (fst (snd d)) \<and> mset (res_queue (fst (snd d))) = mset (res_queue r) \<and>
      fst d = (\<lambda>a. if a \<in> set (res_queue r) then DecayPriority (st a) else st a)"
  unfolding Let_def
  by (rule DecayPriorities_keeps_invariant [OF sample_resister_inv, 
      where es = "snd (snd (res_DecayPriorities (sample_store 6) (sample_resister 6)))"]) simp

end
