(* ===== verification/Surge_Protector.thy ===== *)
theory Surge_Protector
  imports Resister
begin

text \<open>
  The surge protector (\<^verbatim>\<open>src/pkg/internal/surgeprotector\<close>): trip and reset, the token bucket,
  backups, and the submission path through backups, the resister or the managed components.

  The components a surge protector manages are other objects (wires, conduits), and they may
  call back into the protector, so the operations that call them work on a state \<open>sp_world\<close>
  that holds the protector, its resister, the element store, the clock and whatever else the
  components own (\<open>w_ext\<close>), and take the components' methods as a record \<open>component_ops\<close>. A
  call that does not return is \<open>None\<close>; loops that run such calls take fuel.
\<close>

section \<open>State\<close>

record surge_protector =
  sp_metadata :: metadata
  sp_active :: bool
  managedComponents :: "component_ref list"
  backupSystems :: "component_ref list"
  sp_loggers :: "logger list"
  sp_sensors :: "sensor list"
  sp_has_resister :: bool \<comment> \<open>the \<open>resister\<close> field is not nil\<close>
  resisterEnabled :: bool
  tokens :: int
  capacity :: int
  refillRate :: duration
  nextRefill :: gotime
  backoffJitter :: int
  maxRetryAttempts :: int
  rateLimited :: bool

record ('a, 'w) sp_world =
  w_sp :: surge_protector
  w_res :: resister \<comment> \<open>the object the \<open>resister\<close> field points to\<close>
  w_store :: "'a estore"
  w_seq :: nat \<comment> \<open>\<open>elementSeq\<close>\<close>
  w_next :: nat \<comment> \<open>the next free address\<close>
  w_clock :: "nat \<Rightarrow> gotime"
  w_tick :: nat
  w_trace :: "'a effect list"
  w_ext :: 'w

record ('a, 'w) component_ops =
  comp_IsStarted :: "nat \<Rightarrow> ('a, 'w) sp_world \<Rightarrow> bool"
  comp_Start :: "nat \<Rightarrow> ('a, 'w) sp_world \<Rightarrow> ('a, 'w) sp_world"
  comp_Restart :: "nat \<Rightarrow> ('a, 'w) sp_world \<Rightarrow> ('a, 'w) sp_world"
  comp_Submit :: "nat \<Rightarrow> 'a \<Rightarrow> ('a, 'w) sp_world \<Rightarrow> (gerr option \<times> ('a, 'w) sp_world) option"
  comp_Generators :: "nat \<Rightarrow> ('a, 'w) sp_world \<Rightarrow> component_ref list"
  gen_Start :: "nat \<Rightarrow> ('a, 'w) sp_world \<Rightarrow> ('a, 'w) sp_world"

text \<open>\<^verbatim>\<open>time.Now()\<close> takes the next reading of the clock.\<close>

definition read_clock :: "('a, 'w) sp_world \<Rightarrow> gotime \<times> ('a, 'w) sp_world" where
  "read_clock s = (w_clock s (w_tick s), s\<lparr>w_tick := Suc (w_tick s)\<rparr>)"

definition emit :: "'a effect list \<Rightarrow> ('a, 'w) sp_world \<Rightarrow> ('a, 'w) sp_world" where
  "emit es s = s\<lparr>w_trace := w_trace s @ es\<rparr>"

definition NewSurgeProtector_base :: "string \<Rightarrow> surge_protector" where
  "NewSurgeProtector_base hash =
     \<lparr>sp_metadata = \<lparr>meta_ID = hash, meta_Type = ''SURGE_PROTECTOR'', meta_Name = ''''\<rparr>,
      sp_active = False, managedComponents = [], backupSystems = [], sp_loggers = [], sp_sensors = [],
      sp_has_resister = False, resisterEnabled = False, tokens = 0, capacity = 0, refillRate = 0,
      nextRefill = 0, backoffJitter = 0, maxRetryAttempts = 0, rateLimited = False\<rparr>"

section \<open>Telemetry\<close>

definition sp_NotifyLoggers ::
  "surge_protector \<Rightarrow> loglevel \<Rightarrow> string \<Rightarrow> (string \<times> 'a logval) list \<Rightarrow> 'a effect list" where
  "sp_NotifyLoggers sp level msg kvs = log_calls logger_wants (sp_loggers sp) level msg kvs"

definition notifySurgeProtectorTrip :: "surge_protector \<Rightarrow> 'a effect list" where
  "notifySurgeProtectorTrip sp = sensor_calls (sp_sensors sp) (InvokeOnSurgeProtectorTrip (sp_metadata sp))"

definition notifySurgeProtectorReset :: "surge_protector \<Rightarrow> 'a effect list" where
  "notifySurgeProtectorReset sp = sensor_calls (sp_sensors sp) (InvokeOnSurgeProtectorReset (sp_metadata sp))"

definition notifySurgeProtectorBackupFailure :: "surge_protector \<Rightarrow> gerr \<Rightarrow> 'a effect list" where
  "notifySurgeProtectorBackupFailure sp err =
     sensor_calls (sp_sensors sp) (InvokeOnSurgeProtectorBackupFailure (sp_metadata sp) err)"

definition notifySurgeProtectorBackupSubmission :: "surge_protector \<Rightarrow> 'a \<Rightarrow> 'a effect list" where
  "notifySurgeProtectorBackupSubmission sp d =
     sensor_calls (sp_sensors sp) (InvokeOnSurgeProtectorBackupWireSubmit (sp_metadata sp) d)"

definition notifySurgeProtectorCreation :: "sensor list \<Rightarrow> 'a effect list" where
  "notifySurgeProtectorCreation ss = count_on_meters ss ''surge_count''"

definition notifySurgeProtectorReleaseToken :: "surge_protector \<Rightarrow> 'a effect list" where
  "notifySurgeProtectorReleaseToken sp =
     sensor_calls (sp_sensors sp) (InvokeOnSurgeProtectorReleaseToken (sp_metadata sp))"

definition notifySurgeProtectorConnectResister :: "surge_protector \<Rightarrow> resister \<Rightarrow> 'a effect list" where
  "notifySurgeProtectorConnectResister sp r =
     sensor_calls (sp_sensors sp) (InvokeOnSurgeProtectorConnectResister (sp_metadata sp) (res_metadata r))"

definition notifySurgeProtectorDetachedBackups :: "surge_protector \<Rightarrow> component_ref list \<Rightarrow> 'a effect list" where
  "notifySurgeProtectorDetachedBackups sp backups =
     concat (map (\<lambda>s. map (\<lambda>b. SensorCall (sensor_id s)
       (InvokeOnSurgeProtectorDetachedBackups (sp_metadata sp) (ref_metadata b))) backups) (sp_sensors sp))"

definition sp_notifySurgeProtectorSubmit :: "surge_protector \<Rightarrow> 'a \<Rightarrow> 'a effect list" where
  "sp_notifySurgeProtectorSubmit sp d =
     sensor_calls (sp_sensors sp) (InvokeOnSurgeProtectorSubmit (sp_metadata sp) d)"

section \<open>Configuration\<close>

definition sp_SetComponentMetadata :: "string \<Rightarrow> string \<Rightarrow> surge_protector \<Rightarrow> surge_protector" where
  "sp_SetComponentMetadata name ident sp =
     sp\<lparr>sp_metadata := \<lparr>meta_ID = ident, meta_Type = meta_Type (sp_metadata sp), meta_Name = name\<rparr>\<rparr>"

text \<open>\<^verbatim>\<open>int32(capacity)\<close> keeps the low 32 bits of the (64-bit) capacity.\<close>

definition SetRateLimit :: "int \<Rightarrow> duration \<Rightarrow> int \<Rightarrow> surge_protector \<Rightarrow> surge_protector" where
  "SetRateLimit cap rate retries sp =
     (let cap = (if cap < 0 then 0 else cap) in
      sp\<lparr>capacity := wrap_i32 cap, refillRate := rate, maxRetryAttempts := retries,
         tokens := wrap_i32 cap, nextRefill := 0, rateLimited := True\<rparr>)"

definition sp_ConnectComponent :: "component_ref option list \<Rightarrow> surge_protector \<Rightarrow> surge_protector" where
  "sp_ConnectComponent components sp =
     (let cs = nonnil components in
      if cs = [] then sp else sp\<lparr>managedComponents := managedComponents sp @ cs\<rparr>)"

definition AttachBackup :: "component_ref option list \<Rightarrow> surge_protector \<Rightarrow> surge_protector" where
  "AttachBackup backups sp =
     (let bs = nonnil backups in
      if bs = [] then sp else sp\<lparr>backupSystems := backupSystems sp @ bs\<rparr>)"

definition DetachBackups :: "surge_protector \<Rightarrow> surge_protector \<times> 'a effect list" where
  "DetachBackups sp =
     (let backups = backupSystems sp; sp' = sp\<lparr>backupSystems := []\<rparr> in
      (sp', if backups = [] then [] else notifySurgeProtectorDetachedBackups sp' backups))"

definition ConnectResister ::
  "resister option \<Rightarrow> ('a, 'w) sp_world \<Rightarrow> ('a, 'w) sp_world" where
  "ConnectResister ro s =
     (case ro of
        None \<Rightarrow> s\<lparr>w_sp := (w_sp s)\<lparr>resisterEnabled := False, sp_has_resister := False\<rparr>\<rparr>
      | Some r \<Rightarrow>
        let sp' = (w_sp s)\<lparr>sp_has_resister := True, resisterEnabled := True\<rparr> in
        emit (notifySurgeProtectorConnectResister sp' r) (s\<lparr>w_sp := sp', w_res := r\<rparr>))"

definition sp_ConnectLogger :: "logger option list \<Rightarrow> surge_protector \<Rightarrow> surge_protector" where
  "sp_ConnectLogger loggers sp =
     (let ls = nonnil loggers in
      if ls = [] then sp else sp\<lparr>sp_loggers := sp_loggers sp @ ls\<rparr>)"

definition sp_ConnectSensor :: "sensor option list \<Rightarrow> surge_protector \<Rightarrow> surge_protector \<times> 'a effect list" where
  "sp_ConnectSensor sensors sp =
     (let ss = nonnil sensors in
      if ss = [] then (sp, [])
      else (sp\<lparr>sp_sensors := sp_sensors sp @ ss\<rparr>, notifySurgeProtectorCreation ss))"

section \<open>Accessors\<close>

definition GetBackupSystems :: "surge_protector \<Rightarrow> component_ref list" where
  "GetBackupSystems sp = backupSystems sp"

definition GetResisterQueue :: "('a, 'w) sp_world \<Rightarrow> nat" where
  "GetResisterQueue s = (if \<not> sp_has_resister (w_sp s) then 0 else res_Len (w_res s))"

definition GetRateLimit :: "surge_protector \<Rightarrow> int \<times> duration \<times> int \<times> int" where
  "GetRateLimit sp = (capacity sp, refillRate sp, maxRetryAttempts sp, backoffJitter sp)"

definition IsBeingRateLimited :: "surge_protector \<Rightarrow> bool" where
  "IsBeingRateLimited sp \<longleftrightarrow> rateLimited sp"

definition IsResisterConnected :: "surge_protector \<Rightarrow> bool" where
  "IsResisterConnected sp \<longleftrightarrow> resisterEnabled sp"

definition IsTripped :: "surge_protector \<Rightarrow> bool" where
  "IsTripped sp \<longleftrightarrow> sp_active sp"

section \<open>The token bucket\<close>

definition GetTimeUntilNextRefill :: "gotime \<Rightarrow> surge_protector \<Rightarrow> duration" where
  "GetTimeUntilNextRefill now sp =
     (if \<not> IsBeingRateLimited sp then 0
      else if time_IsZero (nextRefill sp) then 0
      else if \<not> time_Before now (nextRefill sp) then 0
      else time_Sub (nextRefill sp) now)"

definition ReleaseToken :: "surge_protector \<Rightarrow> surge_protector \<times> 'a effect list" where
  "ReleaseToken sp =
     (if \<not> IsBeingRateLimited sp then (sp, [])
      else let sp' = (if tokens sp < capacity sp then sp\<lparr>tokens := wrap_i32 (tokens sp + 1)\<rparr> else sp)
           in (sp', notifySurgeProtectorReleaseToken sp'))"

definition TryTake :: "gotime \<Rightarrow> surge_protector \<Rightarrow> bool \<times> surge_protector" where
  "TryTake now sp =
     (if \<not> IsBeingRateLimited sp then (True, sp)
      else
        let sp1 =
          (if time_IsZero (nextRefill sp) \<or> \<not> time_Before now (nextRefill sp) then
             let sp0 = (if capacity sp < 0 then sp\<lparr>capacity := 0\<rparr> else sp) in
             sp0\<lparr>tokens := capacity sp0,
                 nextRefill := (if refillRate sp0 > 0 then time_Add now (refillRate sp0) else now)\<rparr>
           else sp)
        in if tokens sp1 \<le> 0 then (False, sp1)
           else (True, sp1\<lparr>tokens := wrap_i32 (tokens sp1 - 1)\<rparr>))"

definition sp_TryTake :: "('a, 'w) sp_world \<Rightarrow> bool \<times> ('a, 'w) sp_world" where
  "sp_TryTake s =
     (if \<not> IsBeingRateLimited (w_sp s) then (True, s)
      else let (now, s1) = read_clock s; (ok, sp') = TryTake now (w_sp s1)
           in (ok, s1\<lparr>w_sp := sp'\<rparr>))"

section \<open>Trip and reset\<close>

definition sp_Trip :: "surge_protector \<Rightarrow> surge_protector \<times> 'a effect list" where
  "sp_Trip sp =
     (if sp_active sp then (sp, [])
      else let sp' = sp\<lparr>sp_active := True\<rparr> in (sp', notifySurgeProtectorTrip sp'))"

fun restart_generators ::
  "('a, 'w) component_ops \<Rightarrow> sensor list \<Rightarrow> component_ref list \<Rightarrow> ('a, 'w) sp_world \<Rightarrow> ('a, 'w) sp_world" where
  "restart_generators ops sensors [] s = s"
| "restart_generators ops sensors (g # gs) s =
     restart_generators ops sensors gs
       (gen_Start ops (ref_id g) (emit (sensor_calls sensors (InvokeOnRestart (ref_metadata g))) s))"

fun restart_managed ::
  "('a, 'w) component_ops \<Rightarrow> sensor list \<Rightarrow> component_ref list \<Rightarrow> ('a, 'w) sp_world \<Rightarrow> ('a, 'w) sp_world" where
  "restart_managed ops sensors [] s = s"
| "restart_managed ops sensors (mc # mcs) s =
     (let c = ref_id mc; meta = ref_metadata mc;
          s1 = (if meta_Type meta = ''CONDUIT'' then comp_Restart ops c s
                else if \<not> comp_IsStarted ops c s
                then comp_Start ops c (emit (sensor_calls sensors (InvokeOnRestart meta)) s)
                else s)
      in restart_managed ops sensors mcs (restart_generators ops sensors (comp_Generators ops c s1) s1))"

definition sp_Reset :: "('a, 'w) component_ops \<Rightarrow> ('a, 'w) sp_world \<Rightarrow> ('a, 'w) sp_world" where
  "sp_Reset ops s =
     (if \<not> sp_active (w_sp s) then s
      else
        let s1 = s\<lparr>w_sp := (w_sp s)\<lparr>sp_active := False\<rparr>\<rparr>;
            s2 = emit (notifySurgeProtectorReset (w_sp s1)) s1;
            s3 = restart_managed ops (sp_sensors (w_sp s2)) (managedComponents (w_sp s2)) s2
        in emit (sp_NotifyLoggers (w_sp s3) InfoLevel ''Surge protector reset''
                   [(''component'', LMeta (sp_metadata (w_sp s3)))]) s3)"

text \<open>
  \<^verbatim>\<open>SetBlackoutPeriod\<close> starts a goroutine that sleeps until \<open>start\<close>, trips, sleeps until
  \<open>end\<close> and resets; its actions with the earliest instants they run at, from the instant of
  the call. \<^verbatim>\<open>WithConditionalBlackout\<close> starts one that runs its check once a minute.
\<close>

datatype blackout_action = BlackoutTrip | BlackoutReset

definition blackout_schedule :: "gotime \<Rightarrow> gotime \<Rightarrow> gotime \<Rightarrow> (gotime \<times> blackout_action) list" where
  "blackout_schedule now start finish =
     (let t1 = (if time_Sub start now > 0 then time_Add now (time_Sub start now) else now);
          t2 = (if time_Sub finish t1 > 0 then time_Add t1 (time_Sub finish t1) else t1)
      in [(t1, BlackoutTrip), (t2, BlackoutReset)])"

fun blackout_do :: "('a, 'w) component_ops \<Rightarrow> blackout_action \<Rightarrow> ('a, 'w) sp_world \<Rightarrow> ('a, 'w) sp_world" where
  "blackout_do ops BlackoutTrip s =
     (let (sp', es) = sp_Trip (w_sp s) in
      emit (es @ sp_NotifyLoggers sp' InfoLevel ''Surge protector tripped for blackout period''
                   [(''component'', LMeta (sp_metadata sp'))]) (s\<lparr>w_sp := sp'\<rparr>))"
| "blackout_do ops BlackoutReset s =
     (let s' = sp_Reset ops s in
      emit (sp_NotifyLoggers (w_sp s') InfoLevel ''Surge protector reset after blackout period''
              [(''component'', LMeta (sp_metadata (w_sp s')))]) s')"

definition conditional_blackout_step ::
  "('a, 'w) component_ops \<Rightarrow> bool \<Rightarrow> ('a, 'w) sp_world \<Rightarrow> ('a, 'w) sp_world" where
  "conditional_blackout_step ops check s =
     (if check then let (sp', es) = sp_Trip (w_sp s) in emit es (s\<lparr>w_sp := sp'\<rparr>)
      else sp_Reset ops s)"

section \<open>Submission\<close>

definition w_Push :: "nat option \<Rightarrow> ('a, 'w) sp_world \<Rightarrow> gerr option \<times> ('a, 'w) sp_world" where
  "w_Push elt s =
     (let (err, st', r', es) = res_Push elt (w_store s) (w_res s)
      in (err, emit es (s\<lparr>w_store := st', w_res := r'\<rparr>)))"

definition w_Pop :: "('a, 'w) sp_world \<Rightarrow> nat option \<times> ('a, 'w) sp_world" where
  "w_Pop s = (let (a, r', es) = res_Pop (w_store s) (w_res s) in (a, emit es (s\<lparr>w_res := r'\<rparr>)))"

definition sp_Enqueue :: "nat option \<Rightarrow> ('a, 'w) sp_world \<Rightarrow> gerr option \<times> ('a, 'w) sp_world" where
  "sp_Enqueue elt s =
     (if \<not> sp_has_resister (w_sp s) then (Some (Err ''surgeprotector: resister not configured''), s)
      else w_Push elt s)"

definition sp_Dequeue :: "('a, 'w) sp_world \<Rightarrow> (gerr + nat) \<times> ('a, 'w) sp_world" where
  "sp_Dequeue s =
     (if \<not> sp_has_resister (w_sp s) then (Inl (Err ''surgeprotector: resister not configured''), s)
      else if res_Len (w_res s) = 0 then (Inl (Err ''surgeprotector: queue is empty''), s)
      else case w_Pop s of
        (None, s') \<Rightarrow> (Inl (Err ''surgeprotector: failed to retrieve element''), s')
      | (Some a, s') \<Rightarrow> (Inr a, s'))"

fun submitTo ::
  "('a, 'w) component_ops \<Rightarrow> component_ref list \<Rightarrow> 'a \<Rightarrow> ('a, 'w) sp_world \<Rightarrow>
   (gerr option \<times> ('a, 'w) sp_world) option" where
  "submitTo ops [] d s = Some (None, s)"
| "submitTo ops (c # cs) d s =
     (case comp_Submit ops (ref_id c) d s of
        None \<Rightarrow> None
      | Some (Some err, s') \<Rightarrow> Some (Some err, s')
      | Some (None, s') \<Rightarrow> submitTo ops cs d s')"

definition submitToComponents ::
  "('a, 'w) component_ops \<Rightarrow> 'a \<Rightarrow> ('a, 'w) sp_world \<Rightarrow> (gerr option \<times> ('a, 'w) sp_world) option" where
  "submitToComponents ops d s = submitTo ops (managedComponents (w_sp s)) d s"

text \<open>The loop over the backups: start each if needed, submit, stop at the first error.\<close>

fun submitToBackups ::
  "('a, 'w) component_ops \<Rightarrow> component_ref list \<Rightarrow> 'a \<Rightarrow> ('a, 'w) sp_world \<Rightarrow>
   (gerr option \<times> ('a, 'w) sp_world) option" where
  "submitToBackups ops [] d s = Some (None, s)"
| "submitToBackups ops (b # bs) d s =
     (let s1 = (if \<not> comp_IsStarted ops (ref_id b) s then comp_Start ops (ref_id b) s else s) in
      case comp_Submit ops (ref_id b) d s1 of
        None \<Rightarrow> None
      | Some (Some err, s2) \<Rightarrow>
          Some (Some err, emit (notifySurgeProtectorBackupFailure (w_sp s2) err) s2)
      | Some (None, s2) \<Rightarrow>
          submitToBackups ops bs d (emit (notifySurgeProtectorBackupSubmission (w_sp s2) d) s2))"

text \<open>
  The drain loop \<^verbatim>\<open>for resister.Len() > 0 && s.TryTake()\<close>: \<open>Some (Some err, _)\<close> when it
  returned an error, \<open>Some (None, _)\<close> when it came to its end, \<open>None\<close> when the fuel ran out
  or a component's \<^verbatim>\<open>Submit\<close> did not return.
\<close>

definition retry_element :: "nat \<Rightarrow> ('a, 'w) sp_world \<Rightarrow> ('a, 'w) sp_world" where
  "retry_element a s =
     (let s1 = s\<lparr>w_store := (w_store s)(a := IncrementRetryCount (w_store s a))\<rparr>;
          (now, s2) = read_clock s1;
          s3 = s2\<lparr>w_store := (w_store s2)(a := AdjustPriority now (w_store s2 a))\<rparr>
      in snd (w_Push (Some a) s3))"

fun sp_drain ::
  "nat \<Rightarrow> ('a, 'w) component_ops \<Rightarrow> ('a, 'w) sp_world \<Rightarrow> (gerr option \<times> ('a, 'w) sp_world) option" where
  "sp_drain 0 ops s = None"
| "sp_drain (Suc fuel) ops s =
     (if res_Len (w_res s) > 0 then
        let (ok, s1) = sp_TryTake s in
        if \<not> ok then Some (None, s1)
        else case w_Pop s1 of
          (None, s2) \<Rightarrow> Some (None, s2)
        | (Some a, s2) \<Rightarrow>
            (case submitToComponents ops (Data (w_store s2 a)) s2 of
               None \<Rightarrow> None
             | Some (Some err, s3) \<Rightarrow> Some (Some err, retry_element a s3)
             | Some (None, s3) \<Rightarrow> sp_drain fuel ops s3)
      else Some (None, s))"

definition sp_Submit ::
  "nat \<Rightarrow> ('a, 'w) component_ops \<Rightarrow> nat option \<Rightarrow> ('a, 'w) sp_world \<Rightarrow>
   (gerr option \<times> ('a, 'w) sp_world) option" where
  "sp_Submit fuel ops elt s =
     (case elt of
        None \<Rightarrow> Some (None, s)
      | Some a \<Rightarrow>
        let backups = backupSystems (w_sp s) in
        if backups \<noteq> [] then submitToBackups ops backups (Data (w_store s a)) s
        else if \<not> sp_has_resister (w_sp s) \<or> \<not> IsResisterConnected (w_sp s)
        then submitToComponents ops (Data (w_store s a)) s
        else case sp_drain fuel ops s of
          None \<Rightarrow> None
        | Some (Some err, s1) \<Rightarrow> Some (Some err, s1)
        | Some (None, s1) \<Rightarrow>
            let (ok, s2) = sp_TryTake s1 in
            if ok then submitToComponents ops (Data (w_store s2 a)) s2
            else let (_, s3) = w_Push (Some a) s2 in
              Some (None, emit (sp_notifySurgeProtectorSubmit (w_sp s3) (Data (w_store s3 a))) s3))"

section \<open>Construction\<close>

datatype sp_option =
    SP_WithBackupSystem "component_ref option list"
  | SP_WithLogger "logger option list"
  | SP_WithComponentMetadata string string
  | SP_WithRateLimit int duration int
  | SP_WithResister "resister option"
  | SP_WithSensor "sensor option list"

fun apply_sp_option :: "sp_option \<Rightarrow> ('a, 'w) sp_world \<Rightarrow> ('a, 'w) sp_world" where
  "apply_sp_option (SP_WithBackupSystem bs) s = s\<lparr>w_sp := AttachBackup bs (w_sp s)\<rparr>"
| "apply_sp_option (SP_WithLogger ls) s = s\<lparr>w_sp := sp_ConnectLogger ls (w_sp s)\<rparr>"
| "apply_sp_option (SP_WithComponentMetadata name ident) s =
     s\<lparr>w_sp := sp_SetComponentMetadata name ident (w_sp s)\<rparr>"
| "apply_sp_option (SP_WithRateLimit cap rate retries) s =
     s\<lparr>w_sp := SetRateLimit cap rate retries (w_sp s)\<rparr>"
| "apply_sp_option (SP_WithResister r) s = ConnectResister r s"
| "apply_sp_option (SP_WithSensor ss) s =
     (let (sp', es) = sp_ConnectSensor ss (w_sp s) in emit es (s\<lparr>w_sp := sp'\<rparr>))"

fun apply_sp_options :: "sp_option option list \<Rightarrow> ('a, 'w) sp_world \<Rightarrow> ('a, 'w) sp_world" where
  "apply_sp_options [] s = s"
| "apply_sp_options (None # os) s = apply_sp_options os s"
| "apply_sp_options (Some opt # os) s = apply_sp_options os (apply_sp_option opt s)"

definition NewSurgeProtector ::
  "string \<Rightarrow> sp_option option list \<Rightarrow> ('a, 'w) sp_world \<Rightarrow> ('a, 'w) sp_world" where
  "NewSurgeProtector hash options s =
     (let s1 = apply_sp_options options (s\<lparr>w_sp := NewSurgeProtector_base hash\<rparr>)
      in emit (notifySurgeProtectorCreation (sp_sensors (w_sp s1))) s1)"

section \<open>The token bucket: invariant and rate\<close>

text \<open>
  The bucket never holds more tokens than its capacity, and never a negative number unless
  the capacity itself is negative, which \<open>SetRateLimit\<close> can produce by truncation and the
  first refill repairs.
\<close>

definition bucket_inv :: "surge_protector \<Rightarrow> bool" where
  "bucket_inv sp \<longleftrightarrow> is_i32 (capacity sp) \<and> tokens sp \<le> capacity sp \<and> (0 \<le> tokens sp \<or> tokens sp = capacity sp)"

lemma bucket_inv_base [simp]: "bucket_inv (NewSurgeProtector_base h)"
  by (simp add: bucket_inv_def NewSurgeProtector_base_def is_i32_def)

lemma bucket_inv_SetRateLimit [simp]: "bucket_inv (SetRateLimit cap rate retries sp)"
  by (simp add: bucket_inv_def SetRateLimit_def Let_def)

lemma bucket_inv_ReleaseToken [simp]: "bucket_inv sp \<Longrightarrow> bucket_inv (fst (ReleaseToken sp))"
  by (auto simp: bucket_inv_def ReleaseToken_def Let_def is_i32_def)

text \<open>One refill, and the three outcomes of \<^verbatim>\<open>TryTake\<close>.\<close>

definition refill_due :: "gotime \<Rightarrow> surge_protector \<Rightarrow> bool" where
  "refill_due now sp \<longleftrightarrow> nextRefill sp = 0 \<or> nextRefill sp \<le> now"

definition refilled :: "gotime \<Rightarrow> surge_protector \<Rightarrow> surge_protector" where
  "refilled now sp =
     sp\<lparr>capacity := max 0 (capacity sp), tokens := max 0 (capacity sp),
        nextRefill := now + max 0 (refillRate sp)\<rparr>"

lemma TryTake_cases:
  assumes "rateLimited sp"
  shows "TryTake now sp =
    (let sp1 = (if refill_due now sp then refilled now sp else sp) in
     if tokens sp1 \<le> 0 then (False, sp1) else (True, sp1\<lparr>tokens := wrap_i32 (tokens sp1 - 1)\<rparr>))"
  using assms
  by (auto simp: TryTake_def IsBeingRateLimited_def refill_due_def refilled_def time_defs Let_def max_def)

lemma TryTake_unlimited: "\<not> rateLimited sp \<Longrightarrow> TryTake now sp = (True, sp)"
  by (simp add: TryTake_def IsBeingRateLimited_def)

lemma bucket_inv_refilled: "bucket_inv sp \<Longrightarrow> bucket_inv (refilled now sp)"
  by (auto simp: bucket_inv_def refilled_def is_i32_def)

lemma bucket_inv_take:
  "bucket_inv sp \<Longrightarrow> 0 < tokens sp \<Longrightarrow>
   wrap_i32 (tokens sp - 1) = tokens sp - 1 \<and> bucket_inv (sp\<lparr>tokens := tokens sp - 1\<rparr>)"
  by (auto simp: bucket_inv_def is_i32_def)

lemma bucket_inv_TryTake [simp]: "bucket_inv sp \<Longrightarrow> bucket_inv (snd (TryTake now sp))"
proof (cases "rateLimited sp")
  case True
  assume "bucket_inv sp"
  then have inv: "bucket_inv (if refill_due now sp then refilled now sp else sp)"
    by (simp add: bucket_inv_refilled)
  show ?thesis
    using bucket_inv_take [OF inv] inv unfolding TryTake_cases [OF True] by (simp add: Let_def)
qed (simp add: TryTake_unlimited)

text \<open>The number of successful \<^verbatim>\<open>TryTake\<close>s of calls made at the given instants.\<close>

fun takes :: "gotime list \<Rightarrow> surge_protector \<Rightarrow> nat" where
  "takes [] sp = 0"
| "takes (t # ts) sp =
     (case TryTake t sp of (ok, sp') \<Rightarrow> (if ok then 1 else 0) + takes ts sp')"

text \<open>How many refills can happen up to instant \<open>T\<close> when the next one is due at \<open>nr\<close>.\<close>

definition refills_until :: "gotime \<Rightarrow> duration \<Rightarrow> gotime \<Rightarrow> int" where
  "refills_until T rate nr = (if nr \<le> T then (T - nr) div rate + 1 else 0)"

lemma refills_until_step:
  assumes "0 < rate" and "nr \<le> t" and "t \<le> T"
  shows "refills_until T rate (t + rate) + 1 \<le> refills_until T rate nr"
proof -
  have "(T - t) div rate \<le> (T - nr) div rate"
    using assms by (intro zdiv_mono1) auto
  moreover have "(T - (t + rate)) div rate = (T - t) div rate - 1"
    using assms(1) div_add_self2 [of rate "T - t - rate"] by (simp add: algebra_simps)
  moreover have "0 \<le> (T - t) div rate" using assms by (simp add: pos_imp_zdiv_nonneg_iff)
  ultimately show ?thesis using assms by (simp add: refills_until_def)
qed

lemma refills_until_nonneg: "0 < rate \<Longrightarrow> 0 \<le> refills_until T rate nr"
  by (simp add: refills_until_def pos_imp_zdiv_nonneg_iff)

lemma takes_bound:
  assumes "rateLimited sp" and "bucket_inv sp" and "0 \<le> capacity sp"
    and "0 < refillRate sp" and "0 < nextRefill sp" and "\<forall>t \<in> set ts. 0 < t \<and> t \<le> T"
  shows "int (takes ts sp) \<le> tokens sp + capacity sp * refills_until T (refillRate sp) (nextRefill sp)"
  using assms
proof (induction ts arbitrary: sp)
  case Nil
  then have "0 \<le> tokens sp" "0 \<le> capacity sp * refills_until T (refillRate sp) (nextRefill sp)"
    by (auto simp: bucket_inv_def refills_until_nonneg)
  then show ?case by simp
next
  case (Cons t ts)
  let ?f = "refills_until T (refillRate sp)"
  define sp1 where "sp1 = (if refill_due t sp then refilled t sp else sp)"
  have sp1: "rateLimited sp1" "bucket_inv sp1" "capacity sp1 = capacity sp"
    "refillRate sp1 = refillRate sp" "0 < nextRefill sp1" "0 \<le> tokens sp1"
    using Cons.prems bucket_inv_refilled [of sp t]
    by (auto simp: sp1_def refilled_def bucket_inv_def)
  have credit: "tokens sp1 + capacity sp * ?f (nextRefill sp1) \<le> tokens sp + capacity sp * ?f (nextRefill sp)"
  proof (cases "refill_due t sp")
    case True
    then have "?f (nextRefill sp1) + 1 \<le> ?f (nextRefill sp)" "tokens sp1 = capacity sp"
      using Cons.prems refills_until_step [of "refillRate sp" "nextRefill sp" t T]
      by (auto simp: sp1_def refilled_def refill_due_def)
    then have "capacity sp * (?f (nextRefill sp1) + 1) \<le> capacity sp * ?f (nextRefill sp)"
      using Cons.prems(3) by (intro mult_left_mono)
    with \<open>tokens sp1 = capacity sp\<close> show ?thesis
      using Cons.prems by (auto simp: bucket_inv_def algebra_simps)
  qed (simp add: sp1_def)
  show ?case
  proof (cases "tokens sp1 \<le> 0")
    case True
    then have "takes (t # ts) sp = takes ts sp1"
      unfolding takes.simps TryTake_cases [OF Cons.prems(1)] by (simp add: sp1_def Let_def)
    then show ?thesis
      using Cons.IH [of sp1] sp1 Cons.prems credit by simp
  next
    case False
    let ?sp2 = "sp1\<lparr>tokens := tokens sp1 - 1\<rparr>"
    have w: "wrap_i32 (tokens sp1 - 1) = tokens sp1 - 1" "bucket_inv ?sp2"
      using bucket_inv_take [OF sp1(2)] False by auto
    then have "TryTake t sp = (True, ?sp2)"
      using False unfolding TryTake_cases [OF Cons.prems(1)] by (simp add: sp1_def Let_def)
    then have "takes (t # ts) sp = Suc (takes ts ?sp2)" by simp
    moreover have "int (takes ts ?sp2) \<le> tokens sp1 - 1 + capacity sp * ?f (nextRefill sp1)"
      using Cons.IH [of ?sp2] sp1 w Cons.prems by simp
    ultimately show ?thesis using credit by simp
  qed
qed


text \<open>
  C5: the token bucket limits the rate. After \<^verbatim>\<open>SetRateLimit\<close>, for calls of \<^verbatim>\<open>TryTake\<close> whose
  first is at \<open>t\<close> and the others not before it and up to \<open>T\<close>, the number of tokens handed out
  is at most the capacity times one plus the number of whole refill intervals between \<open>t\<close>
  and \<open>T\<close>.
\<close>

theorem TryTake_rate_bound:
  assumes "0 \<le> cap" and "is_i32 cap" and "0 < rate"
    and "0 < t" and "t \<le> T" and "\<forall>u \<in> set ts. t \<le> u \<and> u \<le> T"
  shows "int (takes (t # ts) (SetRateLimit cap rate retries sp)) \<le> cap * (1 + (T - t) div rate)"
proof -
  let ?sp = "SetRateLimit cap rate retries sp"
  let ?sp1 = "refilled t ?sp"
  have sp: "rateLimited ?sp" "refill_due t ?sp" "bucket_inv ?sp1" "rateLimited ?sp1"
    "tokens ?sp1 = cap" "capacity ?sp1 = cap" "refillRate ?sp1 = rate" "nextRefill ?sp1 = t + rate"
    using assms
    by (simp_all add: SetRateLimit_def refill_due_def refilled_def bucket_inv_def)
  have f: "refills_until T rate (t + rate) \<le> (T - t) div rate"
    using refills_until_step [of rate t t T] assms by (simp add: refills_until_def)
  have key: "int (takes ts (?sp1\<lparr>tokens := k\<rparr>)) \<le> k + cap * ((T - t) div rate)"
    if "0 \<le> k" "k \<le> cap" for k
  proof -
    have "bucket_inv (?sp1\<lparr>tokens := k\<rparr>)" using sp that by (simp add: bucket_inv_def)
    then have "int (takes ts (?sp1\<lparr>tokens := k\<rparr>)) \<le> k + cap * refills_until T rate (t + rate)"
      using takes_bound [of "?sp1\<lparr>tokens := k\<rparr>" ts T] sp assms by fastforce
    also have "\<dots> \<le> k + cap * ((T - t) div rate)"
      using f assms(1) by (simp add: mult_left_mono)
    finally show ?thesis .
  qed
  have same: "?sp1\<lparr>tokens := 0\<rparr> = ?sp1" if "cap = 0" using sp(5) that by simp
  show ?thesis
  proof (cases "cap = 0")
    case True
    then have "TryTake t ?sp = (False, ?sp1)"
      unfolding TryTake_cases [OF sp(1)] using sp by (simp add: Let_def)
    then show ?thesis using key [of 0] True same by simp
  next
    case False
    have "TryTake t ?sp = (True, ?sp1\<lparr>tokens := cap - 1\<rparr>)"
      using bucket_inv_take [OF sp(3)] False assms(1) sp(2,5)
      unfolding TryTake_cases [OF sp(1)] by (simp add: Let_def)
    then show ?thesis using key [of "cap - 1"] False assms(1) by (simp add: algebra_simps)
  qed
qed

theorem TryTake_rate_bound_witness:
  "int (takes [1, 2, 3, 12, 13, 14] (SetRateLimit 2 10 0 (NewSurgeProtector_base ''h''))) \<le> 2 * (1 + (14 - 1) div 10) \<and>
   takes [1, 2, 3, 12, 13, 14] (SetRateLimit 2 10 0 (NewSurgeProtector_base ''h'')) = 4"
  using TryTake_rate_bound [of 2 10 1 14 "[2, 3, 12, 13, 14]" 0 "NewSurgeProtector_base ''h''"]
  by (simp add: is_i32_def TryTake_def SetRateLimit_def NewSurgeProtector_base_def wrap_i32_def
      IsBeingRateLimited_def time_defs)

text \<open>
  the number of tokens stays within its bounds under every operation on the bucket, and
  \<^verbatim>\<open>TryTake\<close> succeeds exactly when a token is there after a refill that is due.
\<close>

theorem bucket_bounds:
  assumes "bucket_inv sp" and "rateLimited sp"
  shows "bucket_inv (snd (TryTake now sp)) \<and> bucket_inv (fst (ReleaseToken sp)) \<and>
    bucket_inv (SetRateLimit cap rate retries sp) \<and>
    tokens (snd (TryTake now sp)) \<le> max 0 (capacity sp) \<and>
    (fst (TryTake now sp) \<longleftrightarrow> 0 < (if refill_due now sp then capacity sp else tokens sp)) \<and>
    (fst (TryTake now sp) \<longrightarrow>
       tokens (snd (TryTake now sp)) = (if refill_due now sp then capacity sp else tokens sp) - 1)"
proof -
  have "bucket_inv (if refill_due now sp then refilled now sp else sp)"
    using assms by (simp add: bucket_inv_refilled)
  then have w: "wrap_i32 (tokens sp1 - 1) = tokens sp1 - 1"
    if "sp1 = (if refill_due now sp then refilled now sp else sp)" "0 < tokens sp1" for sp1
    using bucket_inv_take that by blast
  have "capacity (snd (TryTake now sp)) \<le> max 0 (capacity sp)"
    unfolding TryTake_cases [OF assms(2)] by (simp add: Let_def refilled_def)
  moreover have "fst (TryTake now sp) \<longleftrightarrow> 0 < (if refill_due now sp then capacity sp else tokens sp)"
    unfolding TryTake_cases [OF assms(2)] by (auto simp: Let_def refilled_def)
  moreover have "fst (TryTake now sp) \<longrightarrow>
       tokens (snd (TryTake now sp)) = (if refill_due now sp then capacity sp else tokens sp) - 1"
    using w [OF refl] unfolding TryTake_cases [OF assms(2)] by (auto simp: Let_def refilled_def)
  moreover have "tokens (snd (TryTake now sp)) \<le> capacity (snd (TryTake now sp))"
    using bucket_inv_TryTake [OF assms(1), of now] by (simp add: bucket_inv_def)
  ultimately show ?thesis using assms by simp
qed

theorem bucket_bounds_witness:
  "bucket_inv (snd (TryTake 5 (SetRateLimit 2 10 0 (NewSurgeProtector_base ''h'')))) \<and>
   fst (TryTake 5 (SetRateLimit 2 10 0 (NewSurgeProtector_base ''h'')))"
proof -
  have "rateLimited (SetRateLimit 2 10 0 (NewSurgeProtector_base ''h''))"
    "refill_due 5 (SetRateLimit 2 10 0 (NewSurgeProtector_base ''h''))"
    "capacity (SetRateLimit 2 10 0 (NewSurgeProtector_base ''h'')) = 2"
    by (simp_all add: SetRateLimit_def refill_due_def wrap_i32_def)
  then show ?thesis
    using bucket_bounds [of "SetRateLimit 2 10 0 (NewSurgeProtector_base ''h'')" 5] by simp
qed

text \<open>
  a capacity that does not fit in 32 bits is truncated silently: a limit of \<open>2 ^ 31\<close> or
  \<open>2 ^ 32\<close> tokens, asked for through the \<^verbatim>\<open>int\<close> parameter, lets nothing through at all.
\<close>

theorem SetRateLimit_truncates_capacity:
  "\<not> fst (TryTake now (SetRateLimit (2 ^ 32) rate retries sp)) \<and>
   \<not> fst (TryTake now (SetRateLimit (2 ^ 31) rate retries sp)) \<and>
   GetRateLimit (SetRateLimit (2 ^ 31) rate retries sp) = (- (2 ^ 31), rate, retries, backoffJitter sp)"
  by (auto simp: TryTake_def SetRateLimit_def IsBeingRateLimited_def wrap_i32_def time_defs Let_def
      GetRateLimit_def)


section \<open>The submission path\<close>

text \<open>The data waiting in the resister.\<close>

definition queued :: "('a, 'w) sp_world \<Rightarrow> 'a multiset" where
  "queued s = image_mset (\<lambda>a. Data (w_store s a)) (mset (res_queue (w_res s)))"

definition world_inv :: "('a, 'w) sp_world \<Rightarrow> bool" where
  "world_inv s \<longleftrightarrow> res_inv (w_store s) (w_res s)"

lemma emit_simps [simp]:
  "w_sp (emit es s) = w_sp s" "w_res (emit es s) = w_res s" "w_store (emit es s) = w_store s"
  "w_ext (emit es s) = w_ext s" "w_seq (emit es s) = w_seq s" "w_next (emit es s) = w_next s"
  "w_clock (emit es s) = w_clock s" "w_tick (emit es s) = w_tick s"
  "w_trace (emit es s) = w_trace s @ es"
  by (simp_all add: emit_def)

lemma TryTake_frame [simp]:
  "managedComponents (snd (TryTake now sp)) = managedComponents sp"
  "backupSystems (snd (TryTake now sp)) = backupSystems sp"
  "sp_has_resister (snd (TryTake now sp)) = sp_has_resister sp"
  "resisterEnabled (snd (TryTake now sp)) = resisterEnabled sp"
  "sp_sensors (snd (TryTake now sp)) = sp_sensors sp"
  "sp_metadata (snd (TryTake now sp)) = sp_metadata sp"
  by (simp_all add: TryTake_def Let_def)

lemma sp_TryTake_frame [simp]:
  "w_res (snd (sp_TryTake s)) = w_res s" "w_store (snd (sp_TryTake s)) = w_store s"
  "w_ext (snd (sp_TryTake s)) = w_ext s" "w_trace (snd (sp_TryTake s)) = w_trace s"
  "managedComponents (w_sp (snd (sp_TryTake s))) = managedComponents (w_sp s)"
  "backupSystems (w_sp (snd (sp_TryTake s))) = backupSystems (w_sp s)"
  "sp_has_resister (w_sp (snd (sp_TryTake s))) = sp_has_resister (w_sp s)"
  "resisterEnabled (w_sp (snd (sp_TryTake s))) = resisterEnabled (w_sp s)"
  by (simp_all add: sp_TryTake_def read_clock_def case_prod_beta Let_def)

lemma w_Push_frame [simp]:
  "w_sp (snd (w_Push e s)) = w_sp s" "w_ext (snd (w_Push e s)) = w_ext s"
  by (simp_all add: w_Push_def case_prod_beta Let_def)

text \<open>Pushing an element whose identifier is not queued yet.\<close>

lemma w_Push_new:
  assumes inv: "world_inv s" and new: "indexByID (w_res s) (elem_ID (w_store s a)) = None"
  shows "fst (w_Push (Some a) s) = None" and "world_inv (snd (w_Push (Some a) s))"
    and "w_store (snd (w_Push (Some a) s)) = w_store s"
    and "queued (snd (w_Push (Some a) s)) = add_mset (Data (w_store s a)) (queued s)"
proof -
  have st: "push_store a (w_store s) (w_res s) = w_store s" using new by (simp add: push_store_def)
  show "fst (w_Push (Some a) s) = None"
    by (simp add: w_Push_def case_prod_beta Let_def res_Push_error)
  show st': "w_store (snd (w_Push (Some a) s)) = w_store s"
    by (simp add: w_Push_def case_prod_beta Let_def res_Push_store st)
  show "world_inv (snd (w_Push (Some a) s))"
    using res_Push_inv [of "w_store s" "w_res s" a "w_store s"] inv
    by (simp add: world_inv_def w_Push_def case_prod_beta Let_def res_Push_store st)
  show "queued (snd (w_Push (Some a) s)) = add_mset (Data (w_store s a)) (queued s)"
    unfolding queued_def st'
    by (simp add: w_Push_def case_prod_beta Let_def res_Push_new [of "w_res s" "w_store s" a, OF new] pq.heap_Push_mset)
qed

text \<open>Changing an element that is not queued.\<close>

lemma touch_unqueued:
  assumes inv: "world_inv s" and a: "a \<notin> set (res_queue (w_res s))"
  shows "world_inv (s\<lparr>w_store := (w_store s)(a := e)\<rparr>)"
    and "queued (s\<lparr>w_store := (w_store s)(a := e)\<rparr>) = queued s"
proof -
  have *: "\<forall>b \<in> set (res_queue (w_res s)). ((w_store s)(a := e)) b = w_store s b" using a by auto
  then show "world_inv (s\<lparr>w_store := (w_store s)(a := e)\<rparr>)"
    using inv heap_unchanged [of "w_store s" "res_queue (w_res s)" "(w_store s)(a := e)"] a
    by (auto simp: world_inv_def res_inv_def index_ok_def)
  show "queued (s\<lparr>w_store := (w_store s)(a := e)\<rparr>) = queued s"
    using * by (auto simp: queued_def intro!: image_mset_cong)
qed

lemma w_Pop_nonempty:
  assumes inv: "world_inv s" and ne: "0 < res_Len (w_res s)"
  obtains a s' where "w_Pop s = (Some a, s')" "world_inv s'" "w_sp s' = w_sp s" "w_ext s' = w_ext s"
    "w_store s' = w_store s" "res_Len (w_res s) = Suc (res_Len (w_res s'))"
    "a \<notin> set (res_queue (w_res s'))" "indexByID (w_res s') (elem_ID (w_store s a)) = None"
    "(\<forall>i. indexByID (w_res s) i = None \<longrightarrow> indexByID (w_res s') i = None)"
    "queued s = add_mset (Data (w_store s a)) (queued s')"
proof -
  have "res_queue (w_res s) \<noteq> []" using ne by (simp add: res_Len_def)
  then obtain a r' es where p: "res_Pop (w_store s) (w_res s) = (Some a, r', es)"
    "mset (res_queue (w_res s)) = add_mset a (mset (res_queue r'))"
    "indexByID r' = (indexByID (w_res s))(elem_ID (w_store s a) := None)" "res_inv (w_store s) r'"
    using res_Pop_Some [of "w_store s" "w_res s"] inv unfolding world_inv_def by metis
  have "length (res_queue (w_res s)) = Suc (length (res_queue r'))"
    using arg_cong [OF p(2), of size] by simp
  moreover have "a \<notin> set (res_queue r')"
    using mset_add_imp [OF p(2)] inv by (auto simp: world_inv_def res_inv_def index_ok_def)
  ultimately show ?thesis
    using p by (intro that [of a "emit es (s\<lparr>w_res := r'\<rparr>)"])
      (auto simp: w_Pop_def world_inv_def res_Len_def queued_def split: if_splits)
qed

lemma IncrementRetryCount_keeps [simp]:
  "elem_ID (IncrementRetryCount e) = elem_ID e" "Data (IncrementRetryCount e) = Data e"
  and AdjustPriority_keeps [simp]:
  "elem_ID (AdjustPriority now e) = elem_ID e" "Data (AdjustPriority now e) = Data e"
  by (simp_all add: IncrementRetryCount_def AdjustPriority_def Let_def)

lemma retry_element_requeues:
  assumes inv: "world_inv s" and a: "a \<notin> set (res_queue (w_res s))"
    and new: "indexByID (w_res s) (elem_ID (w_store s a)) = None"
  shows "world_inv (retry_element a s)" "w_ext (retry_element a s) = w_ext s" "w_sp (retry_element a s) = w_sp s"
    "queued (retry_element a s) = add_mset (Data (w_store s a)) (queued s)"
proof -
  define e where "e = AdjustPriority (w_clock s (w_tick s)) (IncrementRetryCount (w_store s a))"
  define s' where "s' = s\<lparr>w_tick := Suc (w_tick s), w_store := (w_store s)(a := e)\<rparr>"
  have eq: "retry_element a s = snd (w_Push (Some a) s')"
    by (simp add: retry_element_def read_clock_def e_def s'_def Let_def)
  have inv': "world_inv s'" "queued s' = queued s"
    using touch_unqueued [OF inv a, of e] by (simp_all add: s'_def world_inv_def queued_def)
  have e: "elem_ID e = elem_ID (w_store s a)" "Data e = Data (w_store s a)" by (simp_all add: e_def)
  have new': "indexByID (w_res s') (elem_ID (w_store s' a)) = None"
    using new e by (simp add: s'_def)
  show "world_inv (retry_element a s)" "w_ext (retry_element a s) = w_ext s" "w_sp (retry_element a s) = w_sp s"
    "queued (retry_element a s) = add_mset (Data (w_store s a)) (queued s)"
    using w_Push_new [OF inv'(1) new'] inv'(2) e unfolding eq by (simp_all add: s'_def)
qed


section \<open>What a managed component promises\<close>

text \<open>
  The contract of a managed component as the drain loop relies on it: while it has room, a
  \<^verbatim>\<open>Submit\<close> returns, leaves the protector, the resister and the queued elements alone, takes
  in the datum when it reports no error and nothing otherwise, and uses at most one place.
\<close>

locale component_sink =
  fixes ops :: "('a, 'w) component_ops"
    and c :: nat
    and delivered :: "'w \<Rightarrow> 'a multiset"
    and room :: "'w \<Rightarrow> nat"
  assumes sink_Submit: "0 < room (w_ext s) \<Longrightarrow>
    \<exists>err s'. comp_Submit ops c d s = Some (err, s') \<and> w_sp s' = w_sp s \<and> w_res s' = w_res s \<and>
      w_store s' = w_store s \<and> room (w_ext s) \<le> Suc (room (w_ext s')) \<and>
      delivered (w_ext s') = (if err = None then add_mset d (delivered (w_ext s)) else delivered (w_ext s))"
begin

definition accounted :: "('a, 'w) sp_world \<Rightarrow> 'a multiset" where
  "accounted s = delivered (w_ext s) + queued s"

lemma sink_submitToComponents:
  assumes "map ref_id (managedComponents (w_sp s)) = [c]" and "0 < room (w_ext s)"
  obtains err s' where "submitToComponents ops d s = Some (err, s')"
    "w_sp s' = w_sp s" "w_res s' = w_res s" "w_store s' = w_store s" "room (w_ext s) \<le> Suc (room (w_ext s'))"
    "delivered (w_ext s') = (if err = None then add_mset d (delivered (w_ext s)) else delivered (w_ext s))"
proof -
  obtain m where m: "managedComponents (w_sp s) = [m]" "ref_id m = c" using assms(1) by auto
  obtain err s' where "comp_Submit ops c d s = Some (err, s')"
    "w_sp s' = w_sp s" "w_res s' = w_res s" "w_store s' = w_store s" "room (w_ext s) \<le> Suc (room (w_ext s'))"
    "delivered (w_ext s') = (if err = None then add_mset d (delivered (w_ext s)) else delivered (w_ext s))"
    using sink_Submit [OF assms(2), of d] by blast
  then show ?thesis using m by (intro that) (auto simp: submitToComponents_def split: option.splits)
qed

lemma drain_conserves:
  assumes "world_inv s" and "map ref_id (managedComponents (w_sp s)) = [c]"
    and "res_Len (w_res s) < fuel" and "res_Len (w_res s) < room (w_ext s)"
  shows "\<exists>err s'. sp_drain fuel ops s = Some (err, s') \<and> world_inv s' \<and> accounted s' = accounted s \<and>
    map ref_id (managedComponents (w_sp s')) = [c] \<and>
    (err = None \<longrightarrow> 0 < room (w_ext s') \<and> w_store s' = w_store s \<and>
       (\<forall>i. indexByID (w_res s) i = None \<longrightarrow> indexByID (w_res s') i = None))"
  using assms
proof (induction fuel arbitrary: s)
  case (Suc fuel)
  obtain ok s1 where tt: "sp_TryTake s = (ok, s1)" by fastforce
  have s1: "w_res s1 = w_res s" "w_store s1 = w_store s" "w_ext s1 = w_ext s"
    "managedComponents (w_sp s1) = managedComponents (w_sp s)" "accounted s1 = accounted s" "world_inv s1"
    using sp_TryTake_frame [of s] tt Suc.prems(1) by (simp_all add: accounted_def queued_def world_inv_def)
  show ?case
  proof (cases "0 < res_Len (w_res s) \<and> ok")
    case False
    then show ?thesis using tt s1 Suc.prems by (cases ok) auto
  next
    case True
    obtain a s2 where pop: "w_Pop s1 = (Some a, s2)" and s2: "world_inv s2" "w_sp s2 = w_sp s1"
      "w_ext s2 = w_ext s1" "w_store s2 = w_store s1" "res_Len (w_res s1) = Suc (res_Len (w_res s2))"
      "a \<notin> set (res_queue (w_res s2))" "indexByID (w_res s2) (elem_ID (w_store s1 a)) = None"
      "(\<forall>i. indexByID (w_res s1) i = None \<longrightarrow> indexByID (w_res s2) i = None)"
      "queued s1 = add_mset (Data (w_store s1 a)) (queued s2)"
      by (rule w_Pop_nonempty [OF s1(6)]) (use True s1 in auto)
    obtain err s3 where sub: "submitToComponents ops (Data (w_store s2 a)) s2 = Some (err, s3)"
      and s3: "w_sp s3 = w_sp s2" "w_res s3 = w_res s2" "w_store s3 = w_store s2"
      "room (w_ext s2) \<le> Suc (room (w_ext s3))"
      "delivered (w_ext s3) = (if err = None then add_mset (Data (w_store s2 a)) (delivered (w_ext s2))
         else delivered (w_ext s2))"
      by (rule sink_submitToComponents [of s2 "Data (w_store s2 a)"]) (use s1 s2 Suc.prems in auto)
    have q3: "queued s3 = queued s2" "world_inv s3" using s3 s2 by (simp_all add: queued_def world_inv_def)
    show ?thesis
    proof (cases err)
      case None
      have "accounted s3 = accounted s" using None q3 s3 s2 s1 by (simp add: accounted_def)
      moreover have "\<exists>err s'. sp_drain fuel ops s3 = Some (err, s') \<and> world_inv s' \<and> accounted s' = accounted s3 \<and>
        map ref_id (managedComponents (w_sp s')) = [c] \<and>
        (err = None \<longrightarrow> 0 < room (w_ext s') \<and> w_store s' = w_store s3 \<and>
           (\<forall>i. indexByID (w_res s3) i = None \<longrightarrow> indexByID (w_res s') i = None))"
        using Suc.prems s1 s2 s3 q3 by (intro Suc.IH) auto
      ultimately show ?thesis using None True tt pop sub s3 s2 s1 by auto
    next
      case (Some e)
      have "accounted (retry_element a s3) = accounted s" "world_inv (retry_element a s3)"
        "w_sp (retry_element a s3) = w_sp s3"
        using retry_element_requeues [OF q3(2), of a] Some q3 s3 s2 s1 by (simp_all add: accounted_def)
      then show ?thesis using Some True tt pop sub s3 s2 s1 Suc.prems by auto
    qed
  qed
qed simp

lemma Submit_conserves:
  assumes "world_inv s" and "map ref_id (managedComponents (w_sp s)) = [c]" and "backupSystems (w_sp s) = []"
    and "indexByID (w_res s) (elem_ID (w_store s a)) = None"
    and "res_Len (w_res s) < fuel" and "res_Len (w_res s) < room (w_ext s)"
    and "sp_has_resister (w_sp s)" and "resisterEnabled (w_sp s)"
  shows "\<exists>err s'. sp_Submit fuel ops (Some a) s = Some (err, s') \<and> world_inv s' \<and>
    accounted s' = (if err = None then add_mset (Data (w_store s a)) (accounted s) else accounted s)"
proof -
  obtain derr s1 where d: "sp_drain fuel ops s = Some (derr, s1)" "world_inv s1" "accounted s1 = accounted s"
    "map ref_id (managedComponents (w_sp s1)) = [c]"
    and ok: "derr = None \<longrightarrow> 0 < room (w_ext s1) \<and> w_store s1 = w_store s \<and>
      (\<forall>i. indexByID (w_res s) i = None \<longrightarrow> indexByID (w_res s1) i = None)"
    using drain_conserves [OF assms(1,2,5,6)] by (elim exE conjE)
  show ?thesis
  proof (cases derr)
    case (Some e)
    then show ?thesis using d assms by (simp add: sp_Submit_def IsResisterConnected_def)
  next
    case None
    obtain tok s2 where tt: "sp_TryTake s1 = (tok, s2)" by fastforce
    have s2: "w_res s2 = w_res s1" "w_store s2 = w_store s" "w_ext s2 = w_ext s1"
      "managedComponents (w_sp s2) = managedComponents (w_sp s1)" "world_inv s2" "queued s2 = queued s1"
      using sp_TryTake_frame [of s1] tt d ok None by (simp_all add: queued_def world_inv_def)
    have new: "indexByID (w_res s2) (elem_ID (w_store s2 a)) = None" using s2 ok None assms(4) by auto
    show ?thesis
    proof (cases tok)
      case True
      obtain err s3 where sub: "submitToComponents ops (Data (w_store s2 a)) s2 = Some (err, s3)"
        and s3: "w_res s3 = w_res s2" "w_store s3 = w_store s2"
        "delivered (w_ext s3) = (if err = None then add_mset (Data (w_store s2 a)) (delivered (w_ext s2))
           else delivered (w_ext s2))"
        by (rule sink_submitToComponents [of s2 "Data (w_store s2 a)"]) (use s2 d ok None in auto)
      then show ?thesis using True None d tt s2 assms
        by (auto simp: sp_Submit_def IsResisterConnected_def accounted_def queued_def world_inv_def)
    next
      case False
      obtain s3 where p: "w_Push (Some a) s2 = (None, s3)" "world_inv s3" "w_store s3 = w_store s2"
        "queued s3 = add_mset (Data (w_store s2 a)) (queued s2)" "w_ext s3 = w_ext s2"
        using w_Push_new [OF s2(5) new] w_Push_frame [of "Some a" s2] by (metis prod.collapse)
      then show ?thesis using False None d tt s2 assms
        by (auto simp: sp_Submit_def IsResisterConnected_def accounted_def queued_def world_inv_def)
    qed
  qed
qed

end


end
