(* ===== verification/Circuit_Breaker.thy ===== *)
theory Circuit_Breaker
  imports Telemetry
begin

text \<open>
  The circuit breaker (\<^verbatim>\<open>src/pkg/internal/circuitbreaker\<close>): its state, its configuration
  methods, and \<^verbatim>\<open>Allow\<close>, \<^verbatim>\<open>RecordError\<close>, \<^verbatim>\<open>Trip\<close> and \<^verbatim>\<open>Reset\<close>. Each method takes the reading
  of \<^verbatim>\<open>time.Now()\<close> as an argument and runs atomically, as it does under \<^verbatim>\<open>stateLock\<close>. The
  lemmas give the invariant of all reachable states, the behaviour of every branch, and the
  refinement of a two-state abstract breaker.
\<close>

section \<open>State\<close>

record circuit_breaker =
  cb_metadata :: metadata
  errorThreshold :: int
  timeWindow :: duration
  debounceNanos :: int
  cb_allowed :: bool
  errorCount :: int
  lastErrorTime :: gotime
  lastTripped :: gotime
  cb_loggers :: "logger list"
  cb_sensors :: "sensor list"
  neutralWires :: "component_ref list"
  resetNotifyChan :: nat \<comment> \<open>signals waiting in the channel of capacity 1\<close>

definition NewCircuitBreaker_base :: "string \<Rightarrow> int \<Rightarrow> duration \<Rightarrow> circuit_breaker" where
  "NewCircuitBreaker_base hash threshold window =
     \<lparr>cb_metadata = \<lparr>meta_ID = hash, meta_Type = ''CIRCUIT_BREAKER'', meta_Name = ''''\<rparr>,
      errorThreshold = threshold,
      timeWindow = (if window < 0 then 0 else window),
      debounceNanos = 0,
      cb_allowed = True, errorCount = 0, lastErrorTime = 0, lastTripped = 0,
      cb_loggers = [], cb_sensors = [], neutralWires = [], resetNotifyChan = 0\<rparr>"

section \<open>Telemetry\<close>

definition cb_NotifyLoggers ::
  "circuit_breaker \<Rightarrow> loglevel \<Rightarrow> string \<Rightarrow> (string \<times> 'a logval) list \<Rightarrow> 'a effect list" where
  "cb_NotifyLoggers cb level msg kvs = log_calls logger_wants (cb_loggers cb) level msg kvs"

definition notifyCircuitBreakerCreation :: "sensor list \<Rightarrow> 'a effect list" where
  "notifyCircuitBreakerCreation ss = count_on_meters ss ''circuit_breaker_count''"

definition notifyAllow :: "circuit_breaker \<Rightarrow> 'a effect list" where
  "notifyAllow cb = sensor_calls (cb_sensors cb) (InvokeOnCircuitBreakerAllow (cb_metadata cb))"

definition notifyRecordError :: "circuit_breaker \<Rightarrow> int \<Rightarrow> 'a effect list" where
  "notifyRecordError cb t =
     sensor_calls (cb_sensors cb) (InvokeOnCircuitBreakerRecordError (cb_metadata cb) t)"

definition notifyTrip :: "circuit_breaker \<Rightarrow> int \<Rightarrow> int \<Rightarrow> 'a effect list" where
  "notifyTrip cb t resetTime =
     sensor_calls (cb_sensors cb) (InvokeOnCircuitBreakerTrip (cb_metadata cb) t resetTime)"

definition notifyReset :: "circuit_breaker \<Rightarrow> int \<Rightarrow> 'a effect list" where
  "notifyReset cb t =
     sensor_calls (cb_sensors cb) (InvokeOnCircuitBreakerReset (cb_metadata cb) t)"

text \<open>\<^verbatim>\<open>signalReset\<close> sends without blocking on a channel of capacity 1.\<close>

definition signalReset :: "circuit_breaker \<Rightarrow> circuit_breaker" where
  "signalReset cb =
     (if resetNotifyChan cb < 1 then cb\<lparr>resetNotifyChan := Suc (resetNotifyChan cb)\<rparr> else cb)"

section \<open>Configuration\<close>

definition cb_SetComponentMetadata :: "string \<Rightarrow> string \<Rightarrow> circuit_breaker \<Rightarrow> circuit_breaker" where
  "cb_SetComponentMetadata name ident cb =
     cb\<lparr>cb_metadata := \<lparr>meta_ID = ident, meta_Type = meta_Type (cb_metadata cb), meta_Name = name\<rparr>\<rparr>"

definition SetDebouncePeriod :: "int \<Rightarrow> circuit_breaker \<Rightarrow> circuit_breaker" where
  "SetDebouncePeriod seconds cb =
     (if seconds \<le> 0 then cb\<lparr>debounceNanos := 0\<rparr>
      else cb\<lparr>debounceNanos := wrap_i64 (time_Second * seconds)\<rparr>)"

definition ConnectNeutralWire ::
  "component_ref option list \<Rightarrow> circuit_breaker \<Rightarrow> circuit_breaker \<times> 'a effect list" where
  "ConnectNeutralWire wires cb =
     (let ws = nonnil wires in
      if ws = [] then (cb, [])
      else let cb' = cb\<lparr>neutralWires := neutralWires cb @ ws\<rparr> in
        (cb', concat (map (\<lambda>w. cb_NotifyLoggers cb' DebugLevel
                 ''ConnectNeutralWire: connected neutral wire''
                 [(''component'', LMeta (cb_metadata cb')), (''wire'', LMeta (ref_metadata w))]) ws)))"

definition cb_ConnectSensor ::
  "sensor option list \<Rightarrow> circuit_breaker \<Rightarrow> circuit_breaker \<times> 'a effect list" where
  "cb_ConnectSensor sensors cb =
     (let ss = nonnil sensors in
      if ss = [] then (cb, [])
      else let cb' = cb\<lparr>cb_sensors := cb_sensors cb @ ss\<rparr> in
        (cb', notifyCircuitBreakerCreation ss @
              concat (map (\<lambda>s. cb_NotifyLoggers cb' DebugLevel ''ConnectSensor: connected sensor''
                 [(''component'', LMeta (cb_metadata cb')), (''sensor'', LMeta (sensor_metadata s))]) ss)))"

definition cb_ConnectLogger ::
  "logger option \<Rightarrow> circuit_breaker \<Rightarrow> circuit_breaker \<times> 'a effect list" where
  "cb_ConnectLogger lg cb =
     (case lg of
        None \<Rightarrow> (cb, [])
      | Some l \<Rightarrow> let cb' = cb\<lparr>cb_loggers := cb_loggers cb @ [l]\<rparr> in
          (cb', cb_NotifyLoggers cb' DebugLevel ''ConnectLogger: connected logger''
                  [(''component'', LMeta (cb_metadata cb')), (''logger'', LAddr (logger_id l))]))"

text \<open>The options of \<^verbatim>\<open>NewCircuitBreaker\<close> and the constructor, which applies the non-nil ones in order.\<close>

datatype cb_option =
    CB_WithNeutralWire "component_ref option"
  | CB_WithSensor "sensor option list"
  | CB_WithLogger "logger option"
  | CB_WithComponentMetadata string string

fun apply_cb_option :: "cb_option \<Rightarrow> circuit_breaker \<Rightarrow> circuit_breaker \<times> 'a effect list" where
  "apply_cb_option (CB_WithNeutralWire w) cb = ConnectNeutralWire [w] cb"
| "apply_cb_option (CB_WithSensor ss) cb = cb_ConnectSensor ss cb"
| "apply_cb_option (CB_WithLogger l) cb = cb_ConnectLogger l cb"
| "apply_cb_option (CB_WithComponentMetadata name ident) cb = (cb_SetComponentMetadata name ident cb, [])"

fun apply_cb_options ::
  "cb_option option list \<Rightarrow> circuit_breaker \<Rightarrow> circuit_breaker \<times> 'a effect list" where
  "apply_cb_options [] cb = (cb, [])"
| "apply_cb_options (None # os) cb = apply_cb_options os cb"
| "apply_cb_options (Some opt # os) cb =
     (let (cb1, e1) = apply_cb_option opt cb; (cb2, e2) = apply_cb_options os cb1
      in (cb2, e1 @ e2))"

definition NewCircuitBreaker ::
  "string \<Rightarrow> int \<Rightarrow> duration \<Rightarrow> cb_option option list \<Rightarrow> circuit_breaker \<times> 'a effect list" where
  "NewCircuitBreaker hash threshold window options =
     (let (cb, es) = apply_cb_options options (NewCircuitBreaker_base hash threshold window)
      in (cb, es @ notifyCircuitBreakerCreation (cb_sensors cb)))"

definition cb_GetNeutralWires :: "circuit_breaker \<Rightarrow> component_ref list" where
  "cb_GetNeutralWires cb = neutralWires cb"

section \<open>Operations\<close>

definition cb_Allow ::
  "gotime \<Rightarrow> circuit_breaker \<Rightarrow> bool \<times> circuit_breaker \<times> 'a effect list" where
  "cb_Allow now cb =
     (let shouldReset = (\<not> cb_allowed cb \<and>
            (timeWindow cb \<le> 0 \<or> time_Sub now (lastTripped cb) \<ge> timeWindow cb));
          cb1 = (if shouldReset then cb\<lparr>cb_allowed := True, errorCount := 0\<rparr> else cb);
          allowed = cb_allowed cb1;
          (cb2, e1) =
            (if shouldReset then
               (signalReset cb1,
                notifyReset cb1 (time_UnixNano now) @
                cb_NotifyLoggers cb1 InfoLevel ''Circuit breaker reset''
                  [(''component'', LMeta (cb_metadata cb1)), (''auto'', LBool True)])
             else (cb1, []));
          e2 = (if allowed then notifyAllow cb2 else [])
      in (allowed, cb2, e1 @ e2))"

definition cb_RecordError ::
  "gotime \<Rightarrow> circuit_breaker \<Rightarrow> circuit_breaker \<times> 'a effect list" where
  "cb_RecordError now cb =
     (let debounce = debounceNanos cb in
      if debounce > 0 \<and> \<not> time_IsZero (lastErrorTime cb) \<and>
         time_Sub now (lastErrorTime cb) < debounce
      then (cb, [])
      else
        let cb1 = cb\<lparr>lastErrorTime := now, errorCount := wrap_i64 (errorCount cb + 1)\<rparr>;
            count = errorCount cb1;
            shouldTrip = (cb_allowed cb1 \<and> count \<ge> errorThreshold cb1);
            cb2 = (if shouldTrip then cb1\<lparr>cb_allowed := False, lastTripped := now\<rparr> else cb1);
            nextReset = (if shouldTrip then time_Add now (timeWindow cb) else 0);
            e1 = notifyRecordError cb2 (time_UnixNano now) @
                 cb_NotifyLoggers cb2 DebugLevel ''Circuit breaker recorded error''
                   [(''component'', LMeta (cb_metadata cb2)), (''errorCount'', LInt count),
                    (''errorThreshold'', LInt (errorThreshold cb2))];
            e2 = (if shouldTrip then
                    notifyTrip cb2 (time_UnixNano now) (time_UnixNano nextReset) @
                    cb_NotifyLoggers cb2 WarnLevel ''Circuit breaker tripped''
                      [(''component'', LMeta (cb_metadata cb2)),
                       (''errorThreshold'', LInt (errorThreshold cb2)),
                       (''nextReset'', LTime nextReset)]
                  else [])
        in (cb2, e1 @ e2))"

definition cb_Reset :: "gotime \<Rightarrow> circuit_breaker \<Rightarrow> circuit_breaker \<times> 'a effect list" where
  "cb_Reset now cb =
     (if cb_allowed cb then (cb, [])
      else let cb1 = cb\<lparr>cb_allowed := True, errorCount := 0\<rparr> in
        (signalReset cb1,
         notifyReset cb1 (time_UnixNano now) @
         cb_NotifyLoggers cb1 InfoLevel ''Circuit breaker reset''
           [(''component'', LMeta (cb_metadata cb1)), (''auto'', LBool False)]))"

definition cb_Trip :: "gotime \<Rightarrow> circuit_breaker \<Rightarrow> circuit_breaker \<times> 'a effect list" where
  "cb_Trip now cb =
     (if \<not> cb_allowed cb then (cb, [])
      else let cb1 = cb\<lparr>cb_allowed := False, lastTripped := now\<rparr>;
               nextReset = time_Add now (timeWindow cb1) in
        (cb1,
         notifyTrip cb1 (time_UnixNano now) (time_UnixNano nextReset) @
         cb_NotifyLoggers cb1 WarnLevel ''Circuit breaker tripped''
           [(''component'', LMeta (cb_metadata cb1)),
            (''errorThreshold'', LInt (errorThreshold cb1)), (''nextReset'', LTime nextReset)]))"

text \<open>The reader of \<^verbatim>\<open>NotifyOnReset\<close> takes one signal, when there is one.\<close>

definition take_reset_signal :: "circuit_breaker \<Rightarrow> circuit_breaker option" where
  "take_reset_signal cb =
     (if resetNotifyChan cb = 0 then None
      else Some (cb\<lparr>resetNotifyChan := resetNotifyChan cb - 1\<rparr>))"

text \<open>A call of one of the four state operations, with the result of \<^verbatim>\<open>Allow\<close>.\<close>

datatype cb_op = OpAllow | OpRecordError | OpReset | OpTrip

fun cb_do :: "cb_op \<Rightarrow> gotime \<Rightarrow> circuit_breaker \<Rightarrow> bool option \<times> circuit_breaker \<times> 'a effect list" where
  "cb_do OpAllow now cb = (let (r, cb', es) = cb_Allow now cb in (Some r, cb', es))"
| "cb_do OpRecordError now cb = (None, cb_RecordError now cb)"
| "cb_do OpReset now cb = (None, cb_Reset now cb)"
| "cb_do OpTrip now cb = (None, cb_Trip now cb)"

fun cb_exec ::
  "(cb_op \<times> gotime) list \<Rightarrow> circuit_breaker \<Rightarrow> bool option list \<times> circuit_breaker \<times> 'a effect list" where
  "cb_exec [] cb = ([], cb, [])"
| "cb_exec ((opn, now) # ops) cb =
     (let (r, cb1, e1) = cb_do opn now cb; (rs, cb2, e2) = cb_exec ops cb1
      in (r # rs, cb2, e1 @ e2))"

section \<open>Abstract breaker\<close>

text \<open>
  What the breaker promises: it is closed with a number of recorded errors, or open since
  an instant. Closed it trips at the threshold; open it closes again, with no errors, once
  the window has passed; errors closer together than the debounce period count once.
\<close>

datatype breaker_mode = Closed int | Open gotime

record abs_breaker =
  ab_mode :: breaker_mode
  ab_lastError :: gotime

definition abs_cb :: "circuit_breaker \<Rightarrow> abs_breaker" where
  "abs_cb cb = \<lparr>ab_mode = (if cb_allowed cb then Closed (errorCount cb) else Open (lastTripped cb)),
                ab_lastError = lastErrorTime cb\<rparr>"

fun ab_step :: "int \<Rightarrow> duration \<Rightarrow> duration \<Rightarrow> cb_op \<Rightarrow> gotime \<Rightarrow> abs_breaker \<Rightarrow> bool option \<times> abs_breaker" where
  "ab_step n win deb OpAllow now a =
     (case ab_mode a of
        Closed k \<Rightarrow> (Some True, a)
      | Open t \<Rightarrow> if win \<le> now - t then (Some True, a\<lparr>ab_mode := Closed 0\<rparr>) else (Some False, a))"
| "ab_step n win deb OpRecordError now a =
     (if 0 < deb \<and> ab_lastError a \<noteq> 0 \<and> now - ab_lastError a < deb then (None, a)
      else (None, \<lparr>ab_mode = (case ab_mode a of
                     Closed k \<Rightarrow> if n \<le> k + 1 then Open now else Closed (k + 1)
                   | Open t \<Rightarrow> Open t),
                   ab_lastError = now\<rparr>))"
| "ab_step n win deb OpReset now a =
     (None, case ab_mode a of Closed k \<Rightarrow> a | Open t \<Rightarrow> a\<lparr>ab_mode := Closed 0\<rparr>)"
| "ab_step n win deb OpTrip now a =
     (None, case ab_mode a of Closed k \<Rightarrow> a\<lparr>ab_mode := Open now\<rparr> | Open t \<Rightarrow> a)"

section \<open>Invariant\<close>

text \<open>
  With a positive threshold a closed breaker has fewer errors than the threshold, whatever
  happened before; at most one reset signal waits in its channel.
\<close>

definition cb_inv :: "circuit_breaker \<Rightarrow> bool" where
  "cb_inv cb \<longleftrightarrow>
     (cb_allowed cb \<longrightarrow> errorCount cb < errorThreshold cb) \<and>
     0 < errorThreshold cb \<and> is_i64 (errorThreshold cb) \<and> is_i64 (errorCount cb) \<and>
     0 \<le> timeWindow cb \<and> is_i64 (timeWindow cb) \<and> is_i64 (debounceNanos cb) \<and>
     resetNotifyChan cb \<le> 1"

lemmas cb_telemetry_defs =
  cb_NotifyLoggers_def notifyAllow_def notifyRecordError_def notifyTrip_def notifyReset_def
  notifyCircuitBreakerCreation_def

lemma signalReset_simps [simp]:
  "cb_allowed (signalReset cb) = cb_allowed cb"
  "errorCount (signalReset cb) = errorCount cb"
  "errorThreshold (signalReset cb) = errorThreshold cb"
  "timeWindow (signalReset cb) = timeWindow cb"
  "debounceNanos (signalReset cb) = debounceNanos cb"
  "lastErrorTime (signalReset cb) = lastErrorTime cb"
  "lastTripped (signalReset cb) = lastTripped cb"
  "neutralWires (signalReset cb) = neutralWires cb"
  "cb_sensors (signalReset cb) = cb_sensors cb"
  "cb_loggers (signalReset cb) = cb_loggers cb"
  "cb_metadata (signalReset cb) = cb_metadata cb"
  "resetNotifyChan (signalReset cb) = max 1 (resetNotifyChan cb)"
  by (auto simp: signalReset_def)

text \<open>What the operations never touch.\<close>

definition same_config :: "circuit_breaker \<Rightarrow> circuit_breaker \<Rightarrow> bool" where
  "same_config cb cb' \<longleftrightarrow>
     errorThreshold cb' = errorThreshold cb \<and> timeWindow cb' = timeWindow cb \<and>
     debounceNanos cb' = debounceNanos cb \<and> neutralWires cb' = neutralWires cb \<and>
     cb_sensors cb' = cb_sensors cb \<and> cb_loggers cb' = cb_loggers cb \<and>
     cb_metadata cb' = cb_metadata cb"

lemma same_config_refl [simp]: "same_config cb cb"
  by (simp add: same_config_def)

lemma same_config_trans [trans]: "same_config a b \<Longrightarrow> same_config b c \<Longrightarrow> same_config a c"
  by (simp add: same_config_def)

text \<open>The state each operation leaves, without its effects.\<close>

definition debounced :: "gotime \<Rightarrow> circuit_breaker \<Rightarrow> bool" where
  "debounced now cb \<longleftrightarrow> debounceNanos cb > 0 \<and> \<not> time_IsZero (lastErrorTime cb) \<and>
     time_Sub now (lastErrorTime cb) < debounceNanos cb"

definition window_over :: "gotime \<Rightarrow> circuit_breaker \<Rightarrow> bool" where
  "window_over now cb \<longleftrightarrow> timeWindow cb \<le> 0 \<or> time_Sub now (lastTripped cb) \<ge> timeWindow cb"

fun cb_next :: "cb_op \<Rightarrow> gotime \<Rightarrow> circuit_breaker \<Rightarrow> circuit_breaker" where
  "cb_next OpAllow now cb =
     (if \<not> cb_allowed cb \<and> window_over now cb
      then signalReset (cb\<lparr>cb_allowed := True, errorCount := 0\<rparr>) else cb)"
| "cb_next OpRecordError now cb =
     (if debounced now cb then cb
      else if cb_allowed cb \<and> errorThreshold cb \<le> wrap_i64 (errorCount cb + 1)
      then cb\<lparr>lastErrorTime := now, errorCount := wrap_i64 (errorCount cb + 1),
              cb_allowed := False, lastTripped := now\<rparr>
      else cb\<lparr>lastErrorTime := now, errorCount := wrap_i64 (errorCount cb + 1)\<rparr>)"
| "cb_next OpReset now cb =
     (if cb_allowed cb then cb else signalReset (cb\<lparr>cb_allowed := True, errorCount := 0\<rparr>))"
| "cb_next OpTrip now cb =
     (if cb_allowed cb then cb\<lparr>cb_allowed := False, lastTripped := now\<rparr> else cb)"

lemma cb_Allow_state [simp]:
  "fst (snd (cb_Allow now cb)) = cb_next OpAllow now cb"
  "fst (cb_Allow now cb) = (cb_allowed cb \<or> window_over now cb)"
  by (simp_all add: cb_Allow_def Let_def window_over_def)

lemma cb_RecordError_state [simp]: "fst (cb_RecordError now cb) = cb_next OpRecordError now cb"
  by (simp add: cb_RecordError_def Let_def debounced_def)

lemma cb_Reset_state [simp]: "fst (cb_Reset now cb) = cb_next OpReset now cb"
  by (simp add: cb_Reset_def Let_def)

lemma cb_Trip_state [simp]: "fst (cb_Trip now cb) = cb_next OpTrip now cb"
  by (simp add: cb_Trip_def Let_def)

lemma cb_do_state [simp]:
  "fst (snd (cb_do opn now cb)) = cb_next opn now cb"
  "fst (cb_do opn now cb) = (if opn = OpAllow then Some (cb_allowed cb \<or> window_over now cb) else None)"
  by (cases opn; simp add: case_prod_beta del: cb_next.simps)+

lemma cb_next_same_config [frame_simps]: "same_config cb (cb_next opn now cb)"
  by (cases opn) (simp_all add: same_config_def)

lemma cb_next_inv: "cb_inv cb \<Longrightarrow> cb_inv (cb_next opn now cb)"
  by (cases opn) (auto simp: cb_inv_def is_i64_def wrap_i64_def)

declare cb_next.simps [simp del]

fun cb_run :: "(cb_op \<times> gotime) list \<Rightarrow> circuit_breaker \<Rightarrow> circuit_breaker" where
  "cb_run [] cb = cb"
| "cb_run ((opn, now) # ops) cb = cb_run ops (cb_next opn now cb)"

fun cb_results :: "(cb_op \<times> gotime) list \<Rightarrow> circuit_breaker \<Rightarrow> bool option list" where
  "cb_results [] cb = []"
| "cb_results ((opn, now) # ops) cb =
     (if opn = OpAllow then Some (cb_allowed cb \<or> window_over now cb) else None) #
     cb_results ops (cb_next opn now cb)"

lemma cb_exec_state [simp]: "fst (snd (cb_exec ops cb)) = cb_run ops cb"
  by (induction ops cb rule: cb_run.induct) (simp_all add: case_prod_beta)

lemma cb_exec_results [simp]: "fst (cb_exec ops cb) = cb_results ops cb"
  by (induction ops cb rule: cb_run.induct) (simp_all add: case_prod_beta)

lemma cb_run_append [simp]: "cb_run (xs @ ys) cb = cb_run ys (cb_run xs cb)"
  by (induction xs cb rule: cb_run.induct) simp_all

lemma cb_run_inv: "cb_inv cb \<Longrightarrow> cb_inv (cb_run ops cb)"
  by (induction ops cb rule: cb_run.induct) (auto simp: cb_next_inv)

lemma cb_run_same_config [frame_simps]: "same_config cb (cb_run ops cb)"
  by (induction ops cb rule: cb_run.induct)
    (auto intro: same_config_trans [OF cb_next_same_config])

text \<open>The state the constructor leaves satisfies the invariant, with any options.\<close>

lemma apply_cb_option_frame:
  "errorThreshold (fst (apply_cb_option opt cb)) = errorThreshold cb"
  "timeWindow (fst (apply_cb_option opt cb)) = timeWindow cb"
  "debounceNanos (fst (apply_cb_option opt cb)) = debounceNanos cb"
  "cb_allowed (fst (apply_cb_option opt cb)) = cb_allowed cb"
  "errorCount (fst (apply_cb_option opt cb)) = errorCount cb"
  "lastErrorTime (fst (apply_cb_option opt cb)) = lastErrorTime cb"
  "resetNotifyChan (fst (apply_cb_option opt cb)) = resetNotifyChan cb"
  by (cases opt; simp add: ConnectNeutralWire_def cb_ConnectSensor_def cb_ConnectLogger_def
      cb_SetComponentMetadata_def Let_def split: option.split)+

lemma cb_inv_apply_option: "cb_inv (fst (apply_cb_option opt cb)) = cb_inv cb"
  by (simp add: cb_inv_def apply_cb_option_frame)

lemma cb_inv_apply_options: "cb_inv cb \<Longrightarrow> cb_inv (fst (apply_cb_options os cb))"
proof (induction os arbitrary: cb)
  case (Cons opt os)
  then show ?case by (cases opt) (simp_all add: case_prod_beta cb_inv_apply_option)
qed simp

lemma cb_inv_New:
  assumes "0 < threshold" "is_i64 threshold" "is_i64 window"
  shows "cb_inv (fst (NewCircuitBreaker hash threshold window os))"
proof -
  have "cb_inv (NewCircuitBreaker_base hash threshold window)"
    using assms by (simp add: cb_inv_def NewCircuitBreaker_base_def is_i64_def)
  then show ?thesis
    by (simp add: NewCircuitBreaker_def case_prod_beta cb_inv_apply_options)
qed

section \<open>Refinement of the abstract breaker\<close>

lemma debounced_iff:
  "is_i64 (debounceNanos cb) \<Longrightarrow>
   debounced now cb \<longleftrightarrow> 0 < debounceNanos cb \<and> lastErrorTime cb \<noteq> 0 \<and>
     now - lastErrorTime cb < debounceNanos cb"
  by (auto simp: debounced_def go_arith time_Sub_less_iff)

lemma window_over_iff:
  "0 \<le> timeWindow cb \<Longrightarrow> is_i64 (timeWindow cb) \<Longrightarrow> lastTripped cb \<le> now \<Longrightarrow>
   window_over now cb \<longleftrightarrow> timeWindow cb \<le> now - lastTripped cb"
  by (auto simp: window_over_def time_Sub_ge_iff)

lemma cb_next_refines:
  assumes "cb_inv cb" and "lastTripped cb \<le> now"
  shows "abs_cb (cb_next opn now cb) =
           snd (ab_step (errorThreshold cb) (timeWindow cb) (debounceNanos cb) opn now (abs_cb cb))"
    and "(if opn = OpAllow then Some (cb_allowed cb \<or> window_over now cb) else None) =
           fst (ab_step (errorThreshold cb) (timeWindow cb) (debounceNanos cb) opn now (abs_cb cb))"
proof -
  have win: "window_over now cb \<longleftrightarrow> timeWindow cb \<le> now - lastTripped cb"
    using assms by (simp add: cb_inv_def window_over_iff)
  have deb: "debounced now cb \<longleftrightarrow> 0 < debounceNanos cb \<and> lastErrorTime cb \<noteq> 0 \<and>
     now - lastErrorTime cb < debounceNanos cb"
    using assms by (simp add: cb_inv_def debounced_iff)
  have wrap: "cb_allowed cb \<Longrightarrow> wrap_i64 (errorCount cb + 1) = errorCount cb + 1"
    using assms by (auto simp: cb_inv_def is_i64_def intro!: wrap_i64_id)
  show "abs_cb (cb_next opn now cb) =
           snd (ab_step (errorThreshold cb) (timeWindow cb) (debounceNanos cb) opn now (abs_cb cb))"
    by (cases opn) (auto simp: cb_next.simps abs_cb_def win deb wrap)
  show "(if opn = OpAllow then Some (cb_allowed cb \<or> window_over now cb) else None) =
           fst (ab_step (errorThreshold cb) (timeWindow cb) (debounceNanos cb) opn now (abs_cb cb))"
    by (cases opn) (auto simp: abs_cb_def win)
qed

fun ab_run ::
  "int \<Rightarrow> duration \<Rightarrow> duration \<Rightarrow> (cb_op \<times> gotime) list \<Rightarrow> abs_breaker \<Rightarrow> bool option list \<times> abs_breaker" where
  "ab_run n win deb [] a = ([], a)"
| "ab_run n win deb ((opn, now) # ops) a =
     (let (r, a1) = ab_step n win deb opn now a; (rs, a2) = ab_run n win deb ops a1
      in (r # rs, a2))"

lemma lastTripped_cb_next: "lastTripped cb \<le> now \<Longrightarrow> lastTripped (cb_next opn now cb) \<le> now"
  by (cases opn) (simp_all add: cb_next.simps)

lemma cb_run_refines:
  assumes "cb_inv cb" and "sorted (lastTripped cb # map snd ops)"
  shows "cb_results ops cb =
      fst (ab_run (errorThreshold cb) (timeWindow cb) (debounceNanos cb) ops (abs_cb cb)) \<and>
    abs_cb (cb_run ops cb) =
      snd (ab_run (errorThreshold cb) (timeWindow cb) (debounceNanos cb) ops (abs_cb cb))"
  using assms
proof (induction ops cb rule: cb_run.induct)
  case (2 opn now ops cb)
  have le: "lastTripped cb \<le> now" using "2.prems" by simp
  have cfg: "errorThreshold (cb_next opn now cb) = errorThreshold cb"
    "timeWindow (cb_next opn now cb) = timeWindow cb"
    "debounceNanos (cb_next opn now cb) = debounceNanos cb"
    using cb_next_same_config [of cb opn now] by (simp_all add: same_config_def)
  have inv: "cb_inv (cb_next opn now cb)" using "2.prems" by (simp add: cb_next_inv)
  have "sorted (lastTripped (cb_next opn now cb) # map snd ops)"
    using "2.prems" lastTripped_cb_next [OF le, of opn] by auto
  from "2.IH" [OF inv this] cfg cb_next_refines [OF "2.prems"(1) le, of opn]
  show ?case by (simp add: case_prod_beta)
qed simp

section \<open>Runs that stay open, runs that trip\<close>

lemma cb_next_stays_open:
  assumes "\<not> cb_allowed cb" and "opn \<noteq> OpReset" and "\<not> window_over now cb"
  shows "\<not> cb_allowed (cb_next opn now cb)" and "lastTripped (cb_next opn now cb) = lastTripped cb"
  using assms by (cases opn; simp add: cb_next.simps)+

lemma cb_run_stays_open:
  assumes "\<not> cb_allowed cb"
    and "\<forall>(opn, now) \<in> set ops. opn \<noteq> OpReset \<and> \<not> window_over now cb"
  shows "\<not> cb_allowed (cb_run ops cb) \<and> lastTripped (cb_run ops cb) = lastTripped cb \<and>
    Some True \<notin> set (cb_results ops cb)"
  using assms
proof (induction ops cb rule: cb_run.induct)
  case (2 opn now ops cb)
  have open1: "\<not> cb_allowed (cb_next opn now cb)" "lastTripped (cb_next opn now cb) = lastTripped cb"
    using "2.prems" cb_next_stays_open [of cb opn now] by simp_all
  have win: "window_over t (cb_next opn now cb) = window_over t cb" for t
    using cb_next_same_config [of cb opn now] open1 by (simp add: window_over_def same_config_def)
  show ?case using "2.IH" "2.prems" open1 win by auto
qed simp

lemma cb_run_counts_errors:
  assumes "cb_inv cb" and "cb_allowed cb"
    and "\<forall>(opn, now) \<in> set ops. opn = OpRecordError"
    and "debounceNanos cb = 0" and "errorCount cb + int (length ops) < errorThreshold cb"
  shows "cb_allowed (cb_run ops cb) \<and> errorCount (cb_run ops cb) = errorCount cb + int (length ops)"
  using assms
proof (induction ops cb rule: cb_run.induct)
  case (2 opn now ops cb)
  have opn: "opn = OpRecordError" using "2.prems" by auto
  have wr: "wrap_i64 (errorCount cb + 1) = errorCount cb + 1"
    using "2.prems" by (auto simp: cb_inv_def is_i64_def intro!: wrap_i64_id)
  have nx: "cb_next opn now cb = cb\<lparr>lastErrorTime := now, errorCount := errorCount cb + 1\<rparr>"
    using "2.prems" by (simp add: opn cb_next.simps debounced_def wr)
  have "cb_inv (cb_next opn now cb)" using "2.prems" by (simp add: cb_next_inv)
  with "2.IH" "2.prems" show ?case by (auto simp: nx [unfolded opn])
qed simp

section \<open>The breaker as its clients see it\<close>

text \<open>
  Wires, conduits and generators use a breaker through \<^verbatim>\<open>Allow\<close> and \<^verbatim>\<open>RecordError\<close> only. The
  laws they rely on, and their consequences, are stated once for any breaker.
\<close>

locale breaker_interface =
  fixes allow :: "gotime \<Rightarrow> 'b \<Rightarrow> bool \<times> 'b \<times> 'e list"
    and record_error :: "gotime \<Rightarrow> 'b \<Rightarrow> 'b \<times> 'e list"
    and closed :: "'b \<Rightarrow> bool"
  assumes allow_result: "fst (allow now b) = closed (fst (snd (allow now b)))"
    and allow_when_closed: "closed b \<Longrightarrow> fst (snd (allow now b)) = b"
    and allow_denied: "\<not> fst (allow now b) \<Longrightarrow> fst (snd (allow now b)) = b"
    and record_when_open: "\<not> closed b \<Longrightarrow> \<not> closed (fst (record_error now b))"
begin

lemma closed_allows: "closed b \<Longrightarrow> fst (allow now b)"
  by (simp add: allow_result allow_when_closed)

lemma denied_is_open: "\<not> fst (allow now b) \<Longrightarrow> \<not> closed b"
  using closed_allows by blast

lemma granted_stays_granted:
  "fst (allow now b) \<Longrightarrow> fst (allow later (fst (snd (allow now b))))"
  by (simp add: allow_result allow_when_closed)

lemma denied_after_errors:
  "\<not> fst (allow now b) \<Longrightarrow> \<not> closed (fst (record_error later (fst (snd (allow now b)))))"
  by (simp add: allow_denied record_when_open denied_is_open)

end

interpretation cbi: breaker_interface cb_Allow cb_RecordError cb_allowed
  by unfold_locales (auto simp: cb_next.simps)

section \<open>Properties\<close>

text \<open>
  a breaker built by \<^verbatim>\<open>NewCircuitBreaker\<close> with a positive threshold, any window and any
  options, then driven by any sequence of \<^verbatim>\<open>Allow\<close>, \<^verbatim>\<open>RecordError\<close>, \<^verbatim>\<open>Reset\<close> and \<^verbatim>\<open>Trip\<close>
  calls at any clock readings, is never closed with the threshold reached, and never holds
  more than one reset signal.
\<close>

theorem cb_closed_below_threshold:
  assumes "0 < threshold" and "is_i64 threshold" and "is_i64 window"
    and "cb = fst (snd (cb_exec ops (fst (NewCircuitBreaker hash threshold window options))))"
  shows "(cb_allowed cb \<longrightarrow> errorCount cb < errorThreshold cb) \<and> resetNotifyChan cb \<le> 1"
proof -
  have "cb_inv cb"
    unfolding assms(4) cb_exec_state by (intro cb_run_inv cb_inv_New assms)
  then show ?thesis by (simp add: cb_inv_def)
qed

theorem cb_closed_below_threshold_witness:
  "let cb = fst (snd (cb_exec [(OpRecordError, 5), (OpTrip, 6), (OpRecordError, 7), (OpAllow, 100)]
               (fst (NewCircuitBreaker ''h'' 2 10 [None]))))
   in (cb_allowed cb \<longrightarrow> errorCount cb < errorThreshold cb) \<and> resetNotifyChan cb \<le> 1"
  unfolding Let_def
  by (rule cb_closed_below_threshold [OF _ _ _ refl]) (simp_all add: is_i64_def)

text \<open>
  a tripped breaker stays tripped for its whole window: from an open state, whatever
  calls other than \<^verbatim>\<open>Reset\<close> are made at instants less than the window after the trip, no
  \<^verbatim>\<open>Allow\<close> among them returns true and the trip time does not move.
\<close>

theorem cb_open_for_window:
  assumes "\<not> cb_allowed cb" and "0 < timeWindow cb" and "is_i64 (timeWindow cb)"
    and "\<forall>(opn, now) \<in> set ops. opn \<noteq> OpReset \<and> now - lastTripped cb < timeWindow cb"
  shows "Some True \<notin> set (fst (cb_exec ops cb)) \<and>
    \<not> cb_allowed (fst (snd (cb_exec ops cb))) \<and>
    lastTripped (fst (snd (cb_exec ops cb))) = lastTripped cb"
proof -
  have "\<forall>(opn, now) \<in> set ops. opn \<noteq> OpReset \<and> \<not> window_over now cb"
    using assms by (auto simp: window_over_def not_le time_Sub_less_iff)
  from cb_run_stays_open [OF assms(1) this] show ?thesis by simp
qed

theorem cb_open_for_window_witness:
  "let cb = fst (cb_Trip 1000 (fst (NewCircuitBreaker ''h'' 2 50 [])));
       ops = [(OpAllow, 1001), (OpRecordError, 1010), (OpAllow, 1049)]
   in Some True \<notin> set (fst (cb_exec ops cb)) \<and> \<not> cb_allowed (fst (snd (cb_exec ops cb))) \<and>
      lastTripped (fst (snd (cb_exec ops cb))) = lastTripped cb"
  unfolding Let_def
  by (rule cb_open_for_window)
    (simp_all add: NewCircuitBreaker_def NewCircuitBreaker_base_def cb_next.simps is_i64_def)

text \<open>
  without a debounce period the breaker trips exactly at the threshold: from a closed
  breaker with no errors, fewer recorded errors than the threshold leave it closed with that
  count, and the error that reaches the threshold opens it at its own instant.
\<close>

theorem cb_trips_exactly_at_threshold:
  assumes "cb_inv cb" and "cb_allowed cb" and "errorCount cb = 0" and "debounceNanos cb = 0"
    and "int (length ts) + 1 = errorThreshold cb"
  shows "(\<forall>k \<le> length ts.
            cb_allowed (cb_run (map (Pair OpRecordError) (take k ts)) cb) \<and>
            errorCount (cb_run (map (Pair OpRecordError) (take k ts)) cb) = int k) \<and>
         \<not> cb_allowed (cb_run (map (Pair OpRecordError) (ts @ [last_time])) cb) \<and>
         lastTripped (cb_run (map (Pair OpRecordError) (ts @ [last_time])) cb) = last_time"
proof -
  have count: "cb_allowed (cb_run (map (Pair OpRecordError) (take k ts)) cb) \<and>
      errorCount (cb_run (map (Pair OpRecordError) (take k ts)) cb) = int k"
    if "k \<le> length ts" for k
    using cb_run_counts_errors [of cb "map (Pair OpRecordError) (take k ts)"] assms that
    by (auto simp: min_def)
  define cb1 where "cb1 = cb_run (map (Pair OpRecordError) ts) cb"
  have c1: "cb_allowed cb1" "errorCount cb1 = int (length ts)"
    using count [of "length ts"] by (simp_all add: cb1_def)
  have cfg: "errorThreshold cb1 = errorThreshold cb" "debounceNanos cb1 = 0"
    using cb_run_same_config [of cb "map (Pair OpRecordError) ts"] assms
    by (simp_all add: cb1_def same_config_def)
  have "wrap_i64 (errorCount cb1 + 1) = errorThreshold cb"
    using assms c1 by (simp add: cb_inv_def)
  then show ?thesis
    using count c1 cfg by (simp add: cb1_def cb_next.simps debounced_def)
qed

theorem cb_trips_exactly_at_threshold_witness:
  "let cb = fst (NewCircuitBreaker ''h'' 3 50 []) in
   (\<forall>k \<le> length [10 :: int, 20]. cb_allowed (cb_run (map (Pair OpRecordError) (take k [10, 20])) cb) \<and>
      errorCount (cb_run (map (Pair OpRecordError) (take k [10, 20])) cb) = int k) \<and>
   \<not> cb_allowed (cb_run (map (Pair OpRecordError) ([10, 20] @ [30])) cb) \<and>
   lastTripped (cb_run (map (Pair OpRecordError) ([10, 20] @ [30])) cb) = 30"
  unfolding Let_def
  by (rule cb_trips_exactly_at_threshold)
    (simp_all add: NewCircuitBreaker_def NewCircuitBreaker_base_def cb_inv_def is_i64_def)

text \<open>
  C6: the breaker refines the abstract two-state breaker: for any calls at non-decreasing
  clock readings, the results of \<^verbatim>\<open>Allow\<close> and the abstraction of the final state are those of
  the abstract machine, wrap-around of the counter and saturation of \<^verbatim>\<open>Sub\<close> included.
\<close>

theorem cb_refines_abstract_breaker:
  assumes "cb_inv cb" and "sorted (lastTripped cb # map snd ops)"
  shows "(fst (cb_exec ops cb), abs_cb (fst (snd (cb_exec ops cb)))) =
    ab_run (errorThreshold cb) (timeWindow cb) (debounceNanos cb) ops (abs_cb cb)"
  using cb_run_refines [OF assms] by simp

theorem cb_refines_abstract_breaker_witness:
  "let cb = fst (NewCircuitBreaker ''h'' 1 50 []); ops = [(OpRecordError, 10), (OpAllow, 20), (OpAllow, 60)] in
   (fst (cb_exec ops cb), abs_cb (fst (snd (cb_exec ops cb)))) =
   ab_run (errorThreshold cb) (timeWindow cb) (debounceNanos cb) ops (abs_cb cb)"
  unfolding Let_def
  by (rule cb_refines_abstract_breaker)
    (simp_all add: NewCircuitBreaker_def NewCircuitBreaker_base_def cb_inv_def is_i64_def)

text \<open>
  A sensor given to the constructor is counted twice: \<^verbatim>\<open>ConnectSensor\<close> increments the
  breaker count on each of its meters, and the constructor increments it again for every
  connected sensor.
\<close>

theorem cb_creation_counted_twice:
  "snd (NewCircuitBreaker hash threshold window [Some (CB_WithSensor [Some s])]) =
   (map (\<lambda>m. MeterIncrement m ''circuit_breaker_count'') (GetMeters s @ GetMeters s) :: 'a effect list)"
  by (simp add: NewCircuitBreaker_def NewCircuitBreaker_base_def cb_ConnectSensor_def Let_def
      cb_telemetry_defs count_on_meters_def)

end
