(* ===== verification/Go_Chan.thy ===== *)
theory Go_Chan
  imports Prelude
begin

text \<open>
  Channels, contexts and \<^verbatim>\<open>select\<close> as Go defines them. A buffered channel is its buffer, its
  capacity and whether it is closed. A send on a closed channel panics, a receive from one
  yields the rest of the buffer first and then reports that it is closed; a nil channel is
  never ready. A context is the list of the cancellation scopes it was derived through, so it
  is done as soon as one of them is cancelled, and \<^verbatim>\<open>context.Background()\<close> is the empty list.
  \<^verbatim>\<open>select\<close> runs any one of the cases that are ready; which one is left to an oracle, over
  which the theorems quantify.
\<close>

section \<open>Channels\<close>

record 'b gochan =
  ch_buf :: "'b list"
  ch_cap :: nat
  ch_closed :: bool

definition make_chan :: "nat \<Rightarrow> 'b gochan" where
  "make_chan n = \<lparr>ch_buf = [], ch_cap = n, ch_closed = False\<rparr>"

datatype 'b send_result = SendBlocks | SendPanics | Sent "'b gochan"

definition chan_send :: "'b \<Rightarrow> 'b gochan \<Rightarrow> 'b send_result" where
  "chan_send v ch =
     (if ch_closed ch then SendPanics
      else if length (ch_buf ch) < ch_cap ch then Sent (ch\<lparr>ch_buf := ch_buf ch @ [v]\<rparr>)
      else SendBlocks)"

datatype 'b recv_result = RecvBlocks | RecvClosed | Received 'b "'b gochan"

definition chan_recv :: "'b gochan \<Rightarrow> 'b recv_result" where
  "chan_recv ch =
     (case ch_buf ch of
        v # vs \<Rightarrow> Received v (ch\<lparr>ch_buf := vs\<rparr>)
      | [] \<Rightarrow> if ch_closed ch then RecvClosed else RecvBlocks)"

definition chan_close :: "'b gochan \<Rightarrow> panic + 'b gochan" where
  "chan_close ch =
     (if ch_closed ch then Inl (Panic ''close of closed channel'') else Inr (ch\<lparr>ch_closed := True\<rparr>))"

text \<open>A send in a \<^verbatim>\<open>select\<close> with a \<^verbatim>\<open>default\<close> case: the value is dropped when there is no room.\<close>

definition chan_try_send :: "'b \<Rightarrow> 'b gochan \<Rightarrow> panic + 'b gochan" where
  "chan_try_send v ch =
     (case chan_send v ch of
        SendBlocks \<Rightarrow> Inr ch
      | SendPanics \<Rightarrow> Inl (Panic ''send on closed channel'')
      | Sent ch' \<Rightarrow> Inr ch')"

definition chan_ok :: "'b gochan \<Rightarrow> bool" where
  "chan_ok ch \<longleftrightarrow> length (ch_buf ch) \<le> ch_cap ch"

section \<open>Contexts\<close>

type_synonym ctx = "nat list"

definition Background :: ctx where
  "Background = []"

definition WithCancel :: "nat \<Rightarrow> ctx \<Rightarrow> ctx" where
  "WithCancel fresh c = fresh # c"

definition ctx_Done :: "(nat \<Rightarrow> bool) \<Rightarrow> ctx \<Rightarrow> bool" where
  "ctx_Done cancelled c = list_ex cancelled c"

definition ctx_Err :: "(nat \<Rightarrow> bool) \<Rightarrow> ctx \<Rightarrow> gerr option" where
  "ctx_Err cancelled c = (if ctx_Done cancelled c then Some CtxErr else None)"

section \<open>Select\<close>

definition select_pick :: "nat \<Rightarrow> 'c list \<Rightarrow> 'c option" where
  "select_pick n ready = (if ready = [] then None else Some (ready ! (n mod length ready)))"

section \<open>Lemmas\<close>

lemma make_chan_ok [simp]: "chan_ok (make_chan n)"
  by (simp add: chan_ok_def make_chan_def)

lemma chan_send_ok: "chan_ok ch \<Longrightarrow> chan_send v ch = Sent ch' \<Longrightarrow>
  chan_ok ch' \<and> ch_buf ch' = ch_buf ch @ [v] \<and> ch_cap ch' = ch_cap ch \<and> \<not> ch_closed ch'"
  by (auto simp: chan_send_def chan_ok_def split: if_splits)

lemma chan_recv_ok: "chan_ok ch \<Longrightarrow> chan_recv ch = Received v ch' \<Longrightarrow>
  chan_ok ch' \<and> ch_buf ch = v # ch_buf ch' \<and> ch_cap ch' = ch_cap ch \<and> ch_closed ch' = ch_closed ch"
  by (auto simp: chan_recv_def chan_ok_def split: list.splits if_splits)

lemma select_pick_mem: "select_pick n ready = Some c \<Longrightarrow> c \<in> set ready"
  by (auto simp: select_pick_def split: if_splits intro: nth_mem)

lemma select_pick_None [simp]: "select_pick n ready = None \<longleftrightarrow> ready = []"
  by (simp add: select_pick_def)

lemma select_pick_single [simp]: "select_pick n [c] = Some c"
  by (simp add: select_pick_def)

lemma select_pick_any:
  assumes "c \<in> set ready"
  shows "\<exists>n. select_pick n ready = Some c"
proof -
  obtain i where "i < length ready" "ready ! i = c" using assms by (auto simp: in_set_conv_nth)
  then show ?thesis by (intro exI [of _ i]) (auto simp: select_pick_def)
qed

lemma ctx_Done_simps [simp]:
  "\<not> ctx_Done cancelled Background" "\<not> ctx_Done cancelled []"
  "ctx_Done cancelled (t # c) \<longleftrightarrow> cancelled t \<or> ctx_Done cancelled c"
  by (simp_all add: ctx_Done_def Background_def)

text \<open>Cancelling a scope makes every context derived through it done, for good.\<close>

lemma ctx_Done_mono: "ctx_Done cancelled c \<Longrightarrow> ctx_Done (cancelled(t := True)) c"
  by (induction c) (auto simp: ctx_Done_def)

end
