(* ===== verification/Wire.thy ===== *)
theory Wire
  imports Surge_Protector Circuit_Breaker Go_Chan
begin

text \<open>
  The wire (\<^verbatim>\<open>src/pkg/internal/wire\<close>): its state, the world it lives in, telemetry,
  configuration, connections, accessors, options and the constructor. Transformation and
  routing of elements are in \<open>Wire_Process\<close>, submission and lifecycle in \<open>Wire_Lifecycle\<close>.

  Wires reach each other, the circuit breakers and the surge protector through pointers, so
  all of them live in one world: an \<open>sp_world\<close> (which holds the surge protector, its resister
  and the clock) whose extension \<open>wsys\<close> holds the wires, the channels, the contexts and the
  breakers by address. Transformers, encoders, insulators and generators are given by the
  user of the library: the first three are functions of the model (an insulator may answer
  differently on each attempt, so it takes the attempt's number), and generators are reached
  through the interface \<open>gen_env\<close>.
\<close>

section \<open>State\<close>

type_synonym 'a transformer = "'a \<Rightarrow> 'a \<times> gerr option"
type_synonym 'a insulator = "nat \<Rightarrow> 'a \<Rightarrow> gerr \<Rightarrow> 'a \<times> gerr option"
type_synonym bytes = "8 word list"

text \<open>\<^verbatim>\<open>Encode(w, elem)\<close>: the bytes written to the buffer and the error.\<close>

type_synonym 'a encoder = "'a \<Rightarrow> bytes \<times> gerr option"

text \<open>The goroutines a wire runs, each counted in its \<^verbatim>\<open>WaitGroup\<close>.\<close>

datatype 'a goroutine =
    ErrorHandler
  | ResisterLoop
  | StandardWorker
  | FastWorker "'a transformer option" \<comment> \<open>the transformer, nil or not\<close>

record 'a wire =
  wire_metadata :: metadata
  inChan :: "nat option"
  OutputChan :: "nat option"
  OutputBuffer :: "bytes option"
  wire_encoder :: "'a encoder option"
  wire_loggers :: "logger list"
  wire_sensors :: "sensor list"
  wire_generators :: "component_ref list"
  transformations :: "'a transformer list"
  wire_ctx :: ctx
  wire_wg :: "'a goroutine list"
  completeSignal_closed :: bool
  errorChan :: "nat option"
  closeErrorChanOnce :: bool
  closeOutputChanOnce :: bool
  closeInputChanOnce :: bool
  terminateOnce :: bool
  CircuitBreaker :: "nat option"
  wire_controlChan :: "bool gochan"
  breaker_tickers :: nat \<comment> \<open>running \<open>startCircuitBreakerTicker\<close> goroutines\<close>
  maxBufferSize :: int
  maxConcurrency :: int
  wire_started :: int
  loggerCount :: int
  sensorCount :: int
  fastPathEnabled :: bool
  fastTransform :: "'a transformer option"
  insulatorFunc :: "'a insulator option"
  retryThreshold :: int
  retryInterval :: duration
  wire_surgeProtector :: bool \<comment> \<open>the \<open>surgeProtector\<close> field is not nil\<close>
  queueRetryMaxAttempt :: int
  wire_isClosed :: bool
  transformerFactory :: "(nat \<Rightarrow> 'a transformer option) option"

record 'a wsys =
  ws_wires :: "nat \<Rightarrow> 'a wire"
  ws_chans :: "nat \<Rightarrow> 'a gochan"
  ws_echans :: "nat \<Rightarrow> 'a element_error gochan"
  ws_fresh :: nat \<comment> \<open>the next free address of a channel or cancellation scope\<close>
  ws_cancelled :: "nat \<Rightarrow> bool"
  ws_breakers :: "nat \<Rightarrow> circuit_breaker"
  ws_select :: "nat \<Rightarrow> nat" \<comment> \<open>the choices of \<open>select\<close>\<close>
  ws_select_tick :: nat
  ws_panic :: "panic option" \<comment> \<open>a panic in a call whose result the caller ignores\<close>

type_synonym 'a world = "('a, 'a wsys) sp_world"

record 'a gen_env =
  sp_ctx :: ctx \<comment> \<open>the context the surge protector was made with\<close>
  gen_IsStarted :: "nat \<Rightarrow> 'a world \<Rightarrow> bool"
  gen_StartWith :: "nat \<Rightarrow> ctx \<Rightarrow> 'a world \<Rightarrow> 'a world"
  gen_ConnectToComponent :: "nat \<Rightarrow> component_ref \<Rightarrow> 'a world \<Rightarrow> 'a world"

section \<open>Access to the world\<close>

definition the_wire :: "nat \<Rightarrow> 'a world \<Rightarrow> 'a wire" where
  "the_wire i s = ws_wires (w_ext s) i"

definition upd_ext :: "('a wsys \<Rightarrow> 'a wsys) \<Rightarrow> 'a world \<Rightarrow> 'a world" where
  "upd_ext f s = s\<lparr>w_ext := f (w_ext s)\<rparr>"

definition put_wire :: "nat \<Rightarrow> 'a wire \<Rightarrow> 'a world \<Rightarrow> 'a world" where
  "put_wire i w = upd_ext (\<lambda>e. e\<lparr>ws_wires := (ws_wires e)(i := w)\<rparr>)"

definition put_chan :: "nat \<Rightarrow> 'a gochan \<Rightarrow> 'a world \<Rightarrow> 'a world" where
  "put_chan c ch = upd_ext (\<lambda>e. e\<lparr>ws_chans := (ws_chans e)(c := ch)\<rparr>)"

definition put_echan :: "nat \<Rightarrow> 'a element_error gochan \<Rightarrow> 'a world \<Rightarrow> 'a world" where
  "put_echan c ch = upd_ext (\<lambda>e. e\<lparr>ws_echans := (ws_echans e)(c := ch)\<rparr>)"

definition put_breaker :: "nat \<Rightarrow> circuit_breaker \<Rightarrow> 'a world \<Rightarrow> 'a world" where
  "put_breaker b cb = upd_ext (\<lambda>e. e\<lparr>ws_breakers := (ws_breakers e)(b := cb)\<rparr>)"

definition new_chan :: "nat \<Rightarrow> 'a world \<Rightarrow> nat \<times> 'a world" where
  "new_chan n s =
     (ws_fresh (w_ext s),
      upd_ext (\<lambda>e. e\<lparr>ws_chans := (ws_chans e)(ws_fresh e := make_chan n), ws_fresh := Suc (ws_fresh e)\<rparr>) s)"

definition new_echan :: "nat \<Rightarrow> 'a world \<Rightarrow> nat \<times> 'a world" where
  "new_echan n s =
     (ws_fresh (w_ext s),
      upd_ext (\<lambda>e. e\<lparr>ws_echans := (ws_echans e)(ws_fresh e := make_chan n), ws_fresh := Suc (ws_fresh e)\<rparr>) s)"

definition new_ctx :: "ctx \<Rightarrow> 'a world \<Rightarrow> ctx \<times> 'a world" where
  "new_ctx base s =
     (WithCancel (ws_fresh (w_ext s)) base, upd_ext (\<lambda>e. e\<lparr>ws_fresh := Suc (ws_fresh e)\<rparr>) s)"

definition is_done :: "ctx \<Rightarrow> 'a world \<Rightarrow> bool" where
  "is_done c s = ctx_Done (ws_cancelled (w_ext s)) c"

text \<open>\<^verbatim>\<open>cancel()\<close> of a context made by \<^verbatim>\<open>WithCancel\<close> cancels its own scope.\<close>

definition cancel_ctx :: "ctx \<Rightarrow> 'a world \<Rightarrow> 'a world" where
  "cancel_ctx c s =
     (case c of
        [] \<Rightarrow> s
      | t # _ \<Rightarrow> upd_ext (\<lambda>e. e\<lparr>ws_cancelled := (ws_cancelled e)(t := True)\<rparr>) s)"

definition select_case :: "'c list \<Rightarrow> 'a world \<Rightarrow> ('c \<times> 'a world) option" where
  "select_case ready s =
     map_option (\<lambda>c. (c, upd_ext (\<lambda>e. e\<lparr>ws_select_tick := Suc (ws_select_tick e)\<rparr>) s))
       (select_pick (ws_select (w_ext s) (ws_select_tick (w_ext s))) ready)"

definition Allow_of :: "nat \<Rightarrow> 'a world \<Rightarrow> bool \<times> 'a world" where
  "Allow_of b s =
     (let (now, s1) = read_clock s; (ok, cb', es) = cb_Allow now (ws_breakers (w_ext s1) b)
      in (ok, emit es (put_breaker b cb' s1)))"

definition RecordError_of :: "nat \<Rightarrow> 'a world \<Rightarrow> 'a world" where
  "RecordError_of b s =
     (let (now, s1) = read_clock s; (cb', es) = cb_RecordError now (ws_breakers (w_ext s1) b)
      in emit es (put_breaker b cb' s1))"

section \<open>Telemetry\<close>

definition hasLoggers :: "'a wire \<Rightarrow> bool" where
  "hasLoggers w \<longleftrightarrow> loggerCount w \<noteq> 0"

definition hasSensors :: "'a wire \<Rightarrow> bool" where
  "hasSensors w \<longleftrightarrow> sensorCount w \<noteq> 0"

definition wire_NotifyLoggers ::
  "'a wire \<Rightarrow> loglevel \<Rightarrow> string \<Rightarrow> (string \<times> 'a logval) list \<Rightarrow> 'a effect list" where
  "wire_NotifyLoggers w level msg kvs =
     (if loggerCount w = 0 then []
      else log_calls logger_wants_unless_disabled (wire_loggers w) level msg kvs)"

definition wire_sensor_calls :: "'a wire \<Rightarrow> 'a sensor_call \<Rightarrow> 'a effect list" where
  "wire_sensor_calls w c = (if sensorCount w = 0 then [] else sensor_calls (wire_sensors w) c)"

definition event_kvs :: "'a wire \<Rightarrow> string \<Rightarrow> string \<Rightarrow> (string \<times> 'a logval) list" where
  "event_kvs w event result =
     [(''component'', LMeta (wire_metadata w)), (''event'', LStr event), (''result'', LStr result)]"

definition notifyComplete :: "'a wire \<Rightarrow> 'a effect list" where
  "notifyComplete w =
     wire_NotifyLoggers w InfoLevel ''Wire completed a cycle'' (event_kvs w ''Complete'' ''SUCCESS'') @
     wire_sensor_calls w (InvokeOnComplete (wire_metadata w))"

definition notifyElementProcessed :: "'a wire \<Rightarrow> 'a \<Rightarrow> 'a effect list" where
  "notifyElementProcessed w d =
     wire_NotifyLoggers w InfoLevel ''Successfully processed element''
       (event_kvs w ''ElementProcessed'' ''SUCCESS'' @ [(''element'', LElem d)]) @
     wire_sensor_calls w (InvokeOnElementProcessed (wire_metadata w) d)"

definition notifyElementTransformError :: "'a wire \<Rightarrow> 'a \<Rightarrow> gerr \<Rightarrow> 'a effect list" where
  "notifyElementTransformError w d err =
     wire_NotifyLoggers w ErrorLevel ''Error occurred during element transformation''
       (event_kvs w ''ElementProcessError'' ''FAILURE'' @ [(''element'', LElem d), (''error'', LErr (Some err))]) @
     wire_sensor_calls w (InvokeOnError (wire_metadata w) err d)"

definition notifyCancel :: "'a wire \<Rightarrow> 'a \<Rightarrow> 'a effect list" where
  "notifyCancel w d =
     wire_NotifyLoggers w WarnLevel ''Element processing cancelled due to context cancellation''
       (event_kvs w ''Submit'' ''CANCELLED'' @ [(''element'', LElem d)]) @
     wire_sensor_calls w (InvokeOnCancel (wire_metadata w) d)"

definition notifyNeutralWireSubmission :: "'a wire \<Rightarrow> 'a \<Rightarrow> 'a effect list" where
  "notifyNeutralWireSubmission w d =
     wire_NotifyLoggers w WarnLevel ''Submitting element to neutral wire due to circuit breaker trip''
       (event_kvs w ''NeutralWireSubmit'' ''PENDING'' @ [(''element'', LElem d)]) @
     wire_sensor_calls w (InvokeOnCircuitBreakerNeutralWireSubmission (wire_metadata w) d)"

definition notifyCircuitBreakerDropElement :: "'a wire \<Rightarrow> 'a \<Rightarrow> 'a effect list" where
  "notifyCircuitBreakerDropElement w d =
     wire_NotifyLoggers w WarnLevel ''No neutral wires available and circuit breaker tripped; dropping element''
       (event_kvs w ''CircuitBreakerDropElement'' ''DROPPED'' @ [(''element'', LElem d)]) @
     wire_sensor_calls w (InvokeOnCircuitBreakerDrop (wire_metadata w) d)"

definition wire_notifyStart :: "'a wire \<Rightarrow> 'a effect list" where
  "wire_notifyStart w =
     wire_NotifyLoggers w InfoLevel ''Wire started'' (event_kvs w ''Start'' ''SUCCESS'') @
     wire_sensor_calls w (InvokeOnStart (wire_metadata w))"

definition wire_notifyStop :: "'a wire \<Rightarrow> 'a effect list" where
  "wire_notifyStop w =
     wire_NotifyLoggers w InfoLevel ''Wire stopped'' (event_kvs w ''Stop'' ''SUCCESS'') @
     wire_sensor_calls w (InvokeOnStop (wire_metadata w))"

definition notifySubmit :: "'a wire \<Rightarrow> 'a \<Rightarrow> 'a effect list" where
  "notifySubmit w d =
     wire_NotifyLoggers w InfoLevel ''Element submitted''
       (event_kvs w ''Submit'' ''SUCCESS'' @ [(''element'', LElem d)]) @
     wire_sensor_calls w (InvokeOnSubmit (wire_metadata w) d)"

definition wire_notifySurgeProtectorSubmit :: "'a wire \<Rightarrow> surge_protector \<Rightarrow> 'a \<Rightarrow> 'a effect list" where
  "wire_notifySurgeProtectorSubmit w sp d =
     (let meta = (if wire_surgeProtector w then sp_metadata sp else empty_metadata) in
      wire_NotifyLoggers w WarnLevel ''Surge protector tripped; submitting element for handling''
        (event_kvs w ''SurgeProtectorSubmit'' ''PENDING'' @ [(''surge_protector'', LMeta meta), (''element'', LElem d)]) @
      wire_sensor_calls w (InvokeOnSurgeProtectorSubmit (wire_metadata w) d))"

text \<open>The next attempt is shown as an instant, before \<^verbatim>\<open>Format\<close> renders it.\<close>

definition notifyRateLimit :: "'a wire \<Rightarrow> 'a \<Rightarrow> gotime \<Rightarrow> 'a effect list" where
  "notifyRateLimit w d nextAttempt =
     wire_NotifyLoggers w WarnLevel ''Hitting rate limit; submission deferred''
       (event_kvs w ''Submit'' ''PENDING'' @ [(''nextAttempt'', LTime nextAttempt), (''element'', LElem d)]) @
     wire_sensor_calls w (InvokeOnSurgeProtectorRateLimitExceeded (wire_metadata w) d)"

definition dur_milliseconds :: "duration \<Rightarrow> int" where
  "dur_milliseconds d = go_quot d 1000000"

definition notifyInsulatorFinalRetryFailure ::
  "'a wire \<Rightarrow> 'a \<Rightarrow> 'a \<Rightarrow> gerr option \<Rightarrow> gerr \<Rightarrow> int \<Rightarrow> int \<Rightarrow> duration \<Rightarrow> 'a effect list" where
  "notifyInsulatorFinalRetryFailure w cur orig curErr origErr attempt threshold interval =
     wire_NotifyLoggers w InfoLevel ''All insulator retries exhausted''
       (event_kvs w ''InsulatorAttempt'' ''FAILURE'' @
        [(''totalAttempts'', LInt attempt), (''threshold'', LInt threshold),
         (''interval_ms'', LInt (dur_milliseconds interval)), (''originalElement'', LElem orig),
         (''originalErr'', LErr (Some origErr)), (''currentElement'', LElem cur), (''currentErr'', LErr curErr)]) @
     wire_sensor_calls w (InvokeOnInsulatorFailure (wire_metadata w) cur orig curErr origErr attempt threshold interval)"

definition notifyInsulatorAttemptSuccess ::
  "'a wire \<Rightarrow> 'a \<Rightarrow> 'a \<Rightarrow> gerr option \<Rightarrow> gerr \<Rightarrow> int \<Rightarrow> int \<Rightarrow> duration \<Rightarrow> 'a effect list" where
  "notifyInsulatorAttemptSuccess w cur orig curErr origErr attempt threshold interval =
     wire_NotifyLoggers w InfoLevel ''Successfully recovered element''
       (event_kvs w ''InsulatorAttempt'' ''SUCCESS'' @
        [(''totalAttempts'', LInt attempt), (''threshold'', LInt threshold),
         (''interval_ms'', LInt (dur_milliseconds interval)), (''originalElement'', LElem orig),
         (''originalErr'', LErr (Some origErr)), (''element'', LElem cur)]) @
     wire_sensor_calls w (InvokeOnInsulatorSuccess (wire_metadata w) cur orig curErr origErr attempt threshold interval)"

definition notifyInsulatorAttempt ::
  "'a wire \<Rightarrow> 'a \<Rightarrow> 'a \<Rightarrow> gerr option \<Rightarrow> gerr \<Rightarrow> int \<Rightarrow> int \<Rightarrow> duration \<Rightarrow> 'a effect list" where
  "notifyInsulatorAttempt w cur orig curErr origErr attempt threshold interval =
     wire_NotifyLoggers w WarnLevel ''Error during processing; attempting recovery''
       (event_kvs w ''InsulatorAttempt'' ''PENDING'' @
        [(''currentAttempt'', LInt attempt), (''threshold'', LInt threshold),
         (''interval_ms'', LInt (dur_milliseconds interval)), (''originalElement'', LElem orig),
         (''originalErr'', LErr (Some origErr)), (''currentElement'', LElem cur), (''currentErr'', LErr curErr)]) @
     wire_sensor_calls w (InvokeOnInsulatorAttempt (wire_metadata w) cur orig curErr origErr attempt threshold interval)"

section \<open>Configuration\<close>

definition requireNotStarted :: "string \<Rightarrow> 'a wire \<Rightarrow> panic option" where
  "requireNotStarted action w =
     (if wire_started w = 1 then Some (Panic (''wire: '' @ action @ '' called after Start'')) else None)"

definition if_not_started :: "string \<Rightarrow> 'a wire \<Rightarrow> 'r \<Rightarrow> panic + 'r" where
  "if_not_started action w r = (case requireNotStarted action w of Some p \<Rightarrow> Inl p | None \<Rightarrow> Inr r)"

definition success_log :: "'a wire \<Rightarrow> string \<Rightarrow> (string \<times> 'a logval) list \<Rightarrow> 'a effect list" where
  "success_log w action kvs = wire_NotifyLoggers w DebugLevel action (event_kvs w action ''SUCCESS'' @ kvs)"

definition wire_SetComponentMetadata ::
  "string \<Rightarrow> string \<Rightarrow> 'a wire \<Rightarrow> panic + 'a wire \<times> 'a effect list" where
  "wire_SetComponentMetadata name ident w =
     if_not_started ''SetComponentMetadata'' w
       (let old = wire_metadata w;
            w' = w\<lparr>wire_metadata := old\<lparr>meta_Name := name, meta_ID := ident\<rparr>\<rparr>
        in (w', success_log w' ''SetComponentMetadata''
                  [(''oldComponentMetadata'', LMeta old), (''newComponentMetadata'', LMeta (wire_metadata w'))]))"

definition SetConcurrencyControl :: "int \<Rightarrow> int \<Rightarrow> 'a wire \<Rightarrow> panic + 'a wire \<times> 'a effect list" where
  "SetConcurrencyControl bufferSize concurrency w =
     if_not_started ''SetConcurrencyControl'' w
       (let bufferSize = (if bufferSize < 0 then 0 else bufferSize);
            concurrency = (if concurrency < 1 then 1 else concurrency);
            w' = w\<lparr>maxBufferSize := bufferSize, maxConcurrency := concurrency\<rparr>
        in (w', success_log w' ''SetConcurrencyControl''
                  [(''oldMaxBufferSize'', LInt (maxBufferSize w)), (''oldMaxConcurrency'', LInt (maxConcurrency w)),
                   (''newMaxBufferSize'', LInt (maxBufferSize w')), (''newMaxConcurrency'', LInt (maxConcurrency w'))]))"

definition SetEncoder :: "'a encoder option \<Rightarrow> 'a wire \<Rightarrow> panic + 'a wire \<times> 'a effect list" where
  "SetEncoder e w =
     if_not_started ''SetEncoder'' w
       (let w' = w\<lparr>wire_encoder := e\<rparr>
        in (w', success_log w' ''SetEncoder''
                  [(''oldEncoderAddress'', LPtr (wire_encoder w \<noteq> None)), (''newEncoderAddress'', LPtr (e \<noteq> None))]))"

definition SetInsulator ::
  "'a insulator option \<Rightarrow> int \<Rightarrow> duration \<Rightarrow> 'a wire \<Rightarrow> panic + 'a wire \<times> 'a effect list" where
  "SetInsulator retryFunc threshold interval w =
     if_not_started ''SetInsulator'' w
       (let w' = w\<lparr>insulatorFunc := retryFunc, retryInterval := interval, retryThreshold := threshold\<rparr>
        in (w', success_log w' ''SetInsulator''
                  [(''oldInsulatorFunc'', LPtr (insulatorFunc w \<noteq> None)), (''oldRetryInterval'', LInt (retryInterval w)),
                   (''oldRetryThreshold'', LInt (retryThreshold w)), (''newInsulatorFunc'', LPtr (retryFunc \<noteq> None)),
                   (''newRetryInterval'', LInt interval), (''newRetryThreshold'', LInt threshold)]))"

definition SetOutputBuffer :: "bytes \<Rightarrow> 'a wire \<Rightarrow> panic + 'a wire \<times> 'a effect list" where
  "SetOutputBuffer b w =
     if_not_started ''SetOutputBuffer'' w
       (let w' = w\<lparr>OutputBuffer := Some b\<rparr>
        in (w', success_log w' ''SetOutputBuffer''
                  [(''oldOutputBufferAddress'', LPtr (OutputBuffer w \<noteq> None)), (''newOutputBufferAddress'', LPtr True)]))"

definition SetErrorChannel :: "nat option \<Rightarrow> 'a wire \<Rightarrow> panic + 'a wire \<times> 'a effect list" where
  "SetErrorChannel c w =
     if_not_started ''SetErrorChannel'' w
       (let w' = w\<lparr>errorChan := c\<rparr>
        in (w', success_log w' ''SetErrorChannel''
                  [(''oldErrorChannelAddress'', LPtr (errorChan w \<noteq> None)), (''newErrorChannelAddress'', LPtr (c \<noteq> None))]))"

definition SetInputChannel :: "nat option \<Rightarrow> 'a wire \<Rightarrow> panic + 'a wire \<times> 'a effect list" where
  "SetInputChannel c w =
     if_not_started ''SetInputChannel'' w
       (let w' = w\<lparr>inChan := c\<rparr>
        in (w', success_log w' ''SetInputChannel''
                  [(''oldInputChannelAddress'', LPtr (inChan w \<noteq> None)), (''newInputChannelAddress'', LPtr (c \<noteq> None))]))"

definition SetOutputChannel :: "nat option \<Rightarrow> 'a wire \<Rightarrow> panic + 'a wire \<times> 'a effect list" where
  "SetOutputChannel c w =
     if_not_started ''SetOutputChannel'' w
       (let w' = w\<lparr>OutputChan := c\<rparr>
        in (w', success_log w' ''SetOutputChannel''
                  [(''oldOutputChannelAddress'', LPtr (OutputChan w \<noteq> None)), (''newOutputChannelAddress'', LPtr (c \<noteq> None))]))"

definition SetTransformerFactory ::
  "(nat \<Rightarrow> 'a transformer option) option \<Rightarrow> 'a wire \<Rightarrow> panic + 'a wire \<times> 'a effect list" where
  "SetTransformerFactory factory w =
     (case requireNotStarted ''SetTransformerFactory'' w of
        Some p \<Rightarrow> Inl p
      | None \<Rightarrow>
        if factory = None then Inr (w\<lparr>transformerFactory := None\<rparr>, [])
        else if length (transformations w) \<noteq> 0 then
          Inl (Panic ''wire: cannot use TransformerFactory with ConnectTransformer; wrap transforms inside the factory closure instead'')
        else Inr (w\<lparr>transformerFactory := factory\<rparr>, []))"

section \<open>Connections\<close>

definition ConnectCircuitBreaker ::
  "(nat \<times> metadata) option \<Rightarrow> 'a wire \<Rightarrow> panic + 'a wire \<times> 'a effect list" where
  "ConnectCircuitBreaker cb w =
     if_not_started ''ConnectCircuitBreaker'' w
       (let w' = w\<lparr>CircuitBreaker := map_option fst cb\<rparr>
        in (w', success_log w' ''ConnectCircuitBreaker''
                  (case cb of
                     None \<Rightarrow> [(''circuitBreaker'', LNil)]
                   | Some (b, meta) \<Rightarrow> [(''circuitBreakerComponentMetadata'', LMeta meta), (''circuitBreakerAddress'', LAddr b)])))"

definition wire_ConnectLogger :: "logger option list \<Rightarrow> 'a wire \<Rightarrow> panic + 'a wire \<times> 'a effect list" where
  "wire_ConnectLogger loggers w =
     if_not_started ''ConnectLogger'' w
       (let ls = nonnil loggers in
        if ls = [] then (w, [])
        else let w' = w\<lparr>wire_loggers := wire_loggers w @ ls,
                        loggerCount := wrap_i32 (loggerCount w + wrap_i32 (int (length ls)))\<rparr>
             in (w', success_log w' ''ConnectLogger'' [(''count'', LInt (int (length ls)))]))"

definition wire_ConnectSensor :: "sensor option list \<Rightarrow> 'a wire \<Rightarrow> panic + 'a wire \<times> 'a effect list" where
  "wire_ConnectSensor sensors w =
     if_not_started ''ConnectSensor'' w
       (let ss = nonnil sensors in
        if ss = [] then (w, [])
        else let w' = w\<lparr>wire_sensors := wire_sensors w @ ss,
                        sensorCount := wrap_i32 (sensorCount w + wrap_i32 (int (length ss)))\<rparr>
             in (w', success_log w' ''ConnectSensor'' [(''count'', LInt (int (length ss)))]))"

definition ConnectTransformer ::
  "'a transformer option list \<Rightarrow> 'a wire \<Rightarrow> panic + 'a wire \<times> 'a effect list" where
  "ConnectTransformer transformers w =
     (case requireNotStarted ''ConnectTransformer'' w of
        Some p \<Rightarrow> Inl p
      | None \<Rightarrow>
        if length transformers = 0 then Inr (w, [])
        else if transformerFactory w \<noteq> None then
          Inl (Panic ''wire: cannot use ConnectTransformer when TransformerFactory is set; wrap transforms inside the factory closure instead'')
        else let ts = nonnil transformers in
          if ts = [] then Inr (w, [])
          else let w' = w\<lparr>transformations := transformations w @ ts\<rparr>
               in Inr (w', success_log w' ''ConnectTransformer'' [(''count'', LInt (int (length ts)))]))"

text \<open>The two connections that call back into another component work on the world.\<close>

definition wire_ref :: "nat \<Rightarrow> 'a world \<Rightarrow> component_ref" where
  "wire_ref i s = \<lparr>ref_id = i, ref_metadata = wire_metadata (the_wire i s)\<rparr>"

definition wire_cfg ::
  "nat \<Rightarrow> ('a wire \<Rightarrow> panic + 'a wire \<times> 'a effect list) \<Rightarrow> 'a world \<Rightarrow> panic + 'a world" where
  "wire_cfg i f s =
     (case f (the_wire i s) of Inl p \<Rightarrow> Inl p | Inr (w, es) \<Rightarrow> Inr (emit es (put_wire i w s)))"

fun connect_generators ::
  "'a gen_env \<Rightarrow> nat \<Rightarrow> component_ref list \<Rightarrow> 'a world \<Rightarrow> 'a world" where
  "connect_generators env i [] s = s"
| "connect_generators env i (g # gs) s =
     (let s1 = gen_ConnectToComponent env (ref_id g) (wire_ref i s) s;
          w = the_wire i s1
      in connect_generators env i gs
           (emit (success_log w ''ConnectGenerator''
              [(''generatorComponentMetadata'', LMeta (ref_metadata g)), (''generatorAddress'', LAddr (ref_id g))]) s1))"

definition wire_ConnectGenerator ::
  "'a gen_env \<Rightarrow> nat \<Rightarrow> component_ref option list \<Rightarrow> 'a world \<Rightarrow> panic + 'a world" where
  "wire_ConnectGenerator env i generators s =
     if_not_started ''ConnectGenerator'' (the_wire i s)
       (let gs = nonnil generators in
        if gs = [] then s
        else connect_generators env i gs
          (put_wire i ((the_wire i s)\<lparr>wire_generators := wire_generators (the_wire i s) @ gs\<rparr>) s))"

definition ConnectSurgeProtector :: "bool \<Rightarrow> nat \<Rightarrow> 'a world \<Rightarrow> panic + 'a world" where
  "ConnectSurgeProtector protector i s =
     (let w = the_wire i s in
      if_not_started ''ConnectSurgeProtector'' w
       (if \<not> protector then
          let w' = w\<lparr>wire_surgeProtector := False\<rparr>
          in emit (success_log w' ''ConnectSurgeProtector'' [(''surgeProtector'', LNil)]) (put_wire i w' s)
        else
          let (_, _, maxRetry, _) = GetRateLimit (w_sp s);
              w' = w\<lparr>wire_surgeProtector := True, queueRetryMaxAttempt := maxRetry\<rparr>;
              s1 = put_wire i w' s;
              s2 = s1\<lparr>w_sp := sp_ConnectComponent [Some (wire_ref i s1)] (w_sp s1)\<rparr>
          in emit (success_log w' ''ConnectSurgeProtector''
                     [(''surgeProtectorComponentMetadata'', LMeta (sp_metadata (w_sp s2))),
                      (''surgeProtectorAddress'', LPtr True)]) s2))"

section \<open>Accessors\<close>

definition GetCircuitBreaker :: "'a wire \<Rightarrow> nat option" where
  "GetCircuitBreaker w = CircuitBreaker w"

definition wire_GetComponentMetadata :: "'a wire \<Rightarrow> metadata" where
  "wire_GetComponentMetadata w = wire_metadata w"

definition GetInputChannel :: "'a wire \<Rightarrow> nat option" where
  "GetInputChannel w = inChan w"

definition GetGenerators :: "'a wire \<Rightarrow> component_ref list" where
  "GetGenerators w = wire_generators w"

definition GetOutputChannel :: "'a wire \<Rightarrow> nat option" where
  "GetOutputChannel w = OutputChan w"

definition GetOutputBuffer :: "'a wire \<Rightarrow> bytes option" where
  "GetOutputBuffer w = OutputBuffer w"

definition wire_IsStarted :: "'a wire \<Rightarrow> bool" where
  "wire_IsStarted w \<longleftrightarrow> wire_started w = 1"

section \<open>Options and construction\<close>

datatype 'a wire_option =
    W_WithCircuitBreaker "(nat \<times> metadata) option"
  | W_WithConcurrencyControl int int
  | W_WithEncoder "'a encoder option"
  | W_WithGenerator "component_ref option list"
  | W_WithInsulator "'a insulator option" int duration
  | W_WithLogger "logger option list"
  | W_WithSensor "sensor option list"
  | W_WithSurgeProtector bool
  | W_WithTransformer "'a transformer option list"
  | W_WithComponentMetadata string string
  | W_WithTransformerFactory "(nat \<Rightarrow> 'a transformer option) option"

fun apply_wire_option ::
  "'a gen_env \<Rightarrow> nat \<Rightarrow> 'a wire_option \<Rightarrow> 'a world \<Rightarrow> panic + 'a world" where
  "apply_wire_option env i (W_WithCircuitBreaker cb) s = wire_cfg i (ConnectCircuitBreaker cb) s"
| "apply_wire_option env i (W_WithConcurrencyControl b n) s = wire_cfg i (SetConcurrencyControl b n) s"
| "apply_wire_option env i (W_WithEncoder e) s = wire_cfg i (SetEncoder e) s"
| "apply_wire_option env i (W_WithGenerator gs) s = wire_ConnectGenerator env i gs s"
| "apply_wire_option env i (W_WithInsulator f n d) s = wire_cfg i (SetInsulator f n d) s"
| "apply_wire_option env i (W_WithLogger ls) s = wire_cfg i (wire_ConnectLogger ls) s"
| "apply_wire_option env i (W_WithSensor ss) s = wire_cfg i (wire_ConnectSensor ss) s"
| "apply_wire_option env i (W_WithSurgeProtector p) s = ConnectSurgeProtector p i s"
| "apply_wire_option env i (W_WithTransformer ts) s = wire_cfg i (ConnectTransformer ts) s"
| "apply_wire_option env i (W_WithComponentMetadata name ident) s =
     wire_cfg i (wire_SetComponentMetadata name ident) s"
| "apply_wire_option env i (W_WithTransformerFactory f) s = wire_cfg i (SetTransformerFactory f) s"

fun apply_wire_options ::
  "'a gen_env \<Rightarrow> nat \<Rightarrow> 'a wire_option option list \<Rightarrow> 'a world \<Rightarrow> panic + 'a world" where
  "apply_wire_options env i [] s = Inr s"
| "apply_wire_options env i (None # os) s = apply_wire_options env i os s"
| "apply_wire_options env i (Some opt # os) s =
     (case apply_wire_option env i opt s of Inl p \<Rightarrow> Inl p | Inr s' \<Rightarrow> apply_wire_options env i os s')"

definition NewWire_base :: "string \<Rightarrow> int \<Rightarrow> ctx \<Rightarrow> 'a wire" where
  "NewWire_base hash gomaxprocs c =
     \<lparr>wire_metadata = \<lparr>meta_ID = hash, meta_Type = ''WIRE'', meta_Name = ''''\<rparr>,
      inChan = None, OutputChan = None, OutputBuffer = None, wire_encoder = None,
      wire_loggers = [], wire_sensors = [], wire_generators = [], transformations = [],
      wire_ctx = c, wire_wg = [], completeSignal_closed = False, errorChan = None,
      closeErrorChanOnce = False, closeOutputChanOnce = False, closeInputChanOnce = False,
      terminateOnce = False, CircuitBreaker = None, wire_controlChan = make_chan 1, breaker_tickers = 0,
      maxBufferSize = 1024, maxConcurrency = (if gomaxprocs < 1 then 1 else gomaxprocs),
      wire_started = 0, loggerCount = 0, sensorCount = 0, fastPathEnabled = False,
      fastTransform = None, insulatorFunc = None, retryThreshold = 0, retryInterval = 0,
      wire_surgeProtector = False, queueRetryMaxAttempt = 0, wire_isClosed = False,
      transformerFactory = None\<rparr>"

definition default_chans :: "nat \<Rightarrow> 'a world \<Rightarrow> 'a world" where
  "default_chans i s =
     (let n = nat (maxBufferSize (the_wire i s));
          s1 = (if inChan (the_wire i s) = None
                then let (c, s') = new_chan n s in put_wire i ((the_wire i s')\<lparr>inChan := Some c\<rparr>) s' else s);
          s2 = (if OutputChan (the_wire i s1) = None
                then let (c, s') = new_chan n s1 in put_wire i ((the_wire i s')\<lparr>OutputChan := Some c\<rparr>) s' else s1);
          s3 = (if errorChan (the_wire i s2) = None
                then let (c, s') = new_echan n s2 in put_wire i ((the_wire i s')\<lparr>errorChan := Some c\<rparr>) s' else s2)
      in s3)"

definition NewWire ::
  "'a gen_env \<Rightarrow> string \<Rightarrow> int \<Rightarrow> nat \<Rightarrow> ctx option \<Rightarrow> 'a wire_option option list \<Rightarrow> 'a world \<Rightarrow> panic + 'a world" where
  "NewWire env hash gomaxprocs i co options s =
     (let base = (case co of None \<Rightarrow> Background | Some c \<Rightarrow> c);
          (c, s1) = new_ctx base s
      in case apply_wire_options env i options (put_wire i (NewWire_base hash gomaxprocs c) s1) of
           Inl p \<Rightarrow> Inl p
         | Inr s2 \<Rightarrow>
             let w = the_wire i s2;
                 w' = w\<lparr>maxConcurrency := (if maxConcurrency w < 1 then 1 else maxConcurrency w),
                        maxBufferSize := (if maxBufferSize w < 0 then 0 else maxBufferSize w)\<rparr>;
                 s3 = default_chans i (put_wire i w' s2);
                 w3 = the_wire i s3;
                 w4 = w3\<lparr>OutputBuffer := (if OutputBuffer w3 = None then Some [] else OutputBuffer w3),
                         breaker_tickers := (if CircuitBreaker w3 \<noteq> None then Suc (breaker_tickers w3)
                                             else breaker_tickers w3)\<rparr>
             in Inr (put_wire i w4 s3))"


section \<open>A world without components\<close>

text \<open>
  The state before anything has been created: no channel, context or element is in use. The
  stores are total functions, so they need some value at the unused addresses.
\<close>

definition empty_wsys :: "'a wsys" where
  "empty_wsys =
     \<lparr>ws_wires = (\<lambda>i. NewWire_base '''' 1 []), ws_chans = (\<lambda>c. make_chan 0), ws_echans = (\<lambda>c. make_chan 0),
      ws_fresh = 0, ws_cancelled = (\<lambda>t. False), ws_breakers = (\<lambda>b. NewCircuitBreaker_base '''' 1 0),
      ws_select = (\<lambda>n. 0), ws_select_tick = 0, ws_panic = None\<rparr>"

definition empty_world :: "'a \<Rightarrow> 'a world" where
  "empty_world d =
     \<lparr>w_sp = NewSurgeProtector_base '''', w_res = NewResister_base '''',
      w_store = (\<lambda>a. \<lparr>elem_ID = '''', Data = d, QueuePriority = 0, CreationTime = 0, RetryCount = 0, Hash = ''''\<rparr>),
      w_seq = 0, w_next = 0, w_clock = (\<lambda>n. int n + 1), w_tick = 0, w_trace = [], w_ext = empty_wsys\<rparr>"


end
