(* ===== verification/Wire_Process.thy ===== *)
theory Wire_Process
  imports Wire
begin

text \<open>
  What a wire's workers do with an element: the transformer chain, recovery through the
  insulator, error reporting, diversion to neutral wires, encoding and output
  (\<^verbatim>\<open>transform.go\<close>, \<^verbatim>\<open>error.go\<close>, \<^verbatim>\<open>routing.go\<close> and the bodies of \<^verbatim>\<open>internal.go\<close>).

  Another goroutine may cancel the wire's context at any moment, so the functions that look
  at it more than once take what they see as an argument \<open>seen\<close>: number 0 is the check at the
  start of \<^verbatim>\<open>handleElement\<close>, number \<open>2 * k - 1\<close> the check before attempt \<open>k\<close> of a recovery,
  number \<open>2 * k\<close> whether the wait after it ended by cancellation. A function whose result is
  \<open>None\<close> does not return: it blocks, or it panics by a send on a closed channel. Submission to
  another wire is the argument \<open>sub\<close>, supplied in \<open>Wire_Lifecycle\<close>.
\<close>

section \<open>Errors\<close>

definition handleError :: "nat \<Rightarrow> 'a \<Rightarrow> gerr \<Rightarrow> 'a world \<Rightarrow> 'a world option" where
  "handleError i elt err s =
     (case errorChan (the_wire i s) of
        None \<Rightarrow> Some s
      | Some c \<Rightarrow>
        (case chan_try_send \<lparr>ee_Err = err, ee_Elem = elt\<rparr> (ws_echans (w_ext s) c) of
           Inl p \<Rightarrow> None
         | Inr ch \<Rightarrow> Some (put_echan c ch s)))"

text \<open>
  One round of the loop of \<^verbatim>\<open>handleErrorElements\<close> on a received error: with telemetry it is
  reported, without it is dropped.
\<close>

definition handleErrorElements_round :: "nat \<Rightarrow> 'a world \<Rightarrow> 'a world option" where
  "handleErrorElements_round i s =
     (case errorChan (the_wire i s) of
        None \<Rightarrow> None
      | Some c \<Rightarrow>
        (case chan_recv (ws_echans (w_ext s) c) of
           Received e ch \<Rightarrow>
             let w = the_wire i s; s1 = put_echan c ch s in
             if \<not> hasLoggers w \<and> \<not> hasSensors w then Some s1
             else Some (emit (notifyElementTransformError w (ee_Elem e) (ee_Err e)) s1)
         | _ \<Rightarrow> None))"

section \<open>Recovery\<close>

definition record_on_breaker :: "'a wire \<Rightarrow> 'a world \<Rightarrow> 'a world" where
  "record_on_breaker w s = (case CircuitBreaker w of None \<Rightarrow> s | Some b \<Rightarrow> RecordError_of b s)"

text \<open>The loop of \<^verbatim>\<open>attemptRecovery\<close> from attempt \<open>attempt\<close> on, with \<open>n\<close> attempts left.\<close>

fun recovery_loop ::
  "(nat \<Rightarrow> bool) \<Rightarrow> 'a insulator \<Rightarrow> 'a wire \<Rightarrow> nat \<Rightarrow> nat \<Rightarrow> 'a \<Rightarrow> 'a \<Rightarrow> gerr \<Rightarrow> gerr option \<Rightarrow>
   'a world \<Rightarrow> ('a \<times> gerr option) \<times> 'a world" where
  "recovery_loop seen ins w attempt 0 elt orig origErr retryErr s = ((elt, retryErr), s)"
| "recovery_loop seen ins w attempt (Suc n) elt orig origErr retryErr s =
     (let threshold = retryThreshold w; interval = retryInterval w in
      if seen (2 * attempt - 1) then ((elt, Some origErr), s)
      else case ins attempt elt origErr of
        (retryElem, None) \<Rightarrow>
          ((retryElem, None),
           emit (notifyInsulatorAttemptSuccess w retryElem orig None origErr (int attempt) threshold interval) s)
      | (retryElem, Some e) \<Rightarrow>
          if int attempt = threshold then
            ((retryElem, Some (RetryThreshold threshold e)),
             emit (notifyInsulatorFinalRetryFailure w retryElem orig (Some e) origErr (int attempt) threshold interval)
               (record_on_breaker w s))
          else
            let s1 = emit (notifyInsulatorAttempt w retryElem orig (Some e) origErr (int attempt) threshold interval) s
            in if interval > 0 \<and> threshold > 1 \<and> seen (2 * attempt) then ((retryElem, Some origErr), s1)
               else recovery_loop seen ins w (Suc attempt) n retryElem orig origErr (Some e) s1)"

definition attemptRecovery ::
  "(nat \<Rightarrow> bool) \<Rightarrow> nat \<Rightarrow> 'a \<Rightarrow> 'a \<Rightarrow> gerr \<Rightarrow> 'a world \<Rightarrow> ('a \<times> gerr option) \<times> 'a world" where
  "attemptRecovery seen i elt orig origErr s =
     (let w = the_wire i s in
      case insulatorFunc w of
        None \<Rightarrow> ((elt, Some origErr), s)
      | Some ins \<Rightarrow>
        if retryThreshold w \<le> 0 then ((elt, Some origErr), s)
        else recovery_loop seen ins w 1 (nat (retryThreshold w)) elt orig origErr None s)"

definition handleProcessingError ::
  "(nat \<Rightarrow> bool) \<Rightarrow> nat \<Rightarrow> 'a \<Rightarrow> 'a \<Rightarrow> gerr \<Rightarrow> 'a world \<Rightarrow> ('a \<times> gerr option) \<times> 'a world" where
  "handleProcessingError seen i elt orig origErr s =
     (let w = the_wire i s;
          (recover, s1) =
            (if insulatorFunc w \<noteq> None then
               (case CircuitBreaker w of None \<Rightarrow> (True, s) | Some b \<Rightarrow> Allow_of b s)
             else (False, s))
      in if recover then attemptRecovery seen i elt orig origErr s1
         else ((elt, Some origErr), record_on_breaker w s1))"

section \<open>The transformer chain\<close>

fun transform_loop :: "'a transformer list \<Rightarrow> 'a \<Rightarrow> 'a \<times> gerr option" where
  "transform_loop [] elt = (elt, None)"
| "transform_loop (t # ts) elt =
     (case t elt of (elt', None) \<Rightarrow> transform_loop ts elt' | (elt', Some err) \<Rightarrow> (elt', Some err))"

definition transformElement ::
  "(nat \<Rightarrow> bool) \<Rightarrow> nat \<Rightarrow> 'a \<Rightarrow> bool \<Rightarrow> 'a world \<Rightarrow> ('a \<times> gerr option) \<times> 'a world" where
  "transformElement seen i elt telemetryEnabled s =
     (let transforms = transformations (the_wire i s);
          (elt', err) = (if length transforms = 0 then (elt, None)
                         else if length transforms = 1 then (transforms ! 0) elt
                         else transform_loop transforms elt)
      in case err of
           Some e \<Rightarrow> handleProcessingError seen i elt' elt e s
         | None \<Rightarrow> ((elt', None), if telemetryEnabled then emit (notifyElementProcessed (the_wire i s) elt') s else s))"

section \<open>Routing\<close>

type_synonym 'a submit_fn = "ctx \<Rightarrow> nat \<Rightarrow> 'a \<Rightarrow> 'a world \<Rightarrow> (gerr option \<times> 'a world) option"

definition encodeElement :: "nat \<Rightarrow> 'a \<Rightarrow> 'a world \<Rightarrow> 'a world option" where
  "encodeElement i elt s =
     (let w = the_wire i s in
      case wire_encoder w of
        None \<Rightarrow> Some s
      | Some enc \<Rightarrow>
        let (bs, err) = enc elt;
            s1 = put_wire i (w\<lparr>OutputBuffer := map_option (\<lambda>b. b @ bs) (OutputBuffer w)\<rparr>) s
        in (case err of None \<Rightarrow> Some s1 | Some e \<Rightarrow> handleError i elt e s1))"

definition shouldDivertError :: "nat \<Rightarrow> gerr option \<Rightarrow> 'a world \<Rightarrow> bool \<times> 'a world" where
  "shouldDivertError i err s =
     (if err = None then (False, s)
      else case CircuitBreaker (the_wire i s) of
        None \<Rightarrow> (False, s)
      | Some b \<Rightarrow> (let (ok, s1) = Allow_of b s in (\<not> ok, s1)))"

fun divert_loop :: "'a submit_fn \<Rightarrow> nat \<Rightarrow> component_ref list \<Rightarrow> 'a \<Rightarrow> 'a world \<Rightarrow> 'a world option" where
  "divert_loop sub i [] elt s = Some s"
| "divert_loop sub i (gw # gws) elt s =
     (case sub (wire_ctx (the_wire i s)) (ref_id gw) elt
             (emit (notifyNeutralWireSubmission (the_wire i s) elt) s) of
        None \<Rightarrow> None
      | Some (_, s1) \<Rightarrow> divert_loop sub i gws elt s1)"

definition divertToGroundWires :: "'a submit_fn \<Rightarrow> nat \<Rightarrow> 'a \<Rightarrow> 'a world \<Rightarrow> 'a world option" where
  "divertToGroundWires sub i elt s =
     (case CircuitBreaker (the_wire i s) of
        None \<Rightarrow> handleError i elt (Err ''circuit breaker diversion requested but CircuitBreaker is nil'') s
      | Some b \<Rightarrow>
        let neutral = cb_GetNeutralWires (ws_breakers (w_ext s) b) in
        if length neutral = 0
        then handleError i elt (Err ''circuit breaker tripped but no ground wires to handle'') s
        else divert_loop sub i neutral elt s)"

text \<open>The \<^verbatim>\<open>select\<close> between the send on \<open>c\<close> and the end of the context; \<open>onDone\<close> runs in the latter case.\<close>

definition send_or_done ::
  "nat option \<Rightarrow> 'a \<Rightarrow> ctx \<Rightarrow> ('a world \<Rightarrow> 'a world) \<Rightarrow> 'a world \<Rightarrow> 'a world option" where
  "send_or_done co v cx onDone s =
     (let sent = (case co of None \<Rightarrow> SendBlocks | Some c \<Rightarrow> chan_send v (ws_chans (w_ext s) c));
          ready = (if sent = SendBlocks then [] else [True]) @ (if is_done cx s then [False] else [])
      in case select_case ready s of
           None \<Rightarrow> None
         | Some (True, s1) \<Rightarrow>
             (case (co, sent) of (Some c, Sent ch) \<Rightarrow> Some (put_chan c ch s1) | _ \<Rightarrow> None)
         | Some (False, s1) \<Rightarrow> Some (onDone s1))"

definition submitProcessedElement :: "nat \<Rightarrow> 'a \<Rightarrow> 'a world \<Rightarrow> 'a world option" where
  "submitProcessedElement i p s =
     (case (if wire_encoder (the_wire i s) \<noteq> None then encodeElement i p s else Some s) of
        None \<Rightarrow> None
      | Some s1 \<Rightarrow>
        if OutputChan (the_wire i s1) = None then Some s1
        else send_or_done (OutputChan (the_wire i s1)) p (wire_ctx (the_wire i s1))
               (\<lambda>s2. emit (notifyCancel (the_wire i s2) p) s2) s1)"

definition canUseFastPath :: "'a wire \<Rightarrow> bool" where
  "canUseFastPath w =
     (if CircuitBreaker w \<noteq> None \<or> wire_surgeProtector w \<or> insulatorFunc w \<noteq> None \<or>
         wire_encoder w \<noteq> None \<or> loggerCount w \<noteq> 0 \<or> sensorCount w \<noteq> 0 then False
      else if transformerFactory w \<noteq> None then length (transformations w) = 0
      else length (transformations w) = 1)"

section \<open>One element through a worker\<close>

definition handleElement ::
  "(nat \<Rightarrow> bool) \<Rightarrow> 'a submit_fn \<Rightarrow> nat \<Rightarrow> 'a \<Rightarrow> bool \<Rightarrow> 'a world \<Rightarrow> 'a world option" where
  "handleElement seen sub i elt telemetryEnabled s =
     (if seen 0 then Some s
      else
        let ((p, err), s1) = transformElement seen i elt telemetryEnabled s;
            (divert, s2) = shouldDivertError i err s1
        in if divert then divertToGroundWires sub i elt s2
           else (case err of
                   Some e \<Rightarrow> handleError i elt e s2
                 | None \<Rightarrow> submitProcessedElement i p s2))"

text \<open>
  The body of the fast worker's loop; the flag says whether the worker goes on (it returns
  when the context ended during the send).
\<close>

definition fast_element :: "'a transformer \<Rightarrow> nat \<Rightarrow> 'a \<Rightarrow> 'a world \<Rightarrow> 'a world option" where
  "fast_element tf i elt s =
     (case tf elt of
        (p, Some err) \<Rightarrow> handleError i elt err s
      | (p, None) \<Rightarrow>
          send_or_done (OutputChan (the_wire i s)) p (wire_ctx (the_wire i s))
            (\<lambda>s1. emit (notifyCancel (the_wire i s1) p) s1) s)"

section \<open>Properties of the chain\<close>

lemma the_wire_simps [simp]:
  "the_wire i (emit es s) = the_wire i s" "the_wire i (upd_ext (\<lambda>e. e\<lparr>ws_select_tick := n\<rparr>) s) = the_wire i s"
  "the_wire i (put_wire j w s) = (if i = j then w else the_wire i s)"
  "the_wire i (put_chan c ch s) = the_wire i s" "the_wire i (put_echan c ech s) = the_wire i s"
  "the_wire i (put_breaker b cb s) = the_wire i s"
  by (simp_all add: the_wire_def emit_def upd_ext_def put_wire_def put_chan_def put_echan_def put_breaker_def)

lemma the_wire_breaker [simp]:
  "the_wire i (snd (Allow_of b s)) = the_wire i s" "the_wire i (RecordError_of b s) = the_wire i s"
  by (simp_all add: Allow_of_def RecordError_of_def read_clock_def case_prod_beta Let_def)
    (simp_all add: the_wire_def put_breaker_def upd_ext_def)

lemma transform_chain_eq:
  "(if length ts = 0 then (elt, None) else if length ts = 1 then (ts ! 0) elt else transform_loop ts elt) =
   transform_loop ts elt"
  by (cases ts) (auto split: prod.split option.split)

lemma transform_loop_append:
  "transform_loop (ts @ us) elt =
     (case transform_loop ts elt of (e, None) \<Rightarrow> transform_loop us e | (e, Some err) \<Rightarrow> (e, Some err))"
  by (induction ts elt rule: transform_loop.induct) (auto split: prod.split option.split)

text \<open>
  the chain applies the transformers in the order they were connected: a wire with the
  transformers of two groups behaves as the second group applied to the result of the first,
  and the first error ends the chain with the value that transformer returned.
\<close>

theorem transformElement_chain:
  assumes "transformations (the_wire i s) = ts @ us" and "insulatorFunc (the_wire i s) = None"
    and "CircuitBreaker (the_wire i s) = None"
  shows "fst (transformElement seen i elt tel s) =
     (case transform_loop ts elt of
        (e, None) \<Rightarrow> transform_loop us e
      | (e, Some err) \<Rightarrow> (e, Some err))"
  unfolding transformElement_def Let_def transform_chain_eq
  using assms
  by (auto simp: handleProcessingError_def Let_def simp flip: transform_loop_append
      split: prod.splits option.splits)

theorem transformElement_chain_witness:
  "let w = (NewWire_base ''h'' 1 [])\<lparr>transformations := [\<lambda>x. (x + 1, None), \<lambda>x. (x * 2, None)]\<rparr>;
       s = put_wire 0 w (empty_world 0)
   in fst (transformElement (\<lambda>k. False) 0 (3::nat) False s) = (8, None)"
  using transformElement_chain [of 0 "put_wire 0 ((NewWire_base ''h'' 1 [])\<lparr>transformations :=
      [\<lambda>x. (x + 1, None), \<lambda>x. (x * 2, None)]\<rparr>) (empty_world 0)" "[\<lambda>x. (x + 1, None)]" "[\<lambda>x. (x * 2, None)]"
      "\<lambda>k. False" "3::nat" False]
  by (simp add: Let_def NewWire_base_def)

section \<open>The fast path\<close>

text \<open>A wire whose one transformer is \<open>tf\<close>: what the worker a factory gave \<open>tf\<close> works for.\<close>

definition with_transformer :: "'a transformer \<Rightarrow> nat \<Rightarrow> 'a world \<Rightarrow> 'a world" where
  "with_transformer tf i s = put_wire i ((the_wire i s)\<lparr>transformerFactory := None, transformations := [tf]\<rparr>) s"

lemma with_transformer_simps [simp]:
  "the_wire i (with_transformer tf i s) = (the_wire i s)\<lparr>transformerFactory := None, transformations := [tf]\<rparr>"
  "with_transformer tf i (emit es s) = emit es (with_transformer tf i s)"
  "with_transformer tf i (upd_ext (\<lambda>e. e\<lparr>ws_select_tick := Suc (ws_select_tick e)\<rparr>) s) =
     upd_ext (\<lambda>e. e\<lparr>ws_select_tick := Suc (ws_select_tick e)\<rparr>) (with_transformer tf i s)"
  "with_transformer tf i (put_chan c ch s) = put_chan c ch (with_transformer tf i s)"
  "with_transformer tf i (put_echan c ech s) = put_echan c ech (with_transformer tf i s)"
  "ws_chans (w_ext (with_transformer tf i s)) = ws_chans (w_ext s)"
  "ws_echans (w_ext (with_transformer tf i s)) = ws_echans (w_ext s)"
  "ws_cancelled (w_ext (with_transformer tf i s)) = ws_cancelled (w_ext s)"
  "ws_select (w_ext (with_transformer tf i s)) = ws_select (w_ext s)"
  "ws_select_tick (w_ext (with_transformer tf i s)) = ws_select_tick (w_ext s)"
  by (simp_all add: with_transformer_def the_wire_def put_wire_def upd_ext_def emit_def put_chan_def put_echan_def)

lemma transformElement_single:
  assumes "canUseFastPath (the_wire i s)" and "transformerFactory (the_wire i s) = None"
    and "transformations (the_wire i s) = [t]"
  shows "transformElement seen i elt False s = (t elt, s)"
  using assms
  by (cases "t elt"; cases "snd (t elt)")
    (simp_all add: transformElement_def handleProcessingError_def record_on_breaker_def canUseFastPath_def split: if_splits)

lemma handleElement_single:
  assumes "canUseFastPath (the_wire i s)" and "transformerFactory (the_wire i s) = None"
    and "transformations (the_wire i s) = [t]" and "OutputChan (the_wire i s) \<noteq> None" and "\<not> seen 0"
  shows "handleElement seen sub i elt False s = fast_element t i elt s"
proof -
  have cfg: "CircuitBreaker (the_wire i s) = None" "insulatorFunc (the_wire i s) = None" "wire_encoder (the_wire i s) = None"
    using assms(1) by (auto simp: canUseFastPath_def split: if_splits)
  obtain p err where t: "t elt = (p, err)" by fastforce
  show ?thesis
    using assms(4,5) cfg t transformElement_single [OF assms(1-3), of seen elt]
    by (cases err) (auto simp: fast_element_def handleElement_def shouldDivertError_def submitProcessedElement_def)
qed

lemma select_case_with_transformer:
  "select_case ready (with_transformer tf i s) = map_option (map_prod id (with_transformer tf i)) (select_case ready s)"
  by (simp add: select_case_def option.map_comp comp_def)

lemma send_or_done_with_transformer:
  assumes "\<And>s. onDone' (with_transformer tf i s) = with_transformer tf i (onDone s)"
  shows "send_or_done co p cx onDone' (with_transformer tf i s) = map_option (with_transformer tf i) (send_or_done co p cx onDone s)"
proof -
  let ?sent = "case co of None \<Rightarrow> SendBlocks | Some c \<Rightarrow> chan_send p (ws_chans (w_ext s) c)"
  let ?ready = "(if ?sent = SendBlocks then [] else [True]) @ (if is_done cx s then [False] else [])"
  have d: "is_done cx (with_transformer tf i s) = is_done cx s" by (simp add: is_done_def)
  show ?thesis
  proof (cases "select_case ?ready s")
    case None
    then show ?thesis
      unfolding send_or_done_def Let_def d with_transformer_simps(6) select_case_with_transformer by simp
  next
    case (Some r)
    obtain b s1 where r: "r = (b, s1)" by (cases r)
    show ?thesis
      unfolding send_or_done_def Let_def d with_transformer_simps(6) select_case_with_transformer Some [unfolded r]
      by (cases b; cases co; cases ?sent) (simp_all add: assms)
  qed
qed

lemma fast_element_with_transformer:
  "fast_element t i elt (with_transformer tf i s) = map_option (with_transformer tf i) (fast_element t i elt s)"
proof -
  obtain p err where t: "t elt = (p, err)" by fastforce
  show ?thesis
  proof (cases err)
    case None
    have "notifyCancel (the_wire i (with_transformer tf i s1)) p = notifyCancel (the_wire i s1) p" for s1
      by (simp add: notifyCancel_def wire_NotifyLoggers_def event_kvs_def wire_sensor_calls_def)
    with None t show ?thesis
      by (simp add: fast_element_def send_or_done_with_transformer)
  next
    case (Some e)
    with t show ?thesis
      by (simp add: fast_element_def handleError_def split: option.split sum.split)
  qed
qed

text \<open>
  C27: on a wire whose configuration allows the fast path and that has an output channel, the fast
  worker's handling of an element is that of the standard worker: same result, same error report, same
  output, same telemetry, whatever the choices of \<^verbatim>\<open>select\<close>. Without a factory both apply the wire's one
  transformer; with one, the fast worker that got \<open>tf\<close> from it does what a standard worker does on the wire
  that has \<open>tf\<close> as its transformer. The only difference is the check of the context before the transformation,
  which the fast worker leaves to its \<^verbatim>\<open>select\<close>.
\<close>

theorem fast_path_equivalent:
  assumes "canUseFastPath (the_wire i s)" and "OutputChan (the_wire i s) \<noteq> None" and "\<not> seen 0"
  shows "if transformerFactory (the_wire i s) = None
    then fast_element (transformations (the_wire i s) ! 0) i elt s = handleElement seen sub i elt False s
    else map_option (with_transformer tf i) (fast_element tf i elt s) =
      handleElement seen sub i elt False (with_transformer tf i s)"
proof (cases "transformerFactory (the_wire i s) = None")
  case True
  then have "length (transformations (the_wire i s)) = 1"
    using assms(1) by (auto simp: canUseFastPath_def split: if_splits)
  then obtain t where "transformations (the_wire i s) = [t]" by (auto simp: length_Suc_conv)
  with True show ?thesis
    using handleElement_single [where s = s and i = i and seen = seen and sub = sub and elt = elt] assms by simp
next
  case False
  have "canUseFastPath (the_wire i (with_transformer tf i s))"
    using assms(1) by (auto simp: canUseFastPath_def split: if_splits)
  then have "handleElement seen sub i elt False (with_transformer tf i s) = fast_element tf i elt (with_transformer tf i s)"
    using assms(2,3) by (intro handleElement_single) simp_all
  with False show ?thesis by (auto simp: fast_element_with_transformer)
qed

definition plain_wire_world :: "nat \<Rightarrow> nat world" where
  "plain_wire_world n =
     put_chan 1 (make_chan n) (put_wire 0 ((NewWire_base ''w'' 1 [])
       \<lparr>transformations := [\<lambda>x. if x = 13 then (x, Some (Err ''unlucky'')) else (x * 2, None)],
        inChan := Some 0, OutputChan := Some 1, errorChan := Some 2\<rparr>) (empty_world 0))"

text \<open>A wire with a factory, and the worker that got \<open>\<lambda>x. (x + 1, None)\<close> from it.\<close>

theorem fast_path_equivalent_witness:
  "fast_element (transformations (the_wire 0 (plain_wire_world 4)) ! 0) 0 5 (plain_wire_world 4) =
     handleElement (\<lambda>k. False) (\<lambda>c i d s. None) 0 5 False (plain_wire_world 4) \<and>
   (let s = put_wire 0 ((the_wire 0 (plain_wire_world 4))\<lparr>transformerFactory := Some (\<lambda>k. Some (\<lambda>x. (x + k, None))),
              transformations := []\<rparr>) (plain_wire_world 4) in
    map_option (with_transformer (\<lambda>x. (x + 1, None)) 0) (fast_element (\<lambda>x. (x + 1, None)) 0 5 s) =
      handleElement (\<lambda>k. False) (\<lambda>c i d s. None) 0 5 False (with_transformer (\<lambda>x. (x + 1, None)) 0 s))"
proof -
  let ?s = "put_wire 0 ((the_wire 0 (plain_wire_world 4))\<lparr>transformerFactory := Some (\<lambda>k. Some (\<lambda>x. (x + k, None))),
              transformations := []\<rparr>) (plain_wire_world 4)"
  note defs = plain_wire_world_def canUseFastPath_def NewWire_base_def
  have "canUseFastPath (the_wire 0 ?s)" "OutputChan (the_wire 0 ?s) \<noteq> None" "transformerFactory (the_wire 0 ?s) \<noteq> None"
    "canUseFastPath (the_wire 0 (plain_wire_world 4))" "OutputChan (the_wire 0 (plain_wire_world 4)) \<noteq> None"
    "transformerFactory (the_wire 0 (plain_wire_world 4)) = None"
    by (simp_all add: defs)
  then show ?thesis
    using fast_path_equivalent [where i = 0 and s = "plain_wire_world 4" and seen = "\<lambda>k. False" and elt = 5 and sub = "\<lambda>c i d s. None"]
      fast_path_equivalent [where i = 0 and s = ?s and seen = "\<lambda>k. False" and elt = 5 and sub = "\<lambda>c i d s. None"
        and tf = "\<lambda>x. (x + 1, None)"]
    unfolding Let_def by simp
qed

section \<open>Recovery\<close>

text \<open>The element after the first \<open>k\<close> attempts, each applied to what the one before returned.\<close>

fun after_attempts :: "'a insulator \<Rightarrow> gerr \<Rightarrow> 'a \<Rightarrow> nat \<Rightarrow> 'a" where
  "after_attempts ins err elt 0 = elt"
| "after_attempts ins err elt (Suc k) = fst (ins (Suc k) (after_attempts ins err elt k) err)"

definition attempt_result :: "'a insulator \<Rightarrow> gerr \<Rightarrow> 'a \<Rightarrow> nat \<Rightarrow> gerr option" where
  "attempt_result ins err elt k = snd (ins k (after_attempts ins err elt (k - 1)) err)"

lemma attempt_split:
  "ins (Suc k) (after_attempts ins err elt k) err = (after_attempts ins err elt (Suc k), attempt_result ins err elt (Suc k))"
  by (simp add: attempt_result_def)

text \<open>What the breaker store looks like afterwards.\<close>

definition breakers :: "'a world \<Rightarrow> nat \<Rightarrow> circuit_breaker" where
  "breakers s = ws_breakers (w_ext s)"

lemma breakers_emit [simp]: "breakers (emit es s) = breakers s"
  by (simp add: breakers_def)

text \<open>One round of the loop, by the answer of the insulator.\<close>

lemma recovery_round:
  assumes "\<not> seen (2 * a - 1)" and "\<not> seen (2 * a)" and "ins a x err = (y, res)"
  shows "res = None \<Longrightarrow> \<exists>es. recovery_loop seen ins w a (Suc n) x orig err re s = ((y, None), emit es s)"
    and "res = Some e \<Longrightarrow> retryThreshold w = int a \<Longrightarrow>
      \<exists>es. recovery_loop seen ins w a (Suc n) x orig err re s =
        ((y, Some (RetryThreshold (int a) e)), emit es (record_on_breaker w s))"
    and "res = Some e \<Longrightarrow> retryThreshold w \<noteq> int a \<Longrightarrow>
      \<exists>es. recovery_loop seen ins w a (Suc n) x orig err re s =
        recovery_loop seen ins w (Suc a) n y orig err (Some e) (emit es s)"
  using assms by (auto simp: Let_def)

lemma not_False: "\<not> False" by simp

lemma recovery_loop_success:
  assumes "Suc a \<le> k" and "k \<le> a + n" and "retryThreshold w = int (a + n)"
    and "attempt_result ins err elt k = None"
    and "\<forall>j. Suc a \<le> j \<and> j < k \<longrightarrow> attempt_result ins err elt j \<noteq> None"
  shows "\<exists>es. recovery_loop (\<lambda>k. False) ins w (Suc a) n (after_attempts ins err elt a) orig err re s =
      ((after_attempts ins err elt k, None), emit es s)"
  using assms
proof (induction n arbitrary: a re s)
  case (Suc n)
  note round = recovery_round [of "\<lambda>k. False" "Suc a" ins "after_attempts ins err elt a" err, OF not_False not_False attempt_split [of ins a err elt],
      where n = n and w = w and orig = orig and re = re and s = s]
  show ?case
  proof (cases "k = Suc a")
    case True
    then show ?thesis using Suc.prems round(1) by blast
  next
    case False
    then obtain e where e: "attempt_result ins err elt (Suc a) = Some e"
      using Suc.prems by (cases "attempt_result ins err elt (Suc a)") auto
    have "retryThreshold w \<noteq> int (Suc a)" using Suc.prems False by simp
    then obtain es where eq: "recovery_loop (\<lambda>k. False) ins w (Suc a) (Suc n) (after_attempts ins err elt a) orig err re s =
        recovery_loop (\<lambda>k. False) ins w (Suc (Suc a)) n (after_attempts ins err elt (Suc a)) orig err (Some e) (emit es s)"
      using round(3) [OF e] by blast
    obtain es' where "recovery_loop (\<lambda>k. False) ins w (Suc (Suc a)) n (after_attempts ins err elt (Suc a)) orig err (Some e) (emit es s) =
        ((after_attempts ins err elt k, None), emit es' (emit es s))"
      using Suc.IH [of "Suc a" "Some e" "emit es s"] Suc.prems False by fastforce
    then show ?thesis unfolding eq by (auto simp: emit_def intro!: exI [of _ "es @ es'"])
  qed
qed simp

lemma recovery_loop_failure:
  assumes "0 < n" and "retryThreshold w = int (a + n)"
    and "\<forall>j. Suc a \<le> j \<and> j \<le> a + n \<longrightarrow> attempt_result ins err elt j \<noteq> None"
  shows "\<exists>es es' e. recovery_loop (\<lambda>k. False) ins w (Suc a) n (after_attempts ins err elt a) orig err re s =
      ((after_attempts ins err elt (a + n), Some (RetryThreshold (int (a + n)) e)),
       emit es (record_on_breaker w (emit es' s))) \<and>
      attempt_result ins err elt (a + n) = Some e"
  using assms
proof (induction n arbitrary: a re s)
  case (Suc n)
  note round = recovery_round [of "\<lambda>k. False" "Suc a" ins "after_attempts ins err elt a" err, OF not_False not_False attempt_split [of ins a err elt],
      where n = n and w = w and orig = orig and re = re and s = s]
  obtain e where e: "attempt_result ins err elt (Suc a) = Some e"
    using Suc.prems by (cases "attempt_result ins err elt (Suc a)") auto
  show ?case
  proof (cases "n = 0")
    case True
    have nil: "emit [] s = s" by (simp add: emit_def)
    obtain es where "recovery_loop (\<lambda>k. False) ins w (Suc a) (Suc n) (after_attempts ins err elt a) orig err re s =
        ((after_attempts ins err elt (Suc a), Some (RetryThreshold (int (Suc a)) e)), emit es (record_on_breaker w s))"
      using round(2) [OF e] Suc.prems True by auto
    then show ?thesis using True e nil by (metis add_Suc_right add_0_right)
  next
    case False
    have "retryThreshold w \<noteq> int (Suc a)" using Suc.prems False by simp
    then obtain es where eq: "recovery_loop (\<lambda>k. False) ins w (Suc a) (Suc n) (after_attempts ins err elt a) orig err re s =
        recovery_loop (\<lambda>k. False) ins w (Suc (Suc a)) n (after_attempts ins err elt (Suc a)) orig err (Some e) (emit es s)"
      using round(3) [OF e] by blast
    obtain es1 es2 e' where "recovery_loop (\<lambda>k. False) ins w (Suc (Suc a)) n (after_attempts ins err elt (Suc a)) orig err (Some e) (emit es s) =
        ((after_attempts ins err elt (Suc a + n), Some (RetryThreshold (int (Suc a + n)) e')),
         emit es1 (record_on_breaker w (emit es2 (emit es s))))" "attempt_result ins err elt (Suc a + n) = Some e'"
      using Suc.IH [of "Suc a" "Some e" "emit es s"] Suc.prems False by fastforce
    moreover have "emit es2 (emit es s) = emit (es @ es2) s" by (simp add: emit_def)
    ultimately show ?thesis unfolding eq by (metis add_Suc add_Suc_right)
  qed
qed simp

lemma breakers_record_emit:
  "breakers (record_on_breaker w (emit es s)) = breakers (record_on_breaker w s)"
  by (simp add: record_on_breaker_def RecordError_of_def read_clock_def case_prod_beta Let_def breakers_def
      put_breaker_def upd_ext_def split: option.split)

text \<open>
  C10: recovery through the insulator, when the wire is not cancelled meanwhile. If attempt \<open>k\<close> is
  the first to succeed within the threshold, the wire goes on with the element that attempt
  returned and no error is recorded on the breaker; if none succeeds, the error says that
  the threshold was reached and carries the last attempt's error, and exactly one error is
  recorded on the breaker.
\<close>

theorem attemptRecovery_outcome:
  assumes "insulatorFunc (the_wire i s) = Some ins" and "retryThreshold (the_wire i s) = int n"
    and "0 < n" and "\<forall>k. \<not> seen k"
  shows "(\<forall>k. 1 \<le> k \<and> k \<le> n \<and> attempt_result ins err elt k = None \<and>
            (\<forall>j. 1 \<le> j \<and> j < k \<longrightarrow> attempt_result ins err elt j \<noteq> None) \<longrightarrow>
            (\<exists>s'. attemptRecovery seen i elt orig err s = ((after_attempts ins err elt k, None), s') \<and>
                  breakers s' = breakers s)) \<and>
    ((\<forall>j. 1 \<le> j \<and> j \<le> n \<longrightarrow> attempt_result ins err elt j \<noteq> None) \<longrightarrow>
       (\<exists>s' e. attemptRecovery seen i elt orig err s =
            ((after_attempts ins err elt n, Some (RetryThreshold (int n) e)), s') \<and>
          attempt_result ins err elt n = Some e \<and>
          breakers s' = breakers (record_on_breaker (the_wire i s) s)))"
proof -
  let ?w = "the_wire i s"
  have seen: "seen = (\<lambda>k. False)" using assms(4) by auto
  have eq: "attemptRecovery seen i elt orig err s =
      recovery_loop (\<lambda>k. False) ins ?w (Suc 0) n (after_attempts ins err elt 0) orig err None s"
    using assms(1-3) by (simp add: attemptRecovery_def seen)
  show ?thesis
    unfolding eq
  proof (intro conjI allI impI)
    fix k assume "1 \<le> k \<and> k \<le> n \<and> attempt_result ins err elt k = None \<and>
      (\<forall>j. 1 \<le> j \<and> j < k \<longrightarrow> attempt_result ins err elt j \<noteq> None)"
    then obtain es where "recovery_loop (\<lambda>k. False) ins ?w (Suc 0) n (after_attempts ins err elt 0) orig err None s =
        ((after_attempts ins err elt k, None), emit es s)"
      using recovery_loop_success [of 0 k n ?w ins err elt orig None s] assms(2) by auto
    then show "\<exists>s'. recovery_loop (\<lambda>k. False) ins ?w (Suc 0) n (after_attempts ins err elt 0) orig err None s =
        ((after_attempts ins err elt k, None), s') \<and> breakers s' = breakers s" by auto
  next
    assume "\<forall>j. 1 \<le> j \<and> j \<le> n \<longrightarrow> attempt_result ins err elt j \<noteq> None"
    then obtain es es' e where "recovery_loop (\<lambda>k. False) ins ?w (Suc 0) n (after_attempts ins err elt 0) orig err None s =
        ((after_attempts ins err elt n, Some (RetryThreshold (int n) e)), emit es (record_on_breaker ?w (emit es' s)))"
      "attempt_result ins err elt n = Some e"
      using recovery_loop_failure [OF assms(3), of ?w 0 ins err elt orig None s] assms(2) by auto
    then show "\<exists>s' e. recovery_loop (\<lambda>k. False) ins ?w (Suc 0) n (after_attempts ins err elt 0) orig err None s =
        ((after_attempts ins err elt n, Some (RetryThreshold (int n) e)), s') \<and>
        attempt_result ins err elt n = Some e \<and> breakers s' = breakers (record_on_breaker ?w s)"
      by (auto simp: breakers_record_emit)
  qed
qed

definition insulated_world :: "nat world" where
  "insulated_world =
     put_wire 0 ((NewWire_base ''w'' 1 [])\<lparr>retryThreshold := 3,
       insulatorFunc := Some (\<lambda>k x err. if k = 2 then (x + 10, None) else (x + 1, Some err))\<rparr>) (empty_world 0)"

theorem attemptRecovery_outcome_witness:
  "\<exists>s'. attemptRecovery (\<lambda>k. False) 0 5 5 (Err ''e'') insulated_world = ((16, None), s') \<and>
        breakers s' = breakers insulated_world"
proof -
  let ?ins = "\<lambda>k x err. if k = 2 then (x + 10, None) else (x + 1 :: nat, Some err)"
  have *: "insulatorFunc (the_wire 0 insulated_world) = Some ?ins"
    "retryThreshold (the_wire 0 insulated_world) = int 3"
    by (simp_all add: insulated_world_def)
  have **: "attempt_result ?ins (Err ''e'') 5 2 = None" "attempt_result ?ins (Err ''e'') 5 (Suc 0) \<noteq> None"
    "after_attempts ?ins (Err ''e'') 5 2 = 16"
    by (simp_all add: attempt_result_def numeral_2_eq_2)
  have one: "\<forall>j. 1 \<le> j \<and> j < 2 \<longrightarrow> attempt_result ?ins (Err ''e'') 5 j \<noteq> None"
    using **(2) by (auto simp: less_2_cases_iff)
  have "\<exists>s'. attemptRecovery (\<lambda>k. False) 0 5 5 (Err ''e'') insulated_world =
      ((after_attempts ?ins (Err ''e'') 5 2, None), s') \<and> breakers s' = breakers insulated_world"
    by (rule attemptRecovery_outcome [OF *, of "\<lambda>k. False" "Err ''e''" 5 5, THEN conjunct1, rule_format])
      (use **(1) one in auto)
  then show ?thesis unfolding **(3) .
qed


end
