(* ===== verification/Wire_Lifecycle.thy ===== *)
theory Wire_Lifecycle
  imports Wire_Process
begin

text \<open>
  Submission to a wire, its lifecycle and the loops it runs beside the workers
  (\<^verbatim>\<open>submit.go\<close>, \<^verbatim>\<open>lifecycle.go\<close>, \<^verbatim>\<open>load.go\<close>, \<^verbatim>\<open>resister.go\<close>, \<^verbatim>\<open>breaker.go\<close> and \<^verbatim>\<open>startWorkers\<close>).

  A wire's \<^verbatim>\<open>Submit\<close> may call the \<^verbatim>\<open>Submit\<close> of neutral wires and of the surge protector, which
  calls the \<^verbatim>\<open>Submit\<close> of the wires it manages: the recursion is bounded by fuel, and \<open>None\<close> is
  a call that does not return (out of fuel, a \<^verbatim>\<open>select\<close> with no ready case, or a panic by a
  send on a closed channel). \<^verbatim>\<open>wg.Wait()\<close> lets the other goroutines run until all of the
  wire's have ended: what they leave is the argument \<open>wait\<close> of the functions that call it.
\<close>

section \<open>Submission\<close>

datatype submit_case = CaseSend | CaseCtx | CaseWireCtx

text \<open>The three-way \<^verbatim>\<open>select\<close> of \<^verbatim>\<open>submitNormally\<close> and \<^verbatim>\<open>FastSubmit\<close>; \<open>onSent\<close> runs after the send.\<close>

definition enqueue_or_done ::
  "ctx \<Rightarrow> nat \<Rightarrow> 'a \<Rightarrow> ('a world \<Rightarrow> 'a world) \<Rightarrow> 'a world \<Rightarrow> (gerr option \<times> 'a world) option" where
  "enqueue_or_done cx i d onSent s =
     (let w = the_wire i s;
          sent = (case inChan w of None \<Rightarrow> SendBlocks | Some c \<Rightarrow> chan_send d (ws_chans (w_ext s) c));
          ready = (if sent = SendBlocks then [] else [CaseSend]) @
                  (if is_done cx s then [CaseCtx] else []) @
                  (if is_done (wire_ctx w) s then [CaseWireCtx] else [])
      in case select_case ready s of
           None \<Rightarrow> None
         | Some (CaseSend, s1) \<Rightarrow>
             (case (inChan w, sent) of
                (Some c, Sent ch) \<Rightarrow> Some (None, onSent (put_chan c ch s1))
              | _ \<Rightarrow> None)
         | Some (CaseCtx, s1) \<Rightarrow> Some (ctx_Err (ws_cancelled (w_ext s1)) cx, s1)
         | Some (CaseWireCtx, s1) \<Rightarrow> Some (ctx_Err (ws_cancelled (w_ext s1)) (wire_ctx w), s1))"

definition submitNormally ::
  "ctx \<Rightarrow> nat \<Rightarrow> 'a \<Rightarrow> 'a world \<Rightarrow> (gerr option \<times> 'a world) option" where
  "submitNormally cx i d s =
     enqueue_or_done cx i d
       (\<lambda>s1. let w = the_wire i s1 in
             if loggerCount w \<noteq> 0 \<or> sensorCount w \<noteq> 0 then emit (notifySubmit w d) s1 else s1) s"

fun neutral_loop ::
  "'a submit_fn \<Rightarrow> ctx \<Rightarrow> nat \<Rightarrow> component_ref list \<Rightarrow> 'a \<Rightarrow> 'a world \<Rightarrow> 'a world option" where
  "neutral_loop sub cx i [] d s = Some s"
| "neutral_loop sub cx i (gw # gws) d s =
     (case sub cx (ref_id gw) d s of
        None \<Rightarrow> None
      | Some (Some err, s1) \<Rightarrow> neutral_loop sub cx i gws d s1
      | Some (None, s1) \<Rightarrow>
          neutral_loop sub cx i gws d (emit (notifyNeutralWireSubmission (the_wire i s1) d) s1))"

definition handleCircuitBreakerTrip ::
  "'a submit_fn \<Rightarrow> ctx \<Rightarrow> nat \<Rightarrow> 'a \<Rightarrow> 'a world \<Rightarrow> (gerr option \<times> 'a world) option" where
  "handleCircuitBreakerTrip sub cx i d s =
     (case CircuitBreaker (the_wire i s) of
        None \<Rightarrow> Some (None, s)
      | Some b \<Rightarrow>
        let neutral = cb_GetNeutralWires (ws_breakers (w_ext s) b) in
        if length neutral = 0 then Some (None, emit (notifyCircuitBreakerDropElement (the_wire i s) d) s)
        else map_option (\<lambda>s1. (None, s1)) (neutral_loop sub cx i neutral d s))"

definition new_element :: "'a \<Rightarrow> 'a world \<Rightarrow> nat \<times> 'a world" where
  "new_element d s =
     (let (now, s1) = read_clock s; (seqn, e) = NewElementFast (w_seq s1) now d; a = w_next s1
      in (a, s1\<lparr>w_seq := seqn, w_next := Suc a, w_store := (w_store s1)(a := e)\<rparr>))"

text \<open>\<^verbatim>\<open>time.Now().Add(sp.GetTimeUntilNextRefill())\<close>: the second reading only when one is needed.\<close>

definition next_attempt :: "'a world \<Rightarrow> gotime \<times> 'a world" where
  "next_attempt s =
     (let (now, s1) = read_clock s in
      if IsBeingRateLimited (w_sp s1) \<and> \<not> time_IsZero (nextRefill (w_sp s1)) then
        let (now2, s2) = read_clock s1 in (time_Add now (GetTimeUntilNextRefill now2 (w_sp s2)), s2)
      else (time_Add now 0, s1))"

definition check_breaker :: "nat \<Rightarrow> 'a world \<Rightarrow> bool \<times> 'a world" where
  "check_breaker i s = (case CircuitBreaker (the_wire i s) of None \<Rightarrow> (True, s) | Some b \<Rightarrow> Allow_of b s)"

section \<open>Start\<close>

text \<open>The goroutines \<^verbatim>\<open>startWorkers\<close> launches, from worker \<open>k\<close> on with \<open>n\<close> to go.\<close>

fun start_workers_loop :: "'a wire \<Rightarrow> nat \<Rightarrow> nat \<Rightarrow> panic + 'a goroutine list" where
  "start_workers_loop w k 0 = Inr []"
| "start_workers_loop w k (Suc n) =
     (let g = (if fastPathEnabled w then
                 (case transformerFactory w of
                    Some factory \<Rightarrow>
                      (case factory k of
                         None \<Rightarrow> Inl (Panic ''wire: transformerFactory returned nil transformer'')
                       | Some tf \<Rightarrow> Inr (FastWorker (Some tf)))
                  | None \<Rightarrow> Inr (FastWorker (fastTransform w)))
               else Inr StandardWorker)
      in case g of
           Inl p \<Rightarrow> Inl p
         | Inr g' \<Rightarrow>
             (case start_workers_loop w (Suc k) n of Inl p \<Rightarrow> Inl p | Inr gs \<Rightarrow> Inr (g' # gs)))"

definition startWorkers :: "'a wire \<Rightarrow> panic + 'a wire" where
  "startWorkers w =
     (let workers = (if maxConcurrency w \<le> 0 then 1 else maxConcurrency w) in
      case start_workers_loop w 0 (nat workers) of
        Inl p \<Rightarrow> Inl p
      | Inr gs \<Rightarrow> Inr (w\<lparr>wire_wg := wire_wg w @ gs\<rparr>))"

fun start_generators :: "'a gen_env \<Rightarrow> ctx \<Rightarrow> component_ref list \<Rightarrow> 'a world \<Rightarrow> 'a world" where
  "start_generators env cx [] s = s"
| "start_generators env cx (g # gs) s =
     start_generators env cx gs
       (if \<not> gen_IsStarted env (ref_id g) s then gen_StartWith env (ref_id g) cx s else s)"

text \<open>The configuration \<^verbatim>\<open>Start\<close> settles before it launches the workers.\<close>

definition start_config :: "'a wire \<Rightarrow> panic + 'a wire" where
  "start_config w =
     (if transformerFactory w \<noteq> None \<and> length (transformations w) \<noteq> 0 then
        Inl (Panic ''wire: invalid config: transformerFactory set but transformations also present'')
      else
        let w1 = (if transformerFactory w = None \<and> length (transformations w) = 0
                  then w\<lparr>transformations := [\<lambda>v. (v, None)]\<rparr> else w);
            w2 = w1\<lparr>fastPathEnabled := canUseFastPath w1\<rparr>;
            w3 = (if fastPathEnabled w2 \<and> transformerFactory w2 = None
                  then w2\<lparr>fastTransform := Some (transformations w2 ! 0)\<rparr> else w2)
        in Inr w3)"

definition wire_Start ::
  "'a gen_env \<Rightarrow> ctx option \<Rightarrow> nat \<Rightarrow> 'a world \<Rightarrow> panic + gerr option \<times> 'a world" where
  "wire_Start env co i s =
     (let w = the_wire i s in
      if wire_started w \<noteq> 0 then Inr (None, s)
      else
        let err = (case co of None \<Rightarrow> None | Some c \<Rightarrow> ctx_Err (ws_cancelled (w_ext s)) c) in
        if err \<noteq> None then Inr (err, put_wire i (w\<lparr>wire_started := 0\<rparr>) s)
        else
          let s1 = put_wire i (w\<lparr>wire_started := 1\<rparr>) s;
              s2 = emit (wire_notifyStart (the_wire i s1)) s1;
              resister = (wire_surgeProtector w \<and> IsResisterConnected (w_sp s2));
              w2 = (the_wire i s2)\<lparr>wire_wg := wire_wg w @ [ErrorHandler] @ (if resister then [ResisterLoop] else [])\<rparr>
          in case start_config w2 of
               Inl p \<Rightarrow> Inl p
             | Inr w3 \<Rightarrow>
                 (case startWorkers w3 of
                    Inl p \<Rightarrow> Inl p
                  | Inr w4 \<Rightarrow>
                      Inr (None, start_generators env (wire_ctx w4) (wire_generators w4) (put_wire i w4 s2))))"

section \<open>Stop and restart\<close>

text \<open>\<^verbatim>\<open>close\<close> under a \<^verbatim>\<open>sync.Once\<close>; closing a closed or nil channel panics.\<close>

definition close_output :: "nat \<Rightarrow> 'a world \<Rightarrow> panic + 'a world" where
  "close_output i s =
     (let w = the_wire i s in
      if closeOutputChanOnce w then Inr s
      else case OutputChan w of
        None \<Rightarrow> Inl (Panic ''close of nil channel'')
      | Some c \<Rightarrow>
        (case chan_close (ws_chans (w_ext s) c) of
           Inl p \<Rightarrow> Inl p
         | Inr ch \<Rightarrow> Inr (put_wire i (w\<lparr>closeOutputChanOnce := True\<rparr>) (put_chan c ch s))))"

definition close_errors :: "nat \<Rightarrow> 'a world \<Rightarrow> panic + 'a world" where
  "close_errors i s =
     (let w = the_wire i s in
      if closeErrorChanOnce w then Inr s
      else case errorChan w of
        None \<Rightarrow> Inl (Panic ''close of nil channel'')
      | Some c \<Rightarrow>
        (case chan_close (ws_echans (w_ext s) c) of
           Inl p \<Rightarrow> Inl p
         | Inr ch \<Rightarrow> Inr (put_wire i (w\<lparr>closeErrorChanOnce := True\<rparr>) (put_echan c ch s))))"

definition terminate :: "(nat \<Rightarrow> 'a world \<Rightarrow> 'a world) \<Rightarrow> nat \<Rightarrow> 'a world \<Rightarrow> panic + 'a world" where
  "terminate wait i s =
     (let s1 = put_wire i ((the_wire i s)\<lparr>terminateOnce := True, wire_isClosed := True\<rparr>) s;
          s2 = cancel_ctx (wire_ctx (the_wire i s1)) s1;
          s3 = wait i s2
      in if completeSignal_closed (the_wire i s3) then Inr s3
         else case close_output i s3 of
                Inl p \<Rightarrow> Inl p
              | Inr s4 \<Rightarrow> close_errors i s4)"

definition wire_Stop :: "(nat \<Rightarrow> 'a world \<Rightarrow> 'a world) \<Rightarrow> nat \<Rightarrow> 'a world \<Rightarrow> panic + 'a world" where
  "wire_Stop wait i s =
     (let w = the_wire i s in
      if wire_started w \<noteq> 1 then Inr s
      else
        let s1 = put_wire i (w\<lparr>wire_started := 0\<rparr>) s;
            s2 = emit (wire_notifyStop (the_wire i s1)) s1
        in if terminateOnce (the_wire i s2) then Inr s2 else terminate wait i s2)"

definition renew_onces :: "'a wire \<Rightarrow> 'a wire" where
  "renew_onces w =
     w\<lparr>terminateOnce := False, closeOutputChanOnce := False, closeInputChanOnce := False,
       closeErrorChanOnce := False, wire_isClosed := False\<rparr>"

definition renew_channels :: "nat \<Rightarrow> 'a world \<Rightarrow> panic + 'a world" where
  "renew_channels i s =
     (let n = nat (maxBufferSize (the_wire i s)); (c1, s1) = new_chan n s in
      case wire_cfg i (SetInputChannel (Some c1)) s1 of
        Inl p \<Rightarrow> Inl p
      | Inr s2 \<Rightarrow>
        (let (c2, s3) = new_chan n s2 in
         case wire_cfg i (SetOutputChannel (Some c2)) s3 of
           Inl p \<Rightarrow> Inl p
         | Inr s4 \<Rightarrow> (let (c3, s5) = new_echan n s4 in wire_cfg i (SetErrorChannel (Some c3)) s5)))"

definition wire_Restart ::
  "'a gen_env \<Rightarrow> (nat \<Rightarrow> 'a world \<Rightarrow> 'a world) \<Rightarrow> ctx \<Rightarrow> nat \<Rightarrow> 'a world \<Rightarrow> panic + gerr option \<times> 'a world" where
  "wire_Restart env wait cx i s =
     (case wire_Stop wait i s of
        Inl p \<Rightarrow> Inl p
      | Inr s1 \<Rightarrow>
        let (c, s2) = new_ctx cx s1;
            s3 = put_wire i (renew_onces ((the_wire i s2)\<lparr>wire_ctx := c\<rparr>)) s2
        in case renew_channels i s3 of
             Inl p \<Rightarrow> Inl p
           | Inr s4 \<Rightarrow>
             let w = the_wire i s4;
                 w' = w\<lparr>OutputBuffer := Some [],
                        breaker_tickers := (if CircuitBreaker w \<noteq> None then Suc (breaker_tickers w)
                                            else breaker_tickers w)\<rparr>
             in wire_Start env (Some (wire_ctx w')) i (put_wire i w' s4))"

section \<open>The submit methods\<close>

definition note_panic :: "'a world \<Rightarrow> panic + gerr option \<times> 'a world \<Rightarrow> 'a world" where
  "note_panic s r =
     (case r of Inl p \<Rightarrow> upd_ext (\<lambda>e. e\<lparr>ws_panic := Some p\<rparr>) s | Inr (_, s') \<Rightarrow> s')"

text \<open>
  The wires as the surge protector's components: it ignores the errors of \<^verbatim>\<open>Start\<close> and
  \<^verbatim>\<open>Restart\<close>, and a panic there ends the program, which \<open>ws_panic\<close> records.
\<close>

definition wire_ops ::
  "'a gen_env \<Rightarrow> (nat \<Rightarrow> 'a world \<Rightarrow> 'a world) \<Rightarrow> (nat \<Rightarrow> 'a \<Rightarrow> 'a world \<Rightarrow> (gerr option \<times> 'a world) option) \<Rightarrow>
   ('a, 'a wsys) component_ops" where
  "wire_ops env wait sub =
     \<lparr>comp_IsStarted = (\<lambda>i s. wire_IsStarted (the_wire i s)),
      comp_Start = (\<lambda>i s. note_panic s (wire_Start env (Some (sp_ctx env)) i s)),
      comp_Restart = (\<lambda>i s. note_panic s (wire_Restart env wait (sp_ctx env) i s)),
      comp_Submit = sub,
      comp_Generators = (\<lambda>i s. GetGenerators (the_wire i s)),
      gen_Start = (\<lambda>g s. gen_StartWith env g (sp_ctx env) s)\<rparr>"

fun wire_Submit ::
  "nat \<Rightarrow> 'a gen_env \<Rightarrow> (nat \<Rightarrow> 'a world \<Rightarrow> 'a world) \<Rightarrow> ctx \<Rightarrow> nat \<Rightarrow> 'a \<Rightarrow> 'a world \<Rightarrow>
   (gerr option \<times> 'a world) option" where
  "wire_Submit 0 env wait cx i d s = None"
| "wire_Submit (Suc n) env wait cx i d s =
     (let (allowed, s1) = check_breaker i s in
      if \<not> allowed then handleCircuitBreakerTrip (\<lambda>cx' j. wire_Submit n env wait cx' j) cx i d s1
      else if wire_surgeProtector (the_wire i s1) then
        let (a, s2) = new_element d s1;
            ops = wire_ops env wait (\<lambda>j. wire_Submit n env wait cx j)
        in if IsTripped (w_sp s2) then
             sp_Submit n ops (Some a)
               (emit (wire_notifySurgeProtectorSubmit (the_wire i s2) (w_sp s2) (Data (w_store s2 a))) s2)
           else
             let (ok, s3) = (if IsBeingRateLimited (w_sp s2) then sp_TryTake s2 else (True, s2)) in
             if \<not> ok then
               let (nxt, s4) = next_attempt s3
               in sp_Submit n ops (Some a) (emit (notifyRateLimit (the_wire i s4) d nxt) s4)
             else submitNormally cx i d s3
      else submitNormally cx i d s1)"

definition FastSubmit ::
  "nat \<Rightarrow> 'a gen_env \<Rightarrow> (nat \<Rightarrow> 'a world \<Rightarrow> 'a world) \<Rightarrow> ctx \<Rightarrow> nat \<Rightarrow> 'a \<Rightarrow> 'a world \<Rightarrow>
   (gerr option \<times> 'a world) option" where
  "FastSubmit fuel env wait cx i d s =
     (let w = the_wire i s in
      if CircuitBreaker w \<noteq> None \<or> wire_surgeProtector w \<or> insulatorFunc w \<noteq> None then
        wire_Submit fuel env wait cx i d s
      else if loggerCount w \<noteq> 0 \<or> sensorCount w \<noteq> 0 then wire_Submit fuel env wait cx i d s
      else enqueue_or_done cx i d (\<lambda>s1. s1) s)"

definition submitFromResisterQueue ::
  "nat \<Rightarrow> 'a gen_env \<Rightarrow> (nat \<Rightarrow> 'a world \<Rightarrow> 'a world) \<Rightarrow> ctx \<Rightarrow> nat \<Rightarrow> 'a \<Rightarrow> 'a world \<Rightarrow>
   (gerr option \<times> 'a world) option" where
  "submitFromResisterQueue fuel env wait cx i d s =
     (let (allowed, s1) = check_breaker i s in
      if \<not> allowed then handleCircuitBreakerTrip (\<lambda>cx' j. wire_Submit fuel env wait cx' j) cx i d s1
      else submitNormally cx i d s1)"

section \<open>Loops beside the workers\<close>

definition resisterQueueEmpty :: "nat \<Rightarrow> 'a world \<Rightarrow> bool" where
  "resisterQueueEmpty i s = (if \<not> wire_surgeProtector (the_wire i s) then True else GetResisterQueue s = 0)"

text \<open>The period of the ticker of \<^verbatim>\<open>runResisterLoop\<close>; \<open>None\<close> when there is nothing to run.\<close>

definition runResisterLoop_period :: "nat \<Rightarrow> 'a world \<Rightarrow> duration option" where
  "runResisterLoop_period i s =
     (if \<not> wire_surgeProtector (the_wire i s) then None
      else if \<not> IsBeingRateLimited (w_sp s) then Some time_Second
      else let (_, fillrate, _, _) = GetRateLimit (w_sp s) in
        if fillrate \<le> 0 then Some time_Second else Some fillrate)"

text \<open>One tick of \<^verbatim>\<open>drainResisterQueue\<close>: whether the loop goes on, and the state.\<close>

definition drainResisterQueue_tick ::
  "nat \<Rightarrow> 'a gen_env \<Rightarrow> (nat \<Rightarrow> 'a world \<Rightarrow> 'a world) \<Rightarrow> ctx \<Rightarrow> nat \<Rightarrow> 'a world \<Rightarrow> (bool \<times> 'a world) option" where
  "drainResisterQueue_tick fuel env wait cx i s =
     (if \<not> wire_surgeProtector (the_wire i s) then Some (False, s)
      else
        let (ok, s1) = sp_TryTake s in
        if \<not> ok then Some (\<not> resisterQueueEmpty i s1, s1)
        else case sp_Dequeue s1 of
          (Inl err, s2) \<Rightarrow> Some (\<not> resisterQueueEmpty i s2, s2)
        | (Inr a, s2) \<Rightarrow>
            map_option (\<lambda>(_, s3). (True, s3))
              (submitFromResisterQueue fuel env wait cx i (Data (w_store s2 a)) s2))"

text \<open>One tick of \<^verbatim>\<open>startCircuitBreakerTicker\<close>.\<close>

definition circuitBreakerTicker_tick :: "nat \<Rightarrow> 'a world \<Rightarrow> panic + 'a world" where
  "circuitBreakerTicker_tick i s =
     (let (allowed, s1) = check_breaker i s; w = the_wire i s1 in
      case chan_try_send allowed (wire_controlChan w) of
        Inl p \<Rightarrow> Inl p
      | Inr ch \<Rightarrow> Inr (put_wire i (w\<lparr>wire_controlChan := ch\<rparr>) s1))"

section \<open>Loading the output\<close>

text \<open>The non-blocking drain of \<^verbatim>\<open>LoadAsJSONArray\<close>, by the number of buffered values.\<close>

fun drain_output :: "nat \<Rightarrow> 'a gochan \<Rightarrow> 'a list \<Rightarrow> 'a list \<times> 'a gochan" where
  "drain_output 0 ch items = (items, ch)"
| "drain_output (Suc n) ch items =
     (case chan_recv ch of
        Received v ch' \<Rightarrow> drain_output n ch' (items @ [v])
      | _ \<Rightarrow> (items, ch))"

definition wire_LoadAsJSONArray ::
  "(nat \<Rightarrow> 'a world \<Rightarrow> 'a world) \<Rightarrow> ('a list \<Rightarrow> 'j) \<Rightarrow> 'j \<Rightarrow> nat \<Rightarrow> 'a world \<Rightarrow> panic + 'j \<times> 'a world" where
  "wire_LoadAsJSONArray wait marshal no_items i s =
     (case wire_Stop wait i s of
        Inl p \<Rightarrow> Inl p
      | Inr s1 \<Rightarrow>
        (case OutputChan (the_wire i s1) of
           None \<Rightarrow> Inr (no_items, s1)
         | Some c \<Rightarrow>
           let ch = ws_chans (w_ext s1) c; (items, ch') = drain_output (Suc (length (ch_buf ch))) ch []
           in Inr (marshal items, put_chan c ch' s1)))"

definition wire_Load ::
  "(nat \<Rightarrow> 'a world \<Rightarrow> 'a world) \<Rightarrow> nat \<Rightarrow> 'a world \<Rightarrow> panic + bytes \<times> 'a world" where
  "wire_Load wait i s =
     (case wire_Stop wait i s of
        Inl p \<Rightarrow> Inl p
      | Inr s1 \<Rightarrow>
        (case OutputBuffer (the_wire i s1) of
           None \<Rightarrow> Inl (Panic ''invalid memory address or nil pointer dereference'')
         | Some buf \<Rightarrow>
           Inr (buf, emit (success_log (the_wire i s1) ''Load'' [(''bytes'', LInt (int (length buf)))]) s1)))"

section \<open>Frame lemmas\<close>

lemma upd_ext_simps [simp]:
  "w_sp (upd_ext f s) = w_sp s" "w_res (upd_ext f s) = w_res s" "w_store (upd_ext f s) = w_store s"
  "w_seq (upd_ext f s) = w_seq s" "w_next (upd_ext f s) = w_next s" "w_clock (upd_ext f s) = w_clock s"
  "w_tick (upd_ext f s) = w_tick s" "w_trace (upd_ext f s) = w_trace s" "w_ext (upd_ext f s) = f (w_ext s)"
  by (simp_all add: upd_ext_def)

lemma the_wire_select [simp]:
  "the_wire i (upd_ext (\<lambda>e. e\<lparr>ws_select_tick := f e\<rparr>) s) = the_wire i s"
  by (simp add: the_wire_def)

lemma the_wire_new [simp]:
  "the_wire i (snd (new_chan n s)) = the_wire i s" "the_wire i (snd (new_echan n s)) = the_wire i s"
  "the_wire i (snd (new_ctx c s)) = the_wire i s"
  by (simp_all add: new_chan_def new_echan_def new_ctx_def the_wire_def)

lemmas put_defs = put_wire_def put_chan_def put_echan_def put_breaker_def

lemma select_case_Some:
  "select_case ready s = Some (c, s1) \<Longrightarrow>
   c \<in> set ready \<and> s1 = upd_ext (\<lambda>e. e\<lparr>ws_select_tick := Suc (ws_select_tick e)\<rparr>) s"
  by (auto simp: select_case_def dest: select_pick_mem)

lemma select_case_None [simp]: "select_case ready s = None \<longleftrightarrow> ready = []"
  by (simp add: select_case_def)

text \<open>Every way \<^verbatim>\<open>enqueue_or_done\<close> returns: the element is in the buffer, or a context is done.\<close>

lemma enqueue_or_done_Some:
  assumes "enqueue_or_done cx i d onSent s = Some (err, s')"
  obtains c ch s1 where "inChan (the_wire i s) = Some c" "chan_send d (ws_chans (w_ext s) c) = Sent ch"
      "s1 = upd_ext (\<lambda>e. e\<lparr>ws_select_tick := Suc (ws_select_tick e)\<rparr>) s"
      "err = None" "s' = onSent (put_chan c ch s1)"
  | "s' = upd_ext (\<lambda>e. e\<lparr>ws_select_tick := Suc (ws_select_tick e)\<rparr>) s" "err = Some CtxErr"
      "is_done cx s \<or> is_done (wire_ctx (the_wire i s)) s"
proof -
  let ?w = "the_wire i s"
  define sent where "sent = (case inChan ?w of None \<Rightarrow> SendBlocks | Some c \<Rightarrow> chan_send d (ws_chans (w_ext s) c))"
  define ready where "ready = (if sent = SendBlocks then [] else [CaseSend]) @
      (if is_done cx s then [CaseCtx] else []) @ (if is_done (wire_ctx ?w) s then [CaseWireCtx] else [])"
  obtain k s1 where sel: "select_case ready s = Some (k, s1)"
    using assms by (auto simp: enqueue_or_done_def Let_def ready_def sent_def split: option.splits)
  have s1: "k \<in> set ready" "s1 = upd_ext (\<lambda>e. e\<lparr>ws_select_tick := Suc (ws_select_tick e)\<rparr>) s"
    using select_case_Some [OF sel] by auto
  have canc: "ws_cancelled (w_ext s1) = ws_cancelled (w_ext s)" using s1(2) by simp
  have eq: "(case k of
      CaseSend \<Rightarrow> (case (inChan ?w, sent) of (Some c, Sent ch) \<Rightarrow> Some (None, onSent (put_chan c ch s1)) | _ \<Rightarrow> None)
    | CaseCtx \<Rightarrow> Some (ctx_Err (ws_cancelled (w_ext s1)) cx, s1)
    | CaseWireCtx \<Rightarrow> Some (ctx_Err (ws_cancelled (w_ext s1)) (wire_ctx ?w), s1)) = Some (err, s')"
    using assms sel unfolding enqueue_or_done_def Let_def ready_def sent_def
    by (auto split: submit_case.splits)
  show ?thesis
  proof (cases k)
    case CaseSend
    then obtain c ch where "inChan ?w = Some c" "sent = Sent ch" "err = None" "s' = onSent (put_chan c ch s1)"
      using eq by (auto split: option.splits send_result.splits)
    then show ?thesis using that(1) s1 by (auto simp: sent_def)
  next
    case CaseCtx
    then have "is_done cx s" using s1(1) by (auto simp: ready_def split: if_splits)
    then show ?thesis using that(2) eq CaseCtx s1 canc by (auto simp: ctx_Err_def is_done_def)
  next
    case CaseWireCtx
    then have "is_done (wire_ctx ?w) s" using s1(1) by (auto simp: ready_def split: if_splits)
    then show ?thesis using that(2) eq CaseWireCtx s1 canc by (auto simp: ctx_Err_def is_done_def)
  qed
qed

text \<open>With room in an open input channel the call returns.\<close>

lemma enqueue_or_done_returns:
  assumes "inChan (the_wire i s) = Some c" and "chan_send d (ws_chans (w_ext s) c) = Sent ch"
  shows "enqueue_or_done cx i d onSent s \<noteq> None"
proof -
  define rest where "rest = (if is_done cx s then [CaseCtx] else []) @
      (if is_done (wire_ctx (the_wire i s)) s then [CaseWireCtx] else [])"
  obtain k s1 where "select_case (CaseSend # rest) s = Some (k, s1)"
    by (cases "select_case (CaseSend # rest) s") auto
  then show ?thesis
    unfolding enqueue_or_done_def Let_def using assms by (cases k) (simp_all add: rest_def)
qed

section \<open>The submit methods agree\<close>

lemma FastSubmit_eq:
  "FastSubmit (Suc n) env wait cx i d s = wire_Submit (Suc n) env wait cx i d s"
proof (cases "CircuitBreaker (the_wire i s) \<noteq> None \<or> wire_surgeProtector (the_wire i s) \<or>
    insulatorFunc (the_wire i s) \<noteq> None \<or> loggerCount (the_wire i s) \<noteq> 0 \<or> sensorCount (the_wire i s) \<noteq> 0")
  case True
  then show ?thesis by (auto simp: FastSubmit_def Let_def)
next
  case False
  have quiet: "loggerCount (the_wire i s1) = 0 \<and> sensorCount (the_wire i s1) = 0"
    if "select_case ready s = Some (k, s1)" for ready :: "submit_case list" and k s1
    using select_case_Some [OF that] False by simp
  have same: "enqueue_or_done cx i d (\<lambda>s1. s1) s = submitNormally cx i d s"
    unfolding submitNormally_def enqueue_or_done_def Let_def
    by (intro option.case_cong prod.case_cong submit_case.case_cong send_result.case_cong refl)
      (auto dest!: quiet)
  show ?thesis using False same by (simp add: FastSubmit_def check_breaker_def Let_def)
qed


text \<open>
  \<^verbatim>\<open>FastSubmit\<close> is \<^verbatim>\<open>Submit\<close>: on every wire, configured or not, both give the same result
  and the same state, for the same choices of \<^verbatim>\<open>select\<close>.
\<close>

theorem FastSubmit_is_Submit:
  "FastSubmit (Suc n) env wait cx i d s = wire_Submit (Suc n) env wait cx i d s"
  by (rule FastSubmit_eq)

section \<open>Configuration\<close>

text \<open>A wire has a transformer factory or transformers, never both.\<close>

definition factory_xor :: "'a wire \<Rightarrow> bool" where
  "factory_xor w \<longleftrightarrow> transformerFactory w = None \<or> transformations w = []"

lemma if_not_started_Inr: "if_not_started action w r = Inr r' \<Longrightarrow> r' = r \<and> wire_started w \<noteq> 1"
  by (auto simp: if_not_started_def requireNotStarted_def split: if_splits)

lemma the_wire_cfg:
  "wire_cfg i f s = Inr s' \<Longrightarrow> \<exists>w es. f (the_wire i s) = Inr (w, es) \<and> the_wire i s' = w"
  by (auto simp: wire_cfg_def split: sum.splits)

definition gens_leave_wires :: "'a gen_env \<Rightarrow> bool" where
  "gens_leave_wires env \<longleftrightarrow>
     (\<forall>g r s i. the_wire i (gen_ConnectToComponent env g r s) = the_wire i s)"

lemma connect_generators_wire:
  "gens_leave_wires env \<Longrightarrow> the_wire i (connect_generators env j gs s) = the_wire i s"
  by (induction gs arbitrary: s) (simp_all add: gens_leave_wires_def Let_def)

lemma the_wire_upd_sp [simp]: "the_wire i (s\<lparr>w_sp := sp\<rparr>) = the_wire i s"
  by (simp add: the_wire_def)

lemma wire_cfg_xor:
  assumes "wire_cfg i f s = Inr s'" and "\<And>w es. f (the_wire i s) = Inr (w, es) \<Longrightarrow> factory_xor w"
  shows "factory_xor (the_wire i s')"
  using the_wire_cfg [OF assms(1)] assms(2) by blast

lemma apply_wire_option_xor:
  assumes env: "gens_leave_wires env" and xor: "factory_xor (the_wire i s)"
    and eq: "apply_wire_option env i opt s = Inr s'"
  shows "factory_xor (the_wire i s')"
proof (cases opt)
  case (W_WithTransformer ts)
  show ?thesis
    by (rule wire_cfg_xor [of i "ConnectTransformer ts" s])
      (use eq xor W_WithTransformer in \<open>auto simp: ConnectTransformer_def factory_xor_def Let_def
        split: option.splits if_splits\<close>)
next
  case (W_WithTransformerFactory f)
  show ?thesis
    by (rule wire_cfg_xor [of i "SetTransformerFactory f" s])
      (use eq xor W_WithTransformerFactory in \<open>auto simp: SetTransformerFactory_def factory_xor_def
        split: option.splits if_splits\<close>)
next
  case (W_WithGenerator gs)
  then show ?thesis using env xor eq
    by (auto simp: wire_ConnectGenerator_def factory_xor_def connect_generators_wire Let_def
      dest!: if_not_started_Inr split: if_splits)
next
  case (W_WithSurgeProtector p)
  then show ?thesis using xor eq
    by (auto simp: ConnectSurgeProtector_def factory_xor_def Let_def case_prod_beta dest!: if_not_started_Inr split: if_splits)
qed (use xor eq in \<open>auto simp: ConnectCircuitBreaker_def SetConcurrencyControl_def SetEncoder_def SetInsulator_def
      wire_ConnectLogger_def wire_ConnectSensor_def wire_SetComponentMetadata_def factory_xor_def Let_def
      elim!: wire_cfg_xor [unfolded factory_xor_def] dest!: if_not_started_Inr split: if_splits\<close>)

lemma apply_wire_options_xor:
  assumes "gens_leave_wires env"
  shows "factory_xor (the_wire i s) \<Longrightarrow> apply_wire_options env i os s = Inr s' \<Longrightarrow> factory_xor (the_wire i s')"
proof (induction os arbitrary: s)
  case (Cons opt os)
  show ?case
  proof (cases opt)
    case None
    with Cons show ?thesis by simp
  next
    case (Some o')
    with Cons.prems obtain s1 where "apply_wire_option env i o' s = Inr s1" "apply_wire_options env i os s1 = Inr s'"
      by (auto split: sum.splits)
    then show ?thesis using Cons.IH apply_wire_option_xor [OF assms Cons.prems(1)] by blast
  qed
qed simp

lemma default_chans_keeps:
  "transformerFactory (the_wire i (default_chans i s)) = transformerFactory (the_wire i s)"
  "transformations (the_wire i (default_chans i s)) = transformations (the_wire i s)"
  by (simp_all add: default_chans_def Let_def case_prod_beta)

text \<open>
  whatever options a wire is made with, it never has both a transformer factory and
  transformers, so the configuration check in \<^verbatim>\<open>Start\<close> cannot panic.
\<close>

theorem NewWire_config_never_panics:
  assumes "gens_leave_wires env" and "NewWire env hash procs i co options s = Inr s'"
  shows "\<exists>w. start_config (the_wire i s') = Inr w"
proof -
  have base: "factory_xor (NewWire_base hash procs c)" for c :: ctx
    by (simp add: factory_xor_def NewWire_base_def)
  obtain c s1 s2 where "apply_wire_options env i options (put_wire i (NewWire_base hash procs c) s1) = Inr s2"
    and eqs: "transformerFactory (the_wire i s') = transformerFactory (the_wire i s2)"
      "transformations (the_wire i s') = transformations (the_wire i s2)"
    using assms(2) by (auto simp: NewWire_def Let_def case_prod_beta default_chans_keeps split: sum.splits)
  then have "factory_xor (the_wire i s2)"
    using apply_wire_options_xor [OF assms(1)] base by force
  then have "factory_xor (the_wire i s')" using eqs by (simp add: factory_xor_def)
  then show ?thesis by (auto simp: start_config_def factory_xor_def Let_def)
qed

definition no_generators :: "'a gen_env" where
  "no_generators = \<lparr>sp_ctx = [], gen_IsStarted = (\<lambda>g s. True), gen_StartWith = (\<lambda>g c s. s),
     gen_ConnectToComponent = (\<lambda>g r s. s)\<rparr>"

lemma no_generators_ok [simp]: "gens_leave_wires no_generators"
  by (simp add: gens_leave_wires_def no_generators_def)

theorem NewWire_config_never_panics_witness:
  "\<exists>s' w. NewWire no_generators ''h'' 4 0 None [Some (W_WithTransformer [Some (\<lambda>x. (x, None))]), None]
     (empty_world (0::nat)) = Inr s' \<and> start_config (the_wire 0 s') = Inr w"
proof -
  obtain s' where s': "NewWire no_generators ''h'' 4 0 None [Some (W_WithTransformer [Some (\<lambda>x. (x, None))]), None]
     (empty_world (0::nat)) = Inr s'"
    by (simp add: NewWire_def new_ctx_def wire_cfg_def ConnectTransformer_def requireNotStarted_def NewWire_base_def Let_def)
  then show ?thesis using NewWire_config_never_panics [OF no_generators_ok s'] by blast
qed

section \<open>A tripped surge protector that manages its own wire\<close>

text \<open>
  The configuration \<^verbatim>\<open>ConnectSurgeProtector\<close> sets up: the wire's protector has the wire among
  its managed components, here as the first one it tries. The protector is tripped and has neither a
  backup nor a resister, and the wire has no breaker.
\<close>

definition tripped_self :: "nat \<Rightarrow> 'a world \<Rightarrow> bool" where
  "tripped_self i s \<longleftrightarrow>
     CircuitBreaker (the_wire i s) = None \<and> wire_surgeProtector (the_wire i s) \<and>
     sp_active (w_sp s) \<and> backupSystems (w_sp s) = [] \<and>
     (\<not> sp_has_resister (w_sp s) \<or> \<not> resisterEnabled (w_sp s)) \<and>
     (\<exists>m ms. managedComponents (w_sp s) = m # ms \<and> ref_id m = i)"

lemma new_element_simps [simp]:
  "w_sp (snd (new_element d s)) = w_sp s" "w_ext (snd (new_element d s)) = w_ext s"
  "w_res (snd (new_element d s)) = w_res s"
  "w_store (snd (new_element d s)) (fst (new_element d s)) = snd (NewElementFast (w_seq s) (w_clock s (w_tick s)) d)"
  "the_wire i (snd (new_element d s)) = the_wire i s"
  by (simp_all add: new_element_def read_clock_def case_prod_beta Let_def the_wire_def)

lemma tripped_self_Submit:
  "tripped_self i s \<Longrightarrow> wire_Submit fuel env wait cx i d s = None"
proof (induction fuel arbitrary: s d)
  case (Suc n)
  let ?s2 = "snd (new_element d s)" and ?a = "fst (new_element d s)"
  let ?s3 = "emit (wire_notifySurgeProtectorSubmit (the_wire i ?s2) (w_sp ?s2) (Data (w_store ?s2 ?a))) ?s2"
  have "tripped_self i ?s3" using Suc.prems by (simp add: tripped_self_def)
  then have "wire_Submit n env wait cx i (Data (w_store ?s3 ?a)) ?s3 = None" by (rule Suc.IH)
  moreover obtain m ms where "managedComponents (w_sp s) = m # ms" "ref_id m = i"
    using Suc.prems by (auto simp: tripped_self_def)
  ultimately have "sp_Submit n (wire_ops env wait (\<lambda>j. wire_Submit n env wait cx j)) (Some ?a) ?s3 = None"
    using Suc.prems
    by (auto simp: sp_Submit_def tripped_self_def IsResisterConnected_def submitToComponents_def wire_ops_def)
  then show ?case
    using Suc.prems by (simp add: tripped_self_def check_breaker_def IsTripped_def case_prod_beta Let_def)
qed simp

text \<open>
  C39: a wire without a breaker whose own protector is tripped, has neither backups nor an enabled resister
  and manages the wire as its first component never returns from \<^verbatim>\<open>Submit\<close>: it hands the element to the
  protector, which submits it to the wire again, without end; no amount of stack is enough.
\<close>

theorem tripped_Submit_never_returns:
  assumes "CircuitBreaker (the_wire i s) = None" and "wire_surgeProtector (the_wire i s)"
    and "sp_active (w_sp s)" and "backupSystems (w_sp s) = []"
    and "\<not> sp_has_resister (w_sp s) \<or> \<not> resisterEnabled (w_sp s)"
    and "managedComponents (w_sp s) = m # ms" and "ref_id m = i"
  shows "wire_Submit fuel env wait cx i d s = None"
  using assms by (intro tripped_self_Submit) (auto simp: tripped_self_def)

definition tripped_world :: "nat world" where
  "tripped_world =
     (let s = put_wire 0 (NewWire_base ''w'' 1 []) (empty_world 0) in
      case ConnectSurgeProtector True 0 s of
        Inr s' \<Rightarrow> s'\<lparr>w_sp := fst (sp_Trip (w_sp s') :: surge_protector \<times> nat effect list)\<rparr>
      | Inl p \<Rightarrow> s)"

theorem tripped_Submit_never_returns_witness:
  "wire_surgeProtector (the_wire 0 tripped_world) \<and> wire_Submit 1000 no_generators (\<lambda>i s. s) [] 0 7 tripped_world = None"
proof -
  have "tripped_self 0 tripped_world"
    by (simp add: tripped_world_def tripped_self_def ConnectSurgeProtector_def if_not_started_def
        requireNotStarted_def NewWire_base_def Let_def sp_Trip_def GetRateLimit_def sp_ConnectComponent_def
        wire_ref_def empty_world_def NewSurgeProtector_base_def emit_def upd_ext_def put_wire_def the_wire_def)
  then show ?thesis
    using tripped_Submit_never_returns [of 0 tripped_world _ _ 1000 no_generators "\<lambda>i s. s" "[]" 7] by (auto simp: tripped_self_def)
qed


section \<open>Stop, start again, restart\<close>

text \<open>
  A running wire: started, not terminated, its output and error channels open; a scope that
  has not been handed out is not cancelled.
\<close>

definition wire_running :: "nat \<Rightarrow> 'a world \<Rightarrow> bool" where
  "wire_running i s \<longleftrightarrow>
     (let w = the_wire i s in
      wire_started w = 1 \<and> \<not> terminateOnce w \<and> \<not> closeOutputChanOnce w \<and> \<not> closeErrorChanOnce w \<and>
      \<not> completeSignal_closed w \<and> wire_ctx w \<noteq> [] \<and> \<not> is_done (wire_ctx w) s \<and>
      (\<exists>c. OutputChan w = Some c \<and> \<not> ch_closed (ws_chans (w_ext s) c)) \<and>
      (\<exists>c. errorChan w = Some c \<and> \<not> ch_closed (ws_echans (w_ext s) c)) \<and>
      (\<forall>t \<in> set (wire_ctx w). t < ws_fresh (w_ext s)) \<and>
      (\<forall>t \<ge> ws_fresh (w_ext s). \<not> ws_cancelled (w_ext s) t))"

text \<open>
  What \<^verbatim>\<open>wg.Wait()\<close> promises: all goroutines of the wire have ended, and none of them changed
  the wire's fields (the output buffer apart), cancelled a context or closed a channel. The function is the
  state in which \<^verbatim>\<open>Wait\<close> has returned. It does return: \<open>cancelled_wire_shuts_down\<close> of \<open>Wire_System\<close> shows that
  the workers of a cancelled wire all leave.
\<close>

definition waits_for_workers :: "(nat \<Rightarrow> 'a world \<Rightarrow> 'a world) \<Rightarrow> bool" where
  "waits_for_workers wait \<longleftrightarrow> (\<forall>i s.
     (\<exists>buf. the_wire i (wait i s) = (the_wire i s)\<lparr>wire_wg := [], OutputBuffer := buf\<rparr>) \<and>
     ws_cancelled (w_ext (wait i s)) = ws_cancelled (w_ext s) \<and> ws_fresh (w_ext (wait i s)) = ws_fresh (w_ext s) \<and>
     (\<forall>c. ch_closed (ws_chans (w_ext (wait i s)) c) = ch_closed (ws_chans (w_ext s) c)) \<and>
     (\<forall>c. ch_closed (ws_echans (w_ext (wait i s)) c) = ch_closed (ws_echans (w_ext s) c)))"

definition end_goroutines :: "nat \<Rightarrow> 'a world \<Rightarrow> 'a world" where
  "end_goroutines i s = put_wire i ((the_wire i s)\<lparr>wire_wg := []\<rparr>) s"

lemma waits_end_goroutines [simp]: "waits_for_workers end_goroutines"
  unfolding waits_for_workers_def
proof (intro allI conjI)
  fix i and s :: "'a world"
  show "\<exists>buf. the_wire i (end_goroutines i s) = (the_wire i s)\<lparr>wire_wg := [], OutputBuffer := buf\<rparr>"
    by (rule exI [of _ "OutputBuffer (the_wire i s)"]) (simp add: end_goroutines_def)
qed (simp_all add: end_goroutines_def put_wire_def)

lemma w_ext_put [simp]:
  "w_ext (put_wire i w s) = (w_ext s)\<lparr>ws_wires := (ws_wires (w_ext s))(i := w)\<rparr>"
  "w_ext (put_chan c ch s) = (w_ext s)\<lparr>ws_chans := (ws_chans (w_ext s))(c := ch)\<rparr>"
  "w_ext (put_echan c ech s) = (w_ext s)\<lparr>ws_echans := (ws_echans (w_ext s))(c := ech)\<rparr>"
  "w_ext (put_breaker b cb s) = (w_ext s)\<lparr>ws_breakers := (ws_breakers (w_ext s))(b := cb)\<rparr>"
  by (simp_all add: put_defs)

lemma put_frame [simp]:
  "w_sp (put_wire i w s) = w_sp s" "w_sp (put_chan c ch s) = w_sp s"
  "w_sp (put_echan c ech s) = w_sp s" "w_sp (put_breaker b cb s) = w_sp s"
  "w_res (put_wire i w s) = w_res s" "w_res (put_chan c ch s) = w_res s"
  "w_res (put_echan c ech s) = w_res s" "w_res (put_breaker b cb s) = w_res s"
  "w_store (put_wire i w s) = w_store s" "w_store (put_chan c ch s) = w_store s"
  "w_store (put_echan c ech s) = w_store s" "w_store (put_breaker b cb s) = w_store s"
  "w_clock (put_wire i w s) = w_clock s" "w_clock (put_breaker b cb s) = w_clock s"
  "w_tick (put_wire i w s) = w_tick s" "w_tick (put_breaker b cb s) = w_tick s"
  "w_trace (put_wire i w s) = w_trace s" "w_trace (put_breaker b cb s) = w_trace s"
  by (simp_all add: put_defs)

lemma the_wire_cancel [simp]: "the_wire i (cancel_ctx c s) = the_wire i s"
  by (simp add: cancel_ctx_def the_wire_def split: list.split)

text \<open>The state \<^verbatim>\<open>Stop\<close> leaves, field by field.\<close>

definition wire_stopped :: "nat \<Rightarrow> 'a world \<Rightarrow> 'a world \<Rightarrow> bool" where
  "wire_stopped i s0 s \<longleftrightarrow>
     (\<exists>buf. the_wire i s = (the_wire i s0)\<lparr>wire_started := 0, terminateOnce := True, wire_isClosed := True,
        wire_wg := [], OutputBuffer := buf, closeOutputChanOnce := True, closeErrorChanOnce := True\<rparr>) \<and>
     is_done (wire_ctx (the_wire i s)) s \<and>
     (\<forall>c. OutputChan (the_wire i s) = Some c \<longrightarrow> ch_closed (ws_chans (w_ext s) c)) \<and>
     (\<forall>c. errorChan (the_wire i s) = Some c \<longrightarrow> ch_closed (ws_echans (w_ext s) c)) \<and>
     (\<forall>t \<ge> ws_fresh (w_ext s). \<not> ws_cancelled (w_ext s) t) \<and>
     (\<forall>t < ws_fresh (w_ext s). t \<noteq> hd (wire_ctx (the_wire i s0)) \<longrightarrow> ws_cancelled (w_ext s) t = ws_cancelled (w_ext s0) t) \<and>
     ws_fresh (w_ext s) = ws_fresh (w_ext s0)"

lemma wire_Stop_running:
  assumes run: "wire_running i s" and wait: "waits_for_workers wait"
  obtains s' where "wire_Stop wait i s = Inr s'" "wire_stopped i s s'"
proof -
  define s2 where "s2 = emit (wire_notifyStop ((the_wire i s)\<lparr>wire_started := 0\<rparr>))
      (put_wire i ((the_wire i s)\<lparr>wire_started := 0\<rparr>) s)"
  define s3 where "s3 = cancel_ctx (wire_ctx (the_wire i s))
      (put_wire i ((the_wire i s2)\<lparr>terminateOnce := True, wire_isClosed := True\<rparr>) s2)"
  obtain t base where cx: "wire_ctx (the_wire i s) = t # base"
    using run by (cases "wire_ctx (the_wire i s)") (auto simp: wire_running_def Let_def)
  obtain c e where ch: "OutputChan (the_wire i s) = Some c" "\<not> ch_closed (ws_chans (w_ext s) c)"
    "errorChan (the_wire i s) = Some e" "\<not> ch_closed (ws_echans (w_ext s) e)"
    using run by (auto simp: wire_running_def Let_def)
  obtain buf where w3: "the_wire i (wait i s3) = (the_wire i s3)\<lparr>wire_wg := [], OutputBuffer := buf\<rparr>"
    and ext: "ws_cancelled (w_ext (wait i s3)) = ws_cancelled (w_ext s3)"
      "ws_fresh (w_ext (wait i s3)) = ws_fresh (w_ext s3)"
      "\<And>c. ch_closed (ws_chans (w_ext (wait i s3)) c) = ch_closed (ws_chans (w_ext s3) c)"
      "\<And>c. ch_closed (ws_echans (w_ext (wait i s3)) c) = ch_closed (ws_echans (w_ext s3) c)"
    using wait unfolding waits_for_workers_def by blast
  have e3: "ws_cancelled (w_ext s3) = (ws_cancelled (w_ext s))(t := True)" "ws_fresh (w_ext s3) = ws_fresh (w_ext s)"
    "ws_chans (w_ext s3) = ws_chans (w_ext s)" "ws_echans (w_ext s3) = ws_echans (w_ext s)"
    by (simp_all add: s3_def s2_def cancel_ctx_def cx)
  have w3': "the_wire i s3 = (the_wire i s)\<lparr>wire_started := 0, terminateOnce := True, wire_isClosed := True\<rparr>"
    by (simp add: s3_def s2_def)
  have stop: "wire_Stop wait i s = (case close_output i (wait i s3) of Inl p \<Rightarrow> Inl p | Inr s4 \<Rightarrow> close_errors i s4)"
    using run w3 w3'
    by (simp add: wire_Stop_def wire_running_def Let_def terminate_def s3_def s2_def)
  show ?thesis
    using stop w3 w3' ext e3 ch cx run
    by (intro that) (auto simp: close_output_def close_errors_def chan_close_def wire_stopped_def is_done_def
        wire_running_def Let_def)
qed


text \<open>Without a factory and generators \<^verbatim>\<open>Start\<close> changes the wire's own fields and nothing else.\<close>

definition workers_of :: "'a goroutine list \<Rightarrow> nat" where
  "workers_of gs = length (filter (\<lambda>g. g \<noteq> ErrorHandler \<and> g \<noteq> ResisterLoop) gs)"

lemma start_workers_loop_plain:
  assumes "transformerFactory w = None"
  shows "\<exists>gs. start_workers_loop w k n = Inr gs \<and> workers_of gs = n"
proof (induction n arbitrary: k)
  case (Suc n)
  then obtain gs where "start_workers_loop w (Suc k) n = Inr gs" "workers_of gs = n" by blast
  with assms show ?case by (simp add: workers_of_def)
qed (simp add: workers_of_def)

text \<open>The chain \<^verbatim>\<open>Start\<close> leaves: that of the wire, or the identity when it has none.\<close>

definition started_chain :: "'a wire \<Rightarrow> 'a transformer list" where
  "started_chain w = (if transformations w = [] then [\<lambda>v. (v, None)] else transformations w)"

lemma wire_Start_plain:
  assumes "wire_started (the_wire i s) = 0" and "transformerFactory (the_wire i s) = None"
    and "wire_generators (the_wire i s) = []" and "wire_wg (the_wire i s) = []" and "\<not> is_done cx s"
  obtains s' ts fp ft wg where "wire_Start env (Some cx) i s = Inr (None, s')"
    "the_wire i s' = (the_wire i s)\<lparr>wire_started := 1, wire_wg := wg, transformations := ts,
       fastPathEnabled := fp, fastTransform := ft\<rparr>" "ts = started_chain (the_wire i s)"
    "workers_of wg = nat (max 1 (maxConcurrency (the_wire i s)))"
    "ws_chans (w_ext s') = ws_chans (w_ext s)" "ws_echans (w_ext s') = ws_echans (w_ext s)"
    "ws_cancelled (w_ext s') = ws_cancelled (w_ext s)" "ws_fresh (w_ext s') = ws_fresh (w_ext s)"
proof -
  let ?w = "the_wire i s"
  define s2 where "s2 = emit (wire_notifyStart (?w\<lparr>wire_started := 1\<rparr>)) (put_wire i (?w\<lparr>wire_started := 1\<rparr>) s)"
  define wg0 where "wg0 = [ErrorHandler :: 'a goroutine] @
      (if wire_surgeProtector ?w \<and> IsResisterConnected (w_sp s) then [ResisterLoop] else [])"
  define ts where "ts = started_chain ?w"
  have "\<exists>fp ft. start_config (?w\<lparr>wire_started := 1, wire_wg := wg0\<rparr>) =
      Inr (?w\<lparr>wire_started := 1, wire_wg := wg0, transformations := ts, fastPathEnabled := fp, fastTransform := ft\<rparr>)"
  proof -
    define fp where "fp = canUseFastPath (?w\<lparr>wire_started := 1, wire_wg := wg0, transformations := ts\<rparr>)"
    define ft where "ft = (if fp then Some (ts ! 0) else fastTransform ?w)"
    show ?thesis
      by (rule exI [of _ fp], rule exI [of _ ft])
        (use assms(2) in \<open>auto simp: start_config_def Let_def ts_def started_chain_def fp_def ft_def\<close>)
  qed
  then obtain fp ft where sc: "start_config (?w\<lparr>wire_started := 1, wire_wg := wg0\<rparr>) =
      Inr (?w\<lparr>wire_started := 1, wire_wg := wg0, transformations := ts, fastPathEnabled := fp, fastTransform := ft\<rparr>)"
    by blast
  define w3 where "w3 = ?w\<lparr>wire_started := 1, wire_wg := wg0, transformations := ts, fastPathEnabled := fp, fastTransform := ft\<rparr>"
  have w3: "maxConcurrency w3 = maxConcurrency ?w" "wire_wg w3 = wg0" "transformerFactory w3 = None"
    "wire_generators w3 = []"
    using assms(2,3) by (simp_all add: w3_def)
  obtain gs where gs: "start_workers_loop w3 0 (nat (max 1 (maxConcurrency ?w))) = Inr gs"
    "workers_of gs = nat (max 1 (maxConcurrency ?w))"
    using start_workers_loop_plain [OF w3(3), of 0] by auto
  have mx: "(if maxConcurrency ?w \<le> 0 then 1 else maxConcurrency ?w) = max 1 (maxConcurrency ?w)" by auto
  have sw: "startWorkers w3 = Inr (w3\<lparr>wire_wg := wg0 @ gs\<rparr>)"
    unfolding startWorkers_def Let_def w3 mx gs(1) by simp
  note sc = sc [folded w3_def]
  have "wire_Start env (Some cx) i s = Inr (None, put_wire i (w3\<lparr>wire_wg := wg0 @ gs\<rparr>) s2)"
    using assms sc sw w3
    by (cases "wire_surgeProtector ?w \<and> IsResisterConnected (w_sp s)")
      (auto simp: wire_Start_def Let_def ctx_Err_def is_done_def [symmetric] s2_def wg0_def)
  moreover have "workers_of (wg0 @ gs) = nat (max 1 (maxConcurrency ?w))"
    using gs(2) by (simp add: workers_of_def wg0_def)
  ultimately show ?thesis
    by (intro that [of "put_wire i (w3\<lparr>wire_wg := wg0 @ gs\<rparr>) s2" ft fp ts "wg0 @ gs"]) (simp_all add: s2_def w3_def ts_def)
qed

text \<open>
  \<^verbatim>\<open>Stop\<close> on a running wire returns without a panic once its goroutines have ended (that they do
  is a theorem of \<open>Wire_System\<close>): the wire is not started, its context is done, its output and error channels are closed; a second
  \<^verbatim>\<open>Stop\<close> does nothing.
\<close>

theorem Stop_terminates_wire:
  assumes "wire_running i s" and "waits_for_workers wait"
  shows "\<exists>s' c e. wire_Stop wait i s = Inr s' \<and> \<not> wire_IsStarted (the_wire i s') \<and>
     wire_wg (the_wire i s') = [] \<and> is_done (wire_ctx (the_wire i s')) s' \<and>
     OutputChan (the_wire i s') = Some c \<and> ch_closed (ws_chans (w_ext s') c) \<and>
     errorChan (the_wire i s') = Some e \<and> ch_closed (ws_echans (w_ext s') e) \<and>
     wire_Stop wait i s' = Inr s'"
proof -
  obtain s' where s': "wire_Stop wait i s = Inr s'" "wire_stopped i s s'"
    using wire_Stop_running [OF assms] by blast
  then show ?thesis
    using assms(1) by (auto simp: wire_stopped_def wire_running_def Let_def wire_IsStarted_def wire_Stop_def)
qed

definition running_world :: "nat world" where
  "running_world =
     upd_ext (\<lambda>e. e\<lparr>ws_fresh := 5, ws_chans := (\<lambda>c. make_chan 4), ws_echans := (\<lambda>c. make_chan 4)\<rparr>)
       (put_wire 0 ((NewWire_base ''w'' 2 [0])\<lparr>inChan := Some 1, OutputChan := Some 2, errorChan := Some 3,
          wire_started := 1, maxBufferSize := 4, OutputBuffer := Some []\<rparr>) (empty_world 0))"

lemma running_world_running: "wire_running 0 running_world"
  by (simp add: wire_running_def running_world_def the_wire_def NewWire_base_def is_done_def empty_world_def
      empty_wsys_def make_chan_def Let_def)

theorem Stop_terminates_wire_witness:
  "\<exists>s' c e. wire_Stop end_goroutines 0 running_world = Inr s' \<and> \<not> wire_IsStarted (the_wire 0 s') \<and>
     wire_wg (the_wire 0 s') = [] \<and> is_done (wire_ctx (the_wire 0 s')) s' \<and>
     OutputChan (the_wire 0 s') = Some c \<and> ch_closed (ws_chans (w_ext s') c) \<and>
     errorChan (the_wire 0 s') = Some e \<and> ch_closed (ws_echans (w_ext s') e) \<and>
     wire_Stop end_goroutines 0 s' = Inr s'"
  by (rule Stop_terminates_wire [OF running_world_running waits_end_goroutines])

text \<open>
  a wire that was stopped and is then started with \<^verbatim>\<open>Start\<close> (as the conduit's \<^verbatim>\<open>Restart\<close> and the
  surge protector's \<^verbatim>\<open>Reset\<close> do) reports itself started and has workers, but its context is
  still the cancelled one and its output channel is still closed: nothing passes through it.
\<close>

theorem Start_after_Stop_is_dead:
  assumes "wire_running i s" and "waits_for_workers wait" and "wire_Stop wait i s = Inr s1"
    and "transformerFactory (the_wire i s) = None" and "wire_generators (the_wire i s) = []"
    and "\<not> is_done cx s1"
  shows "\<exists>s2 c. wire_Start env (Some cx) i s1 = Inr (None, s2) \<and> wire_IsStarted (the_wire i s2) \<and>
     is_done (wire_ctx (the_wire i s2)) s2 \<and>
     OutputChan (the_wire i s2) = Some c \<and> ch_closed (ws_chans (w_ext s2) c)"
proof -
  have st: "wire_stopped i s s1"
    using wire_Stop_running [OF assms(1,2)] assms(3) by auto
  obtain buf where w1: "the_wire i s1 = (the_wire i s)\<lparr>wire_started := 0, terminateOnce := True, wire_isClosed := True,
        wire_wg := [], OutputBuffer := buf, closeOutputChanOnce := True, closeErrorChanOnce := True\<rparr>"
    using st by (auto simp: wire_stopped_def)
  have pre: "wire_started (the_wire i s1) = 0" "transformerFactory (the_wire i s1) = None"
    "wire_generators (the_wire i s1) = []" "wire_wg (the_wire i s1) = []" "\<not> is_done cx s1"
    using w1 assms by simp_all
  obtain s2 ts fp ft wg where s2: "wire_Start env (Some cx) i s1 = Inr (None, s2)"
    "the_wire i s2 = (the_wire i s1)\<lparr>wire_started := 1, wire_wg := wg, transformations := ts,
       fastPathEnabled := fp, fastTransform := ft\<rparr>"
    "ws_chans (w_ext s2) = ws_chans (w_ext s1)" "ws_cancelled (w_ext s2) = ws_cancelled (w_ext s1)"
    using wire_Start_plain [OF pre] by metis
  obtain c where "OutputChan (the_wire i s) = Some c" using assms(1) by (auto simp: wire_running_def Let_def)
  with s2 st w1 show ?thesis
    by (intro exI [of _ s2] exI [of _ c]) (simp add: wire_stopped_def wire_IsStarted_def is_done_def)
qed

theorem Start_after_Stop_is_dead_witness:
  "\<exists>s1 s2 c. wire_Stop end_goroutines 0 running_world = Inr s1 \<and>
     wire_Start no_generators (Some []) 0 s1 = Inr (None, s2) \<and> wire_IsStarted (the_wire 0 s2) \<and>
     is_done (wire_ctx (the_wire 0 s2)) s2 \<and>
     OutputChan (the_wire 0 s2) = Some c \<and> ch_closed (ws_chans (w_ext s2) c)"
proof -
  obtain s1 where s1: "wire_Stop end_goroutines 0 running_world = Inr s1"
    using wire_Stop_running [OF running_world_running waits_end_goroutines] by blast
  show ?thesis
    using Start_after_Stop_is_dead [OF running_world_running waits_end_goroutines s1, of "[]" no_generators] s1
    by (auto simp: running_world_def the_wire_def NewWire_base_def is_done_def)
qed


text \<open>Fresh channels in the three fields of the wire.\<close>

lemma renew_channels_fresh:
  assumes "wire_started (the_wire i s) \<noteq> 1"
  obtains s' where "renew_channels i s = Inr s'"
    "the_wire i s' = (the_wire i s)\<lparr>inChan := Some (ws_fresh (w_ext s)), OutputChan := Some (Suc (ws_fresh (w_ext s))),
        errorChan := Some (Suc (Suc (ws_fresh (w_ext s))))\<rparr>"
    "ws_chans (w_ext s') (ws_fresh (w_ext s)) = make_chan (nat (maxBufferSize (the_wire i s)))"
    "ws_chans (w_ext s') (Suc (ws_fresh (w_ext s))) = make_chan (nat (maxBufferSize (the_wire i s)))"
    "ws_echans (w_ext s') (Suc (Suc (ws_fresh (w_ext s)))) = make_chan (nat (maxBufferSize (the_wire i s)))"
    "ws_cancelled (w_ext s') = ws_cancelled (w_ext s)" "ws_fresh (w_ext s') = ws_fresh (w_ext s) + 3"
  using assms
  by (auto simp: renew_channels_def new_chan_def new_echan_def wire_cfg_def SetInputChannel_def SetOutputChannel_def
      SetErrorChannel_def if_not_started_def requireNotStarted_def Let_def the_wire_def intro!: that)


lemma wire_Restart_running:
  assumes "wire_running i s" and "waits_for_workers wait"
    and "transformerFactory (the_wire i s) = None" and "wire_generators (the_wire i s) = []"
    and "\<not> is_done cx s" and "hd (wire_ctx (the_wire i s)) \<notin> set cx"
    and "\<forall>t \<in> set cx. t < ws_fresh (w_ext s)"
  obtains s' c c' e where "wire_Restart env wait cx i s = Inr (None, s')" "wire_running i s'"
     "inChan (the_wire i s') = Some c" "ws_chans (w_ext s') c = make_chan (nat (maxBufferSize (the_wire i s)))"
     "OutputChan (the_wire i s') = Some c'" "ws_chans (w_ext s') c' = make_chan (nat (maxBufferSize (the_wire i s)))"
     "errorChan (the_wire i s') = Some e" "ws_echans (w_ext s') e = make_chan (nat (maxBufferSize (the_wire i s)))"
     "workers_of (wire_wg (the_wire i s')) = nat (max 1 (maxConcurrency (the_wire i s)))"
     "c \<noteq> c'" "transformations (the_wire i s') = started_chain (the_wire i s)"
     "CircuitBreaker (the_wire i s') = CircuitBreaker (the_wire i s)" "insulatorFunc (the_wire i s') = insulatorFunc (the_wire i s)"
     "wire_encoder (the_wire i s') = wire_encoder (the_wire i s)"
proof -
  obtain s1 where s1: "wire_Stop wait i s = Inr s1" and st: "wire_stopped i s s1"
    using wire_Stop_running [OF assms(1,2)] by blast
  obtain buf where w1: "the_wire i s1 = (the_wire i s)\<lparr>wire_started := 0, terminateOnce := True, wire_isClosed := True,
        wire_wg := [], OutputBuffer := buf, closeOutputChanOnce := True, closeErrorChanOnce := True\<rparr>"
    using st by (auto simp: wire_stopped_def)
  have canc: "ws_cancelled (w_ext s1) t = ws_cancelled (w_ext s) t" if "t \<in> set cx" for t
  proof -
    have "t \<noteq> hd (wire_ctx (the_wire i s))" "t < ws_fresh (w_ext s1)"
      using assms(6,7) st that by (auto simp: wire_stopped_def)
    then show ?thesis using st by (simp add: wire_stopped_def)
  qed
  let ?c = "ws_fresh (w_ext s1) # cx"
  define s2 where "s2 = snd (new_ctx cx s1)"
  have nc: "new_ctx cx s1 = (?c, s2)" "the_wire i s2 = the_wire i s1"
    by (simp_all add: s2_def new_ctx_def WithCancel_def the_wire_def)
  define s3 where "s3 = put_wire i (renew_onces ((the_wire i s2)\<lparr>wire_ctx := ?c\<rparr>)) s2"
  have nd: "ctx_Done (ws_cancelled (w_ext s1)) ?c = False"
    using st assms(5) canc by (auto simp: wire_stopped_def is_done_def ctx_Done_def list_ex_iff)
  have w3: "the_wire i s3 = renew_onces ((the_wire i s1)\<lparr>wire_ctx := ?c\<rparr>)"
    "ws_fresh (w_ext s3) = Suc (ws_fresh (w_ext s1))" "ws_cancelled (w_ext s3) = ws_cancelled (w_ext s1)"
    using nc(2) by (simp_all add: s3_def s2_def new_ctx_def)
  have ns: "wire_started (the_wire i s3) \<noteq> 1" using w1 w3 by (simp add: renew_onces_def)
  obtain s4 where s4: "renew_channels i s3 = Inr s4"
    "the_wire i s4 = (the_wire i s3)\<lparr>inChan := Some (ws_fresh (w_ext s3)), OutputChan := Some (Suc (ws_fresh (w_ext s3))),
        errorChan := Some (Suc (Suc (ws_fresh (w_ext s3))))\<rparr>"
    "ws_chans (w_ext s4) (ws_fresh (w_ext s3)) = make_chan (nat (maxBufferSize (the_wire i s3)))"
    "ws_chans (w_ext s4) (Suc (ws_fresh (w_ext s3))) = make_chan (nat (maxBufferSize (the_wire i s3)))"
    "ws_echans (w_ext s4) (Suc (Suc (ws_fresh (w_ext s3)))) = make_chan (nat (maxBufferSize (the_wire i s3)))"
    "ws_cancelled (w_ext s4) = ws_cancelled (w_ext s3)" "ws_fresh (w_ext s4) = ws_fresh (w_ext s3) + 3"
    using renew_channels_fresh [OF ns] by metis
  define k where "k = (if CircuitBreaker (the_wire i s4) \<noteq> None then Suc (breaker_tickers (the_wire i s4))
      else breaker_tickers (the_wire i s4))"
  define s5 where "s5 = put_wire i ((the_wire i s4)\<lparr>OutputBuffer := Some [], breaker_tickers := k\<rparr>) s4"
  have w5: "the_wire i s5 = (the_wire i s4)\<lparr>OutputBuffer := Some [], breaker_tickers := k\<rparr>"
    "ws_chans (w_ext s5) = ws_chans (w_ext s4)" "ws_echans (w_ext s5) = ws_echans (w_ext s4)"
    "ws_cancelled (w_ext s5) = ws_cancelled (w_ext s4)" "ws_fresh (w_ext s5) = ws_fresh (w_ext s4)"
    by (simp_all add: s5_def)
  have pre: "wire_started (the_wire i s5) = 0" "transformerFactory (the_wire i s5) = None"
    "wire_generators (the_wire i s5) = []" "wire_wg (the_wire i s5) = []" "\<not> is_done ?c s5"
    using w5 s4 w3 w1 assms(3,4) nd by (simp_all add: renew_onces_def is_done_def)
  obtain s6 ts fp ft wg where s6: "wire_Start env (Some ?c) i s5 = Inr (None, s6)"
    "the_wire i s6 = (the_wire i s5)\<lparr>wire_started := 1, wire_wg := wg, transformations := ts,
       fastPathEnabled := fp, fastTransform := ft\<rparr>" "ts = started_chain (the_wire i s5)"
    "workers_of wg = nat (max 1 (maxConcurrency (the_wire i s5)))"
    "ws_chans (w_ext s6) = ws_chans (w_ext s5)" "ws_echans (w_ext s6) = ws_echans (w_ext s5)"
    "ws_cancelled (w_ext s6) = ws_cancelled (w_ext s5)" "ws_fresh (w_ext s6) = ws_fresh (w_ext s5)"
    using wire_Start_plain [OF pre] by metis
  have "wire_Restart env wait cx i s = Inr (None, s6)"
  proof -
    have "wire_ctx (the_wire i s4) = ?c" using s4(2) w3(1) by (simp add: renew_onces_def)
    then show ?thesis
      using s6(1) s4(1) unfolding wire_Restart_def s1 sum.case nc(1) prod.case Let_def s3_def [symmetric]
      by (simp add: s5_def k_def)
  qed
  moreover have "wire_running i s6"
    using s6 w5 s4 w3 w1 st nd assms(1,7)
    by (auto simp: wire_running_def wire_stopped_def renew_onces_def is_done_def make_chan_def Let_def)
  ultimately show thesis
    using s6 w5 s4 w3 w1
    by (intro that [of s6 "ws_fresh (w_ext s3)" "Suc (ws_fresh (w_ext s3))" "Suc (Suc (ws_fresh (w_ext s3)))"])
      (simp_all add: renew_onces_def started_chain_def)
qed

text \<open>
  \<^verbatim>\<open>Restart\<close> brings a running wire back: it is running again, under a context that is not
  done, with empty input, output and error channels of the configured size and one worker
  per unit of concurrency.
\<close>

theorem Restart_revives_wire:
  assumes "wire_running i s" and "waits_for_workers wait"
    and "transformerFactory (the_wire i s) = None" and "wire_generators (the_wire i s) = []"
    and "\<not> is_done cx s" and "hd (wire_ctx (the_wire i s)) \<notin> set cx"
    and "\<forall>t \<in> set cx. t < ws_fresh (w_ext s)"
  shows "\<exists>s' c c'. wire_Restart env wait cx i s = Inr (None, s') \<and> wire_running i s' \<and>
     inChan (the_wire i s') = Some c \<and> ws_chans (w_ext s') c = make_chan (nat (maxBufferSize (the_wire i s))) \<and>
     OutputChan (the_wire i s') = Some c' \<and> ws_chans (w_ext s') c' = make_chan (nat (maxBufferSize (the_wire i s))) \<and>
     workers_of (wire_wg (the_wire i s')) = nat (max 1 (maxConcurrency (the_wire i s)))"
  using wire_Restart_running [OF assms, of env] by metis

theorem Restart_revives_wire_witness:
  "\<exists>s' c c'. wire_Restart no_generators end_goroutines [] 0 running_world = Inr (None, s') \<and> wire_running 0 s' \<and>
     inChan (the_wire 0 s') = Some c \<and> ws_chans (w_ext s') c = make_chan (nat (maxBufferSize (the_wire 0 running_world))) \<and>
     OutputChan (the_wire 0 s') = Some c' \<and> ws_chans (w_ext s') c' = make_chan (nat (maxBufferSize (the_wire 0 running_world))) \<and>
     workers_of (wire_wg (the_wire 0 s')) = nat (max 1 (maxConcurrency (the_wire 0 running_world)))"
  by (rule Restart_revives_wire [OF running_world_running waits_end_goroutines])
    (simp_all add: running_world_def the_wire_def NewWire_base_def is_done_def)


section \<open>A wire behind a surge protector\<close>

text \<open>What has been accepted and not yet taken by a worker, and how much more fits.\<close>

definition delivered_in :: "nat \<Rightarrow> 'a wsys \<Rightarrow> 'a multiset" where
  "delivered_in i e = (case inChan (ws_wires e i) of None \<Rightarrow> {#} | Some c \<Rightarrow> mset (ch_buf (ws_chans e c)))"

definition room_in :: "nat \<Rightarrow> 'a wsys \<Rightarrow> nat" where
  "room_in i e =
     (case inChan (ws_wires e i) of
        None \<Rightarrow> 0
      | Some c \<Rightarrow> if ch_closed (ws_chans e c) then 0 else ch_cap (ws_chans e c) - length (ch_buf (ws_chans e c)))"

text \<open>A wire that neither a breaker nor a protector of its own keeps from taking what is submitted.\<close>

definition unguarded :: "'a wire \<Rightarrow> bool" where
  "unguarded w \<longleftrightarrow> CircuitBreaker w = None \<and> \<not> wire_surgeProtector w"

definition unguarded_room :: "nat \<Rightarrow> 'a wsys \<Rightarrow> nat" where
  "unguarded_room i e = (if unguarded (ws_wires e i) then room_in i e else 0)"

lemma select_tick_in [simp]:
  "room_in i (e\<lparr>ws_select_tick := n\<rparr>) = room_in i e" "delivered_in i (e\<lparr>ws_select_tick := n\<rparr>) = delivered_in i e"
  "unguarded_room i (e\<lparr>ws_select_tick := n\<rparr>) = unguarded_room i e"
  by (auto simp: room_in_def delivered_in_def unguarded_room_def split: option.split)

lemma submitNormally_sink:
  assumes room: "0 < room_in i (w_ext s)"
  shows "\<exists>err s'. submitNormally cx i d s = Some (err, s') \<and> w_sp s' = w_sp s \<and> w_res s' = w_res s \<and>
      w_store s' = w_store s \<and> room_in i (w_ext s) \<le> Suc (room_in i (w_ext s')) \<and>
      the_wire i s' = the_wire i s \<and>
      delivered_in i (w_ext s') =
        (if err = None then add_mset d (delivered_in i (w_ext s)) else delivered_in i (w_ext s))"
proof -
  obtain c where c: "inChan (the_wire i s) = Some c" "\<not> ch_closed (ws_chans (w_ext s) c)"
    "length (ch_buf (ws_chans (w_ext s) c)) < ch_cap (ws_chans (w_ext s) c)"
    using room by (auto simp: room_in_def the_wire_def split: option.splits if_splits)
  then obtain ch where send: "chan_send d (ws_chans (w_ext s) c) = Sent ch" by (simp add: chan_send_def)
  obtain err s' where eq: "submitNormally cx i d s = Some (err, s')"
    using enqueue_or_done_returns [OF c(1) send] unfolding submitNormally_def by fastforce
  show ?thesis
  proof (rule exI [of _ err], rule exI [of _ s'], rule conjI [OF eq])
    show "w_sp s' = w_sp s \<and> w_res s' = w_res s \<and> w_store s' = w_store s \<and>
      room_in i (w_ext s) \<le> Suc (room_in i (w_ext s')) \<and> the_wire i s' = the_wire i s \<and> delivered_in i (w_ext s') =
        (if err = None then add_mset d (delivered_in i (w_ext s)) else delivered_in i (w_ext s))"
      using eq unfolding submitNormally_def
    proof (cases rule: enqueue_or_done_Some)
      case (1 c' ch' s1)
      then show ?thesis using c send
        by (auto simp: Let_def room_in_def delivered_in_def the_wire_def chan_send_def)
    next
      case 2
      then show ?thesis by auto
    qed
  qed
qed

interpretation wire_sink: component_sink
  "wire_ops env wait (\<lambda>j. wire_Submit (Suc n) env wait cx j)" i "delivered_in i" "unguarded_room i"
  for env wait n cx i
proof unfold_locales
  fix s :: "'a world" and d
  assume "0 < unguarded_room i (w_ext s)"
  then have plain: "CircuitBreaker (the_wire i s) = None" "\<not> wire_surgeProtector (the_wire i s)"
    and room: "0 < room_in i (w_ext s)"
    by (auto simp: unguarded_room_def unguarded_def the_wire_def split: if_splits)
  then have "comp_Submit (wire_ops env wait (\<lambda>j. wire_Submit (Suc n) env wait cx j)) i d s = submitNormally cx i d s"
    by (simp add: wire_ops_def check_breaker_def)
  moreover obtain err s' where r: "submitNormally cx i d s = Some (err, s')" "w_sp s' = w_sp s" "w_res s' = w_res s"
    "w_store s' = w_store s" "room_in i (w_ext s) \<le> Suc (room_in i (w_ext s'))" "the_wire i s' = the_wire i s"
    "delivered_in i (w_ext s') = (if err = None then add_mset d (delivered_in i (w_ext s)) else delivered_in i (w_ext s))"
    using submitNormally_sink [OF room, of cx d] by blast
  moreover have "unguarded_room i (w_ext s) \<le> Suc (unguarded_room i (w_ext s'))"
    using r(5,6) by (simp add: unguarded_room_def the_wire_def)
  ultimately show "\<exists>err s'. comp_Submit (wire_ops env wait (\<lambda>j. wire_Submit (Suc n) env wait cx j)) i d s = Some (err, s') \<and>
      w_sp s' = w_sp s \<and> w_res s' = w_res s \<and> w_store s' = w_store s \<and>
      unguarded_room i (w_ext s) \<le> Suc (unguarded_room i (w_ext s')) \<and>
      delivered_in i (w_ext s') =
        (if err = None then add_mset d (delivered_in i (w_ext s)) else delivered_in i (w_ext s))"
    by (intro exI [of _ err] exI [of _ s']) simp
qed

text \<open>
  C3: a surge protector with a resister in front of a wire neither loses nor duplicates data. The protector
  has no backups, its resister is enabled, and it manages one wire, which has no breaker and no protector of
  its own (an open breaker would drop what it is given). If the wire's input channel has room for what
  waits in the resister and one more, then \<^verbatim>\<open>Submit\<close> returns; with no error, what waits in the resister and in the wire's input
  channel afterwards is what was there before plus the submitted datum, whether it was
  passed on, drained or queued; with an error, exactly what was there before, the element
  that could not be passed on being queued again.
\<close>

theorem surge_protected_Submit_conserves:
  assumes "world_inv s" and "map ref_id (managedComponents (w_sp s)) = [i]" and "backupSystems (w_sp s) = []"
    and "sp_has_resister (w_sp s)" and "resisterEnabled (w_sp s)"
    and "indexByID (w_res s) (elem_ID (w_store s a)) = None"
    and "CircuitBreaker (the_wire i s) = None" and "\<not> wire_surgeProtector (the_wire i s)"
    and "res_Len (w_res s) < fuel" and "res_Len (w_res s) < room_in i (w_ext s)"
  shows "\<exists>err s'. sp_Submit fuel (wire_ops env wait (\<lambda>j. wire_Submit (Suc n) env wait cx j)) (Some a) s = Some (err, s') \<and>
    world_inv s' \<and>
    delivered_in i (w_ext s') + queued s' =
      (if err = None then add_mset (Data (w_store s a)) (delivered_in i (w_ext s) + queued s)
       else delivered_in i (w_ext s) + queued s)"
proof -
  have "res_Len (w_res s) < unguarded_room i (w_ext s)"
    using assms(7,8,10) by (simp add: unguarded_room_def unguarded_def the_wire_def)
  from wire_sink.Submit_conserves [OF assms(1,2,3,6,9) this assms(4,5), of env wait n cx]
  show ?thesis unfolding wire_sink.accounted_def .
qed

definition protected_world :: "nat world" where
  "protected_world =
     (running_world\<lparr>w_sp := (SetRateLimit 1 10 3 (NewSurgeProtector_base ''sp''))
        \<lparr>managedComponents := [\<lparr>ref_id = 0, ref_metadata = empty_metadata\<rparr>], sp_has_resister := True, resisterEnabled := True\<rparr>\<rparr>)"

theorem surge_protected_Submit_conserves_witness:
  "\<exists>err s'. sp_Submit 1 (wire_ops no_generators end_goroutines (\<lambda>j. wire_Submit 1 no_generators end_goroutines [] j))
      (Some 0) protected_world = Some (err, s') \<and> world_inv s' \<and>
    delivered_in 0 (w_ext s') + queued s' =
      (if err = None then add_mset 0 (delivered_in 0 (w_ext protected_world) + queued protected_world)
       else delivered_in 0 (w_ext protected_world) + queued protected_world)"
proof -
  have pw: "w_res protected_world = NewResister_base ''''" "w_store protected_world a = w_store (empty_world 0) a" for a
    by (simp_all add: protected_world_def running_world_def) (simp_all add: empty_world_def)
  have "world_inv protected_world"
    unfolding world_inv_def pw(1) by (simp add: res_inv_def index_ok_def is_heap_def heap_from_def NewResister_base_def)
  moreover have "room_in 0 (w_ext protected_world) = 4"
    by (simp add: protected_world_def running_world_def room_in_def NewWire_base_def make_chan_def)
  moreover have "map ref_id (managedComponents (w_sp protected_world)) = [0]" "backupSystems (w_sp protected_world) = []"
    "sp_has_resister (w_sp protected_world)" "resisterEnabled (w_sp protected_world)"
    by (simp_all add: protected_world_def SetRateLimit_def NewSurgeProtector_base_def)
  moreover have "Data (w_store protected_world 0) = 0" "res_Len (w_res protected_world) = 0"
    "indexByID (w_res protected_world) x = None" for x
    using pw by (simp_all add: NewResister_base_def res_Len_def empty_world_def)
  moreover have "CircuitBreaker (the_wire 0 protected_world) = None" "\<not> wire_surgeProtector (the_wire 0 protected_world)"
    by (simp_all add: protected_world_def running_world_def the_wire_def NewWire_base_def)
  ultimately show ?thesis
    using surge_protected_Submit_conserves [of protected_world 0 0 1 no_generators end_goroutines 0 "[]"]
    unfolding One_nat_def by (metis less_Suc_eq zero_less_numeral)
qed


section \<open>An open breaker\<close>

text \<open>
  while the wire's breaker is open and has no neutral wires, \<^verbatim>\<open>Submit\<close> reports success and
  drops the element: nothing enters any channel, the breaker stays open, and the drop is
  visible in the telemetry only.
\<close>

theorem open_breaker_drops_element:
  fixes s :: "'a world"
  assumes "CircuitBreaker (the_wire i s) = Some b" and "\<not> cb_allowed (breakers s b)"
    and "\<not> window_over (w_clock s (w_tick s)) (breakers s b)" and "neutralWires (breakers s b) = []"
  shows "\<exists>s'. wire_Submit (Suc n) env wait cx i d s = Some (None, s') \<and>
    ws_chans (w_ext s') = ws_chans (w_ext s) \<and> breakers s' = breakers s \<and>
    w_trace s' = w_trace s @ notifyCircuitBreakerDropElement (the_wire i s) d"
proof -
  let ?now = "w_clock s (w_tick s)" and ?cb = "breakers s b"
  have allow: "cb_Allow ?now ?cb = (False, ?cb, [] :: 'a effect list)"
    using assms(2,3) by (simp add: cb_Allow_def window_over_def)
  define s1 where "s1 = put_breaker b ?cb (s\<lparr>w_tick := Suc (w_tick s)\<rparr>)"
  have cb: "check_breaker i s = (False, s1)"
    using assms(1) allow
    by (simp add: check_breaker_def Allow_of_def read_clock_def breakers_def s1_def emit_def)
  have s1: "the_wire i s1 = the_wire i s" "breakers s1 = breakers s" "ws_chans (w_ext s1) = ws_chans (w_ext s)"
    "w_trace s1 = w_trace s"
    by (simp_all add: s1_def breakers_def put_breaker_def upd_ext_def the_wire_def)
  then show ?thesis
    using assms(1,4) cb
    by (simp add: handleCircuitBreakerTrip_def cb_GetNeutralWires_def breakers_def [symmetric])
qed

definition open_breaker_world :: "nat world" where
  "open_breaker_world =
     put_breaker 7 ((NewCircuitBreaker_base ''cb'' 1 100)\<lparr>cb_allowed := False, lastTripped := 1\<rparr>)
       (put_wire 0 ((the_wire 0 running_world)\<lparr>CircuitBreaker := Some 7\<rparr>) running_world)"

theorem open_breaker_drops_element_witness:
  "\<exists>s'. wire_Submit 1 no_generators end_goroutines [] 0 5 open_breaker_world = Some (None, s') \<and>
    ws_chans (w_ext s') = ws_chans (w_ext open_breaker_world) \<and> breakers s' = breakers open_breaker_world \<and>
    w_trace s' = w_trace open_breaker_world @ notifyCircuitBreakerDropElement (the_wire 0 open_breaker_world) 5"
proof -
  have "CircuitBreaker (the_wire 0 open_breaker_world) = Some 7" "\<not> cb_allowed (breakers open_breaker_world 7)"
    "\<not> window_over (w_clock open_breaker_world (w_tick open_breaker_world)) (breakers open_breaker_world 7)"
    "neutralWires (breakers open_breaker_world 7) = []"
    by (simp_all add: open_breaker_world_def running_world_def breakers_def window_over_def NewCircuitBreaker_base_def
        time_Sub_def) (simp_all add: empty_world_def)
  from open_breaker_drops_element [OF this, of 0 no_generators end_goroutines "[]" 5]
  show ?thesis by simp
qed

section \<open>A wire with its own rate-limited protector\<close>

lemma TryTake_empty:
  assumes "rateLimited sp" and "tokens sp \<le> 0" and "nextRefill sp \<noteq> 0" and "now < nextRefill sp"
  shows "TryTake now sp = (False, sp)"
  using assms by (simp add: TryTake_cases refill_due_def Let_def)

definition bucket_dry :: "'a world \<Rightarrow> bool" where
  "bucket_dry s \<longleftrightarrow> rateLimited (w_sp s) \<and> tokens (w_sp s) \<le> 0 \<and> nextRefill (w_sp s) \<noteq> 0 \<and>
     (\<forall>k \<ge> w_tick s. w_clock s k < nextRefill (w_sp s))"

lemma sp_TryTake_dry:
  "bucket_dry s \<Longrightarrow> sp_TryTake s = (False, s\<lparr>w_tick := Suc (w_tick s)\<rparr>) \<and> bucket_dry (s\<lparr>w_tick := Suc (w_tick s)\<rparr>)"
  by (auto simp: bucket_dry_def sp_TryTake_def read_clock_def IsBeingRateLimited_def TryTake_empty)

text \<open>
  a wire whose own protector has a resister and no token left queues what is submitted:
  \<^verbatim>\<open>Submit\<close> returns no error, the datum is in the resister, which keeps its invariant, and no
  channel has changed.
\<close>

theorem rate_limited_Submit_queues:
  assumes "CircuitBreaker (the_wire i s) = None" and "wire_surgeProtector (the_wire i s)"
    and "\<not> sp_active (w_sp s)" and "backupSystems (w_sp s) = []" and "sp_has_resister (w_sp s)"
    and "resisterEnabled (w_sp s)" and "world_inv s" and "bucket_dry s"
    and "w_next s \<notin> set (res_queue (w_res s))" and "indexByID (w_res s) (FormatUint36 (next_seq (w_seq s))) = None"
  shows "\<exists>s'. wire_Submit (Suc (Suc n)) env wait cx i d s = Some (None, s') \<and>
    queued s' = add_mset d (queued s) \<and> world_inv s' \<and> ws_chans (w_ext s') = ws_chans (w_ext s)"
proof -
  let ?ops = "wire_ops env wait (\<lambda>j. wire_Submit (Suc n) env wait cx j)"
  obtain a s2 where ne: "new_element d s = (a, s2)" by fastforce
  have a: "a = w_next s" "w_store s2 a = snd (NewElementFast (w_seq s) (w_clock s (w_tick s)) d)"
    "s2 = s\<lparr>w_tick := Suc (w_tick s), w_seq := next_seq (w_seq s), w_next := Suc (w_next s),
            w_store := (w_store s)(a := w_store s2 a)\<rparr>"
    using ne by (auto simp: new_element_def read_clock_def NewElementFast_def Let_def)
  have inv2: "world_inv s2" "queued s2 = queued s" "bucket_dry s2" "w_ext s2 = w_ext s" "w_sp s2 = w_sp s"
    "w_res s2 = w_res s"
    using touch_unqueued [OF assms(7), of a "w_store s2 a"] assms(8,9) a(1)
    by (subst a(3), force simp: world_inv_def queued_def bucket_dry_def)+
  define s3 where "s3 = s2\<lparr>w_tick := Suc (w_tick s2)\<rparr>"
  have t2: "sp_TryTake s2 = (False, s3)" "bucket_dry s3" using sp_TryTake_dry [OF inv2(3)] by (simp_all add: s3_def)
  obtain nxt s4 where na: "next_attempt s3 = (nxt, s4)" by fastforce
  then have s4: "s4 = s3\<lparr>w_tick := w_tick s3 + 2\<rparr>"
    using t2(2) by (auto simp: next_attempt_def read_clock_def Let_def bucket_dry_def IsBeingRateLimited_def time_defs)
  define s5 where "s5 = emit (notifyRateLimit (the_wire i s4) d nxt) s4"
  have d5: "bucket_dry s5" using t2(2) by (auto simp: s5_def s4 bucket_dry_def)
  define s6 where "s6 = s5\<lparr>w_tick := Suc (w_tick s5)\<rparr>"
  have t5: "sp_TryTake s5 = (False, s6)" "bucket_dry s6" using sp_TryTake_dry [OF d5] by (simp_all add: s6_def)
  obtain s7 where dr: "sp_drain (Suc n) ?ops s5 = Some (None, s7)" "s7 = s6 \<or> s7 = s5"
    using t5(1) by (cases "0 < res_Len (w_res s5)") auto
  define s8 where "s8 = s7\<lparr>w_tick := Suc (w_tick s7)\<rparr>"
  have t7: "sp_TryTake s7 = (False, s8)" using dr(2) d5 t5(2) sp_TryTake_dry by (auto simp: s8_def)
  have s8: "w_store s8 = w_store s2" "w_res s8 = w_res s2" "w_ext s8 = w_ext s2" "w_sp s8 = w_sp s2"
    using dr(2) by (auto simp: s8_def s6_def s5_def s4 s3_def)
  have inv8: "world_inv s8" "queued s8 = queued s" using inv2 s8 by (simp_all add: world_inv_def queued_def)
  have new: "indexByID (w_res s8) (elem_ID (w_store s8 a)) = None"
    using assms(10) s8 a(2) inv2(6) by (simp add: NewElementFast_def Let_def)
  obtain s9 where push: "w_Push (Some a) s8 = (None, s9)" "world_inv s9" "w_store s9 = w_store s8"
    "queued s9 = add_mset (Data (w_store s8 a)) (queued s8)" "w_ext s9 = w_ext s8"
    using w_Push_new [OF inv8(1) new] w_Push_frame [of "Some a" s8] by (metis prod.collapse)
  have sp5: "backupSystems (w_sp s5) = []" "sp_has_resister (w_sp s5)" "resisterEnabled (w_sp s5)"
    using assms(4-6) inv2 by (simp_all add: s5_def s4 s3_def)
  have sub: "sp_Submit (Suc n) ?ops (Some a) s5 =
      Some (None, emit (sp_notifySurgeProtectorSubmit (w_sp s9) (Data (w_store s9 a))) s9)"
    using sp5 dr(1) t7 push(1) unfolding sp_Submit_def
    by (simp add: IsResisterConnected_def del: sp_drain.simps)
  have "wire_Submit (Suc (Suc n)) env wait cx i d s = sp_Submit (Suc n) ?ops (Some a) s5"
    using assms(1-3,8) ne t2(1) na inv2
    by (simp add: check_breaker_def IsTripped_def IsBeingRateLimited_def bucket_dry_def s5_def Let_def)
  moreover have "Data (w_store s8 a) = d" using a(2) s8 by (simp add: NewElementFast_def Let_def)
  moreover have "ws_chans (w_ext s9) = ws_chans (w_ext s)" using push s8 inv2 by simp
  ultimately show ?thesis using sub push inv8 by (simp add: queued_def world_inv_def)
qed


definition dry_world :: "nat world" where
  "dry_world =
     put_wire 0 ((the_wire 0 running_world)\<lparr>wire_surgeProtector := True\<rparr>)
       (protected_world\<lparr>w_sp := (w_sp protected_world)\<lparr>tokens := 0, nextRefill := 10\<rparr>, w_clock := (\<lambda>k. 5)\<rparr>)"

theorem rate_limited_Submit_queues_witness:
  "\<exists>s'. wire_Submit 2 no_generators end_goroutines [] 0 7 dry_world = Some (None, s') \<and>
    queued s' = add_mset 7 (queued dry_world) \<and> world_inv s' \<and>
    ws_chans (w_ext s') = ws_chans (w_ext dry_world)"
proof -
  have dw: "w_res dry_world = NewResister_base ''''" "the_wire 0 dry_world = (the_wire 0 running_world)\<lparr>wire_surgeProtector := True\<rparr>"
    "w_sp dry_world = (w_sp protected_world)\<lparr>tokens := 0, nextRefill := 10\<rparr>" "w_clock dry_world = (\<lambda>k. 5)"
    by (simp_all add: dry_world_def protected_world_def running_world_def) (simp_all add: empty_world_def)
  have "world_inv dry_world"
    unfolding world_inv_def dw(1) by (simp add: res_inv_def index_ok_def is_heap_def heap_from_def NewResister_base_def)
  moreover have "bucket_dry dry_world"
    unfolding bucket_dry_def dw by (simp add: protected_world_def SetRateLimit_def)
  moreover have "CircuitBreaker (the_wire 0 dry_world) = None" "wire_surgeProtector (the_wire 0 dry_world)"
    unfolding dw(2) by (simp_all add: running_world_def the_wire_def NewWire_base_def)
  moreover have "\<not> sp_active (w_sp dry_world)" "backupSystems (w_sp dry_world) = []" "sp_has_resister (w_sp dry_world)"
    "resisterEnabled (w_sp dry_world)"
    unfolding dw(3) by (simp_all add: protected_world_def SetRateLimit_def NewSurgeProtector_base_def)
  moreover have "w_next dry_world \<notin> set (res_queue (w_res dry_world))"
    "indexByID (w_res dry_world) (FormatUint36 (next_seq (w_seq dry_world))) = None"
    unfolding dw(1) by (simp_all add: NewResister_base_def)
  ultimately show ?thesis
    using rate_limited_Submit_queues [of 0 dry_world 0 no_generators end_goroutines "[]" 7]
    unfolding numeral_2_eq_2 by blast
qed

section \<open>Loading the output\<close>

lemma drain_output_all:
  "length (ch_buf ch) < n \<Longrightarrow> drain_output n ch items = (items @ ch_buf ch, ch\<lparr>ch_buf := []\<rparr>)"
proof (induction n arbitrary: ch items)
  case (Suc n)
  show ?case
  proof (cases "ch_buf ch")
    case Nil
    have "ch = ch\<lparr>ch_buf := []\<rparr>" using Nil by (cases ch) simp
    then show ?thesis using Nil by (simp add: chan_recv_def)
  next
    case (Cons v vs)
    then show ?thesis using Suc by (simp add: chan_recv_def)
  qed
qed simp

text \<open>
  \<^verbatim>\<open>LoadAsJSONArray\<close> on a running wire stops it and returns the encoding of everything its workers
  left in the output channel, in order, and leaves the channel closed and empty.
\<close>

theorem LoadAsJSONArray_returns_output:
  assumes "wire_running i s" and "waits_for_workers wait"
  shows "\<exists>s' s1 c. wire_Stop wait i s = Inr s1 \<and> OutputChan (the_wire i s1) = Some c \<and>
     wire_LoadAsJSONArray wait marshal no_items i s = Inr (marshal (ch_buf (ws_chans (w_ext s1) c)), s') \<and>
     ws_chans (w_ext s') c = (ws_chans (w_ext s1) c)\<lparr>ch_buf := []\<rparr> \<and> ch_closed (ws_chans (w_ext s') c) \<and>
     \<not> wire_IsStarted (the_wire i s')"
proof -
  obtain s1 where s1: "wire_Stop wait i s = Inr s1" and st: "wire_stopped i s s1"
    using wire_Stop_running [OF assms] by blast
  obtain c where c: "OutputChan (the_wire i s1) = Some c"
    using st assms(1) by (auto simp: wire_stopped_def wire_running_def Let_def)
  moreover have "ch_closed (ws_chans (w_ext s1) c)" "wire_started (the_wire i s1) = 0"
    using st c by (auto simp: wire_stopped_def)
  ultimately show ?thesis
    using s1 by (auto simp: wire_LoadAsJSONArray_def Let_def drain_output_all wire_IsStarted_def
        simp del: drain_output.simps)
qed

theorem LoadAsJSONArray_returns_output_witness:
  "\<exists>s' s1 c. wire_Stop end_goroutines 0 running_world = Inr s1 \<and> OutputChan (the_wire 0 s1) = Some c \<and>
     wire_LoadAsJSONArray end_goroutines (\<lambda>xs. xs) [] 0 running_world = Inr (ch_buf (ws_chans (w_ext s1) c), s') \<and>
     ws_chans (w_ext s') c = (ws_chans (w_ext s1) c)\<lparr>ch_buf := []\<rparr> \<and> ch_closed (ws_chans (w_ext s') c) \<and>
     \<not> wire_IsStarted (the_wire 0 s')"
  by (rule LoadAsJSONArray_returns_output [OF running_world_running waits_end_goroutines])


end
