(* ===== verification/Wire_System.thy ===== *)
theory Wire_System
  imports Wire_Lifecycle
begin

text \<open>
  A running wire as a concurrent system: submitters, the workers of \<^verbatim>\<open>startWorkers\<close>, the error
  handler, a consumer of the output channel and \<^verbatim>\<open>Stop\<close>, interleaved step by step. The wire has
  no breaker, protector, insulator or encoder; its element processing is the transformer
  chain of \<open>Wire_Process\<close>, and its channels are those of \<open>Go_Chan\<close>, so that a send on a full
  channel waits and a send on a closed one panics.

  The steps of a worker are the points where \<^verbatim>\<open>runWorker\<close> and \<^verbatim>\<open>handleElement\<close> (or
  \<^verbatim>\<open>runFastWorker\<close>) touch shared state: receiving, looking at the context, reporting an error, sending.
  The history variables \<open>accepted\<close>, \<open>finished\<close> and \<open>taken\<close> record what was submitted, what
  became of each element a worker is done with, and what the consumer got.
\<close>

section \<open>State\<close>

datatype 'a wstate =
    Idle
  | Holding 'a       \<comment> \<open>received, not yet transformed\<close>
  | Sending 'a 'a    \<comment> \<open>the element and its result, waiting for the output channel\<close>
  | Exited

datatype 'a fate = WasSent 'a | Failed gerr | Dropped

record 'a wire_system =
  sys_in :: "'a gochan"
  sys_out :: "'a gochan"
  sys_err :: "'a element_error gochan"
  sys_ts :: "'a transformer list"
  sys_workers :: "'a wstate list"
  sys_done :: bool      \<comment> \<open>the wire's context is cancelled\<close>
  sys_panicked :: bool
  accepted :: "'a list"
  finished :: "('a \<times> 'a fate) list"
  taken :: "'a list"

text \<open>
  The system that \<^verbatim>\<open>Start\<close> leaves behind for a wire \<open>i\<close> without factory, breaker, insulator and encoder: its
  channels, its chain, its workers. It stands for such wires only; \<open>shows_wire\<close> below says what it has in common
  with them.
\<close>

definition system_of :: "nat \<Rightarrow> 'a world \<Rightarrow> 'a wire_system" where
  "system_of i s =
     (let w = the_wire i s in
      \<lparr>sys_in = ws_chans (w_ext s) (the (inChan w)), sys_out = ws_chans (w_ext s) (the (OutputChan w)),
       sys_err = ws_echans (w_ext s) (the (errorChan w)), sys_ts = transformations w,
       sys_workers = replicate (workers_of (wire_wg w)) Idle,
       sys_done = is_done (wire_ctx w) s, sys_panicked = False, accepted = [], finished = [], taken = []\<rparr>)"

definition initial_system :: "'a wire_system \<Rightarrow> bool" where
  "initial_system z \<longleftrightarrow>
     ch_buf (sys_in z) = [] \<and> ch_buf (sys_out z) = [] \<and> ch_buf (sys_err z) = [] \<and>
     \<not> ch_closed (sys_out z) \<and> \<not> ch_closed (sys_err z) \<and>
     set (sys_workers z) \<subseteq> {Idle} \<and> \<not> sys_panicked z \<and> accepted z = [] \<and> finished z = [] \<and> taken z = []"

section \<open>Steps\<close>

definition set_worker :: "nat \<Rightarrow> 'a wstate \<Rightarrow> 'a wire_system \<Rightarrow> 'a wire_system" where
  "set_worker k st z = z\<lparr>sys_workers := (sys_workers z)[k := st]\<rparr>"

definition finish :: "'a \<Rightarrow> 'a fate \<Rightarrow> 'a wire_system \<Rightarrow> 'a wire_system" where
  "finish d f z = z\<lparr>finished := finished z @ [(d, f)]\<rparr>"

definition worker_is :: "nat \<Rightarrow> 'a wstate \<Rightarrow> 'a wire_system \<Rightarrow> bool" where
  "worker_is k st z \<longleftrightarrow> k < length (sys_workers z) \<and> sys_workers z ! k = st"

inductive worker_step :: "'a wire_system \<Rightarrow> 'a wire_system \<Rightarrow> bool" where
  receive: "worker_is k Idle z \<Longrightarrow> chan_recv (sys_in z) = Received d ch \<Longrightarrow>
    worker_step z (set_worker k (Holding d) (z\<lparr>sys_in := ch\<rparr>))"
| leave: "worker_is k Idle z \<Longrightarrow> sys_done z \<or> chan_recv (sys_in z) = RecvClosed \<Longrightarrow>
    worker_step z (set_worker k Exited z)"
| discard: "worker_is k (Holding d) z \<Longrightarrow> sys_done z \<Longrightarrow>
    worker_step z (finish d Dropped (set_worker k Idle z))"
| transform: "worker_is k (Holding d) z \<Longrightarrow> transform_loop (sys_ts z) d = (p, None) \<Longrightarrow>
    worker_step z (set_worker k (Sending d p) z)"
| report: "worker_is k (Holding d) z \<Longrightarrow> transform_loop (sys_ts z) d = (p, Some e) \<Longrightarrow>
    chan_try_send \<lparr>ee_Err = e, ee_Elem = d\<rparr> (sys_err z) = Inr ch \<Longrightarrow>
    worker_step z (finish d (Failed e) (set_worker k Idle (z\<lparr>sys_err := ch\<rparr>)))"
| report_panic: "worker_is k (Holding d) z \<Longrightarrow> transform_loop (sys_ts z) d = (p, Some e) \<Longrightarrow>
    chan_try_send \<lparr>ee_Err = e, ee_Elem = d\<rparr> (sys_err z) = Inl pan \<Longrightarrow>
    worker_step z (z\<lparr>sys_panicked := True\<rparr>)"
| send: "worker_is k (Sending d p) z \<Longrightarrow> chan_send p (sys_out z) = Sent ch \<Longrightarrow>
    worker_step z (finish d (WasSent p) (set_worker k Idle (z\<lparr>sys_out := ch\<rparr>)))"
| send_panic: "worker_is k (Sending d p) z \<Longrightarrow> chan_send p (sys_out z) = SendPanics \<Longrightarrow>
    worker_step z (z\<lparr>sys_panicked := True\<rparr>)"
| give_up: "worker_is k (Sending d p) z \<Longrightarrow> sys_done z \<Longrightarrow> st = Idle \<or> st = Exited \<Longrightarrow>
    worker_step z (finish d Dropped (set_worker k st z))"

inductive environment_step :: "'a wire_system \<Rightarrow> 'a wire_system \<Rightarrow> bool" where
  submit: "chan_send d (sys_in z) = Sent ch \<Longrightarrow>
    environment_step z (z\<lparr>sys_in := ch, accepted := accepted z @ [d]\<rparr>)"
| consume: "chan_recv (sys_out z) = Received p ch \<Longrightarrow>
    environment_step z (z\<lparr>sys_out := ch, taken := taken z @ [p]\<rparr>)"
| handle_error: "chan_recv (sys_err z) = Received e ch \<Longrightarrow> environment_step z (z\<lparr>sys_err := ch\<rparr>)"
| cancel: "environment_step z (z\<lparr>sys_done := True\<rparr>)"
| close: "sys_done z \<Longrightarrow> set (sys_workers z) \<subseteq> {Exited} \<Longrightarrow>
    chan_close (sys_out z) = Inr ch \<Longrightarrow> chan_close (sys_err z) = Inr ech \<Longrightarrow>
    environment_step z (z\<lparr>sys_out := ch, sys_err := ech\<rparr>)"

text \<open>On an unbuffered channel sender and receiver meet.\<close>

inductive meeting_step :: "'a wire_system \<Rightarrow> 'a wire_system \<Rightarrow> bool" where
  hand_in: "worker_is k Idle z \<Longrightarrow> ch_cap (sys_in z) = 0 \<Longrightarrow> \<not> ch_closed (sys_in z) \<Longrightarrow>
    meeting_step z (set_worker k (Holding d) (z\<lparr>accepted := accepted z @ [d]\<rparr>))"
| hand_out: "worker_is k (Sending d p) z \<Longrightarrow> ch_cap (sys_out z) = 0 \<Longrightarrow> \<not> ch_closed (sys_out z) \<Longrightarrow>
    meeting_step z (finish d (WasSent p) (set_worker k Idle (z\<lparr>taken := taken z @ [p]\<rparr>)))"

definition system_step :: "'a wire_system \<Rightarrow> 'a wire_system \<Rightarrow> bool" where
  "system_step z z' \<longleftrightarrow> worker_step z z' \<or> environment_step z z' \<or> meeting_step z z'"

inductive reachable :: "'a wire_system \<Rightarrow> 'a wire_system \<Rightarrow> bool" for z0 where
  start: "reachable z0 z0"
| step: "reachable z0 z \<Longrightarrow> system_step z z' \<Longrightarrow> reachable z0 z'"

inductive_cases worker_stepE: "worker_step z z'"
inductive_cases environment_stepE: "environment_step z z'"
inductive_cases meeting_stepE: "meeting_step z z'"

section \<open>What is in flight\<close>

fun in_hand :: "'a wstate \<Rightarrow> 'a list" where
  "in_hand (Holding d) = [d]"
| "in_hand (Sending d p) = [d]"
| "in_hand _ = []"

definition in_flight :: "'a wire_system \<Rightarrow> 'a list" where
  "in_flight z = concat (map in_hand (sys_workers z))"

definition outputs :: "'a wire_system \<Rightarrow> 'a list" where
  "outputs z = List.map_filter (\<lambda>(d, f). case f of WasSent p \<Rightarrow> Some p | _ \<Rightarrow> None) (finished z)"

text \<open>What \<open>transform_loop\<close> says of an element agrees with its fate.\<close>

fun fate_ok :: "'a transformer list \<Rightarrow> 'a \<times> 'a fate \<Rightarrow> bool" where
  "fate_ok ts (d, WasSent p) = (transform_loop ts d = (p, None))"
| "fate_ok ts (d, Failed e) = (snd (transform_loop ts d) = Some e)"
| "fate_ok ts (d, Dropped) = True"

fun hand_ok :: "'a transformer list \<Rightarrow> 'a wstate \<Rightarrow> bool" where
  "hand_ok ts (Sending d p) = (transform_loop ts d = (p, None))"
| "hand_ok ts _ = True"

definition system_inv :: "'a wire_system \<Rightarrow> bool" where
  "system_inv z \<longleftrightarrow>
     chan_ok (sys_in z) \<and> chan_ok (sys_out z) \<and> chan_ok (sys_err z) \<and>
     mset (accepted z) = mset (map fst (finished z)) + mset (in_flight z) + mset (ch_buf (sys_in z)) \<and>
     outputs z = taken z @ ch_buf (sys_out z) \<and>
     (\<forall>x \<in> set (finished z). fate_ok (sys_ts z) x) \<and> (\<forall>st \<in> set (sys_workers z). hand_ok (sys_ts z) st) \<and>
     (\<not> sys_done z \<longrightarrow> (\<forall>x \<in> set (finished z). snd x \<noteq> Dropped)) \<and>
     (ch_closed (sys_out z) \<or> ch_closed (sys_err z) \<longrightarrow> set (sys_workers z) \<subseteq> {Exited}) \<and>
     \<not> sys_panicked z"

lemma mset_in_flight_update:
  assumes "worker_is k st z"
  shows "mset (in_flight (set_worker k st' z)) + mset (in_hand st) = mset (in_flight z) + mset (in_hand st')"
proof -
  have upd: "mset (concat (map in_hand (ws[k := st']))) + mset (in_hand (ws ! k)) =
        mset (concat (map in_hand ws)) + mset (in_hand st')" if "k < length ws" for ws :: "'a wstate list" and k
    using that
  proof (induction ws arbitrary: k)
    case (Cons w ws)
    then show ?case by (cases k) (auto simp: ac_simps)
  qed simp
  then show ?thesis
    using upd [of k "sys_workers z"] assms by (auto simp: worker_is_def in_flight_def set_worker_def)
qed

lemma sys_frame [simp]:
  "sys_in (set_worker k st z) = sys_in z" "sys_out (set_worker k st z) = sys_out z" "sys_err (set_worker k st z) = sys_err z"
  "sys_ts (set_worker k st z) = sys_ts z" "sys_done (set_worker k st z) = sys_done z"
  "sys_panicked (set_worker k st z) = sys_panicked z" "accepted (set_worker k st z) = accepted z"
  "finished (set_worker k st z) = finished z" "taken (set_worker k st z) = taken z"
  "sys_in (finish d f z) = sys_in z" "sys_out (finish d f z) = sys_out z" "sys_err (finish d f z) = sys_err z"
  "sys_ts (finish d f z) = sys_ts z" "sys_done (finish d f z) = sys_done z" "sys_workers (finish d f z) = sys_workers z"
  "sys_panicked (finish d f z) = sys_panicked z" "accepted (finish d f z) = accepted z"
  "finished (finish d f z) = finished z @ [(d, f)]" "taken (finish d f z) = taken z"
  "in_flight (finish d f z) = in_flight z" "outputs (set_worker k st z) = outputs z"
  by (simp_all add: set_worker_def finish_def in_flight_def outputs_def)

lemma outputs_finish [simp]:
  "outputs (finish d f z) = outputs z @ (case f of WasSent p \<Rightarrow> [p] | _ \<Rightarrow> [])"
  by (cases f) (simp_all add: outputs_def finish_def List.map_filter_def)

lemma worker_in_set: "worker_is k st z \<Longrightarrow> st \<in> set (sys_workers z)"
  by (auto simp: worker_is_def)

lemma set_workers_update: "set (sys_workers (set_worker k st z)) \<subseteq> insert st (set (sys_workers z))"
  by (simp add: set_worker_def set_update_subset_insert)

section \<open>The invariant\<close>

lemma system_inv_open:
  "system_inv z \<Longrightarrow> worker_is k st z \<Longrightarrow> st \<noteq> Exited \<Longrightarrow> \<not> ch_closed (sys_out z) \<and> \<not> ch_closed (sys_err z)"
  using worker_in_set [of k st z] by (auto simp: system_inv_def)

text \<open>
  A worker that moves from \<open>st\<close> to \<open>st'\<close> keeps the invariant when the element it had in hand is
  accounted for in the history \<open>fs\<close> it appends, and the one it has now came from \<open>got\<close>.
\<close>

lemma system_inv_move:
  assumes inv: "system_inv z" and wk: "worker_is k st z" and ne: "st \<noteq> Exited"
    and hand: "hand_ok (sys_ts z) st'"
    and bal: "mset (in_hand st) + mset got = mset (in_hand st') + mset (map fst fs)"
    and src: "mset (ch_buf (sys_in z)) = mset (ch_buf ic) + mset got"
    and z': "z' = z\<lparr>sys_workers := (sys_workers z)[k := st'], sys_in := ic, sys_out := oc, sys_err := ec,
        finished := finished z @ fs, taken := tk\<rparr>"
    and chans: "chan_ok ic" "chan_ok oc" "chan_ok ec" "\<not> ch_closed oc" "\<not> ch_closed ec"
    and out: "outputs z' = tk @ ch_buf oc"
    and fates: "\<forall>x \<in> set fs. fate_ok (sys_ts z) x" "\<not> sys_done z \<longrightarrow> (\<forall>x \<in> set fs. snd x \<noteq> Dropped)"
  shows "system_inv z'"
proof -
  have "in_flight z' = in_flight (set_worker k st' z)" unfolding z' by (simp add: in_flight_def set_worker_def)
  then have fl: "mset (in_flight z') + mset (in_hand st) = mset (in_flight z) + mset (in_hand st')"
    using mset_in_flight_update [OF wk, of st'] by simp
  have "mset (accepted z) = mset (map fst (finished z)) + mset (in_flight z) + mset (ch_buf (sys_in z))"
    using inv by (simp add: system_inv_def)
  then have "mset (accepted z) + mset (in_hand st') + mset (in_hand st) =
      mset (map fst (finished z)) + mset (in_flight z') + mset (in_hand st) + mset (ch_buf ic) + (mset (in_hand st) + mset got)"
    using fl src by (simp add: ac_simps)
  then have "mset (accepted z) = mset (map fst (finished z @ fs)) + mset (in_flight z') + mset (ch_buf ic)"
    unfolding bal by (simp add: ac_simps)
  moreover have "\<forall>s \<in> set (sys_workers z'). hand_ok (sys_ts z) s"
    using inv hand set_update_subset_insert [of "sys_workers z" k st'] unfolding z' by (auto simp: system_inv_def)
  ultimately show ?thesis
    using inv out chans fates unfolding z' by (auto simp: system_inv_def)
qed

lemma same_taken: "system_inv z \<Longrightarrow> outputs z = taken z @ ch_buf (sys_out z)"
  by (simp add: system_inv_def)

lemma system_inv_worker:
  assumes inv: "system_inv z" and "worker_step z z'"
  shows "system_inv z'"
proof -
  have chok: "chan_ok (sys_in z)" "chan_ok (sys_out z)" "chan_ok (sys_err z)"
    using inv by (simp_all add: system_inv_def)
  note move = system_inv_move [OF inv, where ic = "sys_in z" and oc = "sys_out z" and ec = "sys_err z" and tk = "taken z" and fs = "[]" and got = "[]"]
  show ?thesis
    using assms(2)
  proof cases
    case (receive k d ch)
    note op = system_inv_open [OF inv receive(2)]
    have ch: "chan_ok ch" "ch_buf (sys_in z) = d # ch_buf ch"
      using chan_recv_ok [OF chok(1) receive(3)] by auto
    show ?thesis
      by (rule system_inv_move [OF inv receive(2), where st' = "Holding d" and got = "[d]" and fs = "[]" and ic = ch
            and oc = "sys_out z" and ec = "sys_err z" and tk = "taken z"])
        (use receive chok ch op same_taken [OF inv] in \<open>simp_all add: set_worker_def outputs_def\<close>)
  next
    case (leave k)
    note op = system_inv_open [OF inv leave(2)]
    show ?thesis
      by (rule move [OF leave(2), where st' = Exited])
        (use leave chok op same_taken [OF inv] in \<open>simp_all add: set_worker_def outputs_def\<close>)
  next
    case (discard k d)
    note op = system_inv_open [OF inv discard(2)]
    show ?thesis
      by (rule system_inv_move [OF inv discard(2), where st' = Idle and got = "[]" and fs = "[(d, Dropped)]" and ic = "sys_in z"
            and oc = "sys_out z" and ec = "sys_err z" and tk = "taken z"])
        (use discard chok op same_taken [OF inv] in \<open>simp_all add: set_worker_def finish_def outputs_def List.map_filter_def\<close>)
  next
    case (transform k d p)
    note op = system_inv_open [OF inv transform(2)]
    show ?thesis
      by (rule move [OF transform(2), where st' = "Sending d p"])
        (use transform chok op same_taken [OF inv] in \<open>simp_all add: set_worker_def outputs_def\<close>)
  next
    case (report k d p e ch)
    note op = system_inv_open [OF inv report(2)]
    have ch: "chan_ok ch" "\<not> ch_closed ch"
      using report(4) chok(3) op
      by (auto simp: chan_try_send_def chan_send_def chan_ok_def split: send_result.splits if_splits)
    show ?thesis
      by (rule system_inv_move [OF inv report(2), where st' = Idle and got = "[]" and fs = "[(d, Failed e)]" and ic = "sys_in z"
            and oc = "sys_out z" and ec = ch and tk = "taken z"])
        (use report chok ch op same_taken [OF inv] in \<open>simp_all add: set_worker_def finish_def outputs_def List.map_filter_def\<close>)
  next
    case (report_panic k d p e pan)
    then show ?thesis using system_inv_open [OF inv report_panic(2)]
      by (auto simp: chan_try_send_def chan_send_def split: send_result.splits if_splits)
  next
    case (send k d p ch)
    note op = system_inv_open [OF inv send(2)]
    have ch: "chan_ok ch" "ch_buf ch = ch_buf (sys_out z) @ [p]" "\<not> ch_closed ch"
      using chan_send_ok [OF chok(2) send(3)] by auto
    have "transform_loop (sys_ts z) d = (p, None)"
      using inv worker_in_set [OF send(2)] by (force simp: system_inv_def)
    then show ?thesis
      by (intro system_inv_move [OF inv send(2), where st' = Idle and got = "[]" and fs = "[(d, WasSent p)]" and ic = "sys_in z"
            and oc = ch and ec = "sys_err z" and tk = "taken z"])
        (use send chok ch op same_taken [OF inv] in \<open>simp_all add: set_worker_def finish_def outputs_def List.map_filter_def\<close>)
  next
    case (send_panic k d p)
    then show ?thesis using system_inv_open [OF inv send_panic(2)]
      by (auto simp: chan_send_def split: if_splits)
  next
    case (give_up k d p st)
    note op = system_inv_open [OF inv give_up(2)]
    have "hand_ok (sys_ts z) st" "in_hand st = []" using give_up(4) by auto
    then show ?thesis
      by (intro system_inv_move [OF inv give_up(2), where st' = st and got = "[]" and fs = "[(d, Dropped)]" and ic = "sys_in z"
            and oc = "sys_out z" and ec = "sys_err z" and tk = "taken z"])
        (use give_up chok op same_taken [OF inv] in \<open>simp_all add: set_worker_def finish_def outputs_def List.map_filter_def\<close>)
  qed
qed

lemma system_inv_environment:
  assumes inv: "system_inv z" and "environment_step z z'"
  shows "system_inv z'"
  using assms(2)
proof cases
  case (submit d ch)
  have "chan_ok ch \<and> ch_buf ch = ch_buf (sys_in z) @ [d]"
    using chan_send_ok [of "sys_in z" d ch] inv submit by (simp add: system_inv_def)
  then show ?thesis using inv submit by (auto simp: system_inv_def in_flight_def outputs_def)
next
  case (consume p ch)
  have "chan_ok ch \<and> ch_buf (sys_out z) = p # ch_buf ch \<and> ch_closed ch = ch_closed (sys_out z)"
    using chan_recv_ok [of "sys_out z" p ch] inv consume by (simp add: system_inv_def)
  then show ?thesis using inv consume by (auto simp: system_inv_def in_flight_def outputs_def)
next
  case (handle_error e ch)
  have "chan_ok ch \<and> ch_closed ch = ch_closed (sys_err z)"
    using chan_recv_ok [of "sys_err z" e ch] inv handle_error by (simp add: system_inv_def)
  then show ?thesis using inv handle_error by (auto simp: system_inv_def in_flight_def outputs_def)
next
  case cancel
  then show ?thesis using inv by (auto simp: system_inv_def in_flight_def outputs_def)
next
  case (close ch ech)
  then show ?thesis using inv
    by (auto simp: system_inv_def in_flight_def outputs_def chan_close_def chan_ok_def split: if_splits)
qed

lemma system_inv_meeting:
  assumes inv: "system_inv z" and "meeting_step z z'"
  shows "system_inv z'"
  using assms(2)
proof cases
  case (hand_in k d)
  have "mset (in_flight (set_worker k (Holding d) z)) = add_mset d (mset (in_flight z))"
    using mset_in_flight_update [OF hand_in(2), of "Holding d"] by simp
  moreover have "in_flight z' = in_flight (set_worker k (Holding d) z)"
    using hand_in(1) by (simp add: in_flight_def set_worker_def)
  moreover have "\<forall>s \<in> set (sys_workers z'). hand_ok (sys_ts z) s"
    using inv set_update_subset_insert [of "sys_workers z" k "Holding d"]
    unfolding hand_in(1) by (auto simp: system_inv_def set_worker_def)
  ultimately show ?thesis
    using inv hand_in system_inv_open [OF inv hand_in(2)]
    by (auto simp: system_inv_def outputs_def)
next
  case (hand_out k d p)
  have chok: "chan_ok (sys_in z)" "chan_ok (sys_out z)" "chan_ok (sys_err z)"
    using inv by (simp_all add: system_inv_def)
  have "ch_buf (sys_out z) = []" using chok(2) hand_out by (simp add: chan_ok_def)
  moreover have "transform_loop (sys_ts z) d = (p, None)"
    using inv worker_in_set [OF hand_out(2)] by (force simp: system_inv_def)
  ultimately show ?thesis
    by (intro system_inv_move [OF inv hand_out(2), where st' = Idle and got = "[]" and fs = "[(d, WasSent p)]" and ic = "sys_in z"
          and oc = "sys_out z" and ec = "sys_err z" and tk = "taken z @ [p]"])
      (use hand_out chok system_inv_open [OF inv hand_out(2)] same_taken [OF inv]
        in \<open>simp_all add: set_worker_def finish_def outputs_def List.map_filter_def\<close>)
qed

lemma system_inv_initial: "initial_system z \<Longrightarrow> system_inv z"
  by (auto simp: initial_system_def system_inv_def chan_ok_def outputs_def in_flight_def List.map_filter_def subset_iff
      concat_eq_Nil_conv)


lemma reachable_inv:
  assumes "reachable z0 z" and "initial_system z0"
  shows "system_inv z"
  using assms
proof (induction rule: reachable.induct)
  case start
  then show ?case by (rule system_inv_initial)
next
  case (step z z')
  then show ?case
    using system_inv_worker system_inv_environment system_inv_meeting unfolding system_step_def by blast
qed

section \<open>Order\<close>

text \<open>With one worker the elements leave in the order they were accepted.\<close>

definition order_inv :: "'a wire_system \<Rightarrow> bool" where
  "order_inv z \<longleftrightarrow> length (sys_workers z) = 1 \<and>
     accepted z = map fst (finished z) @ in_flight z @ ch_buf (sys_in z)"

lemma order_worker: "length (sys_workers z) = 1 \<Longrightarrow> worker_is k st z \<longleftrightarrow> k = 0 \<and> sys_workers z = [st]"
  by (cases "sys_workers z") (auto simp: worker_is_def)

lemma order_step:
  assumes inv: "order_inv z" and ok: "system_inv z" and "system_step z z'"
  shows "order_inv z'"
proof -
  have one: "length (sys_workers z) = 1" using inv by (simp add: order_inv_def)
  note simps = order_inv_def set_worker_def finish_def in_flight_def order_worker [OF one]
  consider "worker_step z z'" | "environment_step z z'" | "meeting_step z z'"
    using assms(3) by (auto simp: system_step_def)
  then show ?thesis
  proof cases
    case 1
    then show ?thesis using inv
      by cases (auto simp: simps chan_recv_def split: list.splits if_splits)
  next
    case 2
    then show ?thesis using inv
      by cases (auto simp: order_inv_def in_flight_def chan_send_def split: if_splits)
  next
    case 3
    then show ?thesis using inv ok
      by cases (auto simp: simps system_inv_def chan_ok_def)
  qed
qed

lemma reachable_order:
  assumes "reachable z0 z" and "initial_system z0" and "length (sys_workers z0) = 1"
  shows "order_inv z"
  using assms
proof (induction rule: reachable.induct)
  case start
  then show ?case
    by (cases "sys_workers z0") (auto simp: order_inv_def initial_system_def in_flight_def)
next
  case (step z z')
  then show ?case using order_step reachable_inv by blast
qed

lemma reachable_ts: "reachable z0 z \<Longrightarrow> sys_ts z = sys_ts z0"
proof (induction rule: reachable.induct)
  case (step z z')
  then show ?case
    by (auto simp: system_step_def elim: worker_stepE environment_stepE meeting_stepE)
qed simp

section \<open>Properties\<close>

text \<open>
  C1: however the submitters, the workers, the error handler, the consumer and \<^verbatim>\<open>Stop\<close> are
  interleaved, a wire neither loses nor duplicates elements: every accepted element is
  waiting in the input channel, in a worker's hands, or finished exactly once; a finished
  one was sent with the result of the transformer chain, or failed with the error of the
  chain, or was dropped, which happens only after the wire was cancelled; and the consumer
  receives the results in the order the workers sent them.
\<close>

theorem wire_conserves_elements:
  assumes "initial_system z0" and "reachable z0 z"
  shows "mset (accepted z) = mset (map fst (finished z)) + mset (in_flight z) + mset (ch_buf (sys_in z)) \<and>
    outputs z = taken z @ ch_buf (sys_out z) \<and>
    (\<forall>x \<in> set (finished z). fate_ok (sys_ts z0) x) \<and>
    (\<not> sys_done z \<longrightarrow> (\<forall>x \<in> set (finished z). snd x \<noteq> Dropped))"
  using reachable_inv [OF assms(2,1)] reachable_ts [OF assms(2)] by (simp add: system_inv_def)

definition sample_system :: "nat \<Rightarrow> nat wire_system" where
  "sample_system n =
     \<lparr>sys_in = make_chan 2, sys_out = make_chan 2, sys_err = make_chan 2, sys_ts = [\<lambda>x. (x * 2, None)],
      sys_workers = replicate n Idle, sys_done = False, sys_panicked = False, accepted = [], finished = [], taken = []\<rparr>"

lemma sample_system_initial: "initial_system (sample_system n)"
  by (auto simp: initial_system_def sample_system_def make_chan_def)

definition sample_run :: "nat wire_system" where
  "sample_run = (sample_system 1)\<lparr>sys_in := (make_chan 2)\<lparr>ch_buf := [5]\<rparr>, accepted := [5]\<rparr>"

lemma sample_run_reachable: "reachable (sample_system 1) sample_run"
proof -
  have "environment_step (sample_system 1) sample_run"
    using environment_step.submit [of 5 "sample_system 1" "(make_chan 2)\<lparr>ch_buf := [5]\<rparr>"]
    by (simp add: sample_run_def sample_system_def chan_send_def make_chan_def)
  then show ?thesis using reachable.start reachable.step system_step_def by blast
qed

definition sample_done :: "nat wire_system" where
  "sample_done = (sample_system 1)\<lparr>sys_out := (make_chan 2)\<lparr>ch_buf := [10]\<rparr>, accepted := [5], finished := [(5, WasSent 10)]\<rparr>"

lemma sample_done_reachable: "reachable (sample_system 1) sample_done"
proof -
  let ?z1 = "sample_run\<lparr>sys_in := make_chan 2, sys_workers := [Holding 5]\<rparr>"
  let ?z2 = "sample_run\<lparr>sys_in := make_chan 2, sys_workers := [Sending 5 10]\<rparr>"
  have "worker_step sample_run ?z1"
    using worker_step.receive [of 0 sample_run 5 "make_chan 2"]
    by (simp add: sample_run_def sample_system_def worker_is_def set_worker_def chan_recv_def make_chan_def)
  moreover have "worker_step ?z1 ?z2"
    using worker_step.transform [of 0 5 ?z1 10]
    by (simp add: sample_run_def sample_system_def worker_is_def set_worker_def make_chan_def)
  moreover have "worker_step ?z2 sample_done"
    using worker_step.send [of 0 5 10 ?z2 "(make_chan 2)\<lparr>ch_buf := [10]\<rparr>"]
    by (simp add: sample_run_def sample_done_def sample_system_def worker_is_def set_worker_def finish_def
        chan_send_def make_chan_def)
  ultimately show ?thesis
    using sample_run_reachable reachable.step by (metis system_step_def)
qed

theorem wire_conserves_elements_witness:
  "mset (accepted sample_done) =
     mset (map fst (finished sample_done)) + mset (in_flight sample_done) + mset (ch_buf (sys_in sample_done)) \<and>
   outputs sample_done = taken sample_done @ ch_buf (sys_out sample_done) \<and>
   finished sample_done = [(5, WasSent 10)] \<and> fate_ok (sys_ts (sample_system 1)) (5, WasSent 10)"
  using wire_conserves_elements [OF sample_system_initial sample_done_reachable]
  by (simp add: sample_done_def)

text \<open>
  C2: no interleaving makes a worker send on a closed channel, and no channel ever holds more than its
  capacity: \<^verbatim>\<open>Stop\<close> closes the channels only when every worker has left.
\<close>

theorem wire_never_panics:
  assumes "initial_system z0" and "reachable z0 z"
  shows "\<not> sys_panicked z \<and> (ch_closed (sys_out z) \<longrightarrow> set (sys_workers z) \<subseteq> {Exited}) \<and>
    length (ch_buf (sys_in z)) \<le> ch_cap (sys_in z) \<and> length (ch_buf (sys_out z)) \<le> ch_cap (sys_out z) \<and>
    length (ch_buf (sys_err z)) \<le> ch_cap (sys_err z)"
  using reachable_inv [OF assms(2,1)] by (simp add: system_inv_def chan_ok_def)

theorem wire_never_panics_witness:
  "\<not> sys_panicked sample_done \<and> \<not> ch_closed (sys_out sample_done) \<and>
    length (ch_buf (sys_in sample_done)) \<le> ch_cap (sys_in sample_done) \<and>
    length (ch_buf (sys_out sample_done)) \<le> ch_cap (sys_out sample_done) \<and>
    length (ch_buf (sys_err sample_done)) \<le> ch_cap (sys_err sample_done)"
  using wire_never_panics [OF sample_system_initial sample_done_reachable]
  by (simp add: sample_done_def sample_system_def)

text \<open>
  C12: a wire with one worker keeps the order: the accepted elements are the finished ones, the
  one in the worker's hands and the waiting ones, in this order; and as long as the wire is
  not cancelled, what was sent is the chain applied to the accepted elements it succeeds
  on, in the order they were accepted.
\<close>

theorem single_worker_keeps_order:
  assumes "initial_system z0" and "reachable z0 z" and "length (sys_workers z0) = 1"
  shows "accepted z = map fst (finished z) @ in_flight z @ ch_buf (sys_in z) \<and>
    (\<not> sys_done z \<longrightarrow>
       taken z @ ch_buf (sys_out z) =
         map (\<lambda>d. fst (transform_loop (sys_ts z0) d))
           (filter (\<lambda>d. snd (transform_loop (sys_ts z0) d) = None) (map fst (finished z))))"
proof -
  have ord: "accepted z = map fst (finished z) @ in_flight z @ ch_buf (sys_in z)"
    using reachable_order [OF assms(2,1,3)] by (simp add: order_inv_def)
  have out: "List.map_filter (\<lambda>(d, f). case f of WasSent p \<Rightarrow> Some p | _ \<Rightarrow> None) xs =
      map (\<lambda>d. fst (transform_loop ts d)) (filter (\<lambda>d. snd (transform_loop ts d) = None) (map fst xs))"
    if "\<forall>x \<in> set xs. fate_ok ts x" "\<forall>x \<in> set xs. snd x \<noteq> Dropped" for xs :: "('a \<times> 'a fate) list" and ts
    using that
  proof (induction xs)
    case (Cons x xs)
    obtain d f where x: "x = (d, f)" by fastforce
    with Cons show ?case by (cases f) (auto simp: List.map_filter_def)
  qed (simp add: List.map_filter_def)
  show ?thesis
    using ord out [of "finished z" "sys_ts z0"] reachable_inv [OF assms(2,1)] reachable_ts [OF assms(2)]
    by (auto simp: system_inv_def outputs_def)
qed

theorem single_worker_keeps_order_witness:
  "accepted sample_done = map fst (finished sample_done) @ in_flight sample_done @ ch_buf (sys_in sample_done) \<and>
    \<not> sys_done sample_done \<and>
    taken sample_done @ ch_buf (sys_out sample_done) =
       map (\<lambda>d. fst (transform_loop (sys_ts (sample_system 1)) d))
         (filter (\<lambda>d. snd (transform_loop (sys_ts (sample_system 1)) d) = None) (map fst (finished sample_done)))"
  using single_worker_keeps_order [OF sample_system_initial sample_done_reachable]
  by (simp add: sample_system_def sample_done_def)


section \<open>Progress\<close>

fun wstate_work :: "'a wstate \<Rightarrow> nat" where
  "wstate_work (Holding d) = 2"
| "wstate_work (Sending d p) = 1"
| "wstate_work _ = 0"

text \<open>How many worker steps are left for what has been accepted.\<close>

definition work :: "'a wire_system \<Rightarrow> nat" where
  "work z = 3 * length (ch_buf (sys_in z)) + sum_list (map wstate_work (sys_workers z))"

lemma weight_set_worker:
  fixes f :: "'a wstate \<Rightarrow> nat"
  assumes "worker_is k st z"
  shows "sum_list (map f ((sys_workers z)[k := st'])) + f st = sum_list (map f (sys_workers z)) + f st'"
proof -
  have "sum_list (map f (ws[k := st'])) + f (ws ! k) = sum_list (map f ws) + f st'"
    if "k < length ws" for ws :: "'a wstate list" and k
    using that
  proof (induction ws arbitrary: k)
    case (Cons w ws)
    then show ?case by (cases k) auto
  qed simp
  from this [of k "sys_workers z"] show ?thesis using assms by (auto simp: worker_is_def)
qed

lemmas work_set_worker = weight_set_worker [where f = wstate_work]

lemma worker_step_works:
  assumes "worker_step z z'" and "system_inv z" and "\<not> sys_done z" and "\<not> ch_closed (sys_in z)"
  shows "work z' < work z"
  using assms(1)
proof cases
  case (receive k d ch)
  then show ?thesis using work_set_worker [OF receive(2), of "Holding d"]
    by (auto simp: work_def set_worker_def chan_recv_def split: list.splits if_splits)
next
  case (leave k)
  then show ?thesis using assms by (auto simp: chan_recv_def split: list.splits if_splits)
next
  case (discard k d)
  then show ?thesis using assms by simp
next
  case (transform k d p)
  then show ?thesis using work_set_worker [OF transform(2), of "Sending d p"] by (simp add: work_def set_worker_def)
next
  case (report k d p e ch)
  then show ?thesis using work_set_worker [OF report(2), of Idle] by (simp add: work_def set_worker_def finish_def)
next
  case (report_panic k d p e pan)
  then show ?thesis using system_inv_open [OF assms(2) report_panic(2)]
    by (auto simp: chan_try_send_def chan_send_def split: send_result.splits if_splits)
next
  case (send k d p ch)
  then show ?thesis using work_set_worker [OF send(2), of Idle] by (simp add: work_def set_worker_def finish_def)
next
  case (send_panic k d p)
  then show ?thesis using system_inv_open [OF assms(2) send_panic(2)] by (auto simp: chan_send_def split: if_splits)
next
  case (give_up k d p st)
  then show ?thesis using assms by simp
qed

text \<open>Without cancellation and with the input channel open no worker leaves.\<close>

definition staffed :: "'a wire_system \<Rightarrow> bool" where
  "staffed z \<longleftrightarrow> \<not> ch_closed (sys_in z) \<and> sys_workers z \<noteq> [] \<and> (\<not> sys_done z \<longrightarrow> Exited \<notin> set (sys_workers z))"

lemma staffed_set_worker:
  assumes "staffed z" and "st \<noteq> Exited \<or> sys_done z"
  shows "Exited \<in> set ((sys_workers z)[k := st]) \<longrightarrow> sys_done z"
  using assms set_update_subset_insert [of "sys_workers z" k st] by (auto simp: staffed_def)

lemma staffed_step:
  assumes "staffed z" and "system_step z z'"
  shows "staffed z'"
proof -
  note upd = staffed_set_worker [OF assms(1)]
  consider "worker_step z z'" | "environment_step z z'" | "meeting_step z z'"
    using assms(2) by (auto simp: system_step_def)
  then show ?thesis
  proof cases
    case 1
    then show ?thesis using assms(1)
      by cases (use upd in \<open>auto simp: staffed_def set_worker_def finish_def chan_recv_def split: list.splits if_splits\<close>)
  next
    case 2
    then show ?thesis using assms(1)
      by cases (auto simp: staffed_def chan_send_def split: if_splits)
  next
    case 3
    then show ?thesis using assms(1)
      by cases (use upd in \<open>auto simp: staffed_def set_worker_def finish_def\<close>)
  qed
qed

lemma reachable_staffed: "reachable z0 z \<Longrightarrow> staffed z0 \<Longrightarrow> staffed z"
  by (induction rule: reachable.induct) (auto intro: staffed_step)

text \<open>
  C13: while the wire is not cancelled, its workers get through what was accepted: as long as an
  element is waiting or in a worker's hands and the output channel has room, some worker can
  take a step, and every step a worker takes brings the remaining work down.
\<close>

theorem workers_make_progress:
  assumes "initial_system z0" and "\<not> ch_closed (sys_in z0)" and "sys_workers z0 \<noteq> []"
    and "reachable z0 z" and "\<not> sys_done z"
    and "in_flight z \<noteq> [] \<or> ch_buf (sys_in z) \<noteq> []" and "length (ch_buf (sys_out z)) < ch_cap (sys_out z)"
  shows "(\<exists>z'. worker_step z z') \<and> (\<forall>z'. worker_step z z' \<longrightarrow> work z' < work z)"
proof
  have inv: "system_inv z" using reachable_inv assms by blast
  have "staffed z0" using assms(1-3) by (auto simp: staffed_def initial_system_def)
  then have staff: "staffed z" using reachable_staffed assms by blast
  have open_in: "\<not> ch_closed (sys_in z)" using staff by (simp add: staffed_def)
  show "\<forall>z'. worker_step z z' \<longrightarrow> work z' < work z"
    using worker_step_works inv assms(5) open_in by blast
  show "\<exists>z'. worker_step z z'"
  proof (cases "\<exists>st \<in> set (sys_workers z). st \<noteq> Idle")
    case True
    then obtain k st where k: "worker_is k st z" "st \<noteq> Idle" by (auto simp: in_set_conv_nth worker_is_def)
    note op = system_inv_open [OF inv k(1)]
    have "st \<noteq> Exited" using staff assms(5) worker_in_set [OF k(1)] by (auto simp: staffed_def)
    then consider d where "st = Holding d" | d p where "st = Sending d p" using k(2) by (cases st) auto
    then show ?thesis
    proof cases
      case (1 d)
      obtain p e where t: "transform_loop (sys_ts z) d = (p, e)" by fastforce
      show ?thesis
      proof (cases e)
        case None
        then show ?thesis using worker_step.transform [of k d z p] k 1 t by auto
      next
        case (Some x)
        obtain r where r: "chan_try_send \<lparr>ee_Err = x, ee_Elem = d\<rparr> (sys_err z) = r" by simp
        show ?thesis
          using worker_step.report [of k d z p x] worker_step.report_panic [of k d z p x] k 1 t Some r by (cases r) auto
      qed
    next
      case (2 d p)
      then have "chan_send p (sys_out z) = Sent ((sys_out z)\<lparr>ch_buf := ch_buf (sys_out z) @ [p]\<rparr>)"
        using op assms(7) by (simp add: chan_send_def)
      then show ?thesis using worker_step.send [of k d p z] k 2 by auto
    qed
  next
    case False
    then have "in_flight z = []" by (auto simp: in_flight_def)
    then obtain d ds where "ch_buf (sys_in z) = d # ds" using assms(6) by (cases "ch_buf (sys_in z)") auto
    then have "chan_recv (sys_in z) = Received d ((sys_in z)\<lparr>ch_buf := ds\<rparr>)" by (simp add: chan_recv_def)
    moreover have "worker_is 0 Idle z" using False staff by (auto simp: worker_is_def staffed_def)
    ultimately show ?thesis using worker_step.receive [of 0 z d] by auto
  qed
qed

theorem workers_make_progress_witness:
  "\<exists>z'. worker_step sample_run z' \<and> work z' < work sample_run"
  using workers_make_progress [OF sample_system_initial _ _ sample_run_reachable]
  by (auto simp: sample_run_def sample_system_def make_chan_def)

section \<open>Shutting down\<close>

fun wstate_left :: "'a wstate \<Rightarrow> nat" where
  "wstate_left Idle = 1"
| "wstate_left (Holding d) = 3"
| "wstate_left (Sending d p) = 2"
| "wstate_left Exited = 0"

text \<open>How many worker steps are left at most until all workers have gone, when nothing more is submitted.\<close>

definition shutdown_work :: "'a wire_system \<Rightarrow> nat" where
  "shutdown_work z = 4 * length (ch_buf (sys_in z)) + sum_list (map wstate_left (sys_workers z))"

lemma worker_step_left:
  assumes "worker_step z z'" and "system_inv z"
  shows "shutdown_work z' < shutdown_work z \<and> accepted z' = accepted z \<and> sys_done z' = sys_done z"
  using assms(1)
proof cases
  case (receive k d ch)
  then show ?thesis using weight_set_worker [OF receive(2), of wstate_left "Holding d"]
    by (auto simp: shutdown_work_def set_worker_def chan_recv_def split: list.splits if_splits)
next
  case (leave k)
  then show ?thesis using weight_set_worker [OF leave(2), of wstate_left Exited]
    by (simp add: shutdown_work_def set_worker_def)
next
  case (discard k d)
  then show ?thesis using weight_set_worker [OF discard(2), of wstate_left Idle]
    by (simp add: shutdown_work_def set_worker_def finish_def)
next
  case (transform k d p)
  then show ?thesis using weight_set_worker [OF transform(2), of wstate_left "Sending d p"]
    by (simp add: shutdown_work_def set_worker_def)
next
  case (report k d p e ch)
  then show ?thesis using weight_set_worker [OF report(2), of wstate_left Idle]
    by (simp add: shutdown_work_def set_worker_def finish_def)
next
  case (report_panic k d p e pan)
  then show ?thesis using system_inv_open [OF assms(2) report_panic(2)]
    by (auto simp: chan_try_send_def chan_send_def split: send_result.splits if_splits)
next
  case (send k d p ch)
  then show ?thesis using weight_set_worker [OF send(2), of wstate_left Idle]
    by (simp add: shutdown_work_def set_worker_def finish_def)
next
  case (send_panic k d p)
  then show ?thesis using system_inv_open [OF assms(2) send_panic(2)] by (auto simp: chan_send_def split: if_splits)
next
  case (give_up k d p st)
  then show ?thesis using weight_set_worker [OF give_up(2), of wstate_left st]
    by (auto simp: shutdown_work_def set_worker_def finish_def)
qed

lemma other_step_left:
  assumes "environment_step z z' \<or> meeting_step z z'" and "accepted z' = accepted z"
  shows "shutdown_work z' \<le> shutdown_work z"
  using assms(1)
proof
  assume "environment_step z z'"
  then show ?thesis using assms(2) by cases (auto simp: shutdown_work_def)
next
  assume "meeting_step z z'"
  then show ?thesis
  proof cases
    case (hand_in k d)
    then show ?thesis using assms(2) by simp
  next
    case (hand_out k d p)
    then show ?thesis using weight_set_worker [OF hand_out(2), of wstate_left Idle]
      by (simp add: shutdown_work_def set_worker_def finish_def)
  qed
qed

lemma cancelled_worker_can_step:
  assumes "sys_done z" and "st \<in> set (sys_workers z)" and "st \<noteq> Exited"
  shows "\<exists>z'. worker_step z z'"
proof -
  obtain k where k: "worker_is k st z" using assms(2) by (auto simp: in_set_conv_nth worker_is_def)
  then show ?thesis
    using assms(1,3) worker_step.leave [of k z] worker_step.discard [of k _ z] worker_step.give_up [of k _ _ z Idle]
    by (cases st) blast+
qed

lemma exited_cannot_step:
  assumes "set (sys_workers z) \<subseteq> {Exited}"
  shows "\<not> worker_step z z'"
proof
  assume "worker_step z z'"
  then obtain k st where "worker_is k st z" "st \<noteq> Exited" by cases auto
  with assms worker_in_set show False by blast
qed

text \<open>The output and the error channel are closed together.\<close>

lemma closed_together:
  assumes "reachable z0 z" and "initial_system z0"
  shows "ch_closed (sys_out z) = ch_closed (sys_err z)"
  using assms
proof (induction rule: reachable.induct)
  case start
  then show ?case by (simp add: initial_system_def)
next
  case (step z z')
  then have same: "ch_closed (sys_out z) = ch_closed (sys_err z)" by blast
  consider "worker_step z z'" | "environment_step z z'" | "meeting_step z z'"
    using step(2) by (auto simp: system_step_def)
  then show ?case
    by cases (use same in \<open>auto elim!: worker_stepE environment_stepE meeting_stepE simp: set_worker_def finish_def
      chan_try_send_def chan_send_def chan_recv_def chan_close_def split: send_result.splits list.splits if_splits\<close>)
qed

lemma cancelled_workers_leave:
  assumes "reachable z0 z" and "initial_system z0" and "sys_done z"
  obtains z1 where "worker_step\<^sup>*\<^sup>* z z1" "reachable z0 z1" "set (sys_workers z1) \<subseteq> {Exited}" "sys_done z1"
    "accepted z1 = accepted z"
  using assms
proof (induction "shutdown_work z" arbitrary: z thesis rule: less_induct)
  case less
  show ?case
  proof (cases "set (sys_workers z) \<subseteq> {Exited}")
    case True
    then show ?thesis using less.prems by blast
  next
    case False
    then obtain z' where s: "worker_step z z'" using cancelled_worker_can_step less.prems(4) by blast
    note l = worker_step_left [OF s reachable_inv [OF less.prems(2,3)]]
    have "reachable z0 z'" using reachable.step [OF less.prems(2)] s unfolding system_step_def by blast
    then obtain z1 where "worker_step\<^sup>*\<^sup>* z' z1" "reachable z0 z1" "set (sys_workers z1) \<subseteq> {Exited}" "sys_done z1"
        "accepted z1 = accepted z'"
      using less.hyps [of z'] l less.prems(3,4) by blast
    then show ?thesis using less.prems(1) s l by (metis converse_rtranclp_into_rtranclp)
  qed
qed

text \<open>
  C26: a cancelled wire shuts down, so \<^verbatim>\<open>Stop\<close>, which cancels it and waits for its workers, gets past its
  waiting. Once the context is done, whatever state the workers are in and however full the channels are: a
  worker can step as long as not all have left; every step of a worker brings a measure down that no
  other step raises, unless something is submitted meanwhile; so the workers can all leave, by steps of their own,
  and every element accepted is then still in the input channel or finished. Then the channels can be
  closed, if they are not yet, both together.
\<close>

theorem cancelled_wire_shuts_down:
  assumes "initial_system z0" and "reachable z0 z" and "sys_done z"
  shows "((\<exists>z'. worker_step z z') \<longleftrightarrow> \<not> set (sys_workers z) \<subseteq> {Exited}) \<and>
    (\<forall>z'. worker_step z z' \<longrightarrow> shutdown_work z' < shutdown_work z) \<and>
    (\<forall>z'. system_step z z' \<and> accepted z' = accepted z \<longrightarrow> shutdown_work z' \<le> shutdown_work z) \<and>
    (\<exists>z1. worker_step\<^sup>*\<^sup>* z z1 \<and> set (sys_workers z1) \<subseteq> {Exited} \<and>
       mset (accepted z) = mset (map fst (finished z1)) + mset (ch_buf (sys_in z1)) \<and>
       (ch_closed (sys_out z1) \<and> ch_closed (sys_err z1) \<or>
        (\<exists>z2. environment_step z1 z2 \<and> ch_closed (sys_out z2) \<and> ch_closed (sys_err z2))))"
proof (intro conjI)
  have inv: "system_inv z" using reachable_inv assms(1,2) by blast
  show "(\<exists>z'. worker_step z z') \<longleftrightarrow> \<not> set (sys_workers z) \<subseteq> {Exited}"
    using cancelled_worker_can_step [OF assms(3)] exited_cannot_step by blast
  show "\<forall>z'. worker_step z z' \<longrightarrow> shutdown_work z' < shutdown_work z"
    using worker_step_left inv by blast
  then show "\<forall>z'. system_step z z' \<and> accepted z' = accepted z \<longrightarrow> shutdown_work z' \<le> shutdown_work z"
    using other_step_left unfolding system_step_def by (meson less_imp_le)
  obtain z1 where z1: "worker_step\<^sup>*\<^sup>* z z1" "reachable z0 z1" "set (sys_workers z1) \<subseteq> {Exited}" "sys_done z1"
      "accepted z1 = accepted z"
    by (rule cancelled_workers_leave [OF assms(2,1,3)])
  have "in_flight z1 = []" using z1(3) by (auto simp: in_flight_def)
  then have acc: "mset (accepted z) = mset (map fst (finished z1)) + mset (ch_buf (sys_in z1))"
    using reachable_inv [OF z1(2) assms(1)] z1(5) by (simp add: system_inv_def)
  have "ch_closed (sys_out z1) \<and> ch_closed (sys_err z1) \<or>
      (\<exists>z2. environment_step z1 z2 \<and> ch_closed (sys_out z2) \<and> ch_closed (sys_err z2))"
  proof (cases "ch_closed (sys_out z1)")
    case True
    then show ?thesis using closed_together [OF z1(2) assms(1)] by simp
  next
    case False
    then have "chan_close (sys_out z1) = Inr ((sys_out z1)\<lparr>ch_closed := True\<rparr>)"
        "chan_close (sys_err z1) = Inr ((sys_err z1)\<lparr>ch_closed := True\<rparr>)"
      using closed_together [OF z1(2) assms(1)] by (simp_all add: chan_close_def)
    from environment_step.close [OF z1(4,3) this] show ?thesis by (intro disjI2 exI conjI) (assumption | simp)+
  qed
  with z1 acc show "\<exists>z1. worker_step\<^sup>*\<^sup>* z z1 \<and> set (sys_workers z1) \<subseteq> {Exited} \<and>
       mset (accepted z) = mset (map fst (finished z1)) + mset (ch_buf (sys_in z1)) \<and>
       (ch_closed (sys_out z1) \<and> ch_closed (sys_err z1) \<or>
        (\<exists>z2. environment_step z1 z2 \<and> ch_closed (sys_out z2) \<and> ch_closed (sys_err z2)))"
    by blast
qed

text \<open>Cancelled with one element in a worker's hands and none in the channel.\<close>

theorem cancelled_wire_shuts_down_witness:
  "\<exists>z1. worker_step\<^sup>*\<^sup>* (sample_run\<lparr>sys_done := True\<rparr>) z1 \<and> set (sys_workers z1) \<subseteq> {Exited}"
proof -
  have "reachable (sample_system 1) (sample_run\<lparr>sys_done := True\<rparr>)"
    using reachable.step [OF sample_run_reachable] environment_step.cancel unfolding system_step_def by blast
  from cancelled_wire_shuts_down [OF sample_system_initial this] show ?thesis by auto
qed


section \<open>The element handler refines the worker's steps\<close>

text \<open>
  The system \<open>z\<close> shows wire \<open>i\<close> of the world \<open>s\<close>: a wire with its three channels and without breaker,
  insulator and encoder, whose channels, chain and cancellation are those of \<open>z\<close>.
\<close>

definition shows_wire :: "nat \<Rightarrow> 'a world \<Rightarrow> 'a wire_system \<Rightarrow> bool" where
  "shows_wire i s z \<longleftrightarrow>
     (let w = the_wire i s in
      CircuitBreaker w = None \<and> insulatorFunc w = None \<and> wire_encoder w = None \<and>
      transformations w = sys_ts z \<and> is_done (wire_ctx w) s = sys_done z \<and>
      (\<exists>ci co ce. inChan w = Some ci \<and> OutputChan w = Some co \<and> errorChan w = Some ce \<and> ci \<noteq> co \<and>
         ws_chans (w_ext s) ci = sys_in z \<and> ws_chans (w_ext s) co = sys_out z \<and> ws_echans (w_ext s) ce = sys_err z))"

lemma shows_wire_emit [simp]: "shows_wire i (emit es s) z \<longleftrightarrow> shows_wire i s z"
  by (simp add: shows_wire_def is_done_def)

lemma shows_wire_select [simp]:
  "shows_wire i (upd_ext (\<lambda>e. e\<lparr>ws_select_tick := n\<rparr>) s) z \<longleftrightarrow> shows_wire i s z"
  by (simp add: shows_wire_def is_done_def)

lemma shows_wire_worker [simp]:
  "shows_wire i s (set_worker k st z) \<longleftrightarrow> shows_wire i s z" "shows_wire i s (finish d f z) \<longleftrightarrow> shows_wire i s z"
  by (simp_all add: shows_wire_def)

lemma emit_Nil [simp]: "emit [] s = s"
  by (simp add: emit_def)

lemma transformElement_plain:
  assumes "shows_wire i s z"
  obtains es where "transformElement seen i d tel s = (transform_loop (sys_ts z) d, emit es s)"
proof -
  obtain p err where t: "transform_loop (sys_ts z) d = (p, err)" by fastforce
  have "transformElement seen i d tel s = ((p, err),
      emit (if err = None \<and> tel then notifyElementProcessed (the_wire i s) p else []) s)"
    unfolding transformElement_def Let_def transform_chain_eq
    using assms t
    by (cases err) (auto simp: shows_wire_def Let_def handleProcessingError_def record_on_breaker_def)
  with that t show thesis by metis
qed

lemma worker_is_set [simp]: "worker_is k st z \<Longrightarrow> worker_is k st' (set_worker k st' z)"
  by (simp add: worker_is_def set_worker_def)

lemma set_worker_twice [simp]: "set_worker k st (set_worker k st' z) = set_worker k st z"
  by (simp add: set_worker_def)

text \<open>The report of an error is the worker's step \<open>report\<close>; with the error channel open it returns.\<close>

lemma handleError_report:
  assumes "shows_wire i s z" and "\<not> ch_closed (sys_err z)"
  obtains s' ch where "handleError i d e s = Some s'"
    "chan_try_send \<lparr>ee_Err = e, ee_Elem = d\<rparr> (sys_err z) = Inr ch" "shows_wire i s' (z\<lparr>sys_err := ch\<rparr>)"
proof -
  have "\<exists>ch. chan_try_send \<lparr>ee_Err = e, ee_Elem = d\<rparr> (sys_err z) = Inr ch"
    using assms(2) by (simp add: chan_try_send_def chan_send_def)
  then obtain ch where ch: "chan_try_send \<lparr>ee_Err = e, ee_Elem = d\<rparr> (sys_err z) = Inr ch" ..
  obtain ce where ce: "errorChan (the_wire i s) = Some ce" "ws_echans (w_ext s) ce = sys_err z"
    using assms(1) by (auto simp: shows_wire_def Let_def)
  with ch have "handleError i d e s = Some (put_echan ce ch s)"
    by (simp add: handleError_def)
  moreover have "shows_wire i (put_echan ce ch s) (z\<lparr>sys_err := ch\<rparr>)"
    using assms(1) ce by (auto simp: shows_wire_def Let_def is_done_def put_echan_def upd_ext_def the_wire_def)
  ultimately show thesis using that ch by blast
qed

text \<open>
  Sending the result is the worker's step \<open>send\<close>, or \<open>give_up\<close> when the wire was cancelled; it
  returns when the output channel has room or the wire is cancelled.
\<close>

lemma submitProcessedElement_send:
  assumes "shows_wire i s z" and "\<not> ch_closed (sys_out z)"
    and "length (ch_buf (sys_out z)) < ch_cap (sys_out z) \<or> sys_done z"
  obtains s' ch where "submitProcessedElement i p s = Some s'"
      "chan_send p (sys_out z) = Sent ch" "shows_wire i s' (z\<lparr>sys_out := ch\<rparr>)"
  | s' where "submitProcessedElement i p s = Some s'" "sys_done z" "shows_wire i s' z"
proof -
  let ?w = "the_wire i s"
  obtain co where co: "OutputChan ?w = Some co" "ws_chans (w_ext s) co = sys_out z"
    and dn: "is_done (wire_ctx ?w) s = sys_done z" and enc: "wire_encoder ?w = None"
    using assms(1) by (auto simp: shows_wire_def Let_def)
  let ?ready = "(if chan_send p (sys_out z) = SendBlocks then [] else [True]) @ (if sys_done z then [False] else [])"
  let ?cancel = "\<lambda>s. emit (notifyCancel (the_wire i s) p) s"
  have sub: "submitProcessedElement i p s = send_or_done (Some co) p (wire_ctx ?w) ?cancel s"
    using co enc by (simp add: submitProcessedElement_def)
  have "?ready \<noteq> []" using assms(2,3) by (auto simp: chan_send_def)
  then obtain b s1 where sel: "select_case ?ready s = Some (b, s1)"
    by (cases "select_case ?ready s") auto
  then have s1: "b \<in> set ?ready" "s1 = upd_ext (\<lambda>e. e\<lparr>ws_select_tick := Suc (ws_select_tick (w_ext s))\<rparr>) s"
    by (auto simp: select_case_def upd_ext_def dest: select_pick_mem)
  show thesis
  proof (cases b)
    case False
    with sel have "submitProcessedElement i p s = Some (?cancel s1)"
      by (simp add: sub send_or_done_def Let_def co dn)
    with False s1 that(2) assms(1) show ?thesis by (auto split: if_splits)
  next
    case True
    with s1 assms(2) obtain ch where ch: "chan_send p (sys_out z) = Sent ch"
      by (auto simp: chan_send_def split: if_splits)
    have "shows_wire i (put_chan co ch s1) (z\<lparr>sys_out := ch\<rparr>)"
      using assms(1) co s1 by (auto simp: shows_wire_def Let_def is_done_def put_chan_def upd_ext_def the_wire_def)
    moreover have "submitProcessedElement i p s = Some (put_chan co ch s1)"
      using sel True by (simp add: sub send_or_done_def Let_def co dn ch)
    ultimately show ?thesis using that(1) ch by blast
  qed
qed


text \<open>
  C4: the element handler of a worker refines the steps of the concurrent system. On a wire the
  system shows, with the worker holding the element, the channels open and room in the
  output channel (or the wire cancelled), \<^verbatim>\<open>handleElement\<close> returns, and its effect on the wire's
  channels is that of steps of this worker: afterwards the worker is idle again and
  exactly this element has been added to the finished ones.
\<close>

theorem handleElement_refines_worker:
  assumes "shows_wire i s z" and "worker_is k (Holding d) z" and "seen 0 \<longrightarrow> sys_done z"
    and "\<not> ch_closed (sys_out z)" and "\<not> ch_closed (sys_err z)"
    and "length (ch_buf (sys_out z)) < ch_cap (sys_out z) \<or> sys_done z"
  shows "\<exists>s' z' f. handleElement seen sub i d tel s = Some s' \<and> worker_step\<^sup>*\<^sup>* z z' \<and> shows_wire i s' z' \<and>
    sys_workers z' = (sys_workers z)[k := Idle] \<and> finished z' = finished z @ [(d, f)]"
proof (cases "seen 0")
  case True
  with assms(1-3) worker_step.discard [of k d z] show ?thesis
    by (intro exI [of _ s] exI [of _ "finish d Dropped (set_worker k Idle z)"])
      (auto simp: handleElement_def set_worker_def shows_wire_def finish_def)
next
  case False
  obtain es where te: "transformElement seen i d tel s = (transform_loop (sys_ts z) d, emit es s)"
    using transformElement_plain [OF assms(1)] by blast
  have sh: "shows_wire i (emit es s) z" using assms(1) by simp
  have cb: "CircuitBreaker (the_wire i s) = None" using assms(1) by (simp add: shows_wire_def Let_def)
  obtain p err where t: "transform_loop (sys_ts z) d = (p, err)" by fastforce
  have he: "handleElement seen sub i d tel s =
      (case err of Some e \<Rightarrow> handleError i d e (emit es s) | None \<Rightarrow> submitProcessedElement i p (emit es s))"
    using False te t cb by (simp add: handleElement_def shouldDivertError_def)
  show ?thesis
  proof (cases err)
    case (Some e)
    obtain s' ch where s': "handleError i d e (emit es s) = Some s'"
      "chan_try_send \<lparr>ee_Err = e, ee_Elem = d\<rparr> (sys_err z) = Inr ch" "shows_wire i s' (z\<lparr>sys_err := ch\<rparr>)"
      using handleError_report [OF sh assms(5)] by blast
    let ?z = "finish d (Failed e) (set_worker k Idle (z\<lparr>sys_err := ch\<rparr>))"
    have "worker_step z ?z" using worker_step.report [OF assms(2) _ s'(2)] t Some by simp
    with he Some s' show ?thesis
      by (intro exI [of _ s'] exI [of _ ?z]) (auto simp: set_worker_def finish_def shows_wire_def)
  next
    case None
    let ?zs = "set_worker k (Sending d p) z"
    have st: "worker_step z ?zs" using worker_step.transform [OF assms(2)] t None by simp
    have wk: "worker_is k (Sending d p) ?zs" using assms(2) by simp
    show ?thesis
    proof (rule submitProcessedElement_send [OF sh assms(4,6), of p])
      fix s' ch
      assume s': "submitProcessedElement i p (emit es s) = Some s'" "chan_send p (sys_out z) = Sent ch"
        "shows_wire i s' (z\<lparr>sys_out := ch\<rparr>)"
      let ?z = "finish d (WasSent p) (set_worker k Idle (?zs\<lparr>sys_out := ch\<rparr>))"
      have "worker_step ?zs ?z" using worker_step.send [OF wk] s'(2) by simp
      with st have "worker_step\<^sup>*\<^sup>* z ?z" by (meson converse_rtranclp_into_rtranclp r_into_rtranclp)
      with he None s' show ?thesis
        by (intro exI [of _ s'] exI [of _ ?z]) (auto simp: set_worker_def finish_def shows_wire_def)
    next
      fix s'
      assume s': "submitProcessedElement i p (emit es s) = Some s'" "sys_done z" "shows_wire i s' z"
      let ?z = "finish d Dropped (set_worker k Idle ?zs)"
      have "worker_step ?zs ?z" using worker_step.give_up [OF wk, of Idle] s'(2) by simp
      with st have "worker_step\<^sup>*\<^sup>* z ?z" by (meson converse_rtranclp_into_rtranclp r_into_rtranclp)
      with he None s' show ?thesis
        by (intro exI [of _ s'] exI [of _ ?z]) (auto simp: set_worker_def finish_def shows_wire_def)
    qed
  qed
qed

definition busy_system :: "nat wire_system" where
  "busy_system =
     (system_of 0 (plain_wire_world 4))\<lparr>sys_err := make_chan 2, sys_workers := [Holding 5], accepted := [5]\<rparr>"

theorem handleElement_refines_worker_witness:
  "\<exists>s' z' f. handleElement (\<lambda>_. False) (\<lambda>c i d s. None) 0 5 False (put_echan 2 (make_chan 2) (plain_wire_world 4)) = Some s' \<and>
     worker_step\<^sup>*\<^sup>* busy_system z' \<and> shows_wire 0 s' z' \<and> sys_workers z' = [Idle] \<and> finished z' = [(5, f)]"
  using handleElement_refines_worker [of 0 "put_echan 2 (make_chan 2) (plain_wire_world 4)" busy_system 0 5
      "\<lambda>_. False" "\<lambda>c i d s. None" False]
  by (simp add: busy_system_def system_of_def shows_wire_def worker_is_def plain_wire_world_def NewWire_base_def
      make_chan_def Let_def is_done_def put_echan_def put_chan_def upd_ext_def the_wire_def put_wire_def
      empty_world_def empty_wsys_def ctx_Done_def)

end
