(* ===== verification/Plug.thy ===== *)
theory Plug
  imports Telemetry Go_Chan
begin

text \<open>
  The plug (\<^verbatim>\<open>src/pkg/internal/plug\<close>): the adapters and adapter functions a generator runs. Adapters
  and adapter functions are external code and appear by identity. A frozen plug refuses every
  change; nothing thaws it.
\<close>

record plug =
  plug_metadata :: metadata
  plug_ctx :: ctx
  plug_loggers :: "logger list"
  plug_sensors :: "sensor list"
  adapterFns :: "nat list"
  adapters :: "nat list"
  frozen :: int

definition plug_NotifyLoggers ::
  "plug \<Rightarrow> loglevel \<Rightarrow> string \<Rightarrow> (string \<times> 'a logval) list \<Rightarrow> 'a effect list" where
  "plug_NotifyLoggers p level msg kvs = log_calls logger_wants_by_level (plug_loggers p) level msg kvs"

definition Freeze :: "plug \<Rightarrow> plug" where
  "Freeze p = p\<lparr>frozen := 1\<rparr>"

definition requireNotFrozen :: "string \<Rightarrow> plug \<Rightarrow> panic option" where
  "requireNotFrozen action p =
     (if frozen p = 1 then Some (Panic (''plug: '' @ action @ '' called after Freeze'')) else None)"

definition if_not_frozen :: "string \<Rightarrow> plug \<Rightarrow> 'r \<Rightarrow> panic + 'r" where
  "if_not_frozen action p r = (case requireNotFrozen action p of Some pn \<Rightarrow> Inl pn | None \<Rightarrow> Inr r)"

definition plug_SetComponentMetadata :: "string \<Rightarrow> string \<Rightarrow> plug \<Rightarrow> panic + plug" where
  "plug_SetComponentMetadata name ident p =
     if_not_frozen ''SetComponentMetadata'' p
       (p\<lparr>plug_metadata := \<lparr>meta_ID = ident, meta_Type = meta_Type (plug_metadata p), meta_Name = name\<rparr>\<rparr>)"

definition AddAdapterFunc :: "nat option list \<Rightarrow> plug \<Rightarrow> panic + plug" where
  "AddAdapterFunc funcs p =
     if_not_frozen ''AddAdapterFunc'' p
       (let fs = nonnil funcs in if fs = [] then p else p\<lparr>adapterFns := adapterFns p @ fs\<rparr>)"

definition ConnectAdapter :: "nat option list \<Rightarrow> plug \<Rightarrow> panic + plug" where
  "ConnectAdapter as p =
     if_not_frozen ''ConnectAdapter'' p
       (let cs = nonnil as in if cs = [] then p else p\<lparr>adapters := adapters p @ cs\<rparr>)"

definition plug_ConnectSensor :: "sensor option list \<Rightarrow> plug \<Rightarrow> panic + plug \<times> 'a effect list" where
  "plug_ConnectSensor sensors p =
     if_not_frozen ''ConnectSensor'' p
       (let ss = nonnil sensors in
        if ss = [] then (p, [])
        else let p' = p\<lparr>plug_sensors := plug_sensors p @ ss\<rparr> in
          (p', concat (map (\<lambda>s. plug_NotifyLoggers p' DebugLevel ''ConnectSensor''
                 [(''component'', LMeta (plug_metadata p')), (''event'', LStr ''ConnectSensor''),
                  (''sensor'', LMeta (sensor_metadata s))]) ss)))"

definition plug_ConnectLogger :: "logger option list \<Rightarrow> plug \<Rightarrow> panic + plug" where
  "plug_ConnectLogger loggers p =
     if_not_frozen ''ConnectLogger'' p
       (let ls = nonnil loggers in if ls = [] then p else p\<lparr>plug_loggers := plug_loggers p @ ls\<rparr>)"

definition GetAdapterFuncs :: "plug \<Rightarrow> nat list" where
  "GetAdapterFuncs p = adapterFns p"

definition GetConnectors :: "plug \<Rightarrow> nat list" where
  "GetConnectors p = adapters p"

datatype plug_option =
    P_WithAdapterFunc "nat option list"
  | P_WithAdapter "nat option list"
  | P_WithLogger "logger option list"
  | P_WithSensor "sensor option list"

fun apply_plug_option :: "plug_option \<Rightarrow> plug \<Rightarrow> panic + plug \<times> 'a effect list" where
  "apply_plug_option (P_WithAdapterFunc fs) p = map_sum id (\<lambda>p'. (p', [])) (AddAdapterFunc fs p)"
| "apply_plug_option (P_WithAdapter as) p = map_sum id (\<lambda>p'. (p', [])) (ConnectAdapter as p)"
| "apply_plug_option (P_WithLogger ls) p = map_sum id (\<lambda>p'. (p', [])) (plug_ConnectLogger ls p)"
| "apply_plug_option (P_WithSensor ss) p = plug_ConnectSensor ss p"

fun apply_plug_options :: "plug_option option list \<Rightarrow> plug \<Rightarrow> panic + plug \<times> 'a effect list" where
  "apply_plug_options [] p = Inr (p, [])"
| "apply_plug_options (None # os) p = apply_plug_options os p"
| "apply_plug_options (Some opt # os) p =
     (case apply_plug_option opt p of
        Inl pn \<Rightarrow> Inl pn
      | Inr (p1, e1) \<Rightarrow>
        (case apply_plug_options os p1 of Inl pn \<Rightarrow> Inl pn | Inr (p2, e2) \<Rightarrow> Inr (p2, e1 @ e2)))"

definition NewPlug :: "string \<Rightarrow> nat \<Rightarrow> ctx option \<Rightarrow> plug_option option list \<Rightarrow> panic + plug \<times> 'a effect list" where
  "NewPlug hash fresh co options =
     apply_plug_options options
       \<lparr>plug_metadata = \<lparr>meta_ID = hash, meta_Type = ''PLUG'', meta_Name = ''''\<rparr>,
        plug_ctx = WithCancel fresh (case co of None \<Rightarrow> Background | Some c \<Rightarrow> c),
        plug_loggers = [], plug_sensors = [], adapterFns = [], adapters = [], frozen = 0\<rparr>"

section \<open>Lemmas\<close>

lemma if_not_frozen_Inr [simp]: "frozen p \<noteq> 1 \<Longrightarrow> if_not_frozen action p r = Inr r"
  by (simp add: if_not_frozen_def requireNotFrozen_def)

lemma if_not_frozen_Inl [simp]:
  "frozen p = 1 \<Longrightarrow> if_not_frozen action p r = Inl (Panic (''plug: '' @ action @ '' called after Freeze''))"
  by (simp add: if_not_frozen_def requireNotFrozen_def)

lemma plug_ConnectSensor_thawed:
  "frozen p \<noteq> 1 \<Longrightarrow> \<exists>es. plug_ConnectSensor ss p = Inr (p\<lparr>plug_sensors := plug_sensors p @ nonnil ss\<rparr>, es)"
  by (simp add: plug_ConnectSensor_def Let_def)

end
