(* ===== verification/Generator.thy ===== *)
theory Generator
  imports Plug Wire_Lifecycle
begin

text \<open>
  The generator (\<^verbatim>\<open>src/pkg/internal/generator\<close>): it runs the adapter functions and adapters of its
  plugs, each in a goroutine, and hands what they produce to the connected components. Its
  plugs live in a store (they are shared objects), the connected components are wires of the
  world, and the goroutines it has launched and that have not ended are a list.
\<close>

section \<open>State\<close>

datatype gtask =
    ControlLoop
  | AdapterFuncTask nat
  | ServeTask nat
  | BreakerTicker \<comment> \<open>not counted in the wait group\<close>

record generator =
  gen_metadata :: metadata
  gen_ctx :: ctx
  gen_tasks :: "gtask list"
  gen_loggers :: "logger list"
  gen_sensors :: "sensor list"
  connectedComponents :: "component_ref list"
  plugs :: "nat list"
  gen_started :: int
  gen_CircuitBreaker :: "nat option"
  gen_controlChan :: "bool gochan"
  stopOnce :: bool

record 'a gen_sys =
  gs_gen :: generator
  gs_plugs :: "nat \<Rightarrow> plug"
  gs_world :: "'a world"

definition gs_emit :: "'a effect list \<Rightarrow> 'a gen_sys \<Rightarrow> 'a gen_sys" where
  "gs_emit es z = z\<lparr>gs_world := emit es (gs_world z)\<rparr>"

section \<open>Telemetry\<close>

definition gen_NotifyLoggers ::
  "generator \<Rightarrow> loglevel \<Rightarrow> string \<Rightarrow> (string \<times> 'a logval) list \<Rightarrow> 'a effect list" where
  "gen_NotifyLoggers g level msg kvs = log_calls logger_wants_by_level (gen_loggers g) level msg kvs"

definition gen_notifyStart :: "generator \<Rightarrow> 'a effect list" where
  "gen_notifyStart g = sensor_calls (gen_sensors g) (InvokeOnStart (gen_metadata g))"

definition gen_notifyStop :: "generator \<Rightarrow> 'a effect list" where
  "gen_notifyStop g = sensor_calls (gen_sensors g) (InvokeOnStop (gen_metadata g))"

definition gen_notifyRestart :: "generator \<Rightarrow> 'a effect list" where
  "gen_notifyRestart g = sensor_calls (gen_sensors g) (InvokeOnRestart (gen_metadata g))"

section \<open>Configuration\<close>

definition gen_requireNotStarted :: "string \<Rightarrow> generator \<Rightarrow> panic option" where
  "gen_requireNotStarted action g =
     (if gen_started g = 1 then Some (Panic (''generator: '' @ action @ '' called after Start'')) else None)"

definition gen_guard :: "string \<Rightarrow> 'a gen_sys \<Rightarrow> (panic + 'a gen_sys) \<Rightarrow> panic + 'a gen_sys" where
  "gen_guard action z r = (case gen_requireNotStarted action (gs_gen z) of Some p \<Rightarrow> Inl p | None \<Rightarrow> r)"

definition gen_SetComponentMetadata :: "string \<Rightarrow> string \<Rightarrow> 'a gen_sys \<Rightarrow> panic + 'a gen_sys" where
  "gen_SetComponentMetadata name ident z =
     gen_guard ''SetComponentMetadata'' z
       (let g = gs_gen z in
        Inr (z\<lparr>gs_gen := g\<lparr>gen_metadata := \<lparr>meta_ID = ident, meta_Type = meta_Type (gen_metadata g), meta_Name = name\<rparr>\<rparr>\<rparr>))"

fun attach_loop :: "sensor list \<Rightarrow> nat list \<Rightarrow> 'a gen_sys \<Rightarrow> panic + 'a gen_sys" where
  "attach_loop ss [] z = Inr z"
| "attach_loop ss (p # ps) z =
     (case plug_ConnectSensor (map Some ss) (gs_plugs z p) of
        Inl pn \<Rightarrow> Inl pn
      | Inr (p', es) \<Rightarrow> attach_loop ss ps (gs_emit es (z\<lparr>gs_plugs := (gs_plugs z)(p := p')\<rparr>)))"

definition attachSensorsToPlugs :: "nat list \<Rightarrow> 'a gen_sys \<Rightarrow> panic + 'a gen_sys" where
  "attachSensorsToPlugs ps z =
     (if length ps = 0 \<or> length (gen_sensors (gs_gen z)) = 0 then Inr z
      else attach_loop (gen_sensors (gs_gen z)) ps z)"

definition gen_ConnectCircuitBreaker :: "nat option \<Rightarrow> 'a gen_sys \<Rightarrow> panic + 'a gen_sys" where
  "gen_ConnectCircuitBreaker cb z =
     gen_guard ''ConnectCircuitBreaker'' z
       (let g = (gs_gen z)\<lparr>gen_CircuitBreaker := cb\<rparr> in
        Inr (gs_emit (gen_NotifyLoggers g DebugLevel ''ConnectCircuitBreaker: connected circuit breaker'' [])
               (z\<lparr>gs_gen := g\<rparr>)))"

definition gen_ConnectLogger :: "logger option list \<Rightarrow> 'a gen_sys \<Rightarrow> panic + 'a gen_sys" where
  "gen_ConnectLogger loggers z =
     gen_guard ''ConnectLogger'' z
       (let ls = nonnil loggers; g = gs_gen z in
        if ls = [] then Inr z else Inr (z\<lparr>gs_gen := g\<lparr>gen_loggers := gen_loggers g @ ls\<rparr>\<rparr>))"

definition gen_ConnectSensor :: "sensor option list \<Rightarrow> 'a gen_sys \<Rightarrow> panic + 'a gen_sys" where
  "gen_ConnectSensor sensors z =
     gen_guard ''ConnectSensor'' z
       (let ss = nonnil sensors in
        if ss = [] then Inr z
        else
          let g = (gs_gen z)\<lparr>gen_sensors := gen_sensors (gs_gen z) @ ss\<rparr> in
          case attachSensorsToPlugs (plugs g) (z\<lparr>gs_gen := g\<rparr>) of
            Inl p \<Rightarrow> Inl p
          | Inr z1 \<Rightarrow>
              Inr (gs_emit (concat (map (\<lambda>s. gen_NotifyLoggers g DebugLevel ''ConnectSensor''
                     [(''component'', LMeta (gen_metadata g)), (''event'', LStr ''ConnectSensor''),
                      (''sensor'', LMeta (sensor_metadata s))]) ss)) z1))"

definition ConnectPlug :: "nat option list \<Rightarrow> 'a gen_sys \<Rightarrow> panic + 'a gen_sys" where
  "ConnectPlug newplugs z =
     gen_guard ''ConnectPlug'' z
       (let ps = nonnil newplugs; g = gs_gen z in
        if ps = [] then Inr z
        else attachSensorsToPlugs ps (z\<lparr>gs_gen := g\<lparr>plugs := plugs g @ ps\<rparr>\<rparr>))"

definition ConnectToComponent :: "component_ref option list \<Rightarrow> 'a gen_sys \<Rightarrow> panic + 'a gen_sys" where
  "ConnectToComponent submitters z =
     gen_guard ''ConnectToComponent'' z
       (let cs = nonnil submitters; g = gs_gen z in
        if cs = [] then Inr z else Inr (z\<lparr>gs_gen := g\<lparr>connectedComponents := connectedComponents g @ cs\<rparr>\<rparr>))"

definition generator_IsStarted :: "generator \<Rightarrow> bool" where
  "generator_IsStarted g \<longleftrightarrow> gen_started g = 1"

datatype gen_option =
    G_WithPlug "nat option list"
  | G_WithLogger "logger option list"
  | G_WithCircuitBreaker "nat option"
  | G_WithSensor "sensor option list"

fun apply_gen_option :: "gen_option \<Rightarrow> 'a gen_sys \<Rightarrow> panic + 'a gen_sys" where
  "apply_gen_option (G_WithPlug ps) z = ConnectPlug ps z"
| "apply_gen_option (G_WithLogger ls) z = gen_ConnectLogger ls z"
| "apply_gen_option (G_WithCircuitBreaker cb) z = gen_ConnectCircuitBreaker cb z"
| "apply_gen_option (G_WithSensor ss) z = gen_ConnectSensor ss z"

fun apply_gen_options :: "gen_option option list \<Rightarrow> 'a gen_sys \<Rightarrow> panic + 'a gen_sys" where
  "apply_gen_options [] z = Inr z"
| "apply_gen_options (None # os) z = apply_gen_options os z"
| "apply_gen_options (Some opt # os) z =
     (case apply_gen_option opt z of Inl p \<Rightarrow> Inl p | Inr z1 \<Rightarrow> apply_gen_options os z1)"

definition NewGenerator_base :: "string \<Rightarrow> ctx \<Rightarrow> generator" where
  "NewGenerator_base hash c =
     \<lparr>gen_metadata = \<lparr>meta_ID = hash, meta_Type = ''GENERATOR'', meta_Name = ''''\<rparr>, gen_ctx = c, gen_tasks = [],
      gen_loggers = [], gen_sensors = [], connectedComponents = [], plugs = [], gen_started = 0,
      gen_CircuitBreaker = None, gen_controlChan = make_chan 1, stopOnce = False\<rparr>"

definition NewGenerator ::
  "string \<Rightarrow> ctx option \<Rightarrow> gen_option option list \<Rightarrow> (nat \<Rightarrow> plug) \<Rightarrow> 'a world \<Rightarrow> panic + 'a gen_sys" where
  "NewGenerator hash co options ps w =
     (let base = (case co of None \<Rightarrow> Background | Some c \<Rightarrow> c); (c, w1) = new_ctx base w in
      case apply_gen_options options \<lparr>gs_gen = NewGenerator_base hash c, gs_plugs = ps, gs_world = w1\<rparr> of
        Inl p \<Rightarrow> Inl p
      | Inr z \<Rightarrow> attachSensorsToPlugs (plugs (gs_gen z)) z)"

section \<open>Submission\<close>

text \<open>
  The function \<^verbatim>\<open>buildSubmitFunc\<close> returns: over the components and the breaker it captured. A wire
  implements \<^verbatim>\<open>FastSubmit\<close>, so this is the method it uses.
\<close>

fun submit_each :: "('a submit_fn) \<Rightarrow> nat option \<Rightarrow> component_ref list \<Rightarrow> ctx \<Rightarrow> 'a \<Rightarrow> 'a world \<Rightarrow>
    (gerr option \<times> 'a world) option" where
  "submit_each sub cb [] cx item s = Some (None, s)"
| "submit_each sub cb (c # cs) cx item s =
     (case sub cx (ref_id c) item s of
        None \<Rightarrow> None
      | Some (Some err, s1) \<Rightarrow> Some (Some err, case cb of None \<Rightarrow> s1 | Some b \<Rightarrow> RecordError_of b s1)
      | Some (None, s1) \<Rightarrow> submit_each sub cb cs cx item s1)"

definition buildSubmitFunc :: "('a submit_fn) \<Rightarrow> generator \<Rightarrow> ctx \<Rightarrow> 'a \<Rightarrow> 'a world \<Rightarrow> (gerr option \<times> 'a world) option" where
  "buildSubmitFunc sub g cx item s =
     (let cb = gen_CircuitBreaker g;
          (allowed, s1) = (case cb of None \<Rightarrow> (True, s) | Some b \<Rightarrow> Allow_of b s)
      in if \<not> allowed then Some (Some (Err ''operation halted, circuit breaker is open''), s1)
         else submit_each sub cb (connectedComponents g) cx item s1)"

section \<open>Lifecycle\<close>

fun freeze_loop :: "nat list \<Rightarrow> (nat \<Rightarrow> plug) \<Rightarrow> nat \<Rightarrow> plug" where
  "freeze_loop [] ps = ps"
| "freeze_loop (p # rest) ps = freeze_loop rest (ps(p := Freeze (ps p)))"

text \<open>The goroutines launched for the plugs: each plug's adapter functions, then its adapters.\<close>

definition plug_tasks :: "plug \<Rightarrow> gtask list" where
  "plug_tasks p = map AdapterFuncTask (GetAdapterFuncs p) @ map ServeTask (GetConnectors p)"

definition gen_Start_op :: "ctx option \<Rightarrow> 'a gen_sys \<Rightarrow> gerr option \<times> 'a gen_sys" where
  "gen_Start_op co z =
     (let g = gs_gen z in
      if gen_started g \<noteq> 0 then (Some (Err ''generator already started''), z)
      else
        let cx = (case co of None \<Rightarrow> Background | Some c \<Rightarrow> c);
            err = ctx_Err (ws_cancelled (w_ext (gs_world z))) cx in
        if err \<noteq> None then (err, z\<lparr>gs_gen := g\<lparr>gen_started := 0\<rparr>\<rparr>)
        else
          let g1 = g\<lparr>gen_started := 1, stopOnce := False\<rparr>;
              w1 = emit (gen_notifyStart g1) (gs_world z);
              (c, w2) = new_ctx cx w1;
              ps = freeze_loop (plugs g1) (gs_plugs z);
              tasks = [ControlLoop] @ (if gen_CircuitBreaker g1 \<noteq> None then [BreakerTicker] else []) @
                      concat (map (\<lambda>p. plug_tasks (ps p)) (plugs g1))
          in (None, \<lparr>gs_gen = g1\<lparr>gen_ctx := c, gen_tasks := gen_tasks g1 @ tasks\<rparr>, gs_plugs = ps, gs_world = w2\<rparr>))"

text \<open>
  What a task of an adapter does when it runs: ask the breaker, serve, record an error of
  \<^verbatim>\<open>Serve\<close>. \<open>serve\<close> is the adapter's method, external code.
\<close>

definition run_serve_task ::
  "string \<Rightarrow> (nat \<Rightarrow> 'a world \<Rightarrow> gerr option \<times> 'a world) \<Rightarrow> generator \<Rightarrow> nat \<Rightarrow> 'a world \<Rightarrow> 'a world" where
  "run_serve_task what serve g pc s =
     (let cb = gen_CircuitBreaker g;
          (allowed, s1) = (case cb of None \<Rightarrow> (True, s) | Some b \<Rightarrow> Allow_of b s)
      in if \<not> allowed then
           emit (gen_NotifyLoggers g WarnLevel (''Serve: skipped '' @ what @ '' due to open circuit breaker'') []) s1
         else case serve pc s1 of
           (Some err, s2) \<Rightarrow> (case cb of None \<Rightarrow> s2 | Some b \<Rightarrow> RecordError_of b s2)
         | (None, s2) \<Rightarrow> s2)"

text \<open>One tick of the breaker ticker, and one message of the control loop.\<close>

definition gen_ticker_tick :: "'a gen_sys \<Rightarrow> panic + 'a gen_sys" where
  "gen_ticker_tick z =
     (let g = gs_gen z;
          (allowed, w1) = (case gen_CircuitBreaker g of None \<Rightarrow> (True, gs_world z) | Some b \<Rightarrow> Allow_of b (gs_world z))
      in case chan_try_send allowed (gen_controlChan g) of
           Inl p \<Rightarrow> Inl p
         | Inr ch \<Rightarrow> Inr (z\<lparr>gs_gen := g\<lparr>gen_controlChan := ch\<rparr>, gs_world := w1\<rparr>))"

definition restartConnectors :: "'a gen_sys \<Rightarrow> 'a gen_sys" where
  "restartConnectors z =
     (let g = gs_gen z;
          tasks = concat (map (\<lambda>p. map ServeTask (GetConnectors (gs_plugs z p))) (plugs g))
      in z\<lparr>gs_gen := g\<lparr>gen_tasks := gen_tasks g @ tasks\<rparr>\<rparr>)"

definition control_loop_round :: "'a gen_sys \<Rightarrow> 'a gen_sys option" where
  "control_loop_round z =
     (case chan_recv (gen_controlChan (gs_gen z)) of
        Received allowed ch \<Rightarrow>
          let z1 = z\<lparr>gs_gen := (gs_gen z)\<lparr>gen_controlChan := ch\<rparr>\<rparr>
          in Some (if allowed then restartConnectors z1 else z1)
      | _ \<Rightarrow> None)"

definition gen_Stop :: "('a gen_sys \<Rightarrow> 'a gen_sys) \<Rightarrow> 'a gen_sys \<Rightarrow> gerr option \<times> 'a gen_sys" where
  "gen_Stop wait z =
     (let g = gs_gen z in
      if stopOnce g then (None, z)
      else if gen_started g \<noteq> 1 then (None, z\<lparr>gs_gen := g\<lparr>stopOnce := True\<rparr>\<rparr>)
      else
        let g1 = g\<lparr>stopOnce := True, gen_started := 0\<rparr>;
            w1 = emit (gen_notifyStop g1) (gs_world z);
            w2 = cancel_ctx (gen_ctx g1) w1
        in (None, wait (z\<lparr>gs_gen := g1, gs_world := w2\<rparr>)))"

definition gen_Restart :: "('a gen_sys \<Rightarrow> 'a gen_sys) \<Rightarrow> ctx option \<Rightarrow> 'a gen_sys \<Rightarrow> gerr option \<times> 'a gen_sys" where
  "gen_Restart wait co z =
     (case gen_Stop wait z of
        (Some err, z1) \<Rightarrow> (Some (Wrapped ''failed to stop generator during restart: '' err), z1)
      | (None, z1) \<Rightarrow> gen_Start_op co (gs_emit (gen_notifyRestart (gs_gen z1)) z1))"

section \<open>Lemmas\<close>

lemma freeze_loop_eq: "freeze_loop ps m = (\<lambda>p. if p \<in> set ps then Freeze (m p) else m p)"
proof (induction ps arbitrary: m)
  case (Cons p ps)
  then show ?case by (auto simp: fun_eq_iff Freeze_def)
qed simp

lemma GetAdapters_Freeze [simp]: "GetAdapterFuncs (Freeze p) = GetAdapterFuncs p" "GetConnectors (Freeze p) = GetConnectors p"
  by (simp_all add: GetAdapterFuncs_def GetConnectors_def Freeze_def)

lemma plug_tasks_frozen: "plug_tasks (freeze_loop ps m p) = plug_tasks (m p)"
  by (simp add: freeze_loop_eq plug_tasks_def)

text \<open>
  starting a stopped generator launches the control loop, one goroutine for every adapter function
  and every adapter of its plugs (and the ticker when there is a breaker), no more and no
  fewer, freezes all its plugs, and puts it under a fresh context; starting it again is
  an error that changes nothing.
\<close>

theorem generator_Start_launches:
  assumes "gen_started (gs_gen z) = 0" and "gen_tasks (gs_gen z) = []"
    and "\<not> ctx_Done (ws_cancelled (w_ext (gs_world z))) cx"
  shows "\<exists>z'. gen_Start_op (Some cx) z = (None, z') \<and> generator_IsStarted (gs_gen z') \<and>
    gen_tasks (gs_gen z') = ControlLoop # (if gen_CircuitBreaker (gs_gen z) \<noteq> None then [BreakerTicker] else []) @
       concat (map (\<lambda>p. map AdapterFuncTask (adapterFns (gs_plugs z p)) @ map ServeTask (adapters (gs_plugs z p)))
         (plugs (gs_gen z))) \<and>
    (\<forall>p \<in> set (plugs (gs_gen z)). frozen (gs_plugs z' p) = 1) \<and>
    gen_ctx (gs_gen z') = ws_fresh (w_ext (gs_world z)) # cx \<and>
    gen_Start_op co z' = (Some (Err ''generator already started''), z')"
  using assms
  by (simp add: gen_Start_op_def Let_def ctx_Err_def new_ctx_def WithCancel_def plug_tasks_frozen generator_IsStarted_def)
    (simp add: freeze_loop_eq Freeze_def plug_tasks_def GetAdapterFuncs_def GetConnectors_def)

definition sample_plug :: plug where
  "sample_plug = \<lparr>plug_metadata = empty_metadata, plug_ctx = [], plug_loggers = [], plug_sensors = [],
     adapterFns = [1], adapters = [2, 3], frozen = 0\<rparr>"

definition sample_sensor :: sensor where
  "sample_sensor = \<lparr>sensor_id = 9, sensor_metadata = empty_metadata, GetMeters = []\<rparr>"

definition sample_gen :: "nat gen_sys" where
  "sample_gen = \<lparr>gs_gen = (NewGenerator_base ''g'' [])\<lparr>plugs := [4], gen_CircuitBreaker := Some 0\<rparr>,
     gs_plugs = (\<lambda>p. sample_plug), gs_world = empty_world 0\<rparr>"

theorem generator_Start_launches_witness:
  "\<exists>z'. gen_Start_op (Some []) sample_gen = (None, z') \<and> generator_IsStarted (gs_gen z') \<and>
    gen_tasks (gs_gen z') = [ControlLoop, BreakerTicker, AdapterFuncTask 1, ServeTask 2, ServeTask 3] \<and>
    frozen (gs_plugs z' 4) = 1 \<and> gen_ctx (gs_gen z') = [ws_fresh (w_ext (gs_world sample_gen))] \<and>
    gen_Start_op None z' = (Some (Err ''generator already started''), z')"
  using generator_Start_launches [of sample_gen "[]" None]
  by (simp add: sample_gen_def NewGenerator_base_def sample_plug_def)

text \<open>
  after a generator with plugs has been started and stopped, \<^verbatim>\<open>ConnectSensor\<close> panics: its plugs
  stay frozen, and connecting a sensor passes it on to them.
\<close>

theorem ConnectSensor_after_Stop_panics:
  assumes "gen_started (gs_gen z) = 0" and "p \<in> set (plugs (gs_gen z))"
    and "gen_Start_op co z = (None, z1)" and "gen_Stop wait z1 = (None, z2)"
    and "\<forall>z. gs_gen (wait z) = gs_gen z \<and> gs_plugs (wait z) = gs_plugs z"
  shows "\<exists>msg. gen_ConnectSensor [Some s] z2 = Inl (Panic msg)"
proof -
  have z1: "plugs (gs_gen z1) = plugs (gs_gen z)" "gs_plugs z1 = freeze_loop (plugs (gs_gen z)) (gs_plugs z)"
    "gen_started (gs_gen z1) = 1" "\<not> stopOnce (gs_gen z1)"
    using assms(1,3) by (auto simp: gen_Start_op_def Let_def case_prod_beta split: if_splits)
  have z2: "plugs (gs_gen z2) = plugs (gs_gen z)" "gs_plugs z2 = gs_plugs z1" "gen_started (gs_gen z2) = 0"
    using assms(4,5) z1 by (auto simp: gen_Stop_def Let_def)
  have froz: "frozen (gs_plugs z2 q) = 1" if "q \<in> set (plugs (gs_gen z))" for q
    using that z1(2) z2(2) by (simp add: freeze_loop_eq Freeze_def)
  obtain q qs where ps: "plugs (gs_gen z) = q # qs" using assms(2) by (cases "plugs (gs_gen z)") auto
  define z3 where "z3 = z2\<lparr>gs_gen := (gs_gen z2)\<lparr>gen_sensors := gen_sensors (gs_gen z2) @ [s]\<rparr>\<rparr>"
  have "attachSensorsToPlugs (plugs (gs_gen z)) z3 =
      Inl (Panic (''plug: '' @ ''ConnectSensor'' @ '' called after Freeze''))"
    using froz [of q] ps by (simp add: attachSensorsToPlugs_def plug_ConnectSensor_def z3_def)
  then show ?thesis
    using z2 by (simp add: gen_ConnectSensor_def gen_guard_def gen_requireNotStarted_def Let_def z3_def)
qed

theorem ConnectSensor_after_Stop_panics_witness:
  "\<exists>z1 z2 msg. gen_Start_op None sample_gen = (None, z1) \<and> gen_Stop (\<lambda>z. z) z1 = (None, z2) \<and>
     gen_ConnectSensor [Some sample_sensor] z2 = Inl (Panic msg)"
proof -
  obtain z1 where z1: "gen_Start_op None sample_gen = (None, z1)"
    by (simp add: gen_Start_op_def sample_gen_def NewGenerator_base_def ctx_Err_def case_prod_beta Let_def)
  obtain z2 where z2: "gen_Stop (\<lambda>z. z) z1 = (None, z2)"
    using that by (cases "stopOnce (gs_gen z1)"; cases "gen_started (gs_gen z1) = 1") (auto simp: gen_Stop_def Let_def)
  show ?thesis
    using ConnectSensor_after_Stop_panics [of sample_gen 4 None z1 "\<lambda>z. z" z2 sample_sensor] z1 z2
    by (simp add: sample_gen_def NewGenerator_base_def)
qed

section \<open>The control loop\<close>

text \<open>One tick of the breaker ticker and the control loop's reaction to it.\<close>

fun ticks :: "nat \<Rightarrow> 'a gen_sys \<Rightarrow> 'a gen_sys option" where
  "ticks 0 z = Some z"
| "ticks (Suc k) z =
     (case gen_ticker_tick z of
        Inl p \<Rightarrow> None
      | Inr z1 \<Rightarrow> (case control_loop_round z1 of None \<Rightarrow> None | Some z2 \<Rightarrow> ticks k z2))"

definition serve_count :: "'a gen_sys \<Rightarrow> nat" where
  "serve_count z = length (filter (\<lambda>t. \<exists>pc. t = ServeTask pc) (gen_tasks (gs_gen z)))"

definition connector_count :: "'a gen_sys \<Rightarrow> nat" where
  "connector_count z = sum_list (map (\<lambda>p. length (adapters (gs_plugs z p))) (plugs (gs_gen z)))"

lemma serve_filter [simp]: "filter (\<lambda>t. \<exists>pc. t = ServeTask pc) (map ServeTask xs) = map ServeTask xs"
  by (induction xs) auto

lemma serve_concat:
  "length (filter (\<lambda>t. \<exists>pc. t = ServeTask pc) (concat (map (\<lambda>p. map ServeTask (f p)) ps))) = sum_list (map (\<lambda>p. length (f p)) ps)"
  by (induction ps) auto

definition breaker_closed :: "'a gen_sys \<Rightarrow> bool" where
  "breaker_closed z \<longleftrightarrow> (case gen_CircuitBreaker (gs_gen z) of None \<Rightarrow> True
     | Some b \<Rightarrow> cb_allowed (ws_breakers (w_ext (gs_world z)) b)) \<and> gen_controlChan (gs_gen z) = make_chan 1"

lemma Allow_of_closed:
  assumes "cb_allowed (ws_breakers (w_ext s) b)"
  shows "fst (Allow_of b s)" and "ws_breakers (w_ext (snd (Allow_of b s))) = ws_breakers (w_ext s)"
proof -
  have n: "cb_next OpAllow now (ws_breakers (w_ext s) b) = ws_breakers (w_ext s) b" for now
    using assms by (simp add: cb_next.simps)
  show "fst (Allow_of b s)" using assms by (simp add: Allow_of_def read_clock_def case_prod_beta Let_def)
  show "ws_breakers (w_ext (snd (Allow_of b s))) = ws_breakers (w_ext s)"
    using n by (simp add: Allow_of_def read_clock_def case_prod_beta Let_def)
qed

lemma tick_closed:
  assumes "breaker_closed z"
  shows "\<exists>z1 z2. gen_ticker_tick z = Inr z1 \<and> control_loop_round z1 = Some z2 \<and> breaker_closed z2 \<and>
    connector_count z2 = connector_count z \<and> serve_count z2 = serve_count z + connector_count z"
proof -
  let ?g = "gs_gen z"
  define w1 where "w1 = (case gen_CircuitBreaker ?g of None \<Rightarrow> gs_world z | Some b \<Rightarrow> snd (Allow_of b (gs_world z)))"
  have allowed: "(case gen_CircuitBreaker ?g of None \<Rightarrow> (True, gs_world z) | Some b \<Rightarrow> Allow_of b (gs_world z)) = (True, w1)"
    and bs: "ws_breakers (w_ext w1) = ws_breakers (w_ext (gs_world z))"
    using assms Allow_of_closed [of "gs_world z"] by (auto simp: breaker_closed_def w1_def prod_eq_iff split: option.splits)
  have ch: "gen_controlChan ?g = make_chan 1" using assms by (simp add: breaker_closed_def)
  define z1 where "z1 = z\<lparr>gs_gen := ?g\<lparr>gen_controlChan := (make_chan 1)\<lparr>ch_buf := [True]\<rparr>\<rparr>, gs_world := w1\<rparr>"
  have t: "gen_ticker_tick z = Inr z1"
    using allowed ch by (simp add: gen_ticker_tick_def Let_def chan_try_send_def chan_send_def make_chan_def z1_def)
  define z2 where "z2 = restartConnectors (z1\<lparr>gs_gen := (gs_gen z1)\<lparr>gen_controlChan := make_chan 1\<rparr>\<rparr>)"
  have c: "control_loop_round z1 = Some z2"
    by (simp add: control_loop_round_def chan_recv_def z1_def z2_def make_chan_def)
  have "breaker_closed z2" using assms bs
    by (simp add: breaker_closed_def z2_def z1_def restartConnectors_def Let_def split: option.splits)
  moreover have "connector_count z2 = connector_count z" "serve_count z2 = serve_count z + connector_count z"
    by (simp_all add: connector_count_def serve_count_def z2_def z1_def restartConnectors_def Let_def serve_concat GetConnectors_def
      length_concat o_def)
  ultimately show ?thesis using t c by blast
qed

lemma ticks_closed:
  "breaker_closed z \<Longrightarrow> \<exists>z'. ticks k z = Some z' \<and> serve_count z' = serve_count z + k * connector_count z"
proof (induction k arbitrary: z)
  case (Suc k)
  obtain z1 z2 where t: "gen_ticker_tick z = Inr z1" "control_loop_round z1 = Some z2" "breaker_closed z2"
    "connector_count z2 = connector_count z" "serve_count z2 = serve_count z + connector_count z"
    using tick_closed [OF Suc.prems] by blast
  then show ?case using Suc.IH [OF t(3)] by (auto simp: algebra_simps)
qed simp

text \<open>
  a generator with a closed breaker launches every adapter again on every tick of its
  breaker ticker, ten times a second, although none has failed: after \<open>k\<close> ticks each adapter
  has been served \<open>k\<close> more times.
\<close>

theorem closed_breaker_multiplies_Serve:
  assumes "breaker_closed z"
  shows "\<exists>z'. ticks k z = Some z' \<and> serve_count z' = serve_count z + k * connector_count z"
  using ticks_closed [OF assms] .

theorem closed_breaker_multiplies_Serve_witness:
  "\<exists>z'. ticks 600 (snd (gen_Start_op None sample_gen)) = Some z' \<and> serve_count z' = 2 + 600 * 2"
proof -
  let ?z = "snd (gen_Start_op None sample_gen)"
  have z: "breaker_closed ?z" "serve_count ?z = 2" "connector_count ?z = 2"
    by (simp_all add: gen_Start_op_def sample_gen_def NewGenerator_base_def ctx_Err_def new_ctx_def Let_def breaker_closed_def
        serve_count_def connector_count_def plug_tasks_frozen freeze_loop_eq Freeze_def plug_tasks_def sample_plug_def
        GetAdapterFuncs_def GetConnectors_def empty_world_def empty_wsys_def NewCircuitBreaker_base_def)
  show ?thesis using closed_breaker_multiplies_Serve [OF z(1), of 600] z by simp
qed


section \<open>Submission\<close>

text \<open>
  what a generator's submit function promises. With an open breaker it reports that the
  operation is halted and no channel changes. Without a breaker, connected to one wire that
  has no breaker and no protector of its own and has room, it returns; without an error the
  item is in the wire's input channel once, with an error the channel is unchanged.
\<close>

theorem generator_submits_to_wire:
  fixes s :: "'a world"
  assumes "map ref_id (connectedComponents g) = [i]" and "0 < room_in i (w_ext s)"
    and "CircuitBreaker (the_wire i s) = None" and "\<not> wire_surgeProtector (the_wire i s)"
  shows "(gen_CircuitBreaker g = None \<longrightarrow>
      (\<exists>err s'. buildSubmitFunc (\<lambda>cx j. FastSubmit (Suc n) env wait cx j) g cx item s = Some (err, s') \<and>
         delivered_in i (w_ext s') =
           (if err = None then add_mset item (delivered_in i (w_ext s)) else delivered_in i (w_ext s)))) \<and>
    (\<forall>b. gen_CircuitBreaker g = Some b \<and> \<not> cb_allowed (ws_breakers (w_ext s) b) \<and>
         \<not> window_over (w_clock s (w_tick s)) (ws_breakers (w_ext s) b) \<longrightarrow>
      (\<exists>s'. buildSubmitFunc (\<lambda>cx j. FastSubmit (Suc n) env wait cx j) g cx item s =
           Some (Some (Err ''operation halted, circuit breaker is open''), s') \<and>
         ws_chans (w_ext s') = ws_chans (w_ext s)))"
proof (intro conjI impI allI)
  assume cb: "gen_CircuitBreaker g = None"
  obtain c where c: "connectedComponents g = [c]" "ref_id c = i" using assms(1) by auto
  have "FastSubmit (Suc n) env wait cx i item s = submitNormally cx i item s"
    using assms(3,4) by (simp add: FastSubmit_eq check_breaker_def)
  moreover obtain err s' where "submitNormally cx i item s = Some (err, s')"
    "delivered_in i (w_ext s') = (if err = None then add_mset item (delivered_in i (w_ext s)) else delivered_in i (w_ext s))"
    using submitNormally_sink [OF assms(2)] by blast
  ultimately show "\<exists>err s'. buildSubmitFunc (\<lambda>cx j. FastSubmit (Suc n) env wait cx j) g cx item s = Some (err, s') \<and>
         delivered_in i (w_ext s') =
           (if err = None then add_mset item (delivered_in i (w_ext s)) else delivered_in i (w_ext s))"
    using cb c by (auto simp: buildSubmitFunc_def split: option.splits)
next
  fix b
  assume b: "gen_CircuitBreaker g = Some b \<and> \<not> cb_allowed (ws_breakers (w_ext s) b) \<and>
         \<not> window_over (w_clock s (w_tick s)) (ws_breakers (w_ext s) b)"
  then have "\<not> fst (Allow_of b s)" "ws_chans (w_ext (snd (Allow_of b s))) = ws_chans (w_ext s)"
    by (simp_all add: Allow_of_def read_clock_def case_prod_beta Let_def)
  then show "\<exists>s'. buildSubmitFunc (\<lambda>cx j. FastSubmit (Suc n) env wait cx j) g cx item s =
           Some (Some (Err ''operation halted, circuit breaker is open''), s') \<and>
         ws_chans (w_ext s') = ws_chans (w_ext s)"
    using b by (simp add: buildSubmitFunc_def case_prod_beta)
qed

theorem generator_submits_to_wire_witness:
  "\<exists>err s'. buildSubmitFunc (\<lambda>cx j. FastSubmit 1 no_generators end_goroutines cx j)
       ((NewGenerator_base ''g'' [])\<lparr>connectedComponents := [\<lparr>ref_id = 0, ref_metadata = empty_metadata\<rparr>]\<rparr>) [] 5 running_world =
       Some (err, s') \<and>
     delivered_in 0 (w_ext s') =
       (if err = None then add_mset 5 (delivered_in 0 (w_ext running_world)) else delivered_in 0 (w_ext running_world))"
proof -
  let ?g = "(NewGenerator_base ''g'' [])\<lparr>connectedComponents := [\<lparr>ref_id = 0, ref_metadata = empty_metadata\<rparr>]\<rparr>"
  have "0 < room_in 0 (w_ext running_world)"
    by (simp add: running_world_def room_in_def NewWire_base_def make_chan_def)
  moreover have "map ref_id (connectedComponents ?g) = [0]" "gen_CircuitBreaker ?g = None"
    by (simp_all add: NewGenerator_base_def)
  moreover have "CircuitBreaker (the_wire 0 running_world) = None" "\<not> wire_surgeProtector (the_wire 0 running_world)"
    by (simp_all add: running_world_def the_wire_def NewWire_base_def)
  ultimately show ?thesis
    using generator_submits_to_wire [of ?g 0 running_world 0 no_generators end_goroutines "[]" 5] by auto
qed

text \<open>
  a generator made with a plug and a sensor registers the sensor on the plug twice, once when the
  option connects it and once more at the end of the constructor, so the plug's events reach it twice.
\<close>

theorem NewGenerator_duplicates_sensors:
  assumes "frozen (ps p) \<noteq> 1"
  shows "\<exists>z. NewGenerator hash co [Some (G_WithPlug [Some p]), Some (G_WithSensor [Some s])] ps w = Inr z \<and>
    gen_sensors (gs_gen z) = [s] \<and> plug_sensors (gs_plugs z p) = plug_sensors (ps p) @ [s, s]"
  using assms
  by (simp add: NewGenerator_def Let_def case_prod_beta ConnectPlug_def gen_guard_def gen_requireNotStarted_def
      NewGenerator_base_def attachSensorsToPlugs_def gen_ConnectSensor_def plug_ConnectSensor_def gs_emit_def)

theorem NewGenerator_duplicates_sensors_witness:
  "\<exists>z. NewGenerator ''g'' None [Some (G_WithPlug [Some 4]), Some (G_WithSensor [Some sample_sensor])]
      (\<lambda>p. sample_plug) (empty_world (0::nat)) = Inr z \<and>
    gen_sensors (gs_gen z) = [sample_sensor] \<and> plug_sensors (gs_plugs z 4) = [sample_sensor, sample_sensor]"
  using NewGenerator_duplicates_sensors [of "\<lambda>p. sample_plug" 4 "''g''" None sample_sensor "empty_world (0::nat)"]
  by (simp add: sample_plug_def)


end
