(* ===== verification/Conduit.thy ===== *)
theory Conduit
  imports Wire_Lifecycle
begin

text \<open>
  The conduit (\<^verbatim>\<open>src/pkg/internal/conduit\<close>): a pipeline of wires, each reading the output channel of
  the one before it, with the conduit's own input and output channels at the ends. Conduits
  may be linked, so they live in a store beside the world of the wires. A call that panics is
  on the left of a sum; a call that does not return is \<open>None\<close>.
\<close>

section \<open>State\<close>

datatype con_task = FeedFirstWire | ForwardToNext

record conduit =
  con_metadata :: metadata
  con_wires :: "nat list"
  con_loggers :: "logger list"
  con_sensors :: "sensor list"
  con_ctx :: ctx
  con_generators :: "component_ref list"
  NextConduit :: "nat option"
  con_OutputChan :: "nat option"
  con_InputChan :: "nat option"
  con_tasks :: "con_task list" \<comment> \<open>the goroutines \<open>completeSignal\<close> counts\<close>
  con_terminateOnce :: bool
  con_CircuitBreaker :: "(nat \<times> metadata) option"
  con_started :: int
  con_MaxBufferSize :: int
  con_MaxConcurrency :: int
  con_surgeProtector :: bool

record 'a con_sys =
  cs_conduits :: "nat \<Rightarrow> conduit"
  cs_world :: "'a world"

definition the_con :: "nat \<Rightarrow> 'a con_sys \<Rightarrow> conduit" where
  "the_con k z = cs_conduits z k"

definition put_con :: "nat \<Rightarrow> conduit \<Rightarrow> 'a con_sys \<Rightarrow> 'a con_sys" where
  "put_con k c z = z\<lparr>cs_conduits := (cs_conduits z)(k := c)\<rparr>"

text \<open>A step on every wire of a list, in order, stopping at a panic.\<close>

fun for_wires :: "(nat \<Rightarrow> 'a world \<Rightarrow> panic + 'a world) \<Rightarrow> nat list \<Rightarrow> 'a world \<Rightarrow> panic + 'a world" where
  "for_wires f [] s = Inr s"
| "for_wires f (i # is) s = (case f i s of Inl p \<Rightarrow> Inl p | Inr s' \<Rightarrow> for_wires f is s')"

definition on_wires ::
  "nat \<Rightarrow> (nat \<Rightarrow> 'a world \<Rightarrow> panic + 'a world) \<Rightarrow> 'a con_sys \<Rightarrow> panic + 'a con_sys" where
  "on_wires k f z =
     (case for_wires f (con_wires (the_con k z)) (cs_world z) of
        Inl p \<Rightarrow> Inl p | Inr s \<Rightarrow> Inr (z\<lparr>cs_world := s\<rparr>))"

definition con_guard :: "string \<Rightarrow> nat \<Rightarrow> 'a con_sys \<Rightarrow> (panic + 'a con_sys) \<Rightarrow> panic + 'a con_sys" where
  "con_guard action k z r =
     (if con_started (the_con k z) = 1 then Inl (Panic (''conduit: '' @ action @ '' called after Start'')) else r)"

definition con_NotifyLoggers ::
  "conduit \<Rightarrow> loglevel \<Rightarrow> string \<Rightarrow> (string \<times> 'a logval) list \<Rightarrow> 'a effect list" where
  "con_NotifyLoggers c level msg kvs = log_calls logger_wants (con_loggers c) level msg kvs"

section \<open>Wiring\<close>

definition ensureDefaults :: "nat \<Rightarrow> 'a con_sys \<Rightarrow> 'a con_sys" where
  "ensureDefaults k z =
     (let c0 = the_con k z;
          c1 = c0\<lparr>con_MaxBufferSize := (if con_MaxBufferSize c0 \<le> 0 then 1000 else con_MaxBufferSize c0),
                  con_MaxConcurrency := (if con_MaxConcurrency c0 \<le> 0 then 1 else con_MaxConcurrency c0)\<rparr>;
          n = nat (con_MaxBufferSize c1);
          (c2, s2) = (if con_InputChan c1 = None
                      then let (ch, s) = new_chan n (cs_world z) in (c1\<lparr>con_InputChan := Some ch\<rparr>, s)
                      else (c1, cs_world z));
          (c3, s3) = (if con_OutputChan c2 = None
                      then let (ch, s) = new_chan n s2 in (c2\<lparr>con_OutputChan := Some ch\<rparr>, s)
                      else (c2, s2))
      in (put_con k c3 z)\<lparr>cs_world := s3\<rparr>)"

text \<open>The loop of \<^verbatim>\<open>chainWires\<close>: each wire reads the output channel of the one before it.\<close>

fun chain_loop :: "nat option \<Rightarrow> nat list \<Rightarrow> 'a world \<Rightarrow> panic + nat option \<times> 'a world" where
  "chain_loop prev [] s = Inr (prev, s)"
| "chain_loop prev (i # is) s =
     (case prev of
        None \<Rightarrow> chain_loop (Some i) is s
      | Some p \<Rightarrow>
        (case wire_cfg i (SetInputChannel (GetOutputChannel (the_wire p s))) s of
           Inl pn \<Rightarrow> Inl pn
         | Inr s' \<Rightarrow> chain_loop (Some i) is s'))"

definition chainWires :: "nat \<Rightarrow> 'a con_sys \<Rightarrow> panic + 'a con_sys" where
  "chainWires k z =
     (let c = the_con k z in
      case chain_loop None (con_wires c) (cs_world z) of
        Inl pn \<Rightarrow> Inl pn
      | Inr (None, s) \<Rightarrow> Inr (z\<lparr>cs_world := s\<rparr>)
      | Inr (Some prev, s) \<Rightarrow>
        (case con_OutputChan c of
           None \<Rightarrow> Inr (z\<lparr>cs_world := s\<rparr>)
         | Some out \<Rightarrow>
           (case wire_cfg prev (SetOutputChannel (Some out)) s of
              Inl pn \<Rightarrow> Inl pn | Inr s' \<Rightarrow> Inr (z\<lparr>cs_world := s'\<rparr>))))"

definition lastWire :: "conduit \<Rightarrow> nat option" where
  "lastWire c = (if con_wires c = [] then None else Some (last (con_wires c)))"

definition attachWire :: "'a gen_env \<Rightarrow> nat \<Rightarrow> nat \<Rightarrow> 'a con_sys \<Rightarrow> panic + 'a con_sys" where
  "attachWire env k i z =
     (let c = the_con k z;
          step = (\<lambda>cond f r. case r of Inl p \<Rightarrow> Inl p | Inr s \<Rightarrow> if cond then f s else Inr s);
          r1 = step (con_loggers c \<noteq> []) (wire_cfg i (wire_ConnectLogger (map Some (con_loggers c)))) (Inr (cs_world z));
          r2 = step (con_sensors c \<noteq> []) (wire_cfg i (wire_ConnectSensor (map Some (con_sensors c)))) r1;
          r3 = step (con_CircuitBreaker c \<noteq> None) (wire_cfg i (ConnectCircuitBreaker (con_CircuitBreaker c))) r2;
          r4 = step (con_generators c \<noteq> []) (wire_ConnectGenerator env i (map Some (con_generators c))) r3;
          r5 = step (con_surgeProtector c) (ConnectSurgeProtector True i) r4;
          r6 = step True (wire_cfg i (SetConcurrencyControl (con_MaxBufferSize c) (con_MaxConcurrency c))) r5
      in map_sum id (\<lambda>s. z\<lparr>cs_world := s\<rparr>) r6)"

fun attach_wires :: "'a gen_env \<Rightarrow> nat \<Rightarrow> nat list \<Rightarrow> 'a con_sys \<Rightarrow> panic + 'a con_sys" where
  "attach_wires env k [] z = Inr z"
| "attach_wires env k (i # is) z =
     (case attachWire env k i z of Inl p \<Rightarrow> Inl p | Inr z' \<Rightarrow> attach_wires env k is z')"

section \<open>Configuration and connections\<close>

definition con_SetComponentMetadata :: "string \<Rightarrow> string \<Rightarrow> nat \<Rightarrow> 'a con_sys \<Rightarrow> panic + 'a con_sys" where
  "con_SetComponentMetadata name ident k z =
     con_guard ''SetComponentMetadata'' k z
       (let c = the_con k z in
        Inr (put_con k (c\<lparr>con_metadata := \<lparr>meta_ID = ident, meta_Type = meta_Type (con_metadata c), meta_Name = name\<rparr>\<rparr>) z))"

definition con_SetConcurrencyControl :: "int \<Rightarrow> int \<Rightarrow> nat \<Rightarrow> 'a con_sys \<Rightarrow> panic + 'a con_sys" where
  "con_SetConcurrencyControl bufferSize concurrency k z =
     con_guard ''SetConcurrencyControl'' k z
       (let z1 = put_con k ((the_con k z)\<lparr>con_MaxBufferSize := bufferSize, con_MaxConcurrency := concurrency\<rparr>) z;
            z2 = ensureDefaults k z1; c = the_con k z2
        in on_wires k (\<lambda>i. wire_cfg i (SetConcurrencyControl (con_MaxBufferSize c) (con_MaxConcurrency c))) z2)"

definition con_SetInputChannel :: "nat option \<Rightarrow> nat \<Rightarrow> 'a con_sys \<Rightarrow> panic + 'a con_sys" where
  "con_SetInputChannel ch k z =
     con_guard ''SetInputChannel'' k z (Inr (put_con k ((the_con k z)\<lparr>con_InputChan := ch\<rparr>) z))"

definition con_ConnectSurgeProtector :: "bool \<Rightarrow> nat \<Rightarrow> 'a con_sys \<Rightarrow> panic + 'a con_sys" where
  "con_ConnectSurgeProtector protector k z =
     con_guard ''ConnectSurgeProtector'' k z
       (on_wires k (ConnectSurgeProtector protector) (put_con k ((the_con k z)\<lparr>con_surgeProtector := protector\<rparr>) z))"

definition con_ConnectCircuitBreaker :: "(nat \<times> metadata) option \<Rightarrow> nat \<Rightarrow> 'a con_sys \<Rightarrow> panic + 'a con_sys" where
  "con_ConnectCircuitBreaker cb k z =
     con_guard ''ConnectCircuitBreaker'' k z
       (on_wires k (\<lambda>i. wire_cfg i (ConnectCircuitBreaker cb)) (put_con k ((the_con k z)\<lparr>con_CircuitBreaker := cb\<rparr>) z))"

definition ConnectConduit :: "nat option \<Rightarrow> nat \<Rightarrow> 'a con_sys \<Rightarrow> panic + 'a con_sys" where
  "ConnectConduit nxt k z =
     con_guard ''ConnectConduit'' k z (Inr (put_con k ((the_con k z)\<lparr>NextConduit := nxt\<rparr>) z))"

definition con_ConnectGenerator ::
  "'a gen_env \<Rightarrow> component_ref option list \<Rightarrow> nat \<Rightarrow> 'a con_sys \<Rightarrow> panic + 'a con_sys" where
  "con_ConnectGenerator env generators k z =
     con_guard ''ConnectGenerator'' k z
       (let gs = nonnil generators; c = the_con k z in
        if gs = [] then Inr z
        else on_wires k (\<lambda>i. wire_ConnectGenerator env i (map Some gs))
               (put_con k (c\<lparr>con_generators := con_generators c @ gs\<rparr>) z))"

definition con_ConnectLogger :: "logger option list \<Rightarrow> nat \<Rightarrow> 'a con_sys \<Rightarrow> panic + 'a con_sys" where
  "con_ConnectLogger loggers k z =
     con_guard ''ConnectLogger'' k z
       (let ls = nonnil loggers; c = the_con k z in
        if ls = [] then Inr z
        else on_wires k (\<lambda>i. wire_cfg i (wire_ConnectLogger (map Some ls)))
               (put_con k (c\<lparr>con_loggers := con_loggers c @ ls\<rparr>) z))"

definition con_ConnectSensor :: "sensor option list \<Rightarrow> nat \<Rightarrow> 'a con_sys \<Rightarrow> panic + 'a con_sys" where
  "con_ConnectSensor sensors k z =
     con_guard ''ConnectSensor'' k z
       (let ss = nonnil sensors; c = the_con k z in
        if ss = [] then Inr z
        else on_wires k (\<lambda>i. wire_cfg i (wire_ConnectSensor (map Some ss)))
               (put_con k (c\<lparr>con_sensors := con_sensors c @ ss\<rparr>) z))"

definition ConnectWire :: "'a gen_env \<Rightarrow> nat option list \<Rightarrow> nat \<Rightarrow> 'a con_sys \<Rightarrow> panic + 'a con_sys" where
  "ConnectWire env newWires k z =
     con_guard ''ConnectWire'' k z
       (let ws = nonnil newWires; c = the_con k z in
        if ws = [] then Inr z
        else case attach_wires env k ws (put_con k (c\<lparr>con_wires := con_wires c @ ws\<rparr>) z) of
          Inl p \<Rightarrow> Inl p
        | Inr z1 \<Rightarrow> chainWires k z1)"

section \<open>Submission\<close>

fun con_neutral_loop ::
  "'a submit_fn \<Rightarrow> ctx \<Rightarrow> component_ref list \<Rightarrow> 'a \<Rightarrow> 'a world \<Rightarrow> (gerr option \<times> 'a world) option" where
  "con_neutral_loop sub cx [] d s = Some (None, s)"
| "con_neutral_loop sub cx (gw # gws) d s =
     (case sub cx (ref_id gw) d s of
        None \<Rightarrow> None
      | Some (Some err, s1) \<Rightarrow> Some (Some err, s1)
      | Some (None, s1) \<Rightarrow> con_neutral_loop sub cx gws d s1)"

definition conduit_Submit ::
  "'a submit_fn \<Rightarrow> ctx \<Rightarrow> nat \<Rightarrow> 'a \<Rightarrow> 'a con_sys \<Rightarrow> (gerr option \<times> 'a con_sys) option" where
  "conduit_Submit sub cx k d z =
     (let c = the_con k z; s = cs_world z;
          back = map_option (\<lambda>(err, s'). (err, z\<lparr>cs_world := s'\<rparr>))
      in case con_wires c of
           [] \<Rightarrow> Some (Some (Err ''no wires connected in conduit''), z)
         | first # _ \<Rightarrow>
             let (allowed, s1) = (case con_CircuitBreaker c of None \<Rightarrow> (True, s) | Some (b, _) \<Rightarrow> Allow_of b s) in
             if \<not> allowed then
               let neutral = (case con_CircuitBreaker c of None \<Rightarrow> []
                              | Some (b, _) \<Rightarrow> cb_GetNeutralWires (ws_breakers (w_ext s1) b))
               in back (con_neutral_loop sub cx neutral d s1)
             else back (sub cx first d s1))"

section \<open>Lifecycle\<close>

definition start_wire :: "'a gen_env \<Rightarrow> ctx \<Rightarrow> nat \<Rightarrow> 'a world \<Rightarrow> panic + 'a world" where
  "start_wire env cx i s = map_sum id snd (wire_Start env (Some cx) i s)"

definition conduit_Start :: "'a gen_env \<Rightarrow> ctx option \<Rightarrow> nat \<Rightarrow> 'a con_sys \<Rightarrow> panic + gerr option \<times> 'a con_sys" where
  "conduit_Start env co k z =
     (if con_started (the_con k z) \<noteq> 0 then Inr (None, z)
      else
        let err = (case co of None \<Rightarrow> None | Some c \<Rightarrow> ctx_Err (ws_cancelled (w_ext (cs_world z))) c) in
        if err \<noteq> None then Inr (err, put_con k ((the_con k z)\<lparr>con_started := 0\<rparr>) z)
        else
          let z1 = ensureDefaults k (put_con k ((the_con k z)\<lparr>con_started := 1\<rparr>) z); cx = con_ctx (the_con k z1)
          in case on_wires k (start_wire env cx) z1 of
               Inl p \<Rightarrow> Inl p
             | Inr z2 \<Rightarrow>
                 let s3 = start_generators env cx (con_generators (the_con k z2)) (cs_world z2);
                     c = the_con k z2;
                     tasks = (if con_InputChan c \<noteq> None \<and> con_wires c \<noteq> [] then [FeedFirstWire] else []) @
                             (if NextConduit c \<noteq> None \<and> con_OutputChan c \<noteq> None then [ForwardToNext] else [])
                 in Inr (None, (put_con k (c\<lparr>con_tasks := con_tasks c @ tasks\<rparr>) z2)\<lparr>cs_world := s3\<rparr>))"

text \<open>
  One round of the goroutine that feeds the first wire; \<open>None\<close> when there is nothing to receive or
  the submission does not return. The other goroutine does the same from the output channel to
  the next conduit.
\<close>

definition feed_round :: "'a submit_fn \<Rightarrow> nat \<Rightarrow> 'a con_sys \<Rightarrow> 'a con_sys option" where
  "feed_round sub k z =
     (let c = the_con k z; s = cs_world z in
      case (con_InputChan c, con_wires c) of
        (Some ch, first # _) \<Rightarrow>
          (case chan_recv (ws_chans (w_ext s) ch) of
             Received d ch' \<Rightarrow>
               map_option (\<lambda>(_, s'). z\<lparr>cs_world := s'\<rparr>) (sub (con_ctx c) first d (put_chan ch ch' s))
           | _ \<Rightarrow> None)
      | _ \<Rightarrow> None)"

definition forward_round :: "'a submit_fn \<Rightarrow> nat \<Rightarrow> 'a con_sys \<Rightarrow> 'a con_sys option" where
  "forward_round sub k z =
     (let c = the_con k z; s = cs_world z in
      case (con_OutputChan c, NextConduit c) of
        (Some ch, Some nxt) \<Rightarrow>
          (case chan_recv (ws_chans (w_ext s) ch) of
             Received d ch' \<Rightarrow>
               map_option snd (conduit_Submit sub (con_ctx c) nxt d (z\<lparr>cs_world := put_chan ch ch' s\<rparr>))
           | _ \<Rightarrow> None)
      | _ \<Rightarrow> None)"

definition conduit_Stop ::
  "(nat \<Rightarrow> 'a world \<Rightarrow> 'a world) \<Rightarrow> (nat \<Rightarrow> 'a con_sys \<Rightarrow> 'a con_sys) \<Rightarrow> nat \<Rightarrow> 'a con_sys \<Rightarrow> panic + 'a con_sys" where
  "conduit_Stop wait cwait k z =
     (if con_started (the_con k z) \<noteq> 1 then Inr z
      else
        let z1 = put_con k ((the_con k z)\<lparr>con_started := 0\<rparr>) z in
        if con_terminateOnce (the_con k z1) then Inr z1
        else
          let z2 = (put_con k ((the_con k z1)\<lparr>con_terminateOnce := True\<rparr>) z1)
                     \<lparr>cs_world := cancel_ctx (con_ctx (the_con k z1)) (cs_world z1)\<rparr>
          in case on_wires k (wire_Stop wait) z2 of
               Inl p \<Rightarrow> Inl p
             | Inr z3 \<Rightarrow> Inr (cwait k z3))"

definition renew_conduit :: "ctx \<Rightarrow> nat \<Rightarrow> 'a con_sys \<Rightarrow> 'a con_sys" where
  "renew_conduit cx k z =
     (let (c, s1) = new_ctx cx (cs_world z);
          n = nat (con_MaxBufferSize (the_con k z));
          (ic, s2) = new_chan n s1; (oc, s3) = new_chan n s2
      in (put_con k ((the_con k z)\<lparr>con_ctx := c, con_terminateOnce := False, con_InputChan := Some ic, con_OutputChan := Some oc\<rparr>) z)
           \<lparr>cs_world := s3\<rparr>)"

fun conduit_Restart ::
  "nat \<Rightarrow> 'a gen_env \<Rightarrow> (nat \<Rightarrow> 'a world \<Rightarrow> 'a world) \<Rightarrow> (nat \<Rightarrow> 'a con_sys \<Rightarrow> 'a con_sys) \<Rightarrow> ctx option \<Rightarrow> nat \<Rightarrow>
   'a con_sys \<Rightarrow> (panic + gerr option \<times> 'a con_sys) option" where
  "conduit_Restart 0 env wait cwait co k z = None"
| "conduit_Restart (Suc fuel) env wait cwait co k z =
     (case conduit_Stop wait cwait k z of
        Inl p \<Rightarrow> Some (Inl p)
      | Inr z1 \<Rightarrow>
        let cx = (case co of None \<Rightarrow> Background | Some c \<Rightarrow> c);
            z2 = renew_conduit cx k z1
        in case chainWires k z2 of
             Inl p \<Rightarrow> Some (Inl p)
           | Inr z3 \<Rightarrow>
             (case NextConduit (the_con k z3) of
                None \<Rightarrow> Some (conduit_Start env (Some (con_ctx (the_con k z3))) k z3)
              | Some nxt \<Rightarrow>
                (case conduit_Restart fuel env wait cwait (Some cx) nxt z3 of
                   None \<Rightarrow> None
                 | Some (Inl p) \<Rightarrow> Some (Inl p)
                 | Some (Inr (_, z4)) \<Rightarrow> Some (conduit_Start env (Some (con_ctx (the_con k z4))) k z4))))"

section \<open>Loading the output\<close>

definition conduit_Load ::
  "(nat \<Rightarrow> 'a world \<Rightarrow> 'a world) \<Rightarrow> (nat \<Rightarrow> 'a con_sys \<Rightarrow> 'a con_sys) \<Rightarrow> nat \<Rightarrow> 'a con_sys \<Rightarrow>
   panic + bytes option \<times> 'a con_sys" where
  "conduit_Load wait cwait k z =
     (case conduit_Stop wait cwait k z of
        Inl p \<Rightarrow> Inl p
      | Inr z1 \<Rightarrow>
        (case lastWire (the_con k z1) of
           Some i \<Rightarrow> Inr (GetOutputBuffer (the_wire i (cs_world z1)), z1)
         | None \<Rightarrow> Inr (Some [], z1)))"

text \<open>Ranging over the output channel ends only when the channel is closed.\<close>

definition conduit_LoadAsJSONArray ::
  "(nat \<Rightarrow> 'a world \<Rightarrow> 'a world) \<Rightarrow> (nat \<Rightarrow> 'a con_sys \<Rightarrow> 'a con_sys) \<Rightarrow> ('a list option \<Rightarrow> 'j) \<Rightarrow> nat \<Rightarrow> 'a con_sys \<Rightarrow>
   (panic + 'j \<times> 'a con_sys) option" where
  "conduit_LoadAsJSONArray wait cwait marshal k z =
     (case conduit_Stop wait cwait k z of
        Inl p \<Rightarrow> Some (Inl p)
      | Inr z1 \<Rightarrow>
        (case con_OutputChan (the_con k z1) of
           None \<Rightarrow> Some (Inr (marshal (Some []), z1))
         | Some out \<Rightarrow>
           if lastWire (the_con k z1) = None then Some (Inr (marshal (Some []), z1))
           else
             let ch = ws_chans (w_ext (cs_world z1)) out in
             if \<not> ch_closed ch then None
             else Some (Inr (marshal (if ch_buf ch = [] then None else Some (ch_buf ch)),
                             z1\<lparr>cs_world := put_chan out (ch\<lparr>ch_buf := []\<rparr>) (cs_world z1)\<rparr>))))"

section \<open>Options and construction\<close>

datatype con_option =
    C_WithCircuitBreaker "(nat \<times> metadata) option"
  | C_WithConcurrencyControl int int
  | C_WithGenerator "component_ref option"
  | C_WithSurgeProtector bool
  | C_WithLogger "logger option list"
  | C_WithSensor "sensor option list"
  | C_WithWire "nat option list"
  | C_WithComponentMetadata string string

fun apply_con_option :: "'a gen_env \<Rightarrow> nat \<Rightarrow> con_option \<Rightarrow> 'a con_sys \<Rightarrow> panic + 'a con_sys" where
  "apply_con_option env k (C_WithCircuitBreaker cb) z = con_ConnectCircuitBreaker cb k z"
| "apply_con_option env k (C_WithConcurrencyControl b n) z = con_SetConcurrencyControl b n k z"
| "apply_con_option env k (C_WithGenerator g) z = con_ConnectGenerator env [g] k z"
| "apply_con_option env k (C_WithSurgeProtector p) z = con_ConnectSurgeProtector p k z"
| "apply_con_option env k (C_WithLogger ls) z = con_ConnectLogger ls k z"
| "apply_con_option env k (C_WithSensor ss) z = con_ConnectSensor ss k z"
| "apply_con_option env k (C_WithWire ws) z = ConnectWire env ws k z"
| "apply_con_option env k (C_WithComponentMetadata name ident) z = con_SetComponentMetadata name ident k z"

fun apply_con_options :: "'a gen_env \<Rightarrow> nat \<Rightarrow> con_option option list \<Rightarrow> 'a con_sys \<Rightarrow> panic + 'a con_sys" where
  "apply_con_options env k [] z = Inr z"
| "apply_con_options env k (None # os) z = apply_con_options env k os z"
| "apply_con_options env k (Some opt # os) z =
     (case apply_con_option env k opt z of Inl p \<Rightarrow> Inl p | Inr z' \<Rightarrow> apply_con_options env k os z')"

definition NewConduit_base :: "string \<Rightarrow> int \<Rightarrow> ctx \<Rightarrow> conduit" where
  "NewConduit_base hash procs c =
     \<lparr>con_metadata = \<lparr>meta_ID = hash, meta_Type = ''CONDUIT'', meta_Name = ''''\<rparr>, con_wires = [], con_loggers = [],
      con_sensors = [], con_ctx = c, con_generators = [], NextConduit = None, con_OutputChan = None,
      con_InputChan = None, con_tasks = [], con_terminateOnce = False, con_CircuitBreaker = None, con_started = 0,
      con_MaxBufferSize = 1024, con_MaxConcurrency = (if procs < 1 then 1 else procs), con_surgeProtector = False\<rparr>"

definition NewConduit ::
  "'a gen_env \<Rightarrow> string \<Rightarrow> int \<Rightarrow> nat \<Rightarrow> ctx option \<Rightarrow> con_option option list \<Rightarrow> 'a con_sys \<Rightarrow> panic + 'a con_sys" where
  "NewConduit env hash procs k co options z =
     (let (c, s1) = new_ctx (case co of None \<Rightarrow> Background | Some c \<Rightarrow> c) (cs_world z) in
      case apply_con_options env k options ((put_con k (NewConduit_base hash procs c) z)\<lparr>cs_world := s1\<rparr>) of
        Inl p \<Rightarrow> Inl p
      | Inr z1 \<Rightarrow> chainWires k (ensureDefaults k z1))"

section \<open>The pipeline\<close>

lemma the_con_simps [simp]:
  "the_con k (put_con j c z) = (if k = j then c else the_con k z)" "the_con k (z\<lparr>cs_world := s\<rparr>) = the_con k z"
  "cs_world (put_con k c z) = cs_world z"
  by (simp_all add: the_con_def put_con_def)

text \<open>Setting one channel of a wire that is not started.\<close>

lemma set_input_ok:
  assumes "wire_started (the_wire i s) \<noteq> 1"
  obtains s' where "wire_cfg i (SetInputChannel c) s = Inr s'"
    "\<And>j. the_wire j s' = (if j = i then (the_wire i s)\<lparr>inChan := c\<rparr> else the_wire j s)"
  using assms by (auto simp: wire_cfg_def SetInputChannel_def if_not_started_def requireNotStarted_def Let_def intro!: that)

lemma set_output_ok:
  assumes "wire_started (the_wire i s) \<noteq> 1"
  obtains s' where "wire_cfg i (SetOutputChannel c) s = Inr s'"
    "\<And>j. the_wire j s' = (if j = i then (the_wire i s)\<lparr>OutputChan := c\<rparr> else the_wire j s)"
  using assms by (auto simp: wire_cfg_def SetOutputChannel_def if_not_started_def requireNotStarted_def Let_def intro!: that)

lemma keep_channels:
  "w\<lparr>inChan := inChan w\<rparr> = w" "w\<lparr>inChan := c, OutputChan := OutputChan w\<rparr> = w\<lparr>inChan := c\<rparr>"
  by (cases w; simp)+

lemma chain_loop_spec:
  assumes "distinct (p # ws)" and "\<forall>i \<in> set ws. wire_started (the_wire i s) \<noteq> 1"
  shows "\<exists>s'. chain_loop (Some p) ws s = Inr (Some (last (p # ws)), s') \<and>
    (\<forall>i. OutputChan (the_wire i s') = OutputChan (the_wire i s) \<and>
         wire_started (the_wire i s') = wire_started (the_wire i s)) \<and>
    (\<forall>i. i \<notin> set ws \<longrightarrow> the_wire i s' = the_wire i s) \<and>
    (\<forall>k < length ws. the_wire (ws ! k) s' = (the_wire (ws ! k) s)\<lparr>inChan := OutputChan (the_wire ((p # ws) ! k) s)\<rparr>)"
  using assms
proof (induction ws arbitrary: p s)
  case (Cons w ws)
  have ns: "wire_started (the_wire w s) \<noteq> 1" using Cons.prems by simp
  obtain s1 where s1: "wire_cfg w (SetInputChannel (GetOutputChannel (the_wire p s))) s = Inr s1"
    "\<And>j. the_wire j s1 = (if j = w then (the_wire w s)\<lparr>inChan := GetOutputChannel (the_wire p s)\<rparr> else the_wire j s)"
    using set_input_ok [OF ns] by metis
  have o1: "OutputChan (the_wire i s1) = OutputChan (the_wire i s)"
    "wire_started (the_wire i s1) = wire_started (the_wire i s)" for i
    by (simp_all add: s1(2))
  have "distinct (w # ws)" "\<forall>i \<in> set ws. wire_started (the_wire i s1) \<noteq> 1"
    using Cons.prems o1 by auto
  then obtain s' where s': "chain_loop (Some w) ws s1 = Inr (Some (last (w # ws)), s')"
    "\<forall>i. OutputChan (the_wire i s') = OutputChan (the_wire i s1) \<and> wire_started (the_wire i s') = wire_started (the_wire i s1)"
    "\<forall>i. i \<notin> set ws \<longrightarrow> the_wire i s' = the_wire i s1"
    "\<forall>k < length ws. the_wire (ws ! k) s' = (the_wire (ws ! k) s1)\<lparr>inChan := OutputChan (the_wire ((w # ws) ! k) s1)\<rparr>"
    using Cons.IH by blast
  have "the_wire w s' = (the_wire w s)\<lparr>inChan := OutputChan (the_wire p s)\<rparr>"
    using s'(3) s1(2) Cons.prems(1) by (simp add: GetOutputChannel_def)
  moreover have "the_wire (ws ! k) s1 = the_wire (ws ! k) s" if "k < length ws" for k
    using that Cons.prems(1) by (auto simp: s1(2))
  ultimately have "\<forall>k < length (w # ws). the_wire ((w # ws) ! k) s' =
      (the_wire ((w # ws) ! k) s)\<lparr>inChan := OutputChan (the_wire ((p # w # ws) ! k) s)\<rparr>"
    using s'(4) o1 by (auto simp: less_Suc_eq_0_disj)
  then show ?case using s' s1 o1 by auto
qed simp

lemma chainWires_spec:
  assumes ws: "con_wires (the_con k z) = w # ws" and "distinct (w # ws)"
    and ns: "\<forall>i \<in> set (w # ws). wire_started (the_wire i (cs_world z)) \<noteq> 1"
    and out: "con_OutputChan (the_con k z) = Some out"
  obtains s' where "chainWires k z = Inr (z\<lparr>cs_world := s'\<rparr>)"
    "\<forall>j < length ws. inChan (the_wire (ws ! j) s') = OutputChan (the_wire ((w # ws) ! j) (cs_world z))"
    "OutputChan (the_wire (last (w # ws)) s') = Some out"
    "\<forall>i. i \<noteq> last (w # ws) \<longrightarrow> OutputChan (the_wire i s') = OutputChan (the_wire i (cs_world z))"
    "\<forall>i. wire_started (the_wire i s') = wire_started (the_wire i (cs_world z))"
    "\<forall>j \<le> length ws. the_wire ((w # ws) ! j) s' = (the_wire ((w # ws) ! j) (cs_world z))
       \<lparr>inChan := (if j = 0 then inChan (the_wire w (cs_world z)) else OutputChan (the_wire ((w # ws) ! (j - 1)) (cs_world z))),
        OutputChan := (if j = length ws then Some out else OutputChan (the_wire ((w # ws) ! j) (cs_world z)))\<rparr>"
    "\<forall>i. i \<notin> set (w # ws) \<longrightarrow> the_wire i s' = the_wire i (cs_world z)"
proof -
  let ?s = "cs_world z"
  obtain s1 where s1: "chain_loop (Some w) ws ?s = Inr (Some (last (w # ws)), s1)"
    "\<forall>i. OutputChan (the_wire i s1) = OutputChan (the_wire i ?s) \<and> wire_started (the_wire i s1) = wire_started (the_wire i ?s)"
    "\<forall>j < length ws. the_wire (ws ! j) s1 = (the_wire (ws ! j) ?s)\<lparr>inChan := OutputChan (the_wire ((w # ws) ! j) ?s)\<rparr>"
    "\<forall>i. i \<notin> set ws \<longrightarrow> the_wire i s1 = the_wire i ?s"
    using chain_loop_spec [OF assms(2), of ?s] ns by auto
  have "wire_started (the_wire (last (w # ws)) s1) \<noteq> 1" using ns s1(2) by (metis last_in_set list.distinct(1))
  then obtain s2 where s2: "wire_cfg (last (w # ws)) (SetOutputChannel (Some out)) s1 = Inr s2"
    "\<And>j. the_wire j s2 = (if j = last (w # ws) then (the_wire (last (w # ws)) s1)\<lparr>OutputChan := Some out\<rparr> else the_wire j s1)"
    using set_output_ok by metis
  have "chainWires k z = Inr (z\<lparr>cs_world := s2\<rparr>)"
    using ws out s1(1) s2(1) by (simp add: chainWires_def Let_def del: last.simps)
  moreover have "the_wire ((w # ws) ! j) s2 = (the_wire ((w # ws) ! j) ?s)
       \<lparr>inChan := (if j = 0 then inChan (the_wire w ?s) else OutputChan (the_wire ((w # ws) ! (j - 1)) ?s)),
        OutputChan := (if j = length ws then Some out else OutputChan (the_wire ((w # ws) ! j) ?s))\<rparr>"
    if j: "j \<le> length ws" for j
  proof -
    let ?i = "(w # ws) ! j" and ?c = "if j = 0 then inChan (the_wire w ?s) else OutputChan (the_wire ((w # ws) ! (j - 1)) ?s)"
    have last: "?i = last (w # ws) \<longleftrightarrow> j = length ws"
      using j assms(2) by (simp add: last_conv_nth nth_eq_iff_index_eq del: last.simps)
    have e: "the_wire ?i s1 = (the_wire ?i ?s)\<lparr>inChan := ?c\<rparr>"
    proof (cases j)
      case 0
      then show ?thesis using s1(4) assms(2) by (simp add: keep_channels)
    next
      case (Suc l)
      then show ?thesis using s1(3) j by simp
    qed
    show ?thesis
    proof (cases "j = length ws")
      case True
      have "the_wire ?i s2 = (the_wire ?i s1)\<lparr>OutputChan := Some out\<rparr>" using last True s2(2) by (simp del: last.simps)
      then show ?thesis unfolding e using True by simp
    next
      case False
      have "the_wire ?i s2 = the_wire ?i s1" using last False s2(2) by (simp del: last.simps)
      then show ?thesis unfolding e using False by (simp add: keep_channels)
    qed
  qed
  moreover have "the_wire i s2 = the_wire i ?s" if "i \<notin> set (w # ws)" for i
    using that s1(4) s2(2) by (metis last_in_set list.distinct(1) list.set_intros(2))
  moreover have "inChan (the_wire (ws ! j) s2) = OutputChan (the_wire ((w # ws) ! j) ?s)" if "j < length ws" for j
  proof -
    have "inChan (the_wire i s2) = inChan (the_wire i s1)" for i by (simp add: s2(2) del: last.simps)
    then show ?thesis using s1(3) that by simp
  qed
  ultimately show ?thesis
    by (intro that [of s2]) (use s1(2) in \<open>simp_all add: s2(2) del: last.simps\<close>)
qed

text \<open>
  C11: chaining the wires of a conduit makes them a pipeline. When the wires have output channels of their
  own, all different and none the conduit's, every wire after the first is made to read the output
  channel of the one before it, the last one is made to write to the conduit's output channel, nothing
  else of any wire changes, and then each of these channels is written by one wire of the conduit only.
  (A wire that already writes to the conduit's output channel is excluded: \<open>ConnectWire_twice_short_circuits\<close>.)
\<close>

theorem chainWires_is_pipeline:
  assumes "con_wires (the_con k z) = w # ws" and "distinct (w # ws)"
    and "\<forall>i \<in> set (w # ws). wire_started (the_wire i (cs_world z)) \<noteq> 1"
    and "con_OutputChan (the_con k z) = Some out"
    and "length cs = length ws" and "\<forall>j < length ws. OutputChan (the_wire ((w # ws) ! j) (cs_world z)) = Some (cs ! j)"
    and "distinct (cs @ [out])"
  shows "\<exists>s. chainWires k z = Inr (z\<lparr>cs_world := s\<rparr>) \<and>
    (\<forall>j \<le> length ws. the_wire ((w # ws) ! j) s = (the_wire ((w # ws) ! j) (cs_world z))
       \<lparr>inChan := (if j = 0 then inChan (the_wire w (cs_world z)) else Some (cs ! (j - 1))),
        OutputChan := Some ((cs @ [out]) ! j)\<rparr>) \<and>
    (\<forall>i. i \<notin> set (w # ws) \<longrightarrow> the_wire i s = the_wire i (cs_world z)) \<and>
    (\<forall>j \<le> length ws. \<forall>i \<in> set (w # ws). OutputChan (the_wire i s) = Some ((cs @ [out]) ! j) \<longleftrightarrow> i = (w # ws) ! j)"
proof -
  obtain s where s: "chainWires k z = Inr (z\<lparr>cs_world := s\<rparr>)"
    "\<forall>j \<le> length ws. the_wire ((w # ws) ! j) s = (the_wire ((w # ws) ! j) (cs_world z))
       \<lparr>inChan := (if j = 0 then inChan (the_wire w (cs_world z)) else OutputChan (the_wire ((w # ws) ! (j - 1)) (cs_world z))),
        OutputChan := (if j = length ws then Some out else OutputChan (the_wire ((w # ws) ! j) (cs_world z)))\<rparr>"
    "\<forall>i. i \<notin> set (w # ws) \<longrightarrow> the_wire i s = the_wire i (cs_world z)"
    using chainWires_spec [OF assms(1-4)] by metis
  have eq: "the_wire ((w # ws) ! j) s = (the_wire ((w # ws) ! j) (cs_world z))
       \<lparr>inChan := (if j = 0 then inChan (the_wire w (cs_world z)) else Some (cs ! (j - 1))),
        OutputChan := Some ((cs @ [out]) ! j)\<rparr>" if "j \<le> length ws" for j
    using s(2) that assms(5,6) by (simp add: nth_append)
  have one: "OutputChan (the_wire i s) = Some ((cs @ [out]) ! j) \<longleftrightarrow> i = (w # ws) ! j"
    if j: "j \<le> length ws" and i: "i \<in> set (w # ws)" for i j
  proof -
    obtain l where l: "l \<le> length ws" "i = (w # ws) ! l" using i by (metis in_set_conv_nth length_Cons less_Suc_eq_le)
    show ?thesis
      using eq [OF l(1)] l j assms(2,5,7) nth_eq_iff_index_eq [OF assms(2), of l j]
        nth_eq_iff_index_eq [OF assms(7), of l j] by simp
  qed
  from s eq one show ?thesis by blast
qed

definition two_wires :: "nat con_sys" where
  "two_wires =
     \<lparr>cs_conduits = (\<lambda>k. (NewConduit_base ''c'' 1 [])\<lparr>con_wires := [1, 2], con_OutputChan := Some 9\<rparr>),
      cs_world = put_wire 1 ((NewWire_base ''a'' 1 [])\<lparr>inChan := Some 3, OutputChan := Some 4\<rparr>)
        (put_wire 2 ((NewWire_base ''b'' 1 [])\<lparr>inChan := Some 5, OutputChan := Some 6\<rparr>) (empty_world 0))\<rparr>"

theorem chainWires_is_pipeline_witness:
  "\<exists>s. chainWires 0 two_wires = Inr (two_wires\<lparr>cs_world := s\<rparr>) \<and>
    inChan (the_wire 1 s) = Some 3 \<and> OutputChan (the_wire 1 s) = Some 4 \<and>
    inChan (the_wire 2 s) = Some 4 \<and> OutputChan (the_wire 2 s) = Some 9"
proof -
  have "\<exists>s. chainWires 0 two_wires = Inr (two_wires\<lparr>cs_world := s\<rparr>) \<and>
    (\<forall>j \<le> length [2::nat]. the_wire ([1, 2] ! j) s = (the_wire ([1, 2] ! j) (cs_world two_wires))
       \<lparr>inChan := (if j = 0 then inChan (the_wire 1 (cs_world two_wires)) else Some ([4] ! (j - 1))),
        OutputChan := Some (([4] @ [9]) ! j)\<rparr>) \<and>
    (\<forall>i. i \<notin> set [1, 2] \<longrightarrow> the_wire i s = the_wire i (cs_world two_wires)) \<and>
    (\<forall>j \<le> length [2::nat]. \<forall>i \<in> set [1, 2]. OutputChan (the_wire i s) = Some (([4] @ [9]) ! j) \<longleftrightarrow> i = [1, 2] ! j)"
    by (rule chainWires_is_pipeline) (simp_all add: two_wires_def the_con_def NewWire_base_def)
  then obtain s where s: "chainWires 0 two_wires = Inr (two_wires\<lparr>cs_world := s\<rparr>)"
    "\<And>j. j \<le> 1 \<Longrightarrow> the_wire ([1, 2] ! j) s = (the_wire ([1, 2] ! j) (cs_world two_wires))
       \<lparr>inChan := (if j = 0 then inChan (the_wire 1 (cs_world two_wires)) else Some ([4] ! (j - 1))),
        OutputChan := Some (([4] @ [9]) ! j)\<rparr>" by auto
  show ?thesis
    using s(1) s(2) [of 0] s(2) [of 1] by (intro exI [of _ s]) (simp add: two_wires_def)
qed

section \<open>Connecting wires one call after another\<close>

text \<open>A conduit without loggers, sensors, breaker, generators and protector, not started.\<close>

definition bare_conduit :: "conduit \<Rightarrow> bool" where
  "bare_conduit c \<longleftrightarrow> con_started c = 0 \<and> con_loggers c = [] \<and> con_sensors c = [] \<and> con_CircuitBreaker c = None \<and>
     con_generators c = [] \<and> \<not> con_surgeProtector c"

lemma attachWire_bare:
  assumes "bare_conduit (the_con k z)" and "wire_started (the_wire i (cs_world z)) \<noteq> 1"
  obtains s' where "attachWire env k i z = Inr (z\<lparr>cs_world := s'\<rparr>)"
    "\<And>j. inChan (the_wire j s') = inChan (the_wire j (cs_world z)) \<and>
          OutputChan (the_wire j s') = OutputChan (the_wire j (cs_world z)) \<and>
          wire_started (the_wire j s') = wire_started (the_wire j (cs_world z))"
  using assms
  by (auto simp: attachWire_def bare_conduit_def wire_cfg_def SetConcurrencyControl_def if_not_started_def
      requireNotStarted_def Let_def intro!: that)

lemma ConnectWire_bare:
  assumes bare: "bare_conduit (the_con k z)" and ws: "distinct (con_wires (the_con k z) @ [i])"
    and ns: "\<forall>j \<in> set (con_wires (the_con k z) @ [i]). wire_started (the_wire j (cs_world z)) \<noteq> 1"
    and out: "con_OutputChan (the_con k z) = Some out"
  obtains z' where "ConnectWire env [Some i] k z = Inr z'"
    "the_con k z' = (the_con k z)\<lparr>con_wires := con_wires (the_con k z) @ [i]\<rparr>"
    "OutputChan (the_wire i (cs_world z')) = Some out"
    "con_wires (the_con k z) \<noteq> [] \<longrightarrow>
       inChan (the_wire i (cs_world z')) = OutputChan (the_wire (last (con_wires (the_con k z))) (cs_world z))"
    "\<forall>j. wire_started (the_wire j (cs_world z')) = wire_started (the_wire j (cs_world z))"
proof -
  define z1 where "z1 = put_con k ((the_con k z)\<lparr>con_wires := con_wires (the_con k z) @ [i]\<rparr>) z"
  have b1: "bare_conduit (the_con k z1)" "wire_started (the_wire i (cs_world z1)) \<noteq> 1"
    using bare ns by (simp_all add: bare_conduit_def z1_def)
  obtain s2 where s2: "attachWire env k i z1 = Inr (z1\<lparr>cs_world := s2\<rparr>)"
    "\<And>j. inChan (the_wire j s2) = inChan (the_wire j (cs_world z1)) \<and>
          OutputChan (the_wire j s2) = OutputChan (the_wire j (cs_world z1)) \<and>
          wire_started (the_wire j s2) = wire_started (the_wire j (cs_world z1))"
    using attachWire_bare [OF b1] by metis
  define z2 where "z2 = z1\<lparr>cs_world := s2\<rparr>"
  obtain w us where wus: "con_wires (the_con k z) @ [i] = w # us" by (cases "con_wires (the_con k z) @ [i]") auto
  have pre: "con_wires (the_con k z2) = w # us" "distinct (w # us)"
    "\<forall>j \<in> set (w # us). wire_started (the_wire j (cs_world z2)) \<noteq> 1" "con_OutputChan (the_con k z2) = Some out"
    using wus ws ns out s2(2) by (simp_all add: z2_def z1_def)
  obtain s3 where s3: "chainWires k z2 = Inr (z2\<lparr>cs_world := s3\<rparr>)"
    "\<forall>j < length us. inChan (the_wire (us ! j) s3) = OutputChan (the_wire ((w # us) ! j) (cs_world z2))"
    "OutputChan (the_wire (last (w # us)) s3) = Some out"
    "\<forall>j. wire_started (the_wire j s3) = wire_started (the_wire j (cs_world z2))"
    using chainWires_spec [OF pre] by metis
  have cw: "ConnectWire env [Some i] k z = Inr (z2\<lparr>cs_world := s3\<rparr>)"
    using s2(1) s3(1) bare by (simp add: ConnectWire_def con_guard_def bare_conduit_def Let_def z1_def z2_def)
  have lst: "last (w # us) = i" using wus by (metis last_snoc)
  have "inChan (the_wire i s3) = OutputChan (the_wire (last (con_wires (the_con k z))) (cs_world z))"
    if ne: "con_wires (the_con k z) \<noteq> []"
  proof -
    have len: "length us = length (con_wires (the_con k z))" using wus by (metis length_append_singleton length_Cons nat.inject)
    let ?j = "length us - 1"
    have j: "?j < length us" using ne len by (simp add: Suc_le_eq)
    have "us \<noteq> []" using j by auto
    then have "us ! ?j = i" using lst by (simp add: last_conv_nth)
    moreover have "(w # us) ! ?j = last (con_wires (the_con k z))"
      using wus [symmetric] j len ne by (simp add: nth_append last_conv_nth)
    ultimately show ?thesis using s3(2) j s2(2) by (auto simp: z2_def z1_def)
  qed
  then show ?thesis
    using cw s3 lst s2(2) by (intro that [of "z2\<lparr>cs_world := s3\<rparr>"]) (simp_all add: z2_def z1_def)
qed

text \<open>
  connecting two wires to a conduit by two calls of \<^verbatim>\<open>ConnectWire\<close>, after the constructor has given
  the conduit its output channel, short-circuits the second wire: the first call has made the
  conduit's output channel the first wire's output, so the second call makes it the second
  wire's input as well as its output, and the second wire reads back what it writes.
\<close>

theorem ConnectWire_twice_short_circuits:
  assumes "bare_conduit (the_con k z)" and "con_wires (the_con k z) = []" and "con_OutputChan (the_con k z) = Some out"
    and "i \<noteq> j" and "wire_started (the_wire i (cs_world z)) = 0" and "wire_started (the_wire j (cs_world z)) = 0"
  shows "\<exists>z1 z2. ConnectWire env [Some i] k z = Inr z1 \<and> ConnectWire env [Some j] k z1 = Inr z2 \<and>
    inChan (the_wire j (cs_world z2)) = Some out \<and> OutputChan (the_wire j (cs_world z2)) = Some out"
proof -
  have pre: "distinct (con_wires (the_con k z) @ [i])"
    "\<forall>w \<in> set (con_wires (the_con k z) @ [i]). wire_started (the_wire w (cs_world z)) \<noteq> 1"
    using assms by simp_all
  obtain z1 where z1: "ConnectWire env [Some i] k z = Inr z1"
    "the_con k z1 = (the_con k z)\<lparr>con_wires := con_wires (the_con k z) @ [i]\<rparr>"
    "OutputChan (the_wire i (cs_world z1)) = Some out"
    "\<forall>w. wire_started (the_wire w (cs_world z1)) = wire_started (the_wire w (cs_world z))"
    using ConnectWire_bare [OF assms(1) pre assms(3)] by metis
  have pre1: "bare_conduit (the_con k z1)" "distinct (con_wires (the_con k z1) @ [j])"
    "\<forall>w \<in> set (con_wires (the_con k z1) @ [j]). wire_started (the_wire w (cs_world z1)) \<noteq> 1"
    "con_OutputChan (the_con k z1) = Some out" "con_wires (the_con k z1) = [i]"
    using z1 assms by (simp_all add: bare_conduit_def)
  obtain z2 where "ConnectWire env [Some j] k z1 = Inr z2"
    "OutputChan (the_wire j (cs_world z2)) = Some out"
    "con_wires (the_con k z1) \<noteq> [] \<longrightarrow>
       inChan (the_wire j (cs_world z2)) = OutputChan (the_wire (last (con_wires (the_con k z1))) (cs_world z1))"
    using ConnectWire_bare [OF pre1(1-4)] by metis
  then show ?thesis using z1 pre1(5) by auto
qed

theorem ConnectWire_twice_short_circuits_witness:
  "\<exists>z1 z2. ConnectWire no_generators [Some 1] 0 (two_wires\<lparr>cs_conduits := (\<lambda>k. (NewConduit_base ''c'' 1 [])\<lparr>con_OutputChan := Some 9\<rparr>)\<rparr>) = Inr z1 \<and>
    ConnectWire no_generators [Some 2] 0 z1 = Inr z2 \<and>
    inChan (the_wire 2 (cs_world z2)) = Some 9 \<and> OutputChan (the_wire 2 (cs_world z2)) = Some 9"
  by (rule ConnectWire_twice_short_circuits)
    (simp_all add: two_wires_def the_con_def bare_conduit_def NewConduit_base_def the_wire_def empty_world_def empty_wsys_def NewWire_base_def)


end
