(* ===== verification/Go_Strings.thy ===== *)
theory Go_Strings
  imports Prelude
begin

text \<open>
  The functions of Go's \<^verbatim>\<open>strings\<close>, \<^verbatim>\<open>encoding/hex\<close> and \<^verbatim>\<open>encoding/base64\<close> that the relays and the
  authentication code use, on strings as lists of bytes. Case folding and white space are those of
  ASCII; the strings they are applied to (header names and values, content types, scopes,
  key texts) are ASCII.
\<close>

section \<open>Strings and bytes\<close>

type_synonym octets = "8 word list"

definition bytes_of :: "string \<Rightarrow> octets" where
  "bytes_of s = map of_char s"

definition ascii_space :: "char \<Rightarrow> bool" where
  "ascii_space c \<longleftrightarrow> c \<in> {CHR 0x09, CHR 0x0A, CHR 0x0B, CHR 0x0C, CHR 0x0D, CHR 0x20}"

definition lower_char :: "char \<Rightarrow> char" where
  "lower_char c = (let n = of_char c :: nat in if 65 \<le> n \<and> n \<le> 90 then char_of (n + 32) else c)"

definition ToLower :: "string \<Rightarrow> string" where
  "ToLower s = map lower_char s"

definition upper_char :: "char \<Rightarrow> char" where
  "upper_char c = (let n = of_char c :: nat in if 97 \<le> n \<and> n \<le> 122 then char_of (n - 32) else c)"

definition ToUpper :: "string \<Rightarrow> string" where
  "ToUpper s = map upper_char s"

definition TrimSpace :: "string \<Rightarrow> string" where
  "TrimSpace s = rev (dropWhile ascii_space (rev (dropWhile ascii_space s)))"

definition TrimRight_char :: "string \<Rightarrow> char \<Rightarrow> string" where
  "TrimRight_char s c = rev (dropWhile (\<lambda>x. x = c) (rev s))"

definition HasPrefix :: "string \<Rightarrow> string \<Rightarrow> bool" where
  "HasPrefix s p \<longleftrightarrow> take (length p) s = p"

definition HasSuffix :: "string \<Rightarrow> string \<Rightarrow> bool" where
  "HasSuffix s p \<longleftrightarrow> length p \<le> length s \<and> drop (length s - length p) s = p"

text \<open>\<^verbatim>\<open>strings.Fields\<close>: the maximal runs without white space.\<close>

fun fields_from :: "string \<Rightarrow> string \<Rightarrow> string list" where
  "fields_from cur [] = (if cur = [] then [] else [rev cur])"
| "fields_from cur (c # cs) =
     (if ascii_space c then (if cur = [] then fields_from [] cs else rev cur # fields_from [] cs)
      else fields_from (c # cur) cs)"

definition Fields :: "string \<Rightarrow> string list" where
  "Fields s = fields_from [] s"

text \<open>\<^verbatim>\<open>strings.Split\<close> and \<^verbatim>\<open>strings.Count\<close> at one character: the pieces between its occurrences.\<close>

fun split_from :: "char \<Rightarrow> string \<Rightarrow> string \<Rightarrow> string list" where
  "split_from sep cur [] = [rev cur]"
| "split_from sep cur (c # cs) = (if c = sep then rev cur # split_from sep [] cs else split_from sep (c # cur) cs)"

definition Split_char :: "string \<Rightarrow> char \<Rightarrow> string list" where
  "Split_char s sep = split_from sep [] s"

definition Count_char :: "string \<Rightarrow> char \<Rightarrow> nat" where
  "Count_char s c = length (filter (\<lambda>x. x = c) s)"

text \<open>What follows the last slash.\<close>

definition after_last_slash :: "string \<Rightarrow> string" where
  "after_last_slash s = (if CHR ''/'' \<in> set s then rev (takeWhile (\<lambda>c. c \<noteq> CHR ''/'') (rev s)) else s)"

section \<open>Hexadecimal and base 64\<close>

definition hex_value :: "char \<Rightarrow> nat option" where
  "hex_value c =
     (let n = of_char c :: nat in
      if 48 \<le> n \<and> n \<le> 57 then Some (n - 48)
      else if 97 \<le> n \<and> n \<le> 102 then Some (n - 87)
      else if 65 \<le> n \<and> n \<le> 70 then Some (n - 55) else None)"

fun hex_DecodeString :: "string \<Rightarrow> octets option" where
  "hex_DecodeString [] = Some []"
| "hex_DecodeString [c] = None"
| "hex_DecodeString (c # d # cs) =
     (case (hex_value c, hex_value d, hex_DecodeString cs) of
        (Some h, Some l, Some bs) \<Rightarrow> Some (word_of_nat (16 * h + l) # bs)
      | _ \<Rightarrow> None)"

definition base64_value :: "char \<Rightarrow> nat option" where
  "base64_value c =
     (let n = of_char c :: nat in
      if 65 \<le> n \<and> n \<le> 90 then Some (n - 65)
      else if 97 \<le> n \<and> n \<le> 122 then Some (n - 71)
      else if 48 \<le> n \<and> n \<le> 57 then Some (n + 4)
      else if n = 43 then Some 62 else if n = 47 then Some 63 else None)"

text \<open>
  \<^verbatim>\<open>base64.StdEncoding.DecodeString\<close>: line breaks are skipped, the input comes in groups of
  four, only the last of which may be padded; left-over bits of a padded group are ignored.
\<close>

fun base64_groups :: "string \<Rightarrow> octets option" where
  "base64_groups [] = Some []"
| "base64_groups [a, b, c, d] =
     (case (base64_value a, base64_value b) of
        (Some x, Some y) \<Rightarrow>
          (if c = CHR ''='' then
             (if d = CHR ''='' then Some [word_of_nat (4 * x + y div 16)] else None)
           else
             (case base64_value c of
                None \<Rightarrow> None
              | Some z \<Rightarrow>
                (if d = CHR ''='' then
                   Some [word_of_nat (4 * x + y div 16), word_of_nat (16 * (y mod 16) + z div 4)]
                 else
                   (case base64_value d of
                      None \<Rightarrow> None
                    | Some w \<Rightarrow>
                      Some [word_of_nat (4 * x + y div 16), word_of_nat (16 * (y mod 16) + z div 4),
                            word_of_nat (64 * (z mod 4) + w)]))))
      | _ \<Rightarrow> None)"
| "base64_groups (a # b # c # d # e # rest) =
     (case (base64_value a, base64_value b, base64_value c, base64_value d, base64_groups (e # rest)) of
        (Some x, Some y, Some z, Some w, Some bs) \<Rightarrow>
          Some (word_of_nat (4 * x + y div 16) # word_of_nat (16 * (y mod 16) + z div 4) #
                word_of_nat (64 * (z mod 4) + w) # bs)
      | _ \<Rightarrow> None)"
| "base64_groups _ = None"

definition base64_DecodeString :: "string \<Rightarrow> octets option" where
  "base64_DecodeString s = base64_groups (filter (\<lambda>c. c \<noteq> CHR 0x0A \<and> c \<noteq> CHR 0x0D) s)"

text \<open>
  \<^verbatim>\<open>base64.RawURLEncoding.DecodeString\<close>: the alphabet of URLs and no padding; a last group may
  have two or three characters.
\<close>

definition base64url_value :: "char \<Rightarrow> nat option" where
  "base64url_value c =
     (if c = CHR ''-'' then Some 62 else if c = CHR ''_'' then Some 63
      else if c = CHR ''+'' \<or> c = CHR ''/'' then None else base64_value c)"

fun base64url_groups :: "nat list \<Rightarrow> octets option" where
  "base64url_groups [] = Some []"
| "base64url_groups [x] = None"
| "base64url_groups [x, y] = Some [word_of_nat (4 * x + y div 16)]"
| "base64url_groups [x, y, z] = Some [word_of_nat (4 * x + y div 16), word_of_nat (16 * (y mod 16) + z div 4)]"
| "base64url_groups (x # y # z # w # rest) =
     (case base64url_groups rest of
        None \<Rightarrow> None
      | Some bs \<Rightarrow>
        Some (word_of_nat (4 * x + y div 16) # word_of_nat (16 * (y mod 16) + z div 4) #
              word_of_nat (64 * (z mod 4) + w) # bs))"

definition base64url_DecodeString :: "string \<Rightarrow> octets option" where
  "base64url_DecodeString s =
     (let vs = map base64url_value (filter (\<lambda>c. c \<noteq> CHR 0x0A \<and> c \<noteq> CHR 0x0D) s) in
      if None \<in> set vs then None else base64url_groups (map the vs))"

section \<open>Integers\<close>

text \<open>\<^verbatim>\<open>strconv.ParseInt(s, 10, 64)\<close>: a sign, at least one digit, and the range of 64 bits.\<close>

definition digit_value :: "char \<Rightarrow> nat option" where
  "digit_value c = (let n = of_char c :: nat in if 48 \<le> n \<and> n \<le> 57 then Some (n - 48) else None)"

definition parse_digits :: "string \<Rightarrow> nat option" where
  "parse_digits s =
     (let vs = map digit_value s in
      if s = [] \<or> None \<in> set vs then None else Some (foldl (\<lambda>a d. 10 * a + the d) 0 vs))"

definition ParseInt64 :: "string \<Rightarrow> int option" where
  "ParseInt64 s =
     (let (neg, body) = (case s of
                           [] \<Rightarrow> (False, [])
                         | c # cs \<Rightarrow> if c = CHR ''-'' then (True, cs) else if c = CHR ''+'' then (False, cs) else (False, s))
      in case parse_digits body of
           None \<Rightarrow> None
         | Some n \<Rightarrow> let i = (if neg then - int n else int n) in if is_i64 i then Some i else None)"

text \<open>\<^verbatim>\<open>big.Int.SetBytes\<close>: the bytes as a number, the most significant first.\<close>

definition be_nat :: "octets \<Rightarrow> nat" where
  "be_nat bs = foldl (\<lambda>a b. 256 * a + unat b) 0 bs"

section \<open>Lemmas\<close>

lemma length_bytes_of [simp]: "length (bytes_of s) = length s"
  by (simp add: bytes_of_def)

lemma hex_DecodeString_length: "hex_DecodeString s = Some b \<Longrightarrow> length s = 2 * length b"
  by (induction s arbitrary: b rule: hex_DecodeString.induct) (auto split: option.splits)

lemma hex_DecodeString_exact:
  assumes "\<forall>c \<in> set s. hex_value c \<noteq> None" and "even (length s)"
  shows "\<exists>b. hex_DecodeString s = Some b \<and> 2 * length b = length s"
  using assms
proof (induction s rule: hex_DecodeString.induct)
  case (3 c d cs)
  then obtain b where "hex_DecodeString cs = Some b" "2 * length b = length cs" by auto
  with 3(2) show ?case by auto
qed auto


lemma split_from_join:
  "split_from sep cur s = ps \<Longrightarrow> ps \<noteq> [] \<and> rev cur @ s = hd ps @ concat (map (\<lambda>p. sep # p) (tl ps))"
  by (induction sep cur s arbitrary: ps rule: split_from.induct) (auto split: if_splits simp: neq_Nil_conv)

text \<open>The pieces with the separator between them are the string again.\<close>

lemma Split_char_three:
  assumes "Split_char s sep = [a, b, c]"
  shows "s = a @ sep # b @ sep # c"
  using split_from_join [of sep "[]" s "[a, b, c]"] assms by (simp add: Split_char_def)

lemma length_split_from: "length (split_from sep cur s) = Suc (Count_char s sep)"
  by (induction sep cur s rule: split_from.induct) (auto simp: Count_char_def)

lemma length_Split_char: "length (Split_char s sep) = Suc (Count_char s sep)"
  by (simp add: Split_char_def length_split_from)

end
