(* ===== verification/Framing.thy ===== *)
theory Framing
  imports Go_Strings
begin

text \<open>
  The length-prefixed frames of the QUIC and WebTransport relays
  (\<^verbatim>\<open>src/pkg/internal/quicrelay/framing.go\<close>, and the same code in
  \<^verbatim>\<open>src/pkg/internal/webtransportrelay/framing.go\<close>): a frame is the payload behind its length
  as a big-endian \<^verbatim>\<open>uint32\<close>. The stream and the protobuf library are parameters: a writer
  \<open>wr\<close> takes bytes and a stream to an error and the stream after it, a reader \<open>rd\<close> takes
  the room in the buffer, and \<open>marshal\<close> and \<open>unmarshal\<close> stand for \<^verbatim>\<open>proto.Marshal\<close> and
  \<^verbatim>\<open>proto.Unmarshal\<close>. \<open>writer_ok\<close> and \<open>reader_ok\<close> are the documented contracts of
  \<^verbatim>\<open>io.Writer\<close> and \<^verbatim>\<open>io.Reader\<close> that the proofs rely on.
\<close>

unbundle bit_operations_syntax

section \<open>Bytes and streams\<close>

type_synonym 'w io_writer = "octets \<Rightarrow> 'w \<Rightarrow> gerr option \<times> 'w"
type_synonym 'r io_reader = "nat \<Rightarrow> 'r \<Rightarrow> (octets \<times> gerr option) \<times> 'r"

definition io_EOF :: gerr where
  "io_EOF = Err ''EOF''"

definition io_ErrUnexpectedEOF :: gerr where
  "io_ErrUnexpectedEOF = Err ''unexpected EOF''"

datatype frame_error =
    NilProtoMessage            \<comment> \<open>\<open>nil proto message\<close>\<close>
  | EmptyFrame                 \<comment> \<open>\<open>empty frame\<close>\<close>
  | FrameLength0               \<comment> \<open>\<open>frame length 0\<close>\<close>
  | FrameTooLarge nat int      \<comment> \<open>\<open>frame too large: %d > %d\<close>\<close>
  | StreamError gerr           \<comment> \<open>an error of the stream or of the protobuf library\<close>

text \<open>\<^verbatim>\<open>binary.BigEndian.PutUint32\<close> and \<^verbatim>\<open>binary.BigEndian.Uint32\<close>.\<close>

definition PutUint32 :: "32 word \<Rightarrow> octets" where
  "PutUint32 v = [ucast (drop_bit 24 v), ucast (drop_bit 16 v), ucast (drop_bit 8 v), ucast v]"

definition Uint32 :: "octets \<Rightarrow> 32 word" where
  "Uint32 b = ucast (b ! 3) OR push_bit 8 (ucast (b ! 2)) OR push_bit 16 (ucast (b ! 1)) OR
     push_bit 24 (ucast (b ! 0))"

text \<open>
  The loop of \<^verbatim>\<open>io.ReadFull\<close>: reads until the buffer is full or the reader reports an error.
  A reader that returns nothing and no error for ever keeps it from returning, which is the
  value \<open>None\<close>.
\<close>

partial_function (option) read_loop ::
  "'r io_reader \<Rightarrow> nat \<Rightarrow> octets \<Rightarrow> 'r \<Rightarrow> ((octets \<times> gerr option) \<times> 'r) option" where
  "read_loop rd n acc r =
     (if length acc < n then
        (case rd (n - length acc) r of
           ((bs, err), r') \<Rightarrow>
             (if err = None then read_loop rd n (acc @ bs) r' else Some ((acc @ bs, err), r')))
      else Some ((acc, None), r))"

definition ReadFull :: "'r io_reader \<Rightarrow> nat \<Rightarrow> 'r \<Rightarrow> ((gerr + octets) \<times> 'r) option" where
  "ReadFull rd n r =
     (case read_loop rd n [] r of
        None \<Rightarrow> None
      | Some ((bs, err), r') \<Rightarrow>
          if n \<le> length bs then Some (Inr bs, r')
          else if bs \<noteq> [] \<and> err = Some io_EOF then Some (Inl io_ErrUnexpectedEOF, r')
          else Some (Inl (case err of Some e \<Rightarrow> e | None \<Rightarrow> io_EOF), r'))"

section \<open>Frames\<close>

definition defaultMaxFrameBytes :: int where
  "defaultMaxFrameBytes = 67108864"

definition writeFrame :: "'w io_writer \<Rightarrow> octets \<Rightarrow> 'w \<Rightarrow> frame_error option \<times> 'w" where
  "writeFrame wr payload w =
     (if payload = [] then (Some EmptyFrame, w)
      else
        case wr (PutUint32 (word_of_nat (length payload))) w of
          (Some err, w1) \<Rightarrow> (Some (StreamError err), w1)
        | (None, w1) \<Rightarrow>
            (case wr payload w1 of (err, w2) \<Rightarrow> (map_option StreamError err, w2)))"

definition readFrame :: "'r io_reader \<Rightarrow> int \<Rightarrow> 'r \<Rightarrow> ((frame_error + octets) \<times> 'r) option" where
  "readFrame rd maxBytes r =
     (case ReadFull rd 4 r of
        None \<Rightarrow> None
      | Some (Inl err, r1) \<Rightarrow> Some (Inl (StreamError err), r1)
      | Some (Inr lenBuf, r1) \<Rightarrow>
          let len = unat (Uint32 lenBuf) in
          if len = 0 then Some (Inl FrameLength0, r1)
          else if maxBytes > 0 \<and> int len > maxBytes then Some (Inl (FrameTooLarge len maxBytes), r1)
          else
            (case ReadFull rd len r1 of
               None \<Rightarrow> None
             | Some (Inl err, r2) \<Rightarrow> Some (Inl (StreamError err), r2)
             | Some (Inr buf, r2) \<Rightarrow> Some (Inr buf, r2)))"

text \<open>A message is \<open>None\<close> when the interface is nil.\<close>

definition writeProtoFrame ::
  "('m \<Rightarrow> gerr + octets) \<Rightarrow> 'w io_writer \<Rightarrow> 'm option \<Rightarrow> 'w \<Rightarrow> frame_error option \<times> 'w" where
  "writeProtoFrame marshal wr msg w =
     (case msg of
        None \<Rightarrow> (Some NilProtoMessage, w)
      | Some m \<Rightarrow>
          (case marshal m of
             Inl err \<Rightarrow> (Some (StreamError err), w)
           | Inr b \<Rightarrow> writeFrame wr b w))"

text \<open>
  \<^verbatim>\<open>readProtoFrame\<close> fills the message it is given; the result here is that message.
\<close>

definition readProtoFrame ::
  "(octets \<Rightarrow> gerr + 'm) \<Rightarrow> 'r io_reader \<Rightarrow> 'm option \<Rightarrow> int \<Rightarrow> 'r \<Rightarrow> ((frame_error + 'm) \<times> 'r) option" where
  "readProtoFrame unmarshal rd msg maxBytes r =
     (case msg of
        None \<Rightarrow> Some (Inl NilProtoMessage, r)
      | Some _ \<Rightarrow>
          (case readFrame rd maxBytes r of
             None \<Rightarrow> None
           | Some (Inl err, r1) \<Rightarrow> Some (Inl err, r1)
           | Some (Inr b, r1) \<Rightarrow>
               (case unmarshal b of
                  Inl err \<Rightarrow> Some (Inl (StreamError err), r1)
                | Inr m \<Rightarrow> Some (Inr m, r1))))"

text \<open>The sending and the receiving loop of a relay stream, as far as the frames go.\<close>

fun write_messages ::
  "('m \<Rightarrow> gerr + octets) \<Rightarrow> 'w io_writer \<Rightarrow> 'm list \<Rightarrow> 'w \<Rightarrow> frame_error option \<times> 'w" where
  "write_messages marshal wr [] w = (None, w)"
| "write_messages marshal wr (m # ms) w =
     (case writeProtoFrame marshal wr (Some m) w of
        (Some err, w') \<Rightarrow> (Some err, w')
      | (None, w') \<Rightarrow> write_messages marshal wr ms w')"

fun read_messages ::
  "(octets \<Rightarrow> gerr + 'm) \<Rightarrow> 'r io_reader \<Rightarrow> 'm \<Rightarrow> int \<Rightarrow> nat \<Rightarrow> 'r \<Rightarrow>
   ('m list \<times> frame_error option \<times> 'r) option" where
  "read_messages unmarshal rd z maxBytes 0 r = Some ([], None, r)"
| "read_messages unmarshal rd z maxBytes (Suc k) r =
     (case readProtoFrame unmarshal rd (Some z) maxBytes r of
        None \<Rightarrow> None
      | Some (Inl err, r') \<Rightarrow> Some ([], Some err, r')
      | Some (Inr m, r') \<Rightarrow>
          (case read_messages unmarshal rd z maxBytes k r' of
             None \<Rightarrow> None
           | Some (ms, err, r'') \<Rightarrow> Some (m # ms, err, r'')))"

section \<open>Contracts of the stream\<close>

text \<open>
  \<^verbatim>\<open>io.Writer\<close>: a write without an error has written all the bytes, in order. \<^verbatim>\<open>io.Reader\<close>:
  a read takes a prefix of what is pending, no longer than the buffer; without an error it
  is not empty; an error comes when nothing is left, possibly with the last bytes.
\<close>

definition writer_ok :: "'w io_writer \<Rightarrow> ('w \<Rightarrow> octets) \<Rightarrow> bool" where
  "writer_ok wr sent \<longleftrightarrow> (\<forall>bs w. fst (wr bs w) = None \<longrightarrow> sent (snd (wr bs w)) = sent w @ bs)"

definition reader_ok :: "'r io_reader \<Rightarrow> ('r \<Rightarrow> octets) \<Rightarrow> bool" where
  "reader_ok rd pending \<longleftrightarrow>
     (\<forall>n r bs err r'. 0 < n \<and> rd n r = ((bs, err), r') \<longrightarrow>
        pending r = bs @ pending r' \<and> length bs \<le> n \<and> (err = None \<longrightarrow> bs \<noteq> []) \<and>
        (err \<noteq> None \<longrightarrow> err = Some io_EOF \<and> pending r' = []))"

definition proto_ok :: "('m \<Rightarrow> gerr + octets) \<Rightarrow> (octets \<Rightarrow> gerr + 'm) \<Rightarrow> bool" where
  "proto_ok marshal unmarshal \<longleftrightarrow> (\<forall>m b. marshal m = Inr b \<longrightarrow> unmarshal b = Inr m)"

definition frame_fits :: "int \<Rightarrow> octets \<Rightarrow> bool" where
  "frame_fits maxBytes b \<longleftrightarrow> length b < 4294967296 \<and> (maxBytes > 0 \<longrightarrow> int (length b) \<le> maxBytes)"

section \<open>Lemmas\<close>

lemma PutUint32_length [simp]: "length (PutUint32 v) = 4"
  by (simp add: PutUint32_def)

lemma Uint32_PutUint32 [simp]: "Uint32 (PutUint32 v) = v"
proof (rule bit_word_eqI)
  fix n :: nat
  assume "n < LENGTH(32)"
  then have n: "n < 32" by simp
  then consider "n < 8" | "8 \<le> n" "n < 16" | "16 \<le> n" "n < 24" | "24 \<le> n" by linarith
  then show "bit (Uint32 (PutUint32 v)) n = bit v n"
    using n by cases (auto simp: Uint32_def PutUint32_def bit_simps)
qed

lemma reader_okD:
  assumes "reader_ok rd pending" and "0 < n" and "rd n r = ((bs, err), r')"
  shows "pending r = bs @ pending r' \<and> length bs \<le> n \<and> (err = None \<longrightarrow> bs \<noteq> []) \<and>
    (err \<noteq> None \<longrightarrow> err = Some io_EOF \<and> pending r' = [])"
  using assms unfolding reader_ok_def by blast

lemma read_loop_done: "n \<le> length acc \<Longrightarrow> read_loop rd n acc r = Some ((acc, None), r)"
  by (subst read_loop.simps) simp

lemma read_loop_result:
  assumes "reader_ok rd pending" and "length acc \<le> n"
  shows "\<exists>err r'. read_loop rd n acc r = Some ((take n (acc @ pending r), err), r') \<and>
     pending r' = drop (n - length acc) (pending r) \<and>
     (length acc + length (pending r) < n \<longrightarrow> err = Some io_EOF)"
  using assms(2)
proof (induction "n - length acc" arbitrary: acc r rule: less_induct)
  case less
  show ?case
  proof (cases "length acc < n")
    case False
    then show ?thesis using less.prems by (simp add: read_loop_done)
  next
    case True
    obtain bs err r1 where rd: "rd (n - length acc) r = ((bs, err), r1)"
      by (metis surj_pair)
    have law: "pending r = bs @ pending r1" "length bs \<le> n - length acc"
      "err = None \<Longrightarrow> bs \<noteq> []" "err \<noteq> None \<Longrightarrow> err = Some io_EOF \<and> pending r1 = []"
      using reader_okD [OF assms(1) _ rd] True by auto
    show ?thesis
    proof (cases err)
      case (Some e)
      with law True rd show ?thesis by (subst read_loop.simps) auto
    next
      case None
      have "n - length (acc @ bs) < n - length acc" "length (acc @ bs) \<le> n"
        using None law True by (auto simp: length_greater_0_conv [symmetric] simp del: length_greater_0_conv)
      from less.hyps [OF this, of r1] obtain err' r' where
        "read_loop rd n (acc @ bs) r1 = Some ((take n ((acc @ bs) @ pending r1), err'), r')"
        "pending r' = drop (n - length (acc @ bs)) (pending r1)"
        "length (acc @ bs) + length (pending r1) < n \<longrightarrow> err' = Some io_EOF"
        by blast
      with None law True rd show ?thesis by (subst read_loop.simps) (auto simp: drop_append)
    qed
  qed
qed

lemma ReadFull_enough:
  assumes "reader_ok rd pending" and "n \<le> length (pending r)"
  shows "\<exists>r'. ReadFull rd n r = Some (Inr (take n (pending r)), r') \<and> pending r' = drop n (pending r)"
  using read_loop_result [OF assms(1), of "[]" n r] assms(2) by (auto simp: ReadFull_def)

lemma ReadFull_short:
  assumes "reader_ok rd pending" and "length (pending r) < n"
  shows "\<exists>r'. ReadFull rd n r =
    Some (Inl (if pending r = [] then io_EOF else io_ErrUnexpectedEOF), r') \<and> pending r' = []"
  using read_loop_result [OF assms(1), of "[]" n r] assms(2) by (auto simp: ReadFull_def)

lemma readFrame_frame:
  assumes "reader_ok rd pending" and "b \<noteq> []" and "frame_fits maxBytes b"
    and "pending r = PutUint32 (word_of_nat (length b)) @ b @ rest"
  shows "\<exists>r'. readFrame rd maxBytes r = Some (Inr b, r') \<and> pending r' = rest"
proof -
  have len: "unat (word_of_nat (length b) :: 32 word) = length b"
    using assms(3) by (simp add: frame_fits_def unat_of_nat take_bit_eq_mod)
  obtain r1 where r1: "ReadFull rd 4 r = Some (Inr (PutUint32 (word_of_nat (length b))), r1)"
      "pending r1 = b @ rest"
    using ReadFull_enough [OF assms(1), of 4 r] assms(4) by auto
  obtain r2 where "ReadFull rd (length b) r1 = Some (Inr b, r2)" "pending r2 = rest"
    using ReadFull_enough [OF assms(1), of "length b" r1] r1 by auto
  with r1 len assms(2,3) show ?thesis
    by (auto simp: readFrame_def frame_fits_def Let_def)
qed

lemma readFrame_truncated:
  assumes "reader_ok rd pending" and "k < 4 + length b" and "b \<noteq> []" and "frame_fits maxBytes b"
    and "pending r = take k (PutUint32 (word_of_nat (length b)) @ b)"
  shows "\<exists>e r'. readFrame rd maxBytes r = Some (Inl (StreamError e), r')"
proof (cases "k < 4")
  case True
  with assms(5) show ?thesis
    using ReadFull_short [OF assms(1), of r 4] by (auto simp: readFrame_def)
next
  case False
  have len: "unat (word_of_nat (length b) :: 32 word) = length b"
    using assms(4) by (simp add: frame_fits_def unat_of_nat take_bit_eq_mod)
  obtain r1 where r1: "ReadFull rd 4 r = Some (Inr (PutUint32 (word_of_nat (length b))), r1)"
      "pending r1 = take (k - 4) b"
    using ReadFull_enough [OF assms(1), of 4 r] assms(5) False by auto
  obtain e r2 where "ReadFull rd (length b) r1 = Some (Inl e, r2)"
    using ReadFull_short [OF assms(1), of r1 "length b"] r1(2) assms(2) False by fastforce
  with r1 len assms(3,4) show ?thesis
    by (auto simp: readFrame_def frame_fits_def Let_def)
qed

lemma writeFrame_sent:
  assumes "writer_ok wr sent" and "writeFrame wr b w = (None, w')"
  shows "b \<noteq> [] \<and> sent w' = sent w @ PutUint32 (word_of_nat (length b)) @ b"
proof -
  have law: "fst (wr bs v) = None \<Longrightarrow> sent (snd (wr bs v)) = sent v @ bs" for bs v
    using assms(1) by (simp add: writer_ok_def)
  obtain w1 where w1: "wr (PutUint32 (word_of_nat (length b))) w = (None, w1)"
      "wr b w1 = (None, w')" "b \<noteq> []"
    using assms(2) by (auto simp: writeFrame_def split: if_splits prod.splits option.splits)
  with law [of "PutUint32 (word_of_nat (length b))" w] law [of b w1] show ?thesis by simp
qed

lemma writeProtoFrame_sent:
  assumes "writer_ok wr sent" and "writeProtoFrame marshal wr (Some m) w = (None, w')"
  shows "\<exists>b. marshal m = Inr b \<and> b \<noteq> [] \<and> sent w' = sent w @ PutUint32 (word_of_nat (length b)) @ b"
  using writeFrame_sent [OF assms(1)] assms(2) by (auto simp: writeProtoFrame_def split: sum.splits)

text \<open>What a list of messages is on the stream, when every message can be marshalled.\<close>

definition wire_format :: "('m \<Rightarrow> gerr + octets) \<Rightarrow> 'm list \<Rightarrow> octets" where
  "wire_format marshal ms =
     concat (map (\<lambda>m. case marshal m of Inl _ \<Rightarrow> [] | Inr b \<Rightarrow> PutUint32 (word_of_nat (length b)) @ b) ms)"

lemma write_messages_sent:
  assumes "writer_ok wr sent" and "write_messages marshal wr ms w = (None, w')"
  shows "sent w' = sent w @ wire_format marshal ms \<and> (\<forall>m \<in> set ms. \<exists>b. marshal m = Inr b \<and> b \<noteq> [])"
  using assms(2)
proof (induction ms arbitrary: w)
  case (Cons m ms)
  then obtain w1 where w1: "writeProtoFrame marshal wr (Some m) w = (None, w1)"
      "write_messages marshal wr ms w1 = (None, w')"
    by (auto split: prod.splits option.splits)
  from writeProtoFrame_sent [OF assms(1) w1(1)] Cons.IH [OF w1(2)]
  show ?case by (auto simp: wire_format_def)
qed (simp add: wire_format_def)

lemma read_messages_wire_format:
  assumes "reader_ok rd pending" and "proto_ok marshal unmarshal"
    and "\<forall>m \<in> set ms. \<exists>b. marshal m = Inr b \<and> b \<noteq> [] \<and> frame_fits maxBytes b"
    and "pending r = wire_format marshal ms @ rest"
  shows "\<exists>r'. read_messages unmarshal rd z maxBytes (length ms) r = Some (ms, None, r') \<and> pending r' = rest"
  using assms(3,4)
proof (induction ms arbitrary: r)
  case (Cons m ms)
  then obtain b where b: "marshal m = Inr b" "b \<noteq> []" "frame_fits maxBytes b" by auto
  with Cons.prems have "pending r = PutUint32 (word_of_nat (length b)) @ b @ (wire_format marshal ms @ rest)"
    by (simp add: wire_format_def)
  from readFrame_frame [OF assms(1) b(2,3) this] obtain r1 where
    "readFrame rd maxBytes r = Some (Inr b, r1)" and p1: "pending r1 = wire_format marshal ms @ rest"
    by blast
  moreover have "unmarshal b = Inr m" using assms(2) b by (simp add: proto_ok_def)
  ultimately have "readProtoFrame unmarshal rd (Some z) maxBytes r = Some (Inr m, r1)"
    by (simp add: readProtoFrame_def)
  with Cons.IH [OF _ p1] Cons.prems show ?case by auto
qed (simp add: wire_format_def)

text \<open>Sample streams: a writer that keeps the bytes, a reader that gives three at a time.\<close>

definition list_writer :: "octets io_writer" where
  "list_writer bs w = (None, w @ bs)"

definition chunk_reader :: "octets io_reader" where
  "chunk_reader n r = ((take (min n 3) r, if r = [] then Some io_EOF else None), drop (min n 3) r)"

lemma list_writer_ok: "writer_ok list_writer (\<lambda>w. w)"
  by (simp add: writer_ok_def list_writer_def)

lemma chunk_reader_ok: "reader_ok chunk_reader (\<lambda>r. r)"
  by (auto simp: reader_ok_def chunk_reader_def split: if_splits)

text \<open>
  C16: the framed stream is lossless. If a relay has written a list of messages without an
  error, on a writer that keeps its contract, and no marshalled message exceeds the
  receiver's limit, then a receiver whose reader delivers these bytes, in whatever pieces,
  returns exactly the messages that were sent, in order, and leaves what follows unread. A
  stream that ends within the length or within the payload gives an error and no message.
\<close>
theorem frames_round_trip:
  assumes "writer_ok wr sent" and "reader_ok rd pending" and "proto_ok marshal unmarshal"
    and "write_messages marshal wr ms w = (None, w')" and "sent w = []"
    and "\<forall>m \<in> set ms. \<forall>b. marshal m = Inr b \<longrightarrow> frame_fits maxBytes b"
  shows "(pending r = sent w' @ rest \<longrightarrow>
      (\<exists>r'. read_messages unmarshal rd z maxBytes (length ms) r = Some (ms, None, r') \<and> pending r' = rest)) \<and>
    (\<forall>k b. k < 4 + length b \<and> b \<noteq> [] \<and> frame_fits maxBytes b \<and>
        pending r = take k (PutUint32 (word_of_nat (length b)) @ b) \<longrightarrow>
      (\<exists>e r'. readProtoFrame unmarshal rd (Some z) maxBytes r = Some (Inl (StreamError e), r')))"
proof (intro conjI impI allI)
  assume "pending r = sent w' @ rest"
  with write_messages_sent [OF assms(1,4)] assms(5,6)
  show "\<exists>r'. read_messages unmarshal rd z maxBytes (length ms) r = Some (ms, None, r') \<and> pending r' = rest"
    by (intro read_messages_wire_format [OF assms(2,3)]) auto
next
  fix k b
  assume a: "k < 4 + length b \<and> b \<noteq> [] \<and> frame_fits maxBytes b \<and>
    pending r = take k (PutUint32 (word_of_nat (length b)) @ b)"
  then show "\<exists>e r'. readProtoFrame unmarshal rd (Some z) maxBytes r = Some (Inl (StreamError e), r')"
    using readFrame_truncated [OF assms(2), of k b maxBytes r] by (auto simp: readProtoFrame_def)
qed


theorem frames_round_trip_witness:
  "write_messages Inr list_writer [[1, 2], [3, 4, 5]] [] = (None, [0, 0, 0, 2, 1, 2, 0, 0, 0, 3, 3, 4, 5]) \<and>
   read_messages Inr chunk_reader [] 64 2 [0, 0, 0, 2, 1, 2, 0, 0, 0, 3, 3, 4, 5, 9] =
     Some ([[1, 2], [3, 4, 5]], None, [9]) \<and>
   (\<exists>e r'. readProtoFrame Inr chunk_reader (Some []) 64 [0, 0, 0, 2, 1] = Some (Inl (StreamError e), r'))"
proof -
  have w: "write_messages Inr list_writer [[1, 2], [3, 4, 5]] [] =
      (None, [0, 0, 0, 2, 1, 2, 0, 0, 0, 3, 3, 4, 5])"
    by (simp add: writeProtoFrame_def writeFrame_def list_writer_def PutUint32_def)
  have pr: "proto_ok Inr Inr" by (simp add: proto_ok_def)
  have fits: "\<forall>m \<in> set [[1, 2], [3, 4, 5]]. \<forall>b. Inr m = (Inr b :: gerr + octets) \<longrightarrow> frame_fits 64 b"
    by (simp add: frame_fits_def)
  note rt = frames_round_trip [OF list_writer_ok chunk_reader_ok pr w refl fits]
  have "read_messages Inr chunk_reader [] 64 2 [0, 0, 0, 2, 1, 2, 0, 0, 0, 3, 3, 4, 5, 9] =
     Some ([[1, 2], [3, 4, 5]], None, [9])"
    using rt [of "[0, 0, 0, 2, 1, 2, 0, 0, 0, 3, 3, 4, 5, 9]" "[9]" "[]"]
    by (simp add: numeral_2_eq_2 del: read_messages.simps)
  moreover have "\<exists>e r'. readProtoFrame Inr chunk_reader (Some []) 64 [0, 0, 0, 2, 1] = Some (Inl (StreamError e), r')"
    using conjunct2 [OF rt [of "[0, 0, 0, 2, 1]" "[9]" "[]"], rule_format, of 5 "[1, 2]"]
    by (simp add: frame_fits_def PutUint32_def)
  ultimately show ?thesis using w by blast
qed

end
