(* ===== verification/Metric_Names.thy ===== *)
theory Metric_Names
  imports Prelude
begin

text \<open>
  The metric names of \<^verbatim>\<open>types/meter.go\<close> and the tables of
  \<^verbatim>\<open>meter/registry_definitions.go\<close>: the metrics shown as percentages, the display labels, and
  the metrics a new meter lists, in order.
\<close>

section \<open>Names\<close>

abbreviation MetricCurrentCpuPercentage :: string where "MetricCurrentCpuPercentage \<equiv> ''current_cpu_percentage''"
abbreviation MetricCurrentRamPercentage :: string where "MetricCurrentRamPercentage \<equiv> ''current_ram_percentage''"
abbreviation MetricPeakGoRoutinesActive :: string where "MetricPeakGoRoutinesActive \<equiv> ''peak_go_routines_active''"
abbreviation MetricCurrentGoRoutinesActive :: string where "MetricCurrentGoRoutinesActive \<equiv> ''current_go_routines_active''"
abbreviation MetricPeakProcessedPerSecond :: string where "MetricPeakProcessedPerSecond \<equiv> ''max_processed_per_second''"
abbreviation MetricPeakTransformedPerSecond :: string where "MetricPeakTransformedPerSecond \<equiv> ''max_transformed_per_second''"
abbreviation MetricPeakTransformationErrorsPerSecond :: string where "MetricPeakTransformationErrorsPerSecond \<equiv> ''max_transform_errors_per_second''"
abbreviation MetricProcessedPerSecond :: string where "MetricProcessedPerSecond \<equiv> ''processed_per_second''"
abbreviation MetricTransformsPerSecond :: string where "MetricTransformsPerSecond \<equiv> ''transforms_per_second''"
abbreviation MetricTransformationErrorsPerSecond :: string where "MetricTransformationErrorsPerSecond \<equiv> ''errors_per_second''"
abbreviation MetricTotalComponentsUsedCount :: string where "MetricTotalComponentsUsedCount \<equiv> ''total_components_used_count''"
abbreviation MetricTransformPercentage :: string where "MetricTransformPercentage \<equiv> ''transform_percentage''"
abbreviation MetricErrorPercentage :: string where "MetricErrorPercentage \<equiv> ''error_percentage''"
abbreviation MetricTotalErrorCount :: string where "MetricTotalErrorCount \<equiv> ''total_error_count''"
abbreviation MetricProgressPercentage :: string where "MetricProgressPercentage \<equiv> ''progress_percentage''"
abbreviation MetricTotalPendingCount :: string where "MetricTotalPendingCount \<equiv> ''element_pending_total_count''"
abbreviation MetricTotalSubmittedCount :: string where "MetricTotalSubmittedCount \<equiv> ''element_submitted_total_count''"
abbreviation MetricTotalProcessedCount :: string where "MetricTotalProcessedCount \<equiv> ''element_processed_total_count''"
abbreviation MetricTotalTransformedCount :: string where "MetricTotalTransformedCount \<equiv> ''element_transformed_total_count''"
abbreviation MetricComponentRunningCount :: string where "MetricComponentRunningCount \<equiv> ''component_running_count''"
abbreviation MetricMeterConnectedComponentCount :: string where "MetricMeterConnectedComponentCount \<equiv> ''meter_connected_component_count''"
abbreviation MetricLoggerConnectedComponentCount :: string where "MetricLoggerConnectedComponentCount \<equiv> ''logger_connected_component_count''"
abbreviation MetricComponentRestartCount :: string where "MetricComponentRestartCount \<equiv> ''component_restart_count''"
abbreviation MetricComponentLifecycleErrorCount :: string where "MetricComponentLifecycleErrorCount \<equiv> ''component_lifecycle_error_count''"
abbreviation MetricWireElementTransformCount :: string where "MetricWireElementTransformCount \<equiv> ''element_transform_count''"
abbreviation MetricWireElementTransformErrorCount :: string where "MetricWireElementTransformErrorCount \<equiv> ''element_transform_error_count''"
abbreviation MetricWireRunningCount :: string where "MetricWireRunningCount \<equiv> ''wires_running_count''"
abbreviation MetricWireElementSubmitCount :: string where "MetricWireElementSubmitCount \<equiv> ''element_submit_count''"
abbreviation MetricWireElementSubmitErrorCount :: string where "MetricWireElementSubmitErrorCount \<equiv> ''element_submit_error_count''"
abbreviation MetricWireElementSubmitCancelCount :: string where "MetricWireElementSubmitCancelCount \<equiv> ''element_submit_cancel_count''"
abbreviation MetricWireElementCancelCount :: string where "MetricWireElementCancelCount \<equiv> ''element_cancel_count''"
abbreviation MetricWireElementErrorCount :: string where "MetricWireElementErrorCount \<equiv> ''element_error_count''"
abbreviation MetricWireElementRecoverAttemptCount :: string where "MetricWireElementRecoverAttemptCount \<equiv> ''element_retry_count''"
abbreviation MetricWireElementRecoverSuccessCount :: string where "MetricWireElementRecoverSuccessCount \<equiv> ''element_recover_success_count''"
abbreviation MetricWireElementRecoverFailureCount :: string where "MetricWireElementRecoverFailureCount \<equiv> ''element_recover_failure_count''"
abbreviation MetricCircuitBreakerResetTimer :: string where "MetricCircuitBreakerResetTimer \<equiv> ''circuit_breaker_reset_timer''"
abbreviation MetricCircuitBreakerLastErrorRecordTime :: string where "MetricCircuitBreakerLastErrorRecordTime \<equiv> ''circuit_breaker_last_error_record_time''"
abbreviation MetricCircuitBreakerLastTripTime :: string where "MetricCircuitBreakerLastTripTime \<equiv> ''circuit_breaker_last_trip_time''"
abbreviation MetricCircuitBreakerLastResetTime :: string where "MetricCircuitBreakerLastResetTime \<equiv> ''circuit_breaker_last_reset_time''"
abbreviation MetricCircuitBreakerNextResetTime :: string where "MetricCircuitBreakerNextResetTime \<equiv> ''circuit_breaker_next_reset_time''"
abbreviation MetricCircuitBreakerCurrentTripCount :: string where "MetricCircuitBreakerCurrentTripCount \<equiv> ''circuit_breaker_current_trip_count''"
abbreviation MetricCircuitBreakerTripCount :: string where "MetricCircuitBreakerTripCount \<equiv> ''circuit_breaker_trip_count''"
abbreviation MetricCircuitBreakerResetCount :: string where "MetricCircuitBreakerResetCount \<equiv> ''circuit_breaker_reset_count''"
abbreviation MetricCircuitBreakerNeutralWireSubmissionCount :: string where "MetricCircuitBreakerNeutralWireSubmissionCount \<equiv> ''circuit_breaker_diverted_element_count''"
abbreviation MetricCircuitBreakerRecordedErrorCount :: string where "MetricCircuitBreakerRecordedErrorCount \<equiv> ''circuit_breaker_recorded_error_count''"
abbreviation MetricCircuitBreakerDroppedElementCount :: string where "MetricCircuitBreakerDroppedElementCount \<equiv> ''circuit_breaker_dropped_element_count''"
abbreviation MetricCircuitBreakerNeutralWireConnectedCount :: string where "MetricCircuitBreakerNeutralWireConnectedCount \<equiv> ''circuit_breaker_neutral_wire_running_count''"
abbreviation MetricCircuitBreakerNeutralWireFailureCount :: string where "MetricCircuitBreakerNeutralWireFailureCount \<equiv> ''circuit_breaker_neutral_wire_failure_count''"
abbreviation MetricCircuitBreakerCount :: string where "MetricCircuitBreakerCount \<equiv> ''circuit_breaker_count''"
abbreviation MetricTransformationErrorPercentage :: string where "MetricTransformationErrorPercentage \<equiv> ''error_count''"
abbreviation MetricHTTPRequestMadeCount :: string where "MetricHTTPRequestMadeCount \<equiv> ''http_request_made_count''"
abbreviation MetricHTTPRequestReceivedCount :: string where "MetricHTTPRequestReceivedCount \<equiv> ''http_request_received_count''"
abbreviation MetricHTTPRequestCompletedCount :: string where "MetricHTTPRequestCompletedCount \<equiv> ''http_request_completed_count''"
abbreviation MetricHTTPResponseCount :: string where "MetricHTTPResponseCount \<equiv> ''http_response_count''"
abbreviation MetricHTTPClientErrorCount :: string where "MetricHTTPClientErrorCount \<equiv> ''http_client_error_count''"
abbreviation MetricHTTPClientRetryCount :: string where "MetricHTTPClientRetryCount \<equiv> ''http_client_retry_count''"
abbreviation MetricHTTPOAuth2ClientCount :: string where "MetricHTTPOAuth2ClientCount \<equiv> ''http_oauth2_client_count''"
abbreviation MetricHTTPResponseErrorCount :: string where "MetricHTTPResponseErrorCount \<equiv> ''http_response_error_count''"
abbreviation MetricHTTPClientWithTlsPinningCount :: string where "MetricHTTPClientWithTlsPinningCount \<equiv> ''http_client_with_tls_pinning_count''"
abbreviation MetricHTTPClientFetchCount :: string where "MetricHTTPClientFetchCount \<equiv> ''http_client_fetch_count''"
abbreviation MetricHTTPClientFetchErrorCount :: string where "MetricHTTPClientFetchErrorCount \<equiv> ''http_client_fetch_error_count''"
abbreviation MetricHTTPClientFetchAndSubmitErrorCount :: string where "MetricHTTPClientFetchAndSubmitErrorCount \<equiv> ''http_client_fetch_and_submit_error_count''"
abbreviation MetricHTTPClientWithActiveOAuthTokenCount :: string where "MetricHTTPClientWithActiveOAuthTokenCount \<equiv> ''http_client_with_active_oauth_token_count''"
abbreviation MetricHTTPClientOAuthTokenRequestCount :: string where "MetricHTTPClientOAuthTokenRequestCount \<equiv> ''http_client_oauth_token_request_count''"
abbreviation MetricHTTPClientFailCount :: string where "MetricHTTPClientFailCount \<equiv> ''http_client_oauth_token_request_count''"
abbreviation MetricHTTPClientOAuthTokenErrorCount :: string where "MetricHTTPClientOAuthTokenErrorCount \<equiv> ''http_client_oauth_token_error_count''"
abbreviation MetricHTTPClientJsonUnmarshalErrorCount :: string where "MetricHTTPClientJsonUnmarshalErrorCount \<equiv> ''http_client_json_unmarshal_error_count''"
abbreviation MetricHTTPClientSuccessfulFetchCount :: string where "MetricHTTPClientSuccessfulFetchCount \<equiv> ''http_client_fetch_successful_count''"
abbreviation MetricHTTPClientRetryExhaustedCount :: string where "MetricHTTPClientRetryExhaustedCount \<equiv> ''http_client_fetch_retry_exhausted_count''"
abbreviation MetricSurgeProtectorAttachedCount :: string where "MetricSurgeProtectorAttachedCount \<equiv> ''surge_attached_count''"
abbreviation MetricSurgeProtectorCurrentTripCount :: string where "MetricSurgeProtectorCurrentTripCount \<equiv> ''surge_current_trip_count''"
abbreviation MetricSurgeProtectorBackupWireSubmissionCount :: string where "MetricSurgeProtectorBackupWireSubmissionCount \<equiv> ''surge_backup_wire_submission_count''"
abbreviation MetricSurgeProtectorBackupWireSubmissionPercentage :: string where "MetricSurgeProtectorBackupWireSubmissionPercentage \<equiv> ''surge_backup_wire_submission_percentage''"
abbreviation MetricSurgeProtectorDropCount :: string where "MetricSurgeProtectorDropCount \<equiv> ''surge_drop_count''"
abbreviation MetricSurgeCount :: string where "MetricSurgeCount \<equiv> ''surge_count''"
abbreviation MetricSurgeTripCount :: string where "MetricSurgeTripCount \<equiv> ''surge_trip_count''"
abbreviation MetricSurgeResetCount :: string where "MetricSurgeResetCount \<equiv> ''surge_reset_count''"
abbreviation MetricSurgeBackupFailureCount :: string where "MetricSurgeBackupFailureCount \<equiv> ''surge_backup_failure_count''"
abbreviation MetricSurgeRateLimitExceedCount :: string where "MetricSurgeRateLimitExceedCount \<equiv> ''surge_rate_limit_exceed_count''"
abbreviation MetricSurgeBlackoutTripCount :: string where "MetricSurgeBlackoutTripCount \<equiv> ''surge_blackout_trip_count''"
abbreviation MetricSurgeBlackoutResetCount :: string where "MetricSurgeBlackoutResetCount \<equiv> ''surge_blackout_reset_count''"
abbreviation MetricResisterElementRequeued :: string where "MetricResisterElementRequeued \<equiv> ''resister_element_requeued''"
abbreviation MetricResisterConnectedCount :: string where "MetricResisterConnectedCount \<equiv> ''resister_connected_count''"
abbreviation MetricResisterClearedCount :: string where "MetricResisterClearedCount \<equiv> ''resister_cleared_count''"
abbreviation MetricResisterElementQueuedCount :: string where "MetricResisterElementQueuedCount \<equiv> ''resister_element_queued_count''"
abbreviation MetricResisterElementCurrentlyQueuedCount :: string where "MetricResisterElementCurrentlyQueuedCount \<equiv> ''resister_elements_currently_queued_count''"
abbreviation MetricResisterElementDequeued :: string where "MetricResisterElementDequeued \<equiv> ''resister_element_dequeued''"
abbreviation MetricReceivingRelayListeningCount :: string where "MetricReceivingRelayListeningCount \<equiv> ''receiving_relay_listening_count''"
abbreviation MetricReceivingRelayRunningCount :: string where "MetricReceivingRelayRunningCount \<equiv> ''receiving_relay_running_count''"
abbreviation MetricReceivingRelayReceivedCount :: string where "MetricReceivingRelayReceivedCount \<equiv> ''receiving_relay_received_count''"
abbreviation MetricReceivingRelayUnwrappedPayloadCount :: string where "MetricReceivingRelayUnwrappedPayloadCount \<equiv> ''receiving_relay_unwrapped_payload_count''"
abbreviation MetricReceivingRelayRelayedCount :: string where "MetricReceivingRelayRelayedCount \<equiv> ''receiving_relay_relayed_count''"
abbreviation MetricReceivingRelayUnwrappedPayloadErrorCount :: string where "MetricReceivingRelayUnwrappedPayloadErrorCount \<equiv> ''receiving_relay_unwrapped_payload_error_count''"
abbreviation MetricReceivingRelayStreamReceiveCount :: string where "MetricReceivingRelayStreamReceiveCount \<equiv> ''receiving_relay_stream_receive_count''"
abbreviation MetricReceivingRelayTargetCount :: string where "MetricReceivingRelayTargetCount \<equiv> ''receiving_relays_as_targets_count''"
abbreviation MetricReceivingRelayErrorCount :: string where "MetricReceivingRelayErrorCount \<equiv> ''receiving_relay_error_count''"
abbreviation MetricReceivingRelayNoTLSCount :: string where "MetricReceivingRelayNoTLSCount \<equiv> ''receiving_relay_no_tls_count''"
abbreviation MetricProcessDuration :: string where "MetricProcessDuration \<equiv> ''process_duration''"
abbreviation MetricGeneratorRunningCount :: string where "MetricGeneratorRunningCount \<equiv> ''generator_running_count''"
abbreviation MetricGeneratorSubmitCount :: string where "MetricGeneratorSubmitCount \<equiv> ''generator_submit_count''"
abbreviation MetricGeneratorSubmitErrorCount :: string where "MetricGeneratorSubmitErrorCount \<equiv> ''generator_submit_error_count''"
abbreviation MetricForwardRelaySubmitErrorCount :: string where "MetricForwardRelaySubmitErrorCount \<equiv> ''forward_relay_submit_error_count''"
abbreviation MetricForwardRelaySubmitCount :: string where "MetricForwardRelaySubmitCount \<equiv> ''forward_relay_submit_count''"
abbreviation MetricForwardRelayRelayedCount :: string where "MetricForwardRelayRelayedCount \<equiv> ''forward_relay_relayed_count''"
abbreviation MetricForwardRelayWithPerformanceOptionCount :: string where "MetricForwardRelayWithPerformanceOptionCount \<equiv> ''forward_relay_with_performance_option_count''"
abbreviation MetricForwardRelayWithTlsConfigCount :: string where "MetricForwardRelayWithTlsConfigCount \<equiv> ''forward_relay_with_tls_config_count''"
abbreviation MetricForwardRelayRunningCount :: string where "MetricForwardRelayRunningCount \<equiv> ''forward_relay_running_count''"
abbreviation MetricForwardRelayErrorCount :: string where "MetricForwardRelayErrorCount \<equiv> ''forward_relay_error_count''"
abbreviation MetricForwardRelayPayloadCompressionCount :: string where "MetricForwardRelayPayloadCompressionCount \<equiv> ''forward_relay_payload_compression_count''"
abbreviation MetricForwardRelayPayloadCompressionErrorCount :: string where "MetricForwardRelayPayloadCompressionErrorCount \<equiv> ''forward_relay_payload_compression_error_count''"
abbreviation MetricForwardRelayWrappedPayloadCount :: string where "MetricForwardRelayWrappedPayloadCount \<equiv> ''forward_relay_wrapped_payload_count''"
abbreviation MetricForwardRelayInputCount :: string where "MetricForwardRelayInputCount \<equiv> ''forward_relay_input_count''"
abbreviation MetricConduitRunningCount :: string where "MetricConduitRunningCount \<equiv> ''conduit_running_count''"

section \<open>Tables\<close>

definition percentageMetrics :: "string list" where
  "percentageMetrics =
    [MetricCurrentCpuPercentage,
     MetricCurrentRamPercentage,
     MetricTransformPercentage,
     MetricErrorPercentage,
     MetricProgressPercentage,
     MetricTransformationErrorPercentage,
     MetricSurgeProtectorBackupWireSubmissionPercentage]"

definition metricDisplayNames :: "(string \<times> string) list" where
  "metricDisplayNames =
    [(MetricCurrentCpuPercentage, ''Current CPU''),
     (MetricCurrentRamPercentage, ''Current RAM''),
     (MetricPeakGoRoutinesActive, ''Peak Go Routines Active''),
     (MetricCurrentGoRoutinesActive, ''Current Go Routines Active''),
     (MetricPeakProcessedPerSecond, ''Peak Processed Per Second''),
     (MetricPeakTransformedPerSecond, ''Peak Transformed Per Second''),
     (MetricPeakTransformationErrorsPerSecond, ''Maximum Error Per Second''),
     (MetricProcessedPerSecond, ''Processed Per Second''),
     (MetricTransformationErrorsPerSecond, ''Transformation Errors Per Second''),
     (MetricTransformsPerSecond, ''Transforms Per Second''),
     (MetricTotalPendingCount, ''Total Pending Items''),
     (MetricTotalComponentsUsedCount, ''Total Components Used''),
     (MetricSurgeProtectorCurrentTripCount, ''Active Tripped Surge Protectors''),
     (MetricTransformationErrorPercentage, ''Total Transform Error Percentage''),
     (MetricTransformPercentage, ''Total Transform Success Percentage''),
     (MetricErrorPercentage, ''Total Error Percentage''),
     (MetricTotalErrorCount, ''Total Error Count''),
     (MetricProgressPercentage, ''Progress''),
     (MetricTotalProcessedCount, ''Total Items Processed''),
     (MetricTotalSubmittedCount, ''Total Items Submitted''),
     (MetricTotalTransformedCount, ''Total Items Transformed''),
     (MetricMeterConnectedComponentCount, ''Meter Connected Components''),
     (MetricComponentRunningCount, ''Active Components''),
     (MetricLoggerConnectedComponentCount, ''Logger Connected Components''),
     (MetricComponentRestartCount, ''Component Restarts''),
     (MetricComponentLifecycleErrorCount, ''Component Lifecycle Errors''),
     (MetricWireElementTransformCount, ''Wire Transform Operations''),
     (MetricWireElementTransformErrorCount, ''Wire Transform Errors''),
     (MetricWireRunningCount, ''Wires Currently Active''),
     (MetricWireElementSubmitCount, ''Items Submitted via Wire''),
     (MetricWireElementSubmitErrorCount, ''Wire Submission Errors''),
     (MetricWireElementSubmitCancelCount, ''Wire Submission Cancellations''),
     (MetricWireElementCancelCount, ''Wire Cancellations''),
     (MetricWireElementErrorCount, ''Wire Processing Errors''),
     (MetricWireElementRecoverAttemptCount, ''Wire Recovery Attempts''),
     (MetricWireElementRecoverSuccessCount, ''Successful Wire Recoveries''),
     (MetricWireElementRecoverFailureCount, ''Failed Wire Recoveries''),
     (MetricCircuitBreakerResetTimer, ''Circuit Breaker Reset Timer''),
     (MetricCircuitBreakerLastTripTime, ''Circuit Breaker Last Trip Time''),
     (MetricCircuitBreakerLastErrorRecordTime, ''Circuit Breaker Last Recorded Error Time''),
     (MetricCircuitBreakerLastResetTime, ''Circuit Breaker Last Reset Time''),
     (MetricCircuitBreakerNextResetTime, ''Circuit Breaker Next Reset Time''),
     (MetricCircuitBreakerCurrentTripCount, ''Current Tripped Circuit Breakers''),
     (MetricCircuitBreakerTripCount, ''Total Circuit Breaker Trips''),
     (MetricCircuitBreakerResetCount, ''Circuit Breaker Resets''),
     (MetricCircuitBreakerNeutralWireSubmissionCount, ''Elements Diverted by Circuit Breaker''),
     (MetricCircuitBreakerRecordedErrorCount, ''Errors Recorded by Circuit Breaker''),
     (MetricCircuitBreakerDroppedElementCount, ''Elements Dropped by Circuit Breaker''),
     (MetricCircuitBreakerNeutralWireConnectedCount, ''Ground Wires Running''),
     (MetricCircuitBreakerNeutralWireFailureCount, ''Ground Wire Failures''),
     (MetricCircuitBreakerCount, ''Circuit Breaker Count''),
     (MetricHTTPRequestMadeCount, ''HTTP Requests Made''),
     (MetricHTTPRequestReceivedCount, ''HTTP Requests Received''),
     (MetricHTTPRequestCompletedCount, ''HTTP Requests Completed''),
     (MetricHTTPResponseCount, ''HTTP Responses''),
     (MetricHTTPClientErrorCount, ''HTTP Client Errors''),
     (MetricHTTPClientRetryCount, ''HTTP Client Retries''),
     (MetricHTTPOAuth2ClientCount, ''OAuth2 Clients Active''),
     (MetricHTTPResponseErrorCount, ''HTTP Response Errors''),
     (MetricHTTPClientWithTlsPinningCount, ''HTTP Clients with TLS Pinning''),
     (MetricHTTPClientFetchCount, ''HTTP Client Fetch Operations''),
     (MetricHTTPClientFetchErrorCount, ''HTTP Client Fetch Errors''),
     (MetricHTTPClientFetchAndSubmitErrorCount, ''HTTP Fetch and Submit Errors''),
     (MetricHTTPClientWithActiveOAuthTokenCount, ''Active OAuth Tokens''),
     (MetricHTTPClientOAuthTokenRequestCount, ''OAuth Token Requests''),
     (MetricHTTPClientOAuthTokenErrorCount, ''OAuth Token Errors''),
     (MetricHTTPClientJsonUnmarshalErrorCount, ''JSON Unmarshalling Errors''),
     (MetricHTTPClientSuccessfulFetchCount, ''Successful HTTP Fetches''),
     (MetricHTTPClientRetryExhaustedCount, ''HTTP Retries Exhausted''),
     (MetricSurgeProtectorBackupWireSubmissionCount, ''Surge Protector Backup Wire Submissions''),
     (MetricSurgeProtectorBackupWireSubmissionPercentage, ''Surge Protector Backup Wire Percentage''),
     (MetricSurgeProtectorAttachedCount, ''Surge Protectors Attached''),
     (MetricSurgeProtectorDropCount, ''Surge Protector Drops''),
     (MetricSurgeCount, ''Surge Protector Count''),
     (MetricSurgeTripCount, ''Surge Protector Trips''),
     (MetricSurgeResetCount, ''Surge Protector Resets''),
     (MetricSurgeBackupFailureCount, ''Surge Protector Backup Failures''),
     (MetricSurgeRateLimitExceedCount, ''Surge Rate Limit Exceedances''),
     (MetricSurgeBlackoutTripCount, ''Surge Blackout Trips''),
     (MetricSurgeBlackoutResetCount, ''Surge Blackout Resets''),
     (MetricResisterConnectedCount, ''Resisters Connected''),
     (MetricResisterClearedCount, ''Resister Clears''),
     (MetricResisterElementRequeued, ''Resister Elements Requeued''),
     (MetricResisterElementQueuedCount, ''Resister Total Queued Count''),
     (MetricResisterElementCurrentlyQueuedCount, ''Resister Currently Queued''),
     (MetricResisterElementDequeued, ''Resister Elements Dequeued''),
     (MetricReceivingRelayListeningCount, ''Relays Currently Listening''),
     (MetricReceivingRelayRunningCount, ''Relays Currently Running''),
     (MetricReceivingRelayReceivedCount, ''Relays Received Count''),
     (MetricReceivingRelayUnwrappedPayloadCount, ''Relays Unwrapped Payloads''),
     (MetricReceivingRelayRelayedCount, ''Relays Relayed Messages''),
     (MetricReceivingRelayUnwrappedPayloadErrorCount, ''Relays Payload Unwrap Errors''),
     (MetricReceivingRelayStreamReceiveCount, ''Relays Stream Received''),
     (MetricReceivingRelayTargetCount, ''Relay Targets Count''),
     (MetricReceivingRelayErrorCount, ''Relay Errors''),
     (MetricReceivingRelayNoTLSCount, ''Relays without TLS''),
     (MetricProcessDuration, ''Process Duration''),
     (MetricGeneratorRunningCount, ''Generators Currently Active''),
     (MetricGeneratorSubmitCount, ''Generator Submissions''),
     (MetricGeneratorSubmitErrorCount, ''Generator Submission Errors''),
     (MetricForwardRelaySubmitErrorCount, ''Forward Relay Submission Errors''),
     (MetricForwardRelaySubmitCount, ''Forward Relay Submissions''),
     (MetricForwardRelayRelayedCount, ''Forward Relay Relayed Messages''),
     (MetricForwardRelayWithPerformanceOptionCount, ''Forward Relays with Performance Options''),
     (MetricForwardRelayWithTlsConfigCount, ''Forward Relays with TLS Configuration''),
     (MetricForwardRelayRunningCount, ''Forward Relays Running''),
     (MetricForwardRelayErrorCount, ''Forward Relay Errors''),
     (MetricForwardRelayPayloadCompressionCount, ''Payload Compressions''),
     (MetricForwardRelayPayloadCompressionErrorCount, ''Payload Compression Errors''),
     (MetricForwardRelayWrappedPayloadCount, ''Wrapped Payloads''),
     (MetricForwardRelayInputCount, ''Forward Relay Inputs''),
     (MetricConduitRunningCount, ''Conduits Running'')]"

definition defaultMetricNames :: "string list" where
  "defaultMetricNames =
    [MetricTransformsPerSecond,
     MetricTransformationErrorsPerSecond,
     MetricTotalErrorCount,
     MetricTransformPercentage,
     MetricErrorPercentage,
     MetricProgressPercentage,
     MetricTotalProcessedCount,
     MetricTotalSubmittedCount,
     MetricTotalTransformedCount,
     MetricMeterConnectedComponentCount,
     MetricComponentRunningCount,
     MetricLoggerConnectedComponentCount,
     MetricComponentRestartCount,
     MetricComponentLifecycleErrorCount,
     MetricWireElementTransformCount,
     MetricWireElementTransformErrorCount,
     MetricWireRunningCount,
     MetricWireElementSubmitCount,
     MetricWireElementSubmitErrorCount,
     MetricWireElementSubmitCancelCount,
     MetricWireElementCancelCount,
     MetricWireElementErrorCount,
     MetricWireElementRecoverAttemptCount,
     MetricWireElementRecoverSuccessCount,
     MetricWireElementRecoverFailureCount,
     MetricCircuitBreakerResetTimer,
     MetricCircuitBreakerLastErrorRecordTime,
     MetricCircuitBreakerLastResetTime,
     MetricCircuitBreakerNextResetTime,
     MetricCircuitBreakerCurrentTripCount,
     MetricCircuitBreakerTripCount,
     MetricCircuitBreakerResetCount,
     MetricCircuitBreakerNeutralWireSubmissionCount,
     MetricCircuitBreakerRecordedErrorCount,
     MetricCircuitBreakerDroppedElementCount,
     MetricCircuitBreakerNeutralWireConnectedCount,
     MetricCircuitBreakerNeutralWireFailureCount,
     MetricCircuitBreakerCount,
     MetricTransformationErrorPercentage,
     MetricHTTPRequestMadeCount,
     MetricHTTPRequestReceivedCount,
     MetricHTTPRequestCompletedCount,
     MetricHTTPResponseCount,
     MetricHTTPClientErrorCount,
     MetricHTTPClientRetryCount,
     MetricHTTPOAuth2ClientCount,
     MetricHTTPResponseErrorCount,
     MetricHTTPClientWithTlsPinningCount,
     MetricHTTPClientFetchCount,
     MetricHTTPClientFetchErrorCount,
     MetricHTTPClientFetchAndSubmitErrorCount,
     MetricHTTPClientWithActiveOAuthTokenCount,
     MetricHTTPClientOAuthTokenRequestCount,
     MetricHTTPClientOAuthTokenErrorCount,
     MetricHTTPClientJsonUnmarshalErrorCount,
     MetricHTTPClientSuccessfulFetchCount,
     MetricHTTPClientRetryExhaustedCount,
     MetricSurgeProtectorBackupWireSubmissionCount,
     MetricSurgeProtectorBackupWireSubmissionPercentage,
     MetricSurgeProtectorAttachedCount,
     MetricSurgeProtectorDropCount,
     MetricSurgeCount,
     MetricSurgeProtectorCurrentTripCount,
     MetricSurgeTripCount,
     MetricSurgeResetCount,
     MetricSurgeBackupFailureCount,
     MetricSurgeRateLimitExceedCount,
     MetricSurgeBlackoutTripCount,
     MetricSurgeBlackoutResetCount,
     MetricResisterConnectedCount,
     MetricResisterClearedCount,
     MetricResisterElementRequeued,
     MetricResisterElementQueuedCount,
     MetricResisterElementCurrentlyQueuedCount,
     MetricResisterElementDequeued,
     MetricReceivingRelayListeningCount,
     MetricReceivingRelayRunningCount,
     MetricReceivingRelayReceivedCount,
     MetricReceivingRelayUnwrappedPayloadCount,
     MetricReceivingRelayRelayedCount,
     MetricReceivingRelayUnwrappedPayloadErrorCount,
     MetricReceivingRelayStreamReceiveCount,
     MetricReceivingRelayTargetCount,
     MetricReceivingRelayErrorCount,
     MetricReceivingRelayNoTLSCount,
     MetricProcessDuration,
     MetricGeneratorRunningCount,
     MetricGeneratorSubmitCount,
     MetricGeneratorSubmitErrorCount,
     MetricForwardRelaySubmitErrorCount,
     MetricForwardRelaySubmitCount,
     MetricForwardRelayRelayedCount,
     MetricForwardRelayWithPerformanceOptionCount,
     MetricForwardRelayWithTlsConfigCount,
     MetricForwardRelayRunningCount,
     MetricForwardRelayErrorCount,
     MetricForwardRelayPayloadCompressionCount,
     MetricForwardRelayPayloadCompressionErrorCount,
     MetricForwardRelayWrappedPayloadCount,
     MetricForwardRelayInputCount,
     MetricConduitRunningCount]"

end
