(* ===== verification/Meter.thy ===== *)
theory Meter
  imports Telemetry Go_Float Metric_Names "HOL-Library.AList"
begin

text \<open>
  The meter (\<^verbatim>\<open>src/pkg/internal/meter\<close>): named counters, totals, thresholds, percentages,
  timestamps and timers behind one mutex, the idle timer, and the monitor's decision to stop
  a pipeline.

  A counter is a \<^verbatim>\<open>*uint64\<close>: an index into \<open>cells\<close>, which \<^verbatim>\<open>new(uint64)\<close> extends.
  \<open>counts\<close> maps names to counters and the entry of a metric in \<open>metrics\<close> points at its
  counter too. Entries of \<^verbatim>\<open>counts\<close> that hold a nil pointer behave as absent ones
  everywhere, so the association list holds the others. What is printed is not modelled; what
  the display computes and stores is.
\<close>

section \<open>State\<close>

datatype threshold_type = Absolute | Percentage

record metric_info =
  info_Count :: "nat option"
  info_Total :: "64 word"
  info_Percentage :: float64
  info_Threshold :: float64
  info_ThresholdType :: threshold_type
  info_PeakPercentage :: float64
  info_DisplayAs :: string
  info_Name :: string
  info_Timestamp :: int

datatype idle_timer = TimerArmed gotime | TimerStopped

record meter =
  meter_metadata :: metadata
  cells :: "64 word list"
  counts :: "(string \<times> nat) list"
  totals :: "string \<Rightarrow> 64 word option"
  thresholds :: "string \<Rightarrow> float64 option"
  metrics :: "string \<Rightarrow> metric_info option"
  startTimes :: "string \<Rightarrow> gotime option"
  monitoredMetrics :: "metric_info option list"
  metricNames :: "string list"
  totalItems :: "64 word"
  idleTimeout :: duration
  idleTimer :: "idle_timer option"
  dataCh :: bool          \<comment> \<open>whether the channel of capacity one holds a signal\<close>
  pauseCh :: bool
  update_interval :: "duration option" \<comment> \<open>the ticker's period; \<open>None\<close> for a nil ticker\<close>
  meter_loggers :: "logger option list"
  cancel_hooks :: "nat list"           \<comment> \<open>the hooks wrapped around the cancel function, outermost first\<close>
  meter_cancelled :: bool
  meter_startTime :: gotime
  meter_endTime :: gotime

section \<open>The registry\<close>

definition metricDisplay :: "string \<Rightarrow> string" where
  "metricDisplay name = (case map_of metricDisplayNames name of Some d \<Rightarrow> d | None \<Rightarrow> name)"

definition metricThresholdType :: "string \<Rightarrow> threshold_type" where
  "metricThresholdType name = (if List.member percentageMetrics name then Percentage else Absolute)"

definition new_info :: "gotime \<Rightarrow> string \<Rightarrow> string \<Rightarrow> threshold_type \<Rightarrow> nat \<Rightarrow> metric_info" where
  "new_info now name display tt counter =
     \<lparr>info_Count = Some counter, info_Total = 0, info_Percentage = Fin 0, info_Threshold = Fin 0,
      info_ThresholdType = tt, info_PeakPercentage = Fin 0, info_DisplayAs = display,
      info_Name = name, info_Timestamp = time_Unix now\<rparr>"

definition registerMetricLocked ::
  "gotime \<Rightarrow> string \<Rightarrow> string \<Rightarrow> threshold_type \<Rightarrow> meter \<Rightarrow> metric_info option \<times> meter" where
  "registerMetricLocked now name display0 tt m =
     (if name = '''' then (None, m)
      else
        let display = (if display0 = '''' then name else display0);
            (counter, m1) =
              (case map_of (counts m) name of
                 Some c \<Rightarrow> (c, m)
               | None \<Rightarrow> (length (cells m),
                          m\<lparr>cells := cells m @ [0],
                            counts := AList.update name (length (cells m)) (counts m)\<rparr>))
        in (case metrics m1 name of
              None \<Rightarrow>
                let info = new_info now name display tt counter
                in (Some info, m1\<lparr>metrics := (metrics m1)(name \<mapsto> info)\<rparr>)
            | Some info \<Rightarrow>
                let (info1, m2) =
                      (case info_Count info of
                         None \<Rightarrow> (info\<lparr>info_Count := Some counter\<rparr>, m1)
                       | Some c \<Rightarrow> (info, m1\<lparr>counts := AList.update name c (counts m1)\<rparr>));
                    info2 = info1\<lparr>info_DisplayAs := display, info_ThresholdType := tt\<rparr>
                in (Some info2, m2\<lparr>metrics := (metrics m2)(name \<mapsto> info2)\<rparr>)))"

text \<open>Most operations register the metric under the table's label first.\<close>

definition register_default :: "gotime \<Rightarrow> string \<Rightarrow> meter \<Rightarrow> metric_info option \<times> meter" where
  "register_default now name m =
     registerMetricLocked now name (metricDisplay name) (metricThresholdType name) m"

text \<open>Writes through the pointers that the registry returns.\<close>

definition store_cell :: "nat \<Rightarrow> 64 word \<Rightarrow> meter \<Rightarrow> meter" where
  "store_cell c v m = m\<lparr>cells := (cells m)[c := v]\<rparr>"

definition update_info :: "string \<Rightarrow> (metric_info \<Rightarrow> metric_info) \<Rightarrow> meter \<Rightarrow> meter" where
  "update_info name f m = m\<lparr>metrics := (metrics m)(name := map_option f (metrics m name))\<rparr>"

fun register_all :: "gotime \<Rightarrow> (string \<times> string) list \<Rightarrow> meter \<Rightarrow> meter" where
  "register_all now [] m = m"
| "register_all now ((name, display) # xs) m =
     register_all now xs (snd (registerMetricLocked now name display (metricThresholdType name) m))"

fun list_defaults :: "gotime \<Rightarrow> string list \<Rightarrow> string list \<Rightarrow> meter \<Rightarrow> meter" where
  "list_defaults now [] seen m = m"
| "list_defaults now (name # names) seen m =
     (if List.member seen name then list_defaults now names seen m
      else list_defaults now names (name # seen)
             ((snd (register_default now name m))\<lparr>metricNames := metricNames m @ [name]\<rparr>))"

definition initializeMetrics :: "gotime \<Rightarrow> meter \<Rightarrow> meter" where
  "initializeMetrics now m =
     list_defaults now defaultMetricNames []
       ((register_all now metricDisplayNames m)\<lparr>metricNames := []\<rparr>)"

definition ensureCounter :: "gotime \<Rightarrow> string \<Rightarrow> meter \<Rightarrow> nat option \<times> meter" where
  "ensureCounter now name m =
     (case map_of (counts m) name of
        Some c \<Rightarrow> (Some c, m)
      | None \<Rightarrow>
          (case register_default now name m of
             (None, m1) \<Rightarrow> (None, m1)
           | (Some info, m1) \<Rightarrow> (info_Count info, m1)))"

section \<open>Counters\<close>

definition with_counter ::
  "gotime \<Rightarrow> string \<Rightarrow> (64 word \<Rightarrow> 64 word) \<Rightarrow> meter \<Rightarrow> meter" where
  "with_counter now name f m =
     (case ensureCounter now name m of
        (None, m1) \<Rightarrow> m1
      | (Some c, m1) \<Rightarrow> store_cell c (f (cells m1 ! c)) m1)"

definition IncrementCount :: "gotime \<Rightarrow> string \<Rightarrow> meter \<Rightarrow> meter" where
  "IncrementCount now name m = with_counter now name (\<lambda>v. v + 1) m"

definition DecrementCount :: "gotime \<Rightarrow> string \<Rightarrow> meter \<Rightarrow> meter" where
  "DecrementCount now name m = with_counter now name (\<lambda>v. if v = 0 then v else v - 1) m"

definition SetMetricCount :: "gotime \<Rightarrow> string \<Rightarrow> 64 word \<Rightarrow> meter \<Rightarrow> meter" where
  "SetMetricCount now name n m = with_counter now name (\<lambda>v. n) m"

definition UpdateMetric :: "gotime \<Rightarrow> string \<Rightarrow> 64 word \<Rightarrow> meter \<Rightarrow> meter" where
  "UpdateMetric now name n m = SetMetricCount now name n m"

definition SetMetricPeak :: "gotime \<Rightarrow> string \<Rightarrow> 64 word \<Rightarrow> meter \<Rightarrow> meter" where
  "SetMetricPeak now name n m = with_counter now name (\<lambda>v. if n \<le> v then v else n) m"

definition GetMetricCount :: "meter \<Rightarrow> string \<Rightarrow> 64 word" where
  "GetMetricCount m name =
     (case map_of (counts m) name of None \<Rightarrow> 0 | Some c \<Rightarrow> cells m ! c)"

definition ResetMetrics :: "meter \<Rightarrow> meter" where
  "ResetMetrics m =
     (fold (\<lambda>(name, c). store_cell c 0) (counts m) m)
       \<lparr>totals := \<lambda>name. map_option (\<lambda>_. 0) (totals m name)\<rparr>"

section \<open>Totals, thresholds, percentages and timers\<close>

definition AddMetric :: "gotime \<Rightarrow> string \<Rightarrow> 64 word \<Rightarrow> float64 \<Rightarrow> meter \<Rightarrow> meter" where
  "AddMetric now name tot threshold m =
     (case register_default now name m of
        (None, m1) \<Rightarrow> m1
      | (Some _, m1) \<Rightarrow>
          (update_info name (\<lambda>i. i\<lparr>info_Total := tot, info_Threshold := threshold\<rparr>) m1)
            \<lparr>totals := (totals m1)(name \<mapsto> tot), thresholds := (thresholds m1)(name \<mapsto> threshold)\<rparr>)"

definition AddToMetricTotal :: "string \<Rightarrow> 64 word \<Rightarrow> meter \<Rightarrow> meter" where
  "AddToMetricTotal name additional m =
     (let tot = (case totals m name of Some t \<Rightarrow> t | None \<Rightarrow> 0) + additional
      in update_info name (\<lambda>i. i\<lparr>info_Total := tot\<rparr>) (m\<lparr>totals := (totals m)(name \<mapsto> tot)\<rparr>))"

definition AddTotalItems :: "64 word \<Rightarrow> meter \<Rightarrow> meter" where
  "AddTotalItems additional m = m\<lparr>totalItems := totalItems m + additional\<rparr>"

definition SetDynamicMetric ::
  "gotime \<Rightarrow> string \<Rightarrow> 64 word \<Rightarrow> 64 word \<Rightarrow> float64 \<Rightarrow> meter \<Rightarrow> meter" where
  "SetDynamicMetric now name tot initial threshold m =
     (case register_default now name m of
        (None, m1) \<Rightarrow> m1
      | (Some info, m1) \<Rightarrow>
          (update_info name (\<lambda>i. i\<lparr>info_Total := tot, info_Threshold := threshold\<rparr>)
             (store_cell (the (info_Count info)) initial m1))
            \<lparr>totals := (totals m1)(name \<mapsto> tot), thresholds := (thresholds m1)(name \<mapsto> threshold)\<rparr>)"

definition SetDynamicMetricThreshold :: "string \<Rightarrow> float64 \<Rightarrow> meter \<Rightarrow> meter" where
  "SetDynamicMetricThreshold name threshold m =
     update_info name (\<lambda>i. i\<lparr>info_Threshold := threshold\<rparr>)
       (m\<lparr>thresholds := (thresholds m)(name \<mapsto> threshold)\<rparr>)"

definition SetDynamicMetricTotal :: "string \<Rightarrow> 64 word \<Rightarrow> meter \<Rightarrow> meter" where
  "SetDynamicMetricTotal name tot m =
     update_info name (\<lambda>i. i\<lparr>info_Total := tot\<rparr>) (m\<lparr>totals := (totals m)(name \<mapsto> tot)\<rparr>)"

definition setMetricTotalLocked :: "gotime \<Rightarrow> string \<Rightarrow> 64 word \<Rightarrow> meter \<Rightarrow> meter" where
  "setMetricTotalLocked now name tot m =
     (case register_default now name m of
        (None, m1) \<Rightarrow> m1
      | (Some _, m1) \<Rightarrow>
          (update_info name (\<lambda>i. i\<lparr>info_Total := tot\<rparr>) m1)\<lparr>totals := (totals m1)(name \<mapsto> tot)\<rparr>)"

definition SetMetricTotal :: "gotime \<Rightarrow> string \<Rightarrow> 64 word \<Rightarrow> meter \<Rightarrow> meter" where
  "SetMetricTotal now name tot m = setMetricTotalLocked now name tot m"

definition SetTotal :: "gotime \<Rightarrow> string \<Rightarrow> 64 word \<Rightarrow> meter \<Rightarrow> meter" where
  "SetTotal now name tot m = setMetricTotalLocked now name tot m"

definition with_percentage_info ::
  "gotime \<Rightarrow> string \<Rightarrow> (metric_info \<Rightarrow> metric_info) \<Rightarrow> meter \<Rightarrow> meter" where
  "with_percentage_info now name f m =
     (case registerMetricLocked now name (metricDisplay name) Percentage m of
        (None, m1) \<Rightarrow> m1 | (Some _, m1) \<Rightarrow> update_info name f m1)"

definition SetMetricPeakPercentage :: "gotime \<Rightarrow> string \<Rightarrow> float64 \<Rightarrow> meter \<Rightarrow> meter" where
  "SetMetricPeakPercentage now name p m =
     with_percentage_info now name
       (\<lambda>i. if float_less (info_PeakPercentage i) p then i\<lparr>info_PeakPercentage := p\<rparr> else i) m"

definition SetMetricPercentage :: "gotime \<Rightarrow> string \<Rightarrow> float64 \<Rightarrow> meter \<Rightarrow> meter" where
  "SetMetricPercentage now name p m =
     with_percentage_info now name (\<lambda>i. i\<lparr>info_Percentage := p\<rparr>) m"

definition UpdateMetricPercentage :: "gotime \<Rightarrow> string \<Rightarrow> float64 \<Rightarrow> meter \<Rightarrow> meter" where
  "UpdateMetricPercentage now name p m = SetMetricPercentage now name p m"

definition SetMetricTimestamp :: "gotime \<Rightarrow> string \<Rightarrow> int \<Rightarrow> meter \<Rightarrow> meter" where
  "SetMetricTimestamp now name timestamp m =
     (case register_default now name m of
        (None, m1) \<Rightarrow> m1
      | (Some _, m1) \<Rightarrow> update_info name (\<lambda>i. i\<lparr>info_Timestamp := timestamp\<rparr>) m1)"

definition StartTimer :: "gotime \<Rightarrow> string \<Rightarrow> meter \<Rightarrow> meter" where
  "StartTimer now name m = m\<lparr>startTimes := (startTimes m)(name \<mapsto> now)\<rparr>"

definition SetTimerStartTime :: "string \<Rightarrow> gotime \<Rightarrow> meter \<Rightarrow> meter" where
  "SetTimerStartTime name t m = m\<lparr>startTimes := (startTimes m)(name \<mapsto> t)\<rparr>"

definition StopTimer :: "gotime \<Rightarrow> string \<Rightarrow> meter \<Rightarrow> duration \<times> meter" where
  "StopTimer now name m =
     (case startTimes m name of
        None \<Rightarrow> (0, m)
      | Some t \<Rightarrow> (time_Sub now t, m\<lparr>startTimes := (startTimes m)(name := None)\<rparr>))"

definition IsTimerRunning :: "meter \<Rightarrow> string \<Rightarrow> bool" where
  "IsTimerRunning m name = (startTimes m name \<noteq> None)"

definition GetTimerStartTime :: "meter \<Rightarrow> string \<Rightarrow> gotime \<times> bool" where
  "GetTimerStartTime m name =
     (case startTimes m name of Some t \<Rightarrow> (t, True) | None \<Rightarrow> (0, False))"

text \<open>
  Monitored entries are the caller's; the registry gets an entry of its own for each that is
  named. A zero threshold type is \<open>Absolute\<close>, which the table then replaces.
\<close>

fun monitor_register :: "gotime \<Rightarrow> metric_info option list \<Rightarrow> metric_info option \<Rightarrow> meter \<Rightarrow> metric_info option \<times> meter" where
  "monitor_register now [] found m = (found, m)"
| "monitor_register now (None # is) found m = monitor_register now is found m"
| "monitor_register now (Some i # is) found m =
     (if info_Name i = '''' then monitor_register now is found m
      else
        let tt = (if info_ThresholdType i = Absolute then metricThresholdType (info_Name i)
                  else info_ThresholdType i);
            (existing, m1) = registerMetricLocked now (info_Name i) (info_DisplayAs i) tt m
        in monitor_register now is (if found = None then existing else found) m1)"

definition AddMetricMonitor ::
  "gotime \<Rightarrow> metric_info option list \<Rightarrow> meter \<Rightarrow> (metric_info option \<times> bool) \<times> meter" where
  "AddMetricMonitor now infos m =
     (if infos = [] then ((None, False), m)
      else
        let (found, m1) = monitor_register now infos None
                            (m\<lparr>monitoredMetrics := monitoredMetrics m @ infos\<rparr>)
        in ((found, found \<noteq> None), m1))"

section \<open>Accessors and configuration\<close>

definition GetMetricDisplayName :: "meter \<Rightarrow> string \<Rightarrow> string" where
  "GetMetricDisplayName m name =
     (case metrics m name of
        None \<Rightarrow> name
      | Some i \<Rightarrow> (if info_DisplayAs i = '''' then name else info_DisplayAs i))"

definition GetDynamicMetricInfo :: "meter \<Rightarrow> string \<Rightarrow> metric_info option \<times> bool" where
  "GetDynamicMetricInfo m name = (metrics m name, metrics m name \<noteq> None)"

definition GetMetricNames :: "meter \<Rightarrow> string list" where
  "GetMetricNames m = metricNames m"

definition GetMetricPercentage :: "meter \<Rightarrow> string \<Rightarrow> float64" where
  "GetMetricPercentage m name =
     (case metrics m name of None \<Rightarrow> Fin 0 | Some i \<Rightarrow> info_Percentage i)"

definition GetMetricPeakPercentage :: "meter \<Rightarrow> string \<Rightarrow> float64" where
  "GetMetricPeakPercentage m name =
     (case metrics m name of None \<Rightarrow> Fin 0 | Some i \<Rightarrow> info_PeakPercentage i)"

definition GetMetricTotal :: "meter \<Rightarrow> string \<Rightarrow> 64 word" where
  "GetMetricTotal m name = (case totals m name of None \<Rightarrow> 0 | Some t \<Rightarrow> t)"

definition GetTicker :: "meter \<Rightarrow> duration option" where
  "GetTicker m = update_interval m"

definition SetTicker :: "duration option \<Rightarrow> meter \<Rightarrow> meter" where
  "SetTicker d m = m\<lparr>update_interval := d\<rparr>"

definition meter_GetComponentMetadata :: "meter \<Rightarrow> metadata" where
  "meter_GetComponentMetadata m = meter_metadata m"

definition meter_SetComponentMetadata :: "string \<Rightarrow> string \<Rightarrow> meter \<Rightarrow> meter" where
  "meter_SetComponentMetadata name ident m =
     m\<lparr>meter_metadata := \<lparr>meta_ID = ident, meta_Type = '''', meta_Name = name\<rparr>\<rparr>"

definition meter_ConnectLogger :: "logger option list \<Rightarrow> meter \<Rightarrow> meter" where
  "meter_ConnectLogger ls m =
     (if ls = [] then m else m\<lparr>meter_loggers := meter_loggers m @ ls\<rparr>)"

definition meter_NotifyLoggers ::
  "meter \<Rightarrow> loglevel \<Rightarrow> string \<Rightarrow> (string \<times> 'a logval) list \<Rightarrow> 'a effect list" where
  "meter_NotifyLoggers m level msg kvs =
     log_calls logger_wants_by_level (List.map_filter id (meter_loggers m)) level msg kvs"

definition SetContextCancelHook :: "nat option \<Rightarrow> meter \<Rightarrow> meter" where
  "SetContextCancelHook hook m =
     (case hook of None \<Rightarrow> m | Some h \<Rightarrow> m\<lparr>cancel_hooks := h # cancel_hooks m\<rparr>)"

text \<open>Calling the cancel function: the hooks in order, then the context is done.\<close>

definition cancelContext :: "meter \<Rightarrow> nat list \<times> meter" where
  "cancelContext m = (cancel_hooks m, m\<lparr>meter_cancelled := True\<rparr>)"


section \<open>Activity and the idle timer\<close>

definition ReportData :: "meter \<Rightarrow> meter" where
  "ReportData m = m\<lparr>dataCh := True\<rparr>"

definition PauseProcessing :: "meter \<Rightarrow> meter" where
  "PauseProcessing m = m\<lparr>pauseCh := True\<rparr>"

definition ResumeProcessing :: "meter \<Rightarrow> meter" where
  "ResumeProcessing m = m\<lparr>pauseCh := True\<rparr>"

text \<open>Whether the timer was absent, stopped, running or fired, it runs for the timeout afterwards.\<close>

definition resetIdleTimerLocked :: "gotime \<Rightarrow> meter \<Rightarrow> meter" where
  "resetIdleTimerLocked now m = m\<lparr>idleTimer := Some (TimerArmed (time_Add now (idleTimeout m)))\<rparr>"

definition SetIdleTimeout :: "gotime \<Rightarrow> duration \<Rightarrow> meter \<Rightarrow> meter" where
  "SetIdleTimeout now d m = resetIdleTimerLocked now (m\<lparr>idleTimeout := d\<rparr>)"

text \<open>
  One turn of \<^verbatim>\<open>monitorIdleTime\<close>: whether the goroutine goes on, and the state. With the
  context done and a signal waiting either case of the \<^verbatim>\<open>select\<close> may run.
\<close>

datatype idle_case = IdleCtxDone | IdleData

fun monitorIdleTime_turn :: "idle_case \<Rightarrow> gotime \<Rightarrow> meter \<Rightarrow> (bool \<times> meter) option" where
  "monitorIdleTime_turn IdleCtxDone now m =
     (if meter_cancelled m
      then Some (False, m\<lparr>idleTimer := map_option (\<lambda>_. TimerStopped) (idleTimer m)\<rparr>)
      else None)"
| "monitorIdleTime_turn IdleData now m =
     (if dataCh m then Some (True, resetIdleTimerLocked now (m\<lparr>dataCh := False\<rparr>)) else None)"

section \<open>Construction\<close>

definition NewMeter_base :: "gotime \<Rightarrow> meter" where
  "NewMeter_base now =
     \<lparr>meter_metadata = empty_metadata, cells = [], counts = [], totals = (\<lambda>_. None),
      thresholds = (\<lambda>_. None), metrics = (\<lambda>_. None), startTimes = (\<lambda>_. None),
      monitoredMetrics = [], metricNames = [], totalItems = 0, idleTimeout = 60 * time_Second,
      idleTimer = Some (TimerArmed (time_Add now (60 * time_Second))), dataCh = False,
      pauseCh = False, update_interval = Some 100000000, meter_loggers = [], cancel_hooks = [],
      meter_cancelled = False, meter_startTime = 0, meter_endTime = 0\<rparr>"

datatype meter_option =
    WithMetricTotal string "64 word"
  | WithIdleTimeout duration
  | WithInitialMetricCount string "64 word"
  | WithTotalItems "64 word"
  | WithTimerStart string gotime
  | MeterWithComponentMetadata string string
  | MeterWithLogger "logger option list"
  | WithDynamicMetric string "64 word" "64 word" float64
  | WithUpdateFrequency duration
  | WithCancellationHook "nat option"

fun apply_meter_option :: "gotime \<Rightarrow> meter_option \<Rightarrow> meter \<Rightarrow> panic + meter" where
  "apply_meter_option now (WithMetricTotal name n) m = Inr (SetMetricTotal now name n m)"
| "apply_meter_option now (WithIdleTimeout d) m = Inr (SetIdleTimeout now d m)"
| "apply_meter_option now (WithInitialMetricCount name n) m = Inr (SetMetricCount now name n m)"
| "apply_meter_option now (WithTotalItems n) m = Inr (AddTotalItems n m)"
| "apply_meter_option now (WithTimerStart name t) m = Inr (SetTimerStartTime name t m)"
| "apply_meter_option now (MeterWithComponentMetadata name ident) m =
     Inr (meter_SetComponentMetadata name ident m)"
| "apply_meter_option now (MeterWithLogger ls) m = Inr (meter_ConnectLogger ls m)"
| "apply_meter_option now (WithDynamicMetric name tot initial threshold) m =
     Inr (SetDynamicMetric now name tot initial threshold m)"
| "apply_meter_option now (WithUpdateFrequency d) m =
     (if GetTicker m = None then Inl (Panic ''nil pointer dereference'')
      else if d \<le> 0 then Inl (Panic ''non-positive interval for NewTicker'')
      else Inr (SetTicker (Some d) m))"
| "apply_meter_option now (WithCancellationHook h) m = Inr (SetContextCancelHook h m)"

fun apply_meter_options :: "gotime \<Rightarrow> meter_option list \<Rightarrow> meter \<Rightarrow> panic + meter" where
  "apply_meter_options now [] m = Inr m"
| "apply_meter_options now (opt # opts) m =
     (case apply_meter_option now opt m of
        Inl p \<Rightarrow> Inl p | Inr m1 \<Rightarrow> apply_meter_options now opts m1)"

definition NewMeter :: "gotime \<Rightarrow> meter_option list \<Rightarrow> panic + meter" where
  "NewMeter now opts = apply_meter_options now opts (initializeMetrics now (NewMeter_base now))"

section \<open>Display and monitor\<close>

text \<open>
  What the display reads of the machine: the CPU percentages, the used memory when
  \<^verbatim>\<open>mem.VirtualMemory\<close> succeeds, the number of goroutines at its two calls, and the machine's
  result for a float-to-integer conversion out of range.
\<close>

record machine =
  cpu_percentages :: "float64 list"
  mem_used :: "float64 option"
  goroutines :: "64 word"
  goroutines_again :: "64 word"
  out_of_range :: "float64 \<Rightarrow> 64 word"

definition dur_Seconds :: "duration \<Rightarrow> float64" where
  "dur_Seconds d =
     (let sec = go_quot d 1000000000; nsec = d - sec * 1000000000
      in float_add (float_of_int sec) (float_div (float_of_int nsec) (float_of_int 1000000000)))"

definition percent_of :: "float64 \<Rightarrow> float64 \<Rightarrow> float64" where
  "percent_of part whole = float_mul (float_div part whole) (Fin 100)"

text \<open>The figures that depend on what was submitted.\<close>

definition display_ratios ::
  "machine \<Rightarrow> gotime \<Rightarrow> float64 \<Rightarrow> float64 \<Rightarrow> float64 \<Rightarrow> float64 \<Rightarrow> float64 \<Rightarrow> meter \<Rightarrow> panic + meter" where
  "display_ratios env now submitted transformed errors perSecond errorsPerSecond m =
     (let u = uint64_of_float (out_of_range env);
          backup = percent_of
            (float_of_uint64 (GetMetricCount m MetricSurgeProtectorBackupWireSubmissionCount)) submitted;
          m1 = SetMetricPercentage now MetricTransformPercentage (percent_of transformed submitted) m;
          m2 = SetMetricPercentage now MetricErrorPercentage (percent_of errors submitted) m1;
          m3 = (case cpu_percentages env of
                  [] \<Rightarrow> m2
                | p # _ \<Rightarrow> SetMetricPeakPercentage now MetricCurrentCpuPercentage p
                             (SetMetricPercentage now MetricCurrentCpuPercentage p m2))
      in (case mem_used env of
            None \<Rightarrow> Inl (Panic ''nil pointer dereference'')
          | Some used \<Rightarrow>
              let m4 = SetMetricPeakPercentage now MetricCurrentRamPercentage used
                         (SetMetricPercentage now MetricCurrentRamPercentage used m3);
                  m5 = SetMetricCount now MetricCurrentGoRoutinesActive (goroutines env) m4;
                  m6 = SetMetricPeak now MetricPeakGoRoutinesActive (goroutines_again env) m5;
                  m7 = SetMetricPeak now MetricPeakTransformedPerSecond (u perSecond) m6;
                  m8 = SetMetricPeak now MetricPeakTransformationErrorsPerSecond (u errorsPerSecond) m7
              in Inr (SetMetricPercentage now MetricSurgeProtectorBackupWireSubmissionPercentage backup m8)))"

definition updateDisplay :: "machine \<Rightarrow> gotime \<Rightarrow> meter \<Rightarrow> panic + meter" where
  "updateDisplay env now m =
     (let u = uint64_of_float (out_of_range env);
          elapsed = dur_Seconds (time_Sub now (meter_startTime m));
          submitted = float_of_uint64 (GetMetricCount m MetricTotalSubmittedCount);
          transformed = float_of_uint64 (GetMetricCount m MetricTotalTransformedCount);
          errors = float_of_uint64 (GetMetricCount m MetricTotalErrorCount);
          ran = float_less (Fin 0) elapsed;
          perSecond = (if ran then float_div transformed elapsed else Fin 0);
          errorsPerSecond = (if ran then float_div errors elapsed else Fin 0);
          m1 = (if ran
                then SetMetricCount now MetricTransformationErrorsPerSecond (u errorsPerSecond)
                       (SetMetricCount now MetricTransformsPerSecond (u perSecond) m)
                else m);
          processed = float_add perSecond errorsPerSecond;
          m2 = (if float_less (float_of_uint64 (GetMetricCount m1 MetricPeakProcessedPerSecond)) processed
                then SetMetricCount now MetricPeakProcessedPerSecond (u processed) m1
                else m1)
      in if float_less (Fin 0) submitted
         then display_ratios env now submitted transformed errors perSecond errorsPerSecond m2
         else Inr m2)"

definition resetRunningMetrics :: "gotime \<Rightarrow> meter \<Rightarrow> meter" where
  "resetRunningMetrics now m =
     SetMetricCount now MetricWireRunningCount 0 (SetMetricCount now MetricComponentRunningCount 0 m)"

text \<open>The pending count and percentage that \<^verbatim>\<open>printFinalProgress\<close> prints, and the state after it.\<close>

definition totalPending :: "meter \<Rightarrow> 64 word" where
  "totalPending m =
     GetMetricCount m MetricTotalSubmittedCount -
       (GetMetricCount m MetricTotalErrorCount + GetMetricCount m MetricTotalTransformedCount)"

definition printFinalProgress :: "gotime \<Rightarrow> meter \<Rightarrow> (64 word \<times> float64) \<times> meter" where
  "printFinalProgress now m =
     (let submitted = GetMetricCount m MetricTotalSubmittedCount;
          pending = totalPending m;
          percentage = (if submitted > 0
                        then percent_of (float_of_uint64 pending) (float_of_uint64 submitted) else Fin 0)
      in ((pending, percentage), resetRunningMetrics now (m\<lparr>meter_endTime := now\<rparr>)))"

definition CheckMetrics_metric :: "meter \<Rightarrow> string \<times> nat \<Rightarrow> bool" where
  "CheckMetrics_metric m e =
     (let count' = cells m ! snd e in
      case totals m (fst e) of
        None \<Rightarrow> False
      | Some tot \<Rightarrow>
          count' \<ge> tot \<or>
          (case thresholds m (fst e) of
             None \<Rightarrow> False
           | Some threshold \<Rightarrow>
               tot > 0 \<and>
               float_le threshold (percent_of (float_of_uint64 count') (float_of_uint64 tot))))"

text \<open>The order in which Go visits a map does not matter to the answer.\<close>

definition CheckMetrics :: "meter \<Rightarrow> bool" where
  "CheckMetrics m = list_ex (CheckMetrics_metric m) (counts m)"

datatype monitor_event = IdleFired | CtxDone | Tick
datatype monitor_exit = IdledOut | Cancelled | ThresholdExceeded | Finished bool

definition error_ratio_exceeded :: "meter \<Rightarrow> bool" where
  "error_ratio_exceeded m =
     (case thresholds m MetricTransformationErrorPercentage of
        None \<Rightarrow> False
      | Some threshold \<Rightarrow>
          let submitted = float_of_uint64 (GetMetricCount m MetricTotalSubmittedCount);
              errors = float_of_uint64 (GetMetricCount m MetricTransformationErrorPercentage)
          in float_less (Fin 0) submitted \<and> float_le threshold (percent_of errors submitted))"

text \<open>The end of a run: the last figures are printed and the context is cancelled.\<close>

definition monitor_finish ::
  "gotime \<Rightarrow> monitor_exit \<Rightarrow> meter \<Rightarrow> monitor_exit option \<times> nat list \<times> meter" where
  "monitor_finish now why m =
     (let (hooks, m1) = cancelContext (snd (printFinalProgress now m)) in (Some why, hooks, m1))"

definition monitor_tick ::
  "machine \<Rightarrow> gotime \<Rightarrow> meter \<Rightarrow> panic + (monitor_exit option \<times> nat list \<times> meter)" where
  "monitor_tick env now m =
     (if error_ratio_exceeded m then
        (case updateDisplay env now m of
           Inl p \<Rightarrow> Inl p | Inr m1 \<Rightarrow> Inr (monitor_finish now ThresholdExceeded m1))
      else if totalItems m \<noteq> 0 \<and> GetMetricCount m MetricTotalProcessedCount = totalItems m then
        (case updateDisplay env now m of
           Inl p \<Rightarrow> Inl p
         | Inr m1 \<Rightarrow> Inr (monitor_finish now
             (Finished (GetMetricCount m1 MetricTransformationErrorPercentage \<noteq> 0)) m1))
      else
        (case updateDisplay env now m of Inl p \<Rightarrow> Inl p | Inr m1 \<Rightarrow> Inr (None, [], m1)))"

fun Monitor_step ::
  "machine \<Rightarrow> gotime \<Rightarrow> monitor_event \<Rightarrow> meter \<Rightarrow> panic + (monitor_exit option \<times> nat list \<times> meter)" where
  "Monitor_step env now IdleFired m = Inr (monitor_finish now IdledOut m)"
| "Monitor_step env now CtxDone m = Inr (Some Cancelled, [], snd (printFinalProgress now m))"
| "Monitor_step env now Tick m = monitor_tick env now m"

text \<open>
  The operations other goroutines call on a meter, each behind its mutex and atomics. The
  three loads and stores of a counter that are not one atomic action are taken apart below.
\<close>

datatype meter_op =
    OpIncrementCount string | OpDecrementCount string
  | OpSetMetricCount string "64 word" | OpSetMetricPeak string "64 word" | OpResetMetrics
  | OpAddMetric string "64 word" float64 | OpAddToMetricTotal string "64 word"
  | OpAddTotalItems "64 word" | OpSetDynamicMetric string "64 word" "64 word" float64
  | OpSetDynamicMetricThreshold string float64 | OpSetDynamicMetricTotal string "64 word"
  | OpSetMetricTotal string "64 word" | OpSetMetricPercentage string float64
  | OpSetMetricPeakPercentage string float64 | OpSetMetricTimestamp string int
  | OpStartTimer string | OpStopTimer string | OpReportData | OpPauseProcessing

fun meter_do :: "gotime \<Rightarrow> meter_op \<Rightarrow> meter \<Rightarrow> meter" where
  "meter_do now (OpIncrementCount n) m = IncrementCount now n m"
| "meter_do now (OpDecrementCount n) m = DecrementCount now n m"
| "meter_do now (OpSetMetricCount n v) m = SetMetricCount now n v m"
| "meter_do now (OpSetMetricPeak n v) m = SetMetricPeak now n v m"
| "meter_do now OpResetMetrics m = ResetMetrics m"
| "meter_do now (OpAddMetric n t th) m = AddMetric now n t th m"
| "meter_do now (OpAddToMetricTotal n t) m = AddToMetricTotal n t m"
| "meter_do now (OpAddTotalItems t) m = AddTotalItems t m"
| "meter_do now (OpSetDynamicMetric n t v th) m = SetDynamicMetric now n t v th m"
| "meter_do now (OpSetDynamicMetricThreshold n th) m = SetDynamicMetricThreshold n th m"
| "meter_do now (OpSetDynamicMetricTotal n t) m = SetDynamicMetricTotal n t m"
| "meter_do now (OpSetMetricTotal n t) m = SetMetricTotal now n t m"
| "meter_do now (OpSetMetricPercentage n p) m = SetMetricPercentage now n p m"
| "meter_do now (OpSetMetricPeakPercentage n p) m = SetMetricPeakPercentage now n p m"
| "meter_do now (OpSetMetricTimestamp n t) m = SetMetricTimestamp now n t m"
| "meter_do now (OpStartTimer n) m = StartTimer now n m"
| "meter_do now (OpStopTimer n) m = snd (StopTimer now n m)"
| "meter_do now OpReportData m = ReportData m"
| "meter_do now OpPauseProcessing m = PauseProcessing m"

fun meter_run :: "(gotime \<times> meter_op) list \<Rightarrow> meter \<Rightarrow> meter" where
  "meter_run [] m = m"
| "meter_run ((now, op) # ops) m = meter_run ops (meter_do now op m)"

text \<open>
  \<^verbatim>\<open>Monitor\<close> with the operations of other goroutines between the events its \<^verbatim>\<open>select\<close> meets,
  each with its instant: the reason it returned, if it did, the hooks called and the state.
\<close>

fun Monitor_loop ::
  "machine \<Rightarrow> (gotime \<times> (meter_op + monitor_event)) list \<Rightarrow> meter \<Rightarrow>
   panic + (monitor_exit option \<times> nat list \<times> meter)" where
  "Monitor_loop env [] m = Inr (None, [], m)"
| "Monitor_loop env ((now, Inl op) # es) m = Monitor_loop env es (meter_do now op m)"
| "Monitor_loop env ((now, Inr e) # es) m =
     (case Monitor_step env now e m of
        Inl p \<Rightarrow> Inl p
      | Inr (Some why, hooks, m1) \<Rightarrow> Inr (Some why, hooks, m1)
      | Inr (None, hooks, m1) \<Rightarrow> Monitor_loop env es m1)"

definition Monitor ::
  "machine \<Rightarrow> gotime \<Rightarrow> (gotime \<times> (meter_op + monitor_event)) list \<Rightarrow> meter \<Rightarrow>
   panic + (monitor_exit option \<times> nat list \<times> meter)" where
  "Monitor env now es m = Monitor_loop env es (m\<lparr>meter_startTime := now\<rparr>)"

section \<open>Every metric owns its counter\<close>

definition meter_inv :: "meter \<Rightarrow> bool" where
  "meter_inv m \<longleftrightarrow>
     distinct (map fst (counts m)) \<and> distinct (map snd (counts m)) \<and>
     (\<forall>e \<in> set (counts m). snd e < length (cells m)) \<and> map_of (counts m) '''' = None \<and>
     (\<forall>name. map_of (counts m) name = (case metrics m name of None \<Rightarrow> None | Some i \<Rightarrow> info_Count i)) \<and>
     (\<forall>name i. metrics m name = Some i \<longrightarrow> info_Count i \<noteq> None)"

lemma alist_update_new: "map_of al k = None \<Longrightarrow> AList.update k v al = al @ [(k, v)]"
  by (induction al) (auto split: if_splits)

lemma meter_invD:
  assumes "meter_inv m"
  shows "distinct (map fst (counts m))" and "distinct (map snd (counts m))"
    and "map_of (counts m) name = Some c \<Longrightarrow> c < length (cells m)"
    and "map_of (counts m) name = Some c \<Longrightarrow> map_of (counts m) name' = Some c \<Longrightarrow> name = name'"
    and "metrics m name = Some i \<Longrightarrow> info_Count i = map_of (counts m) name"
    and "metrics m name = Some i \<Longrightarrow> \<exists>c. info_Count i = Some c"
    and "metrics m name = None \<Longrightarrow> map_of (counts m) name = None"
    and "map_of (counts m) '''' = None"
proof -
  show "map_of (counts m) name = Some c \<Longrightarrow> map_of (counts m) name' = Some c \<Longrightarrow> name = name'"
  proof -
    assume "map_of (counts m) name = Some c" "map_of (counts m) name' = Some c"
    then have "(name, c) \<in> set (counts m)" "(name', c) \<in> set (counts m)" by (auto dest: map_of_SomeD)
    then show ?thesis
      using assms unfolding meter_inv_def distinct_map inj_on_def by (metis fst_conv snd_conv)
  qed
  show "map_of (counts m) name = Some c \<Longrightarrow> c < length (cells m)"
    using assms unfolding meter_inv_def by (metis map_of_SomeD snd_conv)
qed (use assms in \<open>auto simp: meter_inv_def\<close>)

lemma map_of_counts_append:
  assumes "meter_inv m" and "map_of (counts m) name = None"
  shows "(map_of (counts m @ [(name, length (cells m))])) =
    (map_of (counts m))(name \<mapsto> length (cells m))"
proof
  fix x
  show "map_of (counts m @ [(name, length (cells m))]) x =
      ((map_of (counts m))(name \<mapsto> length (cells m))) x"
    using assms(2) by (auto simp: map_add_def split: option.splits)
qed

text \<open>What registering a metric does: it finds or makes its counter and leaves every count alone.\<close>

lemma registerMetricLocked_ok:
  assumes inv: "meter_inv m" and name: "name \<noteq> ''''"
  obtains info m' c where
    "registerMetricLocked now name display tt m = (Some info, m')"
    and "info_Count info = Some c" and "map_of (counts m') name = Some c" and "meter_inv m'"
    and "GetMetricCount m' = GetMetricCount m" and "metrics m' name = Some info"
    and "totals m' = totals m" and "thresholds m' = thresholds m" and "totalItems m' = totalItems m"
    and "dom (metrics m') = insert name (dom (metrics m))"
    and "\<And>x. x \<noteq> name \<Longrightarrow> metrics m' x = metrics m x"
proof (cases "metrics m name")
  case None
  then have n: "map_of (counts m) name = None" using meter_invD(7) [OF inv] by simp
  then have fresh: "name \<notin> fst ` set (counts m)" by (simp add: map_of_eq_None_iff)
  define info where "info = new_info now name (if display = '''' then name else display) tt (length (cells m))"
  define m' where "m' = m\<lparr>cells := cells m @ [0],
    counts := counts m @ [(name, length (cells m))], metrics := (metrics m)(name \<mapsto> info)\<rparr>"
  have eq: "registerMetricLocked now name display tt m = (Some info, m')"
    using None n name by (simp add: registerMetricLocked_def m'_def info_def alist_update_new Let_def)
  have mo: "map_of (counts m') = (map_of (counts m))(name \<mapsto> length (cells m))"
    using map_of_counts_append [OF inv n] by (simp add: m'_def)
  have "length (cells m) \<notin> snd ` set (counts m)"
    using inv by (auto simp: meter_inv_def)
  then have inv': "meter_inv m'"
    using inv fresh name mo
    by (auto simp: meter_inv_def m'_def info_def new_info_def nth_append split: option.splits)
  have "GetMetricCount m' = GetMetricCount m"
  proof
    fix x
    show "GetMetricCount m' x = GetMetricCount m x"
      using n meter_invD(3) [OF inv, of x]
      by (cases "x = name") (auto simp: GetMetricCount_def mo nth_append m'_def split: option.splits)
  qed
  moreover have "map_of (counts m') name = Some (length (cells m))" by (simp add: mo)
  ultimately show thesis
    using eq inv' by (intro that [of info m' "length (cells m)"]) (auto simp: m'_def info_def new_info_def)
next
  case (Some i)
  then obtain c where c: "info_Count i = Some c" and mc: "map_of (counts m) name = Some c"
    using meter_invD(5,6) [OF inv Some] by auto
  define info where "info = i\<lparr>info_DisplayAs := (if display = '''' then name else display),
    info_ThresholdType := tt\<rparr>"
  define m' where "m' = m\<lparr>metrics := (metrics m)(name \<mapsto> info)\<rparr>"
  have eq: "registerMetricLocked now name display tt m = (Some info, m')"
    using Some c mc name
    by (simp add: registerMetricLocked_def m'_def info_def update_triv Let_def)
  have inv': "meter_inv m'"
    using inv Some c mc by (auto simp: meter_inv_def m'_def info_def split: option.splits)
  have "GetMetricCount m' = GetMetricCount m"
    by (simp add: GetMetricCount_def m'_def fun_eq_iff split: option.split)
  with eq inv' Some c mc show thesis
    by (intro that [of info m' c]) (auto simp: m'_def info_def)
qed


lemma registerMetricLocked_empty [simp]: "registerMetricLocked now '''' display tt m = (None, m)"
  by (simp add: registerMetricLocked_def)

lemma ensureCounter_ok:
  assumes inv: "meter_inv m" and name: "name \<noteq> ''''"
  obtains m' c where "ensureCounter now name m = (Some c, m')" and "map_of (counts m') name = Some c"
    and "meter_inv m'" and "GetMetricCount m' = GetMetricCount m"
    and "totals m' = totals m" and "thresholds m' = thresholds m" and "totalItems m' = totalItems m"
proof (cases "map_of (counts m) name")
  case None
  obtain info m' c where "registerMetricLocked now name (metricDisplay name) (metricThresholdType name) m
      = (Some info, m')" "info_Count info = Some c" "map_of (counts m') name = Some c" "meter_inv m'"
      "GetMetricCount m' = GetMetricCount m" "totals m' = totals m" "thresholds m' = thresholds m"
      "totalItems m' = totalItems m"
    by (rule registerMetricLocked_ok [OF inv name])
  with None show thesis
    by (intro that [of c m']) (auto simp: ensureCounter_def register_default_def)
next
  case (Some c)
  with inv show thesis by (intro that [of c m]) (auto simp: ensureCounter_def)
qed

lemma ensureCounter_empty: "meter_inv m \<Longrightarrow> ensureCounter now '''' m = (None, m)"
  by (simp add: ensureCounter_def register_default_def meter_invD(8))

lemma store_cell_fields [frame_simps]:
  "counts (store_cell c v m) = counts m" "metrics (store_cell c v m) = metrics m"
  "totals (store_cell c v m) = totals m" "thresholds (store_cell c v m) = thresholds m"
  "totalItems (store_cell c v m) = totalItems m"
  "length (cells (store_cell c v m)) = length (cells m)"
  by (simp_all add: store_cell_def)

lemma meter_inv_cong:
  "counts m = counts m' \<Longrightarrow> length (cells m) = length (cells m') \<Longrightarrow> metrics m = metrics m' \<Longrightarrow>
   meter_inv m = meter_inv m'"
  by (simp only: meter_inv_def)

lemma meter_inv_store_cell [intro]: "meter_inv m \<Longrightarrow> meter_inv (store_cell c v m)"
  using meter_inv_cong [of "store_cell c v m" m] by (simp add: frame_simps)

lemma GetMetricCount_store_cell:
  assumes "meter_inv m" and "map_of (counts m) name = Some c"
  shows "GetMetricCount (store_cell c v m) = (GetMetricCount m)(name := v)"
proof
  fix x
  show "GetMetricCount (store_cell c v m) x = ((GetMetricCount m)(name := v)) x"
  proof (cases "x = name")
    case True
    then show ?thesis
      using assms(2) meter_invD(3) [OF assms] by (simp add: GetMetricCount_def store_cell_def)
  next
    case False
    then have "map_of (counts m) x \<noteq> Some c"
      using meter_invD(4) [OF assms(1), of x c name] assms(2) by blast
    with False show ?thesis
      by (cases "map_of (counts m) x") (simp_all add: GetMetricCount_def store_cell_def)
  qed
qed

text \<open>The effect of a counter operation on all counts, and what it leaves alone.\<close>

lemma with_counter_ok:
  assumes inv: "meter_inv m"
  shows "meter_inv (with_counter now name f m)"
    and "GetMetricCount (with_counter now name f m) =
      (if name = '''' then GetMetricCount m
       else (GetMetricCount m)(name := f (GetMetricCount m name)))"
    and "totals (with_counter now name f m) = totals m"
    and "thresholds (with_counter now name f m) = thresholds m"
    and "totalItems (with_counter now name f m) = totalItems m"
proof -
  have "meter_inv (with_counter now name f m) \<and>
    GetMetricCount (with_counter now name f m) =
      (if name = '''' then GetMetricCount m
       else (GetMetricCount m)(name := f (GetMetricCount m name))) \<and>
    totals (with_counter now name f m) = totals m \<and>
    thresholds (with_counter now name f m) = thresholds m \<and>
    totalItems (with_counter now name f m) = totalItems m"
  proof (cases "name = ''''")
    case True
    then show ?thesis using inv by (simp add: with_counter_def ensureCounter_empty)
  next
    case False
    obtain m' c where m': "ensureCounter now name m = (Some c, m')" "map_of (counts m') name = Some c"
      "meter_inv m'" "GetMetricCount m' = GetMetricCount m"
      "totals m' = totals m" "thresholds m' = thresholds m" "totalItems m' = totalItems m"
      by (rule ensureCounter_ok [OF inv False])
    have "cells m' ! c = GetMetricCount m name"
      using m'(2) by (simp add: GetMetricCount_def flip: m'(4))
    with m' False show ?thesis
      by (simp add: with_counter_def GetMetricCount_store_cell meter_inv_store_cell frame_simps)
  qed
  then show "meter_inv (with_counter now name f m)"
    and "GetMetricCount (with_counter now name f m) =
      (if name = '''' then GetMetricCount m
       else (GetMetricCount m)(name := f (GetMetricCount m name)))"
    and "totals (with_counter now name f m) = totals m"
    and "thresholds (with_counter now name f m) = thresholds m"
    and "totalItems (with_counter now name f m) = totalItems m"
    by blast+
qed

lemma update_info_fields [frame_simps]:
  "counts (update_info name f m) = counts m" "cells (update_info name f m) = cells m"
  "totals (update_info name f m) = totals m" "thresholds (update_info name f m) = thresholds m"
  "totalItems (update_info name f m) = totalItems m"
  by (simp_all add: update_info_def)

lemma GetMetricCount_cong:
  "counts m = counts m' \<Longrightarrow> cells m = cells m' \<Longrightarrow> GetMetricCount m = GetMetricCount m'"
  by (rule ext) (simp only: GetMetricCount_def)

lemma meter_inv_update_info:
  assumes "meter_inv m" and "\<And>i. info_Count (f i) = info_Count i"
  shows "meter_inv (update_info name f m)"
  using assms by (auto simp: meter_inv_def update_info_def split: option.splits)

lemma GetMetricCount_update_info [simp]:
  "GetMetricCount (update_info name f m) = GetMetricCount m"
  by (rule GetMetricCount_cong) (simp_all add: frame_simps)

text \<open>Resetting stores zero in every counter.\<close>

lemma fold_store_cell:
  assumes "meter_inv m" and "set xs \<subseteq> set (counts m)"
  shows "counts (fold (\<lambda>(n, c). store_cell c 0) xs m) = counts m \<and>
    meter_inv (fold (\<lambda>(n, c). store_cell c 0) xs m) \<and>
    totals (fold (\<lambda>(n, c). store_cell c 0) xs m) = totals m \<and>
    thresholds (fold (\<lambda>(n, c). store_cell c 0) xs m) = thresholds m \<and>
    totalItems (fold (\<lambda>(n, c). store_cell c 0) xs m) = totalItems m \<and>
    GetMetricCount (fold (\<lambda>(n, c). store_cell c 0) xs m) =
      (\<lambda>x. if x \<in> fst ` set xs then 0 else GetMetricCount m x)"
  using assms
proof (induction xs arbitrary: m)
  case (Cons e xs)
  obtain n c where e: "e = (n, c)" by force
  have mo: "map_of (counts m) n = Some c"
    using Cons.prems meter_invD(1) [OF Cons.prems(1)] by (auto simp: e)
  have "meter_inv (store_cell c 0 m)" "set xs \<subseteq> set (counts (store_cell c 0 m))"
    using Cons.prems by (auto simp: frame_simps)
  from Cons.IH [OF this] GetMetricCount_store_cell [OF Cons.prems(1) mo] show ?case
    by (auto simp: e frame_simps fun_eq_iff)
qed simp

lemma ResetMetrics_ok:
  assumes inv: "meter_inv m"
  shows "meter_inv (ResetMetrics m)" and "GetMetricCount (ResetMetrics m) = (\<lambda>_. 0)"
    and "counts (ResetMetrics m) = counts m"
    and "totals (ResetMetrics m) = (\<lambda>x. map_option (\<lambda>_. 0) (totals m x))"
    and "thresholds (ResetMetrics m) = thresholds m"
    and "totalItems (ResetMetrics m) = totalItems m"
proof -
  define m1 where "m1 = fold (\<lambda>(n, c). store_cell c 0) (counts m) m"
  note f = fold_store_cell [OF inv order_refl, folded m1_def]
  have R: "ResetMetrics m = m1\<lparr>totals := \<lambda>x. map_option (\<lambda>_. 0) (totals m x)\<rparr>"
    by (simp add: ResetMetrics_def m1_def)
  have z: "GetMetricCount m x = 0" if "x \<notin> fst ` set (counts m)" for x
    using that by (simp add: GetMetricCount_def flip: map_of_eq_None_iff)
  have "meter_inv (ResetMetrics m) = meter_inv m1" by (rule meter_inv_cong) (simp_all add: R)
  with f show "meter_inv (ResetMetrics m)" by simp
  have "GetMetricCount (ResetMetrics m) = GetMetricCount m1"
    by (rule GetMetricCount_cong) (simp_all add: R)
  with f z show "GetMetricCount (ResetMetrics m) = (\<lambda>_. 0)" by (auto simp: fun_eq_iff)
qed (use fold_store_cell [OF inv order_refl] in \<open>simp_all add: ResetMetrics_def\<close>)


section \<open>The counters as a function from names to numbers\<close>

text \<open>
  What the operations promise of the counts: each touches its own metric only, and the empty
  name is no metric.
\<close>

definition set_count :: "string \<Rightarrow> 64 word \<Rightarrow> (string \<Rightarrow> 64 word) \<Rightarrow> string \<Rightarrow> 64 word" where
  "set_count n v c = (if n = '''' then c else c(n := v))"

fun count_spec :: "meter_op \<Rightarrow> (string \<Rightarrow> 64 word) \<Rightarrow> string \<Rightarrow> 64 word" where
  "count_spec (OpIncrementCount n) c = set_count n (c n + 1) c"
| "count_spec (OpDecrementCount n) c = set_count n (if c n = 0 then 0 else c n - 1) c"
| "count_spec (OpSetMetricCount n v) c = set_count n v c"
| "count_spec (OpSetMetricPeak n v) c = set_count n (max (c n) v) c"
| "count_spec OpResetMetrics c = (\<lambda>_. 0)"
| "count_spec (OpSetDynamicMetric n t v th) c = set_count n v c"
| "count_spec _ c = c"

fun count_spec_run :: "meter_op list \<Rightarrow> (string \<Rightarrow> 64 word) \<Rightarrow> string \<Rightarrow> 64 word" where
  "count_spec_run [] c = c"
| "count_spec_run (op # ops) c = count_spec_run ops (count_spec op c)"

lemma register_default_ok:
  assumes inv: "meter_inv m" and name: "name \<noteq> ''''"
  obtains info m' c where "register_default now name m = (Some info, m')" and "info_Count info = Some c"
    and "map_of (counts m') name = Some c" and "meter_inv m'" and "GetMetricCount m' = GetMetricCount m"
    and "totals m' = totals m" and "thresholds m' = thresholds m" and "totalItems m' = totalItems m"
  using registerMetricLocked_ok [OF inv name, of now "metricDisplay name" "metricThresholdType name" thesis]
  by (auto simp: register_default_def)

lemma register_default_empty [simp]: "register_default now '''' m = (None, m)"
  by (simp add: register_default_def)

lemmas meter_op_defs = IncrementCount_def DecrementCount_def SetMetricCount_def SetMetricPeak_def
  AddMetric_def AddToMetricTotal_def AddTotalItems_def SetDynamicMetric_def
  SetDynamicMetricThreshold_def SetDynamicMetricTotal_def SetMetricTotal_def setMetricTotalLocked_def
  SetMetricPercentage_def SetMetricPeakPercentage_def SetMetricTimestamp_def StartTimer_def
  StopTimer_def ReportData_def PauseProcessing_def

lemma counts_of_update [simp]:
  "GetMetricCount (m\<lparr>totals := t\<rparr>) = GetMetricCount m"
  "GetMetricCount (m\<lparr>thresholds := th\<rparr>) = GetMetricCount m"
  "GetMetricCount (m\<lparr>totalItems := n\<rparr>) = GetMetricCount m"
  "GetMetricCount (m\<lparr>startTimes := st\<rparr>) = GetMetricCount m"
  "GetMetricCount (m\<lparr>dataCh := b\<rparr>) = GetMetricCount m"
  "GetMetricCount (m\<lparr>pauseCh := b\<rparr>) = GetMetricCount m"
  "GetMetricCount (m\<lparr>meter_startTime := s\<rparr>) = GetMetricCount m"
  "GetMetricCount (m\<lparr>meter_endTime := s\<rparr>) = GetMetricCount m"
  "GetMetricCount (m\<lparr>meter_cancelled := b\<rparr>) = GetMetricCount m"
  by (rule GetMetricCount_cong; simp)+

lemma inv_of_update [simp]:
  "meter_inv (m\<lparr>totals := t\<rparr>) = meter_inv m"
  "meter_inv (m\<lparr>thresholds := th\<rparr>) = meter_inv m"
  "meter_inv (m\<lparr>totalItems := n\<rparr>) = meter_inv m"
  "meter_inv (m\<lparr>startTimes := st\<rparr>) = meter_inv m"
  "meter_inv (m\<lparr>dataCh := b\<rparr>) = meter_inv m"
  "meter_inv (m\<lparr>pauseCh := b\<rparr>) = meter_inv m"
  "meter_inv (m\<lparr>meter_startTime := s\<rparr>) = meter_inv m"
  "meter_inv (m\<lparr>meter_endTime := s\<rparr>) = meter_inv m"
  "meter_inv (m\<lparr>meter_cancelled := b\<rparr>) = meter_inv m"
  by (rule meter_inv_cong; simp)+

lemma with_percentage_info_ok:
  assumes inv: "meter_inv m" and f: "\<And>i. info_Count (f i) = info_Count i"
  shows "meter_inv (with_percentage_info now name f m) \<and>
    GetMetricCount (with_percentage_info now name f m) = GetMetricCount m \<and>
    totals (with_percentage_info now name f m) = totals m \<and>
    thresholds (with_percentage_info now name f m) = thresholds m \<and>
    totalItems (with_percentage_info now name f m) = totalItems m"
proof (cases "name = ''''")
  case True
  then show ?thesis using inv by (simp add: with_percentage_info_def)
next
  case False
  obtain info m' where "registerMetricLocked now name (metricDisplay name) Percentage m = (Some info, m')"
    "meter_inv m'" "GetMetricCount m' = GetMetricCount m" "totals m' = totals m"
    "thresholds m' = thresholds m" "totalItems m' = totalItems m"
    by (rule registerMetricLocked_ok [OF inv False])
  then show ?thesis
    by (simp add: with_percentage_info_def meter_inv_update_info f frame_simps)
qed

lemma registering_op_ok:
  assumes inv: "meter_inv m" and op: "op = OpAddMetric n t th \<or> op = OpSetDynamicMetric n t v th \<or>
    op = OpSetMetricTotal n t \<or> op = OpSetMetricTimestamp n ts"
  shows "meter_inv (meter_do now op m) \<and> GetMetricCount (meter_do now op m) = count_spec op (GetMetricCount m)"
proof (cases "n = ''''")
  case True
  with inv op show ?thesis by (auto simp: meter_op_defs set_count_def)
next
  case False
  obtain info m' c where m': "register_default now n m = (Some info, m')" "info_Count info = Some c"
    "map_of (counts m') n = Some c" "meter_inv m'" "GetMetricCount m' = GetMetricCount m"
    by (rule register_default_ok [OF inv False])
  with op False show ?thesis
    by (auto simp: meter_op_defs set_count_def GetMetricCount_store_cell intro!: meter_inv_update_info)
qed

lemma meter_do_counts:
  assumes inv: "meter_inv m"
  shows "meter_inv (meter_do now op m) \<and> GetMetricCount (meter_do now op m) = count_spec op (GetMetricCount m)"
proof (cases op)
  case (OpSetMetricPercentage n p)
  then show ?thesis using with_percentage_info_ok [OF inv] by (simp add: meter_op_defs)
next
  case (OpSetMetricPeakPercentage n p)
  then show ?thesis using with_percentage_info_ok [OF inv] by (simp add: meter_op_defs)
next
  case OpResetMetrics
  then show ?thesis using ResetMetrics_ok [OF inv] by simp
next
  case (OpAddMetric n t th)
  then show ?thesis by (intro registering_op_ok [OF inv]) blast
next
  case (OpSetDynamicMetric n t v th)
  then show ?thesis by (intro registering_op_ok [OF inv]) blast
next
  case (OpSetMetricTotal n t)
  then show ?thesis by (intro registering_op_ok [OF inv]) blast
next
  case (OpSetMetricTimestamp n t)
  then show ?thesis by (intro registering_op_ok [OF inv]) blast
qed (use inv in
      \<open>auto simp: meter_op_defs with_counter_ok set_count_def max_def frame_simps Let_def
         intro!: meter_inv_update_info split: option.splits\<close>)


lemma meter_run_counts:
  "meter_inv m \<Longrightarrow> meter_inv (meter_run ops m) \<and>
   GetMetricCount (meter_run ops m) = count_spec_run (map snd ops) (GetMetricCount m)"
  by (induction ops m rule: meter_run.induct) (use meter_do_counts in auto)

text \<open>A new meter satisfies the invariant and counts from zero, before its options.\<close>

definition same_figures :: "meter \<Rightarrow> meter \<Rightarrow> bool" where
  "same_figures m m' \<longleftrightarrow> meter_inv m' \<and> GetMetricCount m' = GetMetricCount m \<and>
     totals m' = totals m \<and> thresholds m' = thresholds m \<and> totalItems m' = totalItems m"

lemma same_figures_trans: "same_figures a b \<Longrightarrow> same_figures b c \<Longrightarrow> same_figures a c"
  by (simp add: same_figures_def)

lemma register_keeps:
  assumes "meter_inv m"
  shows "same_figures m (snd (registerMetricLocked now name display tt m))"
proof (cases "name = ''''")
  case True
  with assms show ?thesis by (simp add: same_figures_def)
next
  case False
  show ?thesis
    by (rule registerMetricLocked_ok [OF assms False, of now display tt]) (simp add: same_figures_def)
qed

lemma register_default_keeps: "meter_inv m \<Longrightarrow> same_figures m (snd (register_default now name m))"
  by (simp add: register_default_def register_keeps)

lemma register_all_keeps: "meter_inv m \<Longrightarrow> same_figures m (register_all now xs m)"
proof (induction now xs m rule: register_all.induct)
  case (2 now name display xs m)
  define m1 where "m1 = snd (registerMetricLocked now name display (metricThresholdType name) m)"
  have "same_figures m m1" using register_keeps [OF 2(2)] by (simp add: m1_def)
  moreover from this have "same_figures m1 (register_all now xs m1)"
    using 2(1) by (simp add: m1_def same_figures_def)
  ultimately show ?case using same_figures_trans by (auto simp: m1_def)
qed (simp add: same_figures_def)

lemma metricNames_update [simp]:
  "meter_inv (m\<lparr>metricNames := xs\<rparr>) = meter_inv m"
  "same_figures m' (m\<lparr>metricNames := xs\<rparr>) = same_figures m' m"
proof -
  show i: "meter_inv (m\<lparr>metricNames := xs\<rparr>) = meter_inv m" by (rule meter_inv_cong) simp_all
  have "GetMetricCount (m\<lparr>metricNames := xs\<rparr>) = GetMetricCount m"
    by (rule GetMetricCount_cong) simp_all
  with i show "same_figures m' (m\<lparr>metricNames := xs\<rparr>) = same_figures m' m"
    by (simp add: same_figures_def)
qed

lemma list_defaults_keeps: "meter_inv m \<Longrightarrow> same_figures m (list_defaults now xs seen m)"
proof (induction now xs seen m rule: list_defaults.induct)
  case (2 now name names seen m)
  define m1 where "m1 = (snd (register_default now name m))\<lparr>metricNames := metricNames m @ [name]\<rparr>"
  have s1: "same_figures m m1" using register_default_keeps [OF 2(3)] by (simp add: m1_def)
  then have i1: "meter_inv m1" by (simp add: same_figures_def)
  show ?case
  proof (cases "name \<in> set seen")
    case True
    with 2 show ?thesis by simp
  next
    case False
    with 2(2) i1 have "same_figures m1 (list_defaults now names (name # seen) m1)"
      by (simp add: m1_def)
    from same_figures_trans [OF s1 this] False show ?thesis by (simp add: m1_def)
  qed
qed (simp add: same_figures_def)

lemma initializeMetrics_ok:
  "meter_inv (initializeMetrics now (NewMeter_base now'))"
  "GetMetricCount (initializeMetrics now (NewMeter_base now')) = (\<lambda>_. 0)"
  "thresholds (initializeMetrics now (NewMeter_base now')) = (\<lambda>_. None)"
  "totalItems (initializeMetrics now (NewMeter_base now')) = 0"
proof -
  have b: "meter_inv (NewMeter_base now')"
    by (simp add: meter_inv_def NewMeter_base_def)
  define m1 where "m1 = (register_all now metricDisplayNames (NewMeter_base now'))\<lparr>metricNames := []\<rparr>"
  have m1: "same_figures (NewMeter_base now') m1"
    using register_all_keeps [OF b] by (simp add: m1_def)
  then have "meter_inv m1" by (simp add: same_figures_def)
  from same_figures_trans [OF m1 list_defaults_keeps [OF this]]
  have "same_figures (NewMeter_base now') (initializeMetrics now (NewMeter_base now'))"
    by (simp add: initializeMetrics_def m1_def)
  then show "meter_inv (initializeMetrics now (NewMeter_base now'))"
    "GetMetricCount (initializeMetrics now (NewMeter_base now')) = (\<lambda>_. 0)"
    "thresholds (initializeMetrics now (NewMeter_base now')) = (\<lambda>_. None)"
    "totalItems (initializeMetrics now (NewMeter_base now')) = 0"
    by (auto simp: same_figures_def NewMeter_base_def GetMetricCount_def fun_eq_iff)
qed

lemma apply_meter_option_inv:
  assumes "meter_inv m" and "apply_meter_option now opt m = Inr m'"
  shows "meter_inv m'"
proof (cases opt)
  case (WithMetricTotal n t)
  then show ?thesis using assms meter_do_counts [of m now "OpSetMetricTotal n t"] by simp
next
  case (WithInitialMetricCount n t)
  then show ?thesis using assms meter_do_counts [of m now "OpSetMetricCount n t"] by simp
next
  case (WithDynamicMetric n t v th)
  then show ?thesis using assms meter_do_counts [of m now "OpSetDynamicMetric n t v th"] by simp
qed (use assms in \<open>auto simp: SetIdleTimeout_def resetIdleTimerLocked_def AddTotalItems_def
       SetTimerStartTime_def meter_SetComponentMetadata_def meter_ConnectLogger_def SetTicker_def
       SetContextCancelHook_def split: if_splits option.splits cong: meter_inv_cong
       elim: meter_inv_cong [THEN iffD1, rotated -1]\<close>)

lemma apply_meter_options_inv:
  "meter_inv m \<Longrightarrow> apply_meter_options now opts m = Inr m' \<Longrightarrow> meter_inv m'"
  by (induction now opts m rule: apply_meter_options.induct)
     (auto split: sum.splits dest: apply_meter_option_inv)


section \<open>What the display stores\<close>

definition displayed :: "string list" where
  "displayed =
     [MetricTransformsPerSecond, MetricTransformationErrorsPerSecond, MetricPeakProcessedPerSecond,
      MetricCurrentGoRoutinesActive, MetricPeakGoRoutinesActive, MetricPeakTransformedPerSecond,
      MetricPeakTransformationErrorsPerSecond, MetricComponentRunningCount, MetricWireRunningCount]"

text \<open>Two states that differ in figures of the display only.\<close>

definition display_same :: "meter \<Rightarrow> meter \<Rightarrow> bool" where
  "display_same m m' \<longleftrightarrow> meter_inv m' \<and> totals m' = totals m \<and> thresholds m' = thresholds m \<and>
     totalItems m' = totalItems m \<and>
     (\<forall>n. n \<notin> set displayed \<longrightarrow> GetMetricCount m' n = GetMetricCount m n)"

lemma display_same_refl: "meter_inv m \<Longrightarrow> display_same m m"
  by (simp add: display_same_def)

lemma display_same_count:
  "display_same m m' \<Longrightarrow> n \<notin> set displayed \<Longrightarrow> GetMetricCount m' n = GetMetricCount m n"
  by (simp add: display_same_def)

lemma display_same_with_counter:
  "display_same m m1 \<Longrightarrow> n \<in> set displayed \<Longrightarrow> display_same m (with_counter now n f m1)"
  by (auto simp: display_same_def with_counter_ok)

lemma display_same_stores:
  assumes "display_same m m1"
  shows "n \<in> set displayed \<Longrightarrow> display_same m (SetMetricCount now n v m1)"
    and "n \<in> set displayed \<Longrightarrow> display_same m (SetMetricPeak now n v m1)"
    and "display_same m (SetMetricPercentage now p x m1)"
    and "display_same m (SetMetricPeakPercentage now p x m1)"
    and "display_same m (m1\<lparr>meter_endTime := t\<rparr>)"
    and "display_same m (m1\<lparr>meter_cancelled := b\<rparr>)"
proof -
  show "n \<in> set displayed \<Longrightarrow> display_same m (SetMetricCount now n v m1)"
    "n \<in> set displayed \<Longrightarrow> display_same m (SetMetricPeak now n v m1)"
    by (simp_all add: SetMetricCount_def SetMetricPeak_def display_same_with_counter assms)
  have "meter_inv m1" using assms by (simp add: display_same_def)
  note p = with_percentage_info_ok [OF this]
  show "display_same m (SetMetricPercentage now p x m1)"
    "display_same m (SetMetricPeakPercentage now p x m1)"
    using assms p by (simp_all add: SetMetricPercentage_def SetMetricPeakPercentage_def display_same_def)
qed (use assms in \<open>simp_all add: display_same_def\<close>)

lemma displayed_members [simp]:
  "MetricTransformsPerSecond \<in> set displayed" "MetricTransformationErrorsPerSecond \<in> set displayed"
  "MetricPeakProcessedPerSecond \<in> set displayed" "MetricCurrentGoRoutinesActive \<in> set displayed"
  "MetricPeakGoRoutinesActive \<in> set displayed" "MetricPeakTransformedPerSecond \<in> set displayed"
  "MetricPeakTransformationErrorsPerSecond \<in> set displayed"
  "MetricComponentRunningCount \<in> set displayed" "MetricWireRunningCount \<in> set displayed"
  "MetricTotalSubmittedCount \<notin> set displayed" "MetricTotalProcessedCount \<notin> set displayed"
  "MetricTotalErrorCount \<notin> set displayed" "MetricTotalTransformedCount \<notin> set displayed"
  "MetricTransformationErrorPercentage \<notin> set displayed"
  by (simp_all add: displayed_def)

lemma display_ratios_same:
  assumes "display_same m0 m" and "display_ratios env now a b c d e m = Inr m'"
  shows "display_same m0 m'"
  using assms by (auto simp: display_ratios_def Let_def display_same_stores split: option.splits list.splits)

lemma updateDisplay_same:
  assumes inv: "meter_inv m" and "updateDisplay env now m = Inr m'"
  shows "display_same m m'"
  using assms unfolding updateDisplay_def Let_def
  by (auto split: if_splits simp: display_same_stores display_same_refl elim!: display_ratios_same [rotated])

lemma updateDisplay_ok: "mem_used env \<noteq> None \<Longrightarrow> \<exists>m'. updateDisplay env now m = Inr m'"
  by (auto simp: updateDisplay_def display_ratios_def Let_def)

lemma printFinalProgress_same:
  "meter_inv m \<Longrightarrow> display_same m (snd (printFinalProgress now m))"
  by (simp add: printFinalProgress_def resetRunningMetrics_def Let_def display_same_stores display_same_refl)

lemma printFinalProgress_stops_gauges:
  assumes "meter_inv m"
  shows "GetMetricCount (snd (printFinalProgress now m)) MetricComponentRunningCount = 0"
    and "GetMetricCount (snd (printFinalProgress now m)) MetricWireRunningCount = 0"
  using assms
  by (simp_all add: printFinalProgress_def resetRunningMetrics_def Let_def SetMetricCount_def with_counter_ok)

lemma display_same_trans: "display_same a b \<Longrightarrow> display_same b c \<Longrightarrow> display_same a c"
  by (simp add: display_same_def)

lemma monitor_finish_same:
  assumes "meter_inv m" and "monitor_finish now why m = (r, hooks, m')"
  shows "display_same m m'" and "r = Some why" and "meter_cancelled m'"
    and "GetMetricCount m' MetricComponentRunningCount = 0" and "GetMetricCount m' MetricWireRunningCount = 0"
  using assms printFinalProgress_same [OF assms(1), of now] printFinalProgress_stops_gauges [OF assms(1), of now]
  by (auto simp: monitor_finish_def cancelContext_def display_same_stores)

lemma Monitor_step_Tick:
  assumes inv: "meter_inv m" and step: "Monitor_step env now Tick m = Inr (r, hooks, m')"
  shows "display_same m m'"
    and "r = (if error_ratio_exceeded m then Some ThresholdExceeded
              else if totalItems m \<noteq> 0 \<and> GetMetricCount m MetricTotalProcessedCount = totalItems m
              then Some (Finished (GetMetricCount m MetricTransformationErrorPercentage \<noteq> 0))
              else None)"
proof -
  from step obtain m1 where m1: "updateDisplay env now m = Inr m1"
    by (auto simp: monitor_tick_def split: if_splits sum.splits)
  note s1 = updateDisplay_same [OF inv m1]
  then have inv1: "meter_inv m1" by (simp add: display_same_def)
  have e: "GetMetricCount m1 MetricTransformationErrorPercentage = GetMetricCount m MetricTransformationErrorPercentage"
    by (rule display_same_count [OF s1]) simp
  show "display_same m m'"
    using step m1 s1 display_same_trans [OF s1] monitor_finish_same(1) [OF inv1]
    by (auto simp: monitor_tick_def split: if_splits)
  show "r = (if error_ratio_exceeded m then Some ThresholdExceeded
              else if totalItems m \<noteq> 0 \<and> GetMetricCount m MetricTotalProcessedCount = totalItems m
              then Some (Finished (GetMetricCount m MetricTransformationErrorPercentage \<noteq> 0))
              else None)"
    using step m1 monitor_finish_same(2) [OF inv1] e
    by (auto simp: monitor_tick_def split: if_splits)
qed


section \<open>Properties of the meter\<close>

text \<open>
  C15: the counters of a meter behave as a function from names to 64-bit numbers. Whatever
  options it is built with and whatever operations follow, every metric owns its counter
  (\<open>meter_inv\<close>), and the counts are those of \<open>count_spec\<close>: each operation changes the metric
  it names and no other, an increment wraps, a decrement stops at zero.
\<close>

theorem meter_counts_refine:
  assumes "NewMeter now opts = Inr m"
  shows "meter_inv (meter_run ops m) \<and>
    GetMetricCount (meter_run ops m) = count_spec_run (map snd ops) (GetMetricCount m)"
proof -
  have "meter_inv m"
    using assms apply_meter_options_inv initializeMetrics_ok(1) unfolding NewMeter_def by blast
  then show ?thesis by (rule meter_run_counts)
qed

theorem meter_counts_refine_witness:
  "\<exists>m. NewMeter 0 [WithInitialMetricCount ''jobs'' 2] = Inr m \<and>
     GetMetricCount (meter_run [(1, OpIncrementCount ''jobs''), (2, OpDecrementCount ''idle''),
       (3, OpSetMetricPeak ''jobs'' 9)] m) ''jobs'' = 9"
proof -
  define m where "m = SetMetricCount 0 ''jobs'' 2 (initializeMetrics 0 (NewMeter_base 0))"
  have n: "NewMeter 0 [WithInitialMetricCount ''jobs'' 2] = Inr m"
    by (simp add: NewMeter_def m_def)
  have c: "GetMetricCount m ''jobs'' = 2"
    using with_counter_ok(2) [OF initializeMetrics_ok(1)] by (simp add: m_def SetMetricCount_def)
  show ?thesis
    using n c meter_counts_refine [OF n, of "[(1, OpIncrementCount ''jobs''),
      (2, OpDecrementCount ''idle''), (3, OpSetMetricPeak ''jobs'' 9)]"]
    by (simp add: set_count_def max_def)
qed

lemma word_ge_zero [simp]: "(0 :: 64 word) \<le> w"
  by simp

text \<open>
  after \<^verbatim>\<open>ResetMetrics\<close>, which sets every count and every total to zero,
  \<^verbatim>\<open>CheckMetrics\<close> reports completion as soon as one counted metric ever had a total: its
  count of zero meets its total of zero.
\<close>

theorem reset_reports_completion:
  assumes "meter_inv m"
  shows "CheckMetrics (ResetMetrics m) \<longleftrightarrow>
    (\<exists>name. map_of (counts m) name \<noteq> None \<and> totals m name \<noteq> None)"
proof -
  note R = ResetMetrics_ok [OF assms]
  have mo: "map_of (counts m) (fst e) = Some (snd e)" if "e \<in> set (counts m)" for e
    using that meter_invD(1) [OF assms] by simp
  have "CheckMetrics_metric (ResetMetrics m) e \<longleftrightarrow> totals m (fst e) \<noteq> None"
    for e by (auto simp: CheckMetrics_metric_def R split: option.splits)
  then have "CheckMetrics (ResetMetrics m) \<longleftrightarrow> (\<exists>e \<in> set (counts m). totals m (fst e) \<noteq> None)"
    by (simp add: CheckMetrics_def R list_ex_iff)
  also have "\<dots> \<longleftrightarrow> (\<exists>name. map_of (counts m) name \<noteq> None \<and> totals m name \<noteq> None)"
    using mo by (metis map_of_SomeD fst_conv not_None_eq)
  finally show ?thesis .
qed

theorem reset_reports_completion_witness:
  "CheckMetrics (ResetMetrics (SetMetricTotal 0 ''jobs'' 5 (initializeMetrics 0 (NewMeter_base 0))))"
proof -
  define m0 where "m0 = initializeMetrics 0 (NewMeter_base 0)"
  have inv: "meter_inv m0" by (simp add: m0_def initializeMetrics_ok)
  obtain info m' c where r: "register_default 0 ''jobs'' m0 = (Some info, m')"
    "map_of (counts m') ''jobs'' = Some c" "meter_inv m'"
    by (rule register_default_ok [OF inv, of "''jobs''" 0]) auto
  define m where "m = SetMetricTotal 0 ''jobs'' 5 m0"
  have "map_of (counts m) ''jobs'' = Some c" "totals m ''jobs'' = Some 5" "meter_inv m"
    using r by (auto simp: m_def SetMetricTotal_def setMetricTotalLocked_def frame_simps
        intro!: meter_inv_update_info)
  then have "CheckMetrics (ResetMetrics m)" by (subst reset_reports_completion) auto
  then show ?thesis by (simp add: m_def m0_def)
qed

text \<open>
  what a tick of the monitor decides. With the memory figures available it always
  returns; it stops the pipeline when the error ratio has reached its threshold, and as
  finished when a total is set and the processed count equals it; then the running gauges are
  zero, the hooks ran and the context is cancelled. Otherwise it goes on.
\<close>

theorem monitor_tick_decision:
  assumes "meter_inv m" and "mem_used env \<noteq> None"
  shows "\<exists>hooks m'. Monitor_step env now Tick m =
     Inr (if error_ratio_exceeded m then Some ThresholdExceeded
          else if totalItems m \<noteq> 0 \<and> GetMetricCount m MetricTotalProcessedCount = totalItems m
          then Some (Finished (GetMetricCount m MetricTransformationErrorPercentage \<noteq> 0))
          else None, hooks, m') \<and>
     ((error_ratio_exceeded m \<or>
       totalItems m \<noteq> 0 \<and> GetMetricCount m MetricTotalProcessedCount = totalItems m) \<longrightarrow>
      meter_cancelled m' \<and> GetMetricCount m' MetricComponentRunningCount = 0 \<and>
      GetMetricCount m' MetricWireRunningCount = 0)"
proof -
  obtain m1 where m1: "updateDisplay env now m = Inr m1"
    using updateDisplay_ok [OF assms(2)] by blast
  have inv1: "meter_inv m1" using updateDisplay_same [OF assms(1) m1] by (simp add: display_same_def)
  obtain r hooks m' where step: "Monitor_step env now Tick m = Inr (r, hooks, m')"
    by (cases "Monitor_step env now Tick m") (auto simp: monitor_tick_def m1 split: if_splits)
  show ?thesis
    using step m1 Monitor_step_Tick(2) [OF assms(1) step] monitor_finish_same(3-5) [OF inv1]
    by (auto simp: monitor_tick_def split: if_splits)
qed

definition idle_machine :: machine where
  "idle_machine = \<lparr>cpu_percentages = [], mem_used = Some (Fin 10), goroutines = 5, goroutines_again = 5,
     out_of_range = (\<lambda>_. 0)\<rparr>"

theorem monitor_tick_decision_witness:
  "\<exists>hooks m'. Monitor_step idle_machine 7 Tick
       (AddTotalItems 1 (IncrementCount 0 MetricTotalProcessedCount (initializeMetrics 0 (NewMeter_base 0)))) =
     Inr (Some (Finished False), hooks, m') \<and> meter_cancelled m'"
proof -
  define m where "m = AddTotalItems 1
    (IncrementCount 0 MetricTotalProcessedCount (initializeMetrics 0 (NewMeter_base 0)))"
  have c: "GetMetricCount m = (\<lambda>_. 0)(MetricTotalProcessedCount := 1)" "totalItems m = 1"
    "meter_inv m" "thresholds m = (\<lambda>_. None)"
    using with_counter_ok [OF initializeMetrics_ok(1)]
    by (simp_all add: m_def AddTotalItems_def IncrementCount_def initializeMetrics_ok)
  have "mem_used idle_machine \<noteq> None" by (simp add: idle_machine_def)
  from monitor_tick_decision [OF c(3) this, of 7] show ?thesis
    unfolding m_def [symmetric] by (auto simp: c(1,2) error_ratio_exceeded_def c(4))
qed


text \<open>
  An equality test, not an order: a monitor that finds the processed count beyond the
  expected total never reports completion, whatever ticks and whatever further increments
  follow, as long as the count does not wrap around.
\<close>

fun only_grows :: "meter_op \<Rightarrow> bool" where
  "only_grows (OpIncrementCount n) = True"
| "only_grows OpReportData = True"
| "only_grows (OpSetMetricTimestamp n t) = True"
| "only_grows (OpStartTimer n) = True"
| "only_grows (OpStopTimer n) = True"
| "only_grows _ = False"

lemma only_grows_totalItems:
  assumes inv: "meter_inv m" and op: "only_grows op"
  shows "totalItems (meter_do now op m) = totalItems m"
proof (cases op)
  case (OpSetMetricTimestamp n t)
  then show ?thesis
    using register_default_keeps [OF inv, of now n]
    by (auto simp: SetMetricTimestamp_def same_figures_def frame_simps split: prod.splits option.splits)
qed (use assms in \<open>auto simp: meter_op_defs with_counter_ok split: option.splits\<close>)

lemma unat_Suc_less: "unat (w :: 64 word) + 1 < 2 ^ 64 \<Longrightarrow> unat (w + 1) = unat w + 1"
  by (simp add: unat_word_ariths)

lemma only_grows_spec: "only_grows op \<Longrightarrow> count_spec op c n = c n \<or> count_spec op c n = c n + 1"
  by (cases op) (auto simp: set_count_def)

lemma only_grows_count:
  assumes inv: "meter_inv m" and op: "only_grows op" and room: "unat (GetMetricCount m n) + 1 < 2 ^ 64"
  shows "unat (GetMetricCount m n) \<le> unat (GetMetricCount (meter_do now op m) n)"
    and "unat (GetMetricCount (meter_do now op m) n) \<le> unat (GetMetricCount m n) + 1"
  using only_grows_spec [OF op, of "GetMetricCount m" n] unat_Suc_less [OF room]
    meter_do_counts [OF inv, of now op] by auto

definition grows_or_event :: "meter_op + monitor_event \<Rightarrow> bool" where
  "grows_or_event x = (case x of Inl op \<Rightarrow> only_grows op | Inr ev \<Rightarrow> True)"

lemma overshoot_loop:
  assumes "meter_inv m" and "list_all (\<lambda>e. grows_or_event (snd e)) es"
    and "unat (totalItems m) < unat (GetMetricCount m MetricTotalProcessedCount)"
    and "unat (GetMetricCount m MetricTotalProcessedCount) + length es < 2 ^ 64"
    and "Monitor_loop env es m = Inr (r, hooks, m')"
  shows "r \<noteq> Some (Finished b)"
  using assms
proof (induction es arbitrary: m)
  case (Cons e es)
  obtain now x where e: "e = (now, x)" by force
  show ?case
  proof (cases x)
    case (Inl op)
    let ?m = "meter_do now op m"
    have op: "only_grows op" using Cons.prems(2) by (simp add: e Inl grows_or_event_def)
    have room: "unat (GetMetricCount m MetricTotalProcessedCount) + 1 < 2 ^ 64"
      using Cons.prems(4) by simp
    note g = only_grows_count [OF Cons.prems(1) op room, of now]
    have "meter_inv ?m" using meter_do_counts [OF Cons.prems(1)] by simp
    moreover have "unat (totalItems ?m) < unat (GetMetricCount ?m MetricTotalProcessedCount)"
      unfolding only_grows_totalItems [OF Cons.prems(1) op] using Cons.prems(3) g(1) by (rule less_le_trans)
    moreover have "unat (GetMetricCount ?m MetricTotalProcessedCount) + length es < 2 ^ 64"
      using Cons.prems(4) g(2) by simp
    ultimately show ?thesis using Cons.IH [of ?m] Cons.prems(2,5) by (simp add: e Inl)
  next
    case (Inr ev)
    obtain r1 h1 m1 where st: "Monitor_step env now ev m = Inr (r1, h1, m1)"
      using Cons.prems(5) by (cases "Monitor_step env now ev m") (auto simp: e Inr)
    show ?thesis
    proof (cases "ev = Tick")
      case True
      note tick = Monitor_step_Tick [OF Cons.prems(1) st [unfolded True]]
      have ne: "GetMetricCount m MetricTotalProcessedCount \<noteq> totalItems m" using Cons.prems(3) by auto
      have "GetMetricCount m1 MetricTotalProcessedCount = GetMetricCount m MetricTotalProcessedCount"
        "totalItems m1 = totalItems m" "meter_inv m1"
        using display_same_count [OF tick(1), of MetricTotalProcessedCount] tick(1)
        by (simp_all add: display_same_def)
      then have "r \<noteq> Some (Finished b)" if "r1 = None"
        using Cons.IH [of m1] Cons.prems(2-5) that st by (simp add: e Inr)
      moreover have "r \<noteq> Some (Finished b)" if "r1 \<noteq> None"
        using Cons.prems(5) st tick(2) ne that by (auto simp: e Inr split: if_splits)
      ultimately show ?thesis by blast
    next
      case False
      then show ?thesis
        using Cons.prems(5) st by (cases ev) (auto simp: e Inr monitor_finish_def split: prod.splits)
    qed
  qed
qed simp

text \<open>
  a monitor that starts with the processed count beyond the expected total never returns
  with the verdict that the run finished, whatever it meets while the counts only grow.
\<close>

theorem overshoot_never_finishes:
  assumes "meter_inv m" and "list_all (\<lambda>e. grows_or_event (snd e)) es"
    and "unat (totalItems m) < unat (GetMetricCount m MetricTotalProcessedCount)"
    and "unat (GetMetricCount m MetricTotalProcessedCount) + length es < 2 ^ 64"
    and "Monitor env now es m = Inr (r, hooks, m')"
  shows "r \<noteq> Some (Finished b)"
proof (rule overshoot_loop)
  show "meter_inv (m\<lparr>meter_startTime := now\<rparr>)" using assms(1) by simp
  show "Monitor_loop env es (m\<lparr>meter_startTime := now\<rparr>) = Inr (r, hooks, m')"
    using assms(5) by (simp add: Monitor_def)
qed (use assms in simp_all)

theorem overshoot_never_finishes_witness:
  "\<exists>m r hooks m'. totalItems m = 1 \<and> GetMetricCount m MetricTotalProcessedCount = 2 \<and>
     Monitor idle_machine 0 [(1, Inr Tick), (2, Inr IdleFired)] m = Inr (r, hooks, m') \<and>
     r \<noteq> Some (Finished True)"
proof -
  define m where "m = AddTotalItems 1
    (SetMetricCount 0 MetricTotalProcessedCount 2 (initializeMetrics 0 (NewMeter_base 0)))"
  define es :: "(gotime \<times> (meter_op + monitor_event)) list" where
    "es = [(1, Inr Tick), (2, Inr IdleFired)]"
  have c: "GetMetricCount m MetricTotalProcessedCount = 2" "totalItems m = 1" "meter_inv m"
    "thresholds m = (\<lambda>_. None)"
    using with_counter_ok [OF initializeMetrics_ok(1)]
    by (simp_all add: m_def AddTotalItems_def SetMetricCount_def initializeMetrics_ok)
  have i: "meter_inv (m\<lparr>meter_startTime := 0\<rparr>)" using c by simp
  obtain m1 where u: "updateDisplay idle_machine 1 (m\<lparr>meter_startTime := 0\<rparr>) = Inr m1"
    using updateDisplay_ok [of idle_machine 1 "m\<lparr>meter_startTime := 0\<rparr>"] by (auto simp: idle_machine_def)
  obtain r hooks m' where run: "Monitor idle_machine 0 es m = Inr (r, hooks, m')"
    using u c by (cases "Monitor idle_machine 0 es m")
      (auto simp: Monitor_def es_def monitor_tick_def error_ratio_exceeded_def monitor_finish_def
        split: prod.splits if_splits)
  have "r \<noteq> Some (Finished True)"
    by (rule overshoot_never_finishes [OF c(3) _ _ _ run])
       (simp_all add: c es_def grows_or_event_def)
  with run c show ?thesis unfolding es_def by blast
qed

section \<open>Counters under concurrency\<close>

text \<open>
  The atomic actions of the goroutines at work on one counter. \<^verbatim>\<open>IncrementCount\<close> is one
  \<^verbatim>\<open>AddUint64\<close>; \<^verbatim>\<open>DecrementCount\<close> loads, and stores the difference later;
  \<^verbatim>\<open>SetMetricPeak\<close> loads and then tries to swap the value it saw, from the start again when
  another goroutine was faster.
\<close>

datatype counter_thread =
    Adding | Decrementing | DecLoaded "64 word"
  | Peaking "64 word" | PeakLoaded "64 word" "64 word" | ThreadDone

inductive counter_step ::
  "64 word \<times> counter_thread list \<Rightarrow> 64 word \<times> counter_thread list \<Rightarrow> bool" where
  add: "i < length ts \<Longrightarrow> ts ! i = Adding \<Longrightarrow> counter_step (c, ts) (c + 1, ts[i := ThreadDone])"
| dec_load: "i < length ts \<Longrightarrow> ts ! i = Decrementing \<Longrightarrow>
    counter_step (c, ts) (c, ts[i := (if c = 0 then ThreadDone else DecLoaded c)])"
| dec_store: "i < length ts \<Longrightarrow> ts ! i = DecLoaded v \<Longrightarrow>
    counter_step (c, ts) (v - 1, ts[i := ThreadDone])"
| peak_load: "i < length ts \<Longrightarrow> ts ! i = Peaking n \<Longrightarrow>
    counter_step (c, ts) (c, ts[i := (if n \<le> c then ThreadDone else PeakLoaded n c)])"
| peak_swap: "i < length ts \<Longrightarrow> ts ! i = PeakLoaded n cur \<Longrightarrow> c = cur \<Longrightarrow>
    counter_step (c, ts) (n, ts[i := ThreadDone])"
| peak_retry: "i < length ts \<Longrightarrow> ts ! i = PeakLoaded n cur \<Longrightarrow> c \<noteq> cur \<Longrightarrow>
    counter_step (c, ts) (c, ts[i := Peaking n])"

text \<open>What holds while goroutines only raise peaks, \<open>ns\<close> being the values they ask for.\<close>

definition peak_thread_ok :: "64 word \<Rightarrow> 64 word \<Rightarrow> counter_thread \<Rightarrow> bool" where
  "peak_thread_ok c n t =
     (case t of
        Peaking k \<Rightarrow> k = n
      | PeakLoaded k cur \<Rightarrow> k = n \<and> cur < n \<and> cur \<le> c
      | ThreadDone \<Rightarrow> n \<le> c
      | _ \<Rightarrow> False)"

definition peaks_inv :: "64 word \<Rightarrow> 64 word list \<Rightarrow> 64 word \<times> counter_thread list \<Rightarrow> bool" where
  "peaks_inv c0 ns s \<longleftrightarrow> c0 \<le> fst s \<and> fst s \<in> insert c0 (set ns) \<and> list_all2 (peak_thread_ok (fst s)) ns (snd s)"

lemma peak_thread_ok_mono: "peak_thread_ok c n t \<Longrightarrow> c \<le> c' \<Longrightarrow> peak_thread_ok c' n t"
  by (auto simp: peak_thread_ok_def split: counter_thread.splits)

lemma peaks_inv_step:
  assumes "peaks_inv c0 ns (c, ts)" and "counter_step (c, ts) s"
  shows "peaks_inv c0 ns s \<and> c \<le> fst s"
proof -
  have len: "length ns = length ts" and ok: "\<And>j. j < length ts \<Longrightarrow> peak_thread_ok c (ns ! j) (ts ! j)"
    using assms(1) by (auto simp: peaks_inv_def list_all2_conv_all_nth)
  have upd: "list_all2 (peak_thread_ok c') ns (ts[i := t])"
    if "c \<le> c'" "i < length ts" "peak_thread_ok c' (ns ! i) t" for c' i t
    using that(2,3) len peak_thread_ok_mono [OF ok that(1)]
    by (simp add: list_all2_conv_all_nth nth_list_update)
  from assms(2) show ?thesis
  proof (cases rule: counter_step.cases)
    case (peak_swap i n cur)
    then have n: "n = ns ! i" "c < n" using ok [of i] by (auto simp: peak_thread_ok_def)
    then have "peak_thread_ok n (ns ! i) ThreadDone" by (simp add: peak_thread_ok_def)
    moreover have "n \<in> set ns" using n(1) peak_swap len by simp
    ultimately show ?thesis
      using peak_swap n assms(1) upd [of n i ThreadDone] by (auto simp: peaks_inv_def)
  next
    case (peak_load i n)
    then have "peak_thread_ok c (ns ! i) (if n \<le> c then ThreadDone else PeakLoaded n c)"
      using ok [of i] by (auto simp: peak_thread_ok_def not_le)
    with peak_load assms(1) upd [of c i] show ?thesis by (auto simp: peaks_inv_def)
  next
    case (peak_retry i n cur)
    then have "peak_thread_ok c (ns ! i) (Peaking n)"
      using ok [of i] by (auto simp: peak_thread_ok_def)
    with peak_retry assms(1) upd [of c i] show ?thesis by (auto simp: peaks_inv_def)
  qed (use ok in \<open>fastforce simp: peak_thread_ok_def\<close>)+
qed

lemma peaks_inv_reachable:
  assumes "counter_step\<^sup>*\<^sup>* (c0, map Peaking ns) s"
  shows "peaks_inv c0 ns s"
  using assms
proof (induction rule: rtranclp_induct)
  case base
  show ?case by (simp add: peaks_inv_def peak_thread_ok_def list_all2_conv_all_nth)
next
  case (step s s')
  then show ?case using peaks_inv_step [of c0 ns "fst s" "snd s" s'] by simp
qed


text \<open>
  Every run ends: a successful swap raises the counter, and between two of them each action
  brings its goroutine nearer to an end or shows it that the counter has moved.
\<close>

definition thread_weight :: "64 word \<Rightarrow> counter_thread \<Rightarrow> nat" where
  "thread_weight c t =
     (case t of Peaking n \<Rightarrow> 2 | PeakLoaded n cur \<Rightarrow> (if cur = c then 1 else 3) | _ \<Rightarrow> 0)"

definition threads_weight :: "64 word \<Rightarrow> counter_thread list \<Rightarrow> nat" where
  "threads_weight c ts = sum_list (map (thread_weight c) ts)"

lemma threads_weight_update:
  assumes "i < length ts" and "thread_weight c t < thread_weight c (ts ! i)"
  shows "threads_weight c (ts[i := t]) < threads_weight c ts"
proof -
  have "thread_weight c (ts ! i) \<le> sum_list (map (thread_weight c) ts)"
    using assms(1) by (intro member_le_sum_list) simp_all
  then show ?thesis
    using assms by (simp add: threads_weight_def map_update sum_list_update)
qed

lemma peaks_step_decreases:
  assumes "peaks_inv c0 ns (c, ts)" and "counter_step (c, ts) (c', ts')"
  shows "c < c' \<or> c' = c \<and> threads_weight c ts' < threads_weight c ts"
proof -
  have len: "length ns = length ts" and ok: "\<And>j. j < length ts \<Longrightarrow> peak_thread_ok c (ns ! j) (ts ! j)"
    using assms(1) by (auto simp: peaks_inv_def list_all2_conv_all_nth)
  from assms(2) show ?thesis
  proof (cases rule: counter_step.cases)
    case (peak_swap i)
    then show ?thesis using ok [of i] by (auto simp: peak_thread_ok_def)
  next
    case (peak_load i n)
    then show ?thesis by (auto intro!: threads_weight_update simp: thread_weight_def)
  next
    case (peak_retry i n cur)
    then show ?thesis by (auto intro!: threads_weight_update simp: thread_weight_def)
  qed (use ok in \<open>fastforce simp: peak_thread_ok_def\<close>)+
qed

lemma peaks_inv_terminate: "wfP (\<lambda>s' s. peaks_inv c0 ns s \<and> counter_step s s')"
proof -
  define f where "f s = (case s of (c :: 64 word, ts) \<Rightarrow> (2 ^ 64 - unat c, threads_weight c ts))" for s
  have "{(s', s). peaks_inv c0 ns s \<and> counter_step s s'} \<subseteq> inv_image (less_than <*lex*> less_than) f"
  proof (rule subrelI)
    fix s' s
    assume "(s', s) \<in> {(s', s). peaks_inv c0 ns s \<and> counter_step s s'}"
    moreover obtain c ts c' ts' where s: "s = (c, ts)" "s' = (c', ts')" by fastforce
    ultimately have dec: "c < c' \<or> c' = c \<and> threads_weight c ts' < threads_weight c ts"
      using peaks_step_decreases by blast
    have u: "unat c' < 2 ^ 64" using unsigned_less [of c'] by simp
    show "(s', s) \<in> inv_image (less_than <*lex*> less_than) f"
      using dec
    proof
      assume "c < c'"
      then have "unat c < unat c'" by (simp add: word_less_nat_alt)
      then have "2 ^ 64 - unat c' < 2 ^ 64 - unat c" using u by linarith
      then show ?thesis by (simp add: f_def s)
    next
      assume "c' = c \<and> threads_weight c ts' < threads_weight c ts"
      then show ?thesis by (simp add: f_def s)
    qed
  qed
  then show ?thesis
    unfolding wfp_def using wf_subset [OF wf_inv_image [OF wf_lex_prod [OF wf_less_than wf_less_than]]] by blast
qed

lemma peaks_stuck_done:
  assumes "peaks_inv c0 ns (c, ts)" and "\<nexists>s. counter_step (c, ts) s" and "i < length ts"
  shows "ts ! i = ThreadDone"
proof (rule ccontr)
  assume "ts ! i \<noteq> ThreadDone"
  moreover have "peak_thread_ok c (ns ! i) (ts ! i)"
    using assms(1,3) by (simp add: peaks_inv_def list_all2_conv_all_nth)
  ultimately consider n where "ts ! i = Peaking n" | n cur where "ts ! i = PeakLoaded n cur"
    by (auto simp: peak_thread_ok_def split: counter_thread.splits)
  then show False using assms(2,3) counter_step.intros(4-6) by (cases; metis)
qed

text \<open>
  C21: goroutines that raise the same peak concurrently always come to an end, and then the
  counter holds the largest of its first value and all the values they asked for, in whatever
  order their loads and swaps interleave.
\<close>

theorem concurrent_peaks_reach_maximum:
  "wfP (\<lambda>s' s. counter_step\<^sup>*\<^sup>* (c0, map Peaking ns) s \<and> counter_step s s') \<and>
   (\<nexists>c ts. counter_step\<^sup>*\<^sup>* (c0, map Peaking ns) (c, ts) \<and>
      (\<nexists>s. counter_step (c, ts) s) \<and> c \<noteq> Max (insert c0 (set ns)))"
proof (intro conjI notI)
  show "wfP (\<lambda>s' s. counter_step\<^sup>*\<^sup>* (c0, map Peaking ns) s \<and> counter_step s s')"
    by (rule wfp_subset [OF peaks_inv_terminate [of c0 ns]]) (use peaks_inv_reachable in blast)
  assume "\<exists>c ts. counter_step\<^sup>*\<^sup>* (c0, map Peaking ns) (c, ts) \<and>
      (\<nexists>s. counter_step (c, ts) s) \<and> c \<noteq> Max (insert c0 (set ns))"
  then obtain c ts where r: "counter_step\<^sup>*\<^sup>* (c0, map Peaking ns) (c, ts)"
    and stuck: "\<nexists>s. counter_step (c, ts) s" and ne: "c \<noteq> Max (insert c0 (set ns))" by blast
  note inv = peaks_inv_reachable [OF r]
  have "ns ! i \<le> c" if "i < length ns" for i
    using inv peaks_stuck_done [OF inv stuck, of i] that
    by (auto simp: peaks_inv_def list_all2_conv_all_nth peak_thread_ok_def)
  then have "\<forall>n \<in> set ns. n \<le> c" by (auto simp: in_set_conv_nth)
  with inv have "c = Max (insert c0 (set ns))"
    by (intro Max_eqI [symmetric]) (auto simp: peaks_inv_def)
  with ne show False ..
qed

text \<open>
  \<^verbatim>\<open>DecrementCount\<close> is not atomic. An increment that another goroutine completes between
  its load and its store is lost: one increment and one decrement started together can leave
  the count one lower than before, and two decrements can lower it by one only.
\<close>

theorem concurrent_decrement_loses_updates:
  assumes "c \<noteq> 0"
  shows "counter_step\<^sup>*\<^sup>* (c, [Adding, Decrementing]) (c - 1, [ThreadDone, ThreadDone]) \<and>
    counter_step\<^sup>*\<^sup>* (c, [Decrementing, Decrementing]) (c - 1, [ThreadDone, ThreadDone])"
proof (intro conjI)
  have "counter_step (c, [Adding, Decrementing]) (c, [Adding, DecLoaded c])"
    using counter_step.dec_load [of 1 "[Adding, Decrementing]" c] assms by simp
  moreover have "counter_step (c, [Adding, DecLoaded c]) (c + 1, [ThreadDone, DecLoaded c])"
    using counter_step.add [of 0 "[Adding, DecLoaded c]" c] by simp
  moreover have "counter_step (c + 1, [ThreadDone, DecLoaded c]) (c - 1, [ThreadDone, ThreadDone])"
    using counter_step.dec_store [of 1 "[ThreadDone, DecLoaded c]" c "c + 1"] by simp
  ultimately show "counter_step\<^sup>*\<^sup>* (c, [Adding, Decrementing]) (c - 1, [ThreadDone, ThreadDone])"
    by (meson converse_rtranclp_into_rtranclp rtranclp.rtrancl_refl)
  have "counter_step (c, [Decrementing, Decrementing]) (c, [DecLoaded c, Decrementing])"
    using counter_step.dec_load [of 0 "[Decrementing, Decrementing]" c] assms by simp
  moreover have "counter_step (c, [DecLoaded c, Decrementing]) (c, [DecLoaded c, DecLoaded c])"
    using counter_step.dec_load [of 1 "[DecLoaded c, Decrementing]" c] assms by simp
  moreover have "counter_step (c, [DecLoaded c, DecLoaded c]) (c - 1, [ThreadDone, DecLoaded c])"
    using counter_step.dec_store [of 0 "[DecLoaded c, DecLoaded c]" c c] by simp
  moreover have "counter_step (c - 1, [ThreadDone, DecLoaded c]) (c - 1, [ThreadDone, ThreadDone])"
    using counter_step.dec_store [of 1 "[ThreadDone, DecLoaded c]" c "c - 1"] by simp
  ultimately show "counter_step\<^sup>*\<^sup>* (c, [Decrementing, Decrementing]) (c - 1, [ThreadDone, ThreadDone])"
    by (meson converse_rtranclp_into_rtranclp rtranclp.rtrancl_refl)
qed

theorem concurrent_decrement_loses_updates_witness:
  "counter_step\<^sup>*\<^sup>* (5, [Adding, Decrementing]) (4, [ThreadDone, ThreadDone]) \<and>
    counter_step\<^sup>*\<^sup>* (5, [Decrementing, Decrementing]) (4, [ThreadDone, ThreadDone])"
  using concurrent_decrement_loses_updates [of 5] by simp

text \<open>The display ignores the error of \<^verbatim>\<open>mem.VirtualMemory\<close> and reads through the nil result.\<close>

lemma updateDisplay_panics:
  assumes "mem_used env = None" and "GetMetricCount m MetricTotalSubmittedCount \<noteq> 0"
    and "unat (GetMetricCount m MetricTotalSubmittedCount) < 2 ^ 53"
  shows "isl (updateDisplay env now m)"
proof -
  have "0 < unat (GetMetricCount m MetricTotalSubmittedCount)"
    using assms(2) by (simp add: unat_gt_0)
  then have "float_less (Fin 0) (float_of_uint64 (GetMetricCount m MetricTotalSubmittedCount))"
    unfolding float_of_uint64_exact [OF assms(3)] float_less.simps(1) of_nat_0_less_iff .
  then show ?thesis using assms(1) by (simp add: updateDisplay_def display_ratios_def Let_def)
qed


end
