(* ===== verification/Sensor.thy ===== *)
theory Sensor
  imports Meter
begin

text \<open>
  The sensor (\<^verbatim>\<open>src/pkg/internal/sensor\<close>): lists of callbacks by event, the meters they report
  to, and the callbacks that \<^verbatim>\<open>NewSensor\<close> adds of its own, which keep the meters' counts.
  The calls that the components make on a sensor are the \<open>sensor_call\<close>s of the theory
  \<open>Telemetry\<close>. The events of the S3 and Kafka clients have callback lists of the same shape
  and no callbacks of the sensor's own; they are left out with those adapters.
\<close>

section \<open>State\<close>

datatype sensor_event =
    OnStart | OnInsulatorAttempt | OnInsulatorSuccess | OnInsulatorFailure | OnRestart | OnSubmit
  | OnElementProcessed | OnError | OnCancel | OnComplete | OnTerminate
  | OnHTTPClientRequestStart | OnHTTPClientResponseReceived | OnHTTPClientError
  | OnHTTPClientRequestComplete
  | OnSurgeProtectorTrip | OnSurgeProtectorReset | OnSurgeProtectorBackupFailure
  | OnSurgeProtectorRateLimitExceeded | OnResisterDequeued | OnResisterQueued
  | OnResisterRequeued | OnResisterEmpty | OnSurgeProtectorReleaseToken
  | OnSurgeProtectorConnectResister | OnSurgeProtectorDetachedBackups
  | OnSurgeProtectorBackupWireSubmit | OnSurgeProtectorSubmit | OnSurgeProtectorDrop
  | OnCircuitBreakerTrip | OnCircuitBreakerReset | OnCircuitBreakerNeutralWireSubmission
  | OnCircuitBreakerRecordError | OnCircuitBreakerAllow | OnCircuitBreakerDrop

text \<open>
  What a callback does, in order: operations on meters, and whatever a user's callback does,
  of which only the call is known. The sensor's own callbacks are closures over the sensor;
  they read its list of meters when they run, so a callback takes that list.
\<close>

datatype 'a sensor_effect =
    MeterCall nat meter_op
  | UserCallback nat "'a sensor_call"

type_synonym 'a callback = "nat list \<Rightarrow> 'a sensor_call \<Rightarrow> 'a sensor_effect list"

record 'a sensor_state =
  sens_metadata :: metadata
  sens_callbacks :: "sensor_event \<Rightarrow> 'a callback option list"
  sens_loggers :: "logger list"
  sens_meters :: "nat list"

section \<open>Registering and invoking\<close>

definition register_callbacks ::
  "sensor_event \<Rightarrow> 'a callback option list \<Rightarrow> 'a sensor_state \<Rightarrow> 'a sensor_state" where
  "register_callbacks ev cbs s =
     (if cbs = [] then s
      else s\<lparr>sens_callbacks := (sens_callbacks s)(ev := sens_callbacks s ev @ cbs)\<rparr>)"

fun event_of :: "'a sensor_call \<Rightarrow> sensor_event" where
  "event_of (InvokeOnStart c) = OnStart"
| "event_of (InvokeOnStop c) = OnTerminate"
| "event_of (InvokeOnRestart c) = OnRestart"
| "event_of (InvokeOnComplete c) = OnComplete"
| "event_of (InvokeOnSubmit c e) = OnSubmit"
| "event_of (InvokeOnElementProcessed c e) = OnElementProcessed"
| "event_of (InvokeOnError c err e) = OnError"
| "event_of (InvokeOnCancel c e) = OnCancel"
| "event_of (InvokeOnInsulatorAttempt c e e' err err' n k d) = OnInsulatorAttempt"
| "event_of (InvokeOnInsulatorSuccess c e e' err err' n k d) = OnInsulatorSuccess"
| "event_of (InvokeOnInsulatorFailure c e e' err err' n k d) = OnInsulatorFailure"
| "event_of (InvokeOnCircuitBreakerTrip c t n) = OnCircuitBreakerTrip"
| "event_of (InvokeOnCircuitBreakerReset c t) = OnCircuitBreakerReset"
| "event_of (InvokeOnCircuitBreakerNeutralWireSubmission c e) = OnCircuitBreakerNeutralWireSubmission"
| "event_of (InvokeOnCircuitBreakerRecordError c t) = OnCircuitBreakerRecordError"
| "event_of (InvokeOnCircuitBreakerAllow c) = OnCircuitBreakerAllow"
| "event_of (InvokeOnCircuitBreakerDrop c e) = OnCircuitBreakerDrop"
| "event_of (InvokeOnResisterQueued c e) = OnResisterQueued"
| "event_of (InvokeOnResisterRequeued c e) = OnResisterRequeued"
| "event_of (InvokeOnResisterDequeued c e) = OnResisterDequeued"
| "event_of (InvokeOnResisterEmpty c) = OnResisterEmpty"
| "event_of (InvokeOnSurgeProtectorTrip c) = OnSurgeProtectorTrip"
| "event_of (InvokeOnSurgeProtectorReset c) = OnSurgeProtectorReset"
| "event_of (InvokeOnSurgeProtectorBackupFailure c err) = OnSurgeProtectorBackupFailure"
| "event_of (InvokeOnSurgeProtectorBackupWireSubmit c e) = OnSurgeProtectorBackupWireSubmit"
| "event_of (InvokeOnSurgeProtectorReleaseToken c) = OnSurgeProtectorReleaseToken"
| "event_of (InvokeOnSurgeProtectorConnectResister c r) = OnSurgeProtectorConnectResister"
| "event_of (InvokeOnSurgeProtectorDetachedBackups c b) = OnSurgeProtectorDetachedBackups"
| "event_of (InvokeOnSurgeProtectorSubmit c e) = OnSurgeProtectorSubmit"
| "event_of (InvokeOnSurgeProtectorRateLimitExceeded c e) = OnSurgeProtectorRateLimitExceeded"
| "event_of (InvokeOnHTTPClientRequestStart c) = OnHTTPClientRequestStart"
| "event_of (InvokeOnHTTPClientResponseReceived c) = OnHTTPClientResponseReceived"
| "event_of (InvokeOnHTTPClientError c err) = OnHTTPClientError"
| "event_of (InvokeOnHTTPClientRequestComplete c) = OnHTTPClientRequestComplete"

fun invoke_callbacks ::
  "nat list \<Rightarrow> 'a sensor_call \<Rightarrow> 'a callback option list \<Rightarrow> 'a sensor_effect list" where
  "invoke_callbacks ms call [] = []"
| "invoke_callbacks ms call (None # cbs) = invoke_callbacks ms call cbs"
| "invoke_callbacks ms call (Some cb # cbs) = cb ms call @ invoke_callbacks ms call cbs"

definition Invoke :: "'a sensor_state \<Rightarrow> 'a sensor_call \<Rightarrow> 'a sensor_effect list" where
  "Invoke s call = invoke_callbacks (sens_meters s) call (sens_callbacks s (event_of call))"

section \<open>Connections and configuration\<close>

definition sens_ConnectLogger :: "logger option list \<Rightarrow> 'a sensor_state \<Rightarrow> 'a sensor_state" where
  "sens_ConnectLogger ls s = (if nonnil ls = [] then s else s\<lparr>sens_loggers := sens_loggers s @ nonnil ls\<rparr>)"

definition sens_ConnectMeter :: "nat option list \<Rightarrow> 'a sensor_state \<Rightarrow> 'a sensor_state" where
  "sens_ConnectMeter ms s = (if nonnil ms = [] then s else s\<lparr>sens_meters := sens_meters s @ nonnil ms\<rparr>)"

definition sens_SetComponentMetadata :: "string \<Rightarrow> string \<Rightarrow> 'a sensor_state \<Rightarrow> 'a sensor_state" where
  "sens_SetComponentMetadata name ident s =
     s\<lparr>sens_metadata := \<lparr>meta_ID = ident, meta_Type = meta_Type (sens_metadata s), meta_Name = name\<rparr>\<rparr>"

definition sens_GetComponentMetadata :: "'a sensor_state \<Rightarrow> metadata" where
  "sens_GetComponentMetadata s = sens_metadata s"

definition sens_GetMeters :: "'a sensor_state \<Rightarrow> nat list" where
  "sens_GetMeters s = sens_meters s"

definition sens_NotifyLoggers ::
  "'a sensor_state \<Rightarrow> loglevel \<Rightarrow> string \<Rightarrow> (string \<times> 'a logval) list \<Rightarrow> 'a effect list" where
  "sens_NotifyLoggers s level msg kvs = log_calls logger_wants (sens_loggers s) level msg kvs"

section \<open>The sensor's own callbacks\<close>

definition incrementMeterCounters :: "string \<Rightarrow> nat list \<Rightarrow> 'a sensor_effect list" where
  "incrementMeterCounters metric ms = map (\<lambda>m. MeterCall m (OpIncrementCount metric)) ms"

definition decrementMeterCounters :: "string \<Rightarrow> nat list \<Rightarrow> 'a sensor_effect list" where
  "decrementMeterCounters metric ms = map (\<lambda>m. MeterCall m (OpDecrementCount metric)) ms"

definition setMetricTimestampValue :: "string \<Rightarrow> int \<Rightarrow> nat list \<Rightarrow> 'a sensor_effect list" where
  "setMetricTimestampValue metric t ms = map (\<lambda>m. MeterCall m (OpSetMetricTimestamp metric t)) ms"

definition incrementMeterCountersAndReportActivity :: "string \<Rightarrow> nat list \<Rightarrow> 'a sensor_effect list" where
  "incrementMeterCountersAndReportActivity metric ms =
     concat (map (\<lambda>m. [MeterCall m OpReportData, MeterCall m (OpIncrementCount metric)]) ms)"

text \<open>
  The options of \<^verbatim>\<open>options.go\<close>: one for every kind of callback (the option for stop
  callbacks registers them as \<open>OnTerminate\<close>), and those for metadata, loggers and meters.
\<close>

datatype 'a sensor_option =
    WithCallbacks sensor_event "'a callback option list"
  | SensorWithComponentMetadata string string
  | SensorWithLogger "logger option list"
  | SensorWithMeter "nat option list"

fun apply_sensor_option :: "'a sensor_option \<Rightarrow> 'a sensor_state \<Rightarrow> 'a sensor_state" where
  "apply_sensor_option (WithCallbacks ev cbs) s = register_callbacks ev cbs s"
| "apply_sensor_option (SensorWithComponentMetadata name ident) s = sens_SetComponentMetadata name ident s"
| "apply_sensor_option (SensorWithLogger ls) s = sens_ConnectLogger ls s"
| "apply_sensor_option (SensorWithMeter ms) s = sens_ConnectMeter ms s"

definition own_callback :: "sensor_event \<Rightarrow> 'a callback \<Rightarrow> 'a sensor_option" where
  "own_callback ev cb = WithCallbacks ev [Some cb]"

definition decorateCircuitBreakerCallbacks :: "'a sensor_option list" where
  "decorateCircuitBreakerCallbacks =
     [own_callback OnCircuitBreakerDrop
        (\<lambda>ms c. incrementMeterCounters MetricCircuitBreakerDroppedElementCount ms),
      own_callback OnCircuitBreakerNeutralWireSubmission
        (\<lambda>ms c. incrementMeterCounters MetricCircuitBreakerNeutralWireSubmissionCount ms),
      own_callback OnCircuitBreakerTrip
        (\<lambda>ms c. case c of
           InvokeOnCircuitBreakerTrip _ t resetTime \<Rightarrow>
             setMetricTimestampValue MetricCircuitBreakerLastTripTime t ms @
             setMetricTimestampValue MetricCircuitBreakerNextResetTime resetTime ms @
             incrementMeterCounters MetricComponentRunningCount ms @
             incrementMeterCounters MetricCircuitBreakerCurrentTripCount ms @
             incrementMeterCounters MetricCircuitBreakerTripCount ms
         | _ \<Rightarrow> []),
      own_callback OnCircuitBreakerReset
        (\<lambda>ms c. case c of
           InvokeOnCircuitBreakerReset _ t \<Rightarrow>
             setMetricTimestampValue MetricCircuitBreakerLastResetTime t ms @
             decrementMeterCounters MetricCircuitBreakerCurrentTripCount ms @
             incrementMeterCounters MetricCircuitBreakerResetCount ms
         | _ \<Rightarrow> [])]"

definition decorateHttpClientCallbacks :: "'a sensor_option list" where
  "decorateHttpClientCallbacks =
     [own_callback OnHTTPClientError
        (\<lambda>ms c. incrementMeterCounters MetricTotalErrorCount ms @
                incrementMeterCounters MetricHTTPClientErrorCount ms),
      own_callback OnHTTPClientRequestComplete
        (\<lambda>ms c. incrementMeterCounters MetricHTTPRequestCompletedCount ms),
      own_callback OnHTTPClientRequestStart
        (\<lambda>ms c. incrementMeterCounters MetricHTTPRequestMadeCount ms),
      own_callback OnHTTPClientResponseReceived
        (\<lambda>ms c. incrementMeterCounters MetricHTTPResponseCount ms)]"

definition decorateSurgeProtectorCallbacks :: "'a sensor_option list" where
  "decorateSurgeProtectorCallbacks =
     [own_callback OnSurgeProtectorTrip
        (\<lambda>ms c. incrementMeterCounters MetricSurgeTripCount ms @
                incrementMeterCounters MetricSurgeProtectorCurrentTripCount ms),
      own_callback OnSurgeProtectorReset
        (\<lambda>ms c. incrementMeterCounters MetricSurgeResetCount ms @
                decrementMeterCounters MetricSurgeProtectorCurrentTripCount ms),
      own_callback OnSurgeProtectorBackupFailure
        (\<lambda>ms c. incrementMeterCounters MetricSurgeBackupFailureCount ms),
      own_callback OnSurgeProtectorRateLimitExceeded
        (\<lambda>ms c. incrementMeterCounters MetricSurgeRateLimitExceedCount ms),
      own_callback OnSurgeProtectorBackupWireSubmit
        (\<lambda>ms c. incrementMeterCounters MetricSurgeProtectorBackupWireSubmissionCount ms),
      own_callback OnSurgeProtectorDrop
        (\<lambda>ms c. incrementMeterCounters MetricSurgeProtectorDropCount ms),
      own_callback OnSurgeProtectorSubmit
        (\<lambda>ms c. incrementMeterCounters MetricSurgeProtectorAttachedCount ms),
      own_callback OnSurgeProtectorConnectResister
        (\<lambda>ms c. incrementMeterCounters MetricResisterConnectedCount ms)]"

definition decorateWireCallbacks :: "'a sensor_option list" where
  "decorateWireCallbacks =
     [own_callback OnSubmit
        (\<lambda>ms c. incrementMeterCountersAndReportActivity MetricTotalSubmittedCount ms),
      own_callback OnError
        (\<lambda>ms c. incrementMeterCounters MetricTotalErrorCount ms @
                incrementMeterCountersAndReportActivity MetricTotalProcessedCount ms @
                incrementMeterCountersAndReportActivity MetricTransformationErrorPercentage ms),
      own_callback OnRestart
        (\<lambda>ms c. case c of
           InvokeOnRestart meta \<Rightarrow>
             (if meta_Type meta = ''WIRE''
              then decrementMeterCounters MetricComponentRunningCount ms @
                   decrementMeterCounters MetricWireRunningCount ms
              else [])
         | _ \<Rightarrow> []),
      own_callback OnElementProcessed
        (\<lambda>ms c. incrementMeterCountersAndReportActivity MetricTotalProcessedCount ms @
                incrementMeterCountersAndReportActivity MetricTotalTransformedCount ms),
      own_callback OnCancel
        (\<lambda>ms c. incrementMeterCounters MetricWireElementSubmitCancelCount ms)]"

definition decorateResisterCallbacks :: "'a sensor_option list" where
  "decorateResisterCallbacks =
     [own_callback OnResisterDequeued
        (\<lambda>ms c. decrementMeterCounters MetricResisterElementCurrentlyQueuedCount ms @
                incrementMeterCounters MetricResisterElementDequeued ms),
      own_callback OnResisterEmpty
        (\<lambda>ms c. incrementMeterCounters MetricResisterClearedCount ms),
      own_callback OnResisterQueued
        (\<lambda>ms c. incrementMeterCounters MetricResisterElementQueuedCount ms @
                incrementMeterCounters MetricResisterElementCurrentlyQueuedCount ms),
      own_callback OnResisterRequeued
        (\<lambda>ms c. incrementMeterCounters MetricResisterElementRequeued ms)]"

text \<open>The gauge of running components of a type, besides the one of all components.\<close>

definition running_metric :: "string \<Rightarrow> string option" where
  "running_metric ty =
     (if ty = ''WIRE'' then Some MetricWireRunningCount
      else if ty = ''GENERATOR'' then Some MetricGeneratorRunningCount
      else if ty = ''FORWARD_RELAY'' then Some MetricForwardRelayRunningCount
      else if ty = ''CONDUIT'' then Some MetricConduitRunningCount
      else if ty = ''RECEIVING_RELAY'' then Some MetricReceivingRelayRunningCount
      else None)"

definition decorateLifecycleCallbacks :: "'a sensor_option list" where
  "decorateLifecycleCallbacks =
     [own_callback OnRestart (\<lambda>ms c. incrementMeterCounters MetricComponentRestartCount ms),
      own_callback OnStart
        (\<lambda>ms c. case c of
           InvokeOnStart meta \<Rightarrow>
             (case running_metric (meta_Type meta) of
                Some k \<Rightarrow> incrementMeterCounters k ms | None \<Rightarrow> []) @
             incrementMeterCounters MetricComponentRunningCount ms
         | _ \<Rightarrow> []),
      own_callback OnTerminate
        (\<lambda>ms c. case c of
           InvokeOnStop meta \<Rightarrow>
             (case running_metric (meta_Type meta) of
                Some k \<Rightarrow> decrementMeterCounters k ms | None \<Rightarrow> []) @
             decrementMeterCounters MetricComponentRunningCount ms
         | _ \<Rightarrow> [])]"

text \<open>Options may be nil; the sensor's own follow the caller's.\<close>

definition decorateCallbacks :: "'a sensor_option option list \<Rightarrow> 'a sensor_option option list" where
  "decorateCallbacks options =
     options @ map Some decorateCircuitBreakerCallbacks @ map Some decorateHttpClientCallbacks @
     map Some decorateSurgeProtectorCallbacks @ map Some decorateWireCallbacks @
     map Some decorateResisterCallbacks @ map Some decorateLifecycleCallbacks"

fun apply_sensor_options :: "'a sensor_option option list \<Rightarrow> 'a sensor_state \<Rightarrow> 'a sensor_state" where
  "apply_sensor_options [] s = s"
| "apply_sensor_options (None # opts) s = apply_sensor_options opts s"
| "apply_sensor_options (Some opt # opts) s = apply_sensor_options opts (apply_sensor_option opt s)"

definition NewSensor_base :: "string \<Rightarrow> 'a sensor_state" where
  "NewSensor_base ident =
     \<lparr>sens_metadata = \<lparr>meta_ID = ident, meta_Type = ''SENSOR'', meta_Name = ''''\<rparr>,
      sens_callbacks = (\<lambda>_. []), sens_loggers = [], sens_meters = []\<rparr>"

definition NewSensor :: "string \<Rightarrow> 'a sensor_option option list \<Rightarrow> 'a sensor_state" where
  "NewSensor ident options =
     apply_sensor_options (decorateCallbacks options) (NewSensor_base ident)"

section \<open>Running the calls of the components\<close>

text \<open>
  The meters by identity. The effects of a callback on them, and the effects of a component's
  calls: each goes to the sensor it names, and a component counts on meters of its own.
\<close>

type_synonym meters = "nat \<Rightarrow> meter"

fun run_sensor_effects :: "gotime \<Rightarrow> 'a sensor_effect list \<Rightarrow> meters \<Rightarrow> meters" where
  "run_sensor_effects now [] M = M"
| "run_sensor_effects now (MeterCall m op # es) M =
     run_sensor_effects now es (M(m := meter_do now op (M m)))"
| "run_sensor_effects now (UserCallback k c # es) M = run_sensor_effects now es M"

fun run_effects :: "gotime \<Rightarrow> (nat \<Rightarrow> 'a sensor_state) \<Rightarrow> 'a effect list \<Rightarrow> meters \<Rightarrow> meters" where
  "run_effects now S [] M = M"
| "run_effects now S (LogCall l lv msg kvs # es) M = run_effects now S es M"
| "run_effects now S (SensorCall s c # es) M =
     run_effects now S es (run_sensor_effects now (Invoke (S s) c) M)"
| "run_effects now S (MeterIncrement m metric # es) M =
     run_effects now S es (M(m := IncrementCount now metric (M m)))"

section \<open>What a new sensor does on each event\<close>

text \<open>
  The operations a sensor's own callbacks make on one attached meter for each call of a
  component.
\<close>

fun sensor_spec :: "'a sensor_call \<Rightarrow> meter_op list" where
  "sensor_spec (InvokeOnStart c) =
     (case running_metric (meta_Type c) of Some k \<Rightarrow> [OpIncrementCount k] | None \<Rightarrow> []) @
     [OpIncrementCount MetricComponentRunningCount]"
| "sensor_spec (InvokeOnStop c) =
     (case running_metric (meta_Type c) of Some k \<Rightarrow> [OpDecrementCount k] | None \<Rightarrow> []) @
     [OpDecrementCount MetricComponentRunningCount]"
| "sensor_spec (InvokeOnRestart c) =
     (if meta_Type c = ''WIRE''
      then [OpDecrementCount MetricComponentRunningCount, OpDecrementCount MetricWireRunningCount]
      else []) @ [OpIncrementCount MetricComponentRestartCount]"
| "sensor_spec (InvokeOnSubmit c e) = [OpReportData, OpIncrementCount MetricTotalSubmittedCount]"
| "sensor_spec (InvokeOnElementProcessed c e) =
     [OpReportData, OpIncrementCount MetricTotalProcessedCount,
      OpReportData, OpIncrementCount MetricTotalTransformedCount]"
| "sensor_spec (InvokeOnError c err e) =
     [OpIncrementCount MetricTotalErrorCount,
      OpReportData, OpIncrementCount MetricTotalProcessedCount,
      OpReportData, OpIncrementCount MetricTransformationErrorPercentage]"
| "sensor_spec (InvokeOnCancel c e) = [OpIncrementCount MetricWireElementSubmitCancelCount]"
| "sensor_spec (InvokeOnCircuitBreakerTrip c t n) =
     [OpSetMetricTimestamp MetricCircuitBreakerLastTripTime t,
      OpSetMetricTimestamp MetricCircuitBreakerNextResetTime n,
      OpIncrementCount MetricComponentRunningCount,
      OpIncrementCount MetricCircuitBreakerCurrentTripCount,
      OpIncrementCount MetricCircuitBreakerTripCount]"
| "sensor_spec (InvokeOnCircuitBreakerReset c t) =
     [OpSetMetricTimestamp MetricCircuitBreakerLastResetTime t,
      OpDecrementCount MetricCircuitBreakerCurrentTripCount,
      OpIncrementCount MetricCircuitBreakerResetCount]"
| "sensor_spec (InvokeOnCircuitBreakerNeutralWireSubmission c e) =
     [OpIncrementCount MetricCircuitBreakerNeutralWireSubmissionCount]"
| "sensor_spec (InvokeOnCircuitBreakerDrop c e) = [OpIncrementCount MetricCircuitBreakerDroppedElementCount]"
| "sensor_spec (InvokeOnResisterQueued c e) =
     [OpIncrementCount MetricResisterElementQueuedCount,
      OpIncrementCount MetricResisterElementCurrentlyQueuedCount]"
| "sensor_spec (InvokeOnResisterRequeued c e) = [OpIncrementCount MetricResisterElementRequeued]"
| "sensor_spec (InvokeOnResisterDequeued c e) =
     [OpDecrementCount MetricResisterElementCurrentlyQueuedCount,
      OpIncrementCount MetricResisterElementDequeued]"
| "sensor_spec (InvokeOnResisterEmpty c) = [OpIncrementCount MetricResisterClearedCount]"
| "sensor_spec (InvokeOnSurgeProtectorTrip c) =
     [OpIncrementCount MetricSurgeTripCount, OpIncrementCount MetricSurgeProtectorCurrentTripCount]"
| "sensor_spec (InvokeOnSurgeProtectorReset c) =
     [OpIncrementCount MetricSurgeResetCount, OpDecrementCount MetricSurgeProtectorCurrentTripCount]"
| "sensor_spec (InvokeOnSurgeProtectorBackupFailure c err) = [OpIncrementCount MetricSurgeBackupFailureCount]"
| "sensor_spec (InvokeOnSurgeProtectorRateLimitExceeded c e) =
     [OpIncrementCount MetricSurgeRateLimitExceedCount]"
| "sensor_spec (InvokeOnSurgeProtectorBackupWireSubmit c e) =
     [OpIncrementCount MetricSurgeProtectorBackupWireSubmissionCount]"
| "sensor_spec (InvokeOnSurgeProtectorSubmit c e) = [OpIncrementCount MetricSurgeProtectorAttachedCount]"
| "sensor_spec (InvokeOnSurgeProtectorConnectResister c r) = [OpIncrementCount MetricResisterConnectedCount]"
| "sensor_spec (InvokeOnHTTPClientError c err) =
     [OpIncrementCount MetricTotalErrorCount, OpIncrementCount MetricHTTPClientErrorCount]"
| "sensor_spec (InvokeOnHTTPClientRequestComplete c) = [OpIncrementCount MetricHTTPRequestCompletedCount]"
| "sensor_spec (InvokeOnHTTPClientRequestStart c) = [OpIncrementCount MetricHTTPRequestMadeCount]"
| "sensor_spec (InvokeOnHTTPClientResponseReceived c) = [OpIncrementCount MetricHTTPResponseCount]"
| "sensor_spec _ = []"

fun meter_ops_of :: "nat \<Rightarrow> 'a sensor_effect list \<Rightarrow> meter_op list" where
  "meter_ops_of k [] = []"
| "meter_ops_of k (MeterCall m op # es) = (if m = k then op # meter_ops_of k es else meter_ops_of k es)"
| "meter_ops_of k (UserCallback u c # es) = meter_ops_of k es"

lemma meter_ops_of_append [simp]: "meter_ops_of k (xs @ ys) = meter_ops_of k xs @ meter_ops_of k ys"
  by (induction k xs rule: meter_ops_of.induct) auto

lemma meter_ops_of_notin: "k \<notin> set ms \<Longrightarrow> meter_ops_of k (map (\<lambda>m. MeterCall m op) ms) = []"
  by (induction ms) auto

lemma meter_ops_of_map:
  "distinct ms \<Longrightarrow> k \<in> set ms \<Longrightarrow> meter_ops_of k (map (\<lambda>m. MeterCall m op) ms) = [op]"
  by (induction ms) (auto simp: meter_ops_of_notin)

lemma activity_Cons:
  "incrementMeterCountersAndReportActivity x [] = []"
  "incrementMeterCountersAndReportActivity x (m # ms) =
     MeterCall m OpReportData # MeterCall m (OpIncrementCount x) #
     incrementMeterCountersAndReportActivity x ms"
  by (simp_all add: incrementMeterCountersAndReportActivity_def)

lemma meter_ops_of_activity_notin:
  "k \<notin> set ms \<Longrightarrow> meter_ops_of k (incrementMeterCountersAndReportActivity x ms) = []"
  by (induction ms) (auto simp: activity_Cons)

lemma meter_ops_of_activity:
  "distinct ms \<Longrightarrow> k \<in> set ms \<Longrightarrow>
   meter_ops_of k (incrementMeterCountersAndReportActivity x ms) = [OpReportData, OpIncrementCount x]"
  by (induction ms) (auto simp: meter_ops_of_activity_notin activity_Cons)

lemma invoke_callbacks_append [simp]:
  "invoke_callbacks ms call (xs @ ys) = invoke_callbacks ms call xs @ invoke_callbacks ms call ys"
  by (induction ms call xs rule: invoke_callbacks.induct) simp_all

lemma apply_sensor_options_append [simp]:
  "apply_sensor_options (xs @ ys) s = apply_sensor_options ys (apply_sensor_options xs s)"
  by (induction xs s rule: apply_sensor_options.induct) simp_all

definition own_options :: "'a sensor_option list" where
  "own_options =
     decorateCircuitBreakerCallbacks @ decorateHttpClientCallbacks @ decorateSurgeProtectorCallbacks @
     decorateWireCallbacks @ decorateResisterCallbacks @ decorateLifecycleCallbacks"

lemma decorateCallbacks_eq: "decorateCallbacks options = options @ map Some own_options"
  by (simp add: decorateCallbacks_def own_options_def)

definition is_own :: "'a sensor_option \<Rightarrow> bool" where
  "is_own opt \<longleftrightarrow> (\<exists>ev cb. opt = own_callback ev cb)"

lemma own_options_are_own: "list_all is_own own_options"
  by (auto simp: own_options_def is_own_def decorateCircuitBreakerCallbacks_def
      decorateHttpClientCallbacks_def decorateSurgeProtectorCallbacks_def decorateWireCallbacks_def
      decorateResisterCallbacks_def decorateLifecycleCallbacks_def)

lemma apply_own_callbacks:
  assumes "list_all is_own os"
  shows "sens_callbacks (apply_sensor_options (map Some os) s) ev =
      sens_callbacks s ev @ sens_callbacks (apply_sensor_options (map Some os) (NewSensor_base '''')) ev"
    and "sens_meters (apply_sensor_options (map Some os) s) = sens_meters s"
  using assms
proof (induction os arbitrary: s)
  case (Cons opt os)
  {
    case 1
    then obtain ev' cb where "opt = own_callback ev' cb" by (auto simp: is_own_def)
    then show ?case
      using 1 Cons.IH(1) [of "apply_sensor_option opt s"] Cons.IH(1) [of "apply_sensor_option opt (NewSensor_base '''')"]
      by (simp add: own_callback_def register_callbacks_def NewSensor_base_def)
  next
    case 2
    then obtain ev' cb where "opt = own_callback ev' cb" by (auto simp: is_own_def)
    then show ?case
      using 2 Cons.IH(2) [of "apply_sensor_option opt s"]
      by (simp add: own_callback_def register_callbacks_def)
  }
qed (simp_all add: NewSensor_base_def)

definition own_effects :: "nat list \<Rightarrow> 'a sensor_call \<Rightarrow> 'a sensor_effect list" where
  "own_effects ms call =
     invoke_callbacks ms call
       (sens_callbacks (apply_sensor_options (map Some own_options) (NewSensor_base '''')) (event_of call))"

lemma Invoke_NewSensor:
  "Invoke (NewSensor ident opts) call =
     Invoke (apply_sensor_options opts (NewSensor_base ident)) call @
     own_effects (sens_meters (NewSensor ident opts)) call"
  "sens_meters (NewSensor ident opts) = sens_meters (apply_sensor_options opts (NewSensor_base ident))"
  using apply_own_callbacks [OF own_options_are_own, of "apply_sensor_options opts (NewSensor_base ident)"]
  by (simp_all add: NewSensor_def decorateCallbacks_eq Invoke_def own_effects_def)

fun callbacks_for :: "sensor_event \<Rightarrow> 'a sensor_option list \<Rightarrow> 'a callback option list" where
  "callbacks_for ev [] = []"
| "callbacks_for ev (WithCallbacks e cbs # os) =
     (if e = ev then cbs @ callbacks_for ev os else callbacks_for ev os)"
| "callbacks_for ev (_ # os) = callbacks_for ev os"

lemma callbacks_for_own [simp]:
  "callbacks_for ev (own_callback e cb # os) = (if e = ev then Some cb # callbacks_for ev os else callbacks_for ev os)"
  by (simp add: own_callback_def)

lemma sens_callbacks_own:
  "list_all is_own os \<Longrightarrow>
   sens_callbacks (apply_sensor_options (map Some os) s) ev = sens_callbacks s ev @ callbacks_for ev os"
  by (induction os arbitrary: s) (auto simp: is_own_def own_callback_def register_callbacks_def)

lemma own_effects_eq:
  "own_effects ms call = invoke_callbacks ms call (callbacks_for (event_of call) own_options)"
  by (simp add: own_effects_def sens_callbacks_own [OF own_options_are_own] NewSensor_base_def)

lemmas decorations = own_options_def decorateCircuitBreakerCallbacks_def
  decorateHttpClientCallbacks_def decorateSurgeProtectorCallbacks_def decorateWireCallbacks_def
  decorateResisterCallbacks_def decorateLifecycleCallbacks_def

lemma own_effects_spec:
  assumes "distinct ms" and "k \<in> set ms"
  shows "meter_ops_of k (own_effects ms call) = sensor_spec call"
  unfolding own_effects_eq
  by (cases call)
     (simp_all add: decorations meter_ops_of_map [OF assms] meter_ops_of_activity [OF assms]
      incrementMeterCounters_def decrementMeterCounters_def setMetricTimestampValue_def split: option.split)

section \<open>One meter among the others\<close>

text \<open>
  What a run of effects does to the meter \<open>k\<close>: the operations addressed to it, in order, at
  the instant of the run.
\<close>

definition effect_ops :: "nat \<Rightarrow> (nat \<Rightarrow> 'a sensor_state) \<Rightarrow> 'a effect list \<Rightarrow> meter_op list" where
  "effect_ops k S es =
     concat (map (\<lambda>e. case e of
         LogCall l lv msg kvs \<Rightarrow> []
       | SensorCall s c \<Rightarrow> meter_ops_of k (Invoke (S s) c)
       | MeterIncrement m metric \<Rightarrow> (if m = k then [OpIncrementCount metric] else [])) es)"

lemma meter_run_append [simp]: "meter_run (xs @ ys) m = meter_run ys (meter_run xs m)"
  by (induction xs m rule: meter_run.induct) simp_all

lemma run_sensor_effects_at:
  "run_sensor_effects now es M k = meter_run (map (Pair now) (meter_ops_of k es)) (M k)"
proof (induction es arbitrary: M)
  case (Cons e es)
  then show ?case by (cases e) simp_all
qed simp

lemma run_effects_at:
  "run_effects now S es M k = meter_run (map (Pair now) (effect_ops k S es)) (M k)"
proof (induction es arbitrary: M)
  case (Cons e es)
  then show ?case by (cases e) (simp_all add: effect_ops_def run_sensor_effects_at)
qed (simp add: effect_ops_def)

lemma effect_ops_append [simp]: "effect_ops k S (xs @ ys) = effect_ops k S xs @ effect_ops k S ys"
  by (simp add: effect_ops_def)

lemma effect_ops_log_calls [simp]: "effect_ops k S (log_calls wants ls level msg kvs) = []"
  by (simp add: log_calls_eq effect_ops_def)

lemma effect_ops_simps [simp]:
  "effect_ops k S [] = []"
  "effect_ops k S (SensorCall s c # es) = meter_ops_of k (Invoke (S s) c) @ effect_ops k S es"
  by (simp_all add: effect_ops_def)

text \<open>
  The sensor \<open>s\<close> reports to the meter \<open>k\<close> as a new sensor does whose user callbacks leave
  that meter alone; the sensor \<open>s\<close> of a component is the only one of its sensors that does.
\<close>

definition reports_to :: "(nat \<Rightarrow> 'a sensor_state) \<Rightarrow> nat \<Rightarrow> nat \<Rightarrow> bool" where
  "reports_to S s k \<longleftrightarrow> (\<forall>c. meter_ops_of k (Invoke (S s) c) = sensor_spec c)"

definition silent_for :: "(nat \<Rightarrow> 'a sensor_state) \<Rightarrow> nat \<Rightarrow> nat \<Rightarrow> bool" where
  "silent_for S s k \<longleftrightarrow> (\<forall>c. meter_ops_of k (Invoke (S s) c) = [])"

definition watched_by :: "(nat \<Rightarrow> 'a sensor_state) \<Rightarrow> sensor list \<Rightarrow> nat \<Rightarrow> bool" where
  "watched_by S ss k \<longleftrightarrow>
     (\<exists>as s bs. ss = as @ s # bs \<and> reports_to S (sensor_id s) k \<and>
        (\<forall>x \<in> set (as @ bs). silent_for S (sensor_id x) k))"

lemma silent_calls: "\<forall>x \<in> set ss. silent_for S (sensor_id x) k \<Longrightarrow> effect_ops k S (sensor_calls ss c) = []"
  by (induction ss) (auto simp: effect_ops_def sensor_calls_def silent_for_def)

lemma watched_calls:
  assumes "watched_by S ss k"
  shows "effect_ops k S (sensor_calls ss c) = sensor_spec c"
proof -
  obtain as s bs where ss: "ss = as @ s # bs" "reports_to S (sensor_id s) k"
    "\<forall>x \<in> set as. silent_for S (sensor_id x) k" "\<forall>x \<in> set bs. silent_for S (sensor_id x) k"
    using assms by (auto simp: watched_by_def)
  have "sensor_calls ss c = sensor_calls as c @ SensorCall (sensor_id s) c # sensor_calls bs c"
    by (simp add: ss sensor_calls_def)
  with silent_calls [OF ss(3), of c] silent_calls [OF ss(4), of c] ss(2) show ?thesis
    by (simp add: reports_to_def)
qed

lemma new_sensor_reports:
  assumes S: "S s = NewSensor ident opts"
    and ms: "distinct (sens_meters (S s))" "k \<in> set (sens_meters (S s))"
    and users: "\<And>c. meter_ops_of k (Invoke (apply_sensor_options opts (NewSensor_base ident)) c) = []"
  shows "reports_to S s k"
  using ms users unfolding reports_to_def S
  by (simp add: Invoke_NewSensor(1) own_effects_spec)

section \<open>Properties of the sensor\<close>

text \<open>
  on every event a new sensor first runs the callbacks its options registered, in the
  order they were registered and without the nil ones, and then its own, which make on each
  attached meter exactly the operations of \<open>sensor_spec\<close>, those of the other meters aside.
\<close>

theorem own_callbacks_follow_the_users:
  assumes "distinct (sens_meters (NewSensor ident opts))" and "k \<in> set (sens_meters (NewSensor ident opts))"
  shows "\<exists>own. Invoke (NewSensor ident opts) call =
      concat (map (\<lambda>cb. cb (sens_meters (NewSensor ident opts)) call)
        (nonnil (sens_callbacks (apply_sensor_options opts (NewSensor_base ident)) (event_of call)))) @ own \<and>
    meter_ops_of k own = sensor_spec call"
proof (intro exI conjI)
  have i: "invoke_callbacks ms c cbs = concat (map (\<lambda>cb. cb ms c) (nonnil cbs))"
    for ms and c :: "'a sensor_call" and cbs
    by (induction ms c cbs rule: invoke_callbacks.induct) simp_all
  show "Invoke (NewSensor ident opts) call =
      concat (map (\<lambda>cb. cb (sens_meters (NewSensor ident opts)) call)
        (nonnil (sens_callbacks (apply_sensor_options opts (NewSensor_base ident)) (event_of call)))) @
      own_effects (sens_meters (NewSensor ident opts)) call"
    unfolding Invoke_NewSensor(1) by (simp add: Invoke_NewSensor(2) Invoke_def i)
qed (rule own_effects_spec [OF assms])

definition noting_callback :: "nat \<Rightarrow> 'a callback" where
  "noting_callback u = (\<lambda>ms c. [UserCallback u c])"

definition sample_reporting_sensor :: "'a sensor_state" where
  "sample_reporting_sensor = NewSensor ''s1''
     [Some (SensorWithMeter [Some 7, None]), None,
      Some (WithCallbacks OnCancel [None, Some (noting_callback 1), Some (noting_callback 2)])]"

lemma sample_sensor_meters [simp]: "sens_meters sample_reporting_sensor = [7]"
  by (simp add: sample_reporting_sensor_def Invoke_NewSensor(2) sens_ConnectMeter_def register_callbacks_def NewSensor_base_def)

theorem own_callbacks_follow_the_users_witness:
  "\<exists>own. Invoke sample_reporting_sensor (InvokeOnCancel empty_metadata (5 :: nat)) =
      [UserCallback 1 (InvokeOnCancel empty_metadata 5), UserCallback 2 (InvokeOnCancel empty_metadata 5)] @ own \<and>
    meter_ops_of 7 own = [OpIncrementCount MetricWireElementSubmitCancelCount]"
  using own_callbacks_follow_the_users [where k = 7 and call = "InvokeOnCancel empty_metadata (5 :: nat)",
    of "''s1''" "[Some (SensorWithMeter [Some 7, None]), None,
      Some (WithCallbacks OnCancel [None, Some (noting_callback 1), Some (noting_callback 2)])]",
    folded sample_reporting_sensor_def]
  by (simp add: sens_ConnectMeter_def register_callbacks_def NewSensor_base_def noting_callback_def)

lemma sample_reporting_sensor_reports:
  assumes "S s = sample_reporting_sensor"
  shows "reports_to S s 7"
proof (rule new_sensor_reports)
  show "S s = NewSensor ''s1'' [Some (SensorWithMeter [Some 7, None]), None,
      Some (WithCallbacks OnCancel [None, Some (noting_callback 1), Some (noting_callback 2)])]"
    using assms by (simp add: sample_reporting_sensor_def)
  fix c :: "'a sensor_call"
  show "meter_ops_of 7 (Invoke (apply_sensor_options [Some (SensorWithMeter [Some 7, None]), None,
      Some (WithCallbacks OnCancel [None, Some (noting_callback 1), Some (noting_callback 2)])]
      (NewSensor_base ''s1'')) c) = []"
    by (simp add: Invoke_def sens_ConnectMeter_def register_callbacks_def NewSensor_base_def noting_callback_def)
qed (use assms in simp_all)


end
