(* ===== verification/Metering.thy ===== *)
theory Metering
  imports Sensor Circuit_Breaker Resister
begin

text \<open>
  Components, sensor and meter together: the calls that a resister, a circuit breaker or a
  wire makes on its sensors, run through a sensor that reports to a meter, and what the
  meter's figures then say of the component.
\<close>

section \<open>Counts after a run of effects\<close>

lemma run_effects_counts:
  assumes "meter_inv (M k)"
  shows "meter_inv (run_effects now S es M k) \<and>
    GetMetricCount (run_effects now S es M k) = count_spec_run (effect_ops k S es) (GetMetricCount (M k))"
  using meter_run_counts [OF assms, of "map (Pair now) (effect_ops k S es)"]
  by (simp add: run_effects_at o_def)

lemma count_spec_run_append [simp]: "count_spec_run (xs @ ys) c = count_spec_run ys (count_spec_run xs c)"
  by (induction xs c rule: count_spec_run.induct) simp_all

lemma set_count_simps [simp]:
  "n \<noteq> '''' \<Longrightarrow> set_count n v c n = v"
  "n' \<noteq> n \<Longrightarrow> set_count n v c n' = c n'"
  by (simp_all add: set_count_def)

section \<open>The resister's gauge\<close>

datatype res_op = ResPush nat | ResPop | ResDecay

fun res_do :: "res_op \<Rightarrow> 'a estore \<Rightarrow> resister \<Rightarrow> 'a estore \<times> resister \<times> 'a effect list" where
  "res_do (ResPush a) st r = snd (res_Push (Some a) st r)"
| "res_do ResPop st r = (st, snd (res_Pop st r))"
| "res_do ResDecay st r = res_DecayPriorities st r"

fun res_exec :: "res_op list \<Rightarrow> 'a estore \<Rightarrow> resister \<Rightarrow> 'a estore \<times> resister \<times> 'a effect list" where
  "res_exec [] st r = (st, r, [])"
| "res_exec (op # ops) st r =
     (let (st1, r1, e1) = res_do op st r; (st2, r2, e2) = res_exec ops st1 r1 in (st2, r2, e1 @ e2))"

lemma res_effects [simp]:
  assumes "watched_by S (res_sensors r) k"
  shows "effect_ops k S (notifyResisterQueued r d) =
      [OpIncrementCount MetricResisterElementQueuedCount,
       OpIncrementCount MetricResisterElementCurrentlyQueuedCount]"
    and "effect_ops k S (notifyResisterRequeued r d) = [OpIncrementCount MetricResisterElementRequeued]"
    and "effect_ops k S (notifyResisterDequeued r d) =
      [OpDecrementCount MetricResisterElementCurrentlyQueuedCount,
       OpIncrementCount MetricResisterElementDequeued]"
    and "effect_ops k S (notifyResisterEmpty r) = [OpIncrementCount MetricResisterClearedCount]"
    and "effect_ops k S (res_NotifyLoggers r lv msg kvs) = []"
  by (simp_all add: notifyResisterQueued_def notifyResisterRequeued_def notifyResisterDequeued_def
      notifyResisterEmpty_def res_NotifyLoggers_def watched_calls [OF assms])

text \<open>The gauge after a step: one up for a new element, one down for a popped one.\<close>

definition gauge_step :: "nat \<Rightarrow> nat \<Rightarrow> (string \<Rightarrow> 64 word) \<Rightarrow> (string \<Rightarrow> 64 word) \<Rightarrow> bool" where
  "gauge_step len len' c c' \<longleftrightarrow>
     c' MetricResisterElementCurrentlyQueuedCount =
       (if len < len' then c MetricResisterElementCurrentlyQueuedCount + 1
        else if len' < len
        then (if c MetricResisterElementCurrentlyQueuedCount = 0 then 0
              else c MetricResisterElementCurrentlyQueuedCount - 1)
        else c MetricResisterElementCurrentlyQueuedCount)"

lemma res_Push_effects:
  assumes "watched_by S (res_sensors r) k" and "res_Push (Some a) st r = (err, st', r', es)"
  shows "effect_ops k S es =
    (case indexByID r (elem_ID (st a)) of
       None \<Rightarrow> [OpIncrementCount MetricResisterElementQueuedCount,
                OpIncrementCount MetricResisterElementCurrentlyQueuedCount]
     | Some x \<Rightarrow> [OpIncrementCount MetricResisterElementRequeued])"
  using assms by (cases "indexByID r (elem_ID (st a))") (auto simp: res_Push_def Let_def)

lemma res_Push_length:
  assumes "index_ok st r" and "res_Push (Some a) st r = (err, st', r', es)"
  shows "res_Len r' = (if indexByID r (elem_ID (st a)) = None then Suc (res_Len r) else res_Len r)"
    and "res_sensors r' = res_sensors r"
proof -
  show "res_Len r' = (if indexByID r (elem_ID (st a)) = None then Suc (res_Len r) else res_Len r)"
  proof (cases "indexByID r (elem_ID (st a))")
    case None
    then show ?thesis
      using assms(2) arg_cong [OF pq.heap_Push_mset [of st "res_queue r" a], of size]
      by (auto simp: res_Push_def res_Len_def)
  next
    case (Some x)
    obtain i where "i < length (res_queue r)"
      "r' = r\<lparr>res_queue := heap_Fix (prio_less (push_store a st r)) (res_queue r) i\<rparr>"
      using res_Push_known [OF assms(1) Some] assms(2) by (metis fst_conv snd_conv)
    then show ?thesis
      using Some arg_cong [OF pq.heap_Fix_mset [of i "res_queue r" "push_store a st r"], of size]
      by (simp add: res_Len_def)
  qed
  show "res_sensors r' = res_sensors r"
    using assms(2) by (auto simp: res_Push_def Let_def split: option.splits)
qed

lemma res_Pop_step:
  assumes inv: "res_inv st r" and w: "watched_by S (res_sensors r) k" and ne: "res_queue r \<noteq> []"
    and "res_Pop st r = (x, r', es)"
  shows "res_inv st r' \<and> res_sensors r' = res_sensors r \<and> res_Len r = Suc (res_Len r') \<and>
    (\<exists>ops. effect_ops k S es = [OpDecrementCount MetricResisterElementCurrentlyQueuedCount,
        OpIncrementCount MetricResisterElementDequeued] @ ops \<and>
      set ops \<subseteq> {OpIncrementCount MetricResisterClearedCount})"
proof -
  obtain a r1 es1 where p: "res_Pop st r = (Some a, r1, es1)"
    "mset (res_queue r) = add_mset a (mset (res_queue r1))" "res_inv st r1"
    by (rule res_Pop_Some [OF inv ne])
  have "r1 = r'" "es1 = es" using p(1) assms(4) by auto
  moreover have "res_Len r = Suc (res_Len r1)"
    using arg_cong [OF p(2), of size] by (simp add: res_Len_def)
  moreover have "res_sensors r' = res_sensors r"
    using assms(4) by (auto simp: res_Pop_def Let_def split: option.splits prod.splits)
  moreover have "\<exists>ops. effect_ops k S es = [OpDecrementCount MetricResisterElementCurrentlyQueuedCount,
        OpIncrementCount MetricResisterElementDequeued] @ ops \<and>
      set ops \<subseteq> {OpIncrementCount MetricResisterClearedCount}"
    using assms(4) w p(1) by (auto simp: res_Pop_def Let_def split: option.splits prod.splits if_splits)
  ultimately show ?thesis using p(3) by simp
qed

lemma res_Decay_step:
  assumes inv: "res_inv st r" and "res_DecayPriorities st r = (st', r', es)"
    and w: "watched_by S (res_sensors r) k"
  shows "res_inv st' r' \<and> res_sensors r' = res_sensors r \<and> res_Len r' = res_Len r \<and> effect_ops k S es = []"
proof -
  have "res_inv st' r'" using res_Decay_inv [OF inv] assms(2) by simp
  moreover have "mset (res_queue r') = mset (res_queue r)"
    using assms(2) by (auto simp: res_DecayPriorities_def case_prod_beta Let_def heap_Init_mset)
  from arg_cong [OF this, of size] have "res_Len r' = res_Len r" by (simp add: res_Len_def)
  ultimately show ?thesis
    using assms(2) by (auto simp: res_DecayPriorities_def case_prod_beta Let_def res_NotifyLoggers_def)
qed

lemma cleared_keeps_gauge:
  "set ops \<subseteq> {OpIncrementCount MetricResisterClearedCount} \<Longrightarrow>
   count_spec_run ops c MetricResisterElementCurrentlyQueuedCount = c MetricResisterElementCurrentlyQueuedCount"
  by (induction ops arbitrary: c) auto

lemma res_do_step:
  assumes inv: "res_inv st r" and w: "watched_by S (res_sensors r) k"
    and step: "res_do op st r = (st', r', es)"
  shows "res_inv st' r' \<and> res_sensors r' = res_sensors r \<and> res_Len r' \<le> Suc (res_Len r) \<and>
    gauge_step (res_Len r) (res_Len r') c (count_spec_run (effect_ops k S es) c)"
proof (cases op)
  case (ResPush a)
  then obtain err where p: "res_Push (Some a) st r = (err, st', r', es)"
    using step by (cases "res_Push (Some a) st r") simp
  have ok: "index_ok st r" using inv by (simp add: res_inv_def)
  have "res_inv st' r'" using res_Push_inv [OF inv, of a st] p res_Push_store [of a st r] by simp
  with res_Push_length [OF ok p] res_Push_effects [OF w p] show ?thesis
    by (auto simp: gauge_step_def)
next
  case ResPop
  show ?thesis
  proof (cases "res_queue r = []")
    case True
    then show ?thesis using step ResPop inv by (auto simp: res_Pop_empty gauge_step_def)
  next
    case False
    obtain x where p: "res_Pop st r = (x, r', es)" and st: "st' = st" using step ResPop by (cases "res_Pop st r") auto
    show ?thesis
      using res_Pop_step [OF inv w False p] cleared_keeps_gauge by (auto simp: st gauge_step_def)
  qed
next
  case ResDecay
  with res_Decay_step [OF inv _ w] step show ?thesis by (auto simp: gauge_step_def)
qed

lemma gauge_step_exact:
  assumes "gauge_step n n' c c'" and "n' \<le> Suc n" and "n \<le> Suc n'" and "n < 2 ^ 64"
    and "c MetricResisterElementCurrentlyQueuedCount = of_nat n"
  shows "c' MetricResisterElementCurrentlyQueuedCount = of_nat n'"
proof -
  consider "n' = Suc n" | "n' = n" | "n = Suc n'" using assms(2,3) by linarith
  then show ?thesis
  proof cases
    case 3
    have "\<not> 2 ^ 64 dvd n" using 3 assms(4) by (intro nat_dvd_not_less) simp_all
    then have "(of_nat n :: 64 word) \<noteq> 0" by (simp add: word_of_nat_eq_0_iff)
    then show ?thesis using assms(1,5) 3 by (simp add: gauge_step_def)
  qed (use assms(1,5) in \<open>simp_all add: gauge_step_def\<close>)
qed

lemma res_do_shrink: "res_inv st r \<Longrightarrow> res_do op st r = (st', r', es) \<Longrightarrow> res_Len r \<le> Suc (res_Len r')"
proof (cases op)
  case (ResPush a)
  assume a: "res_inv st r" "res_do op st r = (st', r', es)"
  then obtain err where "res_Push (Some a) st r = (err, st', r', es)"
    using ResPush by (cases "res_Push (Some a) st r") simp
  then show ?thesis using res_Push_length(1) a(1) by (fastforce simp: res_inv_def split: if_splits)
next
  case ResPop
  assume a: "res_inv st r" "res_do op st r = (st', r', es)"
  show ?thesis
  proof (cases "res_queue r = []")
    case False
    obtain b r1 es1 where p: "res_Pop st r = (Some b, r1, es1)"
      "mset (res_queue r) = add_mset b (mset (res_queue r1))"
      by (rule res_Pop_Some [OF a(1) False])
    from arg_cong [OF p(2), of size] have "length (res_queue r) = Suc (length (res_queue r1))" by simp
    then show ?thesis using p(1) a(2) ResPop by (simp add: res_Len_def)
  qed (simp add: res_Len_def)
next
  case ResDecay
  assume a: "res_inv st r" "res_do op st r = (st', r', es)"
  then have "mset (res_queue r') = mset (res_queue r)"
    using ResDecay by (auto simp: res_DecayPriorities_def case_prod_beta Let_def heap_Init_mset)
  from arg_cong [OF this, of size] show ?thesis by (simp add: res_Len_def)
qed

lemma res_exec_gauge:
  assumes "res_inv st r" and "watched_by S (res_sensors r) k"
    and "c MetricResisterElementCurrentlyQueuedCount = of_nat (res_Len r)"
    and "res_Len r + length ops < 2 ^ 64" and "res_exec ops st r = (st', r', es)"
  shows "count_spec_run (effect_ops k S es) c MetricResisterElementCurrentlyQueuedCount = of_nat (res_Len r')"
  using assms
proof (induction ops arbitrary: st r c es)
  case (Cons op ops)
  obtain st1 r1 e1 where 1: "res_do op st r = (st1, r1, e1)" by (cases "res_do op st r")
  obtain e2 where 2: "res_exec ops st1 r1 = (st', r', e2)" and es: "es = e1 @ e2"
    using Cons.prems(5) 1 by (auto split: prod.splits)
  note step = res_do_step [OF Cons.prems(1,2) 1, of c]
  have "count_spec_run (effect_ops k S e1) c MetricResisterElementCurrentlyQueuedCount = of_nat (res_Len r1)"
    using step res_do_shrink [OF Cons.prems(1) 1] Cons.prems(3,4)
    by (intro gauge_step_exact [of "res_Len r" "res_Len r1" c]) auto
  with Cons.IH [of st1 r1 "count_spec_run (effect_ops k S e1) c" e2] step 2 Cons.prems(2,4)
  show ?case by (simp add: es)
qed simp

text \<open>
  C22: the gauge of currently queued elements is the length of the queue. Through any sequence
  of pushes (of new and of known elements), pops (also of an empty queue) and decays on a
  resister whose sensor reports to the meter, starting from agreement.
\<close>

theorem resister_gauge_tracks_queue:
  assumes "res_inv st r" and "watched_by S (res_sensors r) k" and "meter_inv (M k)"
    and "GetMetricCount (M k) MetricResisterElementCurrentlyQueuedCount = of_nat (res_Len r)"
    and "res_Len r + length ops < 2 ^ 64" and "res_exec ops st r = (st', r', es)"
  shows "GetMetricCount (run_effects now S es M k) MetricResisterElementCurrentlyQueuedCount =
    of_nat (res_Len r')"
  using res_exec_gauge [OF assms(1,2) _ assms(5,6), of "GetMetricCount (M k)"] assms(4)
    run_effects_counts [of M k now S es] assms(3) by simp

definition sample_sensor_ref :: sensor where
  "sample_sensor_ref = \<lparr>sensor_id = 1, sensor_metadata = empty_metadata, GetMeters = [7]\<rparr>"

lemma sample_watched: "watched_by (\<lambda>_. sample_reporting_sensor) [sample_sensor_ref] 7"
  unfolding watched_by_def using sample_reporting_sensor_reports by fastforce

definition fresh_meter :: meter where
  "fresh_meter = initializeMetrics 0 (NewMeter_base 0)"

lemma fresh_meter_ok: "meter_inv fresh_meter" "GetMetricCount fresh_meter = (\<lambda>_. 0)"
  by (simp_all add: fresh_meter_def initializeMetrics_ok)

theorem resister_gauge_tracks_queue_witness:
  "let st = sample_store 0;
       r = NewResister ''h'' [Some (Res_WithSensor [Some sample_sensor_ref])];
       (st', r', es) = res_exec [ResPush 4, ResPush 9, ResPush 4, ResPop] st r
   in GetMetricCount (run_effects 5 (\<lambda>_. sample_reporting_sensor) es (\<lambda>_. fresh_meter) 7)
        MetricResisterElementCurrentlyQueuedCount = of_nat (res_Len r')"
proof -
  let ?r = "NewResister ''h'' [Some (Res_WithSensor [Some sample_sensor_ref])]"
  have s: "res_sensors ?r = [sample_sensor_ref]"
    by (simp add: NewResister_def NewResister_base_def res_ConnectSensor_def)
  have inv: "res_inv (sample_store 0) ?r" "res_Len ?r = 0"
    by (auto simp: NewResister_def NewResister_base_def res_ConnectSensor_def res_inv_def index_ok_def
        is_heap_def heap_from_def res_Len_def)
  obtain st' r' es where e: "res_exec [ResPush 4, ResPush 9, ResPush 4, ResPop] (sample_store 0) ?r = (st', r', es)"
    by (cases "res_exec [ResPush 4, ResPush 9, ResPush 4, ResPop] (sample_store 0) ?r")
  show ?thesis
    unfolding Let_def e prod.case
    by (rule resister_gauge_tracks_queue [OF inv(1) _ _ _ _ e])
       (simp_all add: s sample_watched fresh_meter_ok inv(2))
qed


section \<open>The circuit breaker's gauges\<close>

text \<open>
  After a step: the gauge of tripped breakers follows the breaker's state, and every trip
  counts a running component that no event ever takes off again.
\<close>

definition breaker_figures ::
  "circuit_breaker \<Rightarrow> circuit_breaker \<Rightarrow> (string \<Rightarrow> 64 word) \<Rightarrow> (string \<Rightarrow> 64 word) \<Rightarrow> bool" where
  "breaker_figures cb cb' c c' \<longleftrightarrow>
     (c MetricCircuitBreakerCurrentTripCount = (if cb_allowed cb then 0 else 1) \<longrightarrow>
      c' MetricCircuitBreakerCurrentTripCount = (if cb_allowed cb' then 0 else 1)) \<and>
     c' MetricComponentRunningCount - c MetricComponentRunningCount =
       c' MetricCircuitBreakerTripCount - c MetricCircuitBreakerTripCount"

lemma breaker_figures_refl: "breaker_figures cb cb c c"
  by (simp add: breaker_figures_def)

lemma breaker_figures_trans:
  "breaker_figures a b c d \<Longrightarrow> breaker_figures b e d f \<Longrightarrow> breaker_figures a e c f"
proof -
  assume 1: "breaker_figures a b c d" and 2: "breaker_figures b e d f"
  have "f MetricComponentRunningCount - c MetricComponentRunningCount =
    (f MetricComponentRunningCount - d MetricComponentRunningCount) +
    (d MetricComponentRunningCount - c MetricComponentRunningCount)" by simp
  also have "\<dots> = (f MetricCircuitBreakerTripCount - d MetricCircuitBreakerTripCount) +
    (d MetricCircuitBreakerTripCount - c MetricCircuitBreakerTripCount)"
    using 1 2 by (simp only: breaker_figures_def)
  also have "\<dots> = f MetricCircuitBreakerTripCount - c MetricCircuitBreakerTripCount" by simp
  finally show ?thesis using 1 2 by (simp add: breaker_figures_def)
qed

lemma cb_effects [simp]:
  assumes "watched_by S (cb_sensors cb) k"
  shows "effect_ops k S (notifyAllow cb) = []"
    and "effect_ops k S (notifyRecordError cb t) = []"
    and "effect_ops k S (notifyTrip cb t n) =
      [OpSetMetricTimestamp MetricCircuitBreakerLastTripTime t,
       OpSetMetricTimestamp MetricCircuitBreakerNextResetTime n,
       OpIncrementCount MetricComponentRunningCount,
       OpIncrementCount MetricCircuitBreakerCurrentTripCount,
       OpIncrementCount MetricCircuitBreakerTripCount]"
    and "effect_ops k S (notifyReset cb t) =
      [OpSetMetricTimestamp MetricCircuitBreakerLastResetTime t,
       OpDecrementCount MetricCircuitBreakerCurrentTripCount,
       OpIncrementCount MetricCircuitBreakerResetCount]"
    and "effect_ops k S (cb_NotifyLoggers cb lv msg kvs) = []"
  by (simp_all add: notifyAllow_def notifyRecordError_def notifyTrip_def notifyReset_def
      cb_NotifyLoggers_def watched_calls [OF assms])

lemma cb_do_figures:
  assumes "watched_by S (cb_sensors cb) k" and "cb_do opn now cb = (res, cb', es)"
  shows "cb_sensors cb' = cb_sensors cb \<and> breaker_figures cb cb' c (count_spec_run (effect_ops k S es) c)"
proof (cases opn)
  case OpAllow
  with assms show ?thesis
    by (auto simp: cb_Allow_def Let_def breaker_figures_def signalReset_def split: if_splits)
next
  case OpRecordError
  with assms show ?thesis
    by (auto simp: cb_RecordError_def Let_def breaker_figures_def split: if_splits)
next
  case OpReset
  with assms show ?thesis
    by (auto simp: cb_Reset_def Let_def breaker_figures_def signalReset_def split: if_splits)
next
  case OpTrip
  with assms show ?thesis
    by (auto simp: cb_Trip_def Let_def breaker_figures_def split: if_splits)
qed


lemma cb_exec_figures:
  fixes S :: "nat \<Rightarrow> 'a sensor_state"
  assumes "watched_by S (cb_sensors cb) k" and "cb_exec ops cb = (rs, cb', es)"
  shows "breaker_figures cb cb' c (count_spec_run (effect_ops k S es) c)"
  using assms
proof (induction ops arbitrary: cb c rs es)
  case (Cons e ops)
  obtain opn now where e: "e = (opn, now)" by force
  obtain r1 cb1 and e1 :: "'a effect list" where 1: "cb_do opn now cb = (r1, cb1, e1)"
    by (rule prod_cases3)
  obtain rs2 e2 where 2: "cb_exec ops cb1 = (rs2, cb', e2)" and es: "es = e1 @ e2"
    using Cons.prems(2) 1 by (auto simp: e split: prod.splits)
  note step = cb_do_figures [OF Cons.prems(1) 1, of c]
  from step Cons.prems(1) have "watched_by S (cb_sensors cb1) k" by simp
  from breaker_figures_trans [OF step [THEN conjunct2] Cons.IH [OF this 2]]
  show ?case by (simp add: es)
qed (simp add: breaker_figures_refl)

text \<open>
  for a circuit breaker whose sensor reports to a meter, the gauge of tripped breakers is
  one exactly while the breaker is open, through any sequence of calls. The gauge of running
  components, however, rises by one with every trip, and no call on the breaker ever lowers
  it.
\<close>

theorem breaker_gauges:
  assumes "watched_by S (cb_sensors cb) k" and "meter_inv (M k)"
    and "GetMetricCount (M k) MetricCircuitBreakerCurrentTripCount = (if cb_allowed cb then 0 else 1)"
    and "cb_exec ops cb = (rs, cb', es)"
  shows "GetMetricCount (run_effects now S es M k) MetricCircuitBreakerCurrentTripCount =
      (if cb_allowed cb' then 0 else 1) \<and>
    GetMetricCount (run_effects now S es M k) MetricComponentRunningCount -
        GetMetricCount (M k) MetricComponentRunningCount =
      GetMetricCount (run_effects now S es M k) MetricCircuitBreakerTripCount -
        GetMetricCount (M k) MetricCircuitBreakerTripCount"
  using cb_exec_figures [OF assms(1,4), of "GetMetricCount (M k)"] assms(3)
    run_effects_counts [of M k now S es] assms(2)
  by (simp add: breaker_figures_def)

theorem breaker_gauges_witness:
  "let cb = fst (cb_ConnectSensor [Some sample_sensor_ref] (NewCircuitBreaker_base ''h'' 1 10)
                 :: circuit_breaker \<times> nat effect list);
       (rs, cb', es) = cb_exec [(OpTrip, 100), (OpReset, 101)] cb;
       m = run_effects 5 (\<lambda>_. sample_reporting_sensor :: nat sensor_state) es (\<lambda>_. fresh_meter) 7
   in GetMetricCount m MetricCircuitBreakerCurrentTripCount = 0 \<and>
      GetMetricCount m MetricComponentRunningCount = GetMetricCount m MetricCircuitBreakerTripCount"
proof -
  define cb where "cb = fst (cb_ConnectSensor [Some sample_sensor_ref] (NewCircuitBreaker_base ''h'' 1 10)
                 :: circuit_breaker \<times> nat effect list)"
  define ops where "ops = [(OpTrip, 100 :: gotime), (OpReset, 101)]"
  obtain rs cb' and es :: "nat effect list" where e: "cb_exec ops cb = (rs, cb', es)"
    by (rule prod_cases3)
  have s: "cb_sensors cb = [sample_sensor_ref]" "cb_allowed cb"
    by (simp_all add: cb_def cb_ConnectSensor_def NewCircuitBreaker_base_def Let_def)
  have "cb' = cb_run ops cb" by (metis cb_exec_state e fst_conv snd_conv)
  then have a: "cb_allowed cb'" using s(2) by (simp add: ops_def signalReset_def cb_next.simps)
  have w: "watched_by (\<lambda>_. sample_reporting_sensor :: nat sensor_state) (cb_sensors cb) 7"
    by (simp add: s sample_watched)
  show ?thesis
    using breaker_gauges [OF w _ _ e, of "\<lambda>_. fresh_meter" 5] s a
    unfolding cb_def [symmetric] ops_def [symmetric]
    by (simp add: fresh_meter_ok e)
qed

section \<open>Totals\<close>

lemma spec_counts_wire:
  "count_spec_run (sensor_spec call) c MetricTotalProcessedCount =
     (if event_of call = OnElementProcessed \<or> event_of call = OnError then c MetricTotalProcessedCount + 1
      else c MetricTotalProcessedCount)"
  "count_spec_run (sensor_spec call) c MetricTotalTransformedCount =
     (if event_of call = OnElementProcessed then c MetricTotalTransformedCount + 1
      else c MetricTotalTransformedCount)"
  "count_spec_run (sensor_spec call) c MetricTransformationErrorPercentage =
     (if event_of call = OnError then c MetricTransformationErrorPercentage + 1
      else c MetricTransformationErrorPercentage)"
  "count_spec_run (sensor_spec call) c MetricTotalErrorCount =
     (if event_of call = OnError \<or> event_of call = OnHTTPClientError then c MetricTotalErrorCount + 1
      else c MetricTotalErrorCount)"
  "count_spec_run (sensor_spec call) c MetricTotalSubmittedCount =
     (if event_of call = OnSubmit then c MetricTotalSubmittedCount + 1 else c MetricTotalSubmittedCount)"
  by (cases call; simp add: running_metric_def)+

definition calls_on :: "nat \<Rightarrow> 'a sensor_call list \<Rightarrow> 'a effect list" where
  "calls_on s calls = map (SensorCall s) calls"

definition number_of :: "sensor_event \<Rightarrow> 'a sensor_call list \<Rightarrow> nat" where
  "number_of ev calls = length (filter (\<lambda>c. event_of c = ev) calls)"

lemma calls_on_simps [simp]:
  "calls_on s [] = []" "calls_on s (c # cs) = SensorCall s c # calls_on s cs"
  by (simp_all add: calls_on_def)

lemma number_of_simps [simp]:
  "number_of ev [] = 0"
  "number_of ev (c # cs) = (if event_of c = ev then Suc (number_of ev cs) else number_of ev cs)"
  by (simp_all add: number_of_def)

lemma calls_counts:
  assumes "reports_to S s k"
  shows "count_spec_run (effect_ops k S (calls_on s calls)) c MetricTotalProcessedCount =
      c MetricTotalProcessedCount + of_nat (number_of OnElementProcessed calls + number_of OnError calls)"
    and "count_spec_run (effect_ops k S (calls_on s calls)) c MetricTotalTransformedCount =
      c MetricTotalTransformedCount + of_nat (number_of OnElementProcessed calls)"
    and "count_spec_run (effect_ops k S (calls_on s calls)) c MetricTransformationErrorPercentage =
      c MetricTransformationErrorPercentage + of_nat (number_of OnError calls)"
    and "count_spec_run (effect_ops k S (calls_on s calls)) c MetricTotalErrorCount =
      c MetricTotalErrorCount + of_nat (number_of OnError calls + number_of OnHTTPClientError calls)"
    and "count_spec_run (effect_ops k S (calls_on s calls)) c MetricTotalSubmittedCount =
      c MetricTotalSubmittedCount + of_nat (number_of OnSubmit calls)"
proof (induction calls arbitrary: c)
  case (Cons call calls)
  have m: "meter_ops_of k (Invoke (S s) call) = sensor_spec call"
    using assms by (simp add: reports_to_def)
  { case 1 show ?case using Cons(1) by (simp add: m spec_counts_wire)
  next case 2 show ?case using Cons(2) by (simp add: m spec_counts_wire)
  next case 3 show ?case using Cons(3) by (simp add: m spec_counts_wire)
  next case 4 show ?case using Cons(4) by (simp add: m spec_counts_wire)
  next case 5 show ?case using Cons(5) by (simp add: m spec_counts_wire) }
qed simp_all

text \<open>
  whatever events reach the sensor, the processed elements are the transformed and the
  failed ones: the three figures stay in balance.
\<close>

theorem processed_is_transformed_plus_failed:
  assumes "reports_to S s k" and "meter_inv (M k)"
    and "GetMetricCount (M k) MetricTotalProcessedCount =
      GetMetricCount (M k) MetricTotalTransformedCount + GetMetricCount (M k) MetricTransformationErrorPercentage"
  shows "GetMetricCount (run_effects now S (calls_on s calls) M k) MetricTotalProcessedCount =
    GetMetricCount (run_effects now S (calls_on s calls) M k) MetricTotalTransformedCount +
    GetMetricCount (run_effects now S (calls_on s calls) M k) MetricTransformationErrorPercentage"
  using run_effects_counts [of M k now S "calls_on s calls"] assms(2,3) calls_counts [OF assms(1)]
  by simp

text \<open>
  the pending count of the final summary is the number of submitted elements less the
  processed ones and less the HTTP client's errors, in 64-bit arithmetic: errors that belong
  to no submitted element are subtracted too, and the figure wraps around below zero.
\<close>

theorem pending_subtracts_http_errors:
  assumes "reports_to S s k" and "meter_inv (M k)" and "GetMetricCount (M k) = (\<lambda>_. 0)"
  shows "fst (fst (printFinalProgress now (run_effects now S (calls_on s calls) M k))) =
    of_nat (number_of OnSubmit calls) -
    of_nat (number_of OnElementProcessed calls + number_of OnError calls + number_of OnHTTPClientError calls)"
  using run_effects_counts [of M k now S "calls_on s calls"] assms(2,3) calls_counts [OF assms(1)]
  by (simp add: printFinalProgress_def Let_def totalPending_def algebra_simps)

theorem processed_is_transformed_plus_failed_witness:
  "let calls = [InvokeOnSubmit empty_metadata (1 :: nat), InvokeOnSubmit empty_metadata 2,
                InvokeOnElementProcessed empty_metadata 1, InvokeOnError empty_metadata CtxErr 2];
       m = run_effects 5 (\<lambda>_. sample_reporting_sensor) (calls_on 1 calls) (\<lambda>_. fresh_meter) 7
   in GetMetricCount m MetricTotalProcessedCount =
        GetMetricCount m MetricTotalTransformedCount + GetMetricCount m MetricTransformationErrorPercentage"
  unfolding Let_def
  by (rule processed_is_transformed_plus_failed) (simp_all add: sample_reporting_sensor_reports fresh_meter_ok)

theorem pending_subtracts_http_errors_witness:
  "let calls = [InvokeOnSubmit empty_metadata (1 :: nat), InvokeOnElementProcessed empty_metadata 1,
                InvokeOnHTTPClientError empty_metadata CtxErr]
   in fst (fst (printFinalProgress 5 (run_effects 5 (\<lambda>_. sample_reporting_sensor) (calls_on 1 calls) (\<lambda>_. fresh_meter) 7))) =
        18446744073709551615"
proof -
  have "reports_to (\<lambda>_. sample_reporting_sensor :: nat sensor_state) 1 7" by (simp add: sample_reporting_sensor_reports)
  from pending_subtracts_http_errors [OF this, of "\<lambda>_. fresh_meter" 5
      "[InvokeOnSubmit empty_metadata (1 :: nat), InvokeOnElementProcessed empty_metadata 1,
        InvokeOnHTTPClientError empty_metadata CtxErr]"]
  show ?thesis unfolding Let_def by (simp add: fresh_meter_ok)
qed

section \<open>The gauges of running components\<close>

text \<open>
  The events when a stopped component is started again by a surge protector's reset: its own
  stop event, the restart event of the surge protector, its own start event.
\<close>

definition stop_restart_start :: "metadata \<Rightarrow> 'a sensor_call list" where
  "stop_restart_start c = [InvokeOnStop c, InvokeOnRestart c, InvokeOnStart c]"

text \<open>
  when a stopped component is started again on a reset, the gauge of its kind returns to
  what it was for a generator; for a wire the restart event takes the wire off a second time,
  and the gauge ends one below the number of running wires.
\<close>

theorem restart_undercounts_wires:
  assumes "reports_to S s k" and "meter_inv (M k)"
    and "meta_Type g = ''GENERATOR''" and "GetMetricCount (M k) MetricGeneratorRunningCount \<noteq> 0"
    and "meta_Type w = ''WIRE''" and "1 < GetMetricCount (M k) MetricWireRunningCount"
  shows "GetMetricCount (run_effects now S (calls_on s (stop_restart_start g)) M k) MetricGeneratorRunningCount =
      GetMetricCount (M k) MetricGeneratorRunningCount \<and>
    GetMetricCount (run_effects now S (calls_on s (stop_restart_start w)) M k) MetricWireRunningCount =
      GetMetricCount (M k) MetricWireRunningCount - 1"
proof -
  have m: "meter_ops_of k (Invoke (S s) call) = sensor_spec call" for call
    using assms(1) by (simp add: reports_to_def)
  have "GetMetricCount (M k) MetricWireRunningCount \<noteq> 0 \<and> GetMetricCount (M k) MetricWireRunningCount \<noteq> 1"
    using assms(6) by auto
  then show ?thesis
    using run_effects_counts [of M k now S "calls_on s (stop_restart_start g)"]
      run_effects_counts [of M k now S "calls_on s (stop_restart_start w)"] assms(2-5)
    by (simp add: stop_restart_start_def m running_metric_def)
qed


theorem restart_undercounts_wires_witness:
  "let m = SetMetricCount 0 MetricGeneratorRunningCount 2 (SetMetricCount 0 MetricWireRunningCount 3 fresh_meter);
       wire = \<lparr>meta_ID = ''w'', meta_Type = ''WIRE'', meta_Name = ''''\<rparr>
   in GetMetricCount (run_effects 5 (\<lambda>_. sample_reporting_sensor :: nat sensor_state)
        (calls_on 1 (stop_restart_start wire)) (\<lambda>_. m) 7) MetricWireRunningCount = 2"
proof -
  define m where "m = SetMetricCount 0 MetricGeneratorRunningCount 2
    (SetMetricCount 0 MetricWireRunningCount 3 fresh_meter)"
  let ?w = "\<lparr>meta_ID = ''w'', meta_Type = ''WIRE'', meta_Name = ''''\<rparr>"
  let ?g = "\<lparr>meta_ID = ''g'', meta_Type = ''GENERATOR'', meta_Name = ''''\<rparr>"
  have m: "meter_inv m" "GetMetricCount m MetricWireRunningCount = 3"
    "GetMetricCount m MetricGeneratorRunningCount = 2"
    by (simp_all add: m_def SetMetricCount_def with_counter_ok fresh_meter_ok)
  have "reports_to (\<lambda>_. sample_reporting_sensor :: nat sensor_state) 1 7" by (simp add: sample_reporting_sensor_reports)
  from restart_undercounts_wires [OF this, of "\<lambda>_. m" ?g ?w 5] m show ?thesis
    unfolding Let_def m_def [symmetric] by simp
qed


end
