(* ===== verification/Relay_Payload.thy ===== *)
theory Relay_Payload
  imports Go_Strings Telemetry
begin

text \<open>
  Payloads of the relays: the messages of the relay protocol (\<^verbatim>\<open>src/pkg/internal/relay\<close>), wrapping
  on the sending side (\<^verbatim>\<open>forwardrelay/payload.go\<close>, \<^verbatim>\<open>relaycodec/codec.go\<close>), unwrapping on the receiving
  side (\<^verbatim>\<open>receivingrelay/payload.go\<close>, \<^verbatim>\<open>crypto.go\<close>, \<^verbatim>\<open>compression.go\<close>, \<^verbatim>\<open>proto.go\<close>), and the passing through of
  payloads that are already wrapped. The encoders, the compression libraries and AES-GCM are the
  fields of \<open>relay_lib\<close>; \<open>lib_ok\<close> and \<open>carries\<close> state their documented contract.
\<close>

section \<open>Messages\<close>

record performance_options =
  UseCompression :: bool
  CompressionAlgorithm :: int

record security_options =
  sec_Enabled :: bool
  sec_Suite :: int

record message_metadata =
  md_Headers :: "string \<rightharpoonup> string"
  md_ContentType :: string
  md_Version :: "(int \<times> int) option"
  md_Performance :: "performance_options option"
  md_Security :: "security_options option"
  md_TraceId :: string

record error_info =
  ei_Code :: int
  ei_Message :: string
  ei_Details :: "string list"

record wrapped_payload =
  wp_Id :: string
  wp_Timestamp :: "gotime option"
  wp_Payload :: octets
  wp_Metadata :: "message_metadata option"
  wp_ErrorInfo :: "error_info option"
  wp_Seq :: nat
  wp_PayloadEncoding :: int
  wp_PayloadType :: string

record stream_open =
  so_StreamId :: string
  so_Defaults :: "message_metadata option"
  so_AckMode :: int
  so_AckEveryN :: nat
  so_MaxInFlight :: nat
  so_OmitPayloadMetadata :: bool

text \<open>An envelope holds one of three messages, or none.\<close>

datatype relay_envelope =
    EnvelopeOpen stream_open
  | EnvelopePayload wrapped_payload
  | EnvelopeClose string
  | EnvelopeEmpty

record stream_acknowledgment =
  ack_Success :: bool
  ack_Message :: string
  ack_StreamId :: string
  ack_Id :: string
  ack_Seq :: nat
  ack_Code :: int
  ack_Retryable :: bool
  ack_LastSeq :: nat
  ack_OkCount :: nat
  ack_ErrCount :: nat

abbreviation (input) ACK_MODE_UNSPECIFIED :: int where "ACK_MODE_UNSPECIFIED \<equiv> 0"
abbreviation (input) ACK_PER_MESSAGE :: int where "ACK_PER_MESSAGE \<equiv> 1"
abbreviation (input) ACK_BATCH :: int where "ACK_BATCH \<equiv> 2"
abbreviation (input) ACK_NONE :: int where "ACK_NONE \<equiv> 3"

record oauth2_options =
  AcceptJwt :: bool
  AcceptIntrospection :: bool
  Issuer :: string
  JwksUri :: string
  RequiredAudience :: "string list"
  RequiredScopes :: "string list"
  IntrospectionUrl :: string
  IntrospectionAuthType :: string
  IntrospectionClientId :: string
  IntrospectionClientSecret :: string
  IntrospectionBearerToken :: string
  ForwardBearerToken :: bool
  ForwardMetadataKey :: string
  JwksCacheSeconds :: int
  IntrospectionCacheSeconds :: int

record authentication_options =
  auth_Enabled :: bool
  auth_Mode :: int
  auth_Oauth2 :: "oauth2_options option"
  auth_Mtls :: "(string list \<times> string) option"

abbreviation (input) AUTH_NONE :: int where "AUTH_NONE \<equiv> 1"
abbreviation (input) AUTH_OAUTH2 :: int where "AUTH_OAUTH2 \<equiv> 2"

text \<open>The numbers of the enumerations; a peer may send others.\<close>

abbreviation (input) COMPRESS_NONE :: int where "COMPRESS_NONE \<equiv> 0"
abbreviation (input) COMPRESS_DEFLATE :: int where "COMPRESS_DEFLATE \<equiv> 1"
abbreviation (input) COMPRESS_LZ4 :: int where "COMPRESS_LZ4 \<equiv> 5"
abbreviation (input) ENCRYPT_AES_GCM :: int where "ENCRYPT_AES_GCM \<equiv> 1"
abbreviation (input) PAYLOAD_ENCODING_UNSPECIFIED :: int where "PAYLOAD_ENCODING_UNSPECIFIED \<equiv> 0"
abbreviation (input) PAYLOAD_ENCODING_GOB :: int where "PAYLOAD_ENCODING_GOB \<equiv> 1"
abbreviation (input) PAYLOAD_ENCODING_PROTO :: int where "PAYLOAD_ENCODING_PROTO \<equiv> 2"

section \<open>Shared by the relays\<close>

record tls_config =
  UseTLS :: bool
  CertFile :: string
  KeyFile :: string
  CAFile :: string
  SubjectAlternativeName :: string
  MinTLSVersion :: nat
  MaxTLSVersion :: nat

text \<open>\<^verbatim>\<open>NotifyLoggers\<close> asks \<^verbatim>\<open>IsLevelEnabled\<close>, when the logger has it, and compares levels as well.\<close>

definition logger_wants_both :: "loglevel \<Rightarrow> logger \<Rightarrow> bool" where
  "logger_wants_both level l \<longleftrightarrow>
     (case IsLevelEnabled l of Some enabled \<Rightarrow> enabled level | None \<Rightarrow> True) \<and> \<not> GetLevel l > level"

section \<open>Parameters\<close>

text \<open>
  How the type parameter stands to \<^verbatim>\<open>relay.WrappedPayload\<close>: it is that type, a pointer to it
  (\<open>None\<close> is the nil pointer), or neither.
\<close>

datatype 'a pass_view =
    IsWrapped "'a \<Rightarrow> wrapped_payload" "wrapped_payload \<Rightarrow> 'a"
  | IsPointer "'a \<Rightarrow> wrapped_payload option" "wrapped_payload \<Rightarrow> 'a"
  | IsOther

text \<open>
  The decoders fill a variable: they take its value and return the value they leave with an
  error or none. \<open>proto_name\<close> is the full name of the message type when the type parameter is a
  protobuf message.
\<close>

record 'a relay_lib =
  gob_Encode :: "'a \<Rightarrow> gerr + octets"
  gob_Decode :: "octets \<Rightarrow> 'a \<Rightarrow> 'a \<times> gerr option"
  json_Marshal :: "'a \<Rightarrow> gerr + octets"
  json_Unmarshal :: "octets \<Rightarrow> 'a \<Rightarrow> 'a \<times> gerr option"
  proto_name :: "string option"
  proto_Marshal :: "'a \<Rightarrow> gerr + octets"
  proto_Unmarshal :: "octets \<Rightarrow> 'a \<Rightarrow> 'a \<times> gerr option"
  as_octets :: "('a \<Rightarrow> octets) option"   \<comment> \<open>when the type parameter is \<open>[]byte\<close>\<close>
  lib_compress :: "int \<Rightarrow> octets \<Rightarrow> gerr + octets"
  lib_decompress :: "int \<Rightarrow> octets \<Rightarrow> gerr + octets"
  gcm_Seal :: "octets \<Rightarrow> octets \<Rightarrow> octets \<Rightarrow> octets"
  gcm_Open :: "octets \<Rightarrow> octets \<Rightarrow> octets \<Rightarrow> gerr + octets"
  pass_as :: "'a pass_view"

definition isProtoTarget :: "'a relay_lib \<Rightarrow> bool" where
  "isProtoTarget lib \<longleftrightarrow> proto_name lib \<noteq> None"

section \<open>Wrapping\<close>

definition aes_gcm_on :: "security_options option \<Rightarrow> bool" where
  "aes_gcm_on secOpts =
     (case secOpts of None \<Rightarrow> False | Some opts \<Rightarrow> sec_Enabled opts \<and> sec_Suite opts = ENCRYPT_AES_GCM)"

definition validateEncryptionRequirement :: "security_options option \<Rightarrow> string \<Rightarrow> gerr option" where
  "validateEncryptionRequirement secOpts key =
     (if aes_gcm_on secOpts \<and> key = '''' then Some (Err ''encryption enabled but encryption key is empty'')
      else if key = '''' then None
      else if \<not> aes_gcm_on secOpts then Some (Err ''encryption key provided but AES-GCM is not enabled'')
      else None)"

definition compressData :: "'a relay_lib \<Rightarrow> octets \<Rightarrow> int \<Rightarrow> gerr + octets" where
  "compressData lib d algorithm =
     (if COMPRESS_DEFLATE \<le> algorithm \<and> algorithm \<le> COMPRESS_LZ4 then lib_compress lib algorithm d else Inr d)"

definition aes_key_length :: "nat \<Rightarrow> bool" where
  "aes_key_length n \<longleftrightarrow> n \<in> {16, 24, 32}"

definition normalizeAESKey :: "string \<Rightarrow> gerr + octets" where
  "normalizeAESKey s =
     (let k = bytes_of s; bad = Inl (Err ''invalid AES key length'');
          b64 = (case base64_DecodeString s of
                   Some b \<Rightarrow> if aes_key_length (length b) then Inr b else bad
                 | None \<Rightarrow> bad)
      in if aes_key_length (length k) then Inr k
         else case hex_DecodeString s of
                Some b \<Rightarrow> if aes_key_length (length b) then Inr b else b64
              | None \<Rightarrow> b64)"

text \<open>\<^verbatim>\<open>aes.NewCipher\<close> takes keys of 16, 24 and 32 bytes only.\<close>

definition aes_NewCipher :: "octets \<Rightarrow> gerr option" where
  "aes_NewCipher k = (if aes_key_length (length k) then None else Some (Err ''crypto/aes: invalid key size''))"

text \<open>The nonce, or the error of the random source, is an argument; GCM nonces have 12 bytes.\<close>

definition encryptData ::
  "'a relay_lib \<Rightarrow> gerr + octets \<Rightarrow> octets \<Rightarrow> security_options option \<Rightarrow> string \<Rightarrow> gerr + octets" where
  "encryptData lib rnd d secOpts key =
     (if \<not> aes_gcm_on secOpts then Inr d
      else case normalizeAESKey key of
        Inl err \<Rightarrow> Inl err
      | Inr aesKey \<Rightarrow>
        (case aes_NewCipher aesKey of
           Some err \<Rightarrow> Inl err
         | None \<Rightarrow>
           (case rnd of
              Inl err \<Rightarrow> Inl err
            | Inr nonce \<Rightarrow> Inr (nonce @ gcm_Seal lib aesKey nonce d))))"

definition default_performance :: performance_options where
  "default_performance = \<lparr>UseCompression = False, CompressionAlgorithm = COMPRESS_NONE\<rparr>"

text \<open>Compression and encryption of the encoded value, the same in both packages.\<close>

definition seal_payload ::
  "'a relay_lib \<Rightarrow> gerr + octets \<Rightarrow> octets \<Rightarrow> performance_options \<Rightarrow> security_options option \<Rightarrow> string \<Rightarrow>
   gerr + octets" where
  "seal_payload lib rnd d perf secOpts key =
     (case (if UseCompression perf
            then (case compressData lib d (CompressionAlgorithm perf) of
                    Inl err \<Rightarrow> Inl (Wrapped ''compression failed'' err)
                  | Inr c \<Rightarrow> Inr c)
            else Inr d) of
        Inl err \<Rightarrow> Inl err
      | Inr c \<Rightarrow>
        if aes_gcm_on secOpts
        then (case encryptData lib rnd c secOpts key of
                Inl err \<Rightarrow> Inl (Wrapped ''encryption failed'' err)
              | Inr e \<Rightarrow> Inr e)
        else Inr c)"

text \<open>\<^verbatim>\<open>forwardrelay.WrapPayload\<close> at time \<open>now\<close>, whose text is \<open>stamp\<close>.\<close>

definition WrapPayload ::
  "'a relay_lib \<Rightarrow> gerr + octets \<Rightarrow> gotime \<Rightarrow> string \<Rightarrow> 'a \<Rightarrow> performance_options option \<Rightarrow>
   security_options option \<Rightarrow> string \<Rightarrow> gerr + wrapped_payload" where
  "WrapPayload lib rnd now stamp d perfOpts secOpts key =
     (let perf = (case perfOpts of None \<Rightarrow> default_performance | Some p \<Rightarrow> p) in
      case validateEncryptionRequirement secOpts key of
        Some err \<Rightarrow> Inl err
      | None \<Rightarrow>
        (case gob_Encode lib d of
           Inl err \<Rightarrow> Inl (Wrapped ''gob encode failed'' err)
         | Inr b \<Rightarrow>
           (case seal_payload lib rnd b perf secOpts key of
              Inl err \<Rightarrow> Inl err
            | Inr p \<Rightarrow>
              Inr \<lparr>wp_Id = stamp, wp_Timestamp = Some now, wp_Payload = p,
                   wp_Metadata = Some \<lparr>md_Headers = [''source'' \<mapsto> ''go''],
                     md_ContentType = ''application/octet-stream'', md_Version = Some (1, 0),
                     md_Performance = Some perf, md_Security = secOpts, md_TraceId = ''''\<rparr>,
                   wp_ErrorInfo = None, wp_Seq = 0, wp_PayloadEncoding = PAYLOAD_ENCODING_UNSPECIFIED,
                   wp_PayloadType = ''''\<rparr>)))"

text \<open>\<^verbatim>\<open>relaycodec.EncodePayload\<close>: the bytes, the content type and the encoding.\<close>

definition EncodePayload :: "'a relay_lib \<Rightarrow> 'a \<Rightarrow> string \<Rightarrow> gerr + octets \<times> string \<times> int" where
  "EncodePayload lib d fmt =
     (let f = ToLower fmt in
      if f = ''json'' then
        map_sum id (\<lambda>b. (b, ''application/json'', PAYLOAD_ENCODING_UNSPECIFIED)) (json_Marshal lib d)
      else if f = ''proto'' then
        (if proto_name lib = None then Inl (Err ''proto format requires proto.Message'')
         else map_sum id (\<lambda>b. (b, ''application/protobuf'', PAYLOAD_ENCODING_PROTO)) (proto_Marshal lib d))
      else if f = ''bytes'' then
        (case as_octets lib of
           None \<Rightarrow> Inl (Err ''bytes format requires []byte'')
         | Some octets \<Rightarrow> Inr (octets d, ''application/octet-stream'', PAYLOAD_ENCODING_UNSPECIFIED))
      else if f = ''gob'' \<or> f = '''' then
        map_sum id (\<lambda>b. (b, ''application/octet-stream'', PAYLOAD_ENCODING_GOB)) (gob_Encode lib d)
      else Inl (Err ''unsupported format''))"

definition codec_WrapPayload ::
  "'a relay_lib \<Rightarrow> gerr + octets \<Rightarrow> gotime \<Rightarrow> string \<Rightarrow> 'a \<Rightarrow> string \<Rightarrow> string \<Rightarrow> performance_options option \<Rightarrow>
   security_options option \<Rightarrow> string \<Rightarrow> (string \<rightharpoonup> string) \<Rightarrow> gerr + wrapped_payload" where
  "codec_WrapPayload lib rnd now stamp d fmt payloadType perfOpts secOpts key headers =
     (let perf = (case perfOpts of None \<Rightarrow> default_performance | Some p \<Rightarrow> p) in
      case validateEncryptionRequirement secOpts key of
        Some err \<Rightarrow> Inl err
      | None \<Rightarrow>
        (case EncodePayload lib d fmt of
           Inl err \<Rightarrow> Inl err
         | Inr (b, contentType, enc) \<Rightarrow>
           (case seal_payload lib rnd b perf secOpts key of
              Inl err \<Rightarrow> Inl err
            | Inr p \<Rightarrow>
              Inr \<lparr>wp_Id = stamp, wp_Timestamp = Some now, wp_Payload = p,
                   wp_Metadata = Some \<lparr>md_Headers = [''source'' \<mapsto> ''go''] ++ headers('''' := None),
                     md_ContentType = contentType, md_Version = Some (1, 0),
                     md_Performance = Some perf, md_Security = secOpts, md_TraceId = ''''\<rparr>,
                   wp_ErrorInfo = None, wp_Seq = 0, wp_PayloadEncoding = enc, wp_PayloadType = payloadType\<rparr>)))"

section \<open>Unwrapping\<close>

definition decryptData :: "'a relay_lib \<Rightarrow> octets \<Rightarrow> security_options option \<Rightarrow> string \<Rightarrow> gerr + octets" where
  "decryptData lib d secOpts key =
     (if \<not> aes_gcm_on secOpts then Inr d
      else
        let aesKey = bytes_of key in
        case aes_NewCipher aesKey of
          Some err \<Rightarrow> Inl (Wrapped ''decryptData: invalid AES key'' err)
        | None \<Rightarrow>
          if length d < 12 then Inl (Err ''decryptData: ciphertext too short for nonce'')
          else (case gcm_Open lib aesKey (take 12 d) (drop 12 d) of
                  Inl err \<Rightarrow> Inl (Wrapped ''decryptData: GCM decryption failed'' err)
                | Inr p \<Rightarrow> Inr p))"

definition decompressData :: "'a relay_lib \<Rightarrow> octets \<Rightarrow> int \<Rightarrow> gerr + octets" where
  "decompressData lib d algorithm =
     (if COMPRESS_DEFLATE \<le> algorithm \<and> algorithm \<le> COMPRESS_LZ4 then lib_decompress lib algorithm d else Inr d)"

definition normalizeTypeName :: "string \<Rightarrow> string" where
  "normalizeTypeName s = after_last_slash s"

definition validatePayloadType :: "string \<Rightarrow> string \<Rightarrow> gerr option" where
  "validatePayloadType want name =
     (if want = '''' then None
      else if normalizeTypeName want \<noteq> normalizeTypeName name then Some (Err ''payload_type mismatch'')
      else None)"

definition decodeProtoInto :: "'a relay_lib \<Rightarrow> string \<Rightarrow> octets \<Rightarrow> 'a \<Rightarrow> 'a \<times> gerr option" where
  "decodeProtoInto lib payloadType b out =
     (case proto_name lib of
        None \<Rightarrow> (out, Some (Err ''payload_encoding=PROTO requires T to be a protobuf message type''))
      | Some name \<Rightarrow>
        (case validatePayloadType payloadType name of
           Some err \<Rightarrow> (out, Some err)
         | None \<Rightarrow> proto_Unmarshal lib b out))"

definition isJSON :: "string \<Rightarrow> bool" where
  "isJSON ct = (let s = ToLower (TrimSpace ct) in s = ''application/json'' \<or> HasSuffix s ''+json'')"

definition looksLikeJSON :: "octets \<Rightarrow> bool" where
  "looksLikeJSON b =
     (case dropWhile (\<lambda>x. x \<in> {0x09, 0x0A, 0x0B, 0x0C, 0x0D, 0x20}) b of
        [] \<Rightarrow> False
      | x # _ \<Rightarrow> x = 0x7B \<or> x = 0x5B)"

text \<open>The decoding of the plaintext, with the fall-back to JSON.\<close>

definition decode_payload :: "'a relay_lib \<Rightarrow> string \<Rightarrow> int \<Rightarrow> string \<Rightarrow> octets \<Rightarrow> 'a \<Rightarrow> 'a \<times> gerr option" where
  "decode_payload lib ct encoding payloadType plaintext out =
     (if isJSON ct \<and> \<not> isProtoTarget lib then
        (case json_Unmarshal lib plaintext out of
           (v, Some err) \<Rightarrow> (v, Some (Wrapped ''unwrap: json decode failed'' err))
         | (v, None) \<Rightarrow> (v, None))
      else
        let enc = (if encoding = PAYLOAD_ENCODING_UNSPECIFIED
                   then (if isProtoTarget lib then PAYLOAD_ENCODING_PROTO else PAYLOAD_ENCODING_GOB)
                   else encoding)
        in if enc = PAYLOAD_ENCODING_GOB then
             (case gob_Decode lib plaintext out of
                (v, None) \<Rightarrow> (v, None)
              | (v, Some err) \<Rightarrow>
                let failed = Some (Wrapped ''unwrap: gob decode failed'' err) in
                if \<not> isProtoTarget lib \<and> looksLikeJSON plaintext then
                  (case json_Unmarshal lib plaintext v of
                     (u, None) \<Rightarrow> (u, None)
                   | (u, Some _) \<Rightarrow> (u, failed))
                else (v, failed))
           else if enc = PAYLOAD_ENCODING_PROTO then
             (case decodeProtoInto lib payloadType plaintext out of
                (v, None) \<Rightarrow> (v, None)
              | (v, Some err) \<Rightarrow> (v, Some (Wrapped ''unwrap: proto decode failed'' err)))
           else (out, Some (Err ''unwrap: unsupported payload_encoding'')))"

definition UnwrapPayload ::
  "'a relay_lib \<Rightarrow> wrapped_payload option \<Rightarrow> string \<Rightarrow> 'a \<Rightarrow> 'a \<times> gerr option" where
  "UnwrapPayload lib wrapped key out =
     (case wrapped of
        None \<Rightarrow> (out, Some (Err ''unwrap: nil wrappedPayload''))
      | Some wp \<Rightarrow>
        let secOpts = Option.bind (wp_Metadata wp) md_Security;
            perfOpts = Option.bind (wp_Metadata wp) md_Performance;
            ct = (case wp_Metadata wp of None \<Rightarrow> '''' | Some m \<Rightarrow> md_ContentType m)
        in if key \<noteq> '''' \<and> \<not> aes_gcm_on secOpts then (out, Some (Err ''unwrap: encryption required''))
           else case decryptData lib (wp_Payload wp) secOpts key of
             Inl err \<Rightarrow> (out, Some (Wrapped ''unwrap: decryption failed'' err))
           | Inr plaintext \<Rightarrow>
             (case (case perfOpts of
                      None \<Rightarrow> Inr plaintext
                    | Some perf \<Rightarrow>
                      if UseCompression perf then decompressData lib plaintext (CompressionAlgorithm perf)
                      else Inr plaintext) of
                Inl err \<Rightarrow> (out, Some (Wrapped ''unwrap: decompression failed'' err))
              | Inr plain \<Rightarrow> decode_payload lib ct (wp_PayloadEncoding wp) (wp_PayloadType wp) plain out))"

section \<open>Passing through\<close>

definition asPassthroughPayload :: "'a relay_lib \<Rightarrow> 'a \<Rightarrow> gerr + wrapped_payload" where
  "asPassthroughPayload lib item =
     (case pass_as lib of
        IsWrapped get put \<Rightarrow> Inr (get item)
      | IsPointer get put \<Rightarrow> (case get item of None \<Rightarrow> Inl (Err ''nil payload'') | Some p \<Rightarrow> Inr p)
      | IsOther \<Rightarrow> Inl (Err ''passthrough requires relay.WrappedPayload or *relay.WrappedPayload''))"

definition asPassthroughItem :: "'a relay_lib \<Rightarrow> wrapped_payload option \<Rightarrow> gerr + 'a" where
  "asPassthroughItem lib payload =
     (case payload of
        None \<Rightarrow> Inl (Err ''nil payload'')
      | Some p \<Rightarrow>
        (case pass_as lib of
           IsWrapped get put \<Rightarrow> Inr (put p)
         | IsPointer get put \<Rightarrow> Inr (put p)
         | IsOther \<Rightarrow> Inl (Err ''passthrough requires relay.WrappedPayload or *relay.WrappedPayload'')))"

section \<open>Contract of the libraries\<close>

text \<open>Decompression undoes compression; opening undoes sealing under the same key and nonce.\<close>

definition lib_ok :: "'a relay_lib \<Rightarrow> bool" where
  "lib_ok lib \<longleftrightarrow>
     (\<forall>alg d c. lib_compress lib alg d = Inr c \<longrightarrow> lib_decompress lib alg c = Inr d) \<and>
     (\<forall>k n d. gcm_Open lib k n (gcm_Seal lib k n d) = Inr d)"

text \<open>
  The encodings carry the value \<open>v\<close> into a variable that holds \<open>z\<close>: what they make of \<open>v\<close>, decoded into that
  variable, is \<open>v\<close>. \<^verbatim>\<open>encoding/gob\<close> and \<^verbatim>\<open>encoding/json\<close> promise it for the zero value of the type, and there
  for values they keep whole (exported fields; gob makes an empty slice nil), not for every content of the
  variable, since a field that the encoding leaves out keeps what it held.
\<close>

definition carries :: "'a relay_lib \<Rightarrow> 'a \<Rightarrow> 'a \<Rightarrow> bool" where
  "carries lib z v \<longleftrightarrow>
     (\<forall>b. gob_Encode lib v = Inr b \<longrightarrow> gob_Decode lib b z = (v, None)) \<and>
     (\<forall>b. json_Marshal lib v = Inr b \<longrightarrow> json_Unmarshal lib b z = (v, None)) \<and>
     (\<forall>b. proto_Marshal lib v = Inr b \<longrightarrow> proto_Unmarshal lib b z = (v, None))"

definition nonce_ok :: "gerr + octets \<Rightarrow> bool" where
  "nonce_ok rnd = (case rnd of Inl _ \<Rightarrow> True | Inr n \<Rightarrow> length n = 12)"

lemma lib_okD:
  assumes "lib_ok lib"
  shows "lib_compress lib alg d = Inr c \<Longrightarrow> lib_decompress lib alg c = Inr d"
    and "gcm_Open lib k n (gcm_Seal lib k n d) = Inr d"
  using assms by (simp_all add: lib_ok_def)

lemma carriesD:
  assumes "carries lib z v"
  shows "gob_Encode lib v = Inr b \<Longrightarrow> gob_Decode lib b z = (v, None)"
    and "json_Marshal lib v = Inr b \<Longrightarrow> json_Unmarshal lib b z = (v, None)"
    and "proto_Marshal lib v = Inr b \<Longrightarrow> proto_Unmarshal lib b z = (v, None)"
  using assms by (simp_all add: carries_def)

section \<open>What unwrapping makes of a wrapped payload\<close>

lemma decompress_compress:
  assumes "lib_ok lib" and "compressData lib d alg = Inr c"
  shows "decompressData lib c alg = Inr d"
  using assms lib_okD(1) [OF assms(1)] by (auto simp: compressData_def decompressData_def split: if_splits)

text \<open>
  The key has to be usable as it stands on the receiving side: the sender also takes
  hexadecimal and base-64 texts of a key, the receiver takes the bytes of the text.
\<close>

lemma decrypt_encrypt:
  assumes "lib_ok lib" and "nonce_ok rnd" and "encryptData lib rnd d secOpts key = Inr e"
    and "aes_gcm_on secOpts \<longrightarrow> aes_key_length (length key)"
  shows "decryptData lib e secOpts key = Inr d"
  using assms lib_okD(2) [OF assms(1)]
  by (auto simp: encryptData_def decryptData_def normalizeAESKey_def aes_NewCipher_def nonce_ok_def Let_def
      split: if_splits sum.splits option.splits)

lemma decrypt_bad_key:
  assumes "aes_gcm_on secOpts" and "\<not> aes_key_length (length key)"
  shows "\<exists>err. decryptData lib e secOpts key = Inl err"
  using assms by (simp add: decryptData_def aes_NewCipher_def Let_def)

text \<open>Sealing is undone by decryption and decompression.\<close>

lemma unseal_payload:
  assumes "lib_ok lib" and "nonce_ok rnd" and "seal_payload lib rnd d perf secOpts key = Inr p"
    and "aes_gcm_on secOpts \<longrightarrow> aes_key_length (length key)"
  obtains c where "decryptData lib p secOpts key = Inr c"
    "(if UseCompression perf then decompressData lib c (CompressionAlgorithm perf) else Inr c) = Inr d"
proof -
  from assms(3) obtain c where
    c: "(if UseCompression perf then compressData lib d (CompressionAlgorithm perf) else Inr d) = Inr c"
    and e: "(if aes_gcm_on secOpts then encryptData lib rnd c secOpts key else Inr c) = Inr p"
    by (auto simp: seal_payload_def split: if_splits sum.splits)
  have "decryptData lib p secOpts key = Inr c"
    using e decrypt_encrypt [OF assms(1,2) _ assms(4)] by (auto simp: decryptData_def split: if_splits)
  moreover have "(if UseCompression perf then decompressData lib c (CompressionAlgorithm perf) else Inr c) = Inr d"
    using c decompress_compress [OF assms(1)] by (auto split: if_splits)
  ultimately show thesis by (rule that)
qed

lemma validate_key: "validateEncryptionRequirement secOpts key = None \<longleftrightarrow> (key \<noteq> '''' \<longleftrightarrow> aes_gcm_on secOpts)"
  by (auto simp: validateEncryptionRequirement_def)

text \<open>The receiver's view of a sealed payload whose metadata say how it was sealed.\<close>

lemma UnwrapPayload_sealed:
  assumes "lib_ok lib" and "nonce_ok rnd" and "seal_payload lib rnd d perf secOpts key = Inr (wp_Payload wp)"
    and "validateEncryptionRequirement secOpts key = None"
    and "wp_Metadata wp = Some m" and "md_Performance m = Some perf" and "md_Security m = secOpts"
    and "aes_gcm_on secOpts \<longrightarrow> aes_key_length (length key)"
  shows "UnwrapPayload lib (Some wp) key z =
    decode_payload lib (md_ContentType m) (wp_PayloadEncoding wp) (wp_PayloadType wp) d z"
  by (rule unseal_payload [OF assms(1-3,8)])
    (use assms(4-7) in \<open>auto simp: UnwrapPayload_def validate_key split: if_splits\<close>)

lemma not_isJSON_octet [simp]: "\<not> isJSON ''application/octet-stream''"
  by (simp add: isJSON_def TrimSpace_def ToLower_def lower_char_def ascii_space_def HasSuffix_def Let_def)

lemma not_isJSON_protobuf [simp]: "\<not> isJSON ''application/protobuf''"
  by (simp add: isJSON_def TrimSpace_def ToLower_def lower_char_def ascii_space_def HasSuffix_def Let_def)

lemma isJSON_json [simp]: "isJSON ''application/json''"
  by (simp add: isJSON_def TrimSpace_def ToLower_def lower_char_def ascii_space_def Let_def)


lemma WrapPayload_Inr:
  assumes "WrapPayload lib rnd now stamp d perfOpts secOpts key = Inr wp"
  obtains b m perf where "validateEncryptionRequirement secOpts key = None" "gob_Encode lib d = Inr b"
    "seal_payload lib rnd b perf secOpts key = Inr (wp_Payload wp)" "wp_Metadata wp = Some m"
    "md_Performance m = Some perf" "md_Security m = secOpts" "md_ContentType m = ''application/octet-stream''"
    "wp_PayloadEncoding wp = PAYLOAD_ENCODING_UNSPECIFIED" "perf = (case perfOpts of None \<Rightarrow> default_performance | Some p \<Rightarrow> p)"
  using assms by (auto simp: WrapPayload_def Let_def split: option.splits sum.splits)

lemma codec_WrapPayload_Inr:
  assumes "codec_WrapPayload lib rnd now stamp d fmt pt perfOpts secOpts key headers = Inr wp"
  obtains b ct m perf where "validateEncryptionRequirement secOpts key = None"
    "EncodePayload lib d fmt = Inr (b, ct, wp_PayloadEncoding wp)"
    "seal_payload lib rnd b perf secOpts key = Inr (wp_Payload wp)" "wp_Metadata wp = Some m"
    "md_Performance m = Some perf" "md_Security m = secOpts" "md_ContentType m = ct" "wp_PayloadType wp = pt"
  using assms by (auto simp: codec_WrapPayload_def Let_def split: option.splits sum.splits)

lemma EncodePayload_Inr:
  assumes "EncodePayload lib d fmt = Inr (b, ct, enc)" and "ToLower fmt \<noteq> ''bytes''"
  shows "ct = ''application/json'' \<and> enc = PAYLOAD_ENCODING_UNSPECIFIED \<and> json_Marshal lib d = Inr b \<or>
    ct = ''application/protobuf'' \<and> enc = PAYLOAD_ENCODING_PROTO \<and> proto_name lib \<noteq> None \<and> proto_Marshal lib d = Inr b \<or>
    ct = ''application/octet-stream'' \<and> enc = PAYLOAD_ENCODING_GOB \<and> gob_Encode lib d = Inr b"
  using assms by (cases "json_Marshal lib d"; cases "proto_Marshal lib d"; cases "gob_Encode lib d")
    (auto simp: EncodePayload_def Let_def split: if_splits)

section \<open>Properties\<close>

text \<open>
  C18: a wrapped payload is read back by a receiver with the same key, compressed or not, encrypted or not, under
  these conditions: a key that encrypts is a text of 16, 24 or 32 bytes (the receiver does not read the hexadecimal and
  base-64 keys that the sender takes, \<open>payloads_not_read_back\<close>), the encodings carry the value into the
  receiver's variable, compression and AES-GCM keep their contract, and
  from the forward relay the type is not a protobuf message; from the relay codec the format is not \<^verbatim>\<open>bytes\<close>
  (which the receiver refuses), a message in \<^verbatim>\<open>json\<close> is not of a protobuf type and the payload type of a protobuf
  message names it. The receiver then has the sent value and no error.
\<close>

theorem relay_payload_round_trip:
  assumes "lib_ok lib" and "nonce_ok rnd" and "aes_gcm_on secOpts \<longrightarrow> aes_key_length (length key)"
    and "carries lib z d"
  shows "(WrapPayload lib rnd now stamp d perfOpts secOpts key = Inr wp \<and> \<not> isProtoTarget lib \<longrightarrow>
      UnwrapPayload lib (Some wp) key z = (d, None)) \<and>
    (codec_WrapPayload lib rnd now stamp d fmt pt perfOpts secOpts key headers = Inr wp \<and>
       ToLower fmt \<noteq> ''bytes'' \<and> (ToLower fmt = ''json'' \<longrightarrow> \<not> isProtoTarget lib) \<and>
       (pt \<noteq> '''' \<and> isProtoTarget lib \<longrightarrow> normalizeTypeName pt = normalizeTypeName (the (proto_name lib))) \<longrightarrow>
      UnwrapPayload lib (Some wp) key z = (d, None))"
proof (intro conjI impI; elim conjE)
  assume w: "WrapPayload lib rnd now stamp d perfOpts secOpts key = Inr wp" and np: "\<not> isProtoTarget lib"
  obtain b m perf where o: "validateEncryptionRequirement secOpts key = None" "gob_Encode lib d = Inr b"
    "seal_payload lib rnd b perf secOpts key = Inr (wp_Payload wp)" "wp_Metadata wp = Some m"
    "md_Performance m = Some perf" "md_Security m = secOpts" "md_ContentType m = ''application/octet-stream''"
    "wp_PayloadEncoding wp = PAYLOAD_ENCODING_UNSPECIFIED"
    using WrapPayload_Inr [OF w] by metis
  show "UnwrapPayload lib (Some wp) key z = (d, None)"
    unfolding UnwrapPayload_sealed [OF assms(1,2) o(3,1,4-6) assms(3)] o(7,8)
    using np carriesD(1) [OF assms(4) o(2)] by (simp add: decode_payload_def Let_def)
next
  assume cw: "codec_WrapPayload lib rnd now stamp d fmt pt perfOpts secOpts key headers = Inr wp"
    and nb: "ToLower fmt \<noteq> ''bytes''" and json: "ToLower fmt = ''json'' \<longrightarrow> \<not> isProtoTarget lib"
    and pt: "pt \<noteq> '''' \<and> isProtoTarget lib \<longrightarrow> normalizeTypeName pt = normalizeTypeName (the (proto_name lib))"
  obtain b ct m perf where o: "validateEncryptionRequirement secOpts key = None"
    "EncodePayload lib d fmt = Inr (b, ct, wp_PayloadEncoding wp)"
    "seal_payload lib rnd b perf secOpts key = Inr (wp_Payload wp)" "wp_Metadata wp = Some m"
    "md_Performance m = Some perf" "md_Security m = secOpts" "md_ContentType m = ct" "wp_PayloadType wp = pt"
    using codec_WrapPayload_Inr [OF cw] by metis
  have ct: "ct = ''application/json'' \<Longrightarrow> \<not> isProtoTarget lib"
    using json o(2) by (auto simp: EncodePayload_def Let_def map_sum_def split: if_splits sum.splits option.splits)
  show "UnwrapPayload lib (Some wp) key z = (d, None)"
    unfolding UnwrapPayload_sealed [OF assms(1,2) o(3,1,4-6) assms(3)] o(7,8)
    using EncodePayload_Inr [OF o(2) nb] ct pt
    by (auto simp: decode_payload_def carriesD [OF assms(4)] Let_def decodeProtoInto_def validatePayloadType_def
        isProtoTarget_def split: option.splits)
qed


text \<open>Sample libraries on bytes: encodings that prefix a mark, compression that reverses, sealing that appends.\<close>

definition sample_lib :: "octets relay_lib" where
  "sample_lib =
     (let bad = Err ''bad input'' in
      \<lparr>gob_Encode = (\<lambda>d. Inr (1 # d)),
       gob_Decode = (\<lambda>b z. case b of [] \<Rightarrow> (z, Some bad) | x # d \<Rightarrow> if x = 1 then (d, None) else (z, Some bad)),
       json_Marshal = (\<lambda>d. Inr (0x5B # d)), json_Unmarshal = (\<lambda>b z. (tl b, None)),
       proto_name = None, proto_Marshal = (\<lambda>d. Inr d), proto_Unmarshal = (\<lambda>b z. (b, None)), as_octets = Some (\<lambda>d. d),
       lib_compress = (\<lambda>alg d. Inr (rev d)), lib_decompress = (\<lambda>alg d. Inr (rev d)),
       gcm_Seal = (\<lambda>k n d. d @ [word_of_nat (length k)]),
       gcm_Open = (\<lambda>k n c. if c = [] \<or> last c \<noteq> word_of_nat (length k) then Inl bad else Inr (butlast c)),
       pass_as = IsOther\<rparr>)"

lemma sample_lib_ok: "lib_ok sample_lib"
  by (simp add: lib_ok_def sample_lib_def Let_def)

lemma sample_lib_carries: "carries sample_lib z v"
  by (simp add: carries_def sample_lib_def Let_def)

definition gcm_options :: security_options where
  "gcm_options = \<lparr>sec_Enabled = True, sec_Suite = ENCRYPT_AES_GCM\<rparr>"

definition sample_nonce :: octets where
  "sample_nonce = replicate 12 7"

theorem relay_payload_round_trip_witness:
  "\<exists>wp. WrapPayload sample_lib (Inr sample_nonce) 0 ''t'' [3, 4] (Some \<lparr>UseCompression = True, CompressionAlgorithm = 3\<rparr>)
       (Some gcm_options) ''0123456789abcdef'' = Inr wp \<and>
     wp_Payload wp = sample_nonce @ [4, 3, 1, 16] \<and>
     UnwrapPayload sample_lib (Some wp) ''0123456789abcdef'' [] = ([3, 4], None)"
proof -
  let ?perf = "Some \<lparr>UseCompression = True, CompressionAlgorithm = 3\<rparr>"
  obtain wp where wp: "WrapPayload sample_lib (Inr sample_nonce) 0 ''t'' [3, 4] ?perf (Some gcm_options) ''0123456789abcdef'' = Inr wp"
    "wp_Payload wp = sample_nonce @ [4, 3, 1, 16]"
    by (simp add: WrapPayload_def sample_lib_def gcm_options_def aes_gcm_on_def validateEncryptionRequirement_def
        seal_payload_def compressData_def encryptData_def normalizeAESKey_def aes_key_length_def aes_NewCipher_def Let_def)
  have "nonce_ok (Inr sample_nonce)" by (simp add: nonce_ok_def sample_nonce_def)
  then show ?thesis
    using wp relay_payload_round_trip [OF sample_lib_ok, of "Inr sample_nonce" "Some gcm_options" "''0123456789abcdef''" "[]" "[3, 4]"] sample_lib_carries
    by (auto simp: aes_key_length_def isProtoTarget_def sample_lib_def Let_def)
qed

text \<open>
  C19: a receiver with a decryption key accepts only what AES-GCM opened under that key: the metadata
  say that the payload is encrypted, and the bytes after the nonce open. A receiver
  without a key accepts no payload that claims to be encrypted.
\<close>

theorem receiver_accepts_only_authenticated:
  assumes "UnwrapPayload lib (Some wp) key z = (v, None)"
  shows "(key \<noteq> '''' \<longleftrightarrow> aes_gcm_on (Option.bind (wp_Metadata wp) md_Security)) \<and>
    (key \<noteq> '''' \<longrightarrow> aes_key_length (length key) \<and> 12 \<le> length (wp_Payload wp) \<and>
       (\<exists>p. gcm_Open lib (bytes_of key) (take 12 (wp_Payload wp)) (drop 12 (wp_Payload wp)) = Inr p))"
proof -
  let ?sec = "Option.bind (wp_Metadata wp) md_Security"
  from assms obtain p where p: "decryptData lib (wp_Payload wp) ?sec key = Inr p" and
    req: "key = '''' \<or> aes_gcm_on ?sec"
    by (auto simp: UnwrapPayload_def Let_def split: if_splits sum.splits)
  have "aes_gcm_on ?sec \<Longrightarrow> aes_key_length (length key) \<and> 12 \<le> length (wp_Payload wp) \<and>
      (\<exists>p. gcm_Open lib (bytes_of key) (take 12 (wp_Payload wp)) (drop 12 (wp_Payload wp)) = Inr p)"
    using p by (auto simp: decryptData_def aes_NewCipher_def Let_def split: if_splits sum.splits)
  moreover have "aes_gcm_on ?sec \<Longrightarrow> key \<noteq> ''''"
    using calculation by (auto simp: aes_key_length_def)
  ultimately show ?thesis using req by blast
qed

theorem receiver_accepts_only_authenticated_witness:
  "\<exists>wp. UnwrapPayload sample_lib (Some wp) ''0123456789abcdef'' [] = ([3, 4], None) \<and>
     aes_gcm_on (Option.bind (wp_Metadata wp) md_Security) \<and> 12 \<le> length (wp_Payload wp)"
proof -
  let ?wp = "\<lparr>wp_Id = '''', wp_Timestamp = None, wp_Payload = sample_nonce @ [1, 3, 4, 16],
     wp_Metadata = Some \<lparr>md_Headers = Map.empty, md_ContentType = '''', md_Version = None, md_Performance = None,
       md_Security = Some gcm_options, md_TraceId = ''''\<rparr>,
     wp_ErrorInfo = None, wp_Seq = 0, wp_PayloadEncoding = PAYLOAD_ENCODING_GOB, wp_PayloadType = ''''\<rparr>"
  have "UnwrapPayload sample_lib (Some ?wp) ''0123456789abcdef'' [] = ([3, 4], None)"
    by (simp add: UnwrapPayload_def decryptData_def aes_gcm_on_def gcm_options_def aes_NewCipher_def aes_key_length_def
        sample_nonce_def sample_lib_def decode_payload_def isJSON_def TrimSpace_def ToLower_def HasSuffix_def
        isProtoTarget_def Let_def)
  from this receiver_accepts_only_authenticated [OF this] show ?thesis by blast
qed

text \<open>
  what is sent and cannot be read back. A sender takes a key of 32 bytes as 64 hexadecimal digits
  and encrypts with it; the receiver with the same key text takes the 64 bytes of the text for the
  key and refuses every such payload. And bytes sent in the format \<^verbatim>\<open>bytes\<close> carry no encoding, so
  the receiver decodes them as gob: they are refused unless they happen to be gob or to
  look like JSON.
\<close>

theorem payloads_not_read_back:
  assumes "hex_DecodeString key = Some k" and "length k = 32" and "gob_Encode lib d = Inr b"
    and "aes_gcm_on secOpts" and "as_octets lib = Some bytes" and "\<not> isProtoTarget lib"
    and "gob_Decode lib (bytes d) z = (z', Some err)" and "\<not> looksLikeJSON (bytes d)"
  shows "(\<exists>wp. WrapPayload lib (Inr nonce) now stamp d None secOpts key = Inr wp \<and>
       (\<forall>z. \<exists>e. UnwrapPayload lib (Some wp) key z = (z, Some e))) \<and>
    (\<exists>wp. codec_WrapPayload lib rnd now stamp d ''bytes'' pt None None '''' headers = Inr wp \<and>
       (\<exists>e. UnwrapPayload lib (Some wp) '''' z = (z', Some e)))"
proof
  have len: "length key = 64" using hex_DecodeString_length [OF assms(1)] assms(2) by simp
  then have key: "normalizeAESKey key = Inr k" "\<not> aes_key_length (length key)" "key \<noteq> ''''"
    using assms(1,2) by (auto simp: normalizeAESKey_def aes_key_length_def Let_def)
  obtain wp where "WrapPayload lib (Inr nonce) now stamp d None secOpts key = Inr wp"
    "Option.bind (wp_Metadata wp) md_Security = secOpts"
    using key assms(2-4)
    by (auto simp: WrapPayload_def validateEncryptionRequirement_def seal_payload_def default_performance_def
        encryptData_def aes_NewCipher_def aes_key_length_def Let_def)
  moreover from this have "\<exists>e. UnwrapPayload lib (Some wp) key z = (z, Some e)" for z
    using decrypt_bad_key [OF assms(4) key(2), of lib "wp_Payload wp"] assms(4)
    by (auto simp: UnwrapPayload_def Let_def)
  ultimately show "\<exists>wp. WrapPayload lib (Inr nonce) now stamp d None secOpts key = Inr wp \<and>
       (\<forall>z. \<exists>e. UnwrapPayload lib (Some wp) key z = (z, Some e))" by blast
next
  have low: "ToLower ''bytes'' = ''bytes''" by (simp add: ToLower_def lower_char_def Let_def)
  show "\<exists>wp. codec_WrapPayload lib rnd now stamp d ''bytes'' pt None None '''' headers = Inr wp \<and>
       (\<exists>e. UnwrapPayload lib (Some wp) '''' z = (z', Some e))"
    using assms(5-8)
    by (simp add: codec_WrapPayload_def EncodePayload_def low validateEncryptionRequirement_def seal_payload_def
        aes_gcm_on_def default_performance_def UnwrapPayload_def decryptData_def decode_payload_def Let_def)
qed

theorem payloads_not_read_back_witness:
  "(\<exists>wp. WrapPayload sample_lib (Inr sample_nonce) 0 ''t'' [3] None (Some gcm_options) (replicate 64 CHR ''a'') = Inr wp \<and>
      (\<forall>z. \<exists>e. UnwrapPayload sample_lib (Some wp) (replicate 64 CHR ''a'') z = (z, Some e))) \<and>
   (\<exists>wp. codec_WrapPayload sample_lib (Inr sample_nonce) 0 ''t'' [3] ''bytes'' '''' None None '''' Map.empty = Inr wp \<and>
      (\<exists>e. UnwrapPayload sample_lib (Some wp) '''' [] = ([], Some e)))"
proof -
  obtain k where k: "hex_DecodeString (replicate 64 CHR ''a'') = Some k" "length k = 32"
    using hex_DecodeString_exact [of "replicate 64 CHR ''a''"] by (auto simp: hex_value_def Let_def)
  show ?thesis
    by (rule payloads_not_read_back [OF k, where bytes = "\<lambda>d. d" and err = "Err ''bad input''"])
      (simp_all add: sample_lib_def gcm_options_def aes_gcm_on_def isProtoTarget_def looksLikeJSON_def Let_def)
qed

end
