(* ===== verification/Forward_Relay.thy ===== *)
theory Forward_Relay
  imports Relay_Payload Go_Chan
begin

text \<open>
  The forward relay (\<^verbatim>\<open>src/pkg/internal/forwardrelay\<close>): its configuration, the headers and credentials of
  an outgoing stream, the sessions with their send loops, submission, and the life
  cycle. The gRPC connection is a parameter: the outcome of dialling, of opening a stream and of
  every send, and what has been sent on a stream is the list \<open>ss_stream\<close> of its session. The
  fields of \<open>relay_env\<close> that change from call to call are indexed by the tick of the call.
\<close>

section \<open>State\<close>

text \<open>Outgoing metadata: each (lower-case) key has a list of values.\<close>

type_synonym grpc_md = "string \<rightharpoonup> string list"

record forward_relay =
  Targets :: "string list"
  fr_Input :: "component_ref list"
  fr_metadata :: metadata
  fr_Loggers :: "logger list"
  fr_TlsConfig :: "tls_config option"
  fr_PerformanceOptions :: "performance_options option"
  fr_SecurityOptions :: "security_options option"
  fr_EncryptionKey :: string
  fr_authOptions :: "authentication_options option"
  fr_tokenSource :: "(nat \<Rightarrow> string \<times> gerr option) option"
  fr_staticHeaders :: "(string \<times> string) list"   \<comment> \<open>in the order the loop visits them\<close>
  fr_dynamicHeaders :: "(nat \<Rightarrow> (string \<times> string) list) option"
  fr_isRunning :: int
  fr_configFrozen :: int
  fr_authRequired :: bool
  fr_streams :: "string \<rightharpoonup> nat"
  fr_seq :: nat
  fr_streamSendBuf :: int
  fr_passthrough :: bool

record stream_session =
  ss_target :: string
  ss_sendCh :: "relay_envelope gochan"
  ss_done :: bool                          \<comment> \<open>\<open>doneCh\<close> is closed\<close>
  ss_stream :: "relay_envelope list"       \<comment> \<open>sent on the gRPC stream\<close>
  ss_md :: grpc_md                         \<comment> \<open>the metadata the stream was opened with\<close>
  ss_secure :: bool                        \<comment> \<open>dialled with TLS credentials\<close>

record 'a fr_sys =
  fs_fr :: forward_relay
  fs_sessions :: "nat \<Rightarrow> stream_session"
  fs_fresh :: nat
  fs_cancelled :: bool
  fs_tick :: nat
  fs_trace :: "'a effect list"

text \<open>
  The environment: the libraries, the clock and its text, random nonces, fresh hashes, the metadata
  already in the caller's context, and the outcomes of loading credentials, dialling,
  opening a stream and sending.
\<close>

record 'a relay_env =
  env_lib :: "'a relay_lib"
  env_now :: "nat \<Rightarrow> gotime"
  env_stamp :: "nat \<Rightarrow> string"
  env_nonce :: "nat \<Rightarrow> gerr + octets"
  env_hash :: "nat \<Rightarrow> string"
  env_md :: grpc_md
  env_tls :: "gerr option"
  env_dial :: "nat \<Rightarrow> string \<Rightarrow> gerr option"
  env_open :: "nat \<Rightarrow> string \<Rightarrow> gerr option"
  env_send :: "nat \<Rightarrow> relay_envelope \<Rightarrow> gerr option"
  env_select :: "nat \<Rightarrow> nat"
  env_ctx_done :: "nat \<Rightarrow> bool"        \<comment> \<open>the context given to \<open>Submit\<close>\<close>

definition fs_next :: "'a fr_sys \<Rightarrow> 'a fr_sys" where
  "fs_next z = z\<lparr>fs_tick := Suc (fs_tick z)\<rparr>"

section \<open>Telemetry\<close>

definition fr_NotifyLoggers ::
  "forward_relay \<Rightarrow> loglevel \<Rightarrow> string \<Rightarrow> (string \<times> 'a logval) list \<Rightarrow> 'a effect list" where
  "fr_NotifyLoggers fr level msg kvs = log_calls logger_wants_both (fr_Loggers fr) level msg kvs"

definition fr_logKV :: "loglevel \<Rightarrow> string \<Rightarrow> (string \<times> 'a logval) list \<Rightarrow> 'a fr_sys \<Rightarrow> 'a fr_sys" where
  "fr_logKV level msg kvs z =
     z\<lparr>fs_trace := fs_trace z @
        fr_NotifyLoggers (fs_fr z) level msg ((''component'', LMeta (fr_metadata (fs_fr z))) # kvs)\<rparr>"

section \<open>Configuration\<close>

definition fr_requireNotFrozen :: "string \<Rightarrow> forward_relay \<Rightarrow> panic option" where
  "fr_requireNotFrozen action fr =
     (if fr_configFrozen fr = 1
      then Some (Panic (''attempted to modify frozen configuration of started component: action='' @ action)) else None)"

definition fr_config ::
  "string \<Rightarrow> (forward_relay \<Rightarrow> forward_relay) \<Rightarrow> ('a fr_sys \<Rightarrow> 'a fr_sys) \<Rightarrow> 'a fr_sys \<Rightarrow> panic + 'a fr_sys" where
  "fr_config action f log z =
     (case fr_requireNotFrozen action (fs_fr z) of
        Some p \<Rightarrow> Inl p
      | None \<Rightarrow> Inr (log (z\<lparr>fs_fr := f (fs_fr z)\<rparr>)))"

definition updated_kvs :: "string \<Rightarrow> (string \<times> 'a logval) list \<Rightarrow> (string \<times> 'a logval) list" where
  "updated_kvs event kvs = [(''event'', LStr event), (''result'', LStr ''SUCCESS'')] @ kvs"

definition SetTargets :: "string list \<Rightarrow> 'a fr_sys \<Rightarrow> panic + 'a fr_sys" where
  "SetTargets ts z =
     (case fr_requireNotFrozen ''SetTargets'' (fs_fr z) of
        Some p \<Rightarrow> Inl p
      | None \<Rightarrow>
        if length ts = 0 then Inr z
        else
          let z1 = z\<lparr>fs_fr := (fs_fr z)\<lparr>Targets := Targets (fs_fr z) @ ts\<rparr>\<rparr>
          in Inr (fr_logKV DebugLevel ''Targets updated'' (updated_kvs ''SetTargets'' [(''targets'', LPtr True)]) z1))"

definition fr_SetComponentMetadata :: "string \<Rightarrow> string \<Rightarrow> 'a fr_sys \<Rightarrow> panic + 'a fr_sys" where
  "fr_SetComponentMetadata name i z =
     fr_config ''SetComponentMetadata''
       (\<lambda>fr. fr\<lparr>fr_metadata := (fr_metadata fr)\<lparr>meta_Name := name, meta_ID := i\<rparr>\<rparr>)
       (\<lambda>z1. fr_logKV DebugLevel ''Component metadata updated''
          (updated_kvs ''SetComponentMetadata''
             [(''before'', LMeta (fr_metadata (fs_fr z))), (''after'', LMeta (fr_metadata (fs_fr z1)))]) z1) z"

definition SetPerformanceOptions :: "performance_options option \<Rightarrow> 'a fr_sys \<Rightarrow> panic + 'a fr_sys" where
  "SetPerformanceOptions perf =
     fr_config ''SetPerformanceOptions'' (\<lambda>fr. fr\<lparr>fr_PerformanceOptions := perf\<rparr>)
       (fr_logKV DebugLevel ''Performance options updated''
          (updated_kvs ''SetPerformanceOptions'' [(''performance'', LPtr (perf \<noteq> None))]))"

definition SetSecurityOptions :: "security_options option \<Rightarrow> string \<Rightarrow> 'a fr_sys \<Rightarrow> panic + 'a fr_sys" where
  "SetSecurityOptions sec key =
     fr_config ''SetSecurityOptions'' (\<lambda>fr. fr\<lparr>fr_SecurityOptions := sec, fr_EncryptionKey := key\<rparr>)
       (fr_logKV DebugLevel ''Security options updated''
          (updated_kvs ''SetSecurityOptions'' [(''security'', LPtr (sec \<noteq> None))]))"

definition SetTLSConfig :: "tls_config option \<Rightarrow> 'a fr_sys \<Rightarrow> panic + 'a fr_sys" where
  "SetTLSConfig tls =
     fr_config ''SetTLSConfig'' (\<lambda>fr. fr\<lparr>fr_TlsConfig := tls\<rparr>)
       (fr_logKV DebugLevel ''TLS config updated'' (updated_kvs ''SetTLSConfig'' [(''tls'', LPtr (tls \<noteq> None))]))"

definition SetPassthrough :: "bool \<Rightarrow> 'a fr_sys \<Rightarrow> panic + 'a fr_sys" where
  "SetPassthrough enabled =
     fr_config ''SetPassthrough'' (\<lambda>fr. fr\<lparr>fr_passthrough := enabled\<rparr>)
       (fr_logKV InfoLevel ''Passthrough updated'' (updated_kvs ''SetPassthrough'' [(''enabled'', LBool enabled)]))"

definition SetAuthenticationOptions :: "authentication_options option \<Rightarrow> 'a fr_sys \<Rightarrow> panic + 'a fr_sys" where
  "SetAuthenticationOptions opts =
     fr_config ''SetAuthenticationOptions'' (\<lambda>fr. fr\<lparr>fr_authOptions := opts\<rparr>)
       (fr_logKV DebugLevel ''Authentication options updated''
          (updated_kvs ''SetAuthenticationOptions'' [(''auth_options'', LPtr (opts \<noteq> None))]))"

definition SetOAuth2 :: "(nat \<Rightarrow> string \<times> gerr option) option \<Rightarrow> 'a fr_sys \<Rightarrow> panic + 'a fr_sys" where
  "SetOAuth2 ts =
     fr_config ''SetOAuth2'' (\<lambda>fr. fr\<lparr>fr_tokenSource := ts\<rparr>)
       (if ts = None
        then fr_logKV DebugLevel ''OAuth2 disabled'' [(''event'', LStr ''SetOAuth2''), (''result'', LStr ''DISABLED'')]
        else fr_logKV DebugLevel ''OAuth2 enabled'' [(''event'', LStr ''SetOAuth2''), (''result'', LStr ''ENABLED'')])"

definition SetStaticHeaders :: "(string \<times> string) list \<Rightarrow> 'a fr_sys \<Rightarrow> panic + 'a fr_sys" where
  "SetStaticHeaders hs =
     fr_config ''SetStaticHeaders'' (\<lambda>fr. fr\<lparr>fr_staticHeaders := hs\<rparr>)
       (fr_logKV DebugLevel ''Static headers updated''
          (updated_kvs ''SetStaticHeaders'' [(''header_keys'', LInt (int (length hs)))]))"

definition SetDynamicHeaders :: "(nat \<Rightarrow> (string \<times> string) list) option \<Rightarrow> 'a fr_sys \<Rightarrow> panic + 'a fr_sys" where
  "SetDynamicHeaders f =
     fr_config ''SetDynamicHeaders'' (\<lambda>fr. fr\<lparr>fr_dynamicHeaders := f\<rparr>)
       (fr_logKV DebugLevel ''Dynamic headers updated''
          (updated_kvs ''SetDynamicHeaders'' [(''installed'', LBool (f \<noteq> None))]))"

definition SetAuthRequired :: "bool \<Rightarrow> 'a fr_sys \<Rightarrow> panic + 'a fr_sys" where
  "SetAuthRequired required =
     fr_config ''SetAuthRequired'' (\<lambda>fr. fr\<lparr>fr_authRequired := required\<rparr>)
       (fr_logKV DebugLevel ''Auth requirement updated''
          (updated_kvs ''SetAuthRequired'' [(''required'', LBool required)]))"

definition ConnectInput :: "component_ref option list \<Rightarrow> 'a fr_sys \<Rightarrow> panic + 'a fr_sys" where
  "ConnectInput inputs z =
     (case fr_requireNotFrozen ''ConnectInput'' (fs_fr z) of
        Some p \<Rightarrow> Inl p
      | None \<Rightarrow>
        let ins = nonnil inputs in
        if ins = [] then Inr z
        else Inr (fold (\<lambda>i. fr_logKV DebugLevel ''Input connected''
                     (updated_kvs ''ConnectInput'' [(''input'', LMeta (ref_metadata i))])) ins
                   (z\<lparr>fs_fr := (fs_fr z)\<lparr>fr_Input := fr_Input (fs_fr z) @ ins\<rparr>\<rparr>)))"

definition fr_ConnectLogger :: "logger option list \<Rightarrow> 'a fr_sys \<Rightarrow> panic + 'a fr_sys" where
  "fr_ConnectLogger ls = fr_config ''ConnectLogger'' (\<lambda>fr. fr\<lparr>fr_Loggers := fr_Loggers fr @ nonnil ls\<rparr>) id"

definition GetTargets :: "'a fr_sys \<Rightarrow> string list \<times> 'a fr_sys" where
  "GetTargets z =
     (Targets (fs_fr z), fr_logKV DebugLevel ''GetTargets'' [(''event'', LStr ''GetTargets''), (''targets'', LPtr True)] z)"

definition GetInput :: "'a fr_sys \<Rightarrow> component_ref list \<times> 'a fr_sys" where
  "GetInput z =
     (fr_Input (fs_fr z), fr_logKV DebugLevel ''GetInput'' [(''event'', LStr ''GetInput''), (''inputs'', LPtr True)] z)"

definition GetAuthRequired :: "'a fr_sys \<Rightarrow> bool" where
  "GetAuthRequired z = fr_authRequired (fs_fr z)"

definition fr_IsRunning :: "'a fr_sys \<Rightarrow> bool" where
  "fr_IsRunning z \<longleftrightarrow> fr_isRunning (fs_fr z) = 1"

datatype fr_option =
    FR_WithTarget "string list"
  | FR_WithLogger "logger option list"
  | FR_WithInput "component_ref option list"
  | FR_WithTLSConfig "tls_config option"
  | FR_WithPerformanceOptions "performance_options option"
  | FR_WithSecurityOptions "security_options option" string
  | FR_WithPassthrough bool
  | FR_WithComponentMetadata string string
  | FR_WithAuthenticationOptions "authentication_options option"
  | FR_WithOAuth2 "(nat \<Rightarrow> string \<times> gerr option) option"
  | FR_WithStaticHeaders "(string \<times> string) list"
  | FR_WithDynamicHeaders "(nat \<Rightarrow> (string \<times> string) list) option"
  | FR_WithAuthRequired bool

fun apply_fr_option :: "fr_option \<Rightarrow> 'a fr_sys \<Rightarrow> panic + 'a fr_sys" where
  "apply_fr_option (FR_WithTarget ts) z = SetTargets ts z"
| "apply_fr_option (FR_WithLogger ls) z = fr_ConnectLogger ls z"
| "apply_fr_option (FR_WithInput is) z = ConnectInput is z"
| "apply_fr_option (FR_WithTLSConfig t) z = SetTLSConfig t z"
| "apply_fr_option (FR_WithPerformanceOptions p) z = SetPerformanceOptions p z"
| "apply_fr_option (FR_WithSecurityOptions s k) z = SetSecurityOptions s k z"
| "apply_fr_option (FR_WithPassthrough b) z = SetPassthrough b z"
| "apply_fr_option (FR_WithComponentMetadata n i) z = fr_SetComponentMetadata n i z"
| "apply_fr_option (FR_WithAuthenticationOptions a) z = SetAuthenticationOptions a z"
| "apply_fr_option (FR_WithOAuth2 ts) z = SetOAuth2 ts z"
| "apply_fr_option (FR_WithStaticHeaders hs) z = SetStaticHeaders hs z"
| "apply_fr_option (FR_WithDynamicHeaders f) z = SetDynamicHeaders f z"
| "apply_fr_option (FR_WithAuthRequired b) z = Inr (z\<lparr>fs_fr := (fs_fr z)\<lparr>fr_authRequired := b\<rparr>\<rparr>)"

fun apply_fr_options :: "fr_option list \<Rightarrow> 'a fr_sys \<Rightarrow> panic + 'a fr_sys" where
  "apply_fr_options [] z = Inr z"
| "apply_fr_options (opt # opts) z =
     (case apply_fr_option opt z of Inl p \<Rightarrow> Inl p | Inr z' \<Rightarrow> apply_fr_options opts z')"

definition NewForwardRelay_base :: "string \<Rightarrow> forward_relay" where
  "NewForwardRelay_base hash =
     \<lparr>Targets = [], fr_Input = [],
      fr_metadata = \<lparr>meta_ID = hash, meta_Type = ''FORWARD_RELAY'', meta_Name = ''''\<rparr>, fr_Loggers = [],
      fr_TlsConfig = None, fr_PerformanceOptions = Some default_performance, fr_SecurityOptions = None,
      fr_EncryptionKey = '''', fr_authOptions = None, fr_tokenSource = None, fr_staticHeaders = [],
      fr_dynamicHeaders = None, fr_isRunning = 0, fr_configFrozen = 0, fr_authRequired = True,
      fr_streams = Map.empty, fr_seq = 0, fr_streamSendBuf = 0, fr_passthrough = False\<rparr>"

definition new_fr_sys :: "forward_relay \<Rightarrow> 'a fr_sys" where
  "new_fr_sys fr =
     \<lparr>fs_fr = fr, fs_sessions = (\<lambda>_. \<lparr>ss_target = '''', ss_sendCh = make_chan 0, ss_done = True, ss_stream = [],
        ss_md = Map.empty, ss_secure = False\<rparr>),
      fs_fresh = 0, fs_cancelled = False, fs_tick = 0, fs_trace = []\<rparr>"

definition NewForwardRelay :: "string \<Rightarrow> fr_option list \<Rightarrow> panic + 'a fr_sys" where
  "NewForwardRelay hash opts = apply_fr_options opts (new_fr_sys (NewForwardRelay_base hash))"

section \<open>Headers and credentials\<close>

text \<open>\<^verbatim>\<open>md.Set\<close> replaces the values of the key in lower case.\<close>

definition md_Set :: "string \<Rightarrow> string \<Rightarrow> grpc_md \<Rightarrow> grpc_md" where
  "md_Set k v md = md(ToLower k \<mapsto> [v])"

definition static_header :: "string \<times> string \<Rightarrow> grpc_md \<Rightarrow> grpc_md" where
  "static_header kv md = (case kv of (k, v) \<Rightarrow> if k = '''' then md else md_Set k v md)"

definition dynamic_header :: "string \<times> string \<Rightarrow> grpc_md \<Rightarrow> grpc_md" where
  "dynamic_header kv md = (case kv of (k, v) \<Rightarrow> if k = '''' \<or> v = '''' then md else md_Set k v md)"

definition buildPerRPCContext :: "'a relay_env \<Rightarrow> nat \<Rightarrow> forward_relay \<Rightarrow> gerr + grpc_md" where
  "buildPerRPCContext env t fr =
     (let md1 = fold static_header (fr_staticHeaders fr) (env_md env);
          md2 = (case fr_dynamicHeaders fr of None \<Rightarrow> md1 | Some f \<Rightarrow> fold dynamic_header (f t) md1);
          traced = (\<lambda>md. if md ''trace-id'' = None then md_Set ''trace-id'' (env_hash env t) md else md)
      in case fr_tokenSource fr of
           None \<Rightarrow> Inr (traced md2)
         | Some ts \<Rightarrow>
           (case ts t of
              (tok, err) \<Rightarrow>
                if err \<noteq> None \<or> tok = '''' then
                  (if fr_authRequired fr
                   then Inl (Wrapped ''oauth token source error''
                          (case err of Some e \<Rightarrow> e | None \<Rightarrow> Err ''oauth token empty''))
                   else Inr (traced md2))
                else Inr (traced (md_Set ''authorization'' (''Bearer '' @ tok) md2))))"

text \<open>The credentials to dial with: \<open>Inr True\<close> with TLS, \<open>Inr False\<close> without.\<close>

definition makeDialOptions :: "'a relay_env \<Rightarrow> forward_relay \<Rightarrow> gerr + bool" where
  "makeDialOptions env fr =
     (case fr_TlsConfig fr of
        Some c \<Rightarrow>
          if UseTLS c then (case env_tls env of Some err \<Rightarrow> Inl err | None \<Rightarrow> Inr True)
          else if fr_tokenSource fr \<noteq> None \<and> fr_authRequired fr
          then Inl (Err ''oauth2 enabled and required but TLS is disabled; refuse to dial insecure'') else Inr False
      | None \<Rightarrow>
          if fr_tokenSource fr \<noteq> None \<and> fr_authRequired fr
          then Inl (Err ''oauth2 enabled and required but TLS is disabled; refuse to dial insecure'') else Inr False)"

section \<open>Sessions\<close>

definition put_session :: "nat \<Rightarrow> stream_session \<Rightarrow> 'a fr_sys \<Rightarrow> 'a fr_sys" where
  "put_session i ss z = z\<lparr>fs_sessions := (fs_sessions z)(i := ss)\<rparr>"

definition ensureStreamsInit :: "'a fr_sys \<Rightarrow> 'a fr_sys" where
  "ensureStreamsInit z =
     (if fr_streamSendBuf (fs_fr z) \<le> 0 then z\<lparr>fs_fr := (fs_fr z)\<lparr>fr_streamSendBuf := 8192\<rparr>\<rparr> else z)"

definition stream_open_message :: "'a relay_env \<Rightarrow> nat \<Rightarrow> string \<Rightarrow> forward_relay \<Rightarrow> stream_open" where
  "stream_open_message env t traceID fr =
     \<lparr>so_StreamId = env_hash env (Suc t),
      so_Defaults = Some \<lparr>md_Headers = [''source'' \<mapsto> ''go''], md_ContentType = ''application/octet-stream'',
        md_Version = Some (1, 0), md_Performance = fr_PerformanceOptions fr, md_Security = fr_SecurityOptions fr,
        md_TraceId = traceID\<rparr>,
      so_AckMode = ACK_BATCH, so_AckEveryN = 1024, so_MaxInFlight = nat (fr_streamSendBuf fr mod 4294967296),
      so_OmitPayloadMetadata = True\<rparr>"

text \<open>
  Opening a session: headers, credentials, dialling, the stream and its first message. The session's
  identity is new; its send and acknowledgment loops run from here on.
\<close>

definition openStreamSession :: "'a relay_env \<Rightarrow> string \<Rightarrow> 'a fr_sys \<Rightarrow> (gerr + nat) \<times> 'a fr_sys" where
  "openStreamSession env address z =
     (let t = fs_tick z; fr = fs_fr z; z1 = fs_next z in
      case buildPerRPCContext env t fr of
        Inl err \<Rightarrow> (Inl (Wrapped ''metadata build failed'' err), z1)
      | Inr md \<Rightarrow>
        let traceID = (case md ''trace-id'' of Some (x # _) \<Rightarrow> if x = '''' then env_hash env t else x | _ \<Rightarrow> env_hash env t) in
        (case makeDialOptions env fr of
           Inl err \<Rightarrow> (Inl (Wrapped ''dial options'' err), z1)
         | Inr secure \<Rightarrow>
           (case env_dial env t address of
              Some err \<Rightarrow> (Inl (Wrapped ''dial failed'' err), z1)
            | None \<Rightarrow>
              (case env_open env t address of
                 Some err \<Rightarrow> (Inl (Wrapped ''stream open failed'' err), z1)
               | None \<Rightarrow>
                 let opn = stream_open_message env t traceID fr in
                 (case env_send env t (EnvelopeOpen opn) of
                    Some err \<Rightarrow> (Inl (Wrapped ''send open failed'' err), z1)
                  | None \<Rightarrow>
                    let i = fs_fresh z1;
                        ss = \<lparr>ss_target = address, ss_sendCh = make_chan (nat (fr_streamSendBuf fr)), ss_done = False,
                              ss_stream = [EnvelopeOpen opn], ss_md = md, ss_secure = secure\<rparr>
                    in (Inr i,
                        fr_logKV InfoLevel ''Stream opened''
                          [(''event'', LStr ''StreamOpen''), (''result'', LStr ''SUCCESS''), (''target'', LStr address),
                           (''stream_id'', LStr (so_StreamId opn)), (''trace_id'', LStr traceID),
                           (''ack_mode'', LInt (so_AckMode opn)), (''ack_every_n'', LInt (int (so_AckEveryN opn))),
                           (''max_in_flight'', LInt (int (so_MaxInFlight opn))),
                           (''omit_payload_metadata'', LBool (so_OmitPayloadMetadata opn))]
                          (put_session i ss (z1\<lparr>fs_fresh := Suc i\<rparr>))))))))"

text \<open>
  One round of the send loop: an error of the stream ends it and closes \<^verbatim>\<open>doneCh\<close>, what is left in
  the send channel is lost; so does the end of the closed channel. \<open>None\<close> when it waits.
\<close>

definition streamSendLoop_round :: "'a relay_env \<Rightarrow> nat \<Rightarrow> 'a fr_sys \<Rightarrow> 'a fr_sys option" where
  "streamSendLoop_round env i z =
     (let ss = fs_sessions z i in
      if ss_done ss then None
      else case chan_recv (ss_sendCh ss) of
        RecvBlocks \<Rightarrow> None
      | RecvClosed \<Rightarrow> Some (put_session i (ss\<lparr>ss_done := True\<rparr>) z)
      | Received e ch \<Rightarrow>
        let z1 = fs_next z in
        (case env_send env (fs_tick z) e of
           None \<Rightarrow> Some (put_session i (ss\<lparr>ss_sendCh := ch, ss_stream := ss_stream ss @ [e]\<rparr>) z1)
         | Some err \<Rightarrow>
           Some (put_session i (ss\<lparr>ss_sendCh := ch, ss_done := True\<rparr>)
             (if err = Err ''EOF'' \<or> err = CtxErr
              then fr_logKV DebugLevel ''Stream send ended''
                     [(''event'', LStr ''StreamSend''), (''result'', LStr ''END''), (''target'', LStr (ss_target ss)),
                      (''error'', LErr (Some err))] z1
              else fr_logKV ErrorLevel ''Stream send failed''
                     [(''event'', LStr ''StreamSend''), (''result'', LStr ''FAILURE''), (''target'', LStr (ss_target ss)),
                      (''error'', LErr (Some err))] z1))))"

text \<open>The rounds until the loop ends or waits: one for each envelope in the channel and one for the end.\<close>

fun run_send_loop :: "nat \<Rightarrow> 'a relay_env \<Rightarrow> nat \<Rightarrow> 'a fr_sys \<Rightarrow> 'a fr_sys" where
  "run_send_loop 0 env i z = z"
| "run_send_loop (Suc n) env i z =
     (case streamSendLoop_round env i z of None \<Rightarrow> z | Some z' \<Rightarrow> run_send_loop n env i z')"

text \<open>
  \<^verbatim>\<open>close\<close>: a last envelope if there is room, the end of the channel, and the wait for the send loop,
  which first sends what is queued.
\<close>

definition session_close :: "'a relay_env \<Rightarrow> string \<Rightarrow> nat \<Rightarrow> 'a fr_sys \<Rightarrow> panic + 'a fr_sys" where
  "session_close env reason i z =
     (let ss = fs_sessions z i in
      if ss_done ss then Inr z
      else case chan_try_send (EnvelopeClose reason) (ss_sendCh ss) of
        Inl p \<Rightarrow> Inl p
      | Inr ch \<Rightarrow>
        (case chan_close ch of
           Inl p \<Rightarrow> Inl p
         | Inr ch' \<Rightarrow> Inr (run_send_loop (Suc (length (ch_buf ch'))) env i (put_session i (ss\<lparr>ss_sendCh := ch'\<rparr>) z))))"

definition getOrCreateStreamSession ::
  "'a relay_env \<Rightarrow> string \<Rightarrow> 'a fr_sys \<Rightarrow> panic + (gerr + nat) \<times> 'a fr_sys" where
  "getOrCreateStreamSession env address z =
     (let z1 = ensureStreamsInit z;
          live = (case fr_streams (fs_fr z1) address of
                    None \<Rightarrow> None | Some i \<Rightarrow> if ss_done (fs_sessions z1 i) then None else Some i)
      in case live of
           Some i \<Rightarrow> Inr (Inr i, z1)
         | None \<Rightarrow>
           let z2 = z1\<lparr>fs_fr := (fs_fr z1)\<lparr>fr_streams := (fr_streams (fs_fr z1))(address := None)\<rparr>\<rparr> in
           (case openStreamSession env address z2 of
              (Inl err, z3) \<Rightarrow> Inr (Inl err, z3)
            | (Inr i, z3) \<Rightarrow>
              (case fr_streams (fs_fr z3) address of
                 Some existing \<Rightarrow>
                   (case session_close env ''race lost'' i z3 of
                      Inl p \<Rightarrow> Inl p | Inr z4 \<Rightarrow> Inr (Inr existing, z4))
               | None \<Rightarrow>
                 Inr (Inr i, z3\<lparr>fs_fr := (fs_fr z3)\<lparr>fr_streams := (fr_streams (fs_fr z3))(address \<mapsto> i)\<rparr>\<rparr>))))"

section \<open>Submission\<close>

text \<open>
  The \<^verbatim>\<open>select\<close> of \<^verbatim>\<open>Submit\<close> between the send channel, the caller's context and the relay's. \<open>None\<close>
  when it waits; a panic when the session was closed meanwhile.
\<close>

datatype enqueue_case = ToSession | CallerDone | RelayDone

definition enqueue ::
  "'a relay_env \<Rightarrow> nat \<Rightarrow> relay_envelope \<Rightarrow> 'a fr_sys \<Rightarrow> (panic + gerr option \<times> 'a fr_sys) option" where
  "enqueue env i e z =
     (let ss = fs_sessions z i; sent = chan_send e (ss_sendCh ss);
          ready = (if sent = SendBlocks then [] else [ToSession]) @
                  (if env_ctx_done env (fs_tick z) then [CallerDone] else []) @ (if fs_cancelled z then [RelayDone] else [])
      in case select_pick (env_select env (fs_tick z)) ready of
           None \<Rightarrow> None
         | Some ToSession \<Rightarrow>
             (case sent of
                Sent ch \<Rightarrow> Some (Inr (None, put_session i (ss\<lparr>ss_sendCh := ch\<rparr>) (fs_next z)))
              | _ \<Rightarrow> Some (Inl (Panic ''send on closed channel'')))
         | Some _ \<Rightarrow> Some (Inr (Some CtxErr, fs_next z)))"

fun submit_targets ::
  "'a relay_env \<Rightarrow> wrapped_payload \<Rightarrow> string list \<Rightarrow> 'a fr_sys \<Rightarrow> (panic + gerr option \<times> 'a fr_sys) option" where
  "submit_targets env wp [] z = Some (Inr (None, z))"
| "submit_targets env wp (address # as) z =
     (case getOrCreateStreamSession env address z of
        Inl p \<Rightarrow> Some (Inl p)
      | Inr (Inl err, z1) \<Rightarrow>
          submit_targets env wp as
            (fr_logKV ErrorLevel ''Submit: stream setup failed''
               [(''event'', LStr ''Submit''), (''result'', LStr ''FAILURE''), (''target'', LStr address),
                (''error'', LErr (Some err))] z1)
      | Inr (Inr i, z1) \<Rightarrow>
          (case enqueue env i (EnvelopePayload wp) z1 of
             Some (Inr (None, z2)) \<Rightarrow>
               submit_targets env wp as
                 (fr_logKV DebugLevel ''Submit: enqueued''
                    [(''event'', LStr ''Submit''), (''result'', LStr ''ENQUEUED''), (''target'', LStr address),
                     (''id'', LStr (wp_Id wp)), (''seq'', LInt (int (wp_Seq wp))),
                     (''payload_type'', LStr (wp_PayloadType wp)), (''payload_encoding'', LInt (wp_PayloadEncoding wp)),
                     (''payload_bytes'', LInt (int (length (wp_Payload wp))))] z2)
           | r \<Rightarrow> r))"

text \<open>
  The payload of an item: passed through, or wrapped, given the next sequence number (a 64-bit
  counter) and stripped of its metadata, which the stream's first message carries.
\<close>

definition prepare_payload :: "'a relay_env \<Rightarrow> 'a \<Rightarrow> 'a fr_sys \<Rightarrow> (gerr + wrapped_payload) \<times> 'a fr_sys" where
  "prepare_payload env item z =
     (let fr = fs_fr z; t = fs_tick z in
      if fr_passthrough fr then
        (case asPassthroughPayload (env_lib env) item of
           Inl err \<Rightarrow> (Inl (Wrapped ''failed to passthrough payload'' err), z)
         | Inr wp \<Rightarrow> (Inr wp, z))
      else
        (case WrapPayload (env_lib env) (env_nonce env t) (env_now env t) (env_stamp env t) item
                (fr_PerformanceOptions fr) (fr_SecurityOptions fr) (fr_EncryptionKey fr) of
           Inl err \<Rightarrow> (Inl (Wrapped ''failed to wrap payload'' err), fs_next z)
         | Inr wp \<Rightarrow>
           let s = (fr_seq fr + 1) mod 18446744073709551616
           in (Inr (wp\<lparr>wp_Seq := s, wp_Metadata := None\<rparr>), fs_next (z\<lparr>fs_fr := fr\<lparr>fr_seq := s\<rparr>\<rparr>))))"

definition fr_Submit :: "'a relay_env \<Rightarrow> 'a \<Rightarrow> 'a fr_sys \<Rightarrow> (panic + gerr option \<times> 'a fr_sys) option" where
  "fr_Submit env item z =
     (case prepare_payload env item z of
        (Inl err, z1) \<Rightarrow> Some (Inr (Some err, z1))
      | (Inr wp, z1) \<Rightarrow> submit_targets env wp (Targets (fs_fr z1)) z1)"

section \<open>Life cycle\<close>

text \<open>
  Starting: \<open>start_input\<close> starts an input that is not started. The inputs that get a reading
  goroutine are the result; a failing one ends the call, the goroutines before it keep running.
\<close>

fun start_inputs ::
  "(component_ref \<Rightarrow> bool) \<Rightarrow> (component_ref \<Rightarrow> gerr option) \<Rightarrow> component_ref list \<Rightarrow> gerr option \<times> component_ref list" where
  "start_inputs started start_input [] = (None, [])"
| "start_inputs started start_input (i # is) =
     (if \<not> started i then
        (case start_input i of
           Some err \<Rightarrow> (Some (Wrapped ''failed to start input'' err), [])
         | None \<Rightarrow> (case start_inputs started start_input is of (e, rs) \<Rightarrow> (e, i # rs)))
      else (case start_inputs started start_input is of (e, rs) \<Rightarrow> (e, i # rs)))"

definition fr_Start ::
  "(component_ref \<Rightarrow> bool) \<Rightarrow> (component_ref \<Rightarrow> gerr option) \<Rightarrow> 'a fr_sys \<Rightarrow>
   gerr option \<times> component_ref list \<times> 'a fr_sys" where
  "fr_Start started start_input z =
     (if fr_Input (fs_fr z) = [] then (Some (Err ''no inputs configured''), [], z)
      else
        let z1 = z\<lparr>fs_fr := (fs_fr z)\<lparr>fr_configFrozen := 1\<rparr>\<rparr> in
        (case start_inputs started start_input (fr_Input (fs_fr z1)) of
           (Some err, rs) \<Rightarrow> (Some err, rs, z1)
         | (None, rs) \<Rightarrow>
           (None, rs, fr_logKV InfoLevel ''Forward relay started'' [(''event'', LStr ''Start''), (''result'', LStr ''SUCCESS'')]
              (z1\<lparr>fs_fr := (fs_fr z1)\<lparr>fr_isRunning := 1\<rparr>\<rparr>))))"

text \<open>\<^verbatim>\<open>closeAllStreams\<close>; the addresses are listed in the order the loop visits the map.\<close>

fun close_streams :: "'a relay_env \<Rightarrow> string \<Rightarrow> nat list \<Rightarrow> 'a fr_sys \<Rightarrow> panic + 'a fr_sys" where
  "close_streams env reason [] z = Inr z"
| "close_streams env reason (i # is) z =
     (case session_close env reason i z of Inl p \<Rightarrow> Inl p | Inr z' \<Rightarrow> close_streams env reason is z')"

definition closeAllStreams :: "'a relay_env \<Rightarrow> string \<Rightarrow> string list \<Rightarrow> 'a fr_sys \<Rightarrow> panic + 'a fr_sys" where
  "closeAllStreams env reason order z =
     close_streams env reason (List.map_filter (fr_streams (fs_fr z)) order)
       (z\<lparr>fs_fr := (fs_fr z)\<lparr>fr_streams := Map.empty\<rparr>\<rparr>)"

definition fr_Stop :: "'a relay_env \<Rightarrow> string list \<Rightarrow> 'a fr_sys \<Rightarrow> panic + 'a fr_sys" where
  "fr_Stop env order z =
     (case closeAllStreams env ''relay stop'' order
             ((fr_logKV InfoLevel ''Forward relay stopping'' [(''event'', LStr ''Stop''), (''result'', LStr ''SUCCESS'')] z)
                \<lparr>fs_cancelled := True\<rparr>) of
        Inl p \<Rightarrow> Inl p
      | Inr z' \<Rightarrow> Inr (z'\<lparr>fs_fr := (fs_fr z')\<lparr>fr_isRunning := 0\<rparr>\<rparr>))"

text \<open>One round of the loop that reads an input, on an item it received.\<close>

definition readFromInput_round :: "'a relay_env \<Rightarrow> 'a \<Rightarrow> 'a fr_sys \<Rightarrow> (panic + 'a fr_sys) option" where
  "readFromInput_round env item z =
     (case fr_Submit env item z of
        None \<Rightarrow> None
      | Some (Inl p) \<Rightarrow> Some (Inl p)
      | Some (Inr (None, z')) \<Rightarrow> Some (Inr z')
      | Some (Inr (Some err, z')) \<Rightarrow>
          Some (Inr (fr_logKV ErrorLevel ''Input submit failed''
            [(''event'', LStr ''ReadInput''), (''result'', LStr ''FAILURE''), (''error'', LErr (Some err))] z')))"

end
