(* ===== verification/Relay_Auth.thy ===== *)
theory Relay_Auth
  imports Relay_Payload
begin

text \<open>
  Authentication of relay requests: the validation of JSON web tokens (\<^verbatim>\<open>src/pkg/internal/auth\<close>) and
  of opaque tokens by introspection (\<^verbatim>\<open>receivingrelay/auth_introspection.go\<close>). The HTTP exchanges,
  the JSON decoders, the hash functions, the signature primitives and the curves are the fields of
  \<open>auth_lib\<close>. Each call is one step; the clock readings it makes are arguments.
\<close>

section \<open>Keys, claims and libraries\<close>

record jwk_key =
  jwk_Kty :: string
  jwk_Kid :: string
  jwk_N :: string
  jwk_E :: string
  jwk_Crv :: string
  jwk_X :: string
  jwk_Y :: string

record jwt_header =
  jwt_Alg :: string
  jwt_Kid :: string

datatype ec_curve = P256 | P384 | P521

datatype public_key = RSAKey nat int | ECKey ec_curve nat nat

text \<open>A claim as the JSON decoder with \<^verbatim>\<open>UseNumber\<close> leaves it: a number is its text.\<close>

datatype jvalue = JString string | JNumber string | JArray "jvalue list" | JOther

type_synonym jclaims = "string \<rightharpoonup> jvalue"

text \<open>The status code and line of a response, and what decoding its body gives.\<close>

record 'b http_response =
  resp_StatusCode :: int
  resp_Status :: string
  resp_Body :: "gerr + 'b"

record auth_lib =
  lib_header :: "octets \<Rightarrow> gerr + jwt_header"
  lib_claims :: "octets \<Rightarrow> gerr + jclaims"
  lib_sha :: "nat \<Rightarrow> octets \<Rightarrow> octets"
  lib_pkcs1v15 :: "nat \<times> int \<Rightarrow> nat \<Rightarrow> octets \<Rightarrow> octets \<Rightarrow> gerr option"
  lib_pss :: "nat \<times> int \<Rightarrow> nat \<Rightarrow> octets \<Rightarrow> octets \<Rightarrow> gerr option"
  lib_ecdsa :: "ec_curve \<times> nat \<times> nat \<Rightarrow> octets \<Rightarrow> nat \<Rightarrow> nat \<Rightarrow> bool"
  lib_on_curve :: "ec_curve \<Rightarrow> nat \<Rightarrow> nat \<Rightarrow> bool"

definition jwtValidAlgs :: "string list" where
  "jwtValidAlgs = [''RS256'', ''RS384'', ''RS512'', ''PS256'', ''PS384'', ''PS512'', ''ES256'', ''ES384'', ''ES512'']"

section \<open>Key sets\<close>

definition parseRSAPublicKey :: "string \<Rightarrow> string \<Rightarrow> gerr + public_key" where
  "parseRSAPublicKey nStr eStr =
     (if nStr = '''' \<or> eStr = '''' then Inl (Err ''rsa jwk missing n/e'')
      else case (base64url_DecodeString nStr, base64url_DecodeString eStr) of
        (Some nb, Some eb) \<Rightarrow>
          let e = foldl (\<lambda>e b. wrap_i64 (e * 256 + int (unat b))) 0 eb in
          if e = 0 then Inl (Err ''rsa jwk invalid exponent'') else Inr (RSAKey (be_nat nb) e)
      | _ \<Rightarrow> Inl (Err ''illegal base64 data''))"

definition ec_curve_of :: "string \<Rightarrow> ec_curve option" where
  "ec_curve_of crv =
     (if crv = ''P-256'' then Some P256 else if crv = ''P-384'' then Some P384
      else if crv = ''P-521'' then Some P521 else None)"

definition parseECPublicKey :: "auth_lib \<Rightarrow> string \<Rightarrow> string \<Rightarrow> string \<Rightarrow> gerr + public_key" where
  "parseECPublicKey lib crv xStr yStr =
     (if crv = '''' \<or> xStr = '''' \<or> yStr = '''' then Inl (Err ''ec jwk missing crv/x/y'')
      else case ec_curve_of crv of
        None \<Rightarrow> Inl (Err ''unsupported ec curve'')
      | Some curve \<Rightarrow>
        (case (base64url_DecodeString xStr, base64url_DecodeString yStr) of
           (Some xb, Some yb) \<Rightarrow>
             if \<not> lib_on_curve lib curve (be_nat xb) (be_nat yb) then Inl (Err ''ec jwk point not on curve'')
             else Inr (ECKey curve (be_nat xb) (be_nat yb))
         | _ \<Rightarrow> Inl (Err ''illegal base64 data'')))"

definition parseJWK :: "auth_lib \<Rightarrow> jwk_key \<Rightarrow> gerr + public_key" where
  "parseJWK lib k =
     (if ToUpper (jwk_Kty k) = ''RSA'' then parseRSAPublicKey (jwk_N k) (jwk_E k)
      else if ToUpper (jwk_Kty k) = ''EC'' then parseECPublicKey lib (jwk_Crv k) (jwk_X k) (jwk_Y k)
      else Inl (Err ''unsupported jwk kty''))"

section \<open>Signatures\<close>

definition verifyRSAPKCS1v15 :: "auth_lib \<Rightarrow> nat \<Rightarrow> string \<Rightarrow> octets \<Rightarrow> public_key \<Rightarrow> gerr option" where
  "verifyRSAPKCS1v15 lib h input sig key =
     (case key of
        RSAKey n e \<Rightarrow> lib_pkcs1v15 lib (n, e) h (lib_sha lib h (bytes_of input)) sig
      | _ \<Rightarrow> Some (Err ''rsa public key required''))"

definition verifyRSAPSS :: "auth_lib \<Rightarrow> nat \<Rightarrow> string \<Rightarrow> octets \<Rightarrow> public_key \<Rightarrow> gerr option" where
  "verifyRSAPSS lib h input sig key =
     (case key of
        RSAKey n e \<Rightarrow> lib_pss lib (n, e) h (lib_sha lib h (bytes_of input)) sig
      | _ \<Rightarrow> Some (Err ''rsa public key required''))"

fun curve_BitSize :: "ec_curve \<Rightarrow> nat" where
  "curve_BitSize P256 = 256"
| "curve_BitSize P384 = 384"
| "curve_BitSize P521 = 521"

definition parseECDSASignature :: "octets \<Rightarrow> nat \<Rightarrow> gerr + nat \<times> nat" where
  "parseECDSASignature sig keyBytes =
     (if length sig \<noteq> 2 * keyBytes then Inl (Err ''invalid ecdsa signature length'')
      else Inr (be_nat (take keyBytes sig), be_nat (drop keyBytes sig)))"

definition verifyECDSA :: "auth_lib \<Rightarrow> nat \<Rightarrow> string \<Rightarrow> octets \<Rightarrow> public_key \<Rightarrow> gerr option" where
  "verifyECDSA lib h input sig key =
     (case key of
        ECKey c x y \<Rightarrow>
          (case parseECDSASignature sig ((curve_BitSize c + 7) div 8) of
             Inl err \<Rightarrow> Some err
           | Inr (r, s) \<Rightarrow>
             if \<not> lib_ecdsa lib (c, x, y) (lib_sha lib h (bytes_of input)) r s
             then Some (Err ''ecdsa signature invalid'') else None)
      | _ \<Rightarrow> Some (Err ''ecdsa public key required''))"

definition verifySignature :: "auth_lib \<Rightarrow> string \<Rightarrow> string \<Rightarrow> octets \<Rightarrow> public_key \<Rightarrow> gerr option" where
  "verifySignature lib alg input sig key =
     (if alg = ''RS256'' then verifyRSAPKCS1v15 lib 256 input sig key
      else if alg = ''RS384'' then verifyRSAPKCS1v15 lib 384 input sig key
      else if alg = ''RS512'' then verifyRSAPKCS1v15 lib 512 input sig key
      else if alg = ''PS256'' then verifyRSAPSS lib 256 input sig key
      else if alg = ''PS384'' then verifyRSAPSS lib 384 input sig key
      else if alg = ''PS512'' then verifyRSAPSS lib 512 input sig key
      else if alg = ''ES256'' then verifyECDSA lib 256 input sig key
      else if alg = ''ES384'' then verifyECDSA lib 384 input sig key
      else if alg = ''ES512'' then verifyECDSA lib 512 input sig key
      else Some (Err ''unsupported jwt alg''))"

definition decodeJWTPart :: "string \<Rightarrow> gerr + octets" where
  "decodeJWTPart part =
     (if part = '''' then Inl (Err ''empty jwt part'')
      else case base64url_DecodeString part of None \<Rightarrow> Inl (Err ''illegal base64 data'') | Some b \<Rightarrow> Inr b)"

section \<open>Claims\<close>

text \<open>The strings among the items of an array, trimmed and not empty.\<close>

definition array_strings :: "jvalue list \<Rightarrow> string list" where
  "array_strings items =
     List.map_filter (\<lambda>item. case item of
        JString s \<Rightarrow> if TrimSpace s = '''' then None else Some (TrimSpace s) | _ \<Rightarrow> None) items"

definition extractAudience :: "jclaims \<Rightarrow> string list" where
  "extractAudience claims =
     (case claims ''aud'' of
        Some (JString s) \<Rightarrow> if s = '''' then [] else [s]
      | Some (JArray items) \<Rightarrow> array_strings items
      | _ \<Rightarrow> [])"

definition audienceMatch :: "string list \<Rightarrow> string list \<Rightarrow> bool" where
  "audienceMatch got required \<longleftrightarrow> required = [] \<or> got \<noteq> [] \<and> list_ex (\<lambda>need. need \<in> set got) required"

definition claimInt64 :: "jclaims \<Rightarrow> string \<Rightarrow> int option" where
  "claimInt64 claims key =
     (case claims key of
        Some (JNumber t) \<Rightarrow> ParseInt64 t
      | Some (JString t) \<Rightarrow> if t = '''' then None else ParseInt64 t
      | _ \<Rightarrow> None)"

definition parseScopeValue :: "jvalue \<Rightarrow> string list" where
  "parseScopeValue v = (case v of JString s \<Rightarrow> Fields s | JArray items \<Rightarrow> array_strings items | _ \<Rightarrow> [])"

fun first_scopes :: "jclaims \<Rightarrow> string list \<Rightarrow> string list" where
  "first_scopes claims [] = []"
| "first_scopes claims (key # keys) =
     (case claims key of
        Some v \<Rightarrow> if parseScopeValue v = [] then first_scopes claims keys else parseScopeValue v
      | None \<Rightarrow> first_scopes claims keys)"

definition extractScopes :: "jclaims \<Rightarrow> string list" where
  "extractScopes claims = first_scopes claims [''scope'', ''scp'', ''scopes'']"

definition claims_hasAllScopes :: "string list \<Rightarrow> jclaims \<Rightarrow> bool" where
  "claims_hasAllScopes required claims \<longleftrightarrow>
     required = [] \<or>
     (let granted = extractScopes claims in granted \<noteq> [] \<and> list_all (\<lambda>req. req \<in> set granted) required)"

text \<open>The checks of the standard claims at \<open>now\<close>, with five seconds of skew; the sums wrap around.\<close>

definition validateStandardClaims :: "jclaims \<Rightarrow> string \<Rightarrow> string list \<Rightarrow> gotime \<Rightarrow> gerr option" where
  "validateStandardClaims claims issuer audiences now =
     (let n = time_Unix now;
          iss = (case claims ''iss'' of Some (JString s) \<Rightarrow> s | _ \<Rightarrow> '''') in
      if issuer \<noteq> '''' \<and> (iss = '''' \<or> iss \<noteq> issuer) then Some (Err ''issuer mismatch'')
      else if audiences \<noteq> [] \<and> \<not> audienceMatch (extractAudience claims) audiences then Some (Err ''audience mismatch'')
      else if (case claimInt64 claims ''exp'' of Some e \<Rightarrow> n > wrap_i64 (e + 5) | None \<Rightarrow> False)
      then Some (Err ''token expired'')
      else if (case claimInt64 claims ''nbf'' of Some b \<Rightarrow> wrap_i64 (n + 5) < b | None \<Rightarrow> False)
      then Some (Err ''token not yet valid'')
      else None)"

section \<open>The validator of JSON web tokens\<close>

record jwt_validator =
  jv_issuer :: string
  jv_jwksURL :: string
  jv_requiredAudience :: "string list"
  jv_requiredScopes :: "string list"
  jv_ttl :: duration
  jv_keys :: "string \<rightharpoonup> public_key"
  jv_allKeys :: "public_key list"
  jv_expires :: gotime

definition NewJWTValidator :: "oauth2_options option \<Rightarrow> jwt_validator option" where
  "NewJWTValidator opts =
     (case opts of
        None \<Rightarrow> None
      | Some opt \<Rightarrow>
        let jwksURL = TrimSpace (JwksUri opt); ttl = JwksCacheSeconds opt * time_Second in
        if jwksURL = '''' then None
        else Some \<lparr>jv_issuer = Issuer opt, jv_jwksURL = TrimRight_char jwksURL (CHR ''/''),
               jv_requiredAudience = RequiredAudience opt, jv_requiredScopes = RequiredScopes opt,
               jv_ttl = (if ttl \<le> 0 then 300 * time_Second else ttl),
               jv_keys = Map.empty, jv_allKeys = [], jv_expires = 0\<rparr>)"

definition LooksLikeJWT :: "string \<Rightarrow> bool" where
  "LooksLikeJWT token \<longleftrightarrow> Count_char token (CHR ''.'') = 2"

text \<open>The usable keys of a key set, by identifier (a later key wins) and in order.\<close>

fun usable_keys :: "auth_lib \<Rightarrow> jwk_key list \<Rightarrow> (string \<rightharpoonup> public_key) \<times> public_key list \<Rightarrow>
    (string \<rightharpoonup> public_key) \<times> public_key list" where
  "usable_keys lib [] ka = ka"
| "usable_keys lib (k # ks) (keys, al) =
     (case parseJWK lib k of
        Inl _ \<Rightarrow> usable_keys lib ks (keys, al)
      | Inr key \<Rightarrow>
          usable_keys lib ks (if jwk_Kid k \<noteq> '''' then keys(jwk_Kid k \<mapsto> key) else keys, al @ [key]))"

text \<open>The exchange with the key server, or the error of the request, is an argument.\<close>

type_synonym jwks_exchange = "gerr + jwk_key list http_response"

definition fetchJWKS :: "auth_lib \<Rightarrow> jwks_exchange \<Rightarrow> gerr + (string \<rightharpoonup> public_key) \<times> public_key list" where
  "fetchJWKS lib ex =
     (case ex of
        Inl err \<Rightarrow> Inl err
      | Inr resp \<Rightarrow>
        if resp_StatusCode resp < 200 \<or> resp_StatusCode resp > 299 then Inl (Err (''jwks status '' @ resp_Status resp))
        else case resp_Body resp of
          Inl err \<Rightarrow> Inl err
        | Inr doc \<Rightarrow>
          (case usable_keys lib doc (Map.empty, []) of
             (keys, al) \<Rightarrow> if al = [] then Inl (Err ''jwks: no usable keys'') else Inr (keys, al)))"

definition getKeys ::
  "auth_lib \<Rightarrow> jwks_exchange \<Rightarrow> gotime \<Rightarrow> bool \<Rightarrow> jwt_validator \<Rightarrow>
   (gerr + (string \<rightharpoonup> public_key) \<times> public_key list) \<times> jwt_validator" where
  "getKeys lib ex now force v =
     (if \<not> force \<and> jv_allKeys v \<noteq> [] \<and> time_Before now (jv_expires v) then (Inr (jv_keys v, jv_allKeys v), v)
      else case fetchJWKS lib ex of
        Inl err \<Rightarrow> (Inl err, v)
      | Inr (keys, al) \<Rightarrow>
          (Inr (keys, al), v\<lparr>jv_keys := keys, jv_allKeys := al, jv_expires := time_Add now (jv_ttl v)\<rparr>))"

text \<open>The key to check with: first from the cache, then from a forced fetch. \<open>ex\<close> and \<open>now\<close> are given per attempt.\<close>

definition pick_key :: "string \<Rightarrow> (string \<rightharpoonup> public_key) \<times> public_key list \<Rightarrow> public_key option" where
  "pick_key kid ka =
     (case ka of (keys, al) \<Rightarrow> if kid \<noteq> '''' then keys kid else if length al = 1 then Some (al ! 0) else None)"

definition lookupKey ::
  "auth_lib \<Rightarrow> (nat \<Rightarrow> jwks_exchange) \<Rightarrow> (nat \<Rightarrow> gotime) \<Rightarrow> string \<Rightarrow> jwt_validator \<Rightarrow>
   (gerr + public_key) \<times> jwt_validator" where
  "lookupKey lib ex now kid v =
     (case getKeys lib (ex 0) (now 0) False v of
        (Inl err, v1) \<Rightarrow> (Inl err, v1)
      | (Inr ka, v1) \<Rightarrow>
        (case pick_key kid ka of
           Some key \<Rightarrow> (Inr key, v1)
         | None \<Rightarrow>
           (case getKeys lib (ex 1) (now 1) True v1 of
              (Inl err, v2) \<Rightarrow> (Inl err, v2)
            | (Inr ka2, v2) \<Rightarrow>
              (case pick_key kid ka2 of
                 Some key \<Rightarrow> (Inr key, v2)
               | None \<Rightarrow>
                 (Inl (if kid \<noteq> '''' then Err ''jwks key not found for kid'' else Err ''jwt kid missing''), v2)))))"

definition verify_claims ::
  "auth_lib \<Rightarrow> gotime \<Rightarrow> octets \<Rightarrow> jwt_validator \<Rightarrow> gerr option" where
  "verify_claims lib now payload v =
     (case lib_claims lib payload of
        Inl err \<Rightarrow> Some (Wrapped ''jwt claims parse'' err)
      | Inr claims \<Rightarrow>
        (case validateStandardClaims claims (jv_issuer v) (jv_requiredAudience v) now of
           Some err \<Rightarrow> Some err
         | None \<Rightarrow>
           if \<not> claims_hasAllScopes (jv_requiredScopes v) claims then Some (Err ''insufficient scope'') else None))"

text \<open>\<^verbatim>\<open>JWTValidator.Validate\<close>; the clock is read up to three times.\<close>

definition Validate ::
  "auth_lib \<Rightarrow> (nat \<Rightarrow> jwks_exchange) \<Rightarrow> (nat \<Rightarrow> gotime) \<Rightarrow> string \<Rightarrow> jwt_validator \<Rightarrow> gerr option \<times> jwt_validator" where
  "Validate lib ex now token v =
     (if token = '''' then (Some (Err ''missing bearer token''), v)
      else case Split_char token (CHR ''.'') of
        [p0, p1, p2] \<Rightarrow>
          (case decodeJWTPart p0 of
             Inl err \<Rightarrow> (Some (Wrapped ''jwt header decode'' err), v)
           | Inr headBytes \<Rightarrow>
          (case decodeJWTPart p1 of
             Inl err \<Rightarrow> (Some (Wrapped ''jwt payload decode'' err), v)
           | Inr payloadBytes \<Rightarrow>
          (case decodeJWTPart p2 of
             Inl err \<Rightarrow> (Some (Wrapped ''jwt signature decode'' err), v)
           | Inr sig \<Rightarrow>
          (case lib_header lib headBytes of
             Inl err \<Rightarrow> (Some (Wrapped ''jwt header parse'' err), v)
           | Inr header \<Rightarrow>
             if jwt_Alg header = '''' then (Some (Err ''jwt missing alg''), v)
             else if jwt_Alg header \<notin> set jwtValidAlgs then (Some (Err ''unsupported jwt alg''), v)
             else
          (case lookupKey lib ex now (jwt_Kid header) v of
             (Inl err, v1) \<Rightarrow> (Some err, v1)
           | (Inr key, v1) \<Rightarrow>
          (case verifySignature lib (jwt_Alg header) (p0 @ ''.'' @ p1) sig key of
             Some err \<Rightarrow> (Some err, v1)
           | None \<Rightarrow> (verify_claims lib (now 2) payloadBytes v1, v1)))))))
      | _ \<Rightarrow> (Some (Err ''invalid jwt format''), v))"

section \<open>The introspection validator\<close>

record token_cache_entry =
  tc_active :: bool
  tc_scope :: string
  tc_exp :: gotime

record introspection =
  iv_introspectionURL :: string
  iv_authType :: string
  iv_clientID :: string
  iv_clientSecret :: string
  iv_bearerToken :: string
  iv_requiredScopes :: "string list"
  iv_m :: "string \<rightharpoonup> token_cache_entry"
  iv_ttl :: duration
  iv_backoffUntil :: gotime
  iv_backoffStep :: duration
  iv_maxBackoff :: duration

definition time_Millisecond :: duration where
  "time_Millisecond = 1000000"

definition newCachingIntrospectionValidator :: "oauth2_options \<Rightarrow> introspection" where
  "newCachingIntrospectionValidator opt =
     (let ttl = IntrospectionCacheSeconds opt * time_Second in
      \<lparr>iv_introspectionURL = TrimRight_char (IntrospectionUrl opt) (CHR ''/''),
       iv_authType = ToLower (IntrospectionAuthType opt), iv_clientID = IntrospectionClientId opt,
       iv_clientSecret = IntrospectionClientSecret opt, iv_bearerToken = IntrospectionBearerToken opt,
       iv_requiredScopes = RequiredScopes opt, iv_m = Map.empty,
       iv_ttl = (if ttl \<le> 0 then 30 * time_Second else ttl),
       iv_backoffUntil = 0, iv_backoffStep = 250 * time_Millisecond, iv_maxBackoff = 5 * time_Second\<rparr>)"

definition iv_hasAllScopes :: "introspection \<Rightarrow> string \<Rightarrow> bool" where
  "iv_hasAllScopes v granted \<longleftrightarrow>
     iv_requiredScopes v = [] \<or> list_all (\<lambda>need. need \<in> set (Fields granted)) (iv_requiredScopes v)"

text \<open>A request: the address, the form's token and the authorization it carries.\<close>

datatype request_auth = NoAuth | BasicAuth string string | BearerAuth string

record introspect_request =
  ir_url :: string
  ir_token :: string
  ir_auth :: request_auth

definition introspect_request_of :: "introspection \<Rightarrow> string \<Rightarrow> introspect_request" where
  "introspect_request_of v token =
     \<lparr>ir_url = iv_introspectionURL v, ir_token = token,
      ir_auth =
        (if iv_authType v = ''basic'' then BasicAuth (iv_clientID v) (iv_clientSecret v)
         else if iv_authType v = ''bearer'' then (if iv_bearerToken v \<noteq> '''' then BearerAuth (iv_bearerToken v) else NoAuth)
         else if iv_authType v = ''none'' then NoAuth
         else if iv_clientID v \<noteq> '''' \<or> iv_clientSecret v \<noteq> '''' then BasicAuth (iv_clientID v) (iv_clientSecret v)
         else NoAuth)\<rparr>"

text \<open>\<^verbatim>\<open>active\<close> and \<^verbatim>\<open>scope\<close> of the answer.\<close>

type_synonym introspect_server = "introspect_request \<Rightarrow> gerr + (bool \<times> string) http_response"

definition token_verdict :: "introspection \<Rightarrow> bool \<Rightarrow> string \<Rightarrow> gerr option" where
  "token_verdict v active scope =
     (if \<not> active then Some (Err ''token inactive'')
      else if \<not> iv_hasAllScopes v scope then Some (Err ''insufficient scope'') else None)"

definition iv_validate ::
  "introspect_server \<Rightarrow> gotime \<Rightarrow> string \<Rightarrow> introspection \<Rightarrow> gerr option \<times> introspection" where
  "iv_validate server now token v =
     (if iv_backoffUntil v > now then (Some (Err ''auth server backoff in effect''), v)
      else case (case iv_m v token of Some e \<Rightarrow> if tc_exp e > now then Some e else None | None \<Rightarrow> None) of
        Some e \<Rightarrow> (token_verdict v (tc_active e) (tc_scope e), v)
      | None \<Rightarrow>
        (case server (introspect_request_of v token) of
           Inl err \<Rightarrow> (Some err, v)
         | Inr resp \<Rightarrow>
           if resp_StatusCode resp = 429 then
             (let step = (if iv_backoffStep v < iv_maxBackoff v
                          then min (iv_backoffStep v * 2) (iv_maxBackoff v) else iv_backoffStep v)
              in (Some (Err ''introspection 429''),
                  v\<lparr>iv_backoffStep := step, iv_backoffUntil := time_Add now step\<rparr>))
           else
             let v1 = v\<lparr>iv_backoffStep := 250 * time_Millisecond, iv_backoffUntil := 0\<rparr> in
             if resp_StatusCode resp < 200 \<or> resp_StatusCode resp > 299 then (Some (Err (resp_Status resp)), v1)
             else case resp_Body resp of
               Inl err \<Rightarrow> (Some err, v1)
             | Inr (active, scope) \<Rightarrow>
                 (token_verdict v active scope,
                  v1\<lparr>iv_m := (iv_m v1)(token \<mapsto> \<lparr>tc_active = active, tc_scope = scope, tc_exp = time_Add now (iv_ttl v)\<rparr>)\<rparr>)))"

section \<open>Facts of the token validator\<close>

lemma ParseInt64_range: "ParseInt64 s = Some i \<Longrightarrow> is_i64 i"
  by (auto simp: ParseInt64_def Let_def split: list.splits if_splits option.splits)

lemma claimInt64_range: "claimInt64 claims key = Some i \<Longrightarrow> is_i64 i"
  by (auto simp: claimInt64_def ParseInt64_range split: option.splits jvalue.splits if_splits)

lemma wrap_i64_le: "- 9223372036854775808 \<le> x \<Longrightarrow> wrap_i64 x \<le> x"
  unfolding wrap_i64_def using zmod_le_nonneg_dividend [of "x + 9223372036854775808" 18446744073709551616] by linarith

text \<open>Every key the validator finds by identifier is one of its keys.\<close>

definition keys_ok :: "jwt_validator \<Rightarrow> bool" where
  "keys_ok v \<longleftrightarrow> ran (jv_keys v) \<subseteq> set (jv_allKeys v)"

lemma usable_keys_ran:
  "usable_keys lib ks (keys, al) = (keys', al') \<Longrightarrow> ran keys \<subseteq> set al \<Longrightarrow> ran keys' \<subseteq> set al'"
proof (induction ks arbitrary: keys al)
  case (Cons k ks)
  show ?case
  proof (cases "parseJWK lib k")
    case (Inl err)
    with Cons show ?thesis by auto
  next
    case (Inr key)
    have "ran (if jwk_Kid k \<noteq> '''' then keys(jwk_Kid k \<mapsto> key) else keys) \<subseteq> set (al @ [key])"
      using Cons.prems(2) by (auto simp: ran_def split: if_splits)
    moreover have "usable_keys lib ks (if jwk_Kid k \<noteq> '''' then keys(jwk_Kid k \<mapsto> key) else keys, al @ [key]) = (keys', al')"
      using Cons.prems(1) Inr by simp
    ultimately show ?thesis using Cons.IH by blast
  qed
qed simp

lemma fetchJWKS_ran: "fetchJWKS lib ex = Inr (keys, al) \<Longrightarrow> ran keys \<subseteq> set al"
  using usable_keys_ran [of lib _ Map.empty "[]" keys al]
  by (auto simp: fetchJWKS_def split: sum.splits if_splits prod.splits)

lemma pick_key_mem: "pick_key kid (keys, al) = Some key \<Longrightarrow> ran keys \<subseteq> set al \<Longrightarrow> key \<in> set al"
  by (auto simp: pick_key_def ran_def split: if_splits)

text \<open>What a key lookup leaves: the cached keys before they expire, or keys just fetched.\<close>

definition keys_from :: "auth_lib \<Rightarrow> (nat \<Rightarrow> jwks_exchange) \<Rightarrow> (nat \<Rightarrow> gotime) \<Rightarrow> jwt_validator \<Rightarrow> jwt_validator \<Rightarrow> bool" where
  "keys_from lib ex now v v' \<longleftrightarrow>
     v' = v \<and> now 0 < jv_expires v \<or>
     (\<exists>i \<in> {0, 1}. fetchJWKS lib (ex i) = Inr (jv_keys v', jv_allKeys v') \<and> jv_expires v' = now i + jv_ttl v)"

definition same_config :: "jwt_validator \<Rightarrow> jwt_validator \<Rightarrow> bool" where
  "same_config v v' \<longleftrightarrow> jv_issuer v' = jv_issuer v \<and> jv_requiredAudience v' = jv_requiredAudience v \<and>
     jv_requiredScopes v' = jv_requiredScopes v \<and> jv_ttl v' = jv_ttl v"

lemma getKeys_Inr:
  assumes "getKeys lib e t force v = (Inr (keys, al), v1)" and "keys_ok v"
  shows "keys = jv_keys v1" "al = jv_allKeys v1" "keys_ok v1" "same_config v v1"
    "v1 = v \<and> t < jv_expires v \<and> \<not> force \<or> fetchJWKS lib e = Inr (keys, al) \<and> jv_expires v1 = t + jv_ttl v"
  using assms fetchJWKS_ran [of lib e keys al]
  by (auto simp: getKeys_def keys_ok_def same_config_def time_defs split: if_splits sum.splits prod.splits)

lemma lookupKey_Inr:
  assumes "lookupKey lib ex now kid v = (Inr key, v')" and "keys_ok v"
  shows "key \<in> set (jv_allKeys v') \<and> keys_ok v' \<and> keys_from lib ex now v v' \<and> same_config v v'"
proof -
  obtain keys al v1 where g1: "getKeys lib (ex 0) (now 0) False v = (Inr (keys, al), v1)"
    using assms(1) by (auto simp: lookupKey_def split: sum.splits prod.splits)
  note f1 = getKeys_Inr [OF g1 assms(2)]
  show ?thesis
  proof (cases "pick_key kid (keys, al)")
    case (Some k)
    then have kv: "k = key" "v' = v1" using assms(1) g1 by (auto simp: lookupKey_def)
    have "key \<in> set (jv_allKeys v1)"
      using pick_key_mem [OF Some] f1(1-3) kv by (simp add: keys_ok_def)
    with kv f1 show ?thesis by (auto simp: keys_from_def)
  next
    case None
    then obtain keys2 al2 where g2: "getKeys lib (ex 1) (now 1) True v1 = (Inr (keys2, al2), v')"
      and k: "pick_key kid (keys2, al2) = Some key"
      using assms(1) g1 by (auto simp: lookupKey_def split: sum.splits prod.splits option.splits)
    note f2 = getKeys_Inr [OF g2 f1(3)]
    have "key \<in> set (jv_allKeys v')"
      using pick_key_mem [OF k] f2(1-3) by (simp add: keys_ok_def)
    moreover have "keys_from lib ex now v v'"
      using f2(1,2,5) f1(4) by (auto simp: keys_from_def same_config_def)
    ultimately show ?thesis using f1(4) f2(3,4) by (simp add: same_config_def)
  qed
qed

lemma validateStandardClaims_None:
  assumes "validateStandardClaims claims issuer audiences now = None" and "0 \<le> now"
  shows "(issuer \<noteq> '''' \<longrightarrow> claims ''iss'' = Some (JString issuer)) \<and>
    (audiences \<noteq> [] \<longrightarrow> set audiences \<inter> set (extractAudience claims) \<noteq> {}) \<and>
    (\<forall>e. claimInt64 claims ''exp'' = Some e \<longrightarrow> time_Unix now \<le> e + 5) \<and>
    (\<forall>b. claimInt64 claims ''nbf'' = Some b \<longrightarrow> b \<le> time_Unix now + 5)"
proof (intro conjI allI impI)
  show "issuer \<noteq> '''' \<Longrightarrow> claims ''iss'' = Some (JString issuer)"
    using assms(1) by (auto simp: validateStandardClaims_def Let_def split: if_splits option.splits jvalue.splits)
  show "audiences \<noteq> [] \<Longrightarrow> set audiences \<inter> set (extractAudience claims) \<noteq> {}"
    using assms(1) by (auto simp: validateStandardClaims_def audienceMatch_def list_ex_iff Let_def split: if_splits)
next
  fix e assume e: "claimInt64 claims ''exp'' = Some e"
  have "time_Unix now \<le> wrap_i64 (e + 5)"
    using assms(1) e by (auto simp: validateStandardClaims_def Let_def split: if_splits)
  also have "wrap_i64 (e + 5) \<le> e + 5"
    using claimInt64_range [OF e] by (intro wrap_i64_le) (simp add: is_i64_def)
  finally show "time_Unix now \<le> e + 5" .
next
  fix b assume b: "claimInt64 claims ''nbf'' = Some b"
  have "b \<le> wrap_i64 (time_Unix now + 5)"
    using assms(1) b by (auto simp: validateStandardClaims_def Let_def split: if_splits)
  also have "wrap_i64 (time_Unix now + 5) \<le> time_Unix now + 5"
    using assms(2) div_int_pos_iff [of now 1000000000] by (intro wrap_i64_le) (auto simp: time_Unix_def)
  finally show "b \<le> time_Unix now + 5" .
qed

lemma claims_hasAllScopes_iff: "claims_hasAllScopes required claims \<longleftrightarrow> set required \<subseteq> set (extractScopes claims)"
  by (auto simp: claims_hasAllScopes_def Let_def list_all_iff)


text \<open>\<open>Validate\<close> taken apart: an accepted token passed every check.\<close>

lemma Validate_None:
  assumes "Validate lib ex now token v = (None, v')"
  obtains p0 p1 p2 hb pb sig header key claims where
    "token = p0 @ ''.'' @ p1 @ ''.'' @ p2"
    "decodeJWTPart p0 = Inr hb" "decodeJWTPart p1 = Inr pb" "decodeJWTPart p2 = Inr sig"
    "lib_header lib hb = Inr header" "jwt_Alg header \<in> set jwtValidAlgs"
    "lookupKey lib ex now (jwt_Kid header) v = (Inr key, v')"
    "verifySignature lib (jwt_Alg header) (p0 @ ''.'' @ p1) sig key = None"
    "lib_claims lib pb = Inr claims"
    "validateStandardClaims claims (jv_issuer v') (jv_requiredAudience v') (now 2) = None"
    "claims_hasAllScopes (jv_requiredScopes v') claims"
proof -
  from assms obtain p0 p1 p2 where sp: "Split_char token (CHR ''.'') = [p0, p1, p2]" and ne: "token \<noteq> ''''"
    by (auto simp: Validate_def split: if_splits list.splits)
  note V = assms [unfolded Validate_def, simplified ne sp, simplified]
  from V obtain hb where hb: "decodeJWTPart p0 = Inr hb" by (cases "decodeJWTPart p0") auto
  from V hb obtain pb where pb: "decodeJWTPart p1 = Inr pb" by (cases "decodeJWTPart p1") auto
  from V hb pb obtain sig where sig: "decodeJWTPart p2 = Inr sig" by (cases "decodeJWTPart p2") auto
  from V hb pb sig obtain header where hd: "lib_header lib hb = Inr header" by (cases "lib_header lib hb") auto
  from V hb pb sig hd have alg: "jwt_Alg header \<in> set jwtValidAlgs" by (auto split: if_splits)
  from V hb pb sig hd alg obtain key v1 where key: "lookupKey lib ex now (jwt_Kid header) v = (Inr key, v1)"
    by (auto split: if_splits sum.splits prod.splits)
  from V hb pb sig hd alg key have ver: "verifySignature lib (jwt_Alg header) (p0 @ ''.'' @ p1) sig key = None"
    and vc: "verify_claims lib (now 2) pb v1 = None" and v1: "v1 = v'"
    by (auto split: if_splits option.splits)
  from vc obtain claims where "lib_claims lib pb = Inr claims"
    "validateStandardClaims claims (jv_issuer v1) (jv_requiredAudience v1) (now 2) = None"
    "claims_hasAllScopes (jv_requiredScopes v1) claims"
    by (auto simp: verify_claims_def split: sum.splits option.splits if_splits)
  then show thesis
    using that [of p0 p1 p2 hb pb sig header key claims] Split_char_three [OF sp] hb pb sig hd alg key ver v1 by simp
qed

section \<open>Facts of the introspection validator\<close>

text \<open>A call of the validator: the time, the token, and the server's behaviour at that time.\<close>

type_synonym iv_call = "gotime \<times> string \<times> introspect_server"

fun iv_run :: "iv_call list \<Rightarrow> introspection \<Rightarrow> gerr option list \<times> introspection" where
  "iv_run [] v = ([], v)"
| "iv_run ((now, token, server) # cs) v =
     (case iv_validate server now token v of
        (r, v1) \<Rightarrow> (case iv_run cs v1 of (rs, v2) \<Rightarrow> (r # rs, v2)))"

definition answered :: "introspection \<Rightarrow> iv_call \<Rightarrow> bool \<Rightarrow> string \<Rightarrow> bool" where
  "answered v c active scope \<longleftrightarrow>
     (\<exists>resp. snd (snd c) (introspect_request_of v (fst (snd c))) = Inr resp \<and>
        200 \<le> resp_StatusCode resp \<and> resp_StatusCode resp \<le> 299 \<and> resp_Body resp = Inr (active, scope))"

text \<open>The configuration of a validator: what no call changes.\<close>

definition iv_config :: "introspection \<Rightarrow> string \<times> string \<times> string \<times> string \<times> string \<times> string list \<times> duration \<times> duration" where
  "iv_config v = (iv_introspectionURL v, iv_authType v, iv_clientID v, iv_clientSecret v, iv_bearerToken v,
     iv_requiredScopes v, iv_ttl v, iv_maxBackoff v)"

text \<open>Every cache entry is an answer of the server to some earlier call, and expires \<open>ttl\<close> later.\<close>

definition cache_from :: "iv_call set \<Rightarrow> introspection \<Rightarrow> bool" where
  "cache_from H v \<longleftrightarrow>
     (\<forall>token e. iv_m v token = Some e \<longrightarrow>
        (\<exists>c \<in> H. fst (snd c) = token \<and> answered v c (tc_active e) (tc_scope e) \<and> tc_exp e = fst c + iv_ttl v))"

lemma iv_config_request:
  "iv_config v = iv_config v' \<Longrightarrow> introspect_request_of v token = introspect_request_of v' token"
  "iv_config v = iv_config v' \<Longrightarrow> iv_hasAllScopes v s = iv_hasAllScopes v' s"
  "iv_config v = iv_config v' \<Longrightarrow> iv_ttl v = iv_ttl v'"
  "iv_config v = iv_config v' \<Longrightarrow> iv_maxBackoff v = iv_maxBackoff v'"
  by (simp_all add: iv_config_def introspect_request_of_def iv_hasAllScopes_def)

lemma answered_config: "iv_config v = iv_config v' \<Longrightarrow> answered v c a s = answered v' c a s"
  by (simp add: answered_def iv_config_request [of v v'])

lemma iv_validate_config: "iv_config (snd (iv_validate server now token v)) = iv_config v"
  by (auto simp: iv_validate_def iv_config_def Let_def split: option.splits sum.splits)

text \<open>What a call does to the cache: nothing, or the answer just received for its token.\<close>

lemma iv_validate_cache:
  assumes "iv_validate server now token v = (r, v')"
  shows "iv_m v' = iv_m v \<or>
    (\<exists>active scope. answered v (now, token, server) active scope \<and> r = token_verdict v active scope \<and>
       iv_m v' = (iv_m v)(token \<mapsto> \<lparr>tc_active = active, tc_scope = scope, tc_exp = now + iv_ttl v\<rparr>))"
proof (cases "server (introspect_request_of v token)")
  case (Inl err)
  with assms show ?thesis by (auto simp: iv_validate_def split: if_splits option.splits)
next
  case (Inr resp)
  show ?thesis
  proof (cases "resp_StatusCode resp = 429 \<or> resp_StatusCode resp < 200 \<or> resp_StatusCode resp > 299")
    case True
    with assms Inr show ?thesis by (auto simp: iv_validate_def Let_def split: if_splits option.splits)
  next
    case False
    with assms Inr show ?thesis
      by (cases "resp_Body resp") (auto simp: iv_validate_def answered_def time_defs Let_def split: if_splits option.splits)
  qed
qed

lemma iv_validate_cache_from:
  assumes "iv_validate server now token v = (r, v')" and "cache_from H v"
  shows "cache_from (insert (now, token, server) H) v'"
proof -
  have c: "iv_config v' = iv_config v" using iv_validate_config [of server now token v] assms(1) by simp
  have old: "\<exists>c \<in> insert (now, token, server) H. fst (snd c) = tok \<and> answered v c (tc_active e) (tc_scope e) \<and>
      tc_exp e = fst c + iv_ttl v" if "iv_m v tok = Some e" for tok e
    using assms(2) that unfolding cache_from_def by blast
  consider "iv_m v' = iv_m v" | active scope where "answered v (now, token, server) active scope"
    "iv_m v' = (iv_m v)(token \<mapsto> \<lparr>tc_active = active, tc_scope = scope, tc_exp = now + iv_ttl v\<rparr>)"
    using iv_validate_cache [OF assms(1)] by blast
  then show ?thesis
  proof cases
    case 1
    show ?thesis
      unfolding cache_from_def answered_config [OF c] iv_config_request(3) [OF c] 1
      by (intro allI impI) (rule old)
  next
    case 2
    have "\<exists>c \<in> insert (now, token, server) H. fst (snd c) = tok \<and> answered v c (tc_active e) (tc_scope e) \<and>
        tc_exp e = fst c + iv_ttl v" if "iv_m v' tok = Some e" for tok e
      proof (cases "tok = token")
      case True
      with that 2(2) have "e = \<lparr>tc_active = active, tc_scope = scope, tc_exp = now + iv_ttl v\<rparr>" by simp
      with 2(1) True show ?thesis by (intro bexI [of _ "(now, token, server)"]) simp_all
    next
      case False
      with that 2(2) show ?thesis by (intro old) simp
    qed
    then show ?thesis unfolding cache_from_def answered_config [OF c] iv_config_request(3) [OF c] by blast
  qed
qed

text \<open>An accepting call rests on an answer, its own or one younger than \<open>ttl\<close>.\<close>

lemma iv_validate_accepts:
  assumes "iv_validate server now token v = (None, v')" and "cache_from H v" and "0 \<le> iv_ttl v"
  obtains c scope where "c \<in> insert (now, token, server) H" "fst (snd c) = token" "answered v c True scope"
    "now \<le> fst c + iv_ttl v" "iv_hasAllScopes v scope"
proof -
  have verdict: "token_verdict v active scope = None \<Longrightarrow> active \<and> iv_hasAllScopes v scope" for active scope
    by (auto simp: token_verdict_def split: if_splits)
  show thesis
  proof (cases "\<exists>e. iv_m v token = Some e \<and> tc_exp e > now")
    case True
    then obtain e where e: "iv_m v token = Some e" "tc_exp e > now" by blast
    with assms(1) have "token_verdict v (tc_active e) (tc_scope e) = None"
      by (auto simp: iv_validate_def split: if_splits)
    then have ok: "tc_active e" "iv_hasAllScopes v (tc_scope e)" using verdict by blast+
    obtain c where "c \<in> H" "fst (snd c) = token" "answered v c (tc_active e) (tc_scope e)" "tc_exp e = fst c + iv_ttl v"
      using assms(2) e(1) unfolding cache_from_def by blast
    with ok e(2) show thesis by (intro that [of c "tc_scope e"]) simp_all
  next
    case False
    with assms(1) obtain active scope where "answered v (now, token, server) active scope"
      "token_verdict v active scope = None"
      by (auto simp: iv_validate_def answered_def Let_def split: if_splits option.splits sum.splits)
    with verdict [of active scope] assms(3) show thesis by (intro that [of "(now, token, server)" scope]) simp_all
  qed
qed


lemma iv_run_accepts:
  assumes "iv_run cs v = (rs, v')" and "cache_from H v" and "0 \<le> iv_ttl v" and "i < length rs" and "rs ! i = None"
  shows "\<exists>c \<in> H \<union> set (take (Suc i) cs). \<exists>scope. fst (snd c) = fst (snd (cs ! i)) \<and> answered v c True scope \<and>
    fst (cs ! i) \<le> fst c + iv_ttl v \<and> iv_hasAllScopes v scope"
  using assms
proof (induction cs v arbitrary: H rs i rule: iv_run.induct)
  case (2 now token server cs v)
  obtain r v1 where r: "iv_validate server now token v = (r, v1)" by fastforce
  obtain rs1 where rs: "iv_run cs v1 = (rs1, v')" "rs = r # rs1" using 2(2) r by (auto split: prod.splits)
  have cfg: "iv_config v1 = iv_config v" using iv_validate_config [of server now token v] r by simp
  note same = answered_config [OF cfg] iv_config_request(2,3) [OF cfg]
  show ?case
  proof (cases i)
    case 0
    with 2(6) rs have "r = None" by simp
    from iv_validate_accepts [OF r [unfolded this] 2(3,4)] obtain c scope where
      "c \<in> insert (now, token, server) H" "fst (snd c) = token" "answered v c True scope"
      "now \<le> fst c + iv_ttl v" "iv_hasAllScopes v scope" by metis
    with 0 show ?thesis by (intro bexI [of _ c] exI [of _ scope]) auto
  next
    case (Suc k)
    have "\<exists>c \<in> insert (now, token, server) H \<union> set (take (Suc k) cs). \<exists>scope. fst (snd c) = fst (snd (cs ! k)) \<and>
        answered v1 c True scope \<and> fst (cs ! k) \<le> fst c + iv_ttl v1 \<and> iv_hasAllScopes v1 scope"
      using 2(4-6) rs Suc by (intro 2(1) [OF r [symmetric] rs(1) iv_validate_cache_from [OF r 2(3)]]) (simp_all add: same)
    then show ?thesis unfolding same using Suc by auto
  qed
qed simp

text \<open>A sample: libraries that accept every signature, a key set of one key, a token of three small parts.\<close>

definition sample_claims :: jclaims where
  "sample_claims = [''iss'' \<mapsto> JString ''me'', ''aud'' \<mapsto> JArray [JString ''api''], ''exp'' \<mapsto> JNumber ''100'', ''scope'' \<mapsto> JString ''read write'']"

definition sample_auth_lib :: auth_lib where
  "sample_auth_lib =
     \<lparr>lib_header = (\<lambda>_. Inr \<lparr>jwt_Alg = ''RS256'', jwt_Kid = ''k''\<rparr>), lib_claims = (\<lambda>_. Inr sample_claims),
      lib_sha = (\<lambda>_ d. d), lib_pkcs1v15 = (\<lambda>_ _ _ _. None), lib_pss = (\<lambda>_ _ _ _. None), lib_ecdsa = (\<lambda>_ _ _ _. True),
      lib_on_curve = (\<lambda>_ _ _. True)\<rparr>"

definition sample_jwks :: jwks_exchange where
  "sample_jwks = Inr \<lparr>resp_StatusCode = 200, resp_Status = ''OK'',
     resp_Body = Inr [\<lparr>jwk_Kty = ''RSA'', jwk_Kid = ''k'', jwk_N = ''AQ'', jwk_E = ''AQ'', jwk_Crv = '''', jwk_X = '''', jwk_Y = ''''\<rparr>]\<rparr>"

definition sample_oauth :: oauth2_options where
  "sample_oauth = \<lparr>AcceptJwt = True, AcceptIntrospection = True, Issuer = ''me'', JwksUri = ''u'', RequiredAudience = [''api''],
     RequiredScopes = [''read''], IntrospectionUrl = ''i'', IntrospectionAuthType = ''none'', IntrospectionClientId = '''',
     IntrospectionClientSecret = '''', IntrospectionBearerToken = '''', ForwardBearerToken = False, ForwardMetadataKey = '''',
     JwksCacheSeconds = 0, IntrospectionCacheSeconds = 60\<rparr>"

lemma jwt_sample: "(case NewJWTValidator (Some sample_oauth) of Some v \<Rightarrow> 
   (case Validate sample_auth_lib (\<lambda>_. sample_jwks) (\<lambda>_. 0) ''AA.AA.AA'' v of (r, v') \<Rightarrow> r = None \<and> jv_allKeys v' = [RSAKey 1 1]) | None \<Rightarrow> False)"
  by (simp add: NewJWTValidator_def sample_oauth_def TrimSpace_def ascii_space_def Validate_def Split_char_def
     decodeJWTPart_def base64url_DecodeString_def base64url_value_def base64_value_def sample_auth_lib_def
     jwtValidAlgs_def lookupKey_def getKeys_def fetchJWKS_def sample_jwks_def parseJWK_def ToUpper_def upper_char_def
     parseRSAPublicKey_def be_nat_def pick_key_def verifySignature_def verifyRSAPKCS1v15_def verify_claims_def
     validateStandardClaims_def sample_claims_def audienceMatch_def extractAudience_def array_strings_def
     claimInt64_def ParseInt64_def parse_digits_def digit_value_def time_Unix_def claims_hasAllScopes_def
     extractScopes_def parseScopeValue_def Fields_def wrap_i64_def is_i64_def time_defs List.map_filter_def Let_def)

text \<open>A server that answers every request with the same status and answer.\<close>

definition sample_server :: "int \<Rightarrow> introspect_server" where
  "sample_server code req = Inr \<lparr>resp_StatusCode = code, resp_Status = '''', resp_Body = Inr (True, ''read'')\<rparr>"

section \<open>Properties\<close>

text \<open>
  C20: what a JSON web token has to be for a relay to accept it. Its three parts decode, its
  algorithm is one of the nine signature algorithms (never \<^verbatim>\<open>none\<close> or an HMAC), its signature
  over the first two parts verifies under a key of the issuer's key set, which was fetched in this
  call or was cached and has not expired, and its claims name the issuer, one of the
  audiences, a life time around now (up to five seconds of skew) and every required scope. The
  validator's keys stay consistent, its configuration is unchanged.
\<close>

theorem jwt_accepts_only_verified:
  assumes "Validate lib ex now token v = (None, v')" and "keys_ok v" and "0 \<le> now 2"
  shows "keys_ok v' \<and> same_config v v' \<and> keys_from lib ex now v v' \<and>
    (\<exists>p0 p1 p2 hb pb sig header key claims.
       token = p0 @ ''.'' @ p1 @ ''.'' @ p2 \<and>
       decodeJWTPart p0 = Inr hb \<and> decodeJWTPart p1 = Inr pb \<and> decodeJWTPart p2 = Inr sig \<and>
       lib_header lib hb = Inr header \<and> jwt_Alg header \<in> set jwtValidAlgs \<and>
       key \<in> set (jv_allKeys v') \<and> verifySignature lib (jwt_Alg header) (p0 @ ''.'' @ p1) sig key = None \<and>
       lib_claims lib pb = Inr claims \<and>
       (jv_issuer v \<noteq> '''' \<longrightarrow> claims ''iss'' = Some (JString (jv_issuer v))) \<and>
       (jv_requiredAudience v \<noteq> [] \<longrightarrow> set (jv_requiredAudience v) \<inter> set (extractAudience claims) \<noteq> {}) \<and>
       (\<forall>e. claimInt64 claims ''exp'' = Some e \<longrightarrow> time_Unix (now 2) \<le> e + 5) \<and>
       (\<forall>b. claimInt64 claims ''nbf'' = Some b \<longrightarrow> b \<le> time_Unix (now 2) + 5) \<and>
       set (jv_requiredScopes v) \<subseteq> set (extractScopes claims))"
proof -
  from Validate_None [OF assms(1)] obtain p0 p1 p2 hb pb sig header key claims where
    t: "token = p0 @ ''.'' @ p1 @ ''.'' @ p2"
    "decodeJWTPart p0 = Inr hb" "decodeJWTPart p1 = Inr pb" "decodeJWTPart p2 = Inr sig"
    "lib_header lib hb = Inr header" "jwt_Alg header \<in> set jwtValidAlgs"
    and k: "lookupKey lib ex now (jwt_Kid header) v = (Inr key, v')"
    and s: "verifySignature lib (jwt_Alg header) (p0 @ ''.'' @ p1) sig key = None" "lib_claims lib pb = Inr claims"
    and c: "validateStandardClaims claims (jv_issuer v') (jv_requiredAudience v') (now 2) = None"
    and sc: "claims_hasAllScopes (jv_requiredScopes v') claims" by metis
  note L = lookupKey_Inr [OF k assms(2)]
  have same: "jv_issuer v' = jv_issuer v" "jv_requiredAudience v' = jv_requiredAudience v" "jv_requiredScopes v' = jv_requiredScopes v"
    using L unfolding same_config_def by blast+
  note claimed = validateStandardClaims_None [OF c assms(3), unfolded same] sc [unfolded claims_hasAllScopes_iff same]
  show ?thesis
    by (intro conjI exI [of _ p0] exI [of _ p1] exI [of _ p2] exI [of _ hb] exI [of _ pb] exI [of _ sig]
        exI [of _ header] exI [of _ key] exI [of _ claims])
      (rule t s L [THEN conjunct1] L [THEN conjunct2, THEN conjunct1]
        L [THEN conjunct2, THEN conjunct2, THEN conjunct1] L [THEN conjunct2, THEN conjunct2, THEN conjunct2]
        claimed(2) claimed(1) [THEN conjunct1] claimed(1) [THEN conjunct2, THEN conjunct1]
        claimed(1) [THEN conjunct2, THEN conjunct2, THEN conjunct1] claimed(1) [THEN conjunct2, THEN conjunct2, THEN conjunct2])+
qed

theorem jwt_accepts_only_verified_witness:
  "\<exists>v v'. NewJWTValidator (Some sample_oauth) = Some v \<and>
     Validate sample_auth_lib (\<lambda>_. sample_jwks) (\<lambda>_. 0) ''AA.AA.AA'' v = (None, v') \<and>
     jv_allKeys v' = [RSAKey 1 1] \<and> keys_ok v' \<and> same_config v v'"
proof -
  from jwt_sample obtain v v' where v: "NewJWTValidator (Some sample_oauth) = Some v"
    "Validate sample_auth_lib (\<lambda>_. sample_jwks) (\<lambda>_. 0) ''AA.AA.AA'' v = (None, v')" "jv_allKeys v' = [RSAKey 1 1]"
    by (auto split: option.splits prod.splits)
  have "keys_ok v" using v(1) by (auto simp: NewJWTValidator_def keys_ok_def Let_def split: if_splits)
  then show ?thesis using v jwt_accepts_only_verified [OF v(2)] by auto
qed

text \<open>
  C24: a relay that validates tokens by introspection accepts a token only on the word of the
  authorization server: in a sequence of calls from a fresh validator, the server answered the
  request for that very token in this call, or in an earlier one no longer ago than the cache
  lifetime, with success, as active, and with every required scope.
\<close>

theorem introspection_accepts_only_active:
  assumes "iv_run calls (newCachingIntrospectionValidator opts) = (rs, v')" and "i < length rs" and "rs ! i = None"
  shows "\<exists>c \<in> set (take (Suc i) calls). \<exists>scope. fst (snd c) = fst (snd (calls ! i)) \<and>
    answered (newCachingIntrospectionValidator opts) c True scope \<and>
    set (RequiredScopes opts) \<subseteq> set (Fields scope) \<and>
    fst (calls ! i) \<le> fst c +
      (if IntrospectionCacheSeconds opts \<le> 0 then 30 else IntrospectionCacheSeconds opts) * 1000000000"
proof -
  let ?v = "newCachingIntrospectionValidator opts"
  have v: "cache_from {} ?v" "0 \<le> iv_ttl ?v" "iv_requiredScopes ?v = RequiredScopes opts"
    "iv_ttl ?v = (if IntrospectionCacheSeconds opts \<le> 0 then 30 else IntrospectionCacheSeconds opts) * 1000000000"
    by (auto simp: newCachingIntrospectionValidator_def cache_from_def time_defs Let_def)
  obtain c scope where c: "c \<in> set (take (Suc i) calls)" "fst (snd c) = fst (snd (calls ! i))" "answered ?v c True scope"
    "fst (calls ! i) \<le> fst c + iv_ttl ?v" "iv_hasAllScopes ?v scope"
    using iv_run_accepts [OF assms(1) v(1,2) assms(2,3)] by auto
  from c(5) v(3) have "set (RequiredScopes opts) \<subseteq> set (Fields scope)"
    by (auto simp: iv_hasAllScopes_def list_all_iff)
  with c(1-4) v(4) show ?thesis by (intro bexI [of _ c] exI [of _ scope]) simp_all
qed

theorem introspection_accepts_only_active_witness:
  "\<exists>c \<in> {(5, ''t'', sample_server 200), (6, ''t'', sample_server 500)}. \<exists>scope.
     answered (newCachingIntrospectionValidator sample_oauth) c True scope \<and> ''read'' \<in> set (Fields scope)"
proof -
  let ?calls = "[(5, ''t'', sample_server 200), (6, ''t'', sample_server 500)] :: iv_call list"
  obtain rs v' where run: "iv_run ?calls (newCachingIntrospectionValidator sample_oauth) = (rs, v')" by fastforce
  have "fst (iv_run ?calls (newCachingIntrospectionValidator sample_oauth)) = [None, None]"
    by (simp add: iv_validate_def newCachingIntrospectionValidator_def sample_oauth_def sample_server_def
        token_verdict_def iv_hasAllScopes_def Fields_def ascii_space_def time_defs Let_def)
  with run have "1 < length rs" "rs ! 1 = None" by simp_all
  from introspection_accepts_only_active [OF run this] show ?thesis by (auto simp: sample_oauth_def)
qed

definition step_ok :: "introspection \<Rightarrow> bool" where
  "step_ok v \<longleftrightarrow> iv_maxBackoff v = 5 * time_Second \<and> 250 * time_Millisecond \<le> iv_backoffStep v \<and> iv_backoffStep v \<le> iv_maxBackoff v"

lemma iv_validate_step_ok:
  assumes "step_ok v"
  shows "step_ok (snd (iv_validate server now token v))"
  using assms
  by (auto simp: step_ok_def iv_validate_def time_defs time_Millisecond_def Let_def split: option.splits sum.splits prod.splits)

lemma iv_run_step_ok: "step_ok v \<Longrightarrow> step_ok (snd (iv_run calls v))"
proof (induction calls v rule: iv_run.induct)
  case (2 now token server cs v)
  then show ?case using iv_validate_step_ok [of v server now token] by (auto split: prod.splits)
qed simp

definition refuses :: "introspect_server \<Rightarrow> bool" where
  "refuses server \<longleftrightarrow> (\<forall>req. \<exists>resp. server req = Inr resp \<and> resp_StatusCode resp = 429)"

lemma iv_validate_refused:
  assumes "refuses server" and "iv_m v = Map.empty" and "iv_backoffUntil v \<le> now" and "step_ok v"
  shows "iv_validate server now token v = (Some (Err ''introspection 429''),
    v\<lparr>iv_backoffStep := min (2 * iv_backoffStep v) (5 * time_Second),
      iv_backoffUntil := now + min (2 * iv_backoffStep v) (5 * time_Second)\<rparr>)"
proof -
  obtain resp where "server (introspect_request_of v token) = Inr resp" "resp_StatusCode resp = 429"
    using assms(1) unfolding refuses_def by blast
  with assms(2-4) show ?thesis
    by (auto simp: iv_validate_def step_ok_def time_defs Let_def min_def)
qed

fun spaced :: "gotime \<Rightarrow> iv_call list \<Rightarrow> bool" where
  "spaced t [] = True"
| "spaced t ((now, token, server) # cs) \<longleftrightarrow> t \<le> now \<and> refuses server \<and> spaced (now + 5 * time_Second) cs"

lemma min_scaled: "1 \<le> p \<Longrightarrow> 0 \<le> m \<Longrightarrow> min (p * min a m) m = min (p * a) (m :: int)"
proof (cases "a \<le> m")
  case False
  assume "1 \<le> p" "0 \<le> m"
  then have "m \<le> p * m" "p * m \<le> p * a"
    using False mult_right_mono [of 1 p m] mult_left_mono [of m a p] by simp_all
  with False show ?thesis by simp
qed (simp add: min_def)

lemma iv_run_refused:
  assumes "spaced t calls" and "iv_m v = Map.empty" and "iv_backoffUntil v \<le> t" and "step_ok v"
  shows "iv_backoffStep (snd (iv_run calls v)) = min (2 ^ length calls * iv_backoffStep v) (5 * time_Second) \<and>
    (calls \<noteq> [] \<longrightarrow> iv_backoffUntil (snd (iv_run calls v)) = fst (last calls) + iv_backoffStep (snd (iv_run calls v)))"
  using assms
proof (induction calls arbitrary: t v)
  case Nil
  then show ?case by (simp add: step_ok_def)
next
  case (Cons c cs)
  obtain now token server where c: "c = (now, token, server)" by (cases c)
  let ?s = "min (2 * iv_backoffStep v) (5 * time_Second)"
  let ?v = "v\<lparr>iv_backoffStep := ?s, iv_backoffUntil := now + ?s\<rparr>"
  have step: "iv_validate server now token v = (Some (Err ''introspection 429''), ?v)"
    using Cons.prems c by (intro iv_validate_refused) auto
  have ok: "step_ok ?v" using iv_validate_step_ok [OF Cons.prems(4), of server now token] step by simp
  have run: "snd (iv_run (c # cs) v) = snd (iv_run cs ?v)" using step c by (simp split: prod.splits)
  have "iv_backoffStep (snd (iv_run cs ?v)) = min (2 ^ length cs * ?s) (5 * time_Second) \<and>
      (cs \<noteq> [] \<longrightarrow> iv_backoffUntil (snd (iv_run cs ?v)) = fst (last cs) + iv_backoffStep (snd (iv_run cs ?v)))"
    using Cons.IH [of "now + 5 * time_Second" ?v] Cons.prems c ok by simp
  moreover have "min (2 ^ length cs * ?s) (5 * time_Second) = min (2 ^ length (c # cs) * iv_backoffStep v) (5 * time_Second)"
    using min_scaled [of "2 ^ length cs" "5 * time_Second" "2 * iv_backoffStep v"] by (simp add: time_defs mult.assoc mult.left_commute)
  ultimately show ?case unfolding run using c by (cases "cs = []") (auto simp: min_def)
qed

text \<open>
  the back-off of the introspection client. Its step stays between a quarter of a second and
  five seconds in every sequence of calls; while the back-off is in effect the server is not asked
  and the answer is an error; and \<open>n\<close> refusals in a row, each call made after the back-off is
  over and for a token that is not cached, bring the step to \<open>2 ^ n\<close> quarters of a second,
  never more than five seconds, and the next request that much later.
\<close>

theorem introspection_backoff:
  assumes "iv_run calls (newCachingIntrospectionValidator opts) = (rs, v)"
  shows "250 * time_Millisecond \<le> iv_backoffStep v \<and> iv_backoffStep v \<le> 5 * time_Second \<and>
    (\<forall>server now token. now < iv_backoffUntil v \<longrightarrow>
       iv_validate server now token v = (Some (Err ''auth server backoff in effect''), v)) \<and>
    (spaced 0 calls \<and> calls \<noteq> [] \<longrightarrow>
       iv_backoffStep v = min (2 ^ length calls * (250 * time_Millisecond)) (5 * time_Second) \<and>
       iv_backoffUntil v = fst (last calls) + iv_backoffStep v)"
proof -
  let ?v = "newCachingIntrospectionValidator opts"
  have ok: "step_ok ?v"
    by (simp add: step_ok_def newCachingIntrospectionValidator_def time_defs time_Millisecond_def Let_def)
  have v0: "iv_m ?v = Map.empty" "iv_backoffUntil ?v \<le> 0" "iv_backoffStep ?v = 250 * time_Millisecond"
    by (simp_all add: newCachingIntrospectionValidator_def Let_def)
  have "step_ok v" using iv_run_step_ok [OF ok, of calls] assms by simp
  moreover have "\<forall>server now token. now < iv_backoffUntil v \<longrightarrow>
       iv_validate server now token v = (Some (Err ''auth server backoff in effect''), v)"
    by (simp add: iv_validate_def)
  ultimately show ?thesis
    using iv_run_refused [OF _ v0(1,2) ok, of calls] v0(3) assms by (auto simp: step_ok_def)
qed

theorem introspection_backoff_witness:
  "iv_backoffStep (snd (iv_run (map (\<lambda>n. (6000000000 * n, ''t'', sample_server 429)) [1, 2, 3])
     (newCachingIntrospectionValidator sample_oauth))) = 2000000000"
proof -
  let ?calls = "map (\<lambda>n. (6000000000 * n, ''t'', sample_server 429)) [1, 2, 3 :: int]"
  have "refuses (sample_server 429)" by (simp add: refuses_def sample_server_def)
  then have sp: "spaced 0 ?calls \<and> ?calls \<noteq> []" by (simp add: time_defs)
  obtain rs v where run: "iv_run ?calls (newCachingIntrospectionValidator sample_oauth) = (rs, v)" by fastforce
  have "iv_backoffStep v = min (2 ^ length ?calls * (250 * time_Millisecond)) (5 * time_Second)"
    using introspection_backoff [OF run] sp by blast
  then show ?thesis unfolding run by (simp add: time_defs time_Millisecond_def)
qed

end
