(* ===== verification/Receiving_Relay.thy ===== *)
theory Receiving_Relay
  imports Relay_Auth Go_Chan
begin

text \<open>
  The receiving relay (\<^verbatim>\<open>src/pkg/internal/receivingrelay\<close>): its configuration, the authentication
  policy, the streaming and the unary handler, the fan-out to its outputs, and its life cycle. What
  a stream delivers is a list of receptions, the acknowledgments the handler sent are a list
  of its local state, and the outcome of every send is a parameter. An interceptor installed by the
  user either refuses a call, looking at its metadata, or lets it through.
\<close>

section \<open>State\<close>

record grpcweb_config =
  AllowAllOrigins :: bool
  AllowedOrigins :: "string list"
  AllowedHeaders :: "string list"
  DisableWebsockets :: bool

type_synonym header_map = "string \<rightharpoonup> string"

text \<open>The incoming metadata of a call, in the order a loop visits them.\<close>

type_synonym incoming_md = "(string \<times> string list) list"

type_synonym interceptor = "incoming_md \<Rightarrow> gerr option"

text \<open>The validator of \<^verbatim>\<open>dynamicAuthValidator\<close>: the user's, or the closure \<^verbatim>\<open>ensureDefaultAuthValidator\<close> installs.\<close>

datatype dyn_validator = UserValidator "header_map \<Rightarrow> gerr option" | DefaultValidator

text \<open>The credentials of the server; \<open>stls_ClientAuth\<close>: whether it asks for a client certificate.\<close>

record server_tls =
  stls_ServerName :: string
  stls_RootCAs :: bool
  stls_ClientAuth :: bool
  stls_MinVersion :: nat
  stls_MaxVersion :: nat

text \<open>A gRPC server: its credentials and the chains of its interceptors.\<close>

record grpc_server =
  srv_tls :: "server_tls option"
  srv_unary_policy :: bool
  srv_unary :: "interceptor option"
  srv_stream_policy :: bool
  srv_stream :: "interceptor option"

record 'a receiving_relay =
  Outputs :: "component_ref list"
  rr_metadata :: metadata
  Address :: string
  DataCh :: "'a gochan"
  rr_Loggers :: "logger list"
  rr_TlsConfig :: "tls_config option"
  rr_isRunning :: int
  rr_configFrozen :: int
  DecryptionKey :: string
  rr_authOptions :: "authentication_options option"
  authUnary :: "interceptor option"
  authStream :: "interceptor option"
  rr_staticHeaders :: "(string \<times> string) list"   \<comment> \<open>in the order the loop visits them\<close>
  dynamicAuthValidator :: "dyn_validator option"
  rr_authRequired :: bool
  rr_passthrough :: bool
  rr_grpcWebConfig :: "grpcweb_config option"
  rr_cancelled :: bool
  outputsOnce :: bool

text \<open>The calls on the outputs, in order.\<close>

datatype 'a output_call = OutStart component_ref | OutStop component_ref | OutSubmit component_ref 'a

text \<open>
  The relay with the validators its default closure holds, whether the fan-out goroutine runs, the
  servers it has started, the calls on its outputs and its log.
\<close>

record 'a rr_sys =
  rs_rr :: "'a receiving_relay"
  rs_jwt :: "jwt_validator option"
  rs_introspection :: "introspection option"
  rs_fanout :: bool
  rs_servers :: "grpc_server list"
  rs_outputs :: "'a output_call list"
  rs_trace :: "'a effect list"

definition rr_NotifyLoggers ::
  "'a receiving_relay \<Rightarrow> loglevel \<Rightarrow> string \<Rightarrow> (string \<times> 'a logval) list \<Rightarrow> 'a effect list" where
  "rr_NotifyLoggers rr level msg kvs = log_calls logger_wants_both (rr_Loggers rr) level msg kvs"

definition rr_logKV :: "loglevel \<Rightarrow> string \<Rightarrow> (string \<times> 'a logval) list \<Rightarrow> 'a rr_sys \<Rightarrow> 'a rr_sys" where
  "rr_logKV level msg kvs z =
     z\<lparr>rs_trace := rs_trace z @
        rr_NotifyLoggers (rs_rr z) level msg ((''component'', LMeta (rr_metadata (rs_rr z))) # kvs)\<rparr>"

section \<open>Configuration\<close>

definition rr_requireNotFrozen :: "string \<Rightarrow> 'a receiving_relay \<Rightarrow> panic option" where
  "rr_requireNotFrozen action rr =
     (if rr_configFrozen rr = 1
      then Some (Panic (''attempted to modify frozen configuration of started component: action='' @ action)) else None)"

definition rr_config ::
  "string \<Rightarrow> ('a receiving_relay \<Rightarrow> 'a receiving_relay) \<Rightarrow> loglevel \<Rightarrow> string \<Rightarrow> (string \<times> 'a logval) list \<Rightarrow>
   'a rr_sys \<Rightarrow> panic + 'a rr_sys" where
  "rr_config action f level msg kvs z =
     (case rr_requireNotFrozen action (rs_rr z) of
        Some p \<Rightarrow> Inl p
      | None \<Rightarrow>
        Inr (rr_logKV level msg ([(''event'', LStr action), (''result'', LStr ''SUCCESS'')] @ kvs)
               (z\<lparr>rs_rr := f (rs_rr z)\<rparr>)))"

definition SetAddress :: "string \<Rightarrow> 'a rr_sys \<Rightarrow> panic + 'a rr_sys" where
  "SetAddress addr =
     rr_config ''SetAddress'' (\<lambda>rr. rr\<lparr>Address := addr\<rparr>) DebugLevel ''Address updated'' [(''address'', LStr addr)]"

definition SetDataChannel :: "nat \<Rightarrow> 'a rr_sys \<Rightarrow> panic + 'a rr_sys" where
  "SetDataChannel bufferSize =
     rr_config ''SetDataChannel'' (\<lambda>rr. rr\<lparr>DataCh := make_chan bufferSize\<rparr>) DebugLevel ''Data channel updated''
       [(''size'', LInt (int bufferSize))]"

definition SetDecryptionKey :: "string \<Rightarrow> 'a rr_sys \<Rightarrow> panic + 'a rr_sys" where
  "SetDecryptionKey key z =
     map_sum id
       (rr_logKV DebugLevel ''Decryption key details''
          [(''event'', LStr ''SetDecryptionKey''), (''result'', LStr ''DETAIL''), (''key_len'', LInt (int (length key)))])
       (rr_config ''SetDecryptionKey'' (\<lambda>rr. rr\<lparr>DecryptionKey := key\<rparr>) InfoLevel ''Decryption key updated'' [] z)"

definition rr_SetComponentMetadata :: "string \<Rightarrow> string \<Rightarrow> 'a rr_sys \<Rightarrow> panic + 'a rr_sys" where
  "rr_SetComponentMetadata name i z =
     (let old = rr_metadata (rs_rr z); new = old\<lparr>meta_Name := name, meta_ID := i\<rparr> in
      rr_config ''SetComponentMetadata'' (\<lambda>rr. rr\<lparr>rr_metadata := new\<rparr>) DebugLevel ''Component metadata updated''
        [(''previous'', LMeta old), (''current'', LMeta new)] z)"

definition rr_SetTLSConfig :: "tls_config option \<Rightarrow> 'a rr_sys \<Rightarrow> panic + 'a rr_sys" where
  "rr_SetTLSConfig tls =
     rr_config ''SetTLSConfig'' (\<lambda>rr. rr\<lparr>rr_TlsConfig := tls\<rparr>) DebugLevel ''TLS config updated'' [(''tls'', LPtr (tls \<noteq> None))]"

definition rr_SetPassthrough :: "bool \<Rightarrow> 'a rr_sys \<Rightarrow> panic + 'a rr_sys" where
  "rr_SetPassthrough enabled =
     rr_config ''SetPassthrough'' (\<lambda>rr. rr\<lparr>rr_passthrough := enabled\<rparr>) InfoLevel ''Passthrough updated''
       [(''enabled'', LBool enabled)]"

definition SetGRPCWebConfig :: "grpcweb_config option \<Rightarrow> 'a rr_sys \<Rightarrow> panic + 'a rr_sys" where
  "SetGRPCWebConfig cfg =
     rr_config ''SetGRPCWebConfig'' (\<lambda>rr. rr\<lparr>rr_grpcWebConfig := cfg\<rparr>) DebugLevel ''gRPC-Web config updated''
       [(''config'', LPtr (cfg \<noteq> None))]"

definition rr_SetAuthenticationOptions :: "authentication_options option \<Rightarrow> 'a rr_sys \<Rightarrow> panic + 'a rr_sys" where
  "rr_SetAuthenticationOptions opts =
     rr_config ''SetAuthenticationOptions'' (\<lambda>rr. rr\<lparr>rr_authOptions := opts\<rparr>) DebugLevel
       ''Authentication options updated'' [(''auth_options'', LPtr (opts \<noteq> None))]"

definition SetAuthInterceptor :: "interceptor option \<Rightarrow> 'a rr_sys \<Rightarrow> panic + 'a rr_sys" where
  "SetAuthInterceptor unary =
     rr_config ''SetAuthInterceptor'' (\<lambda>rr. rr\<lparr>authUnary := unary\<rparr>) DebugLevel ''Auth interceptor updated''
       [(''installed'', LBool (unary \<noteq> None))]"

definition SetAuthInterceptors ::
  "interceptor option \<Rightarrow> interceptor option \<Rightarrow> 'a rr_sys \<Rightarrow> panic + 'a rr_sys" where
  "SetAuthInterceptors unary str =
     rr_config ''SetAuthInterceptors'' (\<lambda>rr. rr\<lparr>authUnary := unary, authStream := str\<rparr>) DebugLevel
       ''Auth interceptors updated''
       [(''unary_installed'', LBool (unary \<noteq> None)), (''stream_installed'', LBool (str \<noteq> None))]"

definition rr_SetStaticHeaders :: "(string \<times> string) list \<Rightarrow> 'a rr_sys \<Rightarrow> panic + 'a rr_sys" where
  "rr_SetStaticHeaders hs =
     rr_config ''SetStaticHeaders'' (\<lambda>rr. rr\<lparr>rr_staticHeaders := hs\<rparr>) DebugLevel ''Static headers updated''
       [(''keys'', LInt (int (length hs)))]"

definition SetDynamicAuthValidator :: "(header_map \<Rightarrow> gerr option) option \<Rightarrow> 'a rr_sys \<Rightarrow> panic + 'a rr_sys" where
  "SetDynamicAuthValidator f =
     rr_config ''SetDynamicAuthValidator'' (\<lambda>rr. rr\<lparr>dynamicAuthValidator := map_option UserValidator f\<rparr>) DebugLevel
       ''Dynamic auth validator updated'' [(''installed'', LBool (f \<noteq> None))]"

definition rr_SetAuthRequired :: "bool \<Rightarrow> 'a rr_sys \<Rightarrow> panic + 'a rr_sys" where
  "rr_SetAuthRequired required =
     rr_config ''SetAuthRequired'' (\<lambda>rr. rr\<lparr>rr_authRequired := required\<rparr>) DebugLevel ''Auth requirement updated''
       [(''required'', LBool required)]"

definition rr_ConnectLogger :: "logger option list \<Rightarrow> 'a rr_sys \<Rightarrow> panic + 'a rr_sys" where
  "rr_ConnectLogger ls z =
     (case rr_requireNotFrozen ''ConnectLogger'' (rs_rr z) of
        Some p \<Rightarrow> Inl p
      | None \<Rightarrow> Inr (z\<lparr>rs_rr := (rs_rr z)\<lparr>rr_Loggers := rr_Loggers (rs_rr z) @ nonnil ls\<rparr>\<rparr>))"

definition ConnectOutput :: "component_ref option list \<Rightarrow> 'a rr_sys \<Rightarrow> panic + 'a rr_sys" where
  "ConnectOutput outs z =
     (case rr_requireNotFrozen ''ConnectOutput'' (rs_rr z) of
        Some p \<Rightarrow> Inl p
      | None \<Rightarrow>
        let os = nonnil outs in
        if os = [] then Inr z
        else Inr (fold (\<lambda>r. rr_logKV DebugLevel ''Output connected''
                     [(''event'', LStr ''ConnectOutput''), (''result'', LStr ''SUCCESS''), (''output'', LMeta (ref_metadata r))]) os
                   (z\<lparr>rs_rr := (rs_rr z)\<lparr>Outputs := Outputs (rs_rr z) @ os\<rparr>\<rparr>)))"

definition GetAddress :: "'a rr_sys \<Rightarrow> string \<times> 'a rr_sys" where
  "GetAddress z =
     (Address (rs_rr z),
      rr_logKV DebugLevel ''GetAddress'' [(''event'', LStr ''GetAddress''), (''address'', LStr (Address (rs_rr z)))] z)"

definition GetOutputs :: "'a rr_sys \<Rightarrow> component_ref list \<times> 'a rr_sys" where
  "GetOutputs z =
     (Outputs (rs_rr z), rr_logKV DebugLevel ''GetOutputs'' [(''event'', LStr ''GetOutputs''), (''outputs'', LPtr True)] z)"

definition rr_IsRunning :: "'a rr_sys \<Rightarrow> bool" where
  "rr_IsRunning z \<longleftrightarrow> rr_isRunning (rs_rr z) = 1"

datatype rr_option =
    RR_WithAddress string
  | RR_WithOutput "component_ref option list"
  | RR_WithTLSConfig "tls_config option"
  | RR_WithPassthrough bool
  | RR_WithGRPCWebConfig "grpcweb_config option"
  | RR_WithBufferSize nat
  | RR_WithLogger "logger option list"
  | RR_WithComponentMetadata string string
  | RR_WithDecryptionKey string
  | RR_WithAuthenticationOptions "authentication_options option"
  | RR_WithAuthInterceptors "interceptor option" "interceptor option"
  | RR_WithStaticHeaders "(string \<times> string) list"
  | RR_WithDynamicAuthValidator "(header_map \<Rightarrow> gerr option) option"
  | RR_WithAuthRequired bool

fun apply_rr_option :: "rr_option \<Rightarrow> 'a rr_sys \<Rightarrow> panic + 'a rr_sys" where
  "apply_rr_option (RR_WithAddress a) z = SetAddress a z"
| "apply_rr_option (RR_WithOutput os) z = ConnectOutput os z"
| "apply_rr_option (RR_WithTLSConfig t) z = rr_SetTLSConfig t z"
| "apply_rr_option (RR_WithPassthrough b) z = rr_SetPassthrough b z"
| "apply_rr_option (RR_WithGRPCWebConfig c) z = SetGRPCWebConfig c z"
| "apply_rr_option (RR_WithBufferSize n) z = SetDataChannel n z"
| "apply_rr_option (RR_WithLogger ls) z = rr_ConnectLogger ls z"
| "apply_rr_option (RR_WithComponentMetadata n i) z = rr_SetComponentMetadata n i z"
| "apply_rr_option (RR_WithDecryptionKey k) z = SetDecryptionKey k z"
| "apply_rr_option (RR_WithAuthenticationOptions a) z = rr_SetAuthenticationOptions a z"
| "apply_rr_option (RR_WithAuthInterceptors u st) z = SetAuthInterceptors u st z"
| "apply_rr_option (RR_WithStaticHeaders hs) z = rr_SetStaticHeaders hs z"
| "apply_rr_option (RR_WithDynamicAuthValidator f) z = SetDynamicAuthValidator f z"
| "apply_rr_option (RR_WithAuthRequired b) z = rr_SetAuthRequired b z"

fun apply_rr_options :: "rr_option list \<Rightarrow> 'a rr_sys \<Rightarrow> panic + 'a rr_sys" where
  "apply_rr_options [] z = Inr z"
| "apply_rr_options (opt # opts) z =
     (case apply_rr_option opt z of Inl p \<Rightarrow> Inl p | Inr z' \<Rightarrow> apply_rr_options opts z')"

definition NewReceivingRelay_base :: "string \<Rightarrow> 'a receiving_relay" where
  "NewReceivingRelay_base hash =
     \<lparr>Outputs = [], rr_metadata = \<lparr>meta_ID = hash, meta_Type = ''RECEIVING_RELAY'', meta_Name = ''''\<rparr>, Address = '''',
      DataCh = make_chan 1024, rr_Loggers = [], rr_TlsConfig = None, rr_isRunning = 0, rr_configFrozen = 0,
      DecryptionKey = '''', rr_authOptions = None, authUnary = None, authStream = None, rr_staticHeaders = [],
      dynamicAuthValidator = None, rr_authRequired = True, rr_passthrough = False, rr_grpcWebConfig = None,
      rr_cancelled = False, outputsOnce = False\<rparr>"

definition NewReceivingRelay :: "string \<Rightarrow> rr_option list \<Rightarrow> panic + 'a rr_sys" where
  "NewReceivingRelay hash opts =
     apply_rr_options opts
       \<lparr>rs_rr = NewReceivingRelay_base hash, rs_jwt = None, rs_introspection = None, rs_fanout = False, rs_servers = [],
        rs_outputs = [], rs_trace = []\<rparr>"

section \<open>Environment\<close>

text \<open>
  What a call of the relay meets: the libraries, the zero value of the element type, the outcome of
  each acknowledgment, the texts of errors, the authentication libraries and servers with the
  clock readings, the key files, the attempts to bind, the end of \<^verbatim>\<open>Serve\<close>, and the choice
  of \<^verbatim>\<open>select\<close>.
\<close>

record 'a rr_env =
  re_lib :: "'a relay_lib"
  re_zero :: 'a
  re_ack :: "nat \<Rightarrow> gerr option"
  re_text :: "gerr \<Rightarrow> string"
  re_auth :: auth_lib
  re_jwks :: "nat \<Rightarrow> jwks_exchange"
  re_introspect :: introspect_server
  re_now :: "nat \<Rightarrow> gotime"
  re_keypair :: "gerr option"
  re_ca :: "gerr option"
  re_pem :: bool
  re_bind :: "nat \<Rightarrow> gerr option"
  re_serve :: "gerr option"
  re_select :: nat

section \<open>Authentication policy\<close>

definition collectIncomingMD :: "incoming_md \<Rightarrow> header_map" where
  "collectIncomingMD md =
     fold (\<lambda>(k, vals) m. if vals \<noteq> [] then m(ToLower k \<mapsto> hd vals) else m) md Map.empty"

definition checkStaticHeaders :: "'a receiving_relay \<Rightarrow> header_map \<Rightarrow> gerr option" where
  "checkStaticHeaders rr md =
     (case find (\<lambda>(k, v). md (ToLower k) \<noteq> Some v) (rr_staticHeaders rr) of
        None \<Rightarrow> None
      | Some (k, v) \<Rightarrow> Some (Err (''missing/invalid header '' @ k)))"

definition maybePolicyError :: "gerr option \<Rightarrow> 'a rr_sys \<Rightarrow> gerr option \<times> 'a rr_sys" where
  "maybePolicyError err z =
     (case err of
        None \<Rightarrow> (None, z)
      | Some e \<Rightarrow>
        if rr_authRequired (rs_rr z) then (Some e, z)
        else (None, rr_logKV WarnLevel ''Auth policy soft-failed''
                [(''event'', LStr ''AuthPolicy''), (''result'', LStr ''SOFT_FAIL''), (''error'', LErr (Some e))] z))"

text \<open>The closure \<^verbatim>\<open>ensureDefaultAuthValidator\<close> installs.\<close>

definition bearer_token :: "header_map \<Rightarrow> string" where
  "bearer_token md =
     (case md ''authorization'' of
        Some v \<Rightarrow> if HasPrefix (ToLower v) ''bearer '' then TrimSpace (drop 7 v) else ''''
      | None \<Rightarrow> '''')"

definition default_validate :: "'a rr_env \<Rightarrow> header_map \<Rightarrow> 'a rr_sys \<Rightarrow> gerr option \<times> 'a rr_sys" where
  "default_validate env md z =
     (let token = bearer_token md in
      if token = '''' then (Some (Err ''missing bearer token''), z)
      else case (rs_jwt z, rs_introspection z) of
        (Some jv, intro) \<Rightarrow>
          if LooksLikeJWT token \<or> intro = None then
            (case Validate (re_auth env) (re_jwks env) (re_now env) token jv of
               (r, jv') \<Rightarrow> (r, z\<lparr>rs_jwt := Some jv'\<rparr>))
          else
            (case iv_validate (re_introspect env) (re_now env 0) token (the intro) of
               (r, iv) \<Rightarrow> (r, z\<lparr>rs_introspection := Some iv\<rparr>))
      | (None, Some v) \<Rightarrow>
          (case iv_validate (re_introspect env) (re_now env 0) token v of
             (r, iv) \<Rightarrow> (r, z\<lparr>rs_introspection := Some iv\<rparr>))
      | (None, None) \<Rightarrow> (Some (Err ''missing bearer token''), z))"

definition run_validator :: "'a rr_env \<Rightarrow> dyn_validator \<Rightarrow> header_map \<Rightarrow> 'a rr_sys \<Rightarrow> gerr option \<times> 'a rr_sys" where
  "run_validator env f md z =
     (case f of UserValidator g \<Rightarrow> (g md, z) | DefaultValidator \<Rightarrow> default_validate env md z)"

definition needPolicy :: "'a receiving_relay \<Rightarrow> bool" where
  "needPolicy rr \<longleftrightarrow> dynamicAuthValidator rr \<noteq> None \<or> length (rr_staticHeaders rr) > 0"

text \<open>What the unary and the stream policy interceptor do before they call the handler.\<close>

definition policy_check :: "'a rr_env \<Rightarrow> incoming_md \<Rightarrow> 'a rr_sys \<Rightarrow> gerr option \<times> 'a rr_sys" where
  "policy_check env md z =
     (let m = collectIncomingMD md in
      case maybePolicyError (checkStaticHeaders (rs_rr z) m) z of
        (Some e, z1) \<Rightarrow> (Some e, z1)
      | (None, z1) \<Rightarrow>
        (case dynamicAuthValidator (rs_rr z1) of
           None \<Rightarrow> (None, z1)
         | Some f \<Rightarrow>
           (case run_validator env f m z1 of
              (None, z2) \<Rightarrow> (None, z2)
            | (Some err, z2) \<Rightarrow> maybePolicyError (Some (Wrapped ''auth validation failed'' err)) z2)))"

definition ensureDefaultAuthValidator :: "'a rr_sys \<Rightarrow> 'a rr_sys" where
  "ensureDefaultAuthValidator z =
     (case (dynamicAuthValidator (rs_rr z), rr_authOptions (rs_rr z)) of
        (None, Some a) \<Rightarrow>
          (case (auth_Mode a = AUTH_OAUTH2, auth_Oauth2 a) of
             (True, Some opt) \<Rightarrow>
               let jv = (if AcceptJwt opt \<and> JwksUri opt \<noteq> '''' then NewJWTValidator (Some opt) else None);
                   z1 = (if jv = None then z
                         else rr_logKV InfoLevel ''Auth JWT validator installed''
                                [(''event'', LStr ''AuthJWT''), (''result'', LStr ''SUCCESS''), (''issuer'', LStr (Issuer opt)),
                                 (''jwks_url'', LStr (JwksUri opt)), (''required_audience'', LPtr True),
                                 (''required_scopes'', LPtr True)] z);
                   iv = (if AcceptIntrospection opt \<and> IntrospectionUrl opt \<noteq> ''''
                         then Some (newCachingIntrospectionValidator opt) else None);
                   z2 = (if iv = None then z1
                         else rr_logKV InfoLevel ''Auth introspection validator installed''
                                [(''event'', LStr ''AuthIntrospection''), (''result'', LStr ''SUCCESS''),
                                 (''introspection_url'', LStr (IntrospectionUrl opt)),
                                 (''auth_type'', LStr (IntrospectionAuthType opt)), (''required_scopes'', LPtr True)] z1)
               in if jv = None \<and> iv = None then z2
                  else z2\<lparr>rs_rr := (rs_rr z2)\<lparr>dynamicAuthValidator := Some DefaultValidator\<rparr>,
                          rs_jwt := jv, rs_introspection := iv\<rparr>
           | _ \<Rightarrow> z)
      | _ \<Rightarrow> z)"

text \<open>The interceptors of a new server, on top of its credentials.\<close>

definition appendAuthServerOptions :: "server_tls option \<Rightarrow> 'a rr_sys \<Rightarrow> grpc_server \<times> 'a rr_sys" where
  "appendAuthServerOptions tls z =
     (let z1 = ensureDefaultAuthValidator z; rr = rs_rr z1 in
      (\<lparr>srv_tls = tls, srv_unary_policy = needPolicy rr, srv_unary = authUnary rr,
        srv_stream_policy = needPolicy rr, srv_stream = authStream rr\<rparr>, z1))"

section \<open>Serving\<close>

definition rr_freeze :: "'a rr_sys \<Rightarrow> 'a rr_sys" where
  "rr_freeze z = z\<lparr>rs_rr := (rs_rr z)\<lparr>rr_configFrozen := 1\<rparr>\<rparr>"

definition startOutputFanout :: "'a rr_sys \<Rightarrow> 'a rr_sys" where
  "startOutputFanout z =
     (if length (Outputs (rs_rr z)) = 0 \<or> outputsOnce (rs_rr z) then z
      else z\<lparr>rs_rr := (rs_rr z)\<lparr>outputsOnce := True\<rparr>, rs_fanout := True\<rparr>)"

text \<open>One round of the fan-out goroutine; it ends at the end of the closed channel.\<close>

definition fanout_round :: "'a rr_sys \<Rightarrow> 'a rr_sys option" where
  "fanout_round z =
     (if \<not> rs_fanout z then None
      else case chan_recv (DataCh (rs_rr z)) of
        RecvBlocks \<Rightarrow> None
      | RecvClosed \<Rightarrow> Some (z\<lparr>rs_fanout := False\<rparr>)
      | Received d ch \<Rightarrow>
          Some (z\<lparr>rs_rr := (rs_rr z)\<lparr>DataCh := ch\<rparr>,
                  rs_outputs := rs_outputs z @ map (\<lambda>out. OutSubmit out d) (Outputs (rs_rr z))\<rparr>))"

definition loadTLSCredentials :: "'a rr_env \<Rightarrow> tls_config \<Rightarrow> 'a rr_sys \<Rightarrow> (gerr + server_tls) \<times> 'a rr_sys" where
  "loadTLSCredentials env c z =
     (if \<not> UseTLS c then
        (Inl (Err ''TLS is disabled''),
         rr_logKV WarnLevel ''TLS disabled'' [(''event'', LStr ''TLSCredentials''), (''result'', LStr ''SKIPPED'')] z)
      else case re_keypair env of
        Some err \<Rightarrow>
          (Inl err, rr_logKV ErrorLevel ''TLS load keypair failed''
             [(''event'', LStr ''TLSCredentials''), (''result'', LStr ''FAILURE''), (''cert_file'', LStr (CertFile c)),
              (''key_file'', LStr (KeyFile c)), (''error'', LErr (Some err))] z)
      | None \<Rightarrow>
        (case re_ca env of
           Some err \<Rightarrow>
             (Inl err, rr_logKV ErrorLevel ''TLS read CA failed''
                [(''event'', LStr ''TLSCredentials''), (''result'', LStr ''FAILURE''), (''ca_file'', LStr (CAFile c)),
                 (''error'', LErr (Some err))] z)
         | None \<Rightarrow>
           if \<not> re_pem env then
             (Inl (Err ''failed to append CA certificate''),
              rr_logKV ErrorLevel ''TLS append CA failed''
                [(''event'', LStr ''TLSCredentials''), (''result'', LStr ''FAILURE''), (''ca_file'', LStr (CAFile c))] z)
           else
             let mn = (if MinTLSVersion c = 0 then 0x0303 else MinTLSVersion c);
                 mx = (if MaxTLSVersion c = 0 then 0x0304 else MaxTLSVersion c)
             in (Inr \<lparr>stls_ServerName = SubjectAlternativeName c, stls_RootCAs = True, stls_ClientAuth = False,
                      stls_MinVersion = mn, stls_MaxVersion = mx\<rparr>,
                 rr_logKV DebugLevel ''TLS credentials loaded''
                   [(''event'', LStr ''TLSCredentials''), (''result'', LStr ''SUCCESS''),
                    (''server_name'', LStr (SubjectAlternativeName c)), (''min_tls_version'', LInt (int mn)),
                    (''max_tls_version'', LInt (int mx))] z)))"

text \<open>
  \<^verbatim>\<open>Listen\<close>: \<open>attempt\<close> counts the recursive calls after a failed bind, between which it sleeps. It
  returns when an attempt succeeds, or fails and \<^verbatim>\<open>listenForever\<close> is false; otherwise it
  never does. Serving is another goroutine, unless \<^verbatim>\<open>listenForever\<close> is false.
\<close>

definition serve_ended :: "'a rr_env \<Rightarrow> string \<Rightarrow> string \<Rightarrow> 'a rr_sys \<Rightarrow> 'a rr_sys" where
  "serve_ended env msg event z =
     (case re_serve env of
        None \<Rightarrow> z
      | Some err \<Rightarrow> rr_logKV ErrorLevel msg
          [(''event'', LStr event), (''result'', LStr ''FAILURE''), (''error'', LErr (Some err))] z)"

definition listen_credentials :: "'a rr_env \<Rightarrow> 'a rr_sys \<Rightarrow> (gerr + server_tls option) \<times> 'a rr_sys" where
  "listen_credentials env z =
     (case rr_TlsConfig (rs_rr z) of
        Some c \<Rightarrow>
          if UseTLS c then
            (case loadTLSCredentials env c
               (rr_logKV DebugLevel ''TLS enabled''
                  [(''event'', LStr ''ListenTLS''), (''result'', LStr ''SUCCESS''), (''tls'', LPtr True)] z) of
               (Inl err, z2) \<Rightarrow>
                 (Inl err, rr_logKV ErrorLevel ''TLS credentials failed''
                    [(''event'', LStr ''ListenTLS''), (''result'', LStr ''FAILURE''), (''error'', LErr (Some err))] z2)
             | (Inr t, z2) \<Rightarrow> (Inr (Some t), z2))
          else (Inr None, z)
      | None \<Rightarrow> (Inr None, z))"

text \<open>One attempt: what the call returns, or the state it is called again with.\<close>

definition listen_attempt ::
  "'a rr_env \<Rightarrow> bool \<Rightarrow> int \<Rightarrow> nat \<Rightarrow> 'a rr_sys \<Rightarrow> (gerr option \<times> 'a rr_sys) + 'a rr_sys" where
  "listen_attempt env listenForever retryInSeconds attempt z =
     (case listen_credentials env (startOutputFanout (rr_freeze z)) of
        (Inl err, z2) \<Rightarrow> Inl (Some (Wrapped ''failed to load TLS credentials'' err), z2)
      | (Inr tls, z2) \<Rightarrow>
        let z3 = rr_logKV InfoLevel ''Binding listener''
                   [(''event'', LStr ''Listen''), (''result'', LStr ''START''), (''address'', LStr (Address (rs_rr z2)))] z2
        in (case re_bind env attempt of
              Some err \<Rightarrow>
                let z4 = rr_logKV ErrorLevel ''Bind failed''
                           [(''event'', LStr ''Listen''), (''result'', LStr ''FAILURE''),
                            (''address'', LStr (Address (rs_rr z3))), (''error'', LErr (Some err))] z3
                in if \<not> listenForever then Inl (Some err, z4)
                   else Inr (rr_logKV WarnLevel ''Bind retrying''
                          [(''event'', LStr ''ListenRetry''), (''result'', LStr ''RETRY''),
                           (''retry_in_seconds'', LInt retryInSeconds)] z4)
            | None \<Rightarrow>
                (case appendAuthServerOptions tls z3 of
                   (srv, z4) \<Rightarrow>
                     let z5 = rr_logKV InfoLevel ''gRPC server started''
                                [(''event'', LStr ''ListenStarted''), (''result'', LStr ''SUCCESS''),
                                 (''address'', LStr (Address (rs_rr z4)))]
                                (z4\<lparr>rs_servers := rs_servers z4 @ [srv]\<rparr>)
                     in if \<not> listenForever then Inl (None, serve_ended env ''gRPC server stopped'' ''ListenStopped'' z5)
                        else Inl (None, z5))))"

partial_function (option) Listen ::
  "'a rr_env \<Rightarrow> bool \<Rightarrow> int \<Rightarrow> nat \<Rightarrow> 'a rr_sys \<Rightarrow> (gerr option \<times> 'a rr_sys) option" where
  "Listen env listenForever retryInSeconds attempt z =
     (case listen_attempt env listenForever retryInSeconds attempt z of
        Inl r \<Rightarrow> Some r
      | Inr z' \<Rightarrow> Listen env listenForever retryInSeconds (Suc attempt) z')"

section \<open>Life cycle\<close>

definition start_outputs :: "(component_ref \<Rightarrow> bool) \<Rightarrow> component_ref list \<Rightarrow> 'a output_call list" where
  "start_outputs started outs = map OutStart (filter (\<lambda>out. \<not> started out) outs)"

text \<open>\<^verbatim>\<open>Start\<close>; the goroutine it launches runs \<open>Listen env True 0 0\<close>.\<close>

definition rr_Start :: "(component_ref \<Rightarrow> bool) \<Rightarrow> 'a rr_sys \<Rightarrow> 'a rr_sys" where
  "rr_Start started z =
     (let z1 = startOutputFanout (rr_freeze z);
          z2 = rr_logKV InfoLevel ''Receiving relay starting''
                 [(''event'', LStr ''Start''), (''result'', LStr ''SUCCESS''),
                  (''outputs'', LInt (int (length (Outputs (rs_rr z1)))))] z1
      in z2\<lparr>rs_outputs := rs_outputs z2 @ start_outputs started (Outputs (rs_rr z2)),
            rs_rr := (rs_rr z2)\<lparr>rr_isRunning := 1\<rparr>\<rparr>)"

text \<open>\<^verbatim>\<open>Stop\<close>; the shutdown of the gRPC-Web server, when there is one, does not touch the relay.\<close>

definition rr_Stop :: "'a rr_sys \<Rightarrow> panic + 'a rr_sys" where
  "rr_Stop z =
     (let z1 = rr_logKV InfoLevel ''Receiving relay stopping'' [(''event'', LStr ''Stop''), (''result'', LStr ''SUCCESS'')] z;
          z2 = z1\<lparr>rs_rr := (rs_rr z1)\<lparr>rr_cancelled := True\<rparr>\<rparr>
      in case chan_close (DataCh (rs_rr z2)) of
           Inl p \<Rightarrow> Inl p
         | Inr ch \<Rightarrow>
             Inr (z2\<lparr>rs_rr := (rs_rr z2)\<lparr>DataCh := ch, rr_isRunning := 0\<rparr>,
                     rs_outputs := rs_outputs z2 @ map OutStop (Outputs (rs_rr z2))\<rparr>))"

section \<open>The content type gRPC-Web payloads default to\<close>

definition empty_message_metadata :: message_metadata where
  "empty_message_metadata =
     \<lparr>md_Headers = Map.empty, md_ContentType = '''', md_Version = None, md_Performance = None, md_Security = None,
      md_TraceId = ''''\<rparr>"

text \<open>
  \<^verbatim>\<open>applyGRPCWebContentTypeDefaults\<close> on a payload with encoding \<open>enc\<close>: what the metadata it is given
  (new ones when there are none) become.
\<close>

definition applyGRPCWebContentTypeDefaults ::
  "'a receiving_relay \<Rightarrow> int \<Rightarrow> message_metadata option \<Rightarrow> message_metadata option" where
  "applyGRPCWebContentTypeDefaults rr enc meta =
     (if rr_grpcWebConfig rr = None then meta
      else
        let m = (case meta of None \<Rightarrow> empty_message_metadata | Some m \<Rightarrow> m) in
        if md_ContentType m \<noteq> '''' then Some m
        else if enc = PAYLOAD_ENCODING_GOB \<or> enc = PAYLOAD_ENCODING_UNSPECIFIED
        then Some (m\<lparr>md_ContentType := ''application/json''\<rparr>) else Some m)"

section \<open>The stream handler\<close>

text \<open>What \<^verbatim>\<open>Recv\<close> gives: an envelope, the end, or an error with its status code and the context's error.\<close>

datatype reception = GotEnvelope relay_envelope | GotEOF | GotError int gerr "gerr option"

text \<open>
  The local variables of \<^verbatim>\<open>StreamReceive\<close>, the acknowledgments sent so far, and the number of
  attempts to send one. The counts of a batch are 32 bits wide, the number of messages seen 64.
\<close>

record stream_state =
  sl_streamID :: string
  sl_defaults :: "message_metadata option"
  sl_ackMode :: int
  sl_ackEveryN :: nat
  sl_batchOK :: nat
  sl_batchErr :: nat
  sl_lastSeq :: nat
  sl_batchSeen :: nat
  sl_acks :: "stream_acknowledgment list"
  sl_sends :: nat

definition stream_init :: stream_state where
  "stream_init =
     \<lparr>sl_streamID = '''', sl_defaults = None, sl_ackMode = ACK_PER_MESSAGE, sl_ackEveryN = 0, sl_batchOK = 0,
      sl_batchErr = 0, sl_lastSeq = 0, sl_batchSeen = 0, sl_acks = [], sl_sends = 0\<rparr>"

definition empty_ack :: stream_acknowledgment where
  "empty_ack =
     \<lparr>ack_Success = False, ack_Message = '''', ack_StreamId = '''', ack_Id = '''', ack_Seq = 0, ack_Code = 0,
      ack_Retryable = False, ack_LastSeq = 0, ack_OkCount = 0, ack_ErrCount = 0\<rparr>"

definition sendAck :: "'a rr_env \<Rightarrow> stream_acknowledgment \<Rightarrow> stream_state \<Rightarrow> gerr option \<times> stream_state" where
  "sendAck env a sl =
     (case re_ack env (sl_sends sl) of
        None \<Rightarrow> (None, sl\<lparr>sl_acks := sl_acks sl @ [a], sl_sends := Suc (sl_sends sl)\<rparr>)
      | Some err \<Rightarrow> (Some err, sl\<lparr>sl_sends := Suc (sl_sends sl)\<rparr>))"

definition flushBatch :: "'a rr_env \<Rightarrow> string \<Rightarrow> stream_state \<Rightarrow> stream_state" where
  "flushBatch env finalMsg sl =
     (if sl_ackMode sl \<noteq> ACK_BATCH then sl
      else if sl_batchOK sl = 0 \<and> sl_batchErr sl = 0 then sl
      else (snd (sendAck env
              (empty_ack\<lparr>ack_Success := sl_batchErr sl = 0, ack_Message := finalMsg, ack_StreamId := sl_streamID sl,
                 ack_LastSeq := sl_lastSeq sl, ack_OkCount := sl_batchOK sl, ack_ErrCount := sl_batchErr sl\<rparr>) sl))
             \<lparr>sl_batchOK := 0, sl_batchErr := 0, sl_batchSeen := 0\<rparr>)"

text \<open>
  The switch on the mode after a payload: \<open>res\<close> is the message of a failure, or \<open>None\<close>; \<open>failed\<close>
  is the text of the error when the acknowledgment cannot be sent.
\<close>

definition ack_payload ::
  "'a rr_env \<Rightarrow> wrapped_payload \<Rightarrow> string option \<Rightarrow> string \<Rightarrow> stream_state \<Rightarrow> gerr option \<times> stream_state" where
  "ack_payload env wp res failed sl =
     (if sl_ackMode sl = ACK_PER_MESSAGE then
        (case sendAck env
            (empty_ack\<lparr>ack_Success := res = None, ack_Message := (case res of None \<Rightarrow> ''OK'' | Some m \<Rightarrow> m),
               ack_StreamId := sl_streamID sl, ack_Id := wp_Id wp, ack_Seq := wp_Seq wp,
               ack_Code := (if res = None then 0 else 1)\<rparr>) sl of
           (Some err, sl') \<Rightarrow> (Some (Wrapped failed err), sl')
         | (None, sl') \<Rightarrow> (None, sl'))
      else if sl_ackMode sl = ACK_BATCH then
        (let sl1 = (if res = None then sl\<lparr>sl_batchOK := (sl_batchOK sl + 1) mod 4294967296\<rparr>
                    else sl\<lparr>sl_batchErr := (sl_batchErr sl + 1) mod 4294967296\<rparr>);
             sl2 = sl1\<lparr>sl_batchSeen := (sl_batchSeen sl1 + 1) mod 18446744073709551616\<rparr>
         in (None, if sl_ackEveryN sl2 > 0 \<and> sl_batchSeen sl2 mod sl_ackEveryN sl2 = 0
                   then flushBatch env ''Batch ack'' sl2 else sl2))
      else (None, sl))"

text \<open>
  The metadata that hold for a payload, its own or the stream's defaults, and the defaults after that: the
  content type is set in place. (A passed-through payload shares the defaults with the stream; the
  model gives it a copy.)
\<close>

definition effective_metadata ::
  "'a receiving_relay \<Rightarrow> message_metadata option \<Rightarrow> wrapped_payload \<Rightarrow> message_metadata option \<times> message_metadata option" where
  "effective_metadata rr defaults payload =
     (case wp_Metadata payload of
        Some m \<Rightarrow> (applyGRPCWebContentTypeDefaults rr (wp_PayloadEncoding payload) (Some m), defaults)
      | None \<Rightarrow>
        (case defaults of
           None \<Rightarrow> (applyGRPCWebContentTypeDefaults rr (wp_PayloadEncoding payload) None, None)
         | Some d \<Rightarrow>
           let d' = applyGRPCWebContentTypeDefaults rr (wp_PayloadEncoding payload) (Some d) in (d', d')))"

text \<open>The element a payload carries, passed through or unwrapped, or the error.\<close>

definition payload_item :: "'a rr_env \<Rightarrow> 'a receiving_relay \<Rightarrow> wrapped_payload \<Rightarrow> gerr + 'a" where
  "payload_item env rr wp =
     (if rr_passthrough rr then asPassthroughItem (re_lib env) (Some wp)
      else case UnwrapPayload (re_lib env) (Some wp) (DecryptionKey rr) (re_zero env) of
        (d, None) \<Rightarrow> Inr d
      | (_, Some err) \<Rightarrow> Inl err)"

definition trace_id_of :: "string \<Rightarrow> message_metadata option \<Rightarrow> string" where
  "trace_id_of fallback meta =
     (case meta of Some m \<Rightarrow> if md_TraceId m \<noteq> '''' then md_TraceId m else fallback | None \<Rightarrow> fallback)"

datatype stream_next = StreamContinue | StreamReturn "gerr option"

text \<open>A payload on the stream. \<open>None\<close> when the send on the data channel waits.\<close>

definition stream_payload ::
  "'a rr_env \<Rightarrow> string \<Rightarrow> wrapped_payload \<Rightarrow> stream_state \<times> 'a rr_sys \<Rightarrow>
   (panic + stream_next \<times> stream_state \<times> 'a rr_sys) option" where
  "stream_payload env traceFallback payload slz =
     (case slz of (sl, z) \<Rightarrow>
      (case effective_metadata (rs_rr z) (sl_defaults sl) payload of (meta, defaults') \<Rightarrow>
        let traceID = trace_id_of traceFallback meta;
            sl1 = sl\<lparr>sl_defaults := defaults', sl_lastSeq := wp_Seq payload\<rparr>;
            wp = payload\<lparr>wp_Metadata := meta\<rparr>;
            ids = [(''trace_id'', LStr traceID), (''stream_id'', LStr (sl_streamID sl1)), (''id'', LStr (wp_Id wp)),
                   (''seq'', LInt (int (wp_Seq wp)))];
            after = (\<lambda>r z'. case r of
                       (Some err, sl') \<Rightarrow> Some (Inr (StreamReturn (Some err), sl', z'))
                     | (None, sl') \<Rightarrow> Some (Inr (StreamContinue, sl', z')))
        in case payload_item env (rs_rr z) wp of
             Inl err \<Rightarrow>
               after (ack_payload env wp
                        (Some ((if rr_passthrough (rs_rr z) then ''passthrough failed: '' else ''unwrap failed: '') @ re_text env err))
                        ''failed to send error ack'' sl1)
                 (rr_logKV ErrorLevel (if rr_passthrough (rs_rr z) then ''Passthrough failed'' else ''Unwrap failed'')
                    ([(''event'', LStr ''StreamPayload''), (''result'', LStr ''FAILURE'')] @ ids @ [(''error'', LErr (Some err))]) z)
           | Inr d \<Rightarrow>
               (case chan_send d (DataCh (rs_rr z)) of
                  SendBlocks \<Rightarrow> None
                | SendPanics \<Rightarrow> Some (Inl (Panic ''send on closed channel''))
                | Sent ch \<Rightarrow>
                    after (ack_payload env wp None ''failed to send ack'' sl1)
                      (rr_logKV DebugLevel ''Payload received''
                         ([(''event'', LStr ''StreamPayload''), (''result'', LStr ''SUCCESS'')] @ ids @
                          [(''payload_type'', LStr (wp_PayloadType wp)), (''payload_encoding'', LInt (wp_PayloadEncoding wp)),
                           (''payload_bytes'', LInt (int (length (wp_Payload wp))))])
                         (z\<lparr>rs_rr := (rs_rr z)\<lparr>DataCh := ch\<rparr>\<rparr>)))))"

definition stream_opened :: "'a rr_env \<Rightarrow> stream_open \<Rightarrow> stream_state \<times> 'a rr_sys \<Rightarrow> stream_next \<times> stream_state \<times> 'a rr_sys" where
  "stream_opened env opn slz =
     (case slz of (sl, z) \<Rightarrow>
      let mode = (if so_AckMode opn \<noteq> ACK_MODE_UNSPECIFIED then so_AckMode opn else sl_ackMode sl);
          n = (if mode = ACK_BATCH then (if so_AckEveryN opn = 0 then 1024 else so_AckEveryN opn) else 0);
          sl1 = sl\<lparr>sl_streamID := so_StreamId opn, sl_defaults := so_Defaults opn, sl_ackMode := mode, sl_ackEveryN := n\<rparr>;
          z1 = rr_logKV InfoLevel ''Stream opened''
                 [(''event'', LStr ''StreamOpen''), (''result'', LStr ''SUCCESS''), (''stream_id'', LStr (sl_streamID sl1)),
                  (''ack_mode'', LInt mode), (''ack_every_n'', LInt (int n)), (''max_in_flight'', LInt (int (so_MaxInFlight opn))),
                  (''omit_payload_metadata'', LBool (so_OmitPayloadMetadata opn))] z
      in if mode = ACK_NONE then (StreamContinue, sl1, z1)
         else case sendAck env (empty_ack\<lparr>ack_Success := True, ack_Message := ''Stream open accepted'',
                ack_StreamId := sl_streamID sl1\<rparr>) sl1 of
           (Some err, sl2) \<Rightarrow> (StreamReturn (Some (Wrapped ''failed to send open ack'' err)), sl2, z1)
         | (None, sl2) \<Rightarrow> (StreamContinue, sl2, z1))"

text \<open>One turn of the loop of \<^verbatim>\<open>StreamReceive\<close>.\<close>

definition stream_step ::
  "'a rr_env \<Rightarrow> string \<Rightarrow> reception \<Rightarrow> stream_state \<times> 'a rr_sys \<Rightarrow>
   (panic + stream_next \<times> stream_state \<times> 'a rr_sys) option" where
  "stream_step env traceFallback got slz =
     (case slz of (sl, z) \<Rightarrow>
      (case got of
         GotEOF \<Rightarrow> Some (Inr (StreamReturn None, flushBatch env ''EOF'' sl, z))
       | GotError code err ctxErr \<Rightarrow>
           if code = 1 \<or> code = 4 \<or> ctxErr \<noteq> None then
             Some (Inr (StreamReturn None, flushBatch env ''context done'' sl,
               rr_logKV DebugLevel ''Stream receive ended''
                 [(''event'', LStr ''StreamReceiveEnd''), (''result'', LStr ''END''), (''code'', LInt code),
                  (''error'', LErr (Some err)), (''ctx_err'', LErr ctxErr)] z))
           else
             Some (Inr (StreamReturn (Some err), sl,
               rr_logKV ErrorLevel ''Stream receive failed''
                 [(''event'', LStr ''StreamReceiveRecv''), (''result'', LStr ''FAILURE''), (''code'', LInt code),
                  (''error'', LErr (Some err))] z))
       | GotEnvelope (EnvelopeOpen opn) \<Rightarrow> Some (Inr (stream_opened env opn (sl, z)))
       | GotEnvelope (EnvelopeClose reason) \<Rightarrow>
           Some (Inr (StreamReturn None, flushBatch env ''Stream closed'' sl,
             rr_logKV InfoLevel ''Stream closed''
               [(''event'', LStr ''StreamClose''), (''result'', LStr ''SUCCESS''), (''stream_id'', LStr (sl_streamID sl)),
                (''reason'', LStr reason)] z))
       | GotEnvelope EnvelopeEmpty \<Rightarrow> Some (Inr (StreamContinue, sl, z))
       | GotEnvelope (EnvelopePayload payload) \<Rightarrow> stream_payload env traceFallback payload (sl, z)))"

text \<open>The handler on the receptions so far: it waits for the next one, or has returned.\<close>

fun StreamReceive ::
  "'a rr_env \<Rightarrow> string \<Rightarrow> reception list \<Rightarrow> stream_state \<times> 'a rr_sys \<Rightarrow>
   (panic + stream_next \<times> stream_state \<times> 'a rr_sys) option" where
  "StreamReceive env tr [] (sl, z) = Some (Inr (StreamContinue, sl, z))"
| "StreamReceive env tr (got # gots) slz =
     (case stream_step env tr got slz of
        Some (Inr (StreamContinue, sl, z)) \<Rightarrow> StreamReceive env tr gots (sl, z)
      | r \<Rightarrow> r)"


section \<open>The unary handler\<close>

definition md_trace_id :: "incoming_md \<Rightarrow> string option" where
  "md_trace_id md = (case map_of md ''trace-id'' of Some (v # _) \<Rightarrow> Some v | _ \<Rightarrow> None)"

text \<open>
  \<^verbatim>\<open>Receive\<close> acknowledges at once, with the trace identifier of the payload, of the call or a fresh one, and
  leaves the payload to a goroutine.
\<close>

definition Receive ::
  "incoming_md \<Rightarrow> string \<Rightarrow> wrapped_payload \<Rightarrow> 'a rr_sys \<Rightarrow> stream_acknowledgment \<times> string \<times> 'a rr_sys" where
  "Receive md hash payload z =
     (let traceID = (case wp_Metadata payload of
                       Some m \<Rightarrow> if md_TraceId m \<noteq> '''' then md_TraceId m
                                 else (case md_trace_id md of Some v \<Rightarrow> v | None \<Rightarrow> hash)
                     | None \<Rightarrow> (case md_trace_id md of Some v \<Rightarrow> v | None \<Rightarrow> hash))
      in (empty_ack\<lparr>ack_Success := True, ack_Message := ''Received'', ack_Id := wp_Id payload, ack_Seq := wp_Seq payload\<rparr>,
          traceID,
          rr_logKV InfoLevel ''Unary payload received''
            [(''event'', LStr ''Receive''), (''result'', LStr ''SUCCESS''), (''trace_id'', LStr traceID),
             (''id'', LStr (wp_Id payload)), (''seq'', LInt (int (wp_Seq payload))),
             (''payload_type'', LStr (wp_PayloadType payload)), (''payload_encoding'', LInt (wp_PayloadEncoding payload)),
             (''payload_bytes'', LInt (int (length (wp_Payload payload))))] z))"

datatype receive_case = ToDataCh | RelayCtxDone

definition receive_goroutine ::
  "'a rr_env \<Rightarrow> string \<Rightarrow> wrapped_payload \<Rightarrow> 'a rr_sys \<Rightarrow> (panic + 'a rr_sys) option" where
  "receive_goroutine env tid payload z =
     (let p = payload\<lparr>wp_Metadata :=
                applyGRPCWebContentTypeDefaults (rs_rr z) (wp_PayloadEncoding payload) (wp_Metadata payload)\<rparr>;
          ids = [(''trace_id'', LStr tid), (''id'', LStr (wp_Id p)), (''seq'', LInt (int (wp_Seq p)))]
      in case payload_item env (rs_rr z) p of
           Inl err \<Rightarrow>
             Some (Inr (rr_logKV ErrorLevel (if rr_passthrough (rs_rr z) then ''Passthrough failed'' else ''Unwrap failed'')
               ([(''event'', LStr ''Receive''), (''result'', LStr ''FAILURE'')] @ ids @ [(''error'', LErr (Some err))]) z))
         | Inr d \<Rightarrow>
           let z1 = rr_logKV InfoLevel ''Forwarding to outputs''
                      ([(''event'', LStr ''ReceiveForward''), (''result'', LStr ''SUCCESS'')] @ ids) z;
               sent = chan_send d (DataCh (rs_rr z1));
               ready = (if sent = SendBlocks then [] else [ToDataCh]) @ (if rr_cancelled (rs_rr z1) then [RelayCtxDone] else [])
           in (case select_pick (re_select env) ready of
                 None \<Rightarrow> None
               | Some RelayCtxDone \<Rightarrow> Some (Inr z1)
               | Some ToDataCh \<Rightarrow>
                   (case sent of
                      Sent ch \<Rightarrow> Some (Inr (z1\<lparr>rs_rr := (rs_rr z1)\<lparr>DataCh := ch\<rparr>\<rparr>))
                    | _ \<Rightarrow> Some (Inl (Panic ''send on closed channel'')))))"

section \<open>A call on a server\<close>

text \<open>The interceptors of a chain run in order, the policy first; a refusal ends the call before the handler.\<close>

definition run_interceptors ::
  "'a rr_env \<Rightarrow> bool \<Rightarrow> interceptor option \<Rightarrow> incoming_md \<Rightarrow> 'a rr_sys \<Rightarrow> gerr option \<times> 'a rr_sys" where
  "run_interceptors env policy user md z =
     (case (if policy then policy_check env md z else (None, z)) of
        (Some err, z1) \<Rightarrow> (Some err, z1)
      | (None, z1) \<Rightarrow> (case user of None \<Rightarrow> (None, z1) | Some f \<Rightarrow> (f md, z1)))"

text \<open>The trace identifier a stream falls back to: the first one of its metadata unless empty, or a fresh one.\<close>

definition stream_trace :: "incoming_md \<Rightarrow> string \<Rightarrow> string" where
  "stream_trace md hash = (case md_trace_id md of Some v \<Rightarrow> if v = '''' then hash else v | None \<Rightarrow> hash)"

definition serve_stream ::
  "'a rr_env \<Rightarrow> grpc_server \<Rightarrow> incoming_md \<Rightarrow> string \<Rightarrow> reception list \<Rightarrow> 'a rr_sys \<Rightarrow>
   (panic + stream_next \<times> stream_state \<times> 'a rr_sys) option" where
  "serve_stream env srv md hash gots z =
     (case run_interceptors env (srv_stream_policy srv) (srv_stream srv) md z of
        (Some err, z1) \<Rightarrow> Some (Inr (StreamReturn (Some err), stream_init, z1))
      | (None, z1) \<Rightarrow> StreamReceive env (stream_trace md hash) gots (stream_init, z1))"

definition serve_unary ::
  "'a rr_env \<Rightarrow> grpc_server \<Rightarrow> incoming_md \<Rightarrow> string \<Rightarrow> wrapped_payload \<Rightarrow> 'a rr_sys \<Rightarrow>
   (gerr + stream_acknowledgment \<times> string) \<times> 'a rr_sys" where
  "serve_unary env srv md hash payload z =
     (case run_interceptors env (srv_unary_policy srv) (srv_unary srv) md z of
        (Some err, z1) \<Rightarrow> (Inl err, z1)
      | (None, z1) \<Rightarrow> (case Receive md hash payload z1 of (a, tid, z2) \<Rightarrow> (Inr (a, tid), z2)))"


section \<open>Facts\<close>

text \<open>Logging changes nothing but the trace.\<close>

lemma rr_logKV_sel [simp]:
  "rs_rr (rr_logKV l m kvs z) = rs_rr z" "rs_jwt (rr_logKV l m kvs z) = rs_jwt z"
  "rs_introspection (rr_logKV l m kvs z) = rs_introspection z" "rs_fanout (rr_logKV l m kvs z) = rs_fanout z"
  "rs_servers (rr_logKV l m kvs z) = rs_servers z" "rs_outputs (rr_logKV l m kvs z) = rs_outputs z"
  by (simp_all add: rr_logKV_def)

text \<open>What the handler reads of the relay does not involve the data channel.\<close>

lemma handler_reads_DataCh [simp]:
  "payload_item env (rr\<lparr>DataCh := ch\<rparr>) = payload_item env rr"
  "effective_metadata (rr\<lparr>DataCh := ch\<rparr>) = effective_metadata rr"
  "payload_item env (rr\<lparr>rr_cancelled := c, DataCh := ch, rr_isRunning := i\<rparr>) = payload_item env rr"
  "effective_metadata (rr\<lparr>rr_cancelled := c, DataCh := ch, rr_isRunning := i\<rparr>) = effective_metadata rr"
  by (auto simp: payload_item_def effective_metadata_def applyGRPCWebContentTypeDefaults_def fun_eq_iff Let_def
      split: option.splits)

subsection \<open>What a stream delivers\<close>

text \<open>The elements, or errors, of a sequence of payloads, the defaults handed on.\<close>

fun stream_results ::
  "'a rr_env \<Rightarrow> 'a receiving_relay \<Rightarrow> message_metadata option \<Rightarrow> wrapped_payload list \<Rightarrow> (gerr + 'a) list" where
  "stream_results env rr d [] = []"
| "stream_results env rr d (p # ps) =
     (case effective_metadata rr d p of (m, d') \<Rightarrow>
        payload_item env rr (p\<lparr>wp_Metadata := m\<rparr>) # stream_results env rr d' ps)"

definition rights :: "('e + 'b) list \<Rightarrow> 'b list" where
  "rights rs = List.map_filter (\<lambda>r. case r of Inl _ \<Rightarrow> None | Inr x \<Rightarrow> Some x) rs"

lemma rights_simps [simp]: "rights [] = []" "rights (Inl e # rs) = rights rs" "rights (Inr x # rs) = x # rights rs"
  by (simp_all add: rights_def List.map_filter_def)

lemma rights_append: "rights (rs @ ss) = rights rs @ rights ss"
  by (simp add: rights_def List.map_filter_def)

lemma length_rights: "length (rights rs) = length (filter id (map (\<lambda>r. \<not> isl r) rs))"
proof (induction rs)
  case (Cons r rs)
  then show ?case by (cases r) simp_all
qed simp

lemma stream_results_DataCh [simp]: "stream_results env (rr\<lparr>DataCh := ch\<rparr>) d ps = stream_results env rr d ps"
  by (induction ps arbitrary: d) (auto split: prod.splits)

lemma length_stream_results [simp]: "length (stream_results env rr d ps) = length ps"
  by (induction ps arbitrary: d) (auto split: prod.splits)

text \<open>
  The batches the handler acknowledges in batch mode: a count of accepted and refused payloads for
  every \<open>n\<close> payloads, and one for what is left.
\<close>

fun batches :: "nat \<Rightarrow> nat \<times> nat \<Rightarrow> bool list \<Rightarrow> (nat \<times> nat) list" where
  "batches n (a, b) [] = (if a + b = 0 then [] else [(a, b)])"
| "batches n (a, b) (r # rs) =
     (let c = (if r then (Suc a, b) else (a, Suc b)) in
      if fst c + snd c = n then c # batches n (0, 0) rs else batches n c rs)"

lemma batches_sum:
  "sum_list (map fst (batches n (a, b) rs)) = a + length (filter id rs) \<and>
   sum_list (map snd (batches n (a, b) rs)) = b + length (filter Not rs)"
  by (induction n "(a, b)" rs arbitrary: a b rule: batches.induct) (auto simp: Let_def)

lemma batches_full:
  "0 < n \<Longrightarrow> a + b < n \<Longrightarrow>
   (\<forall>c \<in> set (butlast (batches n (a, b) rs)). fst c + snd c = n) \<and>
   (\<forall>c \<in> set (batches n (a, b) rs). 0 < fst c + snd c \<and> fst c + snd c \<le> n)"
proof (induction rs arbitrary: a b)
  case (Cons r rs)
  let ?c = "if r then (Suc a, b) else (a, Suc b)"
  show ?case
  proof (cases "fst ?c + snd ?c = n")
    case True
    with Cons.IH [of 0 0] Cons.prems show ?thesis by (auto simp: Let_def)
  next
    case False
    with Cons.prems have "fst ?c + snd ?c < n" by (auto split: if_splits)
    with Cons.IH [of "fst ?c" "snd ?c"] Cons.prems False show ?thesis by (auto simp: Let_def)
  qed
qed auto


definition acks_sent :: "'a rr_env \<Rightarrow> bool" where
  "acks_sent env \<longleftrightarrow> (\<forall>n. re_ack env n = None)"

lemma sendAck_sent [simp]:
  "acks_sent env \<Longrightarrow> sendAck env a sl = (None, sl\<lparr>sl_acks := sl_acks sl @ [a], sl_sends := Suc (sl_sends sl)\<rparr>)"
  by (simp add: sendAck_def acks_sent_def)

lemma ack_payload_sent: "acks_sent env \<Longrightarrow> fst (ack_payload env wp res failed sl) = None"
  by (auto simp: ack_payload_def Let_def)

lemma ack_payload_failed: "snd (ack_payload env wp res failed sl) = snd (ack_payload env wp res '''' sl)"
  by (auto simp: ack_payload_def Let_def split: prod.splits option.splits)

definition failure_text :: "'a rr_env \<Rightarrow> 'a receiving_relay \<Rightarrow> gerr + 'a \<Rightarrow> string option" where
  "failure_text env rr r =
     (case r of
        Inl err \<Rightarrow> Some ((if rr_passthrough rr then ''passthrough failed: '' else ''unwrap failed: '') @ re_text env err)
      | Inr _ \<Rightarrow> None)"

text \<open>The local state of the handler after a sequence of payloads.\<close>

fun stream_acked :: "'a rr_env \<Rightarrow> 'a receiving_relay \<Rightarrow> wrapped_payload list \<Rightarrow> stream_state \<Rightarrow> stream_state" where
  "stream_acked env rr [] sl = sl"
| "stream_acked env rr (p # ps) sl =
     (case effective_metadata rr (sl_defaults sl) p of (m, d') \<Rightarrow>
        let wp = p\<lparr>wp_Metadata := m\<rparr> in
        stream_acked env rr ps
          (snd (ack_payload env wp (failure_text env rr (payload_item env rr wp)) ''''
                  (sl\<lparr>sl_defaults := d', sl_lastSeq := wp_Seq p\<rparr>))))"

lemma stream_acked_DataCh [simp]: "stream_acked env (rr\<lparr>DataCh := ch\<rparr>) ps sl = stream_acked env rr ps sl"
  by (induction ps arbitrary: sl) (auto simp: failure_text_def Let_def split: prod.splits)

text \<open>Acknowledging a payload leaves the defaults alone.\<close>

lemma ack_payload_keeps:
  "sl_defaults (snd (ack_payload env wp res f sl)) = sl_defaults sl"
  "sl_ackMode (snd (ack_payload env wp res f sl)) = sl_ackMode sl"
  "sl_ackEveryN (snd (ack_payload env wp res f sl)) = sl_ackEveryN sl"
  by (auto simp: ack_payload_def flushBatch_def sendAck_def Let_def split: option.splits)

definition chan_room :: "'b gochan \<Rightarrow> nat \<Rightarrow> bool" where
  "chan_room ch n \<longleftrightarrow> \<not> ch_closed ch \<and> length (ch_buf ch) + n \<le> ch_cap ch"

definition delivered :: "'a rr_sys \<Rightarrow> 'a list \<Rightarrow> 'a rr_sys \<Rightarrow> bool" where
  "delivered z ds z' \<longleftrightarrow>
     rs_rr z' = (rs_rr z)\<lparr>DataCh := (DataCh (rs_rr z))\<lparr>ch_buf := ch_buf (DataCh (rs_rr z)) @ ds\<rparr>\<rparr> \<and>
     rs_fanout z' = rs_fanout z \<and> rs_outputs z' = rs_outputs z \<and> rs_servers z' = rs_servers z"

lemma delivered_refl [simp]: "delivered z [] z" "delivered z ds (rr_logKV l m kvs z') \<longleftrightarrow> delivered z ds z'"
  by (simp_all add: delivered_def)

lemma delivered_trans: "delivered z ds z' \<Longrightarrow> delivered z' es z'' \<Longrightarrow> delivered z (ds @ es) z''"
  by (simp add: delivered_def)

lemma stream_payload_step:
  assumes "acks_sent env" and "\<not> isl r \<Longrightarrow> chan_room (DataCh (rs_rr z)) 1"
    and "effective_metadata (rs_rr z) (sl_defaults sl) p = (m, d')"
    and "payload_item env (rs_rr z) (p\<lparr>wp_Metadata := m\<rparr>) = r"
  shows "\<exists>z'. stream_payload env tr p (sl, z) =
      Some (Inr (StreamContinue, stream_acked env (rs_rr z) [p] sl, z')) \<and> delivered z (rights [r]) z'"
proof -
  let ?wp = "p\<lparr>wp_Metadata := m\<rparr>" and ?sl = "sl\<lparr>sl_defaults := d', sl_lastSeq := wp_Seq p\<rparr>"
  define sl1 where "sl1 = snd (ack_payload env ?wp (failure_text env (rs_rr z) r) '''' ?sl)"
  have acked: "ack_payload env ?wp (failure_text env (rs_rr z) r) f ?sl = (None, sl1)" for f
    using ack_payload_sent [OF assms(1), of ?wp "failure_text env (rs_rr z) r" f ?sl]
      ack_payload_failed [of env ?wp "failure_text env (rs_rr z) r" f ?sl]
    unfolding sl1_def by (simp add: prod_eq_iff)
  have final: "stream_acked env (rs_rr z) [p] sl = sl1"
    using assms(3,4) by (simp add: sl1_def Let_def)
  show ?thesis
  proof (cases r)
    case (Inl err)
    with acked have a: "ack_payload env ?wp (Some ((if rr_passthrough (rs_rr z) then ''passthrough failed: ''
        else ''unwrap failed: '') @ re_text env err)) f ?sl = (None, sl1)" for f
      by (simp add: failure_text_def)
    show ?thesis
      unfolding final using assms(3,4) Inl by (simp add: stream_payload_def a Let_def)
  next
    case (Inr d)
    have "chan_send d (DataCh (rs_rr z)) = Sent ((DataCh (rs_rr z))\<lparr>ch_buf := ch_buf (DataCh (rs_rr z)) @ [d]\<rparr>)"
      using assms(2) Inr by (simp add: chan_room_def chan_send_def)
    moreover from Inr acked have a: "ack_payload env ?wp None f ?sl = (None, sl1)" for f
      by (simp add: failure_text_def)
    ultimately show ?thesis
      unfolding final using assms(3,4) Inr by (simp add: stream_payload_def a delivered_def Let_def)
  qed
qed

lemma StreamReceive_payloads:
  assumes "acks_sent env" and "chan_room (DataCh (rs_rr z)) (length (filter (\<lambda>r. \<not> isl r) (stream_results env (rs_rr z) (sl_defaults sl) ps)))"
  shows "\<exists>z'. StreamReceive env tr (map (\<lambda>p. GotEnvelope (EnvelopePayload p)) ps @ gots) (sl, z) =
      StreamReceive env tr gots (stream_acked env (rs_rr z) ps sl, z') \<and>
    delivered z (rights (stream_results env (rs_rr z) (sl_defaults sl) ps)) z'"
  using assms(2)
proof (induction ps arbitrary: sl z)
  case Nil
  show ?case by (rule exI [of _ z]) simp
next
  case (Cons p ps)
  obtain m d' where e: "effective_metadata (rs_rr z) (sl_defaults sl) p = (m, d')" by fastforce
  let ?r = "payload_item env (rs_rr z) (p\<lparr>wp_Metadata := m\<rparr>)"
  let ?sl = "stream_acked env (rs_rr z) [p] sl"
  have dflt: "sl_defaults ?sl = d'" using e by (simp add: ack_payload_keeps Let_def)
  have rest: "stream_results env (rs_rr z) (sl_defaults sl) (p # ps) = ?r # stream_results env (rs_rr z) d' ps" using e by simp
  have room: "\<not> isl ?r \<Longrightarrow> chan_room (DataCh (rs_rr z)) 1"
    using Cons.prems unfolding rest by (auto simp: chan_room_def)
  obtain z1 where z1: "stream_payload env tr p (sl, z) = Some (Inr (StreamContinue, ?sl, z1))" "delivered z (rights [?r]) z1"
    using stream_payload_step [OF assms(1) room e refl] by blast
  have rr1: "rs_rr z1 = (rs_rr z)\<lparr>DataCh := (DataCh (rs_rr z))\<lparr>ch_buf := ch_buf (DataCh (rs_rr z)) @ rights [?r]\<rparr>\<rparr>"
    using z1(2) by (simp add: delivered_def)
  have "chan_room (DataCh (rs_rr z1)) (length (filter (\<lambda>r. \<not> isl r) (stream_results env (rs_rr z1) (sl_defaults ?sl) ps)))"
    using Cons.prems unfolding rest rr1 dflt by (cases ?r) (auto simp: chan_room_def)
  from Cons.IH [OF this] obtain z2 where
    run: "StreamReceive env tr (map (\<lambda>p. GotEnvelope (EnvelopePayload p)) ps @ gots) (?sl, z1) =
       StreamReceive env tr gots (stream_acked env (rs_rr z) ps ?sl, z2)"
    and d2: "delivered z1 (rights (stream_results env (rs_rr z) d' ps)) z2"
    unfolding rr1 dflt by auto
  have eq: "rights [?r] @ rights (stream_results env (rs_rr z) d' ps) =
      rights (stream_results env (rs_rr z) (sl_defaults sl) (p # ps))"
    unfolding rest by (cases ?r) simp_all
  have "stream_acked env (rs_rr z) ps ?sl = stream_acked env (rs_rr z) (p # ps) sl" using e by (simp add: Let_def)
  with run z1(1) have "StreamReceive env tr (map (\<lambda>p. GotEnvelope (EnvelopePayload p)) (p # ps) @ gots) (sl, z) =
      StreamReceive env tr gots (stream_acked env (rs_rr z) (p # ps) sl, z2)"
    by (simp add: stream_step_def del: stream_acked.simps)
  with delivered_trans [OF z1(2) d2, unfolded eq] show ?case by blast
qed


lemma failure_text_None [simp]: "failure_text env rr r = None \<longleftrightarrow> \<not> isl r"
  by (cases r) (simp_all add: failure_text_def)

lemma stream_acked_per_message:
  assumes "acks_sent env" and "sl_ackMode sl = ACK_PER_MESSAGE"
  shows "map (\<lambda>a. (ack_Success a, ack_Id a, ack_Seq a)) (sl_acks (stream_acked env rr ps sl)) =
      map (\<lambda>a. (ack_Success a, ack_Id a, ack_Seq a)) (sl_acks sl) @
      map2 (\<lambda>p r. (\<not> isl r, wp_Id p, wp_Seq p)) ps (stream_results env rr (sl_defaults sl) ps)"
  using assms(2)
proof (induction ps arbitrary: sl)
  case (Cons p ps)
  obtain m d' where e: "effective_metadata rr (sl_defaults sl) p = (m, d')" by fastforce
  let ?wp = "p\<lparr>wp_Metadata := m\<rparr>" and ?sl = "sl\<lparr>sl_defaults := d', sl_lastSeq := wp_Seq p\<rparr>"
  let ?res = "failure_text env rr (payload_item env rr ?wp)"
  have "sl_acks (snd (ack_payload env ?wp ?res '''' ?sl)) = sl_acks sl @ [empty_ack\<lparr>ack_Success := ?res = None,
      ack_Message := (case ?res of None \<Rightarrow> ''OK'' | Some m \<Rightarrow> m), ack_StreamId := sl_streamID sl, ack_Id := wp_Id p,
      ack_Seq := wp_Seq p, ack_Code := (if ?res = None then 0 else 1)\<rparr>]"
    using assms(1) Cons.prems by (simp add: ack_payload_def)
  then show ?case
    using Cons.IH [of "snd (ack_payload env ?wp ?res '''' ?sl)"] Cons.prems e by (simp add: ack_payload_keeps Let_def)
qed simp

lemma stream_acked_none:
  assumes "sl_ackMode sl = ACK_NONE"
  shows "sl_acks (stream_acked env rr ps sl) = sl_acks sl"
  using assms
proof (induction ps arbitrary: sl)
  case (Cons p ps)
  then show ?case by (auto simp: ack_payload_def Let_def split: prod.splits)
qed simp

lemma stream_acked_mode [simp]: "sl_ackMode (stream_acked env rr ps sl) = sl_ackMode sl"
  by (induction ps arbitrary: sl) (auto simp: ack_payload_keeps Let_def split: prod.splits)

definition batch_state :: "nat \<Rightarrow> nat \<Rightarrow> nat \<Rightarrow> stream_state \<Rightarrow> bool" where
  "batch_state n a b sl \<longleftrightarrow>
     sl_ackMode sl = ACK_BATCH \<and> sl_ackEveryN sl = n \<and> sl_batchOK sl = a \<and> sl_batchErr sl = b \<and>
     sl_batchSeen sl = a + b \<and> a + b < n \<and> n < 4294967296"

definition ack_counts :: "stream_state \<Rightarrow> (nat \<times> nat) list" where
  "ack_counts sl = map (\<lambda>a. (ack_OkCount a, ack_ErrCount a)) (sl_acks sl)"

lemma flushBatch_counts:
  assumes "acks_sent env" and "sl_ackMode sl = ACK_BATCH"
  shows "ack_counts (flushBatch env msg sl) =
    ack_counts sl @ (if sl_batchOK sl + sl_batchErr sl = 0 then [] else [(sl_batchOK sl, sl_batchErr sl)])"
  using assms by (simp add: flushBatch_def ack_counts_def)

lemma ack_payload_batch:
  assumes "acks_sent env" and "batch_state n a b sl"
    and c: "(a', b') = (if res = None then (Suc a, b) else (a, Suc b))"
  shows "if a' + b' = n
    then batch_state n 0 0 (snd (ack_payload env wp res f sl)) \<and>
      ack_counts (snd (ack_payload env wp res f sl)) = ack_counts sl @ [(a', b')]
    else batch_state n a' b' (snd (ack_payload env wp res f sl)) \<and>
      ack_counts (snd (ack_payload env wp res f sl)) = ack_counts sl"
proof -
  have seen: "a' + b' = Suc (a + b)" "a' + b' \<le> n" using c assms(2) by (auto simp: batch_state_def split: if_splits)
  then have "Suc (a + b) mod n = 0 \<longleftrightarrow> a' + b' = n"
    using assms(2) by (auto simp: batch_state_def mod_Suc)
  then show ?thesis
    using assms seen by (auto simp: batch_state_def ack_payload_def flushBatch_def ack_counts_def Let_def split: if_splits)
qed

lemma stream_acked_batch:
  assumes "acks_sent env" and "batch_state n a b sl"
  shows "ack_counts (flushBatch env msg (stream_acked env rr ps sl)) =
    ack_counts sl @ batches n (a, b) (map (\<lambda>r. \<not> isl r) (stream_results env rr (sl_defaults sl) ps))"
  using assms(2)
proof (induction ps arbitrary: sl a b)
  case Nil
  then show ?case using flushBatch_counts [OF assms(1), of sl msg] by (simp add: batch_state_def)
next
  case (Cons p ps)
  obtain m d' where e: "effective_metadata rr (sl_defaults sl) p = (m, d')" by fastforce
  let ?wp = "p\<lparr>wp_Metadata := m\<rparr>" and ?sl = "sl\<lparr>sl_defaults := d', sl_lastSeq := wp_Seq p\<rparr>"
  let ?res = "failure_text env rr (payload_item env rr ?wp)"
  define sl1 where "sl1 = snd (ack_payload env ?wp ?res '''' ?sl)"
  obtain a' b' where c: "(a', b') = (if ?res = None then (Suc a, b) else (a, Suc b))" by (metis surj_pair)
  have bs: "batch_state n a b ?sl" using Cons.prems by (simp add: batch_state_def)
  note step = ack_payload_batch [OF assms(1) bs c, of ?wp "''''", folded sl1_def]
  have d1: "sl_defaults sl1 = d'" by (simp add: sl1_def ack_payload_keeps)
  have counts: "ack_counts ?sl = ack_counts sl" by (simp add: ack_counts_def)
  have acked: "stream_acked env rr (p # ps) sl = stream_acked env rr ps sl1" using e by (simp add: sl1_def Let_def)
  have res: "stream_results env rr (sl_defaults sl) (p # ps) = payload_item env rr ?wp # stream_results env rr (sl_defaults sl1) ps"
    using e d1 by simp
  have b: "batches n (a, b) (map (\<lambda>r. \<not> isl r) (stream_results env rr (sl_defaults sl) (p # ps))) =
      (if a' + b' = n then (a', b') # batches n (0, 0) (map (\<lambda>r. \<not> isl r) (stream_results env rr (sl_defaults sl1) ps))
       else batches n (a', b') (map (\<lambda>r. \<not> isl r) (stream_results env rr (sl_defaults sl1) ps)))"
    unfolding res using c by (auto simp: Let_def split: if_splits)
  show ?case
    unfolding acked b using step counts Cons.IH [of 0 0 sl1] Cons.IH [of a' b' sl1] by (auto split: if_splits)
qed


text \<open>The end of a stream by its client: the end of the receptions, or a closing message.\<close>

definition stream_ends :: "reception \<Rightarrow> bool" where
  "stream_ends got \<longleftrightarrow> got = GotEOF \<or> (\<exists>reason. got = GotEnvelope (EnvelopeClose reason))"

lemma stream_ends_step:
  assumes "stream_ends got"
  obtains msg z' where "StreamReceive env tr [got] (sl, z) = Some (Inr (StreamReturn None, flushBatch env msg sl, z'))"
    "\<And>z0 ds. delivered z0 ds z \<Longrightarrow> delivered z0 ds z'"
  using assms by (auto simp: stream_ends_def stream_step_def)

lemma flushBatch_other: "sl_ackMode sl \<noteq> ACK_BATCH \<Longrightarrow> flushBatch env msg sl = sl"
  by (simp add: flushBatch_def)

lemma stream_opened_step:
  assumes "acks_sent env"
  obtains sl z' where "stream_opened env opn (stream_init, z) = (StreamContinue, sl, z')" "delivered z [] z'"
    "sl_defaults sl = so_Defaults opn"
    "sl_ackMode sl = (if so_AckMode opn \<noteq> ACK_MODE_UNSPECIFIED then so_AckMode opn else ACK_PER_MESSAGE)"
    "sl_ackEveryN sl = (if so_AckMode opn = ACK_BATCH then (if so_AckEveryN opn = 0 then 1024 else so_AckEveryN opn) else 0)"
    "sl_batchOK sl = 0" "sl_batchErr sl = 0" "sl_batchSeen sl = 0"
    "sl_acks sl = (if so_AckMode opn = ACK_NONE then [] else [empty_ack\<lparr>ack_Success := True,
       ack_Message := ''Stream open accepted'', ack_StreamId := so_StreamId opn\<rparr>])"
  by (cases "so_AckMode opn = ACK_NONE";
      rule that [of "fst (snd (stream_opened env opn (stream_init, z)))" "snd (snd (stream_opened env opn (stream_init, z)))"])
    (use assms in \<open>simp_all add: stream_opened_def stream_init_def Let_def\<close>)

text \<open>A stream that is opened, carries payloads and ends: the handler returns, what decodes is delivered.\<close>

lemma stream_served:
  assumes "acks_sent env" and "stream_ends fin"
    and "chan_room (DataCh (rs_rr z)) (length (rights (stream_results env (rs_rr z) (so_Defaults opn) ps)))"
  obtains sl msg z' where
    "StreamReceive env tr (GotEnvelope (EnvelopeOpen opn) # map (\<lambda>p. GotEnvelope (EnvelopePayload p)) ps @ [fin])
      (stream_init, z) = Some (Inr (StreamReturn None, flushBatch env msg (stream_acked env (rs_rr z) ps sl), z'))"
    "delivered z (rights (stream_results env (rs_rr z) (so_Defaults opn) ps)) z'"
    "sl_defaults sl = so_Defaults opn"
    "sl_ackMode sl = (if so_AckMode opn \<noteq> ACK_MODE_UNSPECIFIED then so_AckMode opn else ACK_PER_MESSAGE)"
    "sl_ackEveryN sl = (if so_AckMode opn = ACK_BATCH then (if so_AckEveryN opn = 0 then 1024 else so_AckEveryN opn) else 0)"
    "sl_batchOK sl = 0" "sl_batchErr sl = 0" "sl_batchSeen sl = 0"
    "sl_acks sl = (if so_AckMode opn = ACK_NONE then [] else [empty_ack\<lparr>ack_Success := True,
       ack_Message := ''Stream open accepted'', ack_StreamId := so_StreamId opn\<rparr>])"
proof (rule stream_opened_step [OF assms(1), of opn z])
  fix sl0 z0
  assume o: "stream_opened env opn (stream_init, z) = (StreamContinue, sl0, z0)" "delivered z [] z0"
    and d0: "sl_defaults sl0 = so_Defaults opn"
    and rest: "sl_ackMode sl0 = (if so_AckMode opn \<noteq> ACK_MODE_UNSPECIFIED then so_AckMode opn else ACK_PER_MESSAGE)"
    "sl_ackEveryN sl0 = (if so_AckMode opn = ACK_BATCH then (if so_AckEveryN opn = 0 then 1024 else so_AckEveryN opn) else 0)"
    "sl_batchOK sl0 = 0" "sl_batchErr sl0 = 0" "sl_batchSeen sl0 = 0"
    "sl_acks sl0 = (if so_AckMode opn = ACK_NONE then [] else [empty_ack\<lparr>ack_Success := True,
       ack_Message := ''Stream open accepted'', ack_StreamId := so_StreamId opn\<rparr>])"
  have rr0: "rs_rr z0 = rs_rr z" using o(2) by (simp add: delivered_def)
  have "chan_room (DataCh (rs_rr z0)) (length (filter (\<lambda>r. \<not> isl r) (stream_results env (rs_rr z0) (sl_defaults sl0) ps)))"
    using assms(3) unfolding rr0 d0 by (simp add: length_rights filter_map comp_def)
  from StreamReceive_payloads [OF assms(1) this] obtain z1 where
    run: "StreamReceive env tr (map (\<lambda>p. GotEnvelope (EnvelopePayload p)) ps @ [fin]) (sl0, z0) =
      StreamReceive env tr [fin] (stream_acked env (rs_rr z) ps sl0, z1)"
    and d1: "delivered z0 (rights (stream_results env (rs_rr z) (so_Defaults opn) ps)) z1"
    unfolding rr0 d0 by blast
  obtain msg z2 where
    fin: "StreamReceive env tr [fin] (stream_acked env (rs_rr z) ps sl0, z1) =
      Some (Inr (StreamReturn None, flushBatch env msg (stream_acked env (rs_rr z) ps sl0), z2))"
    and d2: "\<And>z0 ds. delivered z0 ds z1 \<Longrightarrow> delivered z0 ds z2"
    using stream_ends_step [OF assms(2)] by metis
  show thesis
  proof (rule that [OF _ _ d0 rest])
    show "StreamReceive env tr (GotEnvelope (EnvelopeOpen opn) # map (\<lambda>p. GotEnvelope (EnvelopePayload p)) ps @ [fin])
        (stream_init, z) = Some (Inr (StreamReturn None, flushBatch env msg (stream_acked env (rs_rr z) ps sl0), z2))"
      using o(1) run fin by (simp add: stream_step_def)
    show "delivered z (rights (stream_results env (rs_rr z) (so_Defaults opn) ps)) z2"
      using d2 [OF delivered_trans [OF o(2) d1]] by simp
  qed
qed

section \<open>Properties\<close>

text \<open>
  C17: a stream is received as it was sent. When the acknowledgments can be sent and the data channel has
  room, a stream of an opening message, any payloads and an end is served to the end without an
  error; the elements of the payloads that decode go to the data channel, all of them and in
  order, and those that do not are left out. In message mode (the default) every payload is
  acknowledged by its identifier and sequence number, as accepted or refused. In batch mode the
  acknowledgments count every payload exactly once, accepted or refused, in batches of exactly the
  agreed size but for the last one. Without acknowledgments nothing is sent.
\<close>

theorem stream_receives_every_payload:
  assumes "acks_sent env" and "so_AckEveryN opn < 4294967296" and "stream_ends fin"
    and "chan_room (DataCh (rs_rr z)) (length (rights (stream_results env (rs_rr z) (so_Defaults opn) ps)))"
  shows "let results = stream_results env (rs_rr z) (so_Defaults opn) ps;
             n = (if so_AckEveryN opn = 0 then 1024 else so_AckEveryN opn)
    in \<exists>sl z'.
      StreamReceive env tr (GotEnvelope (EnvelopeOpen opn) # map (\<lambda>p. GotEnvelope (EnvelopePayload p)) ps @ [fin])
        (stream_init, z) = Some (Inr (StreamReturn None, sl, z')) \<and>
      delivered z (rights results) z' \<and>
      (so_AckMode opn = ACK_MODE_UNSPECIFIED \<or> so_AckMode opn = ACK_PER_MESSAGE \<longrightarrow>
         map (\<lambda>a. (ack_Success a, ack_Id a, ack_Seq a)) (sl_acks sl) =
           (True, '''', 0) # map2 (\<lambda>p r. (\<not> isl r, wp_Id p, wp_Seq p)) ps results) \<and>
      (so_AckMode opn = ACK_BATCH \<longrightarrow>
         (\<exists>counts. ack_counts sl = (0, 0) # counts \<and>
            sum_list (map fst counts) = length (rights results) \<and>
            sum_list (map snd counts) = length results - length (rights results) \<and>
            (\<forall>c \<in> set (butlast counts). fst c + snd c = n) \<and>
            (\<forall>c \<in> set counts. 0 < fst c + snd c \<and> fst c + snd c \<le> n))) \<and>
      (so_AckMode opn = ACK_NONE \<longrightarrow> sl_acks sl = [])"
proof -
  define results where "results = stream_results env (rs_rr z) (so_Defaults opn) ps"
  define n where "n = (if so_AckEveryN opn = 0 then 1024 else so_AckEveryN opn)"
  obtain sl0 msg z2 where
    run: "StreamReceive env tr (GotEnvelope (EnvelopeOpen opn) # map (\<lambda>p. GotEnvelope (EnvelopePayload p)) ps @ [fin])
      (stream_init, z) = Some (Inr (StreamReturn None, flushBatch env msg (stream_acked env (rs_rr z) ps sl0), z2))"
      "delivered z (rights results) z2"
    and sl0: "sl_defaults sl0 = so_Defaults opn" "sl_ackMode sl0 = (if so_AckMode opn \<noteq> ACK_MODE_UNSPECIFIED then so_AckMode opn else ACK_PER_MESSAGE)"
      "sl_ackEveryN sl0 = (if so_AckMode opn = ACK_BATCH then n else 0)" "sl_batchOK sl0 = 0" "sl_batchErr sl0 = 0" "sl_batchSeen sl0 = 0"
      "sl_acks sl0 = (if so_AckMode opn = ACK_NONE then [] else [empty_ack\<lparr>ack_Success := True,
         ack_Message := ''Stream open accepted'', ack_StreamId := so_StreamId opn\<rparr>])"
    by (rule stream_served [OF assms(1,3,4), of tr, folded n_def results_def]) (rule that; assumption)
  let ?sl = "flushBatch env msg (stream_acked env (rs_rr z) ps sl0)"
  note run
  moreover have "so_AckMode opn = ACK_MODE_UNSPECIFIED \<or> so_AckMode opn = ACK_PER_MESSAGE \<Longrightarrow>
      map (\<lambda>a. (ack_Success a, ack_Id a, ack_Seq a)) (sl_acks ?sl) =
        (True, '''', 0) # map2 (\<lambda>p r. (\<not> isl r, wp_Id p, wp_Seq p)) ps results"
    using stream_acked_per_message [OF assms(1), of sl0 "rs_rr z" ps] sl0
    by (auto simp: flushBatch_other results_def empty_ack_def)
  moreover have "\<exists>counts. ack_counts ?sl = (0, 0) # counts \<and> sum_list (map fst counts) = length (rights results) \<and>
      sum_list (map snd counts) = length results - length (rights results) \<and>
      (\<forall>c \<in> set (butlast counts). fst c + snd c = n) \<and> (\<forall>c \<in> set counts. 0 < fst c + snd c \<and> fst c + snd c \<le> n)"
    if "so_AckMode opn = ACK_BATCH"
  proof -
    have n: "0 < n" "batch_state n 0 0 sl0" using that sl0 assms(2) by (auto simp: batch_state_def n_def)
    let ?rs = "map (\<lambda>r. \<not> isl r) results"
    have "length (filter Not ?rs) = length results - length (rights results)"
      using sum_length_filter_compl [of "\<lambda>r. r" ?rs] by (simp add: length_rights id_def)
    then show ?thesis
      using stream_acked_batch [OF assms(1) n(2), of msg "rs_rr z" ps] batches_sum [of n 0 0 ?rs]
        batches_full [OF n(1), of 0 0 ?rs] n(1) sl0(1,7) that
      by (intro exI [of _ "batches n (0, 0) ?rs"]) (simp add: results_def ack_counts_def empty_ack_def length_rights)
  qed
  moreover have "so_AckMode opn = ACK_NONE \<Longrightarrow> sl_acks ?sl = []"
    using stream_acked_none [of sl0 env "rs_rr z" ps] sl0 by (simp add: flushBatch_other)
  ultimately show ?thesis
    unfolding results_def [symmetric] n_def [symmetric] Let_def
    by (intro exI [of _ ?sl] exI [of _ z2]) (intro conjI impI; assumption?; blast)
qed


text \<open>Samples: a relay, an environment whose acknowledgments are sent, and two payloads of which one decodes.\<close>

definition sample_rr :: "octets rr_sys" where
  "sample_rr = \<lparr>rs_rr = NewReceivingRelay_base ''id'', rs_jwt = None, rs_introspection = None, rs_fanout = False, rs_servers = [],
     rs_outputs = [], rs_trace = []\<rparr>"

definition sample_rr_env :: "octets rr_env" where
  "sample_rr_env = \<lparr>re_lib = sample_lib, re_zero = [], re_ack = (\<lambda>_. None), re_text = (\<lambda>_. ''''), re_auth = sample_auth_lib,
     re_jwks = (\<lambda>_. sample_jwks), re_introspect = sample_server 200, re_now = (\<lambda>_. 0), re_keypair = None, re_ca = None,
     re_pem = True, re_bind = (\<lambda>n. if n < 2 then Some (Err ''in use'') else None), re_serve = None, re_select = 0\<rparr>"

definition plain_payload :: "octets \<Rightarrow> wrapped_payload" where
  "plain_payload d = \<lparr>wp_Id = ''p'', wp_Timestamp = None, wp_Payload = d, wp_Metadata = None, wp_ErrorInfo = None, wp_Seq = 7,
     wp_PayloadEncoding = PAYLOAD_ENCODING_GOB, wp_PayloadType = ''''\<rparr>"

definition sample_open :: "int \<Rightarrow> stream_open" where
  "sample_open mode = \<lparr>so_StreamId = ''s'', so_Defaults = None, so_AckMode = mode, so_AckEveryN = 2, so_MaxInFlight = 0,
     so_OmitPayloadMetadata = True\<rparr>"

lemma sample_results:
  "stream_results sample_rr_env (rs_rr sample_rr) None [plain_payload [1, 5], plain_payload [9]] =
    [Inr [5], Inl (Wrapped ''unwrap: gob decode failed'' (Err ''bad input''))]"
  by (simp add: effective_metadata_def applyGRPCWebContentTypeDefaults_def sample_rr_def NewReceivingRelay_base_def
      payload_item_def sample_rr_env_def plain_payload_def UnwrapPayload_def decryptData_def aes_gcm_on_def
      decode_payload_def isJSON_def TrimSpace_def ToLower_def HasSuffix_def sample_lib_def isProtoTarget_def looksLikeJSON_def Let_def)

theorem stream_receives_every_payload_witness:
  "\<exists>sl z'. StreamReceive sample_rr_env ''t''
      [GotEnvelope (EnvelopeOpen (sample_open ACK_BATCH)), GotEnvelope (EnvelopePayload (plain_payload [1, 5])),
       GotEnvelope (EnvelopePayload (plain_payload [9])), GotEOF] (stream_init, sample_rr) =
      Some (Inr (StreamReturn None, sl, z')) \<and>
    delivered sample_rr [[5]] z' \<and>
    (\<exists>counts. ack_counts sl = (0, 0) # counts \<and> sum_list (map fst counts) = 1 \<and> sum_list (map snd counts) = 1)"
proof -
  have "acks_sent sample_rr_env" by (simp add: acks_sent_def sample_rr_env_def)
  moreover have "so_AckEveryN (sample_open ACK_BATCH) < 4294967296" "so_Defaults (sample_open ACK_BATCH) = None"
    "so_AckMode (sample_open ACK_BATCH) = ACK_BATCH" by (simp_all add: sample_open_def)
  moreover have "stream_ends GotEOF" by (simp add: stream_ends_def)
  moreover have "chan_room (DataCh (rs_rr sample_rr)) 1"
    by (simp add: chan_room_def sample_rr_def NewReceivingRelay_base_def make_chan_def)
  ultimately show ?thesis
    using stream_receives_every_payload [of sample_rr_env "sample_open ACK_BATCH" GotEOF sample_rr
        "[plain_payload [1, 5], plain_payload [9]]" "''t''"]
    by (simp add: sample_results Let_def del: StreamReceive.simps stream_results.simps) blast
qed

lemma maybePolicyError_strict:
  "rr_authRequired (rs_rr z) \<Longrightarrow> maybePolicyError err z = (err, z)"
  by (simp add: maybePolicyError_def split: option.splits)

lemma default_validate_rr: "rs_rr (snd (default_validate env md z)) = rs_rr z"
  by (auto simp: default_validate_def Let_def split: option.splits prod.splits)

lemma run_validator_rr: "rs_rr (snd (run_validator env f md z)) = rs_rr z"
  by (cases f) (simp_all add: run_validator_def default_validate_rr)

lemma policy_check_strict:
  assumes "rr_authRequired (rs_rr z)"
  shows "rs_rr (snd (policy_check env md z)) = rs_rr z"
    and "fst (policy_check env md z) = None \<Longrightarrow>
      (\<forall>(k, v) \<in> set (rr_staticHeaders (rs_rr z)). collectIncomingMD md (ToLower k) = Some v) \<and>
      (\<forall>f. dynamicAuthValidator (rs_rr z) = Some f \<longrightarrow> fst (run_validator env f (collectIncomingMD md) z) = None)"
proof -
  show "rs_rr (snd (policy_check env md z)) = rs_rr z"
  proof (cases "dynamicAuthValidator (rs_rr z)")
    case (Some f)
    obtain r z1 where r: "run_validator env f (collectIncomingMD md) z = (r, z1)" by fastforce
    then have "rs_rr z1 = rs_rr z" using run_validator_rr [of env f "collectIncomingMD md" z] by simp
    with Some r assms show ?thesis
      by (auto simp: policy_check_def maybePolicyError_strict Let_def split: option.splits)
  qed (auto simp: policy_check_def maybePolicyError_strict assms Let_def split: option.splits)
next
  assume N: "fst (policy_check env md z) = None"
  then have s: "checkStaticHeaders (rs_rr z) (collectIncomingMD md) = None"
    by (auto simp: policy_check_def maybePolicyError_strict assms Let_def split: option.splits)
  then have "\<forall>(k, v) \<in> set (rr_staticHeaders (rs_rr z)). collectIncomingMD md (ToLower k) = Some v"
    by (auto simp: checkStaticHeaders_def find_None_iff split: option.splits)
  moreover have "fst (run_validator env f (collectIncomingMD md) z) = None" if f: "dynamicAuthValidator (rs_rr z) = Some f" for f
  proof -
    obtain r z1 where r: "run_validator env f (collectIncomingMD md) z = (r, z1)" by fastforce
    then have "rs_rr z1 = rs_rr z" using run_validator_rr [of env f "collectIncomingMD md" z] by simp
    with N s f r assms show ?thesis
      by (auto simp: policy_check_def maybePolicyError_strict Let_def split: option.splits)
  qed
  ultimately show "(\<forall>(k, v) \<in> set (rr_staticHeaders (rs_rr z)). collectIncomingMD md (ToLower k) = Some v) \<and>
      (\<forall>f. dynamicAuthValidator (rs_rr z) = Some f \<longrightarrow> fst (run_validator env f (collectIncomingMD md) z) = None)"
    by blast
qed

text \<open>
  C25: with strict authentication, which is the default, the policy guards every stream. A call on a
  server that has the policy interceptor is handled only if every static header is present with its
  value, the validator, when there is one, accepts the call's metadata, and the user's
  interceptor lets it through; otherwise it gets an error, and nothing is acknowledged or delivered.
\<close>

theorem strict_policy_guards_streams:
  assumes "rr_authRequired (rs_rr z)" and "srv_stream_policy srv"
    and "serve_stream env srv md hash gots z = Some (Inr (nxt, sl, z'))"
  shows "((\<forall>(k, v) \<in> set (rr_staticHeaders (rs_rr z)). collectIncomingMD md (ToLower k) = Some v) \<and>
      (\<forall>f. dynamicAuthValidator (rs_rr z) = Some f \<longrightarrow> fst (run_validator env f (collectIncomingMD md) z) = None) \<and>
      (\<forall>f. srv_stream srv = Some f \<longrightarrow> f md = None)) \<or>
    (\<exists>err. nxt = StreamReturn (Some err)) \<and> sl_acks sl = [] \<and> rs_rr z' = rs_rr z"
proof -
  obtain r z1 where p: "policy_check env md z = (r, z1)" by fastforce
  have rr: "rs_rr z1 = rs_rr z" using policy_check_strict(1) [OF assms(1), of env md] p by simp
  show ?thesis
  proof (cases r)
    case (Some err)
    with assms(2,3) p rr show ?thesis
      by (auto simp: serve_stream_def run_interceptors_def stream_init_def)
  next
    case None
    have ok: "(\<forall>(k, v) \<in> set (rr_staticHeaders (rs_rr z)). collectIncomingMD md (ToLower k) = Some v) \<and>
      (\<forall>f. dynamicAuthValidator (rs_rr z) = Some f \<longrightarrow> fst (run_validator env f (collectIncomingMD md) z) = None)"
      using policy_check_strict(2) [OF assms(1), of env md] p None by simp
    show ?thesis
    proof (cases "\<exists>f err. srv_stream srv = Some f \<and> f md = Some err")
      case True
      with assms(2,3) p None rr show ?thesis
        by (auto simp: serve_stream_def run_interceptors_def stream_init_def)
    next
      case False
      with ok show ?thesis by auto
    qed
  qed
qed


definition guarded_rr :: "octets rr_sys" where
  "guarded_rr = sample_rr\<lparr>rs_rr := (rs_rr sample_rr)\<lparr>rr_staticHeaders := [(''X-Key'', ''1'')]\<rparr>\<rparr>"

theorem strict_policy_guards_streams_witness:
  "\<exists>srv sl z' err. appendAuthServerOptions None guarded_rr = (srv, guarded_rr) \<and> srv_stream_policy srv \<and>
     serve_stream sample_rr_env srv [] ''h'' [GotEOF] guarded_rr = Some (Inr (StreamReturn (Some err), sl, z')) \<and>
     sl_acks sl = [] \<and> rs_rr z' = rs_rr guarded_rr"
proof -
  obtain srv where srv: "appendAuthServerOptions None guarded_rr = (srv, guarded_rr)" "srv_stream_policy srv" "srv_stream srv = None"
    by (simp add: appendAuthServerOptions_def ensureDefaultAuthValidator_def guarded_rr_def sample_rr_def
        NewReceivingRelay_base_def needPolicy_def Let_def)
  have req: "rr_authRequired (rs_rr guarded_rr)"
    by (simp add: guarded_rr_def sample_rr_def NewReceivingRelay_base_def)
  have hd: "rr_staticHeaders (rs_rr guarded_rr) = [(''X-Key'', ''1'')]" by (simp add: guarded_rr_def)
  have "policy_check sample_rr_env [] guarded_rr = (Some (Err (''missing/invalid header '' @ ''X-Key'')), guarded_rr)"
    using hd req by (simp add: policy_check_def checkStaticHeaders_def collectIncomingMD_def maybePolicyError_def)
  with srv(2) obtain nxt sl z' where
    run: "serve_stream sample_rr_env srv [] ''h'' [GotEOF] guarded_rr = Some (Inr (nxt, sl, z'))"
    by (simp add: serve_stream_def run_interceptors_def)
  from strict_policy_guards_streams [OF req srv(2) run] hd run srv(1,2) show ?thesis
    by (auto simp: collectIncomingMD_def)
qed

text \<open>
  mutual TLS is offered as an authentication mode and never checked. With the options for mutual TLS, any
  allowed principals, strict authentication and no other check, the server gets no policy interceptor, its
  credentials ask for no client certificate (the certificate authority is set as the one to verify
  servers with), and every call reaches the handler whatever its metadata.
\<close>

theorem mtls_mode_is_not_enforced:
  assumes "rr_authOptions (rs_rr z) = Some \<lparr>auth_Enabled = True, auth_Mode = 3, auth_Oauth2 = None, auth_Mtls = Some (principals, domain)\<rparr>"
    and "dynamicAuthValidator (rs_rr z) = None" and "rr_staticHeaders (rs_rr z) = []" and "authStream (rs_rr z) = None"
    and "authUnary (rs_rr z) = None"
  shows "case appendAuthServerOptions tls z of (srv, z1) \<Rightarrow>
      z1 = z \<and> serve_stream env srv md hash gots z1 = StreamReceive env (stream_trace md hash) gots (stream_init, z1) \<and>
      (\<exists>a z2. serve_unary env srv md hash payload z1 = (Inr a, z2)) \<and>
      (\<forall>c t z2. loadTLSCredentials env c z = (Inr t, z2) \<longrightarrow> \<not> stls_ClientAuth t)"
  using assms
  by (auto simp: appendAuthServerOptions_def ensureDefaultAuthValidator_def needPolicy_def serve_stream_def serve_unary_def
      run_interceptors_def loadTLSCredentials_def Let_def split: prod.splits if_splits option.splits)

definition mtls_rr :: "octets rr_sys" where
  "mtls_rr = sample_rr\<lparr>rs_rr := (rs_rr sample_rr)\<lparr>rr_authOptions :=
     Some \<lparr>auth_Enabled = True, auth_Mode = 3, auth_Oauth2 = None, auth_Mtls = Some ([''spiffe://a''], ''a'')\<rparr>\<rparr>\<rparr>"

theorem mtls_mode_is_not_enforced_witness:
  "rr_authRequired (rs_rr mtls_rr) \<and>
   (\<exists>srv. appendAuthServerOptions None mtls_rr = (srv, mtls_rr) \<and>
      serve_stream sample_rr_env srv [] ''h'' [] mtls_rr = Some (Inr (StreamContinue, stream_init, mtls_rr)))"
proof -
  have "rr_authRequired (rs_rr mtls_rr)" by (simp add: mtls_rr_def sample_rr_def NewReceivingRelay_base_def)
  moreover have "\<exists>srv. appendAuthServerOptions None mtls_rr = (srv, mtls_rr) \<and>
      serve_stream sample_rr_env srv [] ''h'' [] mtls_rr = StreamReceive sample_rr_env (stream_trace [] ''h'') [] (stream_init, mtls_rr)"
  proof -
    have pre: "rr_authOptions (rs_rr mtls_rr) = Some \<lparr>auth_Enabled = True, auth_Mode = 3, auth_Oauth2 = None,
        auth_Mtls = Some ([''spiffe://a''], ''a'')\<rparr>" "dynamicAuthValidator (rs_rr mtls_rr) = None"
      "rr_staticHeaders (rs_rr mtls_rr) = []" "authStream (rs_rr mtls_rr) = None" "authUnary (rs_rr mtls_rr) = None"
      by (simp_all add: mtls_rr_def sample_rr_def NewReceivingRelay_base_def)
    have "case appendAuthServerOptions None mtls_rr of (srv, z1) \<Rightarrow> z1 = mtls_rr \<and>
        serve_stream sample_rr_env srv [] ''h'' [] z1 = StreamReceive sample_rr_env (stream_trace [] ''h'') [] (stream_init, z1)"
      using mtls_mode_is_not_enforced [OF pre, where tls = None and env = sample_rr_env and md = "[]" and hash = "''h''" and gots = "[]" and payload = "plain_payload []"]
      by (auto split: prod.splits)
    then show ?thesis by (auto split: prod.splits)
  qed
  ultimately show ?thesis by simp
qed

text \<open>
  Stopping a relay that still has an open stream brings the process down. Stop closes the data
  channel but not the servers it started, so a stream that is open goes on, and its next payload that
  decodes panics on the send; a second Stop panics as well.
\<close>

theorem stop_with_open_stream_panics:
  assumes "rr_Stop z = Inr z'" and "effective_metadata (rs_rr z) (sl_defaults sl) payload = (m, d)"
    and "payload_item env (rs_rr z) (payload\<lparr>wp_Metadata := m\<rparr>) = Inr item"
  shows "rs_servers z' = rs_servers z \<and>
    StreamReceive env tr (GotEnvelope (EnvelopePayload payload) # gots) (sl, z') = Some (Inl (Panic ''send on closed channel'')) \<and>
    rr_Stop z' = Inl (Panic ''close of closed channel'')"
proof -
  from assms(1) obtain ch where ch: "rs_rr z' = (rs_rr z)\<lparr>rr_cancelled := True, DataCh := ch, rr_isRunning := 0\<rparr>"
    "ch_closed ch" "rs_servers z' = rs_servers z"
    by (auto simp: rr_Stop_def chan_close_def Let_def split: sum.splits if_splits)
  have "effective_metadata (rs_rr z') (sl_defaults sl) payload = (m, d)"
    "payload_item env (rs_rr z') (payload\<lparr>wp_Metadata := m\<rparr>) = Inr item"
    using assms(2,3) unfolding ch(1) by simp_all
  then show ?thesis
    using ch by (simp add: stream_step_def stream_payload_def chan_send_def rr_Stop_def chan_close_def Let_def)
qed

theorem stop_with_open_stream_panics_witness:
  "\<exists>z'. rr_Stop sample_rr = Inr z' \<and>
     StreamReceive sample_rr_env ''t'' [GotEnvelope (EnvelopePayload (plain_payload [1, 5]))] (stream_init, z') =
       Some (Inl (Panic ''send on closed channel''))"
proof -
  obtain z' where z': "rr_Stop sample_rr = Inr z'"
    by (simp add: rr_Stop_def chan_close_def sample_rr_def NewReceivingRelay_base_def make_chan_def Let_def)
  have e: "effective_metadata (rs_rr sample_rr) (sl_defaults stream_init) (plain_payload [1, 5]) = (None, None)"
    by (simp add: effective_metadata_def stream_init_def plain_payload_def applyGRPCWebContentTypeDefaults_def sample_rr_def
        NewReceivingRelay_base_def)
  have "payload_item sample_rr_env (rs_rr sample_rr) (plain_payload [1, 5]\<lparr>wp_Metadata := None\<rparr>) = Inr [5]"
    using sample_results e by (auto simp: stream_init_def split: prod.splits)
  from stop_with_open_stream_panics [OF z' e this] z' show ?thesis by blast
qed


definition creds_load :: "'a rr_env \<Rightarrow> bool" where
  "creds_load env \<longleftrightarrow> re_keypair env = None \<and> re_ca env = None \<and> re_pem env"

lemma listen_credentials_ok:
  assumes "creds_load env"
  shows "\<exists>tls z1. listen_credentials env (startOutputFanout (rr_freeze z)) = (Inr tls, z1) \<and> rs_servers z1 = rs_servers z"
  using assms
  by (auto simp: creds_load_def listen_credentials_def loadTLSCredentials_def startOutputFanout_def rr_freeze_def Let_def
      split: option.splits)

lemma ensureDefaultAuthValidator_servers [simp]: "rs_servers (ensureDefaultAuthValidator z) = rs_servers z"
  by (auto simp: ensureDefaultAuthValidator_def Let_def split: option.splits bool.splits)

lemma listen_attempt_bound:
  assumes "creds_load env" and "re_bind env attempt = None"
  shows "\<exists>z' srv. listen_attempt env True retry attempt z = Inl (None, z') \<and> rs_servers z' = rs_servers z @ [srv]"
proof -
  obtain tls z1 where "listen_credentials env (startOutputFanout (rr_freeze z)) = (Inr tls, z1)" "rs_servers z1 = rs_servers z"
    using listen_credentials_ok [OF assms(1)] by blast
  with assms(2) show ?thesis by (simp add: listen_attempt_def appendAuthServerOptions_def Let_def)
qed

lemma listen_attempt_failed:
  assumes "creds_load env" and "re_bind env attempt = Some err"
  shows "\<exists>z'. listen_attempt env True retry attempt z = Inr z' \<and> rs_servers z' = rs_servers z"
proof -
  obtain tls z1 where "listen_credentials env (startOutputFanout (rr_freeze z)) = (Inr tls, z1)" "rs_servers z1 = rs_servers z"
    using listen_credentials_ok [OF assms(1)] by blast
  with assms(2) show ?thesis by (simp add: listen_attempt_def Let_def)
qed

lemma Listen_bound:
  assumes "creds_load env" and "re_bind env (attempt + k) = None" and "\<forall>j < k. re_bind env (attempt + j) \<noteq> None"
  shows "\<exists>z' srv. Listen env True retry attempt z = Some (None, z') \<and> rs_servers z' = rs_servers z @ [srv]"
  using assms(2,3)
proof (induction k arbitrary: attempt z)
  case 0
  then show ?case using listen_attempt_bound [OF assms(1), of attempt retry z] by (subst Listen.simps) auto
next
  case (Suc k)
  then obtain err where "re_bind env attempt = Some err" by fastforce
  then obtain z1 where z1: "listen_attempt env True retry attempt z = Inr z1" "rs_servers z1 = rs_servers z"
    using listen_attempt_failed [OF assms(1), of attempt err retry z] by blast
  have "re_bind env (Suc attempt + k) = None" "\<forall>j < k. re_bind env (Suc attempt + j) \<noteq> None"
    using Suc.prems by (simp, metis Suc_mono add_Suc_shift)
  from Suc.IH [OF this, of z1] z1 show ?case by (subst Listen.simps) simp
qed

lemma Listen_returns:
  assumes "Listen env listenForever retry attempt z = Some r"
  shows "listenForever \<and> creds_load env \<longrightarrow> (\<exists>k \<ge> attempt. re_bind env k = None)"
proof (rule Listen.raw_induct [OF _ assms], intro impI, elim conjE)
  fix Rec and env :: "'a rr_env" and listenForever retry attempt z r
  assume IH: "\<And>(env :: 'a rr_env) listenForever retry attempt z r. Rec env listenForever retry attempt z = Some r \<Longrightarrow>
      listenForever \<and> creds_load env \<longrightarrow> (\<exists>k \<ge> attempt. re_bind env k = None)"
    and step: "(case listen_attempt env listenForever retry attempt z of
       Inl r \<Rightarrow> Some r | Inr z' \<Rightarrow> Rec env listenForever retry (Suc attempt) z') = Some r"
    and creds: listenForever "creds_load env"
  show "\<exists>k \<ge> attempt. re_bind env k = None"
  proof (cases "re_bind env attempt")
    case (Some err)
    with step creds obtain z2 where "Rec env listenForever retry (Suc attempt) z2 = Some r"
      using listen_attempt_failed [OF creds(2) Some, of retry z] by auto
    from IH [OF this] creds show ?thesis using Suc_leD by blast
  qed blast
qed

text \<open>
  a relay that is told to listen for ever returns exactly when some attempt to bind succeeds. With
  credentials that load, \<^verbatim>\<open>Listen\<close> retries until the first attempt that succeeds, and then
  returns without an error with one more server running; if every attempt fails, it never returns.
\<close>

theorem listen_returns_iff_bound:
  assumes "creds_load env"
  shows "(\<exists>r. Listen env True retry 0 z = Some r) = (\<exists>k. re_bind env k = None) \<and>
    (\<forall>r z'. Listen env True retry 0 z = Some (r, z') \<longrightarrow> r = None \<and> (\<exists>srv. rs_servers z' = rs_servers z @ [srv]))"
proof -
  have ex: "\<exists>z' srv. Listen env True retry 0 z = Some (None, z') \<and> rs_servers z' = rs_servers z @ [srv]"
    if "re_bind env k = None" for k
  proof -
    define m where "m = (LEAST k. re_bind env k = None)"
    have "re_bind env m = None" "\<forall>j < m. re_bind env j \<noteq> None"
      unfolding m_def using that by (auto intro: LeastI dest: not_less_Least)
    then show ?thesis using Listen_bound [OF assms, of 0 m] by simp
  qed
  have "\<exists>k. re_bind env k = None" if "Listen env True retry 0 z = Some r" for r
    using Listen_returns [OF that] assms by blast
  with ex show ?thesis by (metis option.inject prod.inject)
qed

theorem listen_returns_iff_bound_witness:
  "\<exists>z'. Listen sample_rr_env True 0 0 sample_rr = Some (None, z')"
proof -
  have "creds_load sample_rr_env" "re_bind sample_rr_env 2 = None"
    by (simp_all add: sample_rr_env_def creds_load_def)
  with listen_returns_iff_bound [OF this(1), of 0 sample_rr] show ?thesis by fastforce
qed


end
