(* ===== verification/Relay_System.thy ===== *)
theory Relay_System
  imports Forward_Relay Receiving_Relay
begin

text \<open>
  A forward relay and a receiving relay at the two ends of a gRPC stream. The sender is a
  sequence of submissions and rounds of the send loop in any order; the receiver serves what
  the send loop put on the stream.
\<close>

section \<open>The sender\<close>

datatype 'a sender_event = SubmitItem 'a | SendRound

text \<open>
  The items whose submission returned no error, in order, and the state; \<open>None\<close> when a
  submission waits for ever or panics. A round of the send loop that finds nothing to send waits.
\<close>

fun sender_run ::
  "'a relay_env \<Rightarrow> nat \<Rightarrow> 'a sender_event list \<Rightarrow> 'a fr_sys \<Rightarrow> ('a list \<times> 'a fr_sys) option" where
  "sender_run env i [] z = Some ([], z)"
| "sender_run env i (SubmitItem d # evs) z =
     (case fr_Submit env d z of
        Some (Inr (None, z')) \<Rightarrow> map_option (apfst (Cons d)) (sender_run env i evs z')
      | Some (Inr (Some err, z')) \<Rightarrow> sender_run env i evs z'
      | _ \<Rightarrow> None)"
| "sender_run env i (SendRound # evs) z =
     (case streamSendLoop_round env i z of
        None \<Rightarrow> sender_run env i evs z
      | Some z' \<Rightarrow> sender_run env i evs z')"

fun submitted :: "'a sender_event list \<Rightarrow> 'a list" where
  "submitted [] = []"
| "submitted (SubmitItem d # evs) = d # submitted evs"
| "submitted (SendRound # evs) = submitted evs"

text \<open>A payload made for an item: wrapped, numbered, its metadata left to the stream's first message.\<close>

definition prepared_for :: "'a relay_env \<Rightarrow> forward_relay \<Rightarrow> 'a \<Rightarrow> wrapped_payload \<Rightarrow> bool" where
  "prepared_for env fr d p \<longleftrightarrow>
     (\<exists>t wp s. WrapPayload (env_lib env) (env_nonce env t) (env_now env t) (env_stamp env t) d
          (fr_PerformanceOptions fr) (fr_SecurityOptions fr) (fr_EncryptionKey fr) = Inr wp \<and>
        p = wp\<lparr>wp_Seq := s, wp_Metadata := None\<rparr>)"

text \<open>What the environment grants: the stream takes what is sent, the contexts stay open, items can be wrapped.\<close>

definition link_up :: "'a relay_env \<Rightarrow> forward_relay \<Rightarrow> bool" where
  "link_up env fr \<longleftrightarrow>
     (\<forall>t e. env_send env t e = None) \<and> (\<forall>t. \<not> env_ctx_done env t) \<and> (\<forall>t. nonce_ok (env_nonce env t)) \<and>
     (\<forall>t d. \<exists>wp. WrapPayload (env_lib env) (env_nonce env t) (env_now env t) (env_stamp env t) d
        (fr_PerformanceOptions fr) (fr_SecurityOptions fr) (fr_EncryptionKey fr) = Inr wp)"

definition same_codec :: "forward_relay \<Rightarrow> forward_relay \<Rightarrow> bool" where
  "same_codec fr fr' \<longleftrightarrow>
     fr_PerformanceOptions fr' = fr_PerformanceOptions fr \<and> fr_SecurityOptions fr' = fr_SecurityOptions fr \<and>
     fr_EncryptionKey fr' = fr_EncryptionKey fr"

lemma same_codec_simps [simp]:
  "same_codec fr fr" "same_codec fr (fr'\<lparr>fr_seq := s\<rparr>) = same_codec fr fr'"
  by (simp_all add: same_codec_def)

definition sender_ok ::
  "nat \<Rightarrow> string \<Rightarrow> forward_relay \<Rightarrow> stream_open \<Rightarrow> wrapped_payload list \<Rightarrow> 'a fr_sys \<Rightarrow> bool" where
  "sender_ok i address fr0 opn ps z \<longleftrightarrow>
     \<not> fr_passthrough (fs_fr z) \<and> Targets (fs_fr z) = [address] \<and> fr_streams (fs_fr z) address = Some i \<and>
     0 < fr_streamSendBuf (fs_fr z) \<and> \<not> fs_cancelled z \<and> same_codec fr0 (fs_fr z) \<and>
     \<not> ss_done (fs_sessions z i) \<and> \<not> ch_closed (ss_sendCh (fs_sessions z i)) \<and>
     ss_stream (fs_sessions z i) @ ch_buf (ss_sendCh (fs_sessions z i)) = EnvelopeOpen opn # map EnvelopePayload ps"

definition waiting :: "nat \<Rightarrow> 'a fr_sys \<Rightarrow> relay_envelope list" where
  "waiting i z = ch_buf (ss_sendCh (fs_sessions z i))"

definition buffer_size :: "nat \<Rightarrow> 'a fr_sys \<Rightarrow> nat" where
  "buffer_size i z = ch_cap (ss_sendCh (fs_sessions z i))"

lemma fr_logKV_fields [simp]:
  "fs_fr (fr_logKV l m kvs z) = fs_fr z" "fs_sessions (fr_logKV l m kvs z) = fs_sessions z"
  "fs_cancelled (fr_logKV l m kvs z) = fs_cancelled z" "fs_tick (fr_logKV l m kvs z) = fs_tick z"
  by (simp_all add: fr_logKV_def)

lemma fs_next_fields [simp]:
  "fs_fr (fs_next z) = fs_fr z" "fs_sessions (fs_next z) = fs_sessions z"
  "fs_cancelled (fs_next z) = fs_cancelled z"
  by (simp_all add: fs_next_def)

lemma put_session_fields [simp]:
  "fs_fr (put_session i ss z) = fs_fr z" "fs_sessions (put_session i ss z) = (fs_sessions z)(i := ss)"
  "fs_cancelled (put_session i ss z) = fs_cancelled z" "fs_tick (put_session i ss z) = fs_tick z"
  by (simp_all add: put_session_def)

lemma sender_ok_logKV [simp]:
  "sender_ok i a fr opn ps (fr_logKV l m kvs z) = sender_ok i a fr opn ps z"
  "waiting i (fr_logKV l m kvs z) = waiting i z" "buffer_size i (fr_logKV l m kvs z) = buffer_size i z"
  by (simp_all add: sender_ok_def waiting_def buffer_size_def)

lemma fr_Submit_step:
  assumes ok: "sender_ok i address fr0 opn ps z" and up: "link_up env fr0"
    and room: "length (waiting i z) < buffer_size i z"
  obtains p z' where "fr_Submit env d z = Some (Inr (None, z'))" and "prepared_for env fr0 d p"
    and "sender_ok i address fr0 opn (ps @ [p]) z'" and "buffer_size i z' = buffer_size i z"
    and "length (waiting i z') = Suc (length (waiting i z))"
proof -
  let ?fr = "fs_fr z" and ?t = "fs_tick z"
  have codec: "fr_PerformanceOptions ?fr = fr_PerformanceOptions fr0"
    "fr_SecurityOptions ?fr = fr_SecurityOptions fr0" "fr_EncryptionKey ?fr = fr_EncryptionKey fr0"
    using ok by (simp_all add: sender_ok_def same_codec_def)
  obtain wp where wp: "WrapPayload (env_lib env) (env_nonce env ?t) (env_now env ?t) (env_stamp env ?t) d
      (fr_PerformanceOptions fr0) (fr_SecurityOptions fr0) (fr_EncryptionKey fr0) = Inr wp"
    using up unfolding link_up_def by blast
  define s where "s = (fr_seq ?fr + 1) mod 18446744073709551616"
  define p where "p = wp\<lparr>wp_Seq := s, wp_Metadata := None\<rparr>"
  define z1 where "z1 = fs_next (z\<lparr>fs_fr := ?fr\<lparr>fr_seq := s\<rparr>\<rparr>)"
  define ss where "ss = fs_sessions z i"
  define z2 where "z2 = put_session i (ss\<lparr>ss_sendCh := (ss_sendCh ss)\<lparr>ch_buf := ch_buf (ss_sendCh ss) @ [EnvelopePayload p]\<rparr>\<rparr>) (fs_next z1)"
  have prep: "prepare_payload env d z = (Inr p, z1)"
    using ok wp by (simp add: prepare_payload_def sender_ok_def codec Let_def p_def z1_def s_def)
  have get: "getOrCreateStreamSession env address z1 = Inr (Inr i, z1)"
    using ok by (simp add: getOrCreateStreamSession_def ensureStreamsInit_def sender_ok_def z1_def Let_def)
  have send: "chan_send (EnvelopePayload p) (ss_sendCh ss) =
      Sent ((ss_sendCh ss)\<lparr>ch_buf := ch_buf (ss_sendCh ss) @ [EnvelopePayload p]\<rparr>)"
    using ok room by (simp add: chan_send_def sender_ok_def ss_def waiting_def buffer_size_def)
  have enq: "enqueue env i (EnvelopePayload p) z1 = Some (Inr (None, z2))"
    using ok up send by (simp add: enqueue_def link_up_def sender_ok_def z1_def z2_def ss_def Let_def)
  have tg: "Targets (fs_fr z1) = [address]" using ok by (simp add: sender_ok_def z1_def)
  obtain z3 where sub: "fr_Submit env d z = Some (Inr (None, z3))" and z3: "\<exists>l m kvs. z3 = fr_logKV l m kvs z2"
    by (simp add: fr_Submit_def prep tg get enq) blast
  have ok2: "sender_ok i address fr0 opn (ps @ [p]) z2" "buffer_size i z2 = buffer_size i z"
    "length (waiting i z2) = Suc (length (waiting i z))"
    using ok by (auto simp: sender_ok_def z2_def z1_def ss_def buffer_size_def waiting_def)
  have "prepared_for env fr0 d p" using wp by (auto simp: prepared_for_def p_def)
  with sub ok2 z3 show thesis by (intro that [of z3 p]) auto
qed

lemma send_round_step:
  assumes ok: "sender_ok i address fr0 opn ps z" and up: "link_up env fr0" and "waiting i z \<noteq> []"
  obtains z' where "streamSendLoop_round env i z = Some z'" and "sender_ok i address fr0 opn ps z'"
    and "buffer_size i z' = buffer_size i z" and "waiting i z' = tl (waiting i z)"
proof -
  obtain e es where w: "waiting i z = e # es" using assms(3) by (cases "waiting i z") auto
  define z' where "z' = put_session i ((fs_sessions z i)\<lparr>ss_sendCh := (ss_sendCh (fs_sessions z i))\<lparr>ch_buf := es\<rparr>,
      ss_stream := ss_stream (fs_sessions z i) @ [e]\<rparr>) (fs_next z)"
  have "streamSendLoop_round env i z = Some z'"
    using ok up w by (simp add: streamSendLoop_round_def sender_ok_def link_up_def waiting_def chan_recv_def
        z'_def Let_def)
  moreover have "sender_ok i address fr0 opn ps z'" "buffer_size i z' = buffer_size i z" "waiting i z' = es"
    using ok w by (auto simp: sender_ok_def z'_def buffer_size_def waiting_def)
  ultimately show thesis using that w by simp
qed

lemma send_round_waits:
  "sender_ok i address fr0 opn ps z \<Longrightarrow> waiting i z = [] \<Longrightarrow> streamSendLoop_round env i z = None"
  by (simp add: streamSendLoop_round_def sender_ok_def waiting_def chan_recv_def)

text \<open>However submissions and send rounds interleave, the stream and the queue hold the payloads in order.\<close>

lemma sender_run_ok:
  assumes "sender_ok i address fr0 opn ps z" and "link_up env fr0"
    and "length (waiting i z) + length (submitted evs) \<le> buffer_size i z"
  shows "\<exists>qs z'. sender_run env i evs z = Some (submitted evs, z') \<and>
    sender_ok i address fr0 opn (ps @ qs) z' \<and> list_all2 (prepared_for env fr0) (submitted evs) qs"
  using assms
proof (induction evs arbitrary: ps z)
  case (Cons ev evs)
  show ?case
  proof (cases ev)
    case (SubmitItem d)
    have room: "length (waiting i z) < buffer_size i z" using Cons.prems(3) SubmitItem by simp
    obtain p z' where s: "fr_Submit env d z = Some (Inr (None, z'))" "prepared_for env fr0 d p"
      "sender_ok i address fr0 opn (ps @ [p]) z'" "buffer_size i z' = buffer_size i z"
      "length (waiting i z') = Suc (length (waiting i z))"
      by (rule fr_Submit_step [OF Cons.prems(1,2) room])
    have "length (waiting i z') + length (submitted evs) \<le> buffer_size i z'"
      using s(4,5) Cons.prems(3) SubmitItem by simp
    from Cons.IH [OF s(3) Cons.prems(2) this] obtain qs z'' where
      "sender_run env i evs z' = Some (submitted evs, z'')"
      "sender_ok i address fr0 opn ((ps @ [p]) @ qs) z''" "list_all2 (prepared_for env fr0) (submitted evs) qs"
      by blast
    with s(1,2) SubmitItem show ?thesis by (intro exI [of _ "p # qs"] exI [of _ z'']) simp
  next
    case SendRound
    show ?thesis
    proof (cases "waiting i z = []")
      case True
      have "streamSendLoop_round env i z = None" by (rule send_round_waits [OF Cons.prems(1) True])
      then show ?thesis using Cons.IH [OF Cons.prems(1,2)] Cons.prems(3) SendRound by simp
    next
      case False
      obtain z' where s: "streamSendLoop_round env i z = Some z'" "sender_ok i address fr0 opn ps z'"
        "buffer_size i z' = buffer_size i z" "waiting i z' = tl (waiting i z)"
        by (rule send_round_step [OF Cons.prems(1,2) False])
      have "length (waiting i z') + length (submitted evs) \<le> buffer_size i z'"
        using s(3,4) Cons.prems(3) SendRound by simp
      from Cons.IH [OF s(2) Cons.prems(2) this] s(1) SendRound show ?thesis by simp
    qed
  qed
qed (auto intro: exI [of _ "[]"])

lemma run_send_loop_drains:
  assumes "sender_ok i address fr0 opn ps z" and "link_up env fr0" and "length (waiting i z) \<le> n"
  shows "ss_stream (fs_sessions (run_send_loop n env i z) i) = EnvelopeOpen opn # map EnvelopePayload ps"
  using assms
proof (induction n arbitrary: z)
  case 0
  then show ?case by (simp add: sender_ok_def waiting_def)
next
  case (Suc n)
  show ?case
  proof (cases "waiting i z = []")
    case True
    with send_round_waits [OF Suc.prems(1)] Suc.prems(1) show ?thesis
      by (simp add: sender_ok_def waiting_def)
  next
    case False
    obtain z' where "streamSendLoop_round env i z = Some z'" "sender_ok i address fr0 opn ps z'"
      "waiting i z' = tl (waiting i z)"
      by (rule send_round_step [OF Suc.prems(1,2) False])
    with Suc show ?thesis by simp
  qed
qed


section \<open>The session and the receiver\<close>

text \<open>A session opened for an address that had none.\<close>

lemma opened_session:
  assumes opened: "getOrCreateStreamSession env address z0 = Inr (Inr i, z)"
    and new: "fr_streams (fs_fr z0) address = None"
    and conf: "\<not> fr_passthrough (fs_fr z0)" "Targets (fs_fr z0) = [address]" "\<not> fs_cancelled z0"
  obtains opn d where "sender_ok i address (fs_fr z0) opn [] z" and "waiting i z = []"
    and "so_Defaults opn = Some d" and "md_ContentType d = ''application/octet-stream''"
    and "md_Performance d = fr_PerformanceOptions (fs_fr z0)" and "md_Security d = fr_SecurityOptions (fs_fr z0)"
proof -
  define fr1 where "fr1 = (fs_fr (ensureStreamsInit z0))\<lparr>fr_streams := (fr_streams (fs_fr (ensureStreamsInit z0)))(address := None)\<rparr>"
  have fr1: "fr_PerformanceOptions fr1 = fr_PerformanceOptions (fs_fr z0)" "fr_SecurityOptions fr1 = fr_SecurityOptions (fs_fr z0)"
    "fr_EncryptionKey fr1 = fr_EncryptionKey (fs_fr z0)" "Targets fr1 = [address]" "\<not> fr_passthrough fr1" "0 < fr_streamSendBuf fr1"
    "fr_streams (fs_fr (ensureStreamsInit z0)) address = None"
    using conf new by (simp_all add: fr1_def ensureStreamsInit_def)
  let ?z2 = "(ensureStreamsInit z0)\<lparr>fs_fr := fr1\<rparr>"
  have z2: "\<not> fs_cancelled ?z2" using conf by (simp add: ensureStreamsInit_def)
  have "getOrCreateStreamSession env address z0 =
     (case openStreamSession env address ?z2 of
        (Inl err, z3) \<Rightarrow> Inr (Inl err, z3)
      | (Inr i, z3) \<Rightarrow>
        (case fr_streams (fs_fr z3) address of
           Some existing \<Rightarrow> (case session_close env ''race lost'' i z3 of Inl p \<Rightarrow> Inl p | Inr z4 \<Rightarrow> Inr (Inr existing, z4))
         | None \<Rightarrow> Inr (Inr i, z3\<lparr>fs_fr := (fs_fr z3)\<lparr>fr_streams := (fr_streams (fs_fr z3))(address \<mapsto> i)\<rparr>\<rparr>)))"
    using fr1(7) by (simp add: getOrCreateStreamSession_def fr1_def Let_def)
  moreover have "fr_streams fr1 address = None" by (simp add: fr1_def)
  ultimately obtain t trace where
    i: "fs_fr z = fr1\<lparr>fr_streams := (fr_streams fr1)(address \<mapsto> i)\<rparr>" "\<not> fs_cancelled z"
      "\<not> ss_done (fs_sessions z i)" "ss_sendCh (fs_sessions z i) = make_chan (nat (fr_streamSendBuf fr1))"
      "ss_stream (fs_sessions z i) = [EnvelopeOpen (stream_open_message env t trace fr1)]"
    using opened z2
    by (auto simp: openStreamSession_def Let_def split: sum.splits option.splits)
  show thesis
    by (rule that [of "stream_open_message env t trace fr1" "the (so_Defaults (stream_open_message env t trace fr1))"])
      (use i fr1 in \<open>simp_all add: sender_ok_def same_codec_def waiting_def make_chan_def stream_open_message_def\<close>)
qed

text \<open>The receiver gets back the item of a payload whose metadata are the defaults of its stream.\<close>

lemma payload_item_prepared:
  assumes lib: "lib_ok (env_lib env)" "\<not> isProtoTarget (env_lib env)" "re_lib renv = env_lib env"
    and nonce: "\<And>t. nonce_ok (env_nonce env t)"
    and key: "aes_gcm_on (fr_SecurityOptions fr) \<longrightarrow> aes_key_length (length (fr_EncryptionKey fr))"
    and rr: "DecryptionKey rr = fr_EncryptionKey fr" "\<not> rr_passthrough rr"
    and perf: "fr_PerformanceOptions fr \<noteq> None"
    and m: "md_ContentType m = ''application/octet-stream''" "md_Performance m = fr_PerformanceOptions fr"
      "md_Security m = fr_SecurityOptions fr"
    and p: "prepared_for env fr d p" and carried: "carries (env_lib env) (re_zero renv) d"
  shows "payload_item renv rr (p\<lparr>wp_Metadata := Some m\<rparr>) = Inr d" and "wp_Metadata p = None"
proof -
  obtain t wp s where w: "WrapPayload (env_lib env) (env_nonce env t) (env_now env t) (env_stamp env t) d
      (fr_PerformanceOptions fr) (fr_SecurityOptions fr) (fr_EncryptionKey fr) = Inr wp"
    and p': "p = wp\<lparr>wp_Seq := s, wp_Metadata := None\<rparr>"
    using p unfolding prepared_for_def by blast
  obtain b pf where o: "validateEncryptionRequirement (fr_SecurityOptions fr) (fr_EncryptionKey fr) = None"
    "gob_Encode (env_lib env) d = Inr b"
    "seal_payload (env_lib env) (env_nonce env t) b pf (fr_SecurityOptions fr) (fr_EncryptionKey fr) = Inr (wp_Payload wp)"
    "wp_PayloadEncoding wp = PAYLOAD_ENCODING_UNSPECIFIED" "fr_PerformanceOptions fr = Some pf"
    using WrapPayload_Inr [OF w] perf by (metis (no_types, lifting) option.collapse option.simps(5))
  let ?wp = "p\<lparr>wp_Metadata := Some m\<rparr>"
  have "UnwrapPayload (env_lib env) (Some ?wp) (fr_EncryptionKey fr) (re_zero renv) =
      decode_payload (env_lib env) (md_ContentType m) (wp_PayloadEncoding ?wp) (wp_PayloadType ?wp) b (re_zero renv)"
    by (rule UnwrapPayload_sealed [OF lib(1) nonce]) (use o m key p' in simp_all)
  also have "\<dots> = (d, None)"
    using o(4) m(1) p' lib(2) carriesD(1) [OF carried o(2)] by (simp add: decode_payload_def Let_def)
  finally show "payload_item renv rr ?wp = Inr d" using rr lib(3) by (simp add: payload_item_def)
  show "wp_Metadata p = None" using p' by simp
qed

lemma stream_results_prepared:
  assumes "md_ContentType m \<noteq> ''''"
    and "\<And>d p. d \<in> set ds \<Longrightarrow> prepared_for env fr d p \<Longrightarrow>
      payload_item renv rr (p\<lparr>wp_Metadata := Some m\<rparr>) = Inr d \<and> wp_Metadata p = None"
    and "list_all2 (prepared_for env fr) ds ps"
  shows "stream_results renv rr (Some m) ps = map Inr ds"
  using assms(3,2)
proof (induction ds ps rule: list_all2_induct)
  case (Cons d ds p ps)
  have "payload_item renv rr (p\<lparr>wp_Metadata := Some m\<rparr>) = Inr d" "wp_Metadata p = None"
    using Cons.prems [OF _ Cons.hyps(1)] by simp_all
  with Cons.IH [OF Cons.prems] assms(1) show ?case
    by (simp add: effective_metadata_def applyGRPCWebContentTypeDefaults_def Let_def)
qed simp

lemma rights_map_Inr [simp]: "rights (map Inr ds) = ds"
  by (induction ds) simp_all


text \<open>
  C7: what is submitted arrives. A stream is opened to a receiving relay that has the sender's key,
  and submissions are made while the send loop runs, in any interleaving, with room for them in
  the session's buffer. Every submission is accepted without waiting; once the send loop has sent
  what it holds, the receiver that reads the stream to its end returns without an error and has
  delivered exactly the submitted items, each once and in order.

  It holds for one target and a relay that is not passed through, on a link that accepts every send, with performance options,
  compressed or not and encrypted or not, when a key that encrypts is a text of 16, 24 or 32 bytes (not the
  hexadecimal and base-64 keys, which the receiver does not read), the type is not a protobuf message, gob carries
  the submitted items into the zero value that the receiver decodes into, compression and AES-GCM keep their
  contract, the receiver's channel has room and its acknowledgements are sent.
\<close>

theorem relay_end_to_end:
  fixes env :: "'a relay_env" and renv :: "'a rr_env" and evs :: "'a sender_event list"
  assumes opened: "getOrCreateStreamSession env address z0 = Inr (Inr i, z)" "fr_streams (fs_fr z0) address = None"
    and conf: "\<not> fr_passthrough (fs_fr z0)" "Targets (fs_fr z0) = [address]" "\<not> fs_cancelled z0"
      "fr_PerformanceOptions (fs_fr z0) \<noteq> None"
    and key: "aes_gcm_on (fr_SecurityOptions (fs_fr z0)) \<longrightarrow> aes_key_length (length (fr_EncryptionKey (fs_fr z0)))"
    and up: "link_up env (fs_fr z0)" "length (submitted evs) \<le> buffer_size i z"
    and lib: "lib_ok (env_lib env)" "\<not> isProtoTarget (env_lib env)" "re_lib renv = env_lib env"
    and carried: "\<forall>d\<in>set (submitted evs). carries (env_lib env) (re_zero renv) d"
    and receiver: "DecryptionKey (rs_rr rz) = fr_EncryptionKey (fs_fr z0)" "\<not> rr_passthrough (rs_rr rz)"
      "acks_sent renv" "chan_room (DataCh (rs_rr rz)) (length (submitted evs))" "stream_ends fin"
  shows "\<exists>z' sl rz'. sender_run env i evs z = Some (submitted evs, z') \<and>
    StreamReceive renv tr
      (map GotEnvelope (ss_stream (fs_sessions (run_send_loop (Suc (length (submitted evs))) env i z') i)) @ [fin])
      (stream_init, rz) = Some (Inr (StreamReturn None, sl, rz')) \<and>
    delivered rz (submitted evs) rz'"
proof -
  let ?fr = "fs_fr z0" and ?n = "Suc (length (submitted evs))"
  obtain opn d where z: "sender_ok i address ?fr opn [] z" "waiting i z = []" and d: "so_Defaults opn = Some d"
    "md_ContentType d = ''application/octet-stream''" "md_Performance d = fr_PerformanceOptions ?fr"
    "md_Security d = fr_SecurityOptions ?fr"
    by (rule opened_session [OF opened conf(1-3)])
  have "length (waiting i z) + length (submitted evs) \<le> buffer_size i z" using up(2) z(2) by simp
  from sender_run_ok [OF z(1) up(1) this] obtain ps z' where
    run: "sender_run env i evs z = Some (submitted evs, z')" and z': "sender_ok i address ?fr opn ps z'"
    and ps: "list_all2 (prepared_for env ?fr) (submitted evs) ps" by auto
  have "length (ss_stream (fs_sessions z' i)) + length (waiting i z') = Suc (length ps)"
    using z' unfolding sender_ok_def waiting_def by (metis length_Cons length_append length_map)
  then have "length (waiting i z') \<le> ?n" using list_all2_lengthD [OF ps] by simp
  note sent = run_send_loop_drains [OF z' up(1) this]
  have "stream_results renv (rs_rr rz) (so_Defaults opn) ps = map Inr (submitted evs)"
    unfolding d(1)
    by (rule stream_results_prepared [OF _ _ ps])
      (use payload_item_prepared [OF lib _ key receiver(1,2) conf(4) d(2-4)] up(1) d(2) in \<open>auto simp: link_up_def carried\<close>)
  then have results: "rights (stream_results renv (rs_rr rz) (so_Defaults opn) ps) = submitted evs" by simp
  obtain sl rz' where "StreamReceive renv tr (GotEnvelope (EnvelopeOpen opn) # map (\<lambda>p. GotEnvelope (EnvelopePayload p)) ps @ [fin])
      (stream_init, rz) = Some (Inr (StreamReturn None, sl, rz'))" "delivered rz (submitted evs) rz'"
    by (rule stream_served [OF receiver(3,5), of rz opn ps tr, unfolded results, OF receiver(4)]) (rule that)
  with run sent show ?thesis by (intro exI [of _ z'] exI [of _ sl] exI [of _ rz']) (simp add: comp_def)
qed

text \<open>Samples: a sender that compresses and encrypts, in an environment where everything succeeds, and its receiver.\<close>

definition sample_env :: "octets relay_env" where
  "sample_env = \<lparr>env_lib = sample_lib, env_now = (\<lambda>_. 0), env_stamp = (\<lambda>_. ''t''), env_nonce = (\<lambda>_. Inr sample_nonce),
     env_hash = (\<lambda>_. ''h''), env_md = Map.empty, env_tls = None, env_dial = (\<lambda>_ _. None), env_open = (\<lambda>_ _. None),
     env_send = (\<lambda>_ _. None), env_select = (\<lambda>_. 0), env_ctx_done = (\<lambda>_. False)\<rparr>"

definition sample_sender :: "octets fr_sys" where
  "sample_sender = new_fr_sys ((NewForwardRelay_base ''h'')\<lparr>Targets := [''a''],
     fr_PerformanceOptions := Some \<lparr>UseCompression = True, CompressionAlgorithm = 3\<rparr>,
     fr_SecurityOptions := Some gcm_options, fr_EncryptionKey := ''0123456789abcdef''\<rparr>)"

definition sample_receiver :: "octets rr_sys" where
  "sample_receiver = sample_rr\<lparr>rs_rr := (rs_rr sample_rr)\<lparr>DecryptionKey := ''0123456789abcdef''\<rparr>\<rparr>"

lemma sample_sender_opens:
  obtains z where "getOrCreateStreamSession sample_env ''a'' sample_sender = Inr (Inr 0, z)" "buffer_size 0 z = 8192"
  by (simp add: getOrCreateStreamSession_def ensureStreamsInit_def openStreamSession_def buildPerRPCContext_def
      makeDialOptions_def sample_sender_def new_fr_sys_def NewForwardRelay_base_def sample_env_def buffer_size_def
      make_chan_def fs_next_def Let_def)

lemma sample_link_up: "link_up sample_env (fs_fr sample_sender)"
  by (simp add: link_up_def sample_env_def sample_sender_def new_fr_sys_def NewForwardRelay_base_def nonce_ok_def sample_nonce_def
      WrapPayload_def sample_lib_def gcm_options_def aes_gcm_on_def validateEncryptionRequirement_def
      seal_payload_def compressData_def encryptData_def normalizeAESKey_def aes_key_length_def aes_NewCipher_def Let_def)

theorem relay_end_to_end_witness:
  "\<exists>z z' sl rz'. getOrCreateStreamSession sample_env ''a'' sample_sender = Inr (Inr 0, z) \<and>
    sender_run sample_env 0 [SubmitItem [3], SendRound, SendRound, SendRound, SubmitItem [4, 5]] z = Some ([[3], [4, 5]], z') \<and>
    StreamReceive sample_rr_env ''t''
      (map GotEnvelope (ss_stream (fs_sessions (run_send_loop 3 sample_env 0 z') 0)) @ [GotEOF])
      (stream_init, sample_receiver) = Some (Inr (StreamReturn None, sl, rz')) \<and>
    delivered sample_receiver [[3], [4, 5]] rz'"
proof (rule sample_sender_opens)
  fix z
  assume z: "getOrCreateStreamSession sample_env ''a'' sample_sender = Inr (Inr 0, z)" "buffer_size 0 z = 8192"
  let ?evs = "[SubmitItem [3], SendRound, SendRound, SendRound, SubmitItem [4, 5]] :: octets sender_event list"
  have s: "fr_streams (fs_fr sample_sender) ''a'' = None" "\<not> fr_passthrough (fs_fr sample_sender)"
    "Targets (fs_fr sample_sender) = [''a'']" "\<not> fs_cancelled sample_sender" "fr_PerformanceOptions (fs_fr sample_sender) \<noteq> None"
    "aes_key_length (length (fr_EncryptionKey (fs_fr sample_sender)))"
    by (simp_all add: sample_sender_def new_fr_sys_def NewForwardRelay_base_def aes_key_length_def)
  have l: "lib_ok (env_lib sample_env)" "\<not> isProtoTarget (env_lib sample_env)" "re_lib sample_rr_env = env_lib sample_env"
    using sample_lib_ok by (simp_all add: sample_env_def sample_rr_env_def isProtoTarget_def) (simp add: sample_lib_def Let_def)
  have c: "\<forall>d\<in>set (submitted ?evs). carries (env_lib sample_env) (re_zero sample_rr_env) d"
    using sample_lib_carries by (simp add: sample_env_def)
  have r: "DecryptionKey (rs_rr sample_receiver) = fr_EncryptionKey (fs_fr sample_sender)"
    "\<not> rr_passthrough (rs_rr sample_receiver)" "acks_sent sample_rr_env"
    "chan_room (DataCh (rs_rr sample_receiver)) (length (submitted ?evs))" "stream_ends GotEOF"
    by (simp_all add: sample_receiver_def sample_rr_def sample_sender_def new_fr_sys_def NewForwardRelay_base_def
        NewReceivingRelay_base_def acks_sent_def sample_rr_env_def chan_room_def make_chan_def stream_ends_def)
  show ?thesis
    using relay_end_to_end [OF z(1) s(1-5) _ sample_link_up _ l _ r] s(6) z c by (simp add: numeral_eq_Suc)
qed


section \<open>Credentials of the sender\<close>

text \<open>
  C23: with OAuth2 enabled and required, a session is opened only over TLS and only with a token: the
  token source gave a token without an error, the stream carries it as the bearer credential,
  whatever the static and dynamic headers set, and the connection was dialled with the TLS
  credentials of a configuration that enables TLS.
\<close>

theorem required_token_travels_over_tls:
  assumes "openStreamSession env address z = (Inr i, z')"
    and "fr_tokenSource (fs_fr z) = Some ts" and "fr_authRequired (fs_fr z)"
  shows "(\<exists>tok. ts (fs_tick z) = (tok, None) \<and> tok \<noteq> '''' \<and>
      ss_md (fs_sessions z' i) ''authorization'' = Some [''Bearer '' @ tok]) \<and>
    ss_secure (fs_sessions z' i) \<and> (\<exists>c. fr_TlsConfig (fs_fr z) = Some c \<and> UseTLS c) \<and> env_tls env = None"
proof -
  obtain md secure where md: "buildPerRPCContext env (fs_tick z) (fs_fr z) = Inr md"
    and sec: "makeDialOptions env (fs_fr z) = Inr secure"
    and ss: "ss_md (fs_sessions z' i) = md" "ss_secure (fs_sessions z' i) = secure"
    using assms(1) by (auto simp: openStreamSession_def Let_def split: sum.splits option.splits)
  obtain tok err where tok: "ts (fs_tick z) = (tok, err)" by fastforce
  have "err = None \<and> tok \<noteq> '''' \<and> md ''authorization'' = Some [''Bearer '' @ tok]"
    using md assms(2,3) tok
    by (auto simp: buildPerRPCContext_def Let_def md_Set_def ToLower_def lower_char_def split: if_splits option.splits)
  moreover have "secure \<and> (\<exists>c. fr_TlsConfig (fs_fr z) = Some c \<and> UseTLS c) \<and> env_tls env = None"
    using sec assms(2,3) by (auto simp: makeDialOptions_def split: option.splits if_splits)
  ultimately show ?thesis using ss tok by simp
qed

definition token_sender :: "octets fr_sys" where
  "token_sender = sample_sender\<lparr>fs_fr := (fs_fr sample_sender)\<lparr>fr_tokenSource := Some (\<lambda>_. (''tk'', None)),
     fr_staticHeaders := [(''Authorization'', ''other'')],
     fr_TlsConfig := Some \<lparr>UseTLS = True, CertFile = '''', KeyFile = '''', CAFile = '''', SubjectAlternativeName = '''',
       MinTLSVersion = 0, MaxTLSVersion = 0\<rparr>\<rparr>\<rparr>"

theorem required_token_travels_over_tls_witness:
  "\<exists>z'. openStreamSession sample_env ''a'' token_sender = (Inr 0, z') \<and>
    ss_md (fs_sessions z' 0) ''authorization'' = Some [''Bearer tk''] \<and> ss_secure (fs_sessions z' 0)"
proof -
  have "\<exists>z'. openStreamSession sample_env ''a'' token_sender = (Inr 0, z')"
    by (simp add: openStreamSession_def buildPerRPCContext_def makeDialOptions_def token_sender_def sample_sender_def
        new_fr_sys_def NewForwardRelay_base_def sample_env_def static_header_def fs_next_def Let_def)
  then obtain z' where z': "openStreamSession sample_env ''a'' token_sender = (Inr 0, z')" by blast
  have "fr_tokenSource (fs_fr token_sender) = Some (\<lambda>_. (''tk'', None))" "fr_authRequired (fs_fr token_sender)"
    by (simp_all add: token_sender_def sample_sender_def new_fr_sys_def NewForwardRelay_base_def)
  with z' required_token_travels_over_tls [OF z' this] show ?thesis by simp
qed

end
