(* ===== verification/Codec.thy ===== *)
theory Codec
  imports Framing
begin

text \<open>
  The codecs of \<^verbatim>\<open>src/pkg/internal/codec\<close> that do work of their own: the binary format of wave data
  (\<^verbatim>\<open>wave.go\<close>) and lines (\<^verbatim>\<open>line.go\<close>), with the decoders of text and bytes that read a stream to its end.
  Streams are the readers and writers of \<open>Framing\<close>. A float is its 64 bits, as \<^verbatim>\<open>math.Float64bits\<close>
  gives them, and a Go string its bytes. The JSON, XML and HTML codecs only call libraries.
\<close>

section \<open>Little-endian numbers\<close>

definition LE32 :: "32 word \<Rightarrow> octets" where
  "LE32 v = [ucast v, ucast (drop_bit 8 v), ucast (drop_bit 16 v), ucast (drop_bit 24 v)]"

definition LE64 :: "64 word \<Rightarrow> octets" where
  "LE64 v = LE32 (ucast v) @ LE32 (ucast (drop_bit 32 v))"

definition of_LE32 :: "octets \<Rightarrow> 32 word" where
  "of_LE32 b = ucast (b ! 0) OR push_bit 8 (ucast (b ! 1)) OR push_bit 16 (ucast (b ! 2)) OR push_bit 24 (ucast (b ! 3))"

definition of_LE64 :: "octets \<Rightarrow> 64 word" where
  "of_LE64 b = ucast (of_LE32 (take 4 b)) OR push_bit 32 (ucast (of_LE32 (drop 4 b)))"

lemma length_LE [simp]: "length (LE32 v) = 4" "length (LE64 u) = 8"
  by (simp_all add: LE32_def LE64_def)

lemma of_LE32_LE32 [simp]: "of_LE32 (LE32 v) = v"
proof (rule bit_word_eqI)
  fix n :: nat
  assume "n < LENGTH(32)"
  then have n: "n < 32" by simp
  then consider "n < 8" | "8 \<le> n" "n < 16" | "16 \<le> n" "n < 24" | "24 \<le> n" by linarith
  then show "bit (of_LE32 (LE32 v)) n = bit v n"
    using n by cases (auto simp: of_LE32_def LE32_def bit_simps)
qed

lemma of_LE64_LE64 [simp]: "of_LE64 (LE64 v) = v"
proof -
  have "of_LE64 (LE64 v) = ucast (ucast v :: 32 word) OR push_bit 32 (ucast (ucast (drop_bit 32 v) :: 32 word))"
    by (simp add: of_LE64_def LE64_def)
  also have "\<dots> = v"
    by (rule bit_word_eqI) (auto simp: bit_simps)
  finally show ?thesis .
qed

section \<open>Wave data\<close>

record peak =
  Freq :: "64 word"
  peak_Value :: "64 word"

record wave_data =
  wave_ID :: int
  OriginalWave :: "(64 word \<times> 64 word) list"    \<comment> \<open>real and imaginary part\<close>
  CompressedHex :: octets
  DominantFreq :: "64 word"
  TotalEnergy :: "64 word"
  CompressionRatio :: "64 word"
  wave_MSE :: "64 word"
  wave_SNR :: "64 word"
  FrequencyPeaks :: "peak list"

text \<open>The writes of \<^verbatim>\<open>Encode\<close>, in order; the conversions to \<^verbatim>\<open>int32\<close> wrap around.\<close>

definition int32_bytes :: "int \<Rightarrow> octets" where
  "int32_bytes i = LE32 (word_of_int i)"

definition wave_writes :: "wave_data \<Rightarrow> octets list" where
  "wave_writes w =
     [int32_bytes (wave_ID w), LE64 (DominantFreq w), LE64 (TotalEnergy w), LE64 (CompressionRatio w),
      LE64 (wave_MSE w), LE64 (wave_SNR w), int32_bytes (int (length (OriginalWave w)))] @
     concat (map (\<lambda>c. [LE64 (fst c), LE64 (snd c)]) (OriginalWave w)) @
     [int32_bytes (int (length (CompressedHex w))), CompressedHex w,
      int32_bytes (int (length (FrequencyPeaks w)))] @
     concat (map (\<lambda>p. [LE64 (Freq p), LE64 (peak_Value p)]) (FrequencyPeaks w))"

fun write_each :: "'w io_writer \<Rightarrow> octets list \<Rightarrow> 'w \<Rightarrow> gerr option \<times> 'w" where
  "write_each wr [] s = (None, s)"
| "write_each wr (b # bs) s =
     (case wr b s of (Some err, s1) \<Rightarrow> (Some err, s1) | (None, s1) \<Rightarrow> write_each wr bs s1)"

text \<open>The item is \<open>None\<close> when it is not of type \<^verbatim>\<open>WaveData\<close>.\<close>

definition wave_Encode :: "'w io_writer \<Rightarrow> wave_data option \<Rightarrow> 'w \<Rightarrow> gerr option \<times> 'w" where
  "wave_Encode wr item s =
     (case item of
        None \<Rightarrow> (Some (Err ''item is not of type WaveData''), s)
      | Some w \<Rightarrow> write_each wr (wave_writes w) s)"

text \<open>
  What a decoder does on a stream: a value, an error or a panic with the stream after it, or
  nothing when the reader never delivers.
\<close>

datatype 'b decoded = Decoded 'b | DecodeError gerr | DecodePanic panic

type_synonym ('r, 'b) decoder = "'r \<Rightarrow> ('b decoded \<times> 'r) option"

definition dec_return :: "'b \<Rightarrow> ('r, 'b) decoder" where
  "dec_return v r = Some (Decoded v, r)"

definition dec_bind :: "('r, 'b) decoder \<Rightarrow> ('b \<Rightarrow> ('r, 'c) decoder) \<Rightarrow> ('r, 'c) decoder" where
  "dec_bind d f r =
     (case d r of
        None \<Rightarrow> None
      | Some (Decoded v, r1) \<Rightarrow> f v r1
      | Some (DecodeError e, r1) \<Rightarrow> Some (DecodeError e, r1)
      | Some (DecodePanic p, r1) \<Rightarrow> Some (DecodePanic p, r1))"

definition read_bytes :: "'r io_reader \<Rightarrow> nat \<Rightarrow> ('r, octets) decoder" where
  "read_bytes rd n r =
     (case ReadFull rd n r of
        None \<Rightarrow> None
      | Some (Inl e, r1) \<Rightarrow> Some (DecodeError e, r1)
      | Some (Inr bs, r1) \<Rightarrow> Some (Decoded bs, r1))"

definition read_int32 :: "'r io_reader \<Rightarrow> ('r, int) decoder" where
  "read_int32 rd = dec_bind (read_bytes rd 4) (\<lambda>bs. dec_return (sint (of_LE32 bs)))"

definition read_float64 :: "'r io_reader \<Rightarrow> ('r, 64 word) decoder" where
  "read_float64 rd = dec_bind (read_bytes rd 8) (\<lambda>bs. dec_return (of_LE64 bs))"

definition read_pair :: "'r io_reader \<Rightarrow> ('r, 64 word \<times> 64 word) decoder" where
  "read_pair rd = dec_bind (read_float64 rd) (\<lambda>x. dec_bind (read_float64 rd) (\<lambda>y. dec_return (x, y)))"

fun read_times :: "nat \<Rightarrow> ('r, 'b) decoder \<Rightarrow> ('r, 'b list) decoder" where
  "read_times 0 d = dec_return []"
| "read_times (Suc n) d = dec_bind d (\<lambda>x. dec_bind (read_times n d) (\<lambda>xs. dec_return (x # xs)))"

text \<open>\<^verbatim>\<open>make\<close> panics on a negative length.\<close>

definition make_len :: "int \<Rightarrow> ('r, nat) decoder" where
  "make_len n r =
     (if n < 0 then Some (DecodePanic (Panic ''makeslice: len out of range''), r) else Some (Decoded (nat n), r))"

definition wave_Decode :: "'r io_reader \<Rightarrow> ('r, wave_data) decoder" where
  "wave_Decode rd =
     dec_bind (read_int32 rd) (\<lambda>i.
     dec_bind (read_float64 rd) (\<lambda>dominant.
     dec_bind (read_float64 rd) (\<lambda>energy.
     dec_bind (read_float64 rd) (\<lambda>ratio.
     dec_bind (read_float64 rd) (\<lambda>mse.
     dec_bind (read_float64 rd) (\<lambda>snr.
     dec_bind (read_int32 rd) (\<lambda>waveLen.
     dec_bind (make_len waveLen) (\<lambda>n.
     dec_bind (read_times n (read_pair rd)) (\<lambda>wv.
     dec_bind (read_int32 rd) (\<lambda>hexLen.
     dec_bind (make_len hexLen) (\<lambda>h.
     dec_bind (read_bytes rd h) (\<lambda>hex.
     dec_bind (read_int32 rd) (\<lambda>peaksLen.
     dec_bind (make_len peaksLen) (\<lambda>k.
     dec_bind (read_times k (read_pair rd)) (\<lambda>ps.
     dec_return \<lparr>wave_ID = i, OriginalWave = wv, CompressedHex = hex, DominantFreq = dominant,
       TotalEnergy = energy, CompressionRatio = ratio, wave_MSE = mse, wave_SNR = snr,
       FrequencyPeaks = map (\<lambda>p. \<lparr>Freq = fst p, peak_Value = snd p\<rparr>) ps\<rparr>)))))))))))))))"


section \<open>What a decoder makes of bytes\<close>

text \<open>A decoder reads exactly these bytes as this value, and gives an error on a proper prefix of them.\<close>

definition decodes :: "('r \<Rightarrow> octets) \<Rightarrow> ('r, 'b) decoder \<Rightarrow> octets \<Rightarrow> 'b \<Rightarrow> bool" where
  "decodes pending d bs v \<longleftrightarrow>
     (\<forall>r rest. pending r = bs @ rest \<longrightarrow> (\<exists>r'. d r = Some (Decoded v, r') \<and> pending r' = rest)) \<and>
     (\<forall>r k. k < length bs \<and> pending r = take k bs \<longrightarrow> (\<exists>e r'. d r = Some (DecodeError e, r')))"

lemma decodes_return [simp, intro]: "decodes pending (dec_return v) [] v"
  by (simp add: decodes_def dec_return_def)

lemma decodesD:
  "decodes pending d bs v \<Longrightarrow> pending r = bs @ rest \<Longrightarrow> \<exists>r'. d r = Some (Decoded v, r') \<and> pending r' = rest"
  unfolding decodes_def by blast

lemma decodes_shortD:
  "decodes pending d bs v \<Longrightarrow> pending r = take k bs \<Longrightarrow> k < length bs \<Longrightarrow> \<exists>e r'. d r = Some (DecodeError e, r')"
  unfolding decodes_def by blast

lemma decodes_bind:
  assumes "decodes pending d bs v" and "decodes pending (f v) cs u"
  shows "decodes pending (dec_bind d f) (bs @ cs) u"
  unfolding decodes_def
proof (intro conjI allI impI; (elim conjE)?)
  fix r rest
  assume "pending r = (bs @ cs) @ rest"
  then have "pending r = bs @ (cs @ rest)" by simp
  from decodesD [OF assms(1) this] obtain r1 where r1: "d r = Some (Decoded v, r1)" "pending r1 = cs @ rest" by blast
  from decodesD [OF assms(2) r1(2)] r1(1)
  show "\<exists>r'. dec_bind d f r = Some (Decoded u, r') \<and> pending r' = rest" by (simp add: dec_bind_def)
next
  fix r k
  assume k: "k < length (bs @ cs)" and p: "pending r = take k (bs @ cs)"
  show "\<exists>e r'. dec_bind d f r = Some (DecodeError e, r')"
  proof (cases "k < length bs")
    case True
    with p have "pending r = take k bs" by simp
    from decodes_shortD [OF assms(1) this True] show ?thesis by (auto simp: dec_bind_def)
  next
    case False
    with p have "pending r = bs @ take (k - length bs) cs" by simp
    from decodesD [OF assms(1) this] obtain r1 where
      r1: "d r = Some (Decoded v, r1)" "pending r1 = take (k - length bs) cs" by blast
    have "k - length bs < length cs" using k False by simp
    from decodes_shortD [OF assms(2) r1(2) this] r1(1) show ?thesis by (auto simp: dec_bind_def)
  qed
qed

lemma decodes_map:
  assumes "decodes pending d bs v"
  shows "decodes pending (dec_bind d (\<lambda>x. dec_return (f x))) bs (f v)"
  using decodes_bind [OF assms, of "\<lambda>x. dec_return (f x)" "[]" "f v"] by simp

lemma decodes_skip:
  "decodes pending d [] v \<Longrightarrow> decodes pending (f v) cs u \<Longrightarrow> decodes pending (dec_bind d f) cs u"
  using decodes_bind [of pending d "[]" v f cs u] by simp

lemma decodes_make_len: "0 \<le> n \<Longrightarrow> decodes pending (make_len n) [] (nat n)"
  by (simp add: decodes_def make_len_def)


lemma decodes_bytes:
  assumes reader: "reader_ok rd pending"
  shows "length bs = n \<Longrightarrow> decodes pending (read_bytes rd n) bs bs"
  unfolding decodes_def
proof (intro conjI allI impI; (elim conjE)?)
  fix r rest
  assume "length bs = n" "pending r = bs @ rest"
  with ReadFull_enough [OF reader, of n r]
  show "\<exists>r'. read_bytes rd n r = Some (Decoded bs, r') \<and> pending r' = rest"
    by (auto simp: read_bytes_def)
next
  fix r k
  assume "length bs = n" "k < length bs" "pending r = take k bs"
  with ReadFull_short [OF reader, of r n] show "\<exists>e r'. read_bytes rd n r = Some (DecodeError e, r')"
    by (auto simp: read_bytes_def)
qed

lemma decodes_int32:
  assumes reader: "reader_ok rd pending"
  shows "decodes pending (read_int32 rd) (int32_bytes i) (wrap_i32 i)"
proof -
  have "decodes pending (read_int32 rd) (int32_bytes i) (sint (of_LE32 (int32_bytes i)))"
    unfolding read_int32_def by (rule decodes_map [OF decodes_bytes [OF reader]]) (simp add: int32_bytes_def)
  then show ?thesis by (simp add: int32_bytes_def wrap_i32_word)
qed

lemma decodes_float64:
  assumes reader: "reader_ok rd pending"
  shows "decodes pending (read_float64 rd) (LE64 v) v"
proof -
  have "decodes pending (read_float64 rd) (LE64 v) (of_LE64 (LE64 v))"
    unfolding read_float64_def by (rule decodes_map [OF decodes_bytes [OF reader]]) simp
  then show ?thesis by simp
qed

lemma decodes_pair:
  assumes reader: "reader_ok rd pending"
  shows "decodes pending (read_pair rd) (LE64 x @ LE64 y) (x, y)"
  unfolding read_pair_def
  by (rule decodes_bind [OF decodes_float64 [OF reader]], rule decodes_map [OF decodes_float64 [OF reader]])

lemma decodes_times:
  "(\<And>x. x \<in> set xs \<Longrightarrow> decodes pending d (enc x) (val x)) \<Longrightarrow>
   decodes pending (read_times (length xs) d) (concat (map enc xs)) (map val xs)"
proof (induction xs)
  case (Cons x xs)
  have "decodes pending (dec_bind (read_times (length xs) d) (\<lambda>ys. dec_return (val x # ys)))
      (concat (map enc xs)) (val x # map val xs)"
    by (rule decodes_map [OF Cons.IH]) (use Cons.prems in simp)
  moreover have "decodes pending d (enc x) (val x)" using Cons.prems by simp
  ultimately show ?case by simp (rule decodes_bind)
qed simp


lemma decodes_len:
  assumes reader: "reader_ok rd pending" and len: "int n < 2 ^ 31" and f: "decodes pending (f n) cs u"
  shows "decodes pending (dec_bind (read_int32 rd) (\<lambda>k. dec_bind (make_len k) f)) (int32_bytes (int n) @ cs) u"
proof -
  have n: "wrap_i32 (int n) = int n" using len by (simp add: is_i32_def)
  have "decodes pending (dec_bind (make_len (int n)) f) cs u"
    using decodes_skip [OF decodes_make_len, of "int n" pending f cs u] f by simp
  then show ?thesis using decodes_bind [OF decodes_int32 [OF reader, of "int n"]] by (simp add: n)
qed

lemma concat_pairs [simp]: "concat (concat (map (\<lambda>x. [f x, g x]) xs)) = concat (map (\<lambda>x. f x @ g x) xs)"
  by (induction xs) simp_all

lemma decodes_wave:
  assumes reader: "reader_ok rd pending" and len: "int (length (OriginalWave w)) < 2 ^ 31"
    "int (length (CompressedHex w)) < 2 ^ 31" "int (length (FrequencyPeaks w)) < 2 ^ 31"
  shows "decodes pending (wave_Decode rd) (concat (wave_writes w)) (w\<lparr>wave_ID := wrap_i32 (wave_ID w)\<rparr>)"
proof -
  note i32 = decodes_int32 [OF reader] and f64 = decodes_float64 [OF reader]
  have wv: "decodes pending (read_times (length (OriginalWave w)) (read_pair rd))
      (concat (map (\<lambda>c. LE64 (fst c) @ LE64 (snd c)) (OriginalWave w))) (OriginalWave w)"
    using decodes_times [of "OriginalWave w" pending "read_pair rd" "\<lambda>c. LE64 (fst c) @ LE64 (snd c)" "\<lambda>c. c"]
      decodes_pair [OF reader, of "fst c" "snd c" for c] by simp
  have ps: "decodes pending (read_times (length (FrequencyPeaks w)) (read_pair rd))
      (concat (map (\<lambda>p. LE64 (Freq p) @ LE64 (peak_Value p)) (FrequencyPeaks w)))
      (map (\<lambda>p. (Freq p, peak_Value p)) (FrequencyPeaks w))"
    by (rule decodes_times) (rule decodes_pair [OF reader])
  have final: "w\<lparr>wave_ID := wrap_i32 (wave_ID w)\<rparr> =
      \<lparr>wave_ID = wrap_i32 (wave_ID w), OriginalWave = OriginalWave w, CompressedHex = CompressedHex w,
       DominantFreq = DominantFreq w, TotalEnergy = TotalEnergy w, CompressionRatio = CompressionRatio w,
       wave_MSE = wave_MSE w, wave_SNR = wave_SNR w,
       FrequencyPeaks = map (\<lambda>p. \<lparr>Freq = fst p, peak_Value = snd p\<rparr>)
         (map (\<lambda>p. (Freq p, peak_Value p)) (FrequencyPeaks w))\<rparr>"
    by (cases w) (simp add: comp_def map_idI)
  have bytes: "concat (wave_writes w) =
      int32_bytes (wave_ID w) @ LE64 (DominantFreq w) @ LE64 (TotalEnergy w) @ LE64 (CompressionRatio w) @
      LE64 (wave_MSE w) @ LE64 (wave_SNR w) @ int32_bytes (int (length (OriginalWave w))) @
      concat (map (\<lambda>c. LE64 (fst c) @ LE64 (snd c)) (OriginalWave w)) @
      int32_bytes (int (length (CompressedHex w))) @ CompressedHex w @
      int32_bytes (int (length (FrequencyPeaks w))) @
      concat (map (\<lambda>p. LE64 (Freq p) @ LE64 (peak_Value p)) (FrequencyPeaks w)) @ []"
    by (simp add: wave_writes_def)
  show ?thesis
    unfolding bytes final wave_Decode_def
    by (rule decodes_bind [OF f64] decodes_len [OF reader len(1)] decodes_len [OF reader len(2)]
        decodes_len [OF reader len(3)] decodes_bind [OF i32] decodes_bind [OF wv] decodes_bind [OF ps]
        decodes_bind [OF decodes_bytes [OF reader refl]] decodes_return)+
qed

lemma write_each_sent:
  "writer_ok wr sent \<Longrightarrow> write_each wr bs s = (None, s') \<Longrightarrow> sent s' = sent s @ concat bs"
proof (induction bs arbitrary: s)
  case (Cons b bs)
  then obtain s1 where "wr b s = (None, s1)" "write_each wr bs s1 = (None, s')"
    by (auto split: prod.splits option.splits)
  moreover from this Cons.prems(1) have "sent s1 = sent s @ b"
    unfolding writer_ok_def by (metis fst_conv snd_conv)
  ultimately show ?case using Cons.IH [OF Cons.prems(1)] by simp
qed simp

section \<open>Lines\<close>

text \<open>
  \<^verbatim>\<open>bufio.Scanner\<close> with \<^verbatim>\<open>ScanLines\<close>, as \<^verbatim>\<open>LineDecoder\<close> uses it for one line: the buffer starts at 4096
  bytes and doubles up to 65536; a full buffer without a newline is an error. \<open>reads\<close> counts the
  empty reads in a row.
\<close>

definition dropCR :: "octets \<Rightarrow> octets" where
  "dropCR bs = (if bs \<noteq> [] \<and> last bs = 13 then butlast bs else bs)"

definition bufio_ErrTooLong :: gerr where
  "bufio_ErrTooLong = Err ''bufio.Scanner: token too long''"

definition io_ErrNoProgress :: gerr where
  "io_ErrNoProgress = Err ''multiple Read calls return no data or error''"

text \<open>The token in the buffer, if any: up to a newline, or all of it at the end.\<close>

definition ScanLines :: "octets \<Rightarrow> bool \<Rightarrow> octets option" where
  "ScanLines bs atEOF =
     (if atEOF \<and> bs = [] then None
      else if 10 \<in> set bs then Some (dropCR (takeWhile (\<lambda>x. x \<noteq> 10) bs))
      else if atEOF then Some (dropCR bs) else None)"

fun scanner_fill :: "nat \<Rightarrow> 'r io_reader \<Rightarrow> nat \<Rightarrow> 'r \<Rightarrow> (octets \<times> gerr option) \<times> 'r" where
  "scanner_fill 0 rd n r = (([], Some io_ErrNoProgress), r)"
| "scanner_fill (Suc k) rd n r =
     (case rd n r of
        ((bs, err), r1) \<Rightarrow>
          if err \<noteq> None \<or> bs \<noteq> [] then ((bs, err), r1) else scanner_fill k rd n r1)"

definition grown :: "nat \<Rightarrow> nat" where
  "grown cap = min (if cap = 0 then 4096 else 2 * cap) 65536"

text \<open>\<^verbatim>\<open>Scan\<close> from a buffer of \<open>cap\<close> bytes that holds \<open>buf\<close>: the token or the end, and the error.\<close>

partial_function (option) scanner_Scan ::
  "'r io_reader \<Rightarrow> nat \<Rightarrow> octets \<Rightarrow> gerr option \<Rightarrow> 'r \<Rightarrow> ((octets option \<times> gerr option) \<times> 'r) option" where
  "scanner_Scan rd cap buf err r =
     (case (if buf \<noteq> [] \<or> err \<noteq> None then ScanLines buf (err \<noteq> None) else None) of
        Some tok \<Rightarrow> Some ((Some tok, err), r)
      | None \<Rightarrow>
        if err \<noteq> None then Some ((None, err), r)
        else if length buf = cap \<and> cap \<ge> 65536 then Some ((None, Some bufio_ErrTooLong), r)
        else
          (let cap' = (if length buf = cap then grown cap else cap) in
           case scanner_fill 101 rd (cap' - length buf) r of
             ((bs, err'), r1) \<Rightarrow> scanner_Scan rd cap' (buf @ bs) err' r1))"

text \<open>\<^verbatim>\<open>LineDecoder.Decode\<close>; an error of the scanner that is the end of the stream is none.\<close>

definition line_Decode :: "'r io_reader \<Rightarrow> 'r \<Rightarrow> ((gerr + octets) \<times> 'r) option" where
  "line_Decode rd r =
     (case scanner_Scan rd 0 [] None r of
        None \<Rightarrow> None
      | Some ((Some tok, _), r1) \<Rightarrow> Some (Inr tok, r1)
      | Some ((None, err), r1) \<Rightarrow>
          Some (Inl (case err of Some e \<Rightarrow> if e = io_EOF then io_EOF else e | None \<Rightarrow> io_EOF), r1))"

text \<open>\<^verbatim>\<open>LineEncoder.Encode\<close> of a value whose text is \<open>txt\<close>: one write.\<close>

definition line_Encode :: "'w io_writer \<Rightarrow> octets \<Rightarrow> 'w \<Rightarrow> gerr option \<times> 'w" where
  "line_Encode wr txt w = wr (txt @ [10]) w"

text \<open>
  \<^verbatim>\<open>io.ReadAll\<close>, which the decoders of text and of bytes return as it is; \<open>room\<close> gives the free
  capacity of the slice that holds so many bytes.
\<close>

partial_function (option) ReadAll ::
  "'r io_reader \<Rightarrow> (nat \<Rightarrow> nat) \<Rightarrow> octets \<Rightarrow> 'r \<Rightarrow> ((octets \<times> gerr option) \<times> 'r) option" where
  "ReadAll rd room acc r =
     (case rd (room (length acc)) r of
        ((bs, err), r1) \<Rightarrow>
          (case err of
             None \<Rightarrow> ReadAll rd room (acc @ bs) r1
           | Some e \<Rightarrow> Some ((acc @ bs, if e = io_EOF then None else Some e), r1)))"

definition binary_Decode :: "'r io_reader \<Rightarrow> (nat \<Rightarrow> nat) \<Rightarrow> 'r \<Rightarrow> ((octets \<times> gerr option) \<times> 'r) option" where
  "binary_Decode rd room r = ReadAll rd room [] r"

text \<open>A Go string is its bytes.\<close>

definition text_Decode :: "'r io_reader \<Rightarrow> (nat \<Rightarrow> nat) \<Rightarrow> 'r \<Rightarrow> ((octets \<times> gerr option) \<times> 'r) option" where
  "text_Decode rd room r = ReadAll rd room [] r"

subsection \<open>What is read\<close>

text \<open>The line at the start of a stream, when its length is not exactly that of the largest buffer.\<close>

definition line_spec :: "octets \<Rightarrow> gerr + octets" where
  "line_spec bs =
     (if 10 \<in> set (take 65536 bs) then Inr (dropCR (takeWhile (\<lambda>x. x \<noteq> 10) bs))
      else if 65536 < length bs then Inl bufio_ErrTooLong
      else if bs = [] then Inl io_EOF else Inr (dropCR bs))"

lemma scanner_fill_ok:
  assumes "reader_ok rd pending" and "0 < n"
  obtains bs err r1 where "scanner_fill 101 rd n r = ((bs, err), r1)" and "pending r = bs @ pending r1"
    and "length bs \<le> n" and "err = None \<Longrightarrow> bs \<noteq> []" and "err \<noteq> None \<Longrightarrow> err = Some io_EOF \<and> pending r1 = []"
proof -
  obtain bs err r1 where rd: "rd n r = ((bs, err), r1)" by (metis surj_pair)
  have law: "pending r = bs @ pending r1" "length bs \<le> n" "err = None \<Longrightarrow> bs \<noteq> []"
    "err \<noteq> None \<Longrightarrow> err = Some io_EOF \<and> pending r1 = []"
    using reader_okD [OF assms rd] by auto
  have "scanner_fill 101 rd n r = ((bs, err), r1)"
    using rd law(3) by (auto simp: eval_nat_numeral)
  with law show thesis by (intro that)
qed

lemma takeWhile_newline: "10 \<in> set (buf :: octets) \<Longrightarrow> takeWhile (\<lambda>x. x \<noteq> 10) (buf @ rest) = takeWhile (\<lambda>x. x \<noteq> 10) buf"
  by (auto simp: takeWhile_append)

lemma grown_bounds: "cap < 65536 \<Longrightarrow> cap < grown cap \<and> grown cap \<le> 65536"
  by (simp add: grown_def)

lemma scanner_Scan_spec:
  assumes rd: "reader_ok rd pending"
  shows "length buf \<le> cap \<Longrightarrow> cap \<le> 65536 \<Longrightarrow> (err \<noteq> None \<Longrightarrow> err = Some io_EOF \<and> pending r = []) \<Longrightarrow>
    10 \<in> set (take 65536 (buf @ pending r)) \<or> length (buf @ pending r) \<noteq> 65536 \<Longrightarrow>
    \<exists>tok err' r'. scanner_Scan rd cap buf err r = Some ((tok, err'), r') \<and>
      (case line_spec (buf @ pending r) of Inr l \<Rightarrow> tok = Some l | Inl e \<Rightarrow> tok = None \<and> err' = Some e)"
proof (induction "2 * length (pending r) + (if err = None then 1 else 0)" arbitrary: cap buf err r rule: less_induct)
  case less
  let ?all = "buf @ pending r"
  consider (tok) "10 \<in> set buf" | (eof) "10 \<notin> set buf" "err \<noteq> None" | (long) "10 \<notin> set buf" "err = None" "length buf = 65536"
    | (fill) "10 \<notin> set buf" "err = None" "length buf \<noteq> 65536" by blast
  then show ?case
  proof cases
    case tok
    have "length buf \<le> 65536" using less.prems(1,2) by simp
    with tok have "line_spec ?all = Inr (dropCR (takeWhile (\<lambda>x. x \<noteq> 10) buf))"
      by (simp add: line_spec_def takeWhile_newline)
    with tok show ?thesis by (subst scanner_Scan.simps) (auto simp: ScanLines_def)
  next
    case eof
    with less.prems(3) have p: "pending r = []" "err = Some io_EOF" by auto
    from eof(1) p have "10 \<notin> set (take 65536 ?all)" by (auto dest: in_set_takeD)
    moreover have "length buf \<le> 65536" using less.prems(1,2) by simp
    ultimately have "line_spec ?all = (if buf = [] then Inl io_EOF else Inr (dropCR buf))"
      using p by (simp add: line_spec_def)
    with eof p show ?thesis by (subst scanner_Scan.simps) (auto simp: ScanLines_def)
  next
    case long
    have "10 \<notin> set (take 65536 ?all)" using long by simp
    with less.prems(4) long have "line_spec ?all = Inl bufio_ErrTooLong" by (simp add: line_spec_def)
    moreover have "cap = 65536" using less.prems(1,2) long(3) by simp
    ultimately show ?thesis using long by (subst scanner_Scan.simps) (auto simp: ScanLines_def)
  next
    case fill
    define cap' where "cap' = (if length buf = cap then grown cap else cap)"
    have cap': "length buf < cap'" "cap' \<le> 65536"
      using less.prems(1,2) fill(3) grown_bounds [of cap] by (auto simp: cap'_def)
    from cap' have room: "0 < cap' - length buf" by simp
    obtain bs err' r1 where f: "scanner_fill 101 rd (cap' - length buf) r = ((bs, err'), r1)"
      and p: "pending r = bs @ pending r1" "length bs \<le> cap' - length buf" "err' = None \<Longrightarrow> bs \<noteq> []"
      "err' \<noteq> None \<Longrightarrow> err' = Some io_EOF \<and> pending r1 = []"
      by (rule scanner_fill_ok [OF rd room, of r]) (rule that)
    have tok: "(if buf \<noteq> [] \<or> err \<noteq> None then ScanLines buf (err \<noteq> None) else None) = None"
      using fill(1,2) by (simp add: ScanLines_def)
    have full: "\<not> (length buf = cap \<and> 65536 \<le> cap)" using less.prems(1,2) fill(3) by auto
    have step: "scanner_Scan rd cap buf err r = scanner_Scan rd cap' (buf @ bs) err' r1"
      unfolding scanner_Scan.simps [of rd cap buf err r] tok Let_def cap'_def [symmetric] f
      using fill(2) full by auto
    have dec: "2 * length (pending r1) + (if err' = None then 1 else 0) < 2 * length (pending r) + (if err = None then 1 else 0)"
      using fill(2) p by (cases "err' = None") (auto simp: length_greater_0_conv [symmetric] simp del: length_greater_0_conv)
    have all: "(buf @ bs) @ pending r1 = ?all" using p(1) by simp
    have "length (buf @ bs) \<le> cap'" using p(2) cap' by simp
    from less.hyps [OF dec this cap'(2) p(4), unfolded all, OF _ less.prems(4)] show ?thesis unfolding step by blast
  qed
qed


section \<open>Properties\<close>

text \<open>
  C38: wave data are read back, the identifier apart. What \<^verbatim>\<open>Encode\<close> wrote without an error is decoded, in whatever
  pieces the stream delivers it, to the same samples, compressed bytes, measures and peaks, with the identifier
  taken modulo 2^32 into the signed 32-bit range, since \<^verbatim>\<open>Encode\<close> truncates it; as long as
  the three lengths fit the \<^verbatim>\<open>int32\<close> they are written as. What follows is left unread; a
  stream that ends before is an error and never a panic.
\<close>

theorem wave_round_trip:
  assumes "writer_ok wr sent" and "reader_ok rd pending" and "wave_Encode wr (Some w) s = (None, s')" and "sent s = []"
    and "int (length (OriginalWave w)) < 2 ^ 31" "int (length (CompressedHex w)) < 2 ^ 31"
      "int (length (FrequencyPeaks w)) < 2 ^ 31"
  shows "(pending r = sent s' @ rest \<longrightarrow>
      (\<exists>r'. wave_Decode rd r = Some (Decoded (w\<lparr>wave_ID := wrap_i32 (wave_ID w)\<rparr>), r') \<and> pending r' = rest)) \<and>
    (k < length (sent s') \<and> pending r = take k (sent s') \<longrightarrow>
      (\<exists>e r'. wave_Decode rd r = Some (DecodeError e, r')))"
proof -
  have "sent s' = concat (wave_writes w)"
    using write_each_sent [OF assms(1)] assms(3,4) by (fastforce simp: wave_Encode_def)
  then show ?thesis
    using decodesD [OF decodes_wave [OF assms(2,5-7)]] decodes_shortD [OF decodes_wave [OF assms(2,5-7)]]
    by auto
qed

definition sample_wave :: wave_data where
  "sample_wave = \<lparr>wave_ID = 4294967297, OriginalWave = [(1, 2), (3, 4)], CompressedHex = [0xDE, 0xAD],
     DominantFreq = 5, TotalEnergy = 6, CompressionRatio = 7, wave_MSE = 8, wave_SNR = 9,
     FrequencyPeaks = [\<lparr>Freq = 10, peak_Value = 11\<rparr>]\<rparr>"

theorem wave_round_trip_witness:
  "\<exists>r'. wave_Decode chunk_reader (snd (wave_Encode list_writer (Some sample_wave) []) @ [1]) =
      Some (Decoded (sample_wave\<lparr>wave_ID := 1\<rparr>), r') \<and> r' = [1]"
proof -
  have e: "wave_Encode list_writer (Some sample_wave) [] = (None, snd (wave_Encode list_writer (Some sample_wave) []))"
    by (simp add: wave_Encode_def wave_writes_def sample_wave_def list_writer_def)
  show ?thesis
    using wave_round_trip [OF list_writer_ok chunk_reader_ok e,
        of "snd (wave_Encode list_writer (Some sample_wave) []) @ [1]" "[1]"]
    by (simp add: sample_wave_def wrap_i32_def)
qed

text \<open>
  a negative length in the stream crashes the decoder. Any 44 bytes followed by a number with
  the sign bit set make \<^verbatim>\<open>Decode\<close> panic in \<^verbatim>\<open>make\<close>, whatever comes after them: the lengths of a
  received stream are used as they are.
\<close>

theorem negative_length_panics:
  assumes "reader_ok rd pending" and "length header = 44" and "sint n < 0"
    and "pending r = header @ LE32 n @ rest"
  shows "\<exists>r'. wave_Decode rd r = Some (DecodePanic (Panic ''makeslice: len out of range''), r')"
proof -
  have bytes: "\<exists>r'. read_bytes rd (length bs) r = Some (Decoded bs, r') \<and> pending r' = tl"
    if "pending r = bs @ tl" for bs tl r
    using decodesD [OF decodes_bytes [OF assms(1) refl] that] .
  have split: "\<exists>bs tl. hd = bs @ tl \<and> length bs = k \<and> length tl = m" if "length hd = k + m" for hd :: octets and k m
    using that by (intro exI [of _ "take k hd"] exI [of _ "drop k hd"]) simp
  obtain b0 t0 where h0: "header = b0 @ t0" "length b0 = 4" "length t0 = 40" using split [of header 4 40] assms(2) by auto
  obtain b1 t1 where h1: "t0 = b1 @ t1" "length b1 = 8" "length t1 = 32" using split [of t0 8 32] h0 by auto
  obtain b2 t2 where h2: "t1 = b2 @ t2" "length b2 = 8" "length t2 = 24" using split [of t1 8 24] h1 by auto
  obtain b3 t3 where h3: "t2 = b3 @ t3" "length b3 = 8" "length t3 = 16" using split [of t2 8 16] h2 by auto
  obtain b4 b5 where h4: "t3 = b4 @ b5" "length b4 = 8" "length b5 = 8" using split [of t3 8 8] h3 by auto
  obtain r0 where r0: "read_bytes rd 4 r = Some (Decoded b0, r0)" "pending r0 = b1 @ b2 @ b3 @ b4 @ b5 @ LE32 n @ rest"
    using bytes [of r b0] assms(4) h0 h1 h2 h3 h4 by auto
  obtain r1 where r1: "read_bytes rd 8 r0 = Some (Decoded b1, r1)" "pending r1 = b2 @ b3 @ b4 @ b5 @ LE32 n @ rest"
    using bytes [OF r0(2)] h1 by auto
  obtain r2 where r2: "read_bytes rd 8 r1 = Some (Decoded b2, r2)" "pending r2 = b3 @ b4 @ b5 @ LE32 n @ rest"
    using bytes [OF r1(2)] h2 by auto
  obtain r3 where r3: "read_bytes rd 8 r2 = Some (Decoded b3, r3)" "pending r3 = b4 @ b5 @ LE32 n @ rest"
    using bytes [OF r2(2)] h3 by auto
  obtain r4 where r4: "read_bytes rd 8 r3 = Some (Decoded b4, r4)" "pending r4 = b5 @ LE32 n @ rest"
    using bytes [OF r3(2)] h4 by auto
  obtain r5 where r5: "read_bytes rd 8 r4 = Some (Decoded b5, r5)" "pending r5 = LE32 n @ rest"
    using bytes [OF r4(2)] h4 by auto
  obtain r6 where r6: "read_bytes rd 4 r5 = Some (Decoded (LE32 n), r6)"
    using bytes [OF r5(2)] by auto
  show ?thesis
    using r0(1) r1(1) r2(1) r3(1) r4(1) r5(1) r6 assms(3)
    by (simp add: wave_Decode_def read_int32_def read_float64_def dec_bind_def dec_return_def make_len_def)
qed

theorem negative_length_panics_witness:
  "\<exists>r'. wave_Decode chunk_reader (replicate 44 0 @ [0, 0, 0, 128]) =
      Some (DecodePanic (Panic ''makeslice: len out of range''), r')"
proof -
  have n: "LE32 0x80000000 = [0, 0, 0, 128]" by (simp add: LE32_def)
  show ?thesis
    using negative_length_panics [OF chunk_reader_ok, of "replicate 44 0" "0x80000000" "replicate 44 0 @ [0, 0, 0, 128]" "[]"]
    by (simp add: n)
qed


text \<open>
  a line is read back. A stream whose first line is shorter than the largest buffer gives that line
  without its line end, an empty stream gives the end, and a longer line is refused; a stream of
  exactly the buffer's size without a newline aside, where it depends on the reader.
\<close>

theorem line_Decode_spec:
  assumes "reader_ok rd pending" and "10 \<in> set (take 65536 (pending r)) \<or> length (pending r) \<noteq> 65536"
  shows "\<exists>r'. line_Decode rd r = Some (line_spec (pending r), r')"
proof -
  obtain tok err' r' where s: "scanner_Scan rd 0 [] None r = Some ((tok, err'), r')"
    "case line_spec (pending r) of Inr l \<Rightarrow> tok = Some l | Inl e \<Rightarrow> tok = None \<and> err' = Some e"
    using scanner_Scan_spec [OF assms(1), of "[]" 0 None r] assms(2) by auto
  then show ?thesis by (cases "line_spec (pending r)") (auto simp: line_Decode_def)
qed

theorem line_Decode_spec_witness:
  "(\<exists>r'. line_Decode chunk_reader [97, 98, 13, 10, 99] = Some (Inr [97, 98], r')) \<and>
   (\<exists>r'. line_Decode chunk_reader [] = Some (Inl io_EOF, r'))"
  using line_Decode_spec [OF chunk_reader_ok, of "[97, 98, 13, 10, 99]"] line_Decode_spec [OF chunk_reader_ok, of "[]"]
  by (simp add: line_spec_def dropCR_def)

text \<open>
  The scanner reads ahead and is thrown away with what it holds: with a stream that fills the buffer at
  once, the second line is lost.
\<close>

definition full_reader :: "octets io_reader" where
  "full_reader n r = ((take n r, if r = [] then Some io_EOF else None), drop n r)"

lemma scanner_fill_full:
  "0 < n \<Longrightarrow> scanner_fill 101 full_reader n r = ((take n r, if r = [] then Some io_EOF else None), drop n r)"
  using scanner_fill.simps(2) [of 100 full_reader n r] by (simp add: full_reader_def)

lemma line_Decode_loses_lines:
  assumes "length (l1 @ [10] @ l2 @ [10]) \<le> 4096" and "10 \<notin> set l1"
  shows "\<exists>r'. line_Decode full_reader (l1 @ [10] @ l2 @ [10]) = Some (Inr (dropCR l1), r') \<and>
    line_Decode full_reader r' = Some (Inl io_EOF, [])"
proof -
  let ?s = "l1 @ [10] @ l2 @ [10]"
  have "scanner_Scan full_reader 0 [] None ?s = scanner_Scan full_reader 4096 ?s None []"
    using assms(1) by (subst scanner_Scan.simps) (simp add: grown_def scanner_fill_full)
  also have "\<dots> = Some ((Some (dropCR l1), None), [])"
    using assms(2) by (subst scanner_Scan.simps) (simp add: ScanLines_def takeWhile_append)
  finally have first: "line_Decode full_reader ?s = Some (Inr (dropCR l1), [])" by (simp add: line_Decode_def)
  have "scanner_Scan full_reader 0 [] None [] = scanner_Scan full_reader 4096 [] (Some io_EOF) []"
    by (subst scanner_Scan.simps) (simp add: grown_def scanner_fill_full)
  also have "\<dots> = Some ((None, Some io_EOF), [])"
    by (subst scanner_Scan.simps) (simp add: ScanLines_def)
  finally have "line_Decode full_reader [] = Some (Inl io_EOF, [])" by (simp add: line_Decode_def)
  with first show ?thesis by blast
qed

end
