(* ===== verification/Go_Parse.thy ===== *)
theory Go_Parse
  imports Go_Float Go_Strings
begin

text \<open>
  The text conversions of Go's \<^verbatim>\<open>strconv\<close> and \<^verbatim>\<open>time\<close> that configuration goes through:
  \<^verbatim>\<open>strconv.Atoi\<close>, \<^verbatim>\<open>strconv.ParseBool\<close> and \<^verbatim>\<open>time.ParseDuration\<close>, and the truncation of a float to
  an integer. The results of a parser are \<open>None\<close> where Go returns an error.
\<close>

section \<open>Integers and booleans\<close>

definition Atoi :: "string \<Rightarrow> int option" where
  "Atoi s = ParseInt64 s"

definition ParseBool :: "string \<Rightarrow> bool option" where
  "ParseBool s =
     (if s \<in> {''1'', ''t'', ''T'', ''true'', ''TRUE'', ''True''} then Some True
      else if s \<in> {''0'', ''f'', ''F'', ''false'', ''FALSE'', ''False''} then Some False
      else None)"

text \<open>
  \<^verbatim>\<open>int(x)\<close> of a float drops the fraction; out of range the result is left to the
  implementation, an argument of the conversion.
\<close>

definition int_of_float :: "(float64 \<Rightarrow> int) \<Rightarrow> float64 \<Rightarrow> int" where
  "int_of_float out_of_range x =
     (case x of
        Fin a \<Rightarrow> (let i = (if a < 0 then \<lceil>a\<rceil> else \<lfloor>a\<rfloor>) in if is_i64 i then i else out_of_range x)
      | _ \<Rightarrow> out_of_range x)"

section \<open>Durations\<close>

text \<open>
  \<^verbatim>\<open>time.ParseDuration\<close>: a sign and a sequence of decimal numbers with a unit each, summed in
  unsigned 64-bit arithmetic. The digits of a fraction that do not fit are skipped.
\<close>

definition is_digit :: "char \<Rightarrow> bool" where
  "is_digit c \<longleftrightarrow> digit_value c \<noteq> None"

fun leadingInt :: "nat \<Rightarrow> string \<Rightarrow> (nat \<times> string) option" where
  "leadingInt x [] = Some (x, [])"
| "leadingInt x (c # cs) =
     (case digit_value c of
        None \<Rightarrow> Some (x, c # cs)
      | Some d \<Rightarrow>
        if x > 2 ^ 63 div 10 then None
        else if 10 * x + d > 2 ^ 63 then None
        else leadingInt (10 * x + d) cs)"

fun leadingFraction :: "bool \<Rightarrow> nat \<Rightarrow> float64 \<Rightarrow> string \<Rightarrow> nat \<times> float64 \<times> string" where
  "leadingFraction overflow x scale [] = (x, scale, [])"
| "leadingFraction overflow x scale (c # cs) =
     (case digit_value c of
        None \<Rightarrow> (x, scale, c # cs)
      | Some d \<Rightarrow>
        if overflow \<or> x > (2 ^ 63 - 1) div 10 \<or> 10 * x + d > 2 ^ 63 then leadingFraction True x scale cs
        else leadingFraction False (10 * x + d) (float_mul scale (float_of_int 10)) cs)"

definition unit_of :: "string \<Rightarrow> nat option" where
  "unit_of u =
     (if u = ''ns'' then Some 1
      else if u \<in> {''us'', [CHR 0xC2, CHR 0xB5, CHR ''s''], [CHR 0xCE, CHR 0xBC, CHR ''s'']} then Some 1000
      else if u = ''ms'' then Some 1000000
      else if u = ''s'' then Some 1000000000
      else if u = ''m'' then Some 60000000000
      else if u = ''h'' then Some 3600000000000
      else None)"

text \<open>
  One number with its unit: the nanoseconds it stands for and the rest. The fraction is added
  through floats.
\<close>

definition starts_number :: "string \<Rightarrow> bool" where
  "starts_number s = (case s of [] \<Rightarrow> False | c # _ \<Rightarrow> c = CHR ''.'' \<or> is_digit c)"

definition in_unit :: "char \<Rightarrow> bool" where
  "in_unit c \<longleftrightarrow> c \<noteq> CHR ''.'' \<and> \<not> is_digit c"

definition fraction_part :: "string \<Rightarrow> nat \<times> float64 \<times> string \<times> bool" where
  "fraction_part s =
     (case s of
        [] \<Rightarrow> (0, float_of_int 1, s, False)
      | c # s' \<Rightarrow>
        if c = CHR ''.'' then
          (case leadingFraction False 0 (float_of_int 1) s' of
             (f, scale, r) \<Rightarrow> (f, scale, r, length s' \<noteq> length r))
        else (0, float_of_int 1, s, False))"

definition duration_part :: "string \<Rightarrow> (nat \<times> string) option" where
  "duration_part s =
     (if \<not> starts_number s then None
      else case leadingInt 0 s of
        None \<Rightarrow> None
      | Some (v, s1) \<Rightarrow>
        (case fraction_part s1 of
           (f, scale, s2, post) \<Rightarrow>
             if length s = length s1 \<and> \<not> post then None
             else case unit_of (takeWhile in_unit s2) of
               None \<Rightarrow> None
             | Some unit \<Rightarrow>
               if v > 2 ^ 63 div unit then None
               else
                 let extra = (if f > 0
                       then unat (uint64_of_float (\<lambda>_. 0)
                                    (float_mul (float_of_int (int f)) (float_div (float_of_int (int unit)) scale)))
                       else 0)
                 in if v * unit + extra > 2 ^ 63 then None
                    else Some (v * unit + extra, dropWhile in_unit s2)))"

lemma length_leadingInt: "leadingInt x s = Some (v, r) \<Longrightarrow> length r \<le> length s"
  by (induction x s rule: leadingInt.induct) (auto split: option.splits if_splits)

lemma length_leadingFraction: "leadingFraction ov x sc s = (f, sc', r) \<Longrightarrow> length r \<le> length s"
  by (induction ov x sc s rule: leadingFraction.induct) (auto split: option.splits if_splits)

lemma unit_of_Nil [simp]: "unit_of [] = None"
  by (simp add: unit_of_def)

lemma length_fraction_part: "fraction_part s = (f, scale, r, post) \<Longrightarrow> length r \<le> length s"
  by (auto simp: fraction_part_def split: list.splits if_splits prod.splits dest!: length_leadingFraction)

lemma length_duration_part:
  assumes "duration_part s = Some (n, r)"
  shows "length r < length s"
proof -
  have shrink: "length (dropWhile in_unit t) < length t" if "unit_of (takeWhile in_unit t) \<noteq> None" for t
    using that by (cases t) (auto split: if_splits intro: le_imp_less_Suc length_dropWhile_le)
  obtain v s1 where v: "leadingInt 0 s = Some (v, s1)"
    using assms by (auto simp: duration_part_def split: if_splits option.splits)
  obtain f scale s2 post where f: "fraction_part s1 = (f, scale, s2, post)" by (cases "fraction_part s1")
  have "r = dropWhile in_unit s2" "unit_of (takeWhile in_unit s2) \<noteq> None"
    using assms v f by (auto simp: duration_part_def Let_def split: if_splits option.splits)
  then have "length r < length s2" using shrink by simp
  with length_leadingInt [OF v] length_fraction_part [OF f] show ?thesis by simp
qed

function duration_sum :: "nat \<Rightarrow> string \<Rightarrow> nat option" where
  "duration_sum d s =
     (if s = [] then Some d
      else case duration_part s of
        None \<Rightarrow> None
      | Some (v, r) \<Rightarrow>
        let d' = (d + v) mod 2 ^ 64 in if d' > 2 ^ 63 then None else duration_sum d' r)"
  by pat_completeness auto
termination
  by (relation "measure (\<lambda>(d, s). length s)") (auto dest: length_duration_part)

declare duration_sum.simps [simp del]

definition ParseDuration :: "string \<Rightarrow> duration option" where
  "ParseDuration s =
     (let neg = (s \<noteq> [] \<and> hd s = CHR ''-'');
          body = (if s \<noteq> [] \<and> (hd s = CHR ''-'' \<or> hd s = CHR ''+'') then tl s else s)
      in if body = ''0'' then Some 0
         else if body = [] then None
         else case duration_sum 0 body of
           None \<Rightarrow> None
         | Some d \<Rightarrow>
           if neg then Some (wrap_i64 (- wrap_i64 (int d)))
           else if d > 2 ^ 63 - 1 then None else Some (int d))"

section \<open>Lemmas\<close>

lemma is_digit_dot [simp]: "\<not> is_digit (CHR ''.'')" "digit_value (CHR ''.'') = None"
  by (simp_all add: is_digit_def digit_value_def)

lemma ParseDuration_range: "ParseDuration s = Some d \<Longrightarrow> is_i64 d"
  by (auto simp: ParseDuration_def Let_def is_i64_def [of "int _"] is_i64_def [of 0] split: if_splits option.splits)

lemma digits_bound: "foldl (\<lambda>a d. 10 * a + d) x ds \<ge> (x :: nat)"
proof (induction ds arbitrary: x)
  case (Cons d ds)
  have "x \<le> 10 * x + d" by simp
  also have "\<dots> \<le> foldl (\<lambda>a d. 10 * a + d) (10 * x + d) ds" by (rule Cons)
  finally show ?case by simp
qed simp

lemma leadingInt_digits:
  assumes "None \<notin> set (map digit_value ds)" and "foldl (\<lambda>a d. 10 * a + the d) x (map digit_value ds) \<le> 2 ^ 63"
    and "rest = [] \<or> digit_value (hd rest) = None"
  shows "leadingInt x (ds @ rest) = Some (foldl (\<lambda>a d. 10 * a + the d) x (map digit_value ds), rest)"
  using assms
proof (induction ds arbitrary: x)
  case Nil
  then show ?case by (cases rest) auto
next
  case (Cons c cs)
  from Cons.prems obtain d where d: "digit_value c = Some d" by (cases "digit_value c") auto
  have "10 * x + d \<le> foldl (\<lambda>a d. 10 * a + the d) (10 * x + d) (map digit_value cs)"
    using digits_bound [of "10 * x + d" "map (the o digit_value) cs"] by (simp add: foldl_map)
  with Cons.prems(2) d have le: "10 * x + d \<le> 2 ^ 63" by simp
  then have "x \<le> 2 ^ 63 div 10" by simp
  with le d Cons show ?case by simp
qed

text \<open>A whole number of units is that many nanoseconds.\<close>

lemma ParseDuration_whole:
  assumes n: "parse_digits ds = Some n" and u: "unit_of us = Some unit" and us: "\<forall>c\<in>set us. in_unit c"
    and fits: "n * unit < 2 ^ 63"
  shows "ParseDuration (ds @ us) = Some (int (n * unit))"
proof -
  have ds: "ds \<noteq> []" "None \<notin> set (map digit_value ds)" "foldl (\<lambda>a d. 10 * a + the d) 0 (map digit_value ds) = n"
    using n by (auto simp: parse_digits_def Let_def split: if_splits)
  have unit: "0 < unit" using u by (auto simp: unit_of_def split: if_splits)
  have usne: "us \<noteq> []" using u by auto
  have hdus: "\<not> is_digit (hd us)" "hd us \<noteq> CHR ''.''" using us usne by (auto simp: in_unit_def hd_in_set)
  obtain c cs where c: "ds = c # cs" using ds(1) by (cases ds) auto
  with ds(2) have dc: "is_digit c" by (auto simp: is_digit_def)
  have sgn: "c \<noteq> CHR ''-''" "c \<noteq> CHR ''+''" using dc by (auto simp: is_digit_def digit_value_def)
  have nle: "n \<le> 2 ^ 63 div unit" using fits unit by (simp add: less_eq_div_iff_mult_less_eq)
  have nu: "n \<le> 2 ^ 63" using nle by (rule order_trans) simp
  have lead: "leadingInt 0 (ds @ us) = Some (n, us)"
    using leadingInt_digits [OF ds(2), of 0 us] ds(3) nu hdus(1) by (simp add: is_digit_def)
  have tw: "takeWhile in_unit us = us" "dropWhile in_unit us = []" using us by auto
  have frac: "fraction_part us = (0, float_of_int 1, us, False)"
    using hdus(2) by (cases us) (auto simp: fraction_part_def)
  have st: "starts_number (ds @ us)" using dc by (simp add: starts_number_def c)
  have part: "duration_part (ds @ us) = Some (n * unit, [])"
    using u nle fits ds(1) by (simp add: duration_part_def lead frac st tw)
  have "duration_sum 0 (ds @ us) = Some (n * unit)"
    using fits ds(1) by (simp add: duration_sum.simps [of 0] duration_sum.simps [of _ "[]"] part)
  moreover have "ds @ us \<noteq> ''0''" using usne c by auto
  ultimately show ?thesis using fits sgn usne by (auto simp: ParseDuration_def c Let_def)
qed

end
