(* ===== verification/Relay_Credentials.thy ===== *)
theory Relay_Credentials
  imports Relay_Auth
begin

text \<open>
  Where a sender gets its tokens, and the builders of authentication options
  (\<^verbatim>\<open>src/pkg/internal/forwardrelay\<close>: \<^verbatim>\<open>token_source.go\<close>, \<^verbatim>\<open>oauth2.go\<close>, \<^verbatim>\<open>auth_options.go\<close>; the last two are the same
  code in \<^verbatim>\<open>receivingrelay\<close>). The token endpoint is a parameter: what a request is answered with, or the
  error of building or making it.
\<close>

section \<open>Token sources\<close>

record cc_request =
  ccr_url :: string
  ccr_scope :: "string option"
  ccr_basic :: "string \<times> string"

text \<open>\<^verbatim>\<open>access_token\<close> and \<^verbatim>\<open>expires_in\<close> of the answer; the other fields are not read.\<close>

type_synonym token_server = "cc_request \<Rightarrow> gerr + (string \<times> int) http_response"

record cc_source =
  cc_tokenURL :: string
  cc_clientID :: string
  cc_clientSecret :: string
  cc_scopes :: "string list"
  cc_tok :: string
  cc_exp :: gotime
  cc_skew :: duration

datatype token_source = StaticToken string | EnvToken string | Refreshing cc_source

definition NewStaticBearerTokenSource :: "string \<Rightarrow> token_source" where
  "NewStaticBearerTokenSource token = StaticToken token"

definition NewEnvBearerTokenSource :: "string \<Rightarrow> token_source" where
  "NewEnvBearerTokenSource envVar = EnvToken envVar"

definition NewClientCredentialsBearerTokenSource :: "string \<Rightarrow> string \<Rightarrow> string \<Rightarrow> string list \<Rightarrow> token_source" where
  "NewClientCredentialsBearerTokenSource baseURL clientID clientSecret scopes =
     Refreshing \<lparr>cc_tokenURL = TrimRight_char baseURL (CHR ''/'') @ ''/api/auth/oauth/token'', cc_clientID = clientID,
       cc_clientSecret = clientSecret, cc_scopes = scopes, cc_tok = '''', cc_exp = 0, cc_skew = 20 * time_Second\<rparr>"

definition NewRefreshingClientCredentialsSource ::
  "string \<Rightarrow> string \<Rightarrow> string \<Rightarrow> string list \<Rightarrow> duration \<Rightarrow> token_source" where
  "NewRefreshingClientCredentialsSource baseURL clientID clientSecret scopes leeway =
     (case NewClientCredentialsBearerTokenSource baseURL clientID clientSecret scopes of
        Refreshing s \<Rightarrow> Refreshing (if leeway > 0 then s\<lparr>cc_skew := leeway\<rparr> else s)
      | ts \<Rightarrow> ts)"

fun joined :: "string list \<Rightarrow> string" where
  "joined [] = ''''"
| "joined [s] = s"
| "joined (s # ss) = s @ '' '' @ joined ss"

definition token_request :: "cc_source \<Rightarrow> cc_request" where
  "token_request s =
     \<lparr>ccr_url = cc_tokenURL s, ccr_scope = (if cc_scopes s = [] then None else Some (joined (cc_scopes s))),
      ccr_basic = (cc_clientID s, cc_clientSecret s)\<rparr>"

definition token_lifetime :: "int \<Rightarrow> duration" where
  "token_lifetime expiresIn = (if expiresIn = 0 then 60 * time_Second else expiresIn * time_Second)"

text \<open>A call that reads the clock at \<open>now\<close> and, once it has an answer, at \<open>later\<close>.\<close>

definition cc_AccessToken ::
  "token_server \<Rightarrow> gotime \<Rightarrow> gotime \<Rightarrow> cc_source \<Rightarrow> (gerr + string) \<times> cc_source" where
  "cc_AccessToken server now later s =
     (if cc_tok s \<noteq> '''' \<and> time_Before (time_Add now (cc_skew s)) (cc_exp s) then (Inr (cc_tok s), s)
      else case server (token_request s) of
        Inl err \<Rightarrow> (Inl err, s)
      | Inr resp \<Rightarrow>
        if resp_StatusCode resp < 200 \<or> resp_StatusCode resp > 299
        then (Inl (Err (''token endpoint status '' @ resp_Status resp)), s)
        else case resp_Body resp of
          Inl err \<Rightarrow> (Inl err, s)
        | Inr (tok, expiresIn) \<Rightarrow>
          if tok = '''' then (Inl (Err ''empty access_token''), s)
          else (Inr tok, s\<lparr>cc_tok := tok, cc_exp := time_Add later (token_lifetime expiresIn)\<rparr>))"

definition AccessToken ::
  "(string \<Rightarrow> string) \<Rightarrow> token_server \<Rightarrow> gotime \<Rightarrow> gotime \<Rightarrow> token_source \<Rightarrow> (gerr + string) \<times> token_source" where
  "AccessToken getenv server now later ts =
     (case ts of
        StaticToken tok \<Rightarrow> (Inr tok, ts)
      | EnvToken key \<Rightarrow> (Inr (getenv key), ts)
      | Refreshing s \<Rightarrow> (case cc_AccessToken server now later s of (r, s') \<Rightarrow> (r, Refreshing s')))"

section \<open>Options\<close>

definition NewOAuth2JWTOptions :: "string \<Rightarrow> string \<Rightarrow> string list \<Rightarrow> string list \<Rightarrow> int \<Rightarrow> oauth2_options" where
  "NewOAuth2JWTOptions issuer jwksURI audiences scopes jwksCacheSeconds =
     \<lparr>AcceptJwt = True, AcceptIntrospection = False, Issuer = issuer, JwksUri = jwksURI, RequiredAudience = audiences,
      RequiredScopes = scopes, IntrospectionUrl = '''', IntrospectionAuthType = '''', IntrospectionClientId = '''',
      IntrospectionClientSecret = '''', IntrospectionBearerToken = '''', ForwardBearerToken = False,
      ForwardMetadataKey = '''', JwksCacheSeconds = jwksCacheSeconds, IntrospectionCacheSeconds = 0\<rparr>"

definition NewOAuth2IntrospectionOptions ::
  "string \<Rightarrow> string \<Rightarrow> string \<Rightarrow> string \<Rightarrow> string \<Rightarrow> int \<Rightarrow> oauth2_options" where
  "NewOAuth2IntrospectionOptions url authType clientID clientSecret bearerToken cacheSeconds =
     \<lparr>AcceptJwt = False, AcceptIntrospection = True, Issuer = '''', JwksUri = '''', RequiredAudience = [],
      RequiredScopes = [], IntrospectionUrl = url, IntrospectionAuthType = authType, IntrospectionClientId = clientID,
      IntrospectionClientSecret = clientSecret, IntrospectionBearerToken = bearerToken, ForwardBearerToken = False,
      ForwardMetadataKey = '''', JwksCacheSeconds = 0, IntrospectionCacheSeconds = cacheSeconds\<rparr>"

definition NewOAuth2Forwarding :: "bool \<Rightarrow> string \<Rightarrow> oauth2_options" where
  "NewOAuth2Forwarding fwd key =
     \<lparr>AcceptJwt = False, AcceptIntrospection = False, Issuer = '''', JwksUri = '''', RequiredAudience = [],
      RequiredScopes = [], IntrospectionUrl = '''', IntrospectionAuthType = '''', IntrospectionClientId = '''',
      IntrospectionClientSecret = '''', IntrospectionBearerToken = '''', ForwardBearerToken = fwd,
      ForwardMetadataKey = key, JwksCacheSeconds = 0, IntrospectionCacheSeconds = 0\<rparr>"

definition override :: "'b \<Rightarrow> 'b \<Rightarrow> 'b \<Rightarrow> 'b" where
  "override z dst src = (if src = z then dst else src)"

definition MergeOAuth2Options :: "oauth2_options option \<Rightarrow> oauth2_options option \<Rightarrow> oauth2_options option" where
  "MergeOAuth2Options dst src =
     (case dst of
        None \<Rightarrow> src
      | Some d \<Rightarrow>
        (case src of
           None \<Rightarrow> Some d
         | Some s \<Rightarrow>
           let fwd = ForwardMetadataKey s \<noteq> '''' \<or> ForwardBearerToken s in
           Some \<lparr>AcceptJwt = AcceptJwt d \<or> AcceptJwt s, AcceptIntrospection = AcceptIntrospection d \<or> AcceptIntrospection s,
             Issuer = override '''' (Issuer d) (Issuer s), JwksUri = override '''' (JwksUri d) (JwksUri s),
             RequiredAudience = override [] (RequiredAudience d) (RequiredAudience s),
             RequiredScopes = override [] (RequiredScopes d) (RequiredScopes s),
             IntrospectionUrl = override '''' (IntrospectionUrl d) (IntrospectionUrl s),
             IntrospectionAuthType = override '''' (IntrospectionAuthType d) (IntrospectionAuthType s),
             IntrospectionClientId = override '''' (IntrospectionClientId d) (IntrospectionClientId s),
             IntrospectionClientSecret = override '''' (IntrospectionClientSecret d) (IntrospectionClientSecret s),
             IntrospectionBearerToken = override '''' (IntrospectionBearerToken d) (IntrospectionBearerToken s),
             ForwardBearerToken = (if fwd then ForwardBearerToken s else ForwardBearerToken d),
             ForwardMetadataKey = (if fwd then ForwardMetadataKey s else ForwardMetadataKey d),
             JwksCacheSeconds = override 0 (JwksCacheSeconds d) (JwksCacheSeconds s),
             IntrospectionCacheSeconds = override 0 (IntrospectionCacheSeconds d) (IntrospectionCacheSeconds s)\<rparr>))"

definition NewAuthenticationOptionsOAuth2 :: "oauth2_options option \<Rightarrow> authentication_options" where
  "NewAuthenticationOptionsOAuth2 oauth =
     \<lparr>auth_Enabled = True, auth_Mode = AUTH_OAUTH2, auth_Oauth2 = oauth, auth_Mtls = None\<rparr>"

definition NewAuthenticationOptionsMTLS :: "string list \<Rightarrow> string \<Rightarrow> authentication_options" where
  "NewAuthenticationOptionsMTLS principals trustDomain =
     \<lparr>auth_Enabled = True, auth_Mode = 3, auth_Oauth2 = None, auth_Mtls = Some (principals, trustDomain)\<rparr>"

definition NewAuthenticationOptionsNone :: authentication_options where
  "NewAuthenticationOptionsNone = \<lparr>auth_Enabled = False, auth_Mode = AUTH_NONE, auth_Oauth2 = None, auth_Mtls = None\<rparr>"

text \<open>Merging from the left or from the right is the same; a nil value is neutral.\<close>

lemma override_assoc: "override z (override z a b) c = override z a (override z b c)"
  by (simp add: override_def)

lemma MergeOAuth2Options_assoc:
  "MergeOAuth2Options (MergeOAuth2Options a b) c = MergeOAuth2Options a (MergeOAuth2Options b c)"
  by (cases a; cases b; cases c) (auto simp: MergeOAuth2Options_def Let_def override_assoc)

lemma MergeOAuth2Options_None [simp]: "MergeOAuth2Options None o2 = o2" "MergeOAuth2Options o1 None = o1"
  by (simp_all add: MergeOAuth2Options_def split: option.splits)

section \<open>Where a token comes from\<close>

type_synonym token_call = "token_server \<times> gotime \<times> gotime"

fun cc_run :: "token_call list \<Rightarrow> cc_source \<Rightarrow> cc_source" where
  "cc_run [] s = s"
| "cc_run ((server, now, later) # calls) s = cc_run calls (snd (cc_AccessToken server now later s))"

definition granted :: "cc_source \<Rightarrow> token_server \<Rightarrow> string \<Rightarrow> int \<Rightarrow> bool" where
  "granted s server tok expiresIn \<longleftrightarrow>
     (\<exists>resp. server (token_request s) = Inr resp \<and> 200 \<le> resp_StatusCode resp \<and> resp_StatusCode resp \<le> 299 \<and>
        resp_Body resp = Inr (tok, expiresIn)) \<and> tok \<noteq> ''''"

definition same_client :: "cc_source \<Rightarrow> cc_source \<Rightarrow> bool" where
  "same_client s s' \<longleftrightarrow> token_request s' = token_request s \<and> cc_skew s' = cc_skew s"

text \<open>The token that is kept was granted by one of these calls, and expires as it said.\<close>

definition kept_from :: "token_call set \<Rightarrow> cc_source \<Rightarrow> cc_source \<Rightarrow> bool" where
  "kept_from calls s0 s \<longleftrightarrow> same_client s0 s \<and>
     (cc_tok s \<noteq> '''' \<longrightarrow> (\<exists>(server, now, later) \<in> calls. \<exists>e. granted s0 server (cc_tok s) e \<and>
        cc_exp s = later + token_lifetime e))"

lemma cc_AccessToken_Inr:
  assumes "cc_AccessToken server now later s = (Inr tok, s')"
  shows "tok = cc_tok s \<and> tok \<noteq> '''' \<and> now + cc_skew s < cc_exp s \<and> s' = s \<or>
    (\<exists>e. granted s server tok e \<and> s' = s\<lparr>cc_tok := tok, cc_exp := later + token_lifetime e\<rparr>)"
  using assms
  by (auto simp: cc_AccessToken_def granted_def time_defs split: if_splits sum.splits prod.splits)

lemma cc_AccessToken_Inl: "cc_AccessToken server now later s = (Inl err, s') \<Longrightarrow> s' = s"
  by (auto simp: cc_AccessToken_def split: if_splits sum.splits prod.splits)

lemma kept_from_step:
  assumes "kept_from calls s0 s"
  shows "kept_from (insert (server, now, later) calls) s0 (snd (cc_AccessToken server now later s))"
proof -
  have c: "granted s server t e = granted s0 server t e" for t e
    using assms by (simp add: kept_from_def same_client_def granted_def)
  have "same_client s0 (s\<lparr>cc_tok := t, cc_exp := x\<rparr>) = same_client s0 s" for t x
    by (simp add: same_client_def token_request_def)
  note c = c this
  show ?thesis
  proof (cases "cc_AccessToken server now later s")
    case (Pair r s')
    then show ?thesis
      using assms c cc_AccessToken_Inr [of server now later s _ s'] cc_AccessToken_Inl [of server now later s _ s']
      by (cases r) (fastforce simp: kept_from_def)+
  qed
qed

lemma kept_from_mono: "kept_from A s0 s \<Longrightarrow> A \<subseteq> B \<Longrightarrow> kept_from B s0 s"
  unfolding kept_from_def by fast

lemma kept_from_run: "kept_from A s0 s \<Longrightarrow> kept_from (A \<union> set calls) s0 (cc_run calls s)"
proof (induction calls arbitrary: A s)
  case (Cons c calls)
  obtain server now later where c: "c = (server, now, later)" by (metis surj_pair)
  from Cons.IH [OF kept_from_step [OF Cons.prems, of server now later]] c show ?case by simp
qed simp

text \<open>
  A token that the endpoint has just granted is handed out even when it has already expired by the lifetime that came
  with it, a negative one.
\<close>

lemma short_lived_token_handed_out:
  assumes "granted s server tok e" and "e < 0" and "cc_tok s = [] \<or> cc_exp s \<le> now + cc_skew s"
  shows "\<exists>s'. cc_AccessToken server now later s = (Inr tok, s') \<and> cc_exp s' < later"
  using assms by (auto simp: granted_def cc_AccessToken_def token_lifetime_def time_defs)

text \<open>
  C28: where the tokens of a refreshing token source come from. After any calls on a new source, a
  call that returns a token got it from the endpoint's successful answer to this very call, whatever lifetime the
  endpoint gave it (a lifetime below the leeway does not hold it back, \<open>short_lived_token_handed_out\<close>), or from an
  earlier call of the same source whose token, by the lifetime the endpoint gave it, is still
  valid for longer than the leeway. While the kept token is valid for longer than the leeway, a call makes no request and
  returns it: the answer of the endpoint does not matter.
\<close>

theorem token_source_returns_live_tokens:
  assumes "cc_tok s = ''''" and "cc_AccessToken server now later (cc_run calls s) = (Inr tok, s')"
  shows "((\<exists>e. granted s server tok e \<and> cc_exp s' = later + token_lifetime e) \<or>
      (\<exists>(server', now', later') \<in> set calls. \<exists>e. granted s server' tok e \<and>
         now + cc_skew s < later' + token_lifetime e)) \<and>
    (now2 + cc_skew s < cc_exp s' \<longrightarrow> cc_AccessToken server2 now2 later2 s' = (Inr tok, s'))"
proof -
  let ?s = "cc_run calls s"
  have k: "kept_from (set calls) s ?s"
    using kept_from_run [of "{}" s s calls] assms(1) by (simp add: kept_from_def same_client_def)
  then have c: "granted ?s srv t e = granted s srv t e" "cc_skew ?s = cc_skew s" for srv t e
    by (simp_all add: kept_from_def same_client_def granted_def)
  from cc_AccessToken_Inr [OF assms(2)] show ?thesis
  proof (elim disjE conjE exE)
    assume "tok = cc_tok ?s" "tok \<noteq> ''''" "now + cc_skew ?s < cc_exp ?s" "s' = ?s"
    then show ?thesis using k c by (fastforce simp: kept_from_def cc_AccessToken_def time_defs)
  next
    fix e
    assume "granted ?s server tok e" "s' = ?s\<lparr>cc_tok := tok, cc_exp := later + token_lifetime e\<rparr>"
    then show ?thesis using c by (auto simp: granted_def cc_AccessToken_def time_defs)
  qed
qed

definition sample_cc :: cc_source where
  "sample_cc = \<lparr>cc_tokenURL = ''u'', cc_clientID = ''c'', cc_clientSecret = ''p'', cc_scopes = [''a'', ''b''],
     cc_tok = '''', cc_exp = 0, cc_skew = 20 * time_Second\<rparr>"

definition granting :: "string \<Rightarrow> int \<Rightarrow> token_server" where
  "granting tok e = (\<lambda>_. Inr \<lparr>resp_StatusCode = 200, resp_Status = ''OK'', resp_Body = Inr (tok, e)\<rparr>)"

definition refusing :: token_server where
  "refusing = (\<lambda>_. Inr \<lparr>resp_StatusCode = 503, resp_Status = ''down'', resp_Body = Inl (Err ''none'')\<rparr>)"

theorem token_source_returns_live_tokens_witness:
  "let s = cc_run [(granting ''tk'' 3600, 0, 1)] sample_cc in
     cc_AccessToken refusing 5 6 s = (Inr ''tk'', s) \<and>
     cc_AccessToken refusing 7 8 s = (Inr ''tk'', s)"
proof -
  let ?s = "cc_run [(granting ''tk'' 3600, 0, 1)] sample_cc"
  have "cc_AccessToken refusing 5 6 ?s = (Inr ''tk'', ?s)"
    by (simp add: cc_AccessToken_def granting_def sample_cc_def time_defs token_lifetime_def)
  moreover have "cc_tok sample_cc = ''''" by (simp add: sample_cc_def)
  ultimately have "7 + cc_skew sample_cc < cc_exp ?s \<longrightarrow> cc_AccessToken refusing 7 8 ?s = (Inr ''tk'', ?s)"
    using token_source_returns_live_tokens [of sample_cc refusing 5 6 "[(granting ''tk'' 3600, 0, 1)]" "''tk''" ?s 7 refusing 8]
    by blast
  then show ?thesis
    using \<open>cc_AccessToken refusing 5 6 ?s = (Inr ''tk'', ?s)\<close>
    by (simp add: cc_AccessToken_def granting_def sample_cc_def time_defs token_lifetime_def)
qed

end
