(* ===== verification/Relay_Sink.thy ===== *)
theory Relay_Sink
  imports Go_Parse Forward_Relay Relay_Credentials
begin

text \<open>
  The log sink that ships log lines through a forward relay
  (\<^verbatim>\<open>src/pkg/internal/internallogger/relay_sink.go\<close>): the reading of its configuration, the relay it
  builds, and the sink itself, a bounded queue between the goroutines that log and one goroutine
  that submits, with its counters and \<^verbatim>\<open>Close\<close>. The sink runs as an interleaving of the
  steps of its goroutines; a mutex serialises the writers and \<^verbatim>\<open>Close\<close>.
\<close>

section \<open>Configuration\<close>

text \<open>
  The dynamically typed values of a configuration. Maps are association lists; nothing here
  depends on the order in which Go visits them.
\<close>

datatype any =
    ANil | ABool bool | AInt int | AInt32 int | AInt64 int | AFloat64 float64 | AFloat32 float64
  | AString string | ADuration duration | AStrings "string list" | AList "any list"
  | AStrMap "(string \<times> string) list" | AMap "(string \<times> any) list" | AOther nat

record relay_sink_config =
  targets :: "string list"
  tlsConfig :: "tls_config option"
  staticHeaders :: "(string \<times> string) list"
  tokenSource :: "token_source option"
  authRequired :: bool
  queueSize :: int
  submitTimeout :: duration
  flushTimeout :: duration
  dropOnFull :: bool

definition normalizeTargets :: "string list \<Rightarrow> string list" where
  "normalizeTargets parts = filter (\<lambda>p. p \<noteq> '''') (map TrimSpace parts)"

definition splitTargets :: "string \<Rightarrow> string list" where
  "splitTargets raw = normalizeTargets (Split_char raw (CHR '',''))"

fun strings_of :: "any list \<Rightarrow> string list option" where
  "strings_of [] = Some []"
| "strings_of (AString s # xs) = map_option ((#) s) (strings_of xs)"
| "strings_of (_ # xs) = None"

definition parseTargets :: "any \<Rightarrow> gerr + string list" where
  "parseTargets raw =
     (case raw of
        AString v \<Rightarrow> Inr (splitTargets v)
      | AStrings v \<Rightarrow> Inr (normalizeTargets v)
      | AList v \<Rightarrow> (case strings_of v of
            None \<Rightarrow> Inl (Err ''relay sink targets must be strings'')
          | Some out \<Rightarrow> Inr (normalizeTargets out))
      | ANil \<Rightarrow> Inl (Err ''relay sink targets missing'')
      | _ \<Rightarrow> Inl (Err ''relay sink targets invalid''))"

definition sink_parseBool :: "any \<Rightarrow> bool option" where
  "sink_parseBool raw =
     (case raw of ABool v \<Rightarrow> Some v | AString v \<Rightarrow> ParseBool (TrimSpace v) | _ \<Rightarrow> None)"

definition sink_parseInt :: "(float64 \<Rightarrow> int) \<Rightarrow> any \<Rightarrow> int option" where
  "sink_parseInt oor raw =
     (case raw of
        AInt v \<Rightarrow> Some v | AInt32 v \<Rightarrow> Some v | AInt64 v \<Rightarrow> Some v
      | AFloat64 v \<Rightarrow> Some (int_of_float oor v) | AFloat32 v \<Rightarrow> Some (int_of_float oor v)
      | AString v \<Rightarrow> Atoi (TrimSpace v)
      | _ \<Rightarrow> None)"

definition sink_parseDuration :: "(float64 \<Rightarrow> int) \<Rightarrow> any \<Rightarrow> duration option" where
  "sink_parseDuration oor raw =
     (case raw of
        ADuration v \<Rightarrow> Some v
      | AString v \<Rightarrow> ParseDuration (TrimSpace v)
      | AInt v \<Rightarrow> Some (wrap_i64 (v * 1000000))
      | AInt64 v \<Rightarrow> Some (wrap_i64 (v * 1000000))
      | AFloat64 v \<Rightarrow> Some (wrap_i64 (int_of_float oor v * 1000000))
      | _ \<Rightarrow> None)"

fun string_entries :: "(string \<times> any) list \<Rightarrow> (string \<times> string) list option" where
  "string_entries [] = Some []"
| "string_entries ((k, AString s) # kvs) = map_option ((#) (k, s)) (string_entries kvs)"
| "string_entries ((k, _) # kvs) = None"

definition parseStringMap :: "any \<Rightarrow> (string \<times> string) list option" where
  "parseStringMap raw = (case raw of AStrMap v \<Rightarrow> Some v | AMap v \<Rightarrow> string_entries v | _ \<Rightarrow> None)"

definition tlsVersionFromString :: "string \<Rightarrow> nat option" where
  "tlsVersionFromString raw =
     (let s = TrimSpace (ToLower raw) in
      if s = ''1.0'' \<or> s = ''tls1.0'' then Some 769
      else if s = ''1.1'' \<or> s = ''tls1.1'' then Some 770
      else if s = ''1.2'' \<or> s = ''tls1.2'' then Some 771
      else if s = ''1.3'' \<or> s = ''tls1.3'' then Some 772
      else None)"

definition tlsVersionFromFloat :: "float64 \<Rightarrow> nat option" where
  "tlsVersionFromFloat v =
     (if v = Fin 1 then Some 769
      else if v = Fin (round64 (11 / 10)) then Some 770
      else if v = Fin (round64 (12 / 10)) then Some 771
      else if v = Fin (round64 (13 / 10)) then Some 772
      else None)"

definition parseTLSVersion :: "any \<Rightarrow> nat option" where
  "parseTLSVersion raw =
     (case raw of
        AString v \<Rightarrow> tlsVersionFromString v
      | AFloat64 v \<Rightarrow> tlsVersionFromFloat v
      | AInt v \<Rightarrow> tlsVersionFromFloat (float_of_int v)
      | _ \<Rightarrow> None)"

text \<open>\<^verbatim>\<open>v, _ := m[k].(string)\<close>.\<close>

definition string_or_empty :: "(string \<times> any) list \<Rightarrow> string \<Rightarrow> string" where
  "string_or_empty m k = (case map_of m k of Some (AString s) \<Rightarrow> s | _ \<Rightarrow> '''')"

text \<open>A setting that is absent keeps its default; one that does not parse is an error.\<close>

definition setting ::
  "(string \<times> any) list \<Rightarrow> string \<Rightarrow> (any \<Rightarrow> 'b option) \<Rightarrow> gerr \<Rightarrow> 'b \<Rightarrow> gerr + 'b" where
  "setting m k parse err d =
     (case map_of m k of
        None \<Rightarrow> Inr d
      | Some raw \<Rightarrow> (case parse raw of None \<Rightarrow> Inl err | Some v \<Rightarrow> Inr v))"

definition bind_cfg :: "gerr + 'b \<Rightarrow> ('b \<Rightarrow> gerr + 'c) \<Rightarrow> gerr + 'c" where
  "bind_cfg r f = (case r of Inl e \<Rightarrow> Inl e | Inr v \<Rightarrow> f v)"

definition parseTLSConfig :: "any \<Rightarrow> gerr + tls_config option" where
  "parseTLSConfig raw =
     (case (case raw of
              AMap m \<Rightarrow> Some m
            | AStrMap m \<Rightarrow> Some (map (\<lambda>(k, v). (k, AString v)) m)
            | _ \<Rightarrow> None) of
        None \<Rightarrow> Inl (Err ''relay sink tls must be map'')
      | Some m \<Rightarrow>
        bind_cfg (setting m ''enabled'' sink_parseBool (Err ''relay sink tls enabled invalid'') True) (\<lambda>enabled.
        if \<not> enabled then Inr None
        else
          let cert = string_or_empty m ''cert''; key = string_or_empty m ''key''; ca = string_or_empty m ''ca'' in
          if cert = '''' \<or> key = '''' \<or> ca = '''' then Inl (Err ''relay sink tls requires cert, key, and ca'')
          else
            bind_cfg (setting m ''min_version'' parseTLSVersion (Err ''unsupported tls version'') 0) (\<lambda>mn.
            bind_cfg (setting m ''max_version'' parseTLSVersion (Err ''unsupported tls version'') 0) (\<lambda>mx.
            Inr (Some \<lparr>UseTLS = True, CertFile = cert, KeyFile = key, CAFile = ca,
              SubjectAlternativeName = string_or_empty m ''server_name'', MinTLSVersion = mn, MaxTLSVersion = mx\<rparr>)))))"

definition token_setting :: "(string \<times> any) list \<Rightarrow> gerr + token_source option" where
  "token_setting m =
     (case (map_of m ''bearer_token'', map_of m ''bearer_token_env'') of
        (Some _, Some _) \<Rightarrow> Inl (Err ''relay sink config specifies both bearer_token and bearer_token_env'')
      | (Some raw, None) \<Rightarrow>
          (case raw of
             AString v \<Rightarrow> if v = '''' then Inl (Err ''relay sink bearer_token invalid'')
                          else Inr (Some (NewStaticBearerTokenSource v))
           | _ \<Rightarrow> Inl (Err ''relay sink bearer_token invalid''))
      | (None, Some raw) \<Rightarrow>
          (case raw of
             AString v \<Rightarrow> if v = '''' then Inl (Err ''relay sink bearer_token_env invalid'')
                          else Inr (Some (NewEnvBearerTokenSource v))
           | _ \<Rightarrow> Inl (Err ''relay sink bearer_token_env invalid''))
      | (None, None) \<Rightarrow> Inr None)"

definition parseRelaySinkConfig ::
  "(float64 \<Rightarrow> int) \<Rightarrow> (string \<times> any) list option \<Rightarrow> gerr + relay_sink_config" where
  "parseRelaySinkConfig oor config =
     (case config of
        None \<Rightarrow> Inl (Err ''relay sink config missing'')
      | Some m \<Rightarrow>
        bind_cfg (parseTargets (case map_of m ''targets'' of None \<Rightarrow> ANil | Some raw \<Rightarrow> raw)) (\<lambda>ts.
        if ts = [] then Inl (Err ''relay sink targets missing'')
        else
          bind_cfg (setting m ''queue_size''
            (\<lambda>raw. case sink_parseInt oor raw of Some n \<Rightarrow> if n < 1 then None else Some n | None \<Rightarrow> None)
            (Err ''relay sink queue_size invalid'') 2048) (\<lambda>size.
          bind_cfg (setting m ''drop_on_full'' sink_parseBool (Err ''relay sink drop_on_full invalid'') True) (\<lambda>dropping.
          bind_cfg (setting m ''submit_timeout'' (sink_parseDuration oor) (Err ''relay sink submit_timeout invalid'')
            (2 * time_Second)) (\<lambda>submit.
          bind_cfg (setting m ''flush_timeout'' (sink_parseDuration oor) (Err ''relay sink flush_timeout invalid'')
            (2 * time_Second)) (\<lambda>flush.
          bind_cfg (setting m ''auth_required'' sink_parseBool (Err ''relay sink auth_required invalid'') True) (\<lambda>auth.
          bind_cfg (setting m ''static_headers'' parseStringMap (Err ''relay sink static_headers invalid'') []) (\<lambda>headers.
          bind_cfg (case map_of m ''tls'' of None \<Rightarrow> Inr None | Some raw \<Rightarrow> parseTLSConfig raw) (\<lambda>tls.
          bind_cfg (token_setting m) (\<lambda>token.
          Inr \<lparr>targets = ts, tlsConfig = tls, staticHeaders = headers, tokenSource = token, authRequired = auth,
               queueSize = size, submitTimeout = submit, flushTimeout = flush, dropOnFull = dropping\<rparr>))))))))))"

text \<open>
  The forward relay of the sink. \<open>token_of\<close> is what a call of the token source returns at a tick of
  the relay.
\<close>

definition sink_relay_options ::
  "(token_source \<Rightarrow> nat \<Rightarrow> string \<times> gerr option) \<Rightarrow> relay_sink_config \<Rightarrow> fr_option list" where
  "sink_relay_options token_of cfg =
     [FR_WithTarget (targets cfg), FR_WithPassthrough True, FR_WithAuthRequired (authRequired cfg)] @
     (case tlsConfig cfg of None \<Rightarrow> [] | Some c \<Rightarrow> [FR_WithTLSConfig (Some c)]) @
     (case tokenSource cfg of None \<Rightarrow> [] | Some ts \<Rightarrow> [FR_WithOAuth2 (Some (token_of ts))]) @
     (if staticHeaders cfg = [] then [] else [FR_WithStaticHeaders (staticHeaders cfg)])"

text \<open>A log line as the relay carries it; the buffer of the caller is copied.\<close>

definition newPayload :: "gotime \<Rightarrow> string \<Rightarrow> octets \<Rightarrow> wrapped_payload" where
  "newPayload now stamp p =
     \<lparr>wp_Id = stamp, wp_Timestamp = Some now, wp_Payload = p,
      wp_Metadata = Some \<lparr>md_Headers = [''source'' \<mapsto> ''electrician-logger'', ''log_schema'' \<mapsto> ''electrician.log.v1''],
        md_ContentType = ''application/json'', md_Version = Some (1, 0), md_Performance = None, md_Security = None,
        md_TraceId = ''''\<rparr>,
      wp_ErrorInfo = None, wp_Seq = 0, wp_PayloadEncoding = 0, wp_PayloadType = ''electrician.log.v1''\<rparr>"

section \<open>The running sink\<close>

text \<open>
  Where a call of \<^verbatim>\<open>Write\<close> is: it holds the mutex, its payload is in the queue but not yet counted
  as pending, or it found the queue full. The submitting goroutine receives, submits, or has submitted
  and not yet counted. A call of \<^verbatim>\<open>Close\<close>, of which there can be any number, holds the mutex, has set the flag
  and not yet closed the queue, waits for the submitting goroutine, or has returned: at once when it found the
  flag set, else after it has stopped the relay. Whatever can panic has a step that does: a send on the closed
  queue, a second close of it, the relay's \<^verbatim>\<open>Submit\<close> and \<^verbatim>\<open>Stop\<close>. The last four fields record the history: payloads put into the
  queue, those of them whose \<^verbatim>\<open>Write\<close> has returned, payloads handed to the relay, and payloads of
  calls after \<^verbatim>\<open>Close\<close>.
\<close>

datatype sink_writer = Outside | HoldingLine wrapped_payload | Queued wrapped_payload | Full

datatype sink_worker = Receiving | Submitting wrapped_payload | Submitted | Gone

datatype sink_closer = NotCalled | CloseHolding | CloseFlagged | Draining | ClosedDown | FoundClosed

datatype sink_holder = WriterHolds nat | CloserHolds nat

record sink =
  sk_cfg :: relay_sink_config
  sk_relay :: "wrapped_payload option fr_sys"
  sk_queue :: "wrapped_payload gochan"
  sk_pending :: int
  sk_dropped :: "64 word"
  sk_closed :: bool
  sk_writeMu :: "sink_holder option"
  sk_writers :: "nat \<Rightarrow> sink_writer"
  sk_worker :: sink_worker
  sk_closers :: "nat \<Rightarrow> sink_closer"
  sk_panicked :: "panic option"
  sk_accepted :: "wrapped_payload list"
  sk_returned :: "wrapped_payload list"
  sk_submitted :: "wrapped_payload list"
  sk_refused :: "wrapped_payload list"

definition new_sink :: "relay_sink_config \<Rightarrow> wrapped_payload option fr_sys \<Rightarrow> sink" where
  "new_sink cfg relay =
     (let cfg = (if queueSize cfg < 1 then cfg\<lparr>queueSize := 1\<rparr> else cfg) in
      \<lparr>sk_cfg = cfg, sk_relay = relay, sk_queue = make_chan (nat (queueSize cfg)), sk_pending = 0, sk_dropped = 0,
       sk_closed = False, sk_writeMu = None, sk_writers = (\<lambda>_. Outside), sk_worker = Receiving,
       sk_closers = (\<lambda>_. NotCalled), sk_panicked = None,
       sk_accepted = [], sk_returned = [], sk_submitted = [], sk_refused = []\<rparr>)"

definition newRelayWriteSyncer ::
  "string \<Rightarrow> (token_source \<Rightarrow> nat \<Rightarrow> string \<times> gerr option) \<Rightarrow> (float64 \<Rightarrow> int) \<Rightarrow> (string \<times> any) list option \<Rightarrow>
   panic + gerr + sink" where
  "newRelayWriteSyncer hash token_of oor config =
     (case parseRelaySinkConfig oor config of
        Inl err \<Rightarrow> Inr (Inl err)
      | Inr cfg \<Rightarrow>
        (case NewForwardRelay hash (sink_relay_options token_of cfg) of
           Inl p \<Rightarrow> Inl p
         | Inr fr \<Rightarrow> Inr (Inr (new_sink cfg fr))))"

definition write_to :: "nat \<Rightarrow> sink_writer \<Rightarrow> sink \<Rightarrow> sink" where
  "write_to i w z = z\<lparr>sk_writers := (sk_writers z)(i := w), sk_writeMu := (if w = Outside then None else Some (WriterHolds i))\<rparr>"

definition close_to :: "nat \<Rightarrow> sink_closer \<Rightarrow> sink \<Rightarrow> sink" where
  "close_to i c z =
     z\<lparr>sk_closers := (sk_closers z)(i := c),
       sk_writeMu := (if c = CloseHolding \<or> c = CloseFlagged then Some (CloserHolds i) else None)\<rparr>"

inductive sink_step :: "wrapped_payload option relay_env \<Rightarrow> string list \<Rightarrow> sink \<Rightarrow> sink \<Rightarrow> bool"
  for env :: "wrapped_payload option relay_env" and order :: "string list"
where
  write_lock: "sk_writers z i = Outside \<Longrightarrow> sk_writeMu z = None \<Longrightarrow> bs \<noteq> [] \<Longrightarrow>
    sink_step env order z (write_to i (HoldingLine (newPayload now stamp bs)) z)"
| write_refused: "sk_writers z i = HoldingLine p \<Longrightarrow> sk_closed z \<Longrightarrow>
    sink_step env order z (write_to i Outside (z\<lparr>sk_refused := sk_refused z @ [p]\<rparr>))"
| write_sent: "sk_writers z i = HoldingLine p \<Longrightarrow> \<not> sk_closed z \<Longrightarrow> chan_send p (sk_queue z) = Sent ch \<Longrightarrow>
    sink_step env order z (write_to i (Queued p) (z\<lparr>sk_queue := ch, sk_accepted := sk_accepted z @ [p]\<rparr>))"
| write_full: "sk_writers z i = HoldingLine p \<Longrightarrow> \<not> sk_closed z \<Longrightarrow> chan_send p (sk_queue z) = SendBlocks \<Longrightarrow>
    dropOnFull (sk_cfg z) \<Longrightarrow> sink_step env order z (write_to i Full z)"
| write_panics: "sk_writers z i = HoldingLine p \<Longrightarrow> \<not> sk_closed z \<Longrightarrow> chan_send p (sk_queue z) = SendPanics \<Longrightarrow>
    sink_step env order z (z\<lparr>sk_panicked := Some (Panic ''send on closed channel'')\<rparr>)"
| write_counted: "sk_writers z i = Queued p \<Longrightarrow>
    sink_step env order z (write_to i Outside
      (z\<lparr>sk_pending := wrap_i64 (sk_pending z + 1), sk_returned := sk_returned z @ [p]\<rparr>))"
| write_dropped: "sk_writers z i = Full \<Longrightarrow>
    sink_step env order z (write_to i Outside (z\<lparr>sk_dropped := sk_dropped z + 1\<rparr>))"
| close_lock: "sk_closers z i = NotCalled \<Longrightarrow> sk_writeMu z = None \<Longrightarrow>
    sink_step env order z (close_to i CloseHolding z)"
| close_again: "sk_closers z i = CloseHolding \<Longrightarrow> sk_closed z \<Longrightarrow>
    sink_step env order z (close_to i FoundClosed z)"
| close_flag: "sk_closers z i = CloseHolding \<Longrightarrow> \<not> sk_closed z \<Longrightarrow>
    sink_step env order z (close_to i CloseFlagged (z\<lparr>sk_closed := True\<rparr>))"
| close_queue: "sk_closers z i = CloseFlagged \<Longrightarrow> chan_close (sk_queue z) = Inr ch \<Longrightarrow>
    sink_step env order z (close_to i Draining (z\<lparr>sk_queue := ch\<rparr>))"
| close_panics: "sk_closers z i = CloseFlagged \<Longrightarrow> chan_close (sk_queue z) = Inl pn \<Longrightarrow>
    sink_step env order z (z\<lparr>sk_panicked := Some pn\<rparr>)"
| close_done: "sk_closers z i = Draining \<Longrightarrow> sk_worker z = Gone \<Longrightarrow> fr_Stop env order (sk_relay z) = Inr r \<Longrightarrow>
    sink_step env order z (z\<lparr>sk_relay := r, sk_closers := (sk_closers z)(i := ClosedDown)\<rparr>)"
| stop_panics: "sk_closers z i = Draining \<Longrightarrow> sk_worker z = Gone \<Longrightarrow> fr_Stop env order (sk_relay z) = Inl pn \<Longrightarrow>
    sink_step env order z (z\<lparr>sk_panicked := Some pn\<rparr>)"
| run_receive: "sk_worker z = Receiving \<Longrightarrow> chan_recv (sk_queue z) = Received p ch \<Longrightarrow>
    sink_step env order z (z\<lparr>sk_queue := ch, sk_worker := Submitting p\<rparr>)"
| run_exit: "sk_worker z = Receiving \<Longrightarrow> chan_recv (sk_queue z) = RecvClosed \<Longrightarrow>
    sink_step env order z (z\<lparr>sk_worker := Gone\<rparr>)"
| submit_call: "sk_worker z = Submitting p \<Longrightarrow> fr_Submit env (Some p) (sk_relay z) = Some (Inr (err, r)) \<Longrightarrow>
    sink_step env order z (z\<lparr>sk_relay := r, sk_worker := Submitted, sk_submitted := sk_submitted z @ [p]\<rparr>)"
| submit_panics: "sk_worker z = Submitting p \<Longrightarrow> fr_Submit env (Some p) (sk_relay z) = Some (Inl pn) \<Longrightarrow>
    sink_step env order z (z\<lparr>sk_panicked := Some pn\<rparr>)"
| submit_counted: "sk_worker z = Submitted \<Longrightarrow>
    sink_step env order z (z\<lparr>sk_pending := wrap_i64 (sk_pending z - 1), sk_worker := Receiving\<rparr>)"
| relay_sends: "streamSendLoop_round env i (sk_relay z) = Some r \<Longrightarrow>
    sink_step env order z (z\<lparr>sk_relay := r\<rparr>)"

inductive sink_reach :: "wrapped_payload option relay_env \<Rightarrow> string list \<Rightarrow> sink \<Rightarrow> sink \<Rightarrow> bool"
  for env :: "wrapped_payload option relay_env" and order :: "string list" and z0 :: sink
where
  sink_start: "sink_reach env order z0 z0"
| sink_next: "sink_reach env order z0 z \<Longrightarrow> sink_step env order z z' \<Longrightarrow> sink_reach env order z0 z'"

text \<open>
  \<^verbatim>\<open>Sync\<close> reads the counter and then the clock, every ten milliseconds: the number of readings before it
  returns. It returns nil in either case.
\<close>

definition sync_timeout :: "relay_sink_config \<Rightarrow> duration" where
  "sync_timeout cfg =
     (let t = flushTimeout cfg; t = (if t \<le> 0 then submitTimeout cfg else t) in if t \<le> 0 then 2 * time_Second else t)"

partial_function (option) sync_loop :: "(nat \<Rightarrow> int) \<Rightarrow> (nat \<Rightarrow> gotime) \<Rightarrow> gotime \<Rightarrow> nat \<Rightarrow> nat option" where
  "sync_loop pending clock deadline n =
     (if pending n > 0 then
        (if deadline < clock n then Some n else sync_loop pending clock deadline (Suc n))
      else Some n)"

definition sink_Sync :: "relay_sink_config \<Rightarrow> gotime \<Rightarrow> (nat \<Rightarrow> int) \<Rightarrow> (nat \<Rightarrow> gotime) \<Rightarrow> nat option" where
  "sink_Sync cfg now pending clock = sync_loop pending clock (time_Add now (sync_timeout cfg)) 0"

section \<open>Invariant\<close>

definition hand :: "sink \<Rightarrow> wrapped_payload list" where
  "hand z = (case sk_worker z of Submitting p \<Rightarrow> [p] | _ \<Rightarrow> [])"

definition uncounted :: "sink \<Rightarrow> wrapped_payload list" where
  "uncounted z =
     (case sk_writeMu z of
        None \<Rightarrow> []
      | Some (WriterHolds i) \<Rightarrow> (case sk_writers z i of Queued p \<Rightarrow> [p] | _ \<Rightarrow> [])
      | Some (CloserHolds i) \<Rightarrow> [])"

definition sink_finished :: "sink \<Rightarrow> nat" where
  "sink_finished z = length (sk_submitted z) - (if sk_worker z = Submitted then 1 else 0)"

definition sink_inv :: "nat \<Rightarrow> sink \<Rightarrow> bool" where
  "sink_inv cap z \<longleftrightarrow>
     sk_accepted z = sk_submitted z @ hand z @ ch_buf (sk_queue z) \<and>
     sk_accepted z = sk_returned z @ uncounted z \<and>
     (sk_worker z = Submitted \<longrightarrow> sk_submitted z \<noteq> []) \<and>
     sk_pending z = int (length (sk_returned z)) - int (sink_finished z) \<and>
     (\<forall>i. sk_writers z i \<noteq> Outside \<longleftrightarrow> sk_writeMu z = Some (WriterHolds i)) \<and>
     chan_ok (sk_queue z) \<and> ch_cap (sk_queue z) = cap \<and>
     (sk_worker z = Gone \<longrightarrow> ch_closed (sk_queue z) \<and> ch_buf (sk_queue z) = [])"

text \<open>
  The calls of \<^verbatim>\<open>Close\<close>: those that hold the mutex; the one that set the flag, which alone closes the queue and
  stops the relay.
\<close>

definition closing :: "sink_closer \<Rightarrow> bool" where
  "closing c \<longleftrightarrow> c = CloseFlagged \<or> c = Draining \<or> c = ClosedDown"

definition holding :: "sink_closer \<Rightarrow> bool" where
  "holding c \<longleftrightarrow> c = CloseHolding \<or> c = CloseFlagged"

definition draining :: "sink_closer \<Rightarrow> bool" where
  "draining c \<longleftrightarrow> c = Draining \<or> c = ClosedDown"

definition closers_inv :: "sink \<Rightarrow> bool" where
  "closers_inv z \<longleftrightarrow>
     (\<forall>i. sk_closers z i = CloseHolding \<or> sk_closers z i = CloseFlagged \<longleftrightarrow> sk_writeMu z = Some (CloserHolds i)) \<and>
     (sk_closed z \<longleftrightarrow> (\<exists>i. closing (sk_closers z i))) \<and>
     (\<forall>i j. closing (sk_closers z i) \<and> closing (sk_closers z j) \<longrightarrow> i = j) \<and>
     (ch_closed (sk_queue z) \<longleftrightarrow> (\<exists>i. sk_closers z i = Draining \<or> sk_closers z i = ClosedDown)) \<and>
     (\<forall>i. sk_closers z i = ClosedDown \<longrightarrow> sk_worker z = Gone)"

lemma sink_inv_new: "sink_inv (nat (max 1 (queueSize cfg))) (new_sink cfg fr)"
  by (auto simp: sink_inv_def new_sink_def hand_def uncounted_def sink_finished_def make_chan_def chan_ok_def Let_def max_def)

text \<open>The counter stays within the size of the queue and one, so it does not wrap around.\<close>

lemma pending_bounds:
  assumes "sink_inv cap z"
  shows "- 1 \<le> sk_pending z" and "sk_pending z \<le> int cap + 1"
proof -
  from assms have acc: "sk_accepted z = sk_submitted z @ hand z @ ch_buf (sk_queue z)"
    "sk_accepted z = sk_returned z @ uncounted z" and q: "length (ch_buf (sk_queue z)) \<le> cap"
    and ne: "sk_worker z = Submitted \<longrightarrow> sk_submitted z \<noteq> []"
    and pend: "sk_pending z = int (length (sk_returned z)) - int (sink_finished z)"
    by (auto simp: sink_inv_def chan_ok_def)
  have len: "length (sk_returned z) + length (uncounted z) = length (sk_submitted z) + length (hand z) + length (ch_buf (sk_queue z))"
    using arg_cong [OF trans [OF sym [OF acc(2)] acc(1)], of length] by simp
  have u: "length (uncounted z) \<le> 1" by (simp add: uncounted_def split: option.split sink_holder.split sink_writer.split)
  have h: "length (hand z) \<le> (if sk_worker z = Submitted then 0 else 1)" by (auto simp: hand_def split: sink_worker.split)
  have f: "sink_finished z \<le> length (sk_submitted z)" "length (sk_submitted z) \<le> sink_finished z + (if sk_worker z = Submitted then 1 else 0)"
    by (auto simp: sink_finished_def)
  show "- 1 \<le> sk_pending z" using len u f by (simp add: pend)
  show "sk_pending z \<le> int cap + 1" using len q h f by (simp add: pend split: if_splits)
qed

lemma write_to_fields [simp]:
  "sk_cfg (write_to i w z) = sk_cfg z" "sk_relay (write_to i w z) = sk_relay z" "sk_queue (write_to i w z) = sk_queue z"
  "sk_pending (write_to i w z) = sk_pending z" "sk_closed (write_to i w z) = sk_closed z"
  "sk_writeMu (write_to i w z) = (if w = Outside then None else Some (WriterHolds i))"
  "sk_writers (write_to i w z) = (sk_writers z)(i := w)" "sk_worker (write_to i w z) = sk_worker z"
  "sk_closers (write_to i w z) = sk_closers z" "sk_panicked (write_to i w z) = sk_panicked z" "sk_accepted (write_to i w z) = sk_accepted z"
  "sk_returned (write_to i w z) = sk_returned z" "sk_submitted (write_to i w z) = sk_submitted z"
  "sk_refused (write_to i w z) = sk_refused z" "sk_dropped (write_to i w z) = sk_dropped z"
  "hand (write_to i w z) = hand z" "sink_finished (write_to i w z) = sink_finished z"
  "uncounted (write_to i w z) = (case w of Queued p \<Rightarrow> [p] | _ \<Rightarrow> [])"
  by (simp_all add: write_to_def hand_def sink_finished_def uncounted_def split: sink_writer.split)

lemma close_to_fields [simp]:
  "sk_cfg (close_to i c z) = sk_cfg z" "sk_relay (close_to i c z) = sk_relay z" "sk_queue (close_to i c z) = sk_queue z"
  "sk_pending (close_to i c z) = sk_pending z" "sk_closed (close_to i c z) = sk_closed z"
  "sk_writeMu (close_to i c z) = (if c = CloseHolding \<or> c = CloseFlagged then Some (CloserHolds i) else None)"
  "sk_writers (close_to i c z) = sk_writers z" "sk_worker (close_to i c z) = sk_worker z"
  "sk_closers (close_to i c z) = (sk_closers z)(i := c)" "sk_accepted (close_to i c z) = sk_accepted z"
  "sk_returned (close_to i c z) = sk_returned z" "sk_submitted (close_to i c z) = sk_submitted z"
  "sk_refused (close_to i c z) = sk_refused z" "sk_dropped (close_to i c z) = sk_dropped z"
  "sk_panicked (close_to i c z) = sk_panicked z"
  "hand (close_to i c z) = hand z" "sink_finished (close_to i c z) = sink_finished z" "uncounted (close_to i c z) = []"
  by (simp_all add: close_to_def hand_def sink_finished_def uncounted_def)

lemma uncounted_fields [simp]:
  "uncounted (z\<lparr>sk_relay := r\<rparr>) = uncounted z" "uncounted (z\<lparr>sk_closers := c\<rparr>) = uncounted z"
  "uncounted (z\<lparr>sk_panicked := pn\<rparr>) = uncounted z"
  "uncounted (z\<lparr>sk_closed := b\<rparr>) = uncounted z" "uncounted (z\<lparr>sk_queue := ch\<rparr>) = uncounted z"
  "uncounted (z\<lparr>sk_worker := w\<rparr>) = uncounted z" "uncounted (z\<lparr>sk_pending := n\<rparr>) = uncounted z"
  "uncounted (z\<lparr>sk_submitted := ps\<rparr>) = uncounted z"
  by (simp_all add: uncounted_def split: option.split sink_holder.split)

lemma is_i64_small: "\<bar>x\<bar> < 2 ^ 62 \<Longrightarrow> is_i64 x"
  by (simp add: is_i64_def abs_less_iff)

lemma closers_inv_new: "closers_inv (new_sink cfg fr)"
  by (simp add: closers_inv_def new_sink_def closing_def make_chan_def Let_def)

lemma sink_inv_step:
  assumes step: "sink_step env order z z'" and inv: "sink_inv cap z" and ci: "closers_inv z" and cap: "cap < 2 ^ 61"
  shows "sink_inv cap z'"
proof -
  have b: "- 1 \<le> sk_pending z" "sk_pending z \<le> int cap + 1" by (rule pending_bounds [OF inv])+
  have "int cap < 2 ^ 61" using cap by (metis of_nat_less_iff of_nat_numeral of_nat_power)
  then have wr: "wrap_i64 (sk_pending z + 1) = sk_pending z + 1" "wrap_i64 (sk_pending z - 1) = sk_pending z - 1"
    using b by (auto intro!: wrap_i64_id is_i64_small)
  have mu: "sk_writeMu z = Some (WriterHolds i)" if "sk_writers z i = w" "w \<noteq> Outside" for i w
    using inv that by (auto simp: sink_inv_def)
  have un: "uncounted z = (case w of Queued p \<Rightarrow> [p] | _ \<Rightarrow> [])" if "sk_writers z i = w" "w \<noteq> Outside" for i w
    using mu [OF that] that by (simp add: uncounted_def)
  have un0: "uncounted z = []" if "sk_writeMu z = None \<or> sk_writeMu z = Some (CloserHolds i)" for i
    using that by (auto simp: uncounted_def)
  have held: "sk_writeMu z = Some (CloserHolds i)" if "sk_closers z i = CloseHolding \<or> sk_closers z i = CloseFlagged" for i
    using ci that unfolding closers_inv_def by blast
  show ?thesis
    using step
  proof cases
    case (write_lock i bs now stamp)
    with inv un0 show ?thesis by (auto simp: sink_inv_def)
  next
    case (write_refused i p)
    with inv un [of i] mu [of i] show ?thesis by (auto simp: sink_inv_def hand_def sink_finished_def split: if_splits)
  next
    case (write_sent i p ch)
    with inv un [of i] mu [of i] chan_send_ok [of "sk_queue z" p ch] show ?thesis
      by (auto simp: sink_inv_def hand_def sink_finished_def chan_send_def split: if_splits)
  next
    case (write_full i p)
    with inv un [of i] mu [of i] show ?thesis by (auto simp: sink_inv_def split: if_splits)
  next
    case (write_panics i p)
    with inv show ?thesis by (auto simp: sink_inv_def hand_def sink_finished_def)
  next
    case (write_counted i p)
    with inv un [of i] mu [of i] wr show ?thesis by (auto simp: sink_inv_def hand_def sink_finished_def split: if_splits)
  next
    case (write_dropped i)
    with inv un [of i] mu [of i] show ?thesis by (auto simp: sink_inv_def hand_def sink_finished_def split: if_splits)
  next
    case (close_lock i)
    with inv un0 show ?thesis by (auto simp: sink_inv_def)
  next
    case (close_again i)
    with inv un0 [of i] held [of i] show ?thesis by (auto simp: sink_inv_def)
  next
    case (close_flag i)
    with inv un0 [of i] held [of i] show ?thesis by (auto simp: sink_inv_def hand_def sink_finished_def)
  next
    case (close_queue i ch)
    with inv un0 [of i] held [of i] show ?thesis
      by (auto simp: sink_inv_def hand_def sink_finished_def chan_close_def chan_ok_def split: if_splits)
  next
    case (close_panics i pn)
    with inv show ?thesis by (auto simp: sink_inv_def hand_def sink_finished_def)
  next
    case (close_done i r)
    with inv show ?thesis by (auto simp: sink_inv_def hand_def sink_finished_def)
  next
    case (stop_panics i pn)
    with inv show ?thesis by (auto simp: sink_inv_def hand_def sink_finished_def)
  next
    case (run_receive p ch)
    with inv chan_recv_ok [of "sk_queue z" p ch] show ?thesis
      by (auto simp: sink_inv_def hand_def sink_finished_def)
  next
    case run_exit
    with inv show ?thesis
      by (auto simp: sink_inv_def hand_def sink_finished_def chan_recv_def split: list.splits if_splits)
  next
    case (submit_call p err r)
    with inv show ?thesis by (auto simp: sink_inv_def hand_def sink_finished_def)
  next
    case (submit_panics p pn)
    with inv show ?thesis by (auto simp: sink_inv_def hand_def sink_finished_def)
  next
    case submit_counted
    with inv wr show ?thesis by (auto simp: sink_inv_def hand_def sink_finished_def Suc_diff_Suc neq_Nil_conv)
  next
    case (relay_sends i r)
    with inv show ?thesis by (auto simp: sink_inv_def hand_def sink_finished_def)
  qed
qed

text \<open>Only three facts about where a call of \<^verbatim>\<open>Close\<close> is matter to the invariant.\<close>

lemma closers_inv_iff:
  "closers_inv z \<longleftrightarrow>
     (\<forall>i. holding (sk_closers z i) \<longleftrightarrow> sk_writeMu z = Some (CloserHolds i)) \<and>
     (sk_closed z \<longleftrightarrow> (\<exists>i. closing (sk_closers z i))) \<and>
     (\<forall>i j. closing (sk_closers z i) \<and> closing (sk_closers z j) \<longrightarrow> i = j) \<and>
     (ch_closed (sk_queue z) \<longleftrightarrow> (\<exists>i. draining (sk_closers z i))) \<and>
     (\<forall>i. sk_closers z i = ClosedDown \<longrightarrow> sk_worker z = Gone)"
  by (simp add: closers_inv_def holding_def draining_def)

lemma closer_kinds [simp]:
  "\<not> holding NotCalled" "holding CloseHolding" "holding CloseFlagged" "\<not> holding Draining" "\<not> holding ClosedDown"
  "\<not> holding FoundClosed" "\<not> closing NotCalled" "\<not> closing CloseHolding" "closing CloseFlagged" "closing Draining"
  "closing ClosedDown" "\<not> closing FoundClosed" "\<not> draining NotCalled" "\<not> draining CloseHolding"
  "\<not> draining CloseFlagged" "draining Draining" "draining ClosedDown" "\<not> draining FoundClosed"
  by (simp_all add: holding_def closing_def draining_def)

lemma fun_upd_same_kind: "P (f i) = P c \<Longrightarrow> P ((f(i := c)) j) = P (f j)"
  by (cases "j = i") simp_all

lemma closers_inv_close_to:
  assumes inv: "closers_inv z" and i: "sk_closers z i = c0" and mu: "sk_writeMu z = (if holding c0 then Some (CloserHolds i) else None)"
    and kinds: "closing c0 = closing c" "draining c0 = draining c" and "c \<noteq> ClosedDown"
  shows "closers_inv (close_to i c z)"
proof -
  have k: "closing (((sk_closers z)(i := c)) j) = closing (sk_closers z j)"
    "draining (((sk_closers z)(i := c)) j) = draining (sk_closers z j)" for j
    using fun_upd_same_kind [of closing "sk_closers z" i c j] fun_upd_same_kind [of draining "sk_closers z" i c j] i kinds by simp_all
  have h: "holding (((sk_closers z)(i := c)) j) \<longleftrightarrow> (if holding c then Some (CloserHolds i) else None) = Some (CloserHolds j)" for j
  proof (cases "j = i")
    case False
    then have "\<not> holding (sk_closers z j)" using inv mu unfolding closers_inv_iff by (auto split: if_splits)
    then show ?thesis using False by auto
  qed simp
  have "sk_writeMu (close_to i c z) = (if holding c then Some (CloserHolds i) else None)" by (simp add: holding_def)
  then show ?thesis
    using inv \<open>c \<noteq> ClosedDown\<close> h unfolding closers_inv_iff by (simp add: k del: fun_upd_apply) (auto simp: fun_upd_apply)
qed

lemma closers_inv_step:
  assumes step: "sink_step env order z z'" and inv: "closers_inv z" and si: "sink_inv cap z"
  shows "closers_inv z'"
proof -
  have wm: "sk_writeMu z = Some (WriterHolds i)" if "sk_writers z i = w" "w \<noteq> Outside" for i w
    using si that by (auto simp: sink_inv_def)
  have cm: "sk_writeMu z = Some (CloserHolds i)" if "holding (sk_closers z i)" for i
    using inv that by (simp add: closers_inv_iff)
  have free: "closers_inv (write_to i w y)" if "closers_inv y" "sk_writeMu y = None \<or> sk_writeMu y = Some (WriterHolds i)" for i w y
    using that by (auto simp: closers_inv_iff)
  show ?thesis
    using step
  proof cases
    case (write_lock i bs now stamp)
    then show ?thesis using free [OF inv] by simp
  next
    case (write_refused i p)
    have "closers_inv (z\<lparr>sk_refused := sk_refused z @ [p]\<rparr>)" using inv by (simp add: closers_inv_def)
    from free [OF this, of i] show ?thesis using write_refused wm [of i] by simp
  next
    case (write_sent i p ch)
    have "closers_inv (z\<lparr>sk_queue := ch, sk_accepted := sk_accepted z @ [p]\<rparr>)"
      using inv write_sent by (auto simp: closers_inv_def chan_send_def split: if_splits)
    from free [OF this, of i] show ?thesis using write_sent wm [of i] by simp
  next
    case (write_full i p)
    then show ?thesis using free [OF inv] wm [of i] by simp
  next
    case (write_counted i p)
    have "closers_inv (z\<lparr>sk_pending := wrap_i64 (sk_pending z + 1), sk_returned := sk_returned z @ [p]\<rparr>)"
      using inv by (simp add: closers_inv_def)
    from free [OF this, of i] show ?thesis using write_counted wm [of i] by simp
  next
    case (write_dropped i)
    have "closers_inv (z\<lparr>sk_dropped := sk_dropped z + 1\<rparr>)" using inv by (simp add: closers_inv_def)
    from free [OF this, of i] show ?thesis using write_dropped wm [of i] by simp
  next
    case (close_lock i)
    then show ?thesis using closers_inv_close_to [OF inv close_lock(2)] by simp
  next
    case (close_again i)
    then show ?thesis using closers_inv_close_to [OF inv close_again(2)] cm [of i] by simp
  next
    case (close_flag i)
    have none: "\<not> closing (sk_closers z j)" for j using inv close_flag by (auto simp: closers_inv_iff)
    then have nd: "\<not> draining (sk_closers z j)" "sk_closers z j \<noteq> ClosedDown" for j
      using none [of j] by (auto simp: closing_def draining_def)
    have only: "holding (sk_closers z j) \<longleftrightarrow> j = i" for j
      using inv cm [of i] close_flag by (auto simp: closers_inv_iff)
    show ?thesis
      using inv none nd only close_flag by (auto simp: closers_inv_iff)
  next
    case (close_queue i ch)
    have ch: "ch_closed ch" using close_queue by (auto simp: chan_close_def split: if_splits)
    have only: "holding (sk_closers z j) \<longleftrightarrow> j = i" "closing (sk_closers z j) \<longleftrightarrow> j = i" for j
      using inv cm [of i] close_queue by (auto simp: closers_inv_iff)
    have nd: "sk_closers z j \<noteq> ClosedDown" for j
    proof
      assume j: "sk_closers z j = ClosedDown"
      then have "j = i" using only(2) [of j] by simp
      then show False using j close_queue by simp
    qed
    show ?thesis
      using inv only nd ch close_queue by (auto simp: closers_inv_iff)
  next
    case (close_done i r)
    have k: "holding (((sk_closers z)(i := ClosedDown)) j) = holding (sk_closers z j)"
      "closing (((sk_closers z)(i := ClosedDown)) j) = closing (sk_closers z j)"
      "draining (((sk_closers z)(i := ClosedDown)) j) = draining (sk_closers z j)" for j
      using close_done(2) by (simp_all add: fun_upd_same_kind)
    then show ?thesis using inv close_done by (simp add: closers_inv_iff del: fun_upd_apply)
  next
    case (run_receive p ch)
    have "sk_worker z \<noteq> Gone" "ch_closed ch = ch_closed (sk_queue z)"
      using run_receive by (auto simp: chan_recv_def split: list.splits if_splits)
    then show ?thesis using inv run_receive by (auto simp: closers_inv_def)
  qed (use inv in \<open>auto simp: closers_inv_def\<close>)
qed

lemma sink_inv_reach:
  assumes "sink_reach env order (new_sink cfg fr) z" and "queueSize cfg < 2 ^ 61"
  shows "sink_inv (nat (max 1 (queueSize cfg))) z \<and> closers_inv z"
proof -
  have "nat (max 1 (queueSize cfg)) < 2 ^ 61" using assms(2) by (simp add: nat_less_iff)
  with assms(1) show ?thesis
    by (induction rule: sink_reach.induct) (auto simp: sink_inv_new closers_inv_new intro: sink_inv_step closers_inv_step)
qed

section \<open>What the sink guarantees\<close>

text \<open>When the counter is not positive, every payload whose \<^verbatim>\<open>Write\<close> has returned is submitted.\<close>

lemma flushed:
  assumes inv: "sink_inv cap z" and "sk_pending z \<le> 0"
  shows "\<exists>ps. sk_submitted z = sk_returned z @ ps"
proof -
  have eq: "sk_returned z @ uncounted z = sk_submitted z @ hand z @ ch_buf (sk_queue z)"
    using inv unfolding sink_inv_def by metis
  have "length (sk_returned z) \<le> length (sk_submitted z)"
    using inv assms(2) by (auto simp: sink_inv_def sink_finished_def)
  with eq have "sk_returned z = take (length (sk_returned z)) (sk_submitted z)"
    by (metis append_eq_conv_conj take_append diff_is_0_eq take_0 append_Nil2)
  then show ?thesis by (metis append_take_drop_id)
qed

lemma returned_mono: "sink_reach env order z z' \<Longrightarrow> \<exists>ps. sk_returned z' = sk_returned z @ ps"
  by (induction rule: sink_reach.induct) (auto elim!: sink_step.cases)

lemma sync_loop_returns:
  assumes "deadline < clock (n + k)"
  shows "\<exists>m. n \<le> m \<and> m \<le> n + k \<and> sync_loop pending clock deadline n = Some m \<and>
    (deadline < clock m \<or> pending m \<le> 0)"
  using assms
proof (induction k arbitrary: n)
  case 0
  then show ?case by (intro exI [of _ n]) (auto simp: sync_loop.simps [of _ _ _ n])
next
  case (Suc k)
  show ?case
  proof (cases "pending n \<le> 0 \<or> deadline < clock n")
    case True
    then show ?thesis by (intro exI [of _ n]) (auto simp: sync_loop.simps [of _ _ _ n])
  next
    case False
    from Suc.IH [of "Suc n"] Suc.prems obtain m where m: "Suc n \<le> m" "m \<le> Suc n + k"
      "sync_loop pending clock deadline (Suc n) = Some m" "deadline < clock m \<or> pending m \<le> 0" by auto
    with False show ?thesis
      by (intro exI [of _ m]) (auto simp: sync_loop.simps [of _ _ _ n])
  qed
qed

lemma sync_timeout_pos: "0 < sync_timeout cfg"
  by (simp add: sync_timeout_def Let_def time_Second_def)

text \<open>
  The work left once \<^verbatim>\<open>Close\<close> has been called: it does not grow, and falls with every step of the
  submitting goroutine.
\<close>

definition sink_work :: "sink \<Rightarrow> nat" where
  "sink_work z =
     3 * length (ch_buf (sk_queue z)) +
     (case sk_worker z of Submitting p \<Rightarrow> 3 | Submitted \<Rightarrow> 2 | Receiving \<Rightarrow> 1 | Gone \<Rightarrow> 0) +
     (if ch_closed (sk_queue z) then 0 else 1)"

lemma closed_work_falls:
  assumes "sink_step env order z z'" and "sk_closed z" and "sink_inv cap z"
  shows "sk_closed z' \<and> sink_work z' \<le> sink_work z"
  using assms
  by (cases rule: sink_step.cases)
    (auto simp: sink_work_def sink_inv_def chan_recv_def chan_close_def split: list.splits if_splits)

lemma closed_work_can_fall:
  assumes inv: "sink_inv cap z" and ci: "closers_inv z" and "sk_closed z" and "sk_worker z \<noteq> Gone"
    and returns: "\<And>p. \<exists>err r. fr_Submit env (Some p) (sk_relay z) = Some (Inr (err, r))"
  shows "\<exists>z'. sink_step env order z z' \<and> sink_work z' < sink_work z"
proof (cases "ch_closed (sk_queue z)")
  case False
  obtain i where "closing (sk_closers z i)" using ci assms(3) by (auto simp: closers_inv_def)
  then have flag: "sk_closers z i = CloseFlagged" using ci False by (auto simp: closers_inv_def closing_def)
  have cl: "chan_close (sk_queue z) = Inr ((sk_queue z)\<lparr>ch_closed := True\<rparr>)" using False by (simp add: chan_close_def)
  show ?thesis by (rule exI, rule conjI, rule close_queue [OF flag cl]) (simp add: sink_work_def False)
next
  case closed: True
  show ?thesis
  proof (cases "sk_worker z")
    case Receiving
    show ?thesis
    proof (cases "ch_buf (sk_queue z)")
      case Nil
      then have rc: "chan_recv (sk_queue z) = RecvClosed" using closed by (simp add: chan_recv_def)
      show ?thesis by (rule exI, rule conjI, rule run_exit [OF Receiving rc]) (simp add: sink_work_def Receiving)
    next
      case (Cons p ps)
      then have rc: "chan_recv (sk_queue z) = Received p ((sk_queue z)\<lparr>ch_buf := ps\<rparr>)" by (simp add: chan_recv_def)
      show ?thesis by (rule exI, rule conjI, rule run_receive [OF Receiving rc]) (simp add: sink_work_def Receiving Cons)
    qed
  next
    case (Submitting p)
    obtain err r where rc: "fr_Submit env (Some p) (sk_relay z) = Some (Inr (err, r))" using returns by blast
    show ?thesis by (rule exI, rule conjI, rule submit_call [OF Submitting rc]) (simp add: sink_work_def Submitting)
  next
    case Submitted
    show ?thesis by (rule exI, rule conjI, rule submit_counted [OF Submitted]) (simp add: sink_work_def Submitted)
  qed (use assms in simp)
qed

subsection \<open>The relay does not panic\<close>

text \<open>
  A session whose send loop has not ended has an open channel. Submissions, the send loop and \<^verbatim>\<open>Stop\<close>,
  which closes a session and lets its loop run to the end, keep it so, and then none of them panics.
\<close>

definition sessions_open :: "'a fr_sys \<Rightarrow> bool" where
  "sessions_open z \<longleftrightarrow> (\<forall>i. \<not> ss_done (fs_sessions z i) \<longrightarrow> \<not> ch_closed (ss_sendCh (fs_sessions z i)))"

lemma sessions_open_simps [simp]:
  "sessions_open (fr_logKV l m kvs z) = sessions_open z" "sessions_open (fs_next z) = sessions_open z"
  "sessions_open (z\<lparr>fs_fr := fr\<rparr>) = sessions_open z" "sessions_open (z\<lparr>fs_fresh := n\<rparr>) = sessions_open z"
  "sessions_open (z\<lparr>fs_cancelled := b\<rparr>) = sessions_open z"
  by (simp_all add: sessions_open_def fr_logKV_def fs_next_def)

lemma sessions_open_put:
  "sessions_open z \<Longrightarrow> \<not> ss_done ss \<longrightarrow> \<not> ch_closed (ss_sendCh ss) \<Longrightarrow> sessions_open (put_session i ss z)"
  by (simp add: sessions_open_def put_session_def)

lemma sessions_open_round:
  "sessions_open z \<Longrightarrow> streamSendLoop_round env i z = Some z' \<Longrightarrow> sessions_open z'"
  by (auto simp: streamSendLoop_round_def Let_def chan_recv_def sessions_open_def put_session_def fr_logKV_def fs_next_def
      split: if_splits list.splits option.splits)

text \<open>The loop of a session whose channel is closed sends what is queued and ends; the others are left alone.\<close>

lemma closed_session_ends:
  assumes "ch_closed (ss_sendCh (fs_sessions z i))" and "length (ch_buf (ss_sendCh (fs_sessions z i))) < n"
  shows "ss_done (fs_sessions (run_send_loop n env i z) i) \<and>
    (\<forall>j. j \<noteq> i \<longrightarrow> fs_sessions (run_send_loop n env i z) j = fs_sessions z j)"
  using assms
proof (induction n arbitrary: z)
  case (Suc n)
  show ?case
  proof (cases "streamSendLoop_round env i z")
    case None
    then show ?thesis
      using Suc.prems(1)
      by (auto simp: streamSendLoop_round_def Let_def chan_recv_def split: if_splits list.splits option.splits)
  next
    case (Some z')
    have others: "fs_sessions z' j = fs_sessions z j" if "j \<noteq> i" for j
      using Some that
      by (auto simp: streamSendLoop_round_def Let_def put_session_def fr_logKV_def fs_next_def
          split: if_splits recv_result.splits option.splits)
    have z': "ss_done (fs_sessions z' i) \<or> ch_closed (ss_sendCh (fs_sessions z' i)) \<and>
        length (ch_buf (ss_sendCh (fs_sessions z' i))) < n"
      using Some Suc.prems
      by (auto simp: streamSendLoop_round_def Let_def chan_recv_def put_session_def fr_logKV_def fs_next_def
          split: if_splits list.splits option.splits)
    show ?thesis
    proof (cases "ss_done (fs_sessions z' i)")
      case True
      then have "run_send_loop n env i z' = z'" by (cases n) (simp_all add: streamSendLoop_round_def Let_def)
      then show ?thesis using True others Some by simp
    next
      case False
      then show ?thesis using Suc.IH [of z'] z' others Some by simp
    qed
  qed
qed simp

lemma session_close_open:
  assumes "sessions_open z"
  shows "\<exists>z'. session_close env reason i z = Inr z' \<and> sessions_open z'"
proof (cases "ss_done (fs_sessions z i)")
  case True
  then show ?thesis using assms by (simp add: session_close_def Let_def)
next
  case False
  let ?ss = "fs_sessions z i"
  have open_ch: "\<not> ch_closed (ss_sendCh ?ss)" using assms False by (simp add: sessions_open_def)
  obtain ch where ch: "chan_try_send (EnvelopeClose reason) (ss_sendCh ?ss) = Inr ch" "\<not> ch_closed ch"
    using open_ch by (cases "length (ch_buf (ss_sendCh ?ss)) < ch_cap (ss_sendCh ?ss)")
      (auto simp: chan_try_send_def chan_send_def)
  let ?ch = "ch\<lparr>ch_closed := True\<rparr>"
  let ?z = "put_session i (?ss\<lparr>ss_sendCh := ?ch\<rparr>) z"
  have eq: "session_close env reason i z = Inr (run_send_loop (Suc (length (ch_buf ?ch))) env i ?z)"
    using False ch by (simp add: session_close_def Let_def chan_close_def)
  have "ss_done (fs_sessions (run_send_loop (Suc (length (ch_buf ?ch))) env i ?z) i) \<and>
      (\<forall>j. j \<noteq> i \<longrightarrow> fs_sessions (run_send_loop (Suc (length (ch_buf ?ch))) env i ?z) j = fs_sessions ?z j)"
    by (rule closed_session_ends) (simp_all add: put_session_def)
  then have "sessions_open (run_send_loop (Suc (length (ch_buf ?ch))) env i ?z)"
    using assms unfolding sessions_open_def by (metis put_session_def fun_upd_other fr_sys.select_convs(2) fr_sys.surjective fr_sys.update_convs(2))
  with eq show ?thesis by blast
qed

lemma close_streams_open:
  "sessions_open z \<Longrightarrow> \<exists>z'. close_streams env reason is z = Inr z' \<and> sessions_open z'"
proof (induction "is" arbitrary: z)
  case (Cons i "is")
  obtain z1 where "session_close env reason i z = Inr z1" "sessions_open z1"
    using session_close_open [OF Cons.prems] by blast
  with Cons.IH [of z1] show ?case by simp
qed simp

lemma fr_Stop_open:
  assumes "sessions_open z"
  shows "\<exists>z'. fr_Stop env order z = Inr z' \<and> sessions_open z'"
proof -
  define y where "y = (fr_logKV InfoLevel ''Forward relay stopping'' [(''event'', LStr ''Stop''), (''result'', LStr ''SUCCESS'')] z)
    \<lparr>fs_cancelled := True\<rparr>"
  have "sessions_open (y\<lparr>fs_fr := (fs_fr y)\<lparr>fr_streams := Map.empty\<rparr>\<rparr>)" using assms by (simp add: y_def)
  from close_streams_open [OF this] obtain z' where
    "closeAllStreams env ''relay stop'' order y = Inr z'" "sessions_open z'"
    unfolding closeAllStreams_def by blast
  then show ?thesis by (simp add: fr_Stop_def y_def)
qed

lemma session_fields:
  "fs_fr (fr_logKV l m kvs z) = fs_fr z" "fs_sessions (fr_logKV l m kvs z) = fs_sessions z"
  "fs_fr (fs_next z) = fs_fr z" "fs_fr (put_session i ss z) = fs_fr z"
  "fs_sessions (put_session i ss z) = (fs_sessions z)(i := ss)"
  by (simp_all add: fr_logKV_def fs_next_def put_session_def)

lemma openStreamSession_open:
  assumes "sessions_open z" and "openStreamSession env a z = (r, z')"
  shows "sessions_open z' \<and> fs_fr z' = fs_fr z \<and> (\<forall>i. r = Inr i \<longrightarrow> \<not> ss_done (fs_sessions z' i))"
  using assms
  by (auto simp: openStreamSession_def Let_def make_chan_def sessions_open_put session_fields split: sum.splits option.splits)

lemma getOrCreateStreamSession_open:
  assumes "sessions_open z"
  shows "\<exists>r z'. getOrCreateStreamSession env a z = Inr (r, z') \<and> sessions_open z' \<and>
    (\<forall>i. r = Inr i \<longrightarrow> \<not> ss_done (fs_sessions z' i))"
proof -
  define z1 where "z1 = ensureStreamsInit z"
  have z1: "sessions_open z1" using assms by (simp add: z1_def ensureStreamsInit_def)
  define z2 where "z2 = z1\<lparr>fs_fr := (fs_fr z1)\<lparr>fr_streams := (fr_streams (fs_fr z1))(a := None)\<rparr>\<rparr>"
  have z2: "sessions_open z2" "fr_streams (fs_fr z2) a = None" using z1 by (simp_all add: z2_def)
  obtain r z3 where o: "openStreamSession env a z2 = (r, z3)" by fastforce
  note z3 = openStreamSession_open [OF z2(1) o]
  show ?thesis
  proof (cases "\<exists>i. fr_streams (fs_fr z1) a = Some i \<and> \<not> ss_done (fs_sessions z1 i)")
    case True
    then show ?thesis using z1 by (auto simp: getOrCreateStreamSession_def Let_def z1_def [symmetric])
  next
    case False
    then have "getOrCreateStreamSession env a z =
        (case r of
           Inl err \<Rightarrow> Inr (Inl err, z3)
         | Inr i \<Rightarrow> Inr (Inr i, z3\<lparr>fs_fr := (fs_fr z3)\<lparr>fr_streams := (fr_streams (fs_fr z3))(a \<mapsto> i)\<rparr>\<rparr>))"
      using z2(2) z3
      by (auto simp: getOrCreateStreamSession_def Let_def z1_def [symmetric] z2_def [symmetric] o split: option.splits sum.splits)
    then show ?thesis using z3 by (cases r) auto
  qed
qed

lemma enqueue_open:
  assumes "sessions_open z" and "\<not> ss_done (fs_sessions z i)" and "enqueue env i e z = Some r"
  shows "\<exists>err z'. r = Inr (err, z') \<and> sessions_open z'"
proof -
  have "\<not> ch_closed (ss_sendCh (fs_sessions z i))" using assms(1,2) by (simp add: sessions_open_def)
  then have "chan_send e (ss_sendCh (fs_sessions z i)) = SendBlocks \<or>
      (\<exists>ch. chan_send e (ss_sendCh (fs_sessions z i)) = Sent ch \<and> \<not> ch_closed ch)"
    by (simp add: chan_send_def)
  then consider "chan_send e (ss_sendCh (fs_sessions z i)) = SendBlocks"
    | ch where "chan_send e (ss_sendCh (fs_sessions z i)) = Sent ch" "\<not> ch_closed ch"
    by blast
  then show ?thesis
  proof cases
    case 1
    then show ?thesis
      using assms
      by (auto simp: enqueue_def Let_def split: option.splits enqueue_case.splits dest!: select_pick_mem split: if_splits)
  next
    case 2
    then show ?thesis
      using assms
      by (auto simp: enqueue_def Let_def sessions_open_put split: option.splits enqueue_case.splits)
  qed
qed

lemma submit_targets_open:
  assumes "sessions_open z" and "submit_targets env wp as z = Some r"
  shows "\<exists>err z'. r = Inr (err, z') \<and> sessions_open z'"
  using assms
proof (induction "as" arbitrary: z)
  case (Cons a "as")
  obtain g z1 where g: "getOrCreateStreamSession env a z = Inr (g, z1)" "sessions_open z1"
      "\<And>i. g = Inr i \<Longrightarrow> \<not> ss_done (fs_sessions z1 i)"
    using getOrCreateStreamSession_open [OF Cons.prems(1)] by blast
  show ?case
  proof (cases g)
    case (Inl err)
    define y where "y = fr_logKV ErrorLevel ''Submit: stream setup failed''
      [(''event'', LStr ''Submit''), (''result'', LStr ''FAILURE''), (''target'', LStr a), (''error'', LErr (Some err))] z1"
    have "submit_targets env wp as y = Some r" using Cons.prems(2) Inl by (simp add: g(1) y_def)
    moreover have "sessions_open y" using g(2) by (simp add: y_def)
    ultimately show ?thesis by (rule Cons.IH [rotated])
  next
    case (Inr i)
    then obtain q where q: "enqueue env i (EnvelopePayload wp) z1 = Some q"
      using Cons.prems(2) g(1) by (cases "enqueue env i (EnvelopePayload wp) z1") auto
    obtain err z2 where e: "q = Inr (err, z2)" "sessions_open z2"
      using enqueue_open [OF g(2) g(3) [OF Inr] q] by blast
    show ?thesis
    proof (cases err)
      case None
      define y where "y = fr_logKV DebugLevel ''Submit: enqueued''
        [(''event'', LStr ''Submit''), (''result'', LStr ''ENQUEUED''), (''target'', LStr a),
         (''id'', LStr (wp_Id wp)), (''seq'', LInt (int (wp_Seq wp))),
         (''payload_type'', LStr (wp_PayloadType wp)), (''payload_encoding'', LInt (wp_PayloadEncoding wp)),
         (''payload_bytes'', LInt (int (length (wp_Payload wp))))] z2"
      have "submit_targets env wp as y = Some r" using Cons.prems(2) Inr None by (simp add: g(1) q e(1) y_def)
      moreover have "sessions_open y" using e(2) by (simp add: y_def)
      ultimately show ?thesis by (rule Cons.IH [rotated])
    next
      case (Some x)
      then have "r = Inr (Some x, z2)" using Cons.prems(2) g(1) Inr q e by simp
      then show ?thesis using e(2) by simp
    qed
  qed
qed auto

lemma fr_Submit_open:
  assumes "sessions_open z" and "fr_Submit env item z = Some r"
  shows "\<exists>err z'. r = Inr (err, z') \<and> sessions_open z'"
proof -
  obtain q z1 where q: "prepare_payload env item z = (q, z1)" by fastforce
  then have "sessions_open z1"
    using assms(1) by (auto simp: prepare_payload_def Let_def split: if_splits sum.splits)
  then show ?thesis
    using assms(2) submit_targets_open [of z1] by (cases q) (auto simp: fr_Submit_def q)
qed

lemma sink_calm_step:
  assumes "sink_step env order z z'" and "sink_inv cap z" and "closers_inv z"
    and "sessions_open (sk_relay z)" and "sk_panicked z = None"
  shows "sessions_open (sk_relay z') \<and> sk_panicked z' = None"
  using assms(1)
proof cases
  case (write_panics i p)
  then have "ch_closed (sk_queue z)" "\<not> sk_closed z" by (auto simp: chan_send_def split: if_splits)
  then have False using assms(3) unfolding closers_inv_def closing_def by blast
  then show ?thesis ..
next
  case (close_panics i pn)
  then have "ch_closed (sk_queue z)" by (auto simp: chan_close_def split: if_splits)
  then obtain j where "sk_closers z j = Draining \<or> sk_closers z j = ClosedDown" using assms(3) unfolding closers_inv_def by blast
  moreover from this have "i = j"
    using assms(3) close_panics(2) unfolding closers_inv_def closing_def by blast
  ultimately show ?thesis using close_panics(2) by auto
next
  case (close_done i r)
  then show ?thesis using fr_Stop_open [OF assms(4), of env order] assms(5) by auto
next
  case (stop_panics i pn)
  then show ?thesis using fr_Stop_open [OF assms(4), of env order] by auto
next
  case (submit_call p err r)
  then show ?thesis using fr_Submit_open [OF assms(4)] assms(5) by fastforce
next
  case (submit_panics p pn)
  then show ?thesis using fr_Submit_open [OF assms(4)] by fastforce
next
  case (relay_sends i r)
  then show ?thesis using sessions_open_round [OF assms(4)] assms(5) by auto
qed (use assms(4,5) in simp_all)

lemma sink_calm_reach:
  assumes "sink_reach env order (new_sink cfg fr) z" and "queueSize cfg < 2 ^ 61" and "sessions_open fr"
  shows "sessions_open (sk_relay z) \<and> sk_panicked z = None"
  using assms(1)
proof (induction rule: sink_reach.induct)
  case sink_start
  then show ?case using assms(3) by (simp add: new_sink_def Let_def)
next
  case (sink_next z z')
  then show ?case
    using sink_calm_step sink_inv_reach [OF sink_next.hyps(1) assms(2)] by blast
qed

subsection \<open>Configuration\<close>

lemma bind_cfg_Inr: "bind_cfg r f = Inr v \<longleftrightarrow> (\<exists>u. r = Inr u \<and> f u = Inr v)"
  by (simp add: bind_cfg_def split: sum.splits)

lemma TrimSpace_hd_last:
  assumes "TrimSpace s \<noteq> []"
  shows "\<not> ascii_space (hd (TrimSpace s))" and "\<not> ascii_space (last (TrimSpace s))"
proof -
  define t where "t = dropWhile ascii_space s"
  define u where "u = dropWhile ascii_space (rev t)"
  have u: "TrimSpace s = rev u" "u \<noteq> []" using assms by (simp_all add: TrimSpace_def t_def u_def)
  have tu: "rev t = takeWhile ascii_space (rev t) @ u" by (simp add: u_def)
  then have "t = rev u @ rev (takeWhile ascii_space (rev t))" by (metis rev_append rev_rev_ident)
  then have "hd t = hd (rev u)" "t \<noteq> []" using u(2) by (metis hd_append2 rev_is_Nil_conv) (use u(2) tu in auto)
  then show "\<not> ascii_space (hd (TrimSpace s))"
    using hd_dropWhile [of ascii_space s] by (simp add: u t_def)
  show "\<not> ascii_space (last (TrimSpace s))"
    using hd_dropWhile [of ascii_space "rev t"] u by (simp add: u_def last_rev)
qed

subsection \<open>Properties\<close>

text \<open>
  C34: whatever the goroutines that log, the submitting goroutine and any number of calls of \<^verbatim>\<open>Close\<close> do in
  whatever order, payloads are submitted in the order in which they were queued, none twice, and at most as
  many wait as the queue holds and one more. Nothing panics: no payload is sent to the closed queue, the queue is
  closed once, and neither the relay's \<^verbatim>\<open>Submit\<close> nor its \<^verbatim>\<open>Stop\<close> meets a closed channel, when no running session of
  the relay had a closed channel at the start (a new relay has no session). Once the call of \<^verbatim>\<open>Close\<close> that
  closed the queue has returned, everything that was queued has been submitted.
\<close>
theorem log_sink_submits_in_order:
  assumes "sink_reach env order (new_sink cfg fr) z" and "queueSize cfg < 2 ^ 61"
    and "\<forall>i. \<not> ss_done (fs_sessions fr i) \<longrightarrow> \<not> ch_closed (ss_sendCh (fs_sessions fr i))"
  shows "(\<exists>ps. sk_accepted z = sk_submitted z @ ps \<and> int (length ps) \<le> max 1 (queueSize cfg) + 1) \<and>
    sk_panicked z = None \<and>
    (\<forall>i. sk_closers z i = ClosedDown \<longrightarrow> sk_submitted z = sk_accepted z)"
proof -
  have inv: "sink_inv (nat (max 1 (queueSize cfg))) z" and ci: "closers_inv z"
    using sink_inv_reach [OF assms(1,2)] by blast+
  then have acc: "sk_accepted z = sk_submitted z @ hand z @ ch_buf (sk_queue z)" unfolding sink_inv_def by blast
  have "length (ch_buf (sk_queue z)) \<le> nat (max 1 (queueSize cfg))" using inv unfolding sink_inv_def chan_ok_def by metis
  moreover have "length (hand z) \<le> 1" by (simp add: hand_def split: sink_worker.split)
  ultimately have len: "int (length (hand z @ ch_buf (sk_queue z))) \<le> max 1 (queueSize cfg) + 1" by simp
  have "sk_submitted z = sk_accepted z" if "sk_closers z i = ClosedDown" for i
  proof -
    have "sk_worker z = Gone" using ci that unfolding closers_inv_def by blast
    then show ?thesis using inv acc by (simp add: sink_inv_def hand_def)
  qed
  moreover have "sk_panicked z = None"
    using sink_calm_reach [OF assms(1,2)] assms(3) unfolding sessions_open_def by blast
  ultimately show ?thesis using acc len by blast
qed

text \<open>
  \<^verbatim>\<open>Sync\<close> returns: with a clock that advances by the ten milliseconds of each sleep, within the
  timeout and one sleep. When it returns before its deadline, every payload whose \<^verbatim>\<open>Write\<close> had returned when
  \<^verbatim>\<open>Sync\<close> was called has been submitted, although the counter is raised only after the payload is in the queue.
\<close>
theorem sync_returns_and_flushes:
  assumes start: "sink_reach env order (new_sink cfg fr) (zs 0)" and "queueSize cfg < 2 ^ 61"
    and runs: "\<And>n. sink_reach env order (zs n) (zs (Suc n))"
    and clock: "\<And>n. now + int n * 10000000 \<le> clock n"
  shows "\<exists>n. sink_Sync cfg now (\<lambda>k. sk_pending (zs k)) clock = Some n \<and>
    int n * 10000000 \<le> sync_timeout cfg + 10000000 \<and>
    (now + sync_timeout cfg < clock n \<or> (\<exists>ps. sk_submitted (zs n) = sk_returned (zs 0) @ ps))"
proof -
  let ?d = "now + sync_timeout cfg" and ?k = "Suc (nat (sync_timeout cfg div 10000000))"
  have t: "0 < sync_timeout cfg" by (rule sync_timeout_pos)
  have k: "int ?k = sync_timeout cfg div 10000000 + 1" using t by (simp add: pos_imp_zdiv_nonneg_iff)
  have "sync_timeout cfg = sync_timeout cfg div 10000000 * 10000000 + sync_timeout cfg mod 10000000" by simp
  moreover have "sync_timeout cfg mod 10000000 < 10000000" by simp
  ultimately have "sync_timeout cfg < int ?k * 10000000" unfolding k distrib_right by linarith
  then have "?d < clock (0 + ?k)" using clock [of ?k] by simp
  from sync_loop_returns [of ?d clock 0 ?k "\<lambda>k. sk_pending (zs k)", OF this] obtain n where n: "n \<le> ?k"
    "sync_loop (\<lambda>k. sk_pending (zs k)) clock ?d 0 = Some n" "?d < clock n \<or> sk_pending (zs n) \<le> 0" by auto
  have "int n \<le> int ?k" using n(1) by (simp only: of_nat_le_iff)
  then have "int n * 10000000 \<le> (sync_timeout cfg div 10000000 + 1) * 10000000" unfolding k by simp
  moreover have "sync_timeout cfg div 10000000 * 10000000 \<le> sync_timeout cfg" by simp
  ultimately have bound: "int n * 10000000 \<le> sync_timeout cfg + 10000000" unfolding distrib_right by linarith
  have trans: "sink_reach env order a c" if "sink_reach env order b c" "sink_reach env order a b" for a b c
    using that by (induction rule: sink_reach.induct) (auto intro: sink_next)
  have "sink_reach env order (zs 0) (zs m)" for m
    by (induction m) (auto intro: sink_start trans [OF runs])
  then have from0: "sink_reach env order (zs 0) (zs n)" .
  have "\<exists>ps. sk_submitted (zs n) = sk_returned (zs 0) @ ps" if "sk_pending (zs n) \<le> 0"
    using flushed [OF conjunct1 [OF sink_inv_reach [OF trans [OF from0 start] assms(2)]] that] returned_mono [OF from0] by auto
  with n(2,3) bound show ?thesis by (auto simp: sink_Sync_def time_Add_def)
qed

text \<open>
  \<^verbatim>\<open>Close\<close> comes to an end when submissions return: once it has been called no step adds to the work
  that is left, some step takes from it until the submitting goroutine is gone, and then the work is
  nil.
\<close>
theorem close_drains_the_queue:
  assumes reach: "sink_reach env order (new_sink cfg fr) z" and "queueSize cfg < 2 ^ 61" and "sk_closed z"
    and returns: "\<And>p. \<exists>err r. fr_Submit env (Some p) (sk_relay z) = Some (Inr (err, r))"
  shows "(\<forall>z'. sink_step env order z z' \<longrightarrow> sk_closed z' \<and> sink_work z' \<le> sink_work z) \<and>
    (if sk_worker z = Gone then sink_work z = 0
     else \<exists>z'. sink_step env order z z' \<and> sink_work z' < sink_work z)"
proof -
  have inv: "sink_inv (nat (max 1 (queueSize cfg))) z" and ci: "closers_inv z"
    using sink_inv_reach [OF assms(1,2)] by blast+
  have "sink_work z = 0" if "sk_worker z = Gone" using inv that by (simp add: sink_inv_def sink_work_def)
  with closed_work_falls [OF _ assms(3) inv] closed_work_can_fall [OF inv ci assms(3) _ returns] show ?thesis by auto
qed

lemma parsed_settings:
  assumes "parseRelaySinkConfig oor (Some m) = Inr cfg"
  shows "parseTargets (case map_of m ''targets'' of None \<Rightarrow> ANil | Some raw \<Rightarrow> raw) = Inr (targets cfg)"
    and "targets cfg \<noteq> []"
    and "setting m ''queue_size''
       (\<lambda>raw. case sink_parseInt oor raw of Some n \<Rightarrow> if n < 1 then None else Some n | None \<Rightarrow> None)
       (Err ''relay sink queue_size invalid'') 2048 = Inr (queueSize cfg)"
    and "setting m ''drop_on_full'' sink_parseBool (Err ''relay sink drop_on_full invalid'') True = Inr (dropOnFull cfg)"
    and "setting m ''submit_timeout'' (sink_parseDuration oor) (Err ''relay sink submit_timeout invalid'') (2 * time_Second) =
       Inr (submitTimeout cfg)"
    and "setting m ''flush_timeout'' (sink_parseDuration oor) (Err ''relay sink flush_timeout invalid'') (2 * time_Second) =
       Inr (flushTimeout cfg)"
    and "setting m ''auth_required'' sink_parseBool (Err ''relay sink auth_required invalid'') True = Inr (authRequired cfg)"
    and "(case map_of m ''tls'' of None \<Rightarrow> Inr None | Some raw \<Rightarrow> parseTLSConfig raw) = Inr (tlsConfig cfg)"
    and "token_setting m = Inr (tokenSource cfg)"
  using assms by (auto simp: parseRelaySinkConfig_def bind_cfg_Inr split: if_splits)

lemma setting_default: "setting m k f e d = Inr v \<Longrightarrow> map_of m k = None \<Longrightarrow> v = d"
  by (simp add: setting_def)

lemma parseTLSConfig_complete:
  "parseTLSConfig raw = Inr (Some c) \<Longrightarrow> UseTLS c \<and> CertFile c \<noteq> '''' \<and> KeyFile c \<noteq> '''' \<and> CAFile c \<noteq> ''''"
  by (auto simp: parseTLSConfig_def bind_cfg_Inr Let_def split: option.splits if_splits any.splits)

text \<open>
  A configuration that is accepted is usable: there are targets, none empty or with white space around it,
  the queue has room, TLS is either off or complete, and at most one kind of token was given. Each optional
  setting that is absent has its documented default.
\<close>
theorem accepted_sink_config_is_usable:
  assumes "parseRelaySinkConfig oor config = Inr cfg"
  shows "targets cfg \<noteq> [] \<and>
    list_all (\<lambda>t. t \<noteq> '''' \<and> \<not> ascii_space (hd t) \<and> \<not> ascii_space (last t)) (targets cfg) \<and>
    1 \<le> queueSize cfg \<and>
    (case tlsConfig cfg of None \<Rightarrow> True
     | Some c \<Rightarrow> UseTLS c \<and> CertFile c \<noteq> '''' \<and> KeyFile c \<noteq> '''' \<and> CAFile c \<noteq> '''') \<and>
    (case config of None \<Rightarrow> False | Some m \<Rightarrow>
      (map_of m ''bearer_token'' = None \<or> map_of m ''bearer_token_env'' = None) \<and>
      (map_of m ''queue_size'' = None \<longrightarrow> queueSize cfg = 2048) \<and>
      (map_of m ''drop_on_full'' = None \<longrightarrow> dropOnFull cfg) \<and>
      (map_of m ''auth_required'' = None \<longrightarrow> authRequired cfg) \<and>
      (map_of m ''submit_timeout'' = None \<longrightarrow> submitTimeout cfg = 2 * time_Second) \<and>
      (map_of m ''flush_timeout'' = None \<longrightarrow> flushTimeout cfg = 2 * time_Second) \<and>
      (map_of m ''tls'' = None \<longrightarrow> tlsConfig cfg = None))"
proof -
  have normal: "list_all (\<lambda>t. t \<noteq> '''' \<and> \<not> ascii_space (hd t) \<and> \<not> ascii_space (last t)) (normalizeTargets ts)" for ts
    by (auto simp: normalizeTargets_def list_all_iff TrimSpace_hd_last)
  have parsed: "list_all (\<lambda>t. t \<noteq> '''' \<and> \<not> ascii_space (hd t) \<and> \<not> ascii_space (last t)) ts" if "parseTargets raw = Inr ts" for raw ts
    using that by (cases raw) (auto simp: parseTargets_def splitTargets_def normal split: option.splits)
  from assms obtain m where m: "config = Some m" by (auto simp: parseRelaySinkConfig_def split: option.splits)
  note p = parsed_settings [OF assms [unfolded m]]
  have size: "1 \<le> queueSize cfg" using p(3) by (auto simp: setting_def split: option.splits if_splits)
  have tok: "map_of m ''bearer_token'' = None \<or> map_of m ''bearer_token_env'' = None"
    using p(9) by (auto simp: token_setting_def split: option.splits)
  have tl: "case tlsConfig cfg of None \<Rightarrow> True
     | Some c \<Rightarrow> UseTLS c \<and> CertFile c \<noteq> '''' \<and> KeyFile c \<noteq> '''' \<and> CAFile c \<noteq> ''''"
    using p(8) by (auto split: option.splits dest: parseTLSConfig_complete)
  have tl0: "map_of m ''tls'' = None \<longrightarrow> tlsConfig cfg = None" using p(8) by auto
  show ?thesis
    using p(2) size tok parsed [OF p(1)] tl tl0 setting_default [OF p(3)] setting_default [OF p(4)]
      setting_default [OF p(5)] setting_default [OF p(6)] setting_default [OF p(7)]
    by (simp add: m)
qed

subsection \<open>A run\<close>

text \<open>
  A sink of one payload, whose relay finds its target down, so that each submission returns after
  logging the failure.
\<close>

definition sample_settings :: "(string \<times> any) list" where
  "sample_settings =
     [(''targets'', AString ''a:1, b:2''), (''queue_size'', AString ''1''), (''flush_timeout'', AString ''300ms'')]"

definition sample_sink_config :: relay_sink_config where
  "sample_sink_config =
     \<lparr>targets = [''a:1'', ''b:2''], tlsConfig = None, staticHeaders = [], tokenSource = None, authRequired = True,
      queueSize = 1, submitTimeout = 2 * time_Second, flushTimeout = 300000000, dropOnFull = True\<rparr>"

lemma sample_settings_parsed: "parseRelaySinkConfig oor (Some sample_settings) = Inr sample_sink_config"
proof -
  have "ParseDuration (''300'' @ ''ms'') = Some (int (300 * 1000000))"
    by (rule ParseDuration_whole)
      (auto simp: parse_digits_def digit_value_def unit_of_def in_unit_def is_digit_def Let_def)
  then have "ParseDuration ''300ms'' = Some 300000000" by simp
  then show ?thesis
    by (simp add: parseRelaySinkConfig_def sample_settings_def sample_sink_config_def parseTargets_def splitTargets_def
        Split_char_def normalizeTargets_def TrimSpace_def ascii_space_def bind_cfg_def setting_def sink_parseInt_def Atoi_def
        ParseInt64_def parse_digits_def digit_value_def is_i64_def sink_parseDuration_def token_setting_def Let_def)
qed

definition down_env :: "wrapped_payload option relay_env" where
  "down_env =
     \<lparr>env_lib =
        (let bad = Err ''not used'' in
         \<lparr>gob_Encode = (\<lambda>d. Inl bad), gob_Decode = (\<lambda>b z. (z, Some bad)), json_Marshal = (\<lambda>d. Inl bad),
          json_Unmarshal = (\<lambda>b z. (z, Some bad)), proto_name = None, proto_Marshal = (\<lambda>d. Inl bad),
          proto_Unmarshal = (\<lambda>b z. (z, Some bad)), as_octets = None, lib_compress = (\<lambda>alg d. Inl bad),
          lib_decompress = (\<lambda>alg d. Inl bad), gcm_Seal = (\<lambda>k n d. d), gcm_Open = (\<lambda>k n c. Inl bad),
          pass_as = IsPointer id Some\<rparr>),
      env_now = (\<lambda>_. 0), env_stamp = (\<lambda>_. ''t''), env_nonce = (\<lambda>_. Inl (Err ''not used'')), env_hash = (\<lambda>_. ''h''),
      env_md = Map.empty, env_tls = None, env_dial = (\<lambda>_ _. Some (Err ''refused'')), env_open = (\<lambda>_ _. None),
      env_send = (\<lambda>_ _. None), env_select = (\<lambda>_. 0), env_ctx_done = (\<lambda>_. False)\<rparr>"

definition down_relay :: "wrapped_payload option fr_sys \<Rightarrow> bool" where
  "down_relay r \<longleftrightarrow>
     fr_passthrough (fs_fr r) \<and> fr_streams (fs_fr r) = Map.empty \<and> fr_TlsConfig (fs_fr r) = None \<and>
     fr_tokenSource (fs_fr r) = None"

lemma down_relay_simps [simp]:
  "down_relay (fr_logKV l m kvs r) = down_relay r" "down_relay (fs_next r) = down_relay r"
  "down_relay (r\<lparr>fs_fr := (fs_fr r)\<lparr>fr_streamSendBuf := n\<rparr>\<rparr>) = down_relay r"
  "down_relay r \<Longrightarrow> down_relay (r\<lparr>fs_fr := (fs_fr r)\<lparr>fr_streams := Map.empty\<rparr>\<rparr>)"
  by (simp_all add: down_relay_def fr_logKV_def fs_next_def)

lemma down_session:
  assumes "down_relay r"
  shows "\<exists>err r'. getOrCreateStreamSession down_env a r = Inr (Inl err, r') \<and> down_relay r'"
proof -
  define r1 where "r1 = ensureStreamsInit r"
  have r1: "down_relay r1" using assms by (simp add: r1_def ensureStreamsInit_def)
  define r2 where "r2 = r1\<lparr>fs_fr := (fs_fr r1)\<lparr>fr_streams := (fr_streams (fs_fr r1))(a := None)\<rparr>\<rparr>"
  have r2: "down_relay r2" using r1 by (simp add: r2_def down_relay_def)
  obtain md where "buildPerRPCContext down_env (fs_tick r2) (fs_fr r2) = Inr md"
    using r2 by (auto simp: buildPerRPCContext_def down_relay_def Let_def)
  moreover have "makeDialOptions down_env (fs_fr r2) = Inr False"
    using r2 by (simp add: makeDialOptions_def down_relay_def)
  moreover have "env_dial down_env t a = Some (Err ''refused'')" for t by (simp add: down_env_def)
  ultimately have "\<exists>err. openStreamSession down_env a r2 = (Inl err, fs_next r2)"
    by (simp add: openStreamSession_def Let_def)
  moreover have "fr_streams (fs_fr r1) a = None" using r1 by (simp add: down_relay_def)
  ultimately show ?thesis
    using r2 by (auto simp: getOrCreateStreamSession_def Let_def r1_def [symmetric] r2_def [symmetric])
qed

lemma down_targets:
  "down_relay r \<Longrightarrow> \<exists>r'. submit_targets down_env wp as r = Some (Inr (None, r')) \<and> down_relay r'"
proof (induction as arbitrary: r)
  case (Cons a as)
  from down_session [OF Cons.prems, of a] obtain err r' where r':
    "getOrCreateStreamSession down_env a r = Inr (Inl err, r')" "down_relay r'" by auto
  have "down_relay (fr_logKV ErrorLevel ''Submit: stream setup failed''
      [(''event'', LStr ''Submit''), (''result'', LStr ''FAILURE''), (''target'', LStr a), (''error'', LErr (Some err))] r')"
    using r'(2) by simp
  from Cons.IH [OF this] show ?case by (simp add: r'(1))
qed simp

lemma down_submits:
  assumes "down_relay r"
  shows "\<exists>r'. fr_Submit down_env (Some p) r = Some (Inr (None, r')) \<and> down_relay r'"
proof -
  have "prepare_payload down_env (Some p) r = (Inr p, r)"
    using assms by (simp add: prepare_payload_def down_relay_def asPassthroughPayload_def down_env_def Let_def)
  with down_targets [OF assms] show ?thesis by (simp add: fr_Submit_def)
qed

definition sample_relay :: "wrapped_payload option fr_sys" where
  "sample_relay = new_fr_sys ((NewForwardRelay_base ''h'')\<lparr>Targets := [''a:1'', ''b:2''], fr_passthrough := True\<rparr>)"

lemma sample_relay_down: "down_relay sample_relay"
  by (simp add: sample_relay_def new_fr_sys_def NewForwardRelay_base_def down_relay_def)

text \<open>One goroutine writes a line, which is submitted; a second line waits in the queue when \<^verbatim>\<open>Close\<close> is called.\<close>

lemma sample_sink_run:
  obtains z1 z2 p q where "sink_reach down_env order (new_sink sample_sink_config sample_relay) z1"
    and "sk_returned z1 = [p]" and "sk_submitted z1 = [p]" and "sk_pending z1 = 0"
    and "sink_reach down_env order (new_sink sample_sink_config sample_relay) z2"
    and "sk_closed z2" and "sk_worker z2 = Receiving" and "sk_submitted z2 = [p]" and "sk_accepted z2 = [p, q]"
    and "down_relay (sk_relay z2)"
proof -
  let ?R = "sink_reach down_env order (new_sink sample_sink_config sample_relay)"
  define p where "p = newPayload 0 ''t'' [1]"
  define q where "q = newPayload 1 ''u'' [2]"
  define start where "start = new_sink sample_sink_config sample_relay"
  have s0: "sk_writers start 0 = Outside" "sk_writeMu start = None" "sk_closed start = False" "sk_worker start = Receiving"
    "sk_queue start = make_chan 1" "sk_pending start = 0" "sk_accepted start = []" "sk_returned start = []"
    "sk_submitted start = []" "sk_relay start = sample_relay" "sk_closers start = (\<lambda>_. NotCalled)" "sk_panicked start = None"
    by (simp_all add: start_def new_sink_def sample_sink_config_def Let_def)
  define a where "a = write_to 0 (HoldingLine p) start"
  define b where "b = write_to 0 (Queued p) (a\<lparr>sk_queue := (make_chan 1)\<lparr>ch_buf := [p]\<rparr>, sk_accepted := [p]\<rparr>)"
  define c where "c = write_to 0 Outside (b\<lparr>sk_pending := 1, sk_returned := [p]\<rparr>)"
  define d where "d = c\<lparr>sk_queue := make_chan 1, sk_worker := Submitting p\<rparr>"
  obtain r where r: "fr_Submit down_env (Some p) sample_relay = Some (Inr (None, r))" "down_relay r"
    using down_submits [OF sample_relay_down] by blast
  define e where "e = d\<lparr>sk_relay := r, sk_worker := Submitted, sk_submitted := [p]\<rparr>"
  define f where "f = e\<lparr>sk_pending := 0, sk_worker := Receiving\<rparr>"
  define g where "g = write_to 0 (HoldingLine q) f"
  define h where "h = write_to 0 (Queued q) (g\<lparr>sk_queue := (make_chan 1)\<lparr>ch_buf := [q]\<rparr>, sk_accepted := [p, q]\<rparr>)"
  define i where "i = write_to 0 Outside (h\<lparr>sk_pending := 1, sk_returned := [p, q]\<rparr>)"
  define j1 where "j1 = close_to 7 CloseHolding i"
  define j2 where "j2 = close_to 7 CloseFlagged (j1\<lparr>sk_closed := True\<rparr>)"
  define j where "j = close_to 7 Draining (j2\<lparr>sk_queue := (make_chan 1)\<lparr>ch_buf := [q], ch_closed := True\<rparr>\<rparr>)"
  note mk = make_chan_def
  note go = sink_next [of down_env order "new_sink sample_sink_config sample_relay"]
  have "?R start" unfolding start_def by (rule sink_start)
  then have "?R a" by (rule go) (auto simp: a_def p_def intro: write_lock s0)
  then have "?R b" by (rule go) (use write_sent [of a 0 p "(make_chan 1)\<lparr>ch_buf := [p]\<rparr>" down_env order] in \<open>auto simp: a_def b_def s0 chan_send_def mk\<close>)
  then have "?R c" by (rule go) (use write_counted [of b 0 p down_env order] in \<open>auto simp: a_def b_def c_def s0 is_i64_def\<close>)
  then have "?R d" by (rule go) (use run_receive [of c p "make_chan 1" down_env order] in \<open>auto simp: a_def b_def c_def d_def s0 chan_recv_def mk\<close>)
  then have "?R e" by (rule go) (use submit_call [of d p down_env None r order] r(1) in \<open>auto simp: a_def b_def c_def d_def e_def s0\<close>)
  then have f: "?R f" by (rule go) (use submit_counted [of e down_env order] in \<open>auto simp: a_def b_def c_def d_def e_def f_def s0 is_i64_def\<close>)
  note fs = a_def b_def c_def d_def e_def f_def
  from f have "?R g" by (rule go) (auto simp: g_def q_def fs s0 intro!: write_lock)
  then have "?R h" by (rule go) (use write_sent [of g 0 q "(make_chan 1)\<lparr>ch_buf := [q]\<rparr>" down_env order] in \<open>auto simp: fs g_def h_def s0 chan_send_def mk\<close>)
  then have "?R i" by (rule go) (use write_counted [of h 0 q down_env order] in \<open>auto simp: fs g_def h_def i_def s0 is_i64_def\<close>)
  then have "?R j1" by (rule go) (use close_lock [of i 7 down_env order] in \<open>auto simp: fs g_def h_def i_def j1_def s0\<close>)
  then have "?R j2" by (rule go) (use close_flag [of j1 7 down_env order] in \<open>auto simp: fs g_def h_def i_def j1_def j2_def s0\<close>)
  then have j: "?R j"
    by (rule go) (use close_queue [of j2 7 "(make_chan 1)\<lparr>ch_buf := [q], ch_closed := True\<rparr>" down_env order]
        in \<open>auto simp: fs g_def h_def i_def j1_def j2_def j_def s0 chan_close_def mk\<close>)
  show thesis
    by (rule that [of f p j q]) (use f j r in \<open>auto simp: fs g_def h_def i_def j1_def j2_def j_def s0\<close>)
qed

theorem log_sink_submits_in_order_witness:
  "\<exists>z p q. sink_reach down_env [] (new_sink sample_sink_config sample_relay) z \<and> sk_accepted z = [p, q] \<and> sk_closed z \<and>
     sk_panicked z = None \<and> (\<exists>ps. sk_accepted z = sk_submitted z @ ps \<and> int (length ps) \<le> 2)"
proof -
  obtain z1 z2 p q where run: "sink_reach down_env [] (new_sink sample_sink_config sample_relay) z2"
    "sk_accepted z2 = [p, q]" "sk_submitted z2 = [p]" "sk_closed z2" by (rule sample_sink_run)
  have "\<forall>i. \<not> ss_done (fs_sessions sample_relay i) \<longrightarrow> \<not> ch_closed (ss_sendCh (fs_sessions sample_relay i))"
    by (simp add: sample_relay_def new_fr_sys_def)
  then show ?thesis
    using run log_sink_submits_in_order [OF run(1)] by (intro exI [of _ z2] exI [of _ p] exI [of _ q]) (simp add: sample_sink_config_def)
qed

theorem sync_returns_and_flushes_witness:
  "\<exists>z p. sink_reach down_env [] (new_sink sample_sink_config sample_relay) z \<and> sk_returned z = [p] \<and>
     (\<exists>n. sink_Sync sample_sink_config 5 (\<lambda>k. sk_pending z) (\<lambda>k. 5 + int k * 10000000) = Some n \<and>
        int n * 10000000 \<le> 310000000)"
proof -
  obtain z p where run: "sink_reach down_env [] (new_sink sample_sink_config sample_relay) z" "sk_returned z = [p]"
    by (rule sample_sink_run)
  have "sync_timeout sample_sink_config = 300000000" by (simp add: sync_timeout_def sample_sink_config_def)
  moreover have "queueSize sample_sink_config < 2 ^ 61" by (simp add: sample_sink_config_def)
  moreover have "sink_reach down_env [] z z" by (rule sink_start)
  ultimately show ?thesis
    using run sync_returns_and_flushes [of down_env "[]" sample_sink_config sample_relay "\<lambda>_. z" 5 "\<lambda>k. 5 + int k * 10000000"]
    by auto
qed

theorem close_drains_the_queue_witness:
  "\<exists>z z'. sink_reach down_env [] (new_sink sample_sink_config sample_relay) z \<and> sk_closed z \<and>
     sink_step down_env [] z z' \<and> sink_work z' < sink_work z"
proof -
  obtain z2 where run: "sink_reach down_env [] (new_sink sample_sink_config sample_relay) z2" "sk_closed z2"
    "sk_worker z2 = Receiving" "down_relay (sk_relay z2)" by (rule sample_sink_run)
  have "\<exists>err r. fr_Submit down_env (Some p) (sk_relay z2) = Some (Inr (err, r))" for p
    using down_submits [OF run(4)] by blast
  moreover have "queueSize sample_sink_config < 2 ^ 61" by (simp add: sample_sink_config_def)
  ultimately show ?thesis using run close_drains_the_queue [OF run(1) _ run(2)] by auto
qed

theorem accepted_sink_config_is_usable_witness:
  "\<exists>cfg. parseRelaySinkConfig (\<lambda>_. 0) (Some sample_settings) = Inr cfg \<and> targets cfg = [''a:1'', ''b:2''] \<and>
     1 \<le> queueSize cfg \<and> authRequired cfg \<and> submitTimeout cfg = 2 * time_Second"
  using accepted_sink_config_is_usable [OF sample_settings_parsed [of "\<lambda>_. 0"]] sample_settings_parsed
  by (auto simp: sample_sink_config_def sample_settings_def)

end
