(* ===== verification/Internal_Logger.thy ===== *)
theory Internal_Logger
  imports Relay_Sink Telemetry "HOL-Library.AList"
begin

text \<open>
  The logger (\<^verbatim>\<open>src/pkg/internal/internallogger\<close>): its options, levels, the fields of an entry, and its
  sinks, and the typed configuration of the relay sink in \<^verbatim>\<open>src/pkg/builder/relay_sink_config.go\<close>. What
  zap does with an entry that it is handed, and the file system, are parameters; a zap level is
  its number, from -1 for debug to 5 for fatal.
\<close>

section \<open>Levels\<close>

definition parseLogLevel :: "string \<Rightarrow> loglevel" where
  "parseLogLevel s =
     (if s = ''debug'' then DebugLevel else if s = ''info'' then InfoLevel else if s = ''warn'' then WarnLevel
      else if s = ''error'' then ErrorLevel else if s = ''dpanic'' then DPanicLevel else if s = ''panic'' then PanicLevel
      else if s = ''fatal'' then FatalLevel else InfoLevel)"

fun ConvertLevel :: "loglevel \<Rightarrow> int" where
  "ConvertLevel DebugLevel = - 1"
| "ConvertLevel InfoLevel = 0"
| "ConvertLevel WarnLevel = 1"
| "ConvertLevel ErrorLevel = 2"
| "ConvertLevel DPanicLevel = 3"
| "ConvertLevel PanicLevel = 4"
| "ConvertLevel FatalLevel = 5"

definition convertZapLevel :: "int \<Rightarrow> loglevel" where
  "convertZapLevel l =
     (if l = - 1 then DebugLevel else if l = 0 then InfoLevel else if l = 1 then WarnLevel
      else if l = 2 then ErrorLevel else if l = 3 then DPanicLevel else if l = 4 then PanicLevel
      else if l = 5 then FatalLevel else InfoLevel)"

section \<open>Options and construction\<close>

record zap_config =
  zc_Development :: bool
  zc_InitialFields :: "(string \<rightharpoonup> any) option"
  zc_level :: int
  zc_callerDepth :: int

datatype logger_option =
    LoggerWithLevel string
  | LoggerWithDevelopment bool
  | LoggerWithFields "(string \<times> any) list"
  | LoggerWithSchema string
  | ZapAdapterWithCallerSkip int

definition fields_of :: "zap_config \<Rightarrow> string \<rightharpoonup> any" where
  "fields_of c = (case zc_InitialFields c of None \<Rightarrow> Map.empty | Some m \<Rightarrow> m)"

fun apply_logger_option :: "logger_option \<Rightarrow> zap_config \<Rightarrow> zap_config" where
  "apply_logger_option (LoggerWithLevel s) c = c\<lparr>zc_level := ConvertLevel (parseLogLevel s)\<rparr>"
| "apply_logger_option (LoggerWithDevelopment dev) c = c\<lparr>zc_Development := dev\<rparr>"
| "apply_logger_option (LoggerWithFields kvs) c =
     c\<lparr>zc_InitialFields := Some (fold (\<lambda>(k, v) m. if k = '''' then m else m(k \<mapsto> v)) kvs (fields_of c))\<rparr>"
| "apply_logger_option (LoggerWithSchema s) c =
     c\<lparr>zc_InitialFields := Some ((fields_of c)(''log_schema'' \<mapsto> AString s))\<rparr>"
| "apply_logger_option (ZapAdapterWithCallerSkip n) c = c\<lparr>zc_callerDepth := zc_callerDepth c + n\<rparr>"

text \<open>
  A core writes to the standard output or to a sink; a sink is known by the handle it got when it was
  made. \<open>zl_open\<close> are the handles of files and relay sinks that have not been closed: it stands for the
  resources behind them. The fields every entry carries are those of the configuration with a non-empty key.
\<close>

datatype core = BaseCore | SinkCore nat

record zap_adapter =
  zl_level :: int
  zl_callerDepth :: int
  zl_baseFields :: "string \<rightharpoonup> any"
  zl_cores :: "core list"                    \<comment> \<open>of the current logger\<close>
  zl_sinks :: "(string \<times> nat \<times> bool) list"  \<comment> \<open>identifier, handle, whether it has a stop function\<close>
  zl_fresh :: nat
  zl_open :: "nat set"

definition fieldsFromMap :: "(string \<rightharpoonup> any) \<Rightarrow> string \<rightharpoonup> any" where
  "fieldsFromMap m = m('''' := None)"

definition NewLogger :: "logger_option option list \<Rightarrow> zap_adapter" where
  "NewLogger opts =
     (let c = fold apply_logger_option (List.map_filter id opts)
                \<lparr>zc_Development = False, zc_InitialFields = None, zc_level = 0, zc_callerDepth = 3\<rparr>;
          m = fields_of c;
          m = (if m ''log_schema'' = None then m(''log_schema'' \<mapsto> AString ''electrician.log.v1'') else m)
      in \<lparr>zl_level = zc_level c, zl_callerDepth = zc_callerDepth c, zl_baseFields = fieldsFromMap m,
          zl_cores = [BaseCore], zl_sinks = [], zl_fresh = 0, zl_open = {}\<rparr>)"

section \<open>Entries\<close>

text \<open>The arguments of a log call and the fields made of them.\<close>

datatype log_arg =
    ArgString string | ArgMeta metadata | ArgMetaPtr "metadata option" | ArgError gerr | ArgOther any

datatype log_field = FieldAny string log_arg | FieldMap string "(string \<times> string) list" | FieldNil string | FieldError string gerr

definition componentToLogMap :: "metadata \<Rightarrow> (string \<times> string) list" where
  "componentToLogMap m = [(''id'', meta_ID m), (''type'', meta_Type m), (''name'', meta_Name m)]"

definition log_field_of :: "string \<Rightarrow> log_arg \<Rightarrow> log_field" where
  "log_field_of key value =
     (case value of
        ArgMeta v \<Rightarrow> FieldMap key (componentToLogMap v)
      | ArgMetaPtr None \<Rightarrow> FieldNil key
      | ArgMetaPtr (Some v) \<Rightarrow> FieldMap key (componentToLogMap v)
      | ArgError e \<Rightarrow> FieldError key e
      | _ \<Rightarrow> FieldAny key value)"

text \<open>The loop over the pairs; a last argument without a partner is dropped, as is a pair whose key is no string.\<close>

fun log_fields :: "log_arg list \<Rightarrow> log_field list" where
  "log_fields (k # v # rest) =
     (case k of ArgString key \<Rightarrow> log_field_of key v # log_fields rest | _ \<Rightarrow> log_fields rest)"
| "log_fields _ = []"

text \<open>
  \<^verbatim>\<open>Log\<close>: nothing when the level is not enabled, else the entry that zap is given. All cores
  share one level.
\<close>

record log_entry =
  le_level :: int
  le_msg :: string
  le_fields :: "log_field list"
  le_cores :: "core list"

definition core_Enabled :: "zap_adapter \<Rightarrow> int \<Rightarrow> bool" where
  "core_Enabled z l \<longleftrightarrow> zl_level z \<le> l"

definition zl_Log :: "loglevel \<Rightarrow> string \<Rightarrow> log_arg list \<Rightarrow> zap_adapter \<Rightarrow> log_entry option" where
  "zl_Log level msg kvs z =
     (let l = ConvertLevel level in
      if \<not> core_Enabled z l then None
      else Some \<lparr>le_level = l, le_msg = msg, le_fields = log_fields kvs, le_cores = zl_cores z\<rparr>)"

definition zl_Debug :: "string \<Rightarrow> log_arg list \<Rightarrow> zap_adapter \<Rightarrow> log_entry option" where "zl_Debug = zl_Log DebugLevel"
definition zl_Info :: "string \<Rightarrow> log_arg list \<Rightarrow> zap_adapter \<Rightarrow> log_entry option" where "zl_Info = zl_Log InfoLevel"
definition zl_Warn :: "string \<Rightarrow> log_arg list \<Rightarrow> zap_adapter \<Rightarrow> log_entry option" where "zl_Warn = zl_Log WarnLevel"
definition zl_Error :: "string \<Rightarrow> log_arg list \<Rightarrow> zap_adapter \<Rightarrow> log_entry option" where "zl_Error = zl_Log ErrorLevel"
definition zl_DPanic :: "string \<Rightarrow> log_arg list \<Rightarrow> zap_adapter \<Rightarrow> log_entry option" where "zl_DPanic = zl_Log DPanicLevel"
definition zl_Panic :: "string \<Rightarrow> log_arg list \<Rightarrow> zap_adapter \<Rightarrow> log_entry option" where "zl_Panic = zl_Log PanicLevel"
definition zl_Fatal :: "string \<Rightarrow> log_arg list \<Rightarrow> zap_adapter \<Rightarrow> log_entry option" where "zl_Fatal = zl_Log FatalLevel"

definition zl_GetLevel :: "zap_adapter \<Rightarrow> loglevel" where
  "zl_GetLevel z = convertZapLevel (zl_level z)"

definition zl_SetLevel :: "loglevel \<Rightarrow> zap_adapter \<Rightarrow> zap_adapter" where
  "zl_SetLevel l z = z\<lparr>zl_level := ConvertLevel l\<rparr>"

text \<open>\<^verbatim>\<open>Flush\<close>: \<open>synced\<close> is what \<^verbatim>\<open>Sync\<close> of the zap logger returns; an error of an output that cannot be synced is none.\<close>

definition Contains :: "string \<Rightarrow> string \<Rightarrow> bool" where
  "Contains s sub \<longleftrightarrow> list_ex (\<lambda>i. take (length sub) (drop i s) = sub) [0..<Suc (length s)]"

definition zl_Flush :: "string option \<Rightarrow> string option" where
  "zl_Flush synced =
     (case synced of
        None \<Rightarrow> None
      | Some err \<Rightarrow>
        if Contains err ''inappropriate ioctl for device'' \<or> Contains err ''bad file descriptor'' \<or>
           Contains err ''invalid argument''
        then None else Some err)"

section \<open>Sinks\<close>

text \<open>
  The file system and the construction of a relay sink: the outcome of looking up and creating the
  directory of a path, of opening the path, and of \<^verbatim>\<open>newRelayWriteSyncer\<close>.
\<close>

record sink_env =
  dir_missing :: "string \<Rightarrow> bool"
  make_dirs :: "string \<Rightarrow> gerr option"
  open_file :: "string \<Rightarrow> gerr option"
  new_relay_sink :: "(string \<times> any) list option \<Rightarrow> gerr option"

definition file_sink_error :: "sink_env \<Rightarrow> (string \<times> any) list \<Rightarrow> gerr option" where
  "file_sink_error env cfg =
     (case map_of cfg ''path'' of
        Some (AString path) \<Rightarrow>
          if path = '''' then Some (Err ''file path configuration is missing or invalid'')
          else
            (case (if dir_missing env path then make_dirs env path else None) of
               Some err \<Rightarrow> Some (Wrapped ''failed to create directory'' err)
             | None \<Rightarrow> (case open_file env path of Some err \<Rightarrow> Some (Wrapped ''failed to open file'' err) | None \<Rightarrow> None))
      | _ \<Rightarrow> Some (Err ''file path configuration is missing or invalid''))"

text \<open>The error of making a sink, or whether the sink has a stop function.\<close>

definition make_sink :: "sink_env \<Rightarrow> string \<Rightarrow> (string \<times> any) list option \<Rightarrow> gerr + bool" where
  "make_sink env typ config =
     (let cfg = (case config of None \<Rightarrow> [] | Some c \<Rightarrow> c) in
      if typ = ''file'' then (case file_sink_error env cfg of Some err \<Rightarrow> Inl err | None \<Rightarrow> Inr True)
      else if typ = ''stdout'' then Inr False
      else if typ = ''network'' \<or> typ = ''relay'' then
        (case new_relay_sink env config of Some err \<Rightarrow> Inl err | None \<Rightarrow> Inr True)
      else Inl (Err (''unsupported sink type: '' @ typ)))"

definition rebuildLoggerLocked :: "zap_adapter \<Rightarrow> zap_adapter" where
  "rebuildLoggerLocked z = z\<lparr>zl_cores := BaseCore # map (\<lambda>(i, h, s). SinkCore h) (zl_sinks z)\<rparr>"

definition AddSink ::
  "sink_env \<Rightarrow> string \<Rightarrow> string \<Rightarrow> (string \<times> any) list option \<Rightarrow> zap_adapter \<Rightarrow> gerr option \<times> zap_adapter" where
  "AddSink env identifier typ config z =
     (case make_sink env typ config of
        Inl err \<Rightarrow> (Some err, z)
      | Inr stops \<Rightarrow>
        let h = zl_fresh z in
        (None, rebuildLoggerLocked
           (z\<lparr>zl_sinks := AList.update identifier (h, stops) (zl_sinks z), zl_fresh := Suc h,
              zl_open := (if stops then insert h (zl_open z) else zl_open z)\<rparr>)))"

definition RemoveSink :: "string \<Rightarrow> zap_adapter \<Rightarrow> gerr option \<times> zap_adapter" where
  "RemoveSink identifier z =
     (case map_of (zl_sinks z) identifier of
        None \<Rightarrow> (Some (Err (''sink not found: '' @ identifier)), z)
      | Some (h, stops) \<Rightarrow>
        (None, rebuildLoggerLocked
           (z\<lparr>zl_sinks := AList.delete identifier (zl_sinks z),
              zl_open := (if stops then zl_open z - {h} else zl_open z)\<rparr>)))"

definition ListSinks :: "zap_adapter \<Rightarrow> string list" where
  "ListSinks z = map fst (zl_sinks z)"

section \<open>The typed configuration of a relay sink\<close>

record typed_sink_config =
  ts_Targets :: "string list"
  ts_QueueSize :: int
  ts_SubmitTimeout :: duration
  ts_FlushTimeout :: duration
  ts_DropOnFull :: "bool option"
  ts_StaticHeaders :: "(string \<times> string) list"
  ts_TLS :: "tls_config option"
  ts_BearerToken :: string
  ts_BearerTokenEnv :: string
  ts_AuthRequired :: "bool option"

definition tlsVersionString :: "nat \<Rightarrow> string" where
  "tlsVersionString v =
     (if v = 769 then ''1.0'' else if v = 770 then ''1.1'' else if v = 771 then ''1.2'' else if v = 772 then ''1.3'' else '''')"

definition tlsConfigToMap :: "tls_config \<Rightarrow> (string \<times> any) list" where
  "tlsConfigToMap c =
     [(''cert'', AString (CertFile c)), (''key'', AString (KeyFile c)), (''ca'', AString (CAFile c)),
      (''server_name'', AString (SubjectAlternativeName c))] @
     (let v = tlsVersionString (MinTLSVersion c) in if v = '''' then [] else [(''min_version'', AString v)]) @
     (let v = tlsVersionString (MaxTLSVersion c) in if v = '''' then [] else [(''max_version'', AString v)])"

definition ToSinkConfig :: "typed_sink_config \<Rightarrow> string \<times> (string \<times> any) list option" where
  "ToSinkConfig c =
     (''relay'', Some (
       (if ts_Targets c = [] then [] else [(''targets'', AStrings (ts_Targets c))]) @
       (if ts_QueueSize c > 0 then [(''queue_size'', AInt (ts_QueueSize c))] else []) @
       (if ts_SubmitTimeout c > 0 then [(''submit_timeout'', ADuration (ts_SubmitTimeout c))] else []) @
       (if ts_FlushTimeout c > 0 then [(''flush_timeout'', ADuration (ts_FlushTimeout c))] else []) @
       (case ts_DropOnFull c of None \<Rightarrow> [] | Some b \<Rightarrow> [(''drop_on_full'', ABool b)]) @
       (if ts_StaticHeaders c = [] then [] else [(''static_headers'', AStrMap (ts_StaticHeaders c))]) @
       (case ts_TLS c of None \<Rightarrow> [] | Some t \<Rightarrow> if UseTLS t then [(''tls'', AMap (tlsConfigToMap t))] else []) @
       (if ts_BearerToken c = '''' then [] else [(''bearer_token'', AString (ts_BearerToken c))]) @
       (if ts_BearerTokenEnv c = '''' then [] else [(''bearer_token_env'', AString (ts_BearerTokenEnv c))]) @
       (case ts_AuthRequired c of None \<Rightarrow> [] | Some b \<Rightarrow> [(''auth_required'', ABool b)])))"

text \<open>The lookups in the map that is built.\<close>

lemma ToSinkConfig_entries:
  assumes "ToSinkConfig c = (typ, Some m)"
  shows "map_of m ''targets'' = (if ts_Targets c = [] then None else Some (AStrings (ts_Targets c)))"
    and "map_of m ''queue_size'' = (if ts_QueueSize c > 0 then Some (AInt (ts_QueueSize c)) else None)"
    and "map_of m ''submit_timeout'' = (if ts_SubmitTimeout c > 0 then Some (ADuration (ts_SubmitTimeout c)) else None)"
    and "map_of m ''flush_timeout'' = (if ts_FlushTimeout c > 0 then Some (ADuration (ts_FlushTimeout c)) else None)"
    and "map_of m ''drop_on_full'' = map_option ABool (ts_DropOnFull c)"
    and "map_of m ''static_headers'' = (if ts_StaticHeaders c = [] then None else Some (AStrMap (ts_StaticHeaders c)))"
    and "map_of m ''tls'' =
      (case ts_TLS c of None \<Rightarrow> None | Some t \<Rightarrow> if UseTLS t then Some (AMap (tlsConfigToMap t)) else None)"
    and "map_of m ''bearer_token'' = (if ts_BearerToken c = '''' then None else Some (AString (ts_BearerToken c)))"
    and "map_of m ''bearer_token_env'' = (if ts_BearerTokenEnv c = '''' then None else Some (AString (ts_BearerTokenEnv c)))"
    and "map_of m ''auth_required'' = map_option ABool (ts_AuthRequired c)"
  using assms [unfolded ToSinkConfig_def, simplified, THEN conjunct2, symmetric]
  by (simp_all add: map_add_def split: option.split)

lemma tlsVersion_round_trip:
  assumes "v \<in> {769, 770, 771, 772}"
  shows "tlsVersionString v \<noteq> ''''" and "tlsVersionFromString (tlsVersionString v) = Some v"
  using assms by (auto simp: tlsVersionString_def tlsVersionFromString_def TrimSpace_def ToLower_def lower_char_def
      ascii_space_def Let_def)

text \<open>The versions that have a text; any other one is left out of the map and read back as 0.\<close>

definition named_version :: "nat \<Rightarrow> nat" where
  "named_version v = (if v \<in> {769, 770, 771, 772} then v else 0)"

definition incomplete_tls :: "tls_config option \<Rightarrow> bool" where
  "incomplete_tls c = (case c of None \<Rightarrow> False
     | Some t \<Rightarrow> UseTLS t \<and> (CertFile t = '''' \<or> KeyFile t = '''' \<or> CAFile t = ''''))"

definition effective_tls :: "tls_config option \<Rightarrow> tls_config option" where
  "effective_tls c = (case c of None \<Rightarrow> None
     | Some t \<Rightarrow> if UseTLS t then Some (t\<lparr>MinTLSVersion := named_version (MinTLSVersion t), MaxTLSVersion := named_version (MaxTLSVersion t)\<rparr>)
                 else None)"

lemma parse_version_setting:
  assumes "map_of m k = (if tlsVersionString v = '''' then None else Some (AString (tlsVersionString v)))"
  shows "setting m k parseTLSVersion err 0 = Inr (named_version v)"
proof (cases "v \<in> {769, 770, 771, 772}")
  case True
  with tlsVersion_round_trip [OF this] assms show ?thesis by (simp add: setting_def parseTLSVersion_def named_version_def)
next
  case False
  then have "tlsVersionString v = ''''" by (simp add: tlsVersionString_def)
  then show ?thesis unfolding named_version_def if_not_P [OF False] by (simp add: setting_def assms)
qed

lemma parseTLSConfig_tlsConfigToMap:
  assumes "UseTLS t"
  shows "parseTLSConfig (AMap (tlsConfigToMap t)) =
    (if incomplete_tls (Some t) then Inl (Err ''relay sink tls requires cert, key, and ca'') else Inr (effective_tls (Some t)))"
proof -
  let ?m = "tlsConfigToMap t"
  have look: "map_of ?m ''enabled'' = None" "string_or_empty ?m ''cert'' = CertFile t" "string_or_empty ?m ''key'' = KeyFile t"
    "string_or_empty ?m ''ca'' = CAFile t" "string_or_empty ?m ''server_name'' = SubjectAlternativeName t"
    "map_of ?m ''min_version'' = (if tlsVersionString (MinTLSVersion t) = '''' then None else Some (AString (tlsVersionString (MinTLSVersion t))))"
    "map_of ?m ''max_version'' = (if tlsVersionString (MaxTLSVersion t) = '''' then None else Some (AString (tlsVersionString (MaxTLSVersion t))))"
    by (simp_all add: tlsConfigToMap_def string_or_empty_def Let_def)
  have en: "setting ?m ''enabled'' sink_parseBool err True = Inr True" for err by (simp add: setting_def look(1))
  show ?thesis
    using assms by (simp add: parseTLSConfig_def bind_cfg_def en look(2-5) parse_version_setting [OF look(6)]
        parse_version_setting [OF look(7)] incomplete_tls_def effective_tls_def Let_def)
qed

text \<open>
  C35: what the sink reads back from the map made of a typed configuration, for every typed configuration. A
  configuration without a target that is more than space, with TLS in use but not all of the certificate, the key and
  the authority, or with both kinds of token is refused. Any other is read back as it is, up to this: targets
  are trimmed and blank ones dropped, a configuration with TLS not in use counts as none, TLS versions other than 1.0 to
  1.3 as unset, and what is not set (for sizes and times: not positive) takes its default.
\<close>
theorem typed_sink_config_round_trip:
  "parseRelaySinkConfig oor (snd (ToSinkConfig c)) =
    (if normalizeTargets (ts_Targets c) = [] then Inl (Err ''relay sink targets missing'')
     else if incomplete_tls (ts_TLS c) then Inl (Err ''relay sink tls requires cert, key, and ca'')
     else if ts_BearerToken c \<noteq> '''' \<and> ts_BearerTokenEnv c \<noteq> ''''
       then Inl (Err ''relay sink config specifies both bearer_token and bearer_token_env'')
     else Inr
       \<lparr>targets = normalizeTargets (ts_Targets c), tlsConfig = effective_tls (ts_TLS c), staticHeaders = ts_StaticHeaders c,
        tokenSource = (if ts_BearerToken c \<noteq> '''' then Some (StaticToken (ts_BearerToken c))
                       else if ts_BearerTokenEnv c \<noteq> '''' then Some (EnvToken (ts_BearerTokenEnv c)) else None),
        authRequired = (case ts_AuthRequired c of None \<Rightarrow> True | Some b \<Rightarrow> b),
        queueSize = (if ts_QueueSize c > 0 then ts_QueueSize c else 2048),
        submitTimeout = (if ts_SubmitTimeout c > 0 then ts_SubmitTimeout c else 2 * time_Second),
        flushTimeout = (if ts_FlushTimeout c > 0 then ts_FlushTimeout c else 2 * time_Second),
        dropOnFull = (case ts_DropOnFull c of None \<Rightarrow> True | Some b \<Rightarrow> b)\<rparr>)"
proof -
  obtain ty m where m: "ToSinkConfig c = (ty, Some m)" by (simp add: ToSinkConfig_def)
  note e = ToSinkConfig_entries [OF m]
  have tls: "(case map_of m ''tls'' of None \<Rightarrow> Inr None | Some raw \<Rightarrow> parseTLSConfig raw) =
      (if incomplete_tls (ts_TLS c) then Inl (Err ''relay sink tls requires cert, key, and ca'') else Inr (effective_tls (ts_TLS c)))"
    by (auto simp: e(7) parseTLSConfig_tlsConfigToMap incomplete_tls_def effective_tls_def split: option.split)
  have tok: "token_setting m =
      (if ts_BearerToken c \<noteq> '''' \<and> ts_BearerTokenEnv c \<noteq> ''''
       then Inl (Err ''relay sink config specifies both bearer_token and bearer_token_env'')
       else Inr (if ts_BearerToken c \<noteq> '''' then Some (StaticToken (ts_BearerToken c))
         else if ts_BearerTokenEnv c \<noteq> '''' then Some (EnvToken (ts_BearerTokenEnv c)) else None))"
    by (simp add: token_setting_def e(8,9) NewStaticBearerTokenSource_def NewEnvBearerTokenSource_def)
  have bools: "setting m k sink_parseBool err d = Inr (case b of None \<Rightarrow> d | Some x \<Rightarrow> x)"
    if "map_of m k = map_option ABool b" for k err d b
    using that by (cases b) (simp_all add: setting_def sink_parseBool_def)
  note settings = bools [OF e(5)] bools [OF e(10)]
  have size: "setting m ''queue_size'' (\<lambda>raw. case sink_parseInt oor raw of Some n \<Rightarrow> if n < 1 then None else Some n | None \<Rightarrow> None)
      err 2048 = Inr (if ts_QueueSize c > 0 then ts_QueueSize c else 2048)" for err
    by (simp add: setting_def e(2) sink_parseInt_def)
  have times: "setting m ''submit_timeout'' (sink_parseDuration oor) err d = Inr (if ts_SubmitTimeout c > 0 then ts_SubmitTimeout c else d)"
    "setting m ''flush_timeout'' (sink_parseDuration oor) err d = Inr (if ts_FlushTimeout c > 0 then ts_FlushTimeout c else d)" for err d
    by (simp_all add: setting_def e(3,4) sink_parseDuration_def)
  have headers: "setting m ''static_headers'' parseStringMap err [] = Inr (ts_StaticHeaders c)" for err
    by (simp add: setting_def e(6) parseStringMap_def)
  show ?thesis
  proof (cases "ts_Targets c = []")
    case True
    then show ?thesis by (simp add: m parseRelaySinkConfig_def bind_cfg_def e(1) parseTargets_def normalizeTargets_def)
  next
    case False
    then have "parseTargets (case map_of m ''targets'' of None \<Rightarrow> ANil | Some raw \<Rightarrow> raw) = Inr (normalizeTargets (ts_Targets c))"
      by (simp add: e(1) parseTargets_def)
    then show ?thesis
      by (simp add: m parseRelaySinkConfig_def bind_cfg_def settings size times headers tls tok)
  qed
qed

theorem typed_sink_config_round_trip_witness:
  "let t = \<lparr>UseTLS = True, CertFile = ''c'', KeyFile = ''k'', CAFile = ''a'', SubjectAlternativeName = ''h'',
             MinTLSVersion = 771, MaxTLSVersion = 5\<rparr>;
       c = \<lparr>ts_Targets = ['' '', '' a:1''], ts_QueueSize = 7, ts_SubmitTimeout = 0, ts_FlushTimeout = 5, ts_DropOnFull = Some False,
             ts_StaticHeaders = [], ts_TLS = Some t, ts_BearerToken = ''s'', ts_BearerTokenEnv = '''', ts_AuthRequired = None\<rparr>
   in parseRelaySinkConfig (\<lambda>_. 0) (snd (ToSinkConfig c)) = Inr
        \<lparr>targets = [''a:1''], tlsConfig = Some (t\<lparr>MaxTLSVersion := 0\<rparr>), staticHeaders = [], tokenSource = Some (StaticToken ''s''),
         authRequired = True, queueSize = 7, submitTimeout = 2 * time_Second, flushTimeout = 5, dropOnFull = False\<rparr> \<and>
      parseRelaySinkConfig (\<lambda>_. 0) (snd (ToSinkConfig (c\<lparr>ts_TLS := Some (t\<lparr>CertFile := ''''\<rparr>)\<rparr>))) =
        Inl (Err ''relay sink tls requires cert, key, and ca'')"
  unfolding Let_def typed_sink_config_round_trip
  by (simp add: normalizeTargets_def TrimSpace_def ascii_space_def incomplete_tls_def effective_tls_def named_version_def)

section \<open>The set of sinks\<close>

datatype sink_op = DoAdd string string "(string \<times> any) list option" | DoRemove string | DoSetLevel loglevel

fun sink_do :: "sink_env \<Rightarrow> sink_op \<Rightarrow> zap_adapter \<Rightarrow> zap_adapter" where
  "sink_do env (DoAdd i t c) z = snd (AddSink env i t c z)"
| "sink_do env (DoRemove i) z = snd (RemoveSink i z)"
| "sink_do env (DoSetLevel l) z = zl_SetLevel l z"

fun sinks_run :: "sink_env \<Rightarrow> sink_op list \<Rightarrow> zap_adapter \<Rightarrow> zap_adapter" where
  "sinks_run env [] z = z"
| "sinks_run env (a # as) z = sinks_run env as (sink_do env a z)"

text \<open>The handles of the sinks that are registered now.\<close>

definition handles :: "zap_adapter \<Rightarrow> nat set" where
  "handles z = (fst o snd) ` set (zl_sinks z)"

definition sinks_inv :: "zap_adapter \<Rightarrow> bool" where
  "sinks_inv z \<longleftrightarrow>
     distinct (map fst (zl_sinks z)) \<and> distinct (map (fst o snd) (zl_sinks z)) \<and>
     zl_cores z = BaseCore # map (\<lambda>(i, h, s). SinkCore h) (zl_sinks z) \<and>
     (\<forall>h\<in>handles z \<union> zl_open z. h < zl_fresh z) \<and>
     (\<forall>(i, h, s)\<in>set (zl_sinks z). s \<longleftrightarrow> h \<in> zl_open z)"

lemma sinks_inv_new: "sinks_inv (NewLogger opts)"
  by (simp add: sinks_inv_def NewLogger_def handles_def Let_def)

lemma update_handles:
  "h' \<in> (fst o snd) ` set (AList.update i (h, s) xs) \<Longrightarrow> h' = h \<or> h' \<in> (fst o snd) ` set xs"
  by (induction xs) (auto split: if_splits)

lemma distinct_update_handles:
  assumes "distinct (map (fst o snd) xs)" and "h \<notin> (fst o snd) ` set xs"
  shows "distinct (map (fst o snd) (AList.update i (h, s) xs))"
  using assms
proof (induction xs)
  case (Cons x xs)
  obtain k g b where x: "x = (k, g, b)" by (cases x)
  have "g \<notin> (fst o snd) ` set (AList.update i (h, s) xs)"
    using Cons.prems update_handles [of g i h s xs] by (auto simp: x)
  with Cons show ?case by (auto simp: x)
qed simp

lemma set_update_subset: "set (AList.update i v xs) \<subseteq> insert (i, v) (set xs)"
  by (induction xs) auto

lemma set_delete_subset: "set (AList.delete i xs) \<subseteq> set xs - {x. fst x = i}"
  by (auto simp: AList.delete_eq)

lemma distinct_delete_handles:
  "distinct (map (fst o snd) xs) \<Longrightarrow> distinct (map (fst o snd) (AList.delete i xs))"
  by (simp add: AList.delete_eq distinct_map_filter)

lemma sinks_inv_add:
  assumes "sinks_inv z" shows "sinks_inv (snd (AddSink env i t c z))"
proof (cases "make_sink env t c")
  case (Inl err)
  with assms show ?thesis by (simp add: AddSink_def)
next
  case (Inr stops)
  have new: "zl_fresh z \<notin> handles z" "zl_fresh z \<notin> zl_open z" using assms by (auto simp: sinks_inv_def)
  define xs where "xs = AList.update i (zl_fresh z, stops) (zl_sinks z)"
  have sub: "set xs \<subseteq> insert (i, zl_fresh z, stops) (set (zl_sinks z))"
    unfolding xs_def by (rule set_update_subset)
  have old: "h < zl_fresh z" "s \<longleftrightarrow> h \<in> zl_open z" if "(j, h, s) \<in> set (zl_sinks z)" for j h s
  proof -
    have "h \<in> handles z" using that by (force simp: handles_def)
    with assms that show "h < zl_fresh z" "s \<longleftrightarrow> h \<in> zl_open z" by (auto simp: sinks_inv_def)
  qed
  have entries: "h < Suc (zl_fresh z) \<and> (s \<longleftrightarrow> h \<in> (if stops then insert (zl_fresh z) (zl_open z) else zl_open z))"
    if "(j, h, s) \<in> set xs" for j h s
  proof -
    from that sub consider "h = zl_fresh z" "s = stops" | "(j, h, s) \<in> set (zl_sinks z)" by auto
    then show ?thesis
    proof cases
      case 2
      from old [OF this] show ?thesis by auto
    qed (use new in simp)
  qed
  have dist: "distinct (map fst xs)" "distinct (map (fst o snd) xs)"
    unfolding xs_def using assms new(1)
    by (simp add: sinks_inv_def distinct_update, intro distinct_update_handles) (simp_all add: sinks_inv_def handles_def)
  have opened: "h < Suc (zl_fresh z)" if "h \<in> zl_open z" for h
    using assms that by (auto simp: sinks_inv_def intro: less_SucI)
  define opn where "opn = (if stops then insert (zl_fresh z) (zl_open z) else zl_open z)"
  have "\<forall>(j, h, s)\<in>set xs. s \<longleftrightarrow> h \<in> opn" using entries unfolding opn_def by blast
  moreover have "\<forall>h\<in>(fst o snd) ` set xs \<union> opn. h < Suc (zl_fresh z)"
    using entries opened by (auto simp: opn_def simp del: Suc_eq_plus1)
  ultimately show ?thesis
    using dist by (simp add: AddSink_def Inr rebuildLoggerLocked_def Let_def sinks_inv_def handles_def
        xs_def [symmetric] opn_def [symmetric])
qed

lemma sinks_inv_remove:
  assumes "sinks_inv z" shows "sinks_inv (snd (RemoveSink i z))"
proof (cases "map_of (zl_sinks z) i")
  case None
  with assms show ?thesis by (simp add: RemoveSink_def)
next
  case (Some hs)
  obtain h s where hs: "hs = (h, s)" by (cases hs)
  define xs where "xs = AList.delete i (zl_sinks z)"
  have mem: "(i, h, s) \<in> set (zl_sinks z)" using Some hs by (auto dest: map_of_SomeD)
  have sub: "set xs \<subseteq> set (zl_sinks z) - {x. fst x = i}" unfolding xs_def by (rule set_delete_subset)
  have dist: "distinct (map fst xs)" "distinct (map (fst o snd) xs)"
    unfolding xs_def using assms by (simp_all add: sinks_inv_def distinct_delete distinct_delete_handles)
  have other: "h' \<noteq> h" if "(j, h', s') \<in> set xs" for j h' s'
  proof -
    have "(j, h', s') \<in> set (zl_sinks z)" "j \<noteq> i" using that sub by auto
    then show ?thesis
      using mem assms inj_onD [of "fst o snd" "set (zl_sinks z)" "(i, h, s)" "(j, h', s')"]
      by (auto simp: sinks_inv_def distinct_map)
  qed
  have below: "h' < zl_fresh z" if "(j, h', s') \<in> set xs" for j h' s'
  proof -
    have "(j, h', s') \<in> set (zl_sinks z)" using that sub by auto
    then have "h' \<in> handles z" by (force simp: handles_def)
    with assms show ?thesis by (auto simp: sinks_inv_def)
  qed
  show ?thesis
    using assms Some hs dist sub other below
    by (auto simp: RemoveSink_def rebuildLoggerLocked_def sinks_inv_def handles_def xs_def [symmetric] split: if_splits)
qed

lemma sinks_inv_run: "sinks_inv z \<Longrightarrow> sinks_inv (sinks_run env as z)"
proof (induction as arbitrary: z)
  case (Cons a as)
  have "sinks_inv (sink_do env a z)"
    using Cons.prems
    by (cases a) (simp_all add: sinks_inv_add sinks_inv_remove, simp add: sinks_inv_def zl_SetLevel_def handles_def)
  with Cons.IH show ?case by simp
qed simp

lemma convertZapLevel_ConvertLevel [simp]: "convertZapLevel (ConvertLevel l) = l"
  by (cases l) (simp_all add: convertZapLevel_def)

lemma ConvertLevel_less [simp]: "ConvertLevel a \<le> ConvertLevel b \<longleftrightarrow> a \<le> b" "ConvertLevel a < ConvertLevel b \<longleftrightarrow> a < b"
  by (cases a; cases b; simp add: less_eq_loglevel_def less_loglevel_def)+

definition level_set :: "zap_adapter \<Rightarrow> bool" where
  "level_set z \<longleftrightarrow> zl_level z = ConvertLevel (zl_GetLevel z)"

lemma level_set_fields [simp]:
  "level_set (z\<lparr>zl_sinks := xs, zl_fresh := n, zl_open := op\<rparr>) = level_set z"
  "level_set (z\<lparr>zl_sinks := xs, zl_open := op\<rparr>) = level_set z"
  "level_set (rebuildLoggerLocked z) = level_set z" "level_set (zl_SetLevel l z)"
  by (simp_all add: level_set_def zl_GetLevel_def rebuildLoggerLocked_def zl_SetLevel_def)

lemma level_set_new: "level_set (NewLogger opts)"
proof -
  have "\<exists>l. zc_level (fold apply_logger_option os c) = ConvertLevel l" if "\<exists>l. zc_level c = ConvertLevel l" for os c
    using that
  proof (induction os arbitrary: c)
    case (Cons a os)
    then have "\<exists>l. zc_level (apply_logger_option a c) = ConvertLevel l" by (cases a) auto
    with Cons.IH show ?case by simp
  qed simp
  moreover have "\<exists>l. zc_level \<lparr>zc_Development = False, zc_InitialFields = None, zc_level = 0, zc_callerDepth = 3\<rparr> = ConvertLevel l"
    by (rule exI [of _ InfoLevel]) simp
  ultimately have "\<exists>l. zl_level (NewLogger opts) = ConvertLevel l" unfolding NewLogger_def Let_def by simp
  then show ?thesis by (auto simp: level_set_def zl_GetLevel_def)
qed

lemma level_set_run: "level_set z \<Longrightarrow> level_set (sinks_run env as z)"
proof (induction as arbitrary: z)
  case (Cons a as)
  have "level_set (sink_do env a z)"
    using Cons.prems by (cases a) (auto simp: AddSink_def RemoveSink_def Let_def split: sum.splits option.splits)
  with Cons.IH show ?case by simp
qed simp

text \<open>A sink that has left the registry without being closed: no operation closes it any more.\<close>

definition orphan :: "nat \<Rightarrow> zap_adapter \<Rightarrow> bool" where
  "orphan h z \<longleftrightarrow> h \<in> zl_open z \<and> h \<notin> handles z \<and> h < zl_fresh z"

lemma handles_rebuild [simp]:
  "handles (rebuildLoggerLocked z) = handles z" "orphan h (rebuildLoggerLocked z) = orphan h z"
  "zl_open (rebuildLoggerLocked z) = zl_open z" "zl_fresh (rebuildLoggerLocked z) = zl_fresh z"
  "zl_sinks (rebuildLoggerLocked z) = zl_sinks z"
  by (simp_all add: handles_def rebuildLoggerLocked_def orphan_def)

lemma orphan_step: "orphan h z \<Longrightarrow> orphan h (sink_do env a z)"
proof (cases a)
  case (DoAdd i t c)
  assume o: "orphan h z"
  show ?thesis
  proof (cases "make_sink env t c")
    case (Inr stops)
    have "h \<notin> (fst o snd) ` set (AList.update i (zl_fresh z, stops) (zl_sinks z))"
      using o update_handles [of h i "zl_fresh z" stops "zl_sinks z"] by (auto simp: orphan_def handles_def)
    with o Inr DoAdd show ?thesis by (simp add: AddSink_def orphan_def handles_def Let_def)
  qed (use o DoAdd in \<open>simp add: AddSink_def\<close>)
next
  case (DoRemove i)
  assume o: "orphan h z"
  show ?thesis
  proof (cases "map_of (zl_sinks z) i")
    case (Some hs)
    have "h \<noteq> fst hs" using o map_of_SomeD [OF Some] by (force simp: orphan_def handles_def)
    moreover have "h \<notin> (fst o snd) ` set (AList.delete i (zl_sinks z))"
      using o set_delete_subset [of i "zl_sinks z"] by (auto simp: orphan_def handles_def)
    ultimately show ?thesis using o Some DoRemove by (cases hs) (auto simp: RemoveSink_def orphan_def handles_def)
  qed (use o DoRemove in \<open>simp add: RemoveSink_def\<close>)
next
  case (DoSetLevel l)
  then show "orphan h z \<Longrightarrow> ?thesis" by (simp add: orphan_def handles_def zl_SetLevel_def)
qed

lemma orphan_run: "orphan h z \<Longrightarrow> orphan h (sinks_run env as z)"
  by (induction as arbitrary: z) (simp_all add: orphan_step)

lemma cores_handles: "sinks_inv z \<Longrightarrow> SinkCore h \<in> set (zl_cores z) \<longleftrightarrow> h \<in> handles z"
  by (simp add: sinks_inv_def handles_def image_iff case_prod_unfold)

text \<open>
  C36: after any sequence of adding and removing sinks and setting the level, a log call whose level is enabled
  writes to the standard output and to every registered sink, once each and to nothing else; any other is
  dropped. Registered sinks that can be closed have not been.
\<close>
theorem registered_sinks_get_every_line:
  "let z = sinks_run env as (NewLogger opts) in
   distinct (ListSinks z) \<and>
   (case zl_Log level msg kvs z of
      None \<Rightarrow> level < zl_GetLevel z
    | Some e \<Rightarrow> zl_GetLevel z \<le> level \<and> le_fields e = log_fields kvs \<and>
        distinct (le_cores e) \<and> set (le_cores e) = insert BaseCore (SinkCore ` handles z)) \<and>
   zl_open z \<inter> handles z = {h. \<exists>i. (i, h, True) \<in> set (zl_sinks z)}"
proof -
  define z where "z = sinks_run env as (NewLogger opts)"
  have inv: "sinks_inv z" unfolding z_def by (rule sinks_inv_run [OF sinks_inv_new])
  have lv: "zl_level z = ConvertLevel (zl_GetLevel z)"
    using level_set_run [OF level_set_new] unfolding z_def level_set_def by blast
  have cores: "zl_cores z = BaseCore # map (SinkCore o (fst o snd)) (zl_sinks z)"
    using inv by (simp add: sinks_inv_def case_prod_unfold comp_def)
  have "distinct (map (SinkCore o (fst o snd)) (zl_sinks z))"
    using inv by (simp add: sinks_inv_def distinct_map comp_inj_on_iff [symmetric] inj_on_def)
  then have d: "distinct (zl_cores z)" by (auto simp: cores)
  have s: "set (zl_cores z) = insert BaseCore (SinkCore ` handles z)" by (simp add: cores handles_def image_comp)
  have "zl_open z \<inter> handles z = {h. \<exists>i. (i, h, True) \<in> set (zl_sinks z)}"
    using inv by (force simp: sinks_inv_def handles_def)
  moreover have "distinct (ListSinks z)" using inv by (simp add: ListSinks_def sinks_inv_def)
  ultimately show ?thesis
    using d s unfolding z_def [symmetric]
    by (auto simp: Let_def zl_Log_def core_Enabled_def lv not_le)
qed

text \<open>
  adding a sink under an identifier that is in use replaces the entry without closing the sink it held: its file
  or its submitting goroutine stays open, gets no more lines, and no later operation closes it.
\<close>
theorem replaced_sink_is_never_closed:
  assumes z: "z = sinks_run env as (NewLogger opts)"
    and "make_sink env t c = Inr True" and "make_sink env t' c' = Inr stops'"
  shows "let h = zl_fresh z;
             z' = sinks_run env bs (snd (AddSink env i t' c' (snd (AddSink env i t c z))))
         in h \<in> zl_open z' \<and> h \<notin> handles z' \<and> SinkCore h \<notin> set (zl_cores z')"
proof -
  have inv: "sinks_inv z" unfolding z by (rule sinks_inv_run [OF sinks_inv_new])
  let ?z1 = "snd (AddSink env i t c z)" and ?z2 = "snd (AddSink env i t' c' (snd (AddSink env i t c z)))"
  let ?z' = "sinks_run env bs ?z2"
  have two: "AList.update i v (AList.update i u xs) = AList.update i v xs" for u v :: "nat \<times> bool" and xs
    by (induction xs) auto
  have "zl_fresh z \<notin> (fst o snd) ` set (zl_sinks z)" using inv by (auto simp: sinks_inv_def handles_def)
  then have "zl_fresh z \<notin> (fst o snd) ` set (AList.update i (Suc (zl_fresh z), stops') (zl_sinks z))"
    using update_handles [of "zl_fresh z" i "Suc (zl_fresh z)" stops' "zl_sinks z"] by auto
  then have "orphan (zl_fresh z) ?z2"
    using assms(2,3) by (simp add: AddSink_def orphan_def handles_def Let_def two)
  then have o: "orphan (zl_fresh z) ?z'" by (rule orphan_run)
  have "sinks_inv ?z'" by (intro sinks_inv_run sinks_inv_add inv)
  from cores_handles [OF this] o show ?thesis by (simp add: orphan_def Let_def)
qed

definition file_env :: sink_env where
  "file_env = \<lparr>dir_missing = (\<lambda>_. False), make_dirs = (\<lambda>_. None), open_file = (\<lambda>_. None), new_relay_sink = (\<lambda>_. None)\<rparr>"

theorem replaced_sink_is_never_closed_witness:
  "let add = AddSink file_env ''log'' ''file'' (Some [(''path'', AString ''a.log'')]);
       z' = sinks_run file_env [DoRemove ''log''] (snd (add (snd (add (NewLogger [])))))
   in 0 \<in> zl_open z' \<and> ListSinks z' = []"
proof -
  let ?c = "Some [(''path'', AString ''a.log'')]"
  have mk: "make_sink file_env ''file'' ?c = Inr True"
    by (simp add: make_sink_def file_sink_error_def file_env_def)
  have fresh: "zl_fresh (NewLogger []) = 0" "zl_sinks (NewLogger []) = []" by (simp_all add: NewLogger_def Let_def)
  show ?thesis
    using replaced_sink_is_never_closed [where as = "[]" and opts = "[]" and bs = "[DoRemove ''log'']" and i = "''log''",
        OF _ mk mk]
    by (simp add: Let_def fresh ListSinks_def AddSink_def RemoveSink_def mk rebuildLoggerLocked_def)
qed

text \<open>A call of \<^verbatim>\<open>Panic\<close> returns quietly when the level of the logger is above it.\<close>

lemma Panic_returns_below_level:
  "zl_GetLevel z = FatalLevel \<Longrightarrow> level_set z \<Longrightarrow> zl_Panic msg kvs z = None"
  by (simp add: zl_Panic_def zl_Log_def core_Enabled_def level_set_def)

text \<open>Setting the development mode changes nothing.\<close>

lemma LoggerWithDevelopment_has_no_effect:
  "NewLogger (opts @ [Some (LoggerWithDevelopment dev)] @ opts') = NewLogger (opts @ opts')"
proof -
  have "\<exists>b. fold apply_logger_option os (c\<lparr>zc_Development := d\<rparr>) = (fold apply_logger_option os c)\<lparr>zc_Development := b\<rparr>" for os c d
  proof (induction os arbitrary: c d)
    case (Cons a os)
    have "apply_logger_option a (c\<lparr>zc_Development := d\<rparr>) =
        (apply_logger_option a c)\<lparr>zc_Development := (case a of LoggerWithDevelopment e \<Rightarrow> e | _ \<Rightarrow> d)\<rparr>"
      by (cases a) (simp_all add: fields_of_def)
    with Cons.IH show ?case by simp
  qed auto
  then obtain b where "fold apply_logger_option (List.map_filter id opts')
      ((fold apply_logger_option (List.map_filter id opts)
         \<lparr>zc_Development = False, zc_InitialFields = None, zc_level = 0, zc_callerDepth = 3\<rparr>)\<lparr>zc_Development := dev\<rparr>) =
    (fold apply_logger_option (List.map_filter id opts')
      (fold apply_logger_option (List.map_filter id opts)
         \<lparr>zc_Development = False, zc_InitialFields = None, zc_level = 0, zc_callerDepth = 3\<rparr>))\<lparr>zc_Development := b\<rparr>"
    by blast
  then show ?thesis by (simp add: NewLogger_def List.map_filter_def Let_def fields_of_def)
qed

text \<open>The construction of a relay sink fails only with an error of its configuration.\<close>

lemma unfrozen_option:
  assumes "fr_configFrozen (fs_fr z) = 0" and "\<forall>is. opt \<noteq> FR_WithInput is"
  shows "\<exists>z'. apply_fr_option opt z = Inr z' \<and> fr_configFrozen (fs_fr z') = 0"
  using assms
  by (cases opt) (simp_all add: fr_requireNotFrozen_def fr_config_def fr_logKV_def SetTargets_def fr_ConnectLogger_def
      SetTLSConfig_def SetPerformanceOptions_def SetSecurityOptions_def SetPassthrough_def fr_SetComponentMetadata_def
      SetAuthenticationOptions_def SetOAuth2_def SetStaticHeaders_def SetDynamicHeaders_def Let_def)

lemma unfrozen_options:
  "fr_configFrozen (fs_fr z) = 0 \<Longrightarrow> \<forall>opt\<in>set opts. \<forall>is. opt \<noteq> FR_WithInput is \<Longrightarrow> \<exists>z'. apply_fr_options opts z = Inr z'"
proof (induction opts arbitrary: z)
  case (Cons opt opts)
  from Cons.prems unfrozen_option [of z opt] obtain z' where "apply_fr_option opt z = Inr z'" "fr_configFrozen (fs_fr z') = 0"
    by auto
  with Cons.IH [of z'] Cons.prems(2) show ?case by simp
qed simp

lemma newRelayWriteSyncer_no_panic:
  "\<exists>r. newRelayWriteSyncer hash token_of oor config = Inr r"
proof (cases "parseRelaySinkConfig oor config")
  case (Inr cfg)
  have "\<exists>fr :: wrapped_payload option fr_sys. NewForwardRelay hash (sink_relay_options token_of cfg) = Inr fr"
    unfolding NewForwardRelay_def
    by (rule unfrozen_options)
      (auto simp: new_fr_sys_def NewForwardRelay_base_def sink_relay_options_def split: option.splits)
  with Inr show ?thesis by (auto simp: newRelayWriteSyncer_def)
qed (simp add: newRelayWriteSyncer_def)

end
