(* ===== verification/Http_Auth.thy ===== *)
theory Http_Auth
  imports Receiving_Relay
begin

text \<open>
  The authentication policy of the HTTP and the WebSocket server
  (\<^verbatim>\<open>src/pkg/internal/jack/httpserver\<close> and \<^verbatim>\<open>src/pkg/internal/jack/websocket\<close>: \<^verbatim>\<open>auth_policy.go\<close>, \<^verbatim>\<open>auth_introspection.go\<close>,
  \<^verbatim>\<open>tls.go\<close>), which is the same code in both but for the token a WebSocket client may pass in the query. The
  validators of tokens are those of \<open>Relay_Auth\<close>. A soft failure is logged; the log calls of an
  operation are returned.
\<close>

section \<open>State\<close>

record http_auth =
  ha_authOptions :: "authentication_options option"
  ha_staticHeaders :: "(string \<times> string) list"   \<comment> \<open>in the order the loop visits them\<close>
  ha_validator :: "dyn_validator option"
  ha_authRequired :: bool
  ha_jwt :: "jwt_validator option"
  ha_introspection :: "introspection option"

text \<open>The authentication library, the key server and the introspection server with the clock readings of a call.\<close>

record http_auth_env =
  hae_auth :: auth_lib
  hae_jwks :: "nat \<Rightarrow> jwks_exchange"
  hae_introspect :: introspect_server
  hae_now :: "nat \<Rightarrow> gotime"

definition new_http_auth :: http_auth where
  "new_http_auth = \<lparr>ha_authOptions = None, ha_staticHeaders = [], ha_validator = None, ha_authRequired = True,
     ha_jwt = None, ha_introspection = None\<rparr>"

section \<open>Policy\<close>

text \<open>The installation of the validator for the configured options, with the messages it logs.\<close>

definition ensureDefaultAuthValidatorLocked :: "http_auth \<Rightarrow> string list \<times> http_auth" where
  "ensureDefaultAuthValidatorLocked a =
     (case (ha_validator a, ha_authOptions a) of
        (None, Some opts) \<Rightarrow>
          if \<not> auth_Enabled opts \<or> auth_Mode opts \<noteq> AUTH_OAUTH2 then ([], a)
          else (case auth_Oauth2 opts of
             None \<Rightarrow> ([], a)
           | Some opt \<Rightarrow>
             let jv = (if AcceptJwt opt \<and> JwksUri opt \<noteq> '''' then NewJWTValidator (Some opt) else None);
                 iv = (if AcceptIntrospection opt \<and> IntrospectionUrl opt \<noteq> ''''
                       then Some (newCachingIntrospectionValidator opt) else None);
                 msgs = (if jv = None then [] else [''Auth: installed OAuth2 JWT validator'']) @
                        (if iv = None then [] else [''Auth: installed OAuth2 introspection validator''])
             in if jv = None \<and> iv = None then (msgs, a)
                else (msgs, a\<lparr>ha_validator := Some DefaultValidator, ha_jwt := jv, ha_introspection := iv\<rparr>))
      | _ \<Rightarrow> ([], a))"

definition extractBearerToken :: "header_map \<Rightarrow> string" where
  "extractBearerToken headers =
     (case headers ''authorization'' of
        None \<Rightarrow> ''''
      | Some v \<Rightarrow> if HasPrefix (ToLower v) ''bearer '' then TrimSpace (drop 7 v) else '''')"

definition http_default_validate :: "http_auth_env \<Rightarrow> header_map \<Rightarrow> http_auth \<Rightarrow> gerr option \<times> http_auth" where
  "http_default_validate env headers a =
     (let token = extractBearerToken headers in
      if token = '''' then (Some (Err ''missing bearer token''), a)
      else case ha_jwt a of
        Some jv \<Rightarrow>
          if LooksLikeJWT token \<or> ha_introspection a = None then
            (case Validate (hae_auth env) (hae_jwks env) (hae_now env) token jv of
               (r, jv') \<Rightarrow> (r, a\<lparr>ha_jwt := Some jv'\<rparr>))
          else
            (case iv_validate (hae_introspect env) (hae_now env 0) token (the (ha_introspection a)) of
               (r, iv) \<Rightarrow> (r, a\<lparr>ha_introspection := Some iv\<rparr>))
      | None \<Rightarrow>
        (case ha_introspection a of
           Some v \<Rightarrow>
             (case iv_validate (hae_introspect env) (hae_now env 0) token v of
                (r, iv) \<Rightarrow> (r, a\<lparr>ha_introspection := Some iv\<rparr>))
         | None \<Rightarrow> (Some (Err ''missing bearer token''), a)))"

definition http_run_validator :: "http_auth_env \<Rightarrow> dyn_validator \<Rightarrow> header_map \<Rightarrow> http_auth \<Rightarrow> gerr option \<times> http_auth" where
  "http_run_validator env f headers a =
     (case f of UserValidator g \<Rightarrow> (g headers, a) | DefaultValidator \<Rightarrow> http_default_validate env headers a)"

definition http_checkStaticHeaders :: "header_map \<Rightarrow> (string \<times> string) list \<Rightarrow> gerr option" where
  "http_checkStaticHeaders headers required =
     (case find (\<lambda>(k, v). headers (ToLower k) \<noteq> Some v) required of
        None \<Rightarrow> None
      | Some (k, v) \<Rightarrow> Some (Err (''missing/invalid header '' @ k)))"

text \<open>The request headers by lower-case name; a name without values is left out.\<close>

definition collectHeaders :: "(string \<times> string list) list \<Rightarrow> header_map" where
  "collectHeaders hs =
     fold (\<lambda>(k, vals) m. if vals = [] then m else m(ToLower k \<mapsto> hd vals)) hs Map.empty"

text \<open>The WebSocket server takes a token of the query when there is no authorization header.\<close>

definition token_from_query :: "string \<Rightarrow> string \<Rightarrow> header_map \<Rightarrow> header_map" where
  "token_from_query param value headers =
     (if param = '''' then headers
      else let token = TrimSpace value in
        if token = '''' \<or> headers ''authorization'' \<noteq> None then headers
        else headers(''authorization'' \<mapsto> (if HasPrefix (ToLower token) ''bearer '' then token else ''Bearer '' @ token)))"

text \<open>A policy error ends the request, or is logged and forgotten: the second component is what is logged.\<close>

definition applyAuthPolicy :: "gerr \<Rightarrow> bool \<Rightarrow> gerr option \<times> gerr list" where
  "applyAuthPolicy err required = (if required then (Some err, []) else (None, [err]))"

definition authorizeRequest ::
  "http_auth_env \<Rightarrow> header_map \<Rightarrow> http_auth \<Rightarrow> (gerr option \<times> gerr list) \<times> http_auth" where
  "authorizeRequest env headers a =
     (if ha_staticHeaders a = [] \<and> ha_validator a = None then ((None, []), a)
      else case http_checkStaticHeaders headers (ha_staticHeaders a) of
        Some err \<Rightarrow> (applyAuthPolicy err (ha_authRequired a), a)
      | None \<Rightarrow>
        (case ha_validator a of
           None \<Rightarrow> ((None, []), a)
         | Some f \<Rightarrow>
           (case http_run_validator env f headers a of
              (None, a') \<Rightarrow> ((None, []), a')
            | (Some err, a') \<Rightarrow> (applyAuthPolicy err (ha_authRequired a), a'))))"

section \<open>TLS\<close>

text \<open>
  The server side of TLS: \<open>ht_ClientCAs\<close> is the pool read from the CA file. No field asks for a
  client certificate: \<open>ht_ClientAuth\<close> stays at its zero value, which requests none.
\<close>

record http_tls =
  ht_MinVersion :: nat
  ht_MaxVersion :: nat
  ht_ClientCAs :: bool
  ht_ClientAuth :: bool

text \<open>What loading the key pair, reading the CA file and parsing it give.\<close>

record tls_files =
  tf_keypair :: "string \<Rightarrow> string \<Rightarrow> gerr option"
  tf_read :: "string \<Rightarrow> gerr + octets"
  tf_pem :: "octets \<Rightarrow> bool"

definition buildTLSConfig :: "tls_files \<Rightarrow> tls_config \<Rightarrow> gerr + http_tls option" where
  "buildTLSConfig fs c =
     (if \<not> UseTLS c then Inr None
      else case tf_keypair fs (CertFile c) (KeyFile c) of
        Some err \<Rightarrow> Inl (Wrapped ''failed to load server certificate/key'' err)
      | None \<Rightarrow>
        let conf = \<lparr>ht_MinVersion = MinTLSVersion c, ht_MaxVersion = MaxTLSVersion c, ht_ClientCAs = False, ht_ClientAuth = False\<rparr> in
        if CAFile c = '''' then Inr (Some conf)
        else case tf_read fs (CAFile c) of
          Inl err \<Rightarrow> Inl (Wrapped ''unable to read CA file'' err)
        | Inr d \<Rightarrow>
          if \<not> tf_pem fs d then Inl (Err (''failed to parse CA certificate(s) in '' @ CAFile c))
          else Inr (Some (conf\<lparr>ht_ClientCAs := True\<rparr>)))"

section \<open>Lemmas\<close>

lemma authorizeRequest_fields:
  assumes "authorizeRequest env headers a = (r, a')"
  shows "ha_staticHeaders a' = ha_staticHeaders a" "ha_validator a' = ha_validator a" "ha_authRequired a' = ha_authRequired a"
    "ha_authOptions a' = ha_authOptions a"
  using assms
  by (auto simp: authorizeRequest_def http_run_validator_def http_default_validate_def Let_def
      split: if_splits option.splits dyn_validator.splits prod.splits)

lemma http_checkStaticHeaders_None:
  "http_checkStaticHeaders headers hs = None \<longleftrightarrow> (\<forall>(k, v)\<in>set hs. headers (ToLower k) = Some v)"
  by (induction hs) (auto simp: http_checkStaticHeaders_def split: if_splits)

text \<open>
  A strict policy lets a request through only when the static headers are there and the validator, if there is one,
  accepts.
\<close>

lemma authorizeRequest_strict:
  assumes "fst (fst (authorizeRequest env headers a)) = None" and "ha_authRequired a"
  shows "\<forall>(k, v)\<in>set (ha_staticHeaders a). headers (ToLower k) = Some v"
    and "\<forall>f. ha_validator a = Some f \<longrightarrow> fst (http_run_validator env f headers a) = None"
proof -
  show "\<forall>(k, v)\<in>set (ha_staticHeaders a). headers (ToLower k) = Some v"
    using assms unfolding http_checkStaticHeaders_None [symmetric]
    by (auto simp: authorizeRequest_def applyAuthPolicy_def http_checkStaticHeaders_def split: if_splits option.splits)
  show "\<forall>f. ha_validator a = Some f \<longrightarrow> fst (http_run_validator env f headers a) = None"
    using assms by (auto simp: authorizeRequest_def applyAuthPolicy_def split: if_splits option.splits prod.splits)
qed

text \<open>A lenient policy refuses nothing.\<close>

lemma authorizeRequest_lenient: "\<not> ha_authRequired a \<Longrightarrow> fst (fst (authorizeRequest env headers a)) = None"
  by (auto simp: authorizeRequest_def applyAuthPolicy_def split: option.splits prod.splits)

text \<open>
  The default validator is that of the receiving relay: on the same keys, caches and servers it
  gives the same verdict and leaves the same keys and caches.
\<close>

definition same_validators :: "http_auth_env \<Rightarrow> http_auth \<Rightarrow> 'a rr_env \<Rightarrow> 'a rr_sys \<Rightarrow> bool" where
  "same_validators env a renv z \<longleftrightarrow>
     hae_auth env = re_auth renv \<and> hae_jwks env = re_jwks renv \<and> hae_introspect env = re_introspect renv \<and>
     hae_now env = re_now renv \<and> ha_jwt a = rs_jwt z \<and> ha_introspection a = rs_introspection z"

lemma default_validators_agree:
  assumes "same_validators env a renv z"
  shows "fst (http_default_validate env headers a) = fst (default_validate renv headers z) \<and>
    same_validators env (snd (http_default_validate env headers a)) renv (snd (default_validate renv headers z))"
  using assms
  by (auto simp: same_validators_def http_default_validate_def default_validate_def extractBearerToken_def bearer_token_def
      Let_def split: option.splits prod.splits)

text \<open>A CA file changes nothing about who may connect: no client certificate is asked for.\<close>

lemma ca_file_asks_for_no_certificate: "buildTLSConfig fs c = Inr (Some conf) \<Longrightarrow> \<not> ht_ClientAuth conf"
  by (auto simp: buildTLSConfig_def Let_def split: if_splits option.splits sum.splits)

end
