(* ===== verification/Http_Server.thy ===== *)
theory Http_Server
  imports Http_Auth "HOL-Library.AList" "HOL-Library.Sublist"
begin

text \<open>
  The HTTP server (\<^verbatim>\<open>src/pkg/internal/jack/httpserver\<close>): configuration, the handler of a request, and
  \<^verbatim>\<open>Serve\<close>. The decoder of the body, the pipeline behind \<^verbatim>\<open>submitFunc\<close> and the end of the listening
  \<^verbatim>\<open>http.Server\<close> are parameters; the router has already matched the path.
\<close>

section \<open>State\<close>

record http_server =
  hs_metadata :: metadata
  hs_address :: string
  hs_method :: string
  hs_endpoint :: string
  hs_headers :: "(string \<times> string) list"
  hs_timeout :: duration
  hs_tlsConfig :: "http_tls option"
  hs_tlsConfigErr :: "gerr option"
  hs_loggers :: "logger list"
  hs_sensors :: "sensor list"
  hs_auth :: http_auth
  hs_configFrozen :: int
  hs_started :: bool                   \<comment> \<open>\<open>server\<close> is set\<close>

record 'a http_world =
  hw_server :: http_server
  hw_submitted :: "'a list"
  hw_trace :: "'a effect list"

definition NewHTTPServer_base :: "string \<Rightarrow> http_server" where
  "NewHTTPServer_base hash =
     \<lparr>hs_metadata = \<lparr>meta_ID = hash, meta_Type = ''HTTP_SERVER'', meta_Name = ''''\<rparr>, hs_address = '''', hs_method = '''',
      hs_endpoint = '''', hs_headers = [], hs_timeout = 30 * time_Second, hs_tlsConfig = None, hs_tlsConfigErr = None,
      hs_loggers = [], hs_sensors = [], hs_auth = new_http_auth, hs_configFrozen = 0, hs_started = False\<rparr>"

definition hs_NotifyLoggers ::
  "loglevel \<Rightarrow> string \<Rightarrow> (string \<times> 'a logval) list \<Rightarrow> 'a http_world \<Rightarrow> 'a http_world" where
  "hs_NotifyLoggers level msg kvs w =
     w\<lparr>hw_trace := hw_trace w @ log_calls logger_wants_by_level (hs_loggers (hw_server w)) level msg kvs\<rparr>"

definition notifyHTTPServerError :: "gerr \<Rightarrow> 'a http_world \<Rightarrow> 'a http_world" where
  "notifyHTTPServerError err w =
     (let m = hs_metadata (hw_server w) in
      hs_NotifyLoggers ErrorLevel ''HTTP server error''
        [(''component'', LMeta m), (''event'', LStr ''HTTPServerError''), (''error'', LErr (Some err))]
        (w\<lparr>hw_trace := hw_trace w @ sensor_calls (hs_sensors (hw_server w)) (InvokeOnHTTPClientError m err)\<rparr>))"

section \<open>Configuration\<close>

definition hs_requireNotFrozen :: "string \<Rightarrow> http_server \<Rightarrow> panic option" where
  "hs_requireNotFrozen action h =
     (if hs_configFrozen h = 1
      then Some (Panic (''attempted to modify frozen configuration of started component: action='' @ action)) else None)"

definition hs_config :: "string \<Rightarrow> (http_server \<Rightarrow> http_server) \<Rightarrow> http_server \<Rightarrow> panic + http_server" where
  "hs_config action f h = (case hs_requireNotFrozen action h of Some p \<Rightarrow> Inl p | None \<Rightarrow> Inr (f h))"

definition hs_SetAddress :: "string \<Rightarrow> http_server \<Rightarrow> panic + http_server" where
  "hs_SetAddress a = hs_config ''SetAddress'' (\<lambda>h. h\<lparr>hs_address := a\<rparr>)"

definition hs_SetServerConfig :: "string \<Rightarrow> string \<Rightarrow> http_server \<Rightarrow> panic + http_server" where
  "hs_SetServerConfig method endpoint = hs_config ''SetServerConfig'' (\<lambda>h. h\<lparr>hs_method := method, hs_endpoint := endpoint\<rparr>)"

definition hs_AddHeader :: "string \<Rightarrow> string \<Rightarrow> http_server \<Rightarrow> panic + http_server" where
  "hs_AddHeader key val =
     hs_config ''AddHeader'' (\<lambda>h. if key = '''' then h else h\<lparr>hs_headers := AList.update key val (hs_headers h)\<rparr>)"

definition hs_SetTimeout :: "duration \<Rightarrow> http_server \<Rightarrow> panic + http_server" where
  "hs_SetTimeout d = hs_config ''SetTimeout'' (\<lambda>h. h\<lparr>hs_timeout := d\<rparr>)"

definition hs_SetTLSConfig :: "tls_files \<Rightarrow> tls_config \<Rightarrow> http_server \<Rightarrow> panic + http_server" where
  "hs_SetTLSConfig fs c =
     hs_config ''SetTLSConfig''
       (\<lambda>h. if \<not> UseTLS c then h\<lparr>hs_tlsConfig := None, hs_tlsConfigErr := None\<rparr>
            else case buildTLSConfig fs c of
              Inl err \<Rightarrow> h\<lparr>hs_tlsConfig := None, hs_tlsConfigErr := Some err\<rparr>
            | Inr conf \<Rightarrow> h\<lparr>hs_tlsConfig := conf, hs_tlsConfigErr := None\<rparr>)"

definition hs_set_auth :: "string \<Rightarrow> (http_auth \<Rightarrow> http_auth) \<Rightarrow> http_server \<Rightarrow> panic + http_server" where
  "hs_set_auth action f = hs_config action (\<lambda>h. h\<lparr>hs_auth := f (hs_auth h)\<rparr>)"

definition hs_SetAuthenticationOptions :: "authentication_options option \<Rightarrow> http_server \<Rightarrow> panic + http_server" where
  "hs_SetAuthenticationOptions opts = hs_set_auth ''SetAuthenticationOptions'' (\<lambda>a. a\<lparr>ha_authOptions := opts\<rparr>)"

definition hs_SetStaticHeaders :: "(string \<times> string) list \<Rightarrow> http_server \<Rightarrow> panic + http_server" where
  "hs_SetStaticHeaders hs = hs_set_auth ''SetStaticHeaders'' (\<lambda>a. a\<lparr>ha_staticHeaders := hs\<rparr>)"

definition hs_SetDynamicAuthValidator :: "(header_map \<Rightarrow> gerr option) option \<Rightarrow> http_server \<Rightarrow> panic + http_server" where
  "hs_SetDynamicAuthValidator f =
     hs_set_auth ''SetDynamicAuthValidator'' (\<lambda>a. a\<lparr>ha_validator := map_option UserValidator f\<rparr>)"

definition hs_SetAuthRequired :: "bool \<Rightarrow> http_server \<Rightarrow> panic + http_server" where
  "hs_SetAuthRequired b = hs_set_auth ''SetAuthRequired'' (\<lambda>a. a\<lparr>ha_authRequired := b\<rparr>)"

definition hs_SetComponentMetadata :: "string \<Rightarrow> string \<Rightarrow> http_server \<Rightarrow> panic + http_server" where
  "hs_SetComponentMetadata name i =
     hs_config ''SetComponentMetadata'' (\<lambda>h. h\<lparr>hs_metadata := (hs_metadata h)\<lparr>meta_Name := name, meta_ID := i\<rparr>\<rparr>)"

definition hs_ConnectLogger :: "logger option list \<Rightarrow> http_server \<Rightarrow> panic + http_server" where
  "hs_ConnectLogger ls = hs_config ''ConnectLogger'' (\<lambda>h. h\<lparr>hs_loggers := hs_loggers h @ nonnil ls\<rparr>)"

definition hs_ConnectSensor :: "sensor option list \<Rightarrow> http_server \<Rightarrow> panic + http_server" where
  "hs_ConnectSensor ss = hs_config ''ConnectSensor'' (\<lambda>h. h\<lparr>hs_sensors := hs_sensors h @ nonnil ss\<rparr>)"

datatype hs_option =
    HS_WithLogger "logger option list"
  | HS_WithSensor "sensor option list"
  | HS_WithAddress string
  | HS_WithServerConfig string string
  | HS_WithHeader string string
  | HS_WithTimeout duration
  | HS_WithTLS tls_config
  | HS_WithAuthenticationOptions "authentication_options option"
  | HS_WithStaticHeaders "(string \<times> string) list"
  | HS_WithDynamicAuthValidator "(header_map \<Rightarrow> gerr option) option"
  | HS_WithAuthRequired bool

fun apply_hs_option :: "tls_files \<Rightarrow> hs_option \<Rightarrow> http_server \<Rightarrow> panic + http_server" where
  "apply_hs_option fs (HS_WithLogger ls) h = hs_ConnectLogger ls h"
| "apply_hs_option fs (HS_WithSensor ss) h = hs_ConnectSensor ss h"
| "apply_hs_option fs (HS_WithAddress a) h = hs_SetAddress a h"
| "apply_hs_option fs (HS_WithServerConfig m e) h = hs_SetServerConfig m e h"
| "apply_hs_option fs (HS_WithHeader k v) h = hs_AddHeader k v h"
| "apply_hs_option fs (HS_WithTimeout d) h = hs_SetTimeout d h"
| "apply_hs_option fs (HS_WithTLS c) h = hs_SetTLSConfig fs c h"
| "apply_hs_option fs (HS_WithAuthenticationOptions opts) h = hs_SetAuthenticationOptions opts h"
| "apply_hs_option fs (HS_WithStaticHeaders hs) h = hs_SetStaticHeaders hs h"
| "apply_hs_option fs (HS_WithDynamicAuthValidator f) h = hs_SetDynamicAuthValidator f h"
| "apply_hs_option fs (HS_WithAuthRequired b) h = hs_SetAuthRequired b h"

fun apply_hs_options :: "tls_files \<Rightarrow> hs_option list \<Rightarrow> http_server \<Rightarrow> panic + http_server" where
  "apply_hs_options fs [] h = Inr h"
| "apply_hs_options fs (opt # opts) h =
     (case apply_hs_option fs opt h of Inl p \<Rightarrow> Inl p | Inr h' \<Rightarrow> apply_hs_options fs opts h')"

definition NewHTTPServer :: "tls_files \<Rightarrow> string \<Rightarrow> hs_option list \<Rightarrow> panic + http_server" where
  "NewHTTPServer fs hash opts = apply_hs_options fs opts (NewHTTPServer_base hash)"

text \<open>The configuration \<^verbatim>\<open>Serve\<close> reads; the default validator is installed first.\<close>

definition hs_snapshotConfig :: "'a http_world \<Rightarrow> 'a http_world" where
  "hs_snapshotConfig w =
     (case ensureDefaultAuthValidatorLocked (hs_auth (hw_server w)) of
        (msgs, a) \<Rightarrow>
          fold (\<lambda>msg. hs_NotifyLoggers InfoLevel msg []) msgs
            (w\<lparr>hw_server := (hw_server w)\<lparr>hs_auth := a\<rparr>\<rparr>))"

section \<open>A request\<close>

record http_request =
  rq_method :: string
  rq_headers :: "(string \<times> string list) list"
  rq_body :: octets

text \<open>
  What the handler gave to the \<^verbatim>\<open>ResponseWriter\<close>: header fields by canonical name, the status and the body.
\<close>

record http_reply =
  rp_status :: int
  rp_headers :: "string \<rightharpoonup> string"
  rp_body :: octets

text \<open>
  \<^verbatim>\<open>http.CanonicalHeaderKey\<close>: a name made of token characters gets a capital at its start and after each hyphen
  and small letters elsewhere; any other name is left as it is.
\<close>

definition token_char :: "char \<Rightarrow> bool" where
  "token_char c \<longleftrightarrow>
     (let n = of_char c :: nat in
      48 \<le> n \<and> n \<le> 57 \<or> 65 \<le> n \<and> n \<le> 90 \<or> 97 \<le> n \<and> n \<le> 122 \<or> c \<in> set ''!#$%&*+-.^_`|~'' \<or> n = 39)"

fun canonical_from :: "bool \<Rightarrow> string \<Rightarrow> string" where
  "canonical_from up [] = []"
| "canonical_from up (c # cs) = (if up then upper_char c else lower_char c) # canonical_from (c = CHR ''-'') cs"

definition CanonicalHeaderKey :: "string \<Rightarrow> string" where
  "CanonicalHeaderKey s = (if list_all token_char s then canonical_from True s else s)"

definition header_Set :: "string \<Rightarrow> string \<Rightarrow> (string \<rightharpoonup> string) \<Rightarrow> string \<rightharpoonup> string" where
  "header_Set k v m = m(CanonicalHeaderKey k \<mapsto> v)"

text \<open>\<^verbatim>\<open>WriteHeader\<close> panics on a status that has not three digits.\<close>

definition WriteHeader :: "int \<Rightarrow> (string \<rightharpoonup> string) \<Rightarrow> octets \<Rightarrow> panic + http_reply" where
  "WriteHeader status hs body =
     (if status < 100 \<or> status > 999 then Inl (Panic ''invalid WriteHeader code'')
      else Inr \<lparr>rp_status = status, rp_headers = hs, rp_body = body\<rparr>)"

definition http_Error :: "string \<Rightarrow> int \<Rightarrow> panic + http_reply" where
  "http_Error msg status =
     WriteHeader status [''Content-Type'' \<mapsto> ''text/plain; charset=utf-8'', ''X-Content-Type-Options'' \<mapsto> ''nosniff'']
       (bytes_of (msg @ [CHR 0x0A]))"

record submit_response =
  sr_StatusCode :: int
  sr_Headers :: "(string \<times> string) list"   \<comment> \<open>in the order the loop visits them\<close>
  sr_Body :: octets

text \<open>The error of a pipeline: its text, and the status and message of the \<^verbatim>\<open>HTTPServerError\<close> in its chain if there is one.\<close>

record submit_error =
  se_text :: string
  se_server :: "(int \<times> string) option"

record 'a http_env =
  he_auth :: http_auth_env
  he_decode :: "octets \<Rightarrow> string + 'a"
  he_submit :: "'a \<Rightarrow> submit_error + submit_response"

definition submit_error_reply :: "submit_error \<Rightarrow> panic + http_reply" where
  "submit_error_reply e =
     (case se_server e of
        Some (code, msg) \<Rightarrow>
          http_Error (if msg = '''' then se_text e else msg) (if code \<noteq> 0 then code else 500)
      | None \<Rightarrow> http_Error (''Pipeline error: '' @ se_text e) 500)"

definition success_headers :: "(string \<times> string) list \<Rightarrow> (string \<times> string) list \<Rightarrow> string \<rightharpoonup> string" where
  "success_headers defaults own =
     fold (\<lambda>(k, v). header_Set k v) own
       (fold (\<lambda>(k, v). if k \<in> fst ` set own then id else header_Set k v) defaults Map.empty)"

definition success_reply :: "(string \<times> string) list \<Rightarrow> submit_response \<Rightarrow> panic + http_reply" where
  "success_reply defaults resp =
     WriteHeader (if sr_StatusCode resp = 0 then 200 else sr_StatusCode resp)
       (success_headers defaults (sr_Headers resp)) (sr_Body resp)"

definition hs_authorize :: "http_auth_env \<Rightarrow> http_request \<Rightarrow> 'a http_world \<Rightarrow> gerr option \<times> 'a http_world" where
  "hs_authorize env r w =
     (case authorizeRequest env (collectHeaders (rq_headers r)) (hs_auth (hw_server w)) of
        ((err, soft), a) \<Rightarrow>
          (err, fold (\<lambda>e. hs_NotifyLoggers WarnLevel ''Auth: soft-failing policy error''
                   [(''component'', LMeta (hs_metadata (hw_server w))), (''event'', LStr ''AuthPolicy''), (''error'', LErr (Some e))])
                 soft (w\<lparr>hw_server := (hw_server w)\<lparr>hs_auth := a\<rparr>\<rparr>)))"

definition handle_request :: "'a http_env \<Rightarrow> http_request \<Rightarrow> 'a http_world \<Rightarrow> (panic + http_reply) \<times> 'a http_world" where
  "handle_request env r w =
     (if hs_method (hw_server w) \<noteq> '''' \<and> rq_method r \<noteq> hs_method (hw_server w)
      then (http_Error ''Method Not Allowed'' 405, w)
      else case hs_authorize (he_auth env) r w of
        (Some err, w1) \<Rightarrow>
          (http_Error ''Unauthorized'' 401,
           hs_NotifyLoggers WarnLevel ''Auth: request rejected''
             [(''component'', LMeta (hs_metadata (hw_server w1))), (''event'', LStr ''AuthReject''), (''error'', LErr (Some err))] w1)
      | (None, w1) \<Rightarrow>
        (case he_decode env (rq_body r) of
           Inl e \<Rightarrow> (http_Error (''Error parsing request: '' @ e) 400, notifyHTTPServerError (Err e) w1)
         | Inr d \<Rightarrow>
           let w2 = w1\<lparr>hw_submitted := hw_submitted w1 @ [d]\<rparr> in
           (case he_submit env d of
              Inl e \<Rightarrow> (submit_error_reply e, notifyHTTPServerError (Err (se_text e)) w2)
            | Inr resp \<Rightarrow> (success_reply (hs_headers (hw_server w2)) resp, w2))))"

section \<open>Serving\<close>

text \<open>How the \<^verbatim>\<open>select\<close> at the end of \<^verbatim>\<open>Serve\<close> goes: the context ends, or the listening server does.\<close>

datatype serve_end = ServeCancelled | ServerClosed | ServerFailed gerr

definition serve_precheck :: "http_server \<Rightarrow> gerr option" where
  "serve_precheck h =
     (if hs_tlsConfigErr h \<noteq> None then hs_tlsConfigErr h
      else if hs_method h = '''' then Some (Err ''method not configured'')
      else if hs_endpoint h = '''' then Some (Err ''endpoint not configured'') else None)"

text \<open>Up to the start of the listening goroutine: the error of an early return, or the world the handler runs in.\<close>

definition Serve_start :: "bool \<Rightarrow> 'a http_world \<Rightarrow> gerr option \<times> 'a http_world" where
  "Serve_start submit_set w =
     (if \<not> submit_set then (Some (Err ''submitFunc cannot be nil''), w)
      else if hs_started (hw_server w) then (Some (Err ''server already started''), w)
      else
        let w1 = hs_snapshotConfig w in
        (case serve_precheck (hw_server w1) of
           Some err \<Rightarrow> (Some err, w1)
         | None \<Rightarrow>
           let h = (hw_server w1)\<lparr>hs_configFrozen := 1, hs_started := True\<rparr>;
               tls = (hs_tlsConfig h \<noteq> None)
           in (None,
               hs_NotifyLoggers InfoLevel (if tls then ''Serve: starting HTTPS server'' else ''Serve: starting HTTP server'')
                 [(''component'', LMeta (hs_metadata h)), (''event'', LStr ''ServeStart''), (''tls'', LBool tls),
                  (''address'', LStr (hs_address h)), (''endpoint'', LStr (hs_endpoint h))]
                 (w1\<lparr>hw_server := h\<rparr>))))"

text \<open>The requests served meanwhile, in the order they are handled.\<close>

fun handle_requests :: "'a http_env \<Rightarrow> http_request list \<Rightarrow> 'a http_world \<Rightarrow> (panic + http_reply) list \<times> 'a http_world" where
  "handle_requests env [] w = ([], w)"
| "handle_requests env (r # rs) w =
     (case handle_request env r w of (p, w1) \<Rightarrow> (case handle_requests env rs w1 of (ps, w2) \<Rightarrow> (p # ps, w2)))"

definition Serve_finish :: "serve_end \<Rightarrow> 'a http_world \<Rightarrow> gerr option \<times> 'a http_world" where
  "Serve_finish e w =
     (case e of
        ServeCancelled \<Rightarrow>
          (Some CtxErr, hs_NotifyLoggers WarnLevel ''Serve: context canceled, shutting down''
             [(''component'', LMeta (hs_metadata (hw_server w))), (''event'', LStr ''ServeStop''), (''result'', LStr ''CANCELLED'')] w)
      | ServerClosed \<Rightarrow> (None, w)
      | ServerFailed err \<Rightarrow>
          (Some err, hs_NotifyLoggers ErrorLevel ''Serve: server error''
             [(''component'', LMeta (hs_metadata (hw_server w))), (''event'', LStr ''ServeError''), (''error'', LErr (Some err))] w))"

definition hs_Serve ::
  "'a http_env \<Rightarrow> bool \<Rightarrow> http_request list \<Rightarrow> serve_end \<Rightarrow> 'a http_world \<Rightarrow>
   gerr option \<times> (panic + http_reply) list \<times> 'a http_world" where
  "hs_Serve env submit_set rs e w =
     (case Serve_start submit_set w of
        (Some err, w1) \<Rightarrow> (Some err, [], w1)
      | (None, w1) \<Rightarrow>
        (case handle_requests env rs w1 of
           (ps, w2) \<Rightarrow> (case Serve_finish e w2 of (err, w3) \<Rightarrow> (err, ps, w3))))"

section \<open>Lemmas: the handler\<close>

lemma hs_NotifyLoggers_same [simp]:
  "hw_server (hs_NotifyLoggers l msg kvs w) = hw_server w"
  "hw_submitted (hs_NotifyLoggers l msg kvs w) = hw_submitted w"
  by (simp_all add: hs_NotifyLoggers_def)

lemma notifyHTTPServerError_same [simp]:
  "hw_server (notifyHTTPServerError err w) = hw_server w"
  "hw_submitted (notifyHTTPServerError err w) = hw_submitted w"
  by (simp_all add: notifyHTTPServerError_def Let_def)

lemma fold_hs_NotifyLoggers_same [simp]:
  "hw_server (fold (\<lambda>x. hs_NotifyLoggers l (m x) (k x)) xs w) = hw_server w"
  "hw_submitted (fold (\<lambda>x. hs_NotifyLoggers l (m x) (k x)) xs w) = hw_submitted w"
  by (induction xs arbitrary: w) simp_all

text \<open>What a request must show to reach the pipeline of a strict server.\<close>

definition admits :: "http_server \<Rightarrow> http_request \<Rightarrow> bool" where
  "admits h r \<longleftrightarrow>
     (let headers = collectHeaders (rq_headers r) in
      (hs_method h = '''' \<or> rq_method r = hs_method h) \<and>
      (\<forall>(k, v)\<in>set (ha_staticHeaders (hs_auth h)). headers (ToLower k) = Some v) \<and>
      (case ha_validator (hs_auth h) of
         None \<Rightarrow> True
       | Some (UserValidator g) \<Rightarrow> g headers = None
       | Some DefaultValidator \<Rightarrow> extractBearerToken headers \<noteq> ''''))"

text \<open>What the policy of a server never loses while it serves: all but the keys and the cache.\<close>

definition same_policy :: "http_server \<Rightarrow> http_server \<Rightarrow> bool" where
  "same_policy h h' \<longleftrightarrow>
     hs_method h' = hs_method h \<and> hs_headers h' = hs_headers h \<and> hs_configFrozen h' = hs_configFrozen h \<and>
     hs_started h' = hs_started h \<and>
     ha_staticHeaders (hs_auth h') = ha_staticHeaders (hs_auth h) \<and> ha_validator (hs_auth h') = ha_validator (hs_auth h) \<and>
     ha_authRequired (hs_auth h') = ha_authRequired (hs_auth h)"

lemma same_policy_refl [simp]: "same_policy h h"
  by (simp add: same_policy_def)

lemma same_policy_trans: "same_policy h h' \<Longrightarrow> same_policy h' h'' \<Longrightarrow> same_policy h h''"
  by (simp add: same_policy_def)

lemma admits_same_policy: "same_policy h h' \<Longrightarrow> admits h' r = admits h r"
  by (simp add: same_policy_def admits_def)

lemma hs_authorize_spec:
  assumes "hs_authorize env r w = (err, w')"
  shows "same_policy (hw_server w) (hw_server w')" "hw_submitted w' = hw_submitted w"
    "err = fst (fst (authorizeRequest env (collectHeaders (rq_headers r)) (hs_auth (hw_server w))))"
proof -
  obtain e soft a where e: "authorizeRequest env (collectHeaders (rq_headers r)) (hs_auth (hw_server w)) = ((e, soft), a)"
    by (metis surj_pair)
  show "same_policy (hw_server w) (hw_server w')" "hw_submitted w' = hw_submitted w"
    "err = fst (fst (authorizeRequest env (collectHeaders (rq_headers r)) (hs_auth (hw_server w))))"
    using assms e authorizeRequest_fields [OF e] by (auto simp: hs_authorize_def same_policy_def)
qed

lemma http_default_validate_token: "fst (http_default_validate env headers a) = None \<Longrightarrow> extractBearerToken headers \<noteq> ''''"
  by (auto simp: http_default_validate_def)

lemma authorizeRequest_admits:
  assumes "fst (fst (authorizeRequest env (collectHeaders (rq_headers r)) (hs_auth h))) = None" and "ha_authRequired (hs_auth h)"
    and "hs_method h = '''' \<or> rq_method r = hs_method h"
  shows "admits h r"
  using authorizeRequest_strict [OF assms(1,2)] assms(3)
  by (auto simp: admits_def http_run_validator_def Let_def split: option.splits dyn_validator.splits
      dest!: http_default_validate_token)

text \<open>A request leaves the policy as it is, and submits nothing or, if it is admitted, what its body decodes to.\<close>

lemma handle_request_policy: "same_policy (hw_server w) (hw_server (snd (handle_request env r w)))"
  by (auto simp: handle_request_def Let_def split: prod.splits option.splits sum.splits dest: hs_authorize_spec)

definition decoded_body :: "'a http_env \<Rightarrow> http_request \<Rightarrow> 'a list" where
  "decoded_body env r = (case he_decode env (rq_body r) of Inl e \<Rightarrow> [] | Inr d \<Rightarrow> [d])"

lemma handle_request_submits:
  "hw_submitted (snd (handle_request env r w)) =
     hw_submitted w @
       (if (hs_method (hw_server w) = '''' \<or> rq_method r = hs_method (hw_server w)) \<and>
           fst (fst (authorizeRequest (he_auth env) (collectHeaders (rq_headers r)) (hs_auth (hw_server w)))) = None
        then decoded_body env r else [])"
proof -
  obtain err w1 where w1: "hs_authorize (he_auth env) r w = (err, w1)"
    by (metis surj_pair)
  show ?thesis
    using hs_authorize_spec [OF w1]
    by (auto simp: handle_request_def w1 decoded_body_def Let_def split: option.splits sum.splits)
qed

lemma handle_requests_policy: "same_policy (hw_server w) (hw_server (snd (handle_requests env rs w)))"
proof (induction rs arbitrary: w)
  case (Cons r rs)
  show ?case
    using same_policy_trans [OF handle_request_policy Cons.IH]
    by (simp add: split: prod.splits) (metis snd_conv)
qed simp

lemma handle_requests_submits:
  assumes "ha_authRequired (hs_auth (hw_server w))"
  shows "\<exists>ds. hw_submitted (snd (handle_requests env rs w)) = hw_submitted w @ ds \<and>
    subseq ds (concat (map (decoded_body env) (filter (admits (hw_server w)) rs)))"
  using assms
proof (induction rs arbitrary: w)
  case (Cons r rs)
  obtain p w1 where w1: "handle_request env r w = (p, w1)"
    by (metis surj_pair)
  have pol: "same_policy (hw_server w) (hw_server w1)"
    using handle_request_policy [of w env r] by (simp add: w1)
  have adm: "admits (hw_server w1) = admits (hw_server w)"
    by (rule ext) (rule admits_same_policy [OF pol])
  have req: "ha_authRequired (hs_auth (hw_server w1))"
    using pol Cons.prems by (simp add: same_policy_def)
  obtain ds where ds: "hw_submitted (snd (handle_requests env rs w1)) = hw_submitted w1 @ ds"
      "subseq ds (concat (map (decoded_body env) (filter (admits (hw_server w)) rs)))"
    using Cons.IH [OF req] by (auto simp: adm)
  obtain ds1 where ds1: "hw_submitted w1 = hw_submitted w @ ds1"
      "subseq ds1 (if admits (hw_server w) r then decoded_body env r else [])"
    using handle_request_submits [of env r w] authorizeRequest_admits [OF _ Cons.prems] by (force simp: w1)
  have "subseq (ds1 @ ds) (concat (map (decoded_body env) (filter (admits (hw_server w)) (r # rs))))"
    using list_emb_append_mono [OF ds1(2) ds(2)] by (simp split: if_splits)
  with ds(1) ds1(1) show ?case
    by (intro exI [of _ "ds1 @ ds"]) (auto simp: w1 split: prod.splits)
qed simp

text \<open>
  C29: A server that requires authentication submits, whatever requests come while it serves, only what
  the bodies of admitted requests decode to, each at most once and in the order of the requests: an
  admitted request has the method of the server and its static headers, passes the validator of the user,
  and carries a bearer token where the default validator is installed.
\<close>

theorem strict_server_submits_only_admitted:
  assumes "Serve_start True w = (None, w1)" and "ha_authRequired (hs_auth (hw_server w1))"
  shows "\<exists>ds. hw_submitted (snd (snd (hs_Serve env True rs e w))) = hw_submitted w1 @ ds \<and>
    subseq ds (concat (map (decoded_body env) (filter (admits (hw_server w1)) rs)))"
  using handle_requests_submits [OF assms(2), of env rs]
  by (auto simp: hs_Serve_def assms(1) Serve_finish_def split: prod.splits serve_end.splits)

definition demo_server :: http_server where
  "demo_server = (NewHTTPServer_base ''h'')\<lparr>hs_method := ''POST'', hs_endpoint := ''/in'',
     hs_auth := new_http_auth\<lparr>ha_staticHeaders := [(''X-Key'', ''k1'')]\<rparr>\<rparr>"

definition demo_world :: "string http_world" where
  "demo_world = \<lparr>hw_server = demo_server, hw_submitted = [], hw_trace = []\<rparr>"

definition demo_env :: "string http_env" where
  "demo_env = \<lparr>he_auth = undefined, he_decode = (\<lambda>b. if b = [] then Inl ''empty'' else Inr ''d''),
     he_submit = (\<lambda>d. Inr \<lparr>sr_StatusCode = 0, sr_Headers = [], sr_Body = []\<rparr>)\<rparr>"

lemma demo_Serve_start:
  "Serve_start True demo_world = (None, snd (Serve_start True demo_world))"
  "hw_server (snd (Serve_start True demo_world)) = demo_server\<lparr>hs_configFrozen := 1, hs_started := True\<rparr>"
  by (simp_all add: Serve_start_def demo_world_def demo_server_def NewHTTPServer_base_def hs_snapshotConfig_def
      ensureDefaultAuthValidatorLocked_def new_http_auth_def serve_precheck_def Let_def)

lemma strict_server_submits_only_admitted_witness:
  "\<exists>ds. hw_submitted (snd (snd (hs_Serve demo_env True
        [\<lparr>rq_method = ''POST'', rq_headers = [(''X-Key'', [''k2''])], rq_body = [1]\<rparr>] ServerClosed demo_world))) =
      hw_submitted (snd (Serve_start True demo_world)) @ ds \<and>
    subseq ds (concat (map (decoded_body demo_env) (filter (admits (demo_server\<lparr>hs_configFrozen := 1, hs_started := True\<rparr>))
      [\<lparr>rq_method = ''POST'', rq_headers = [(''X-Key'', [''k2''])], rq_body = [1]\<rparr>])))"
  using strict_server_submits_only_admitted [OF demo_Serve_start(1),
      of demo_env "[\<lparr>rq_method = ''POST'', rq_headers = [(''X-Key'', [''k2''])], rq_body = [1]\<rparr>]" ServerClosed]
  unfolding demo_Serve_start(2) by (simp add: demo_server_def new_http_auth_def)

section \<open>Lemmas: headers and replies\<close>

definition canonical_headers :: "(string \<times> string) list \<Rightarrow> (string \<times> string) list" where
  "canonical_headers hs = map (\<lambda>h. (CanonicalHeaderKey (fst h), snd h)) hs"

lemma fold_header_Set:
  "distinct (map fst (canonical_headers hs)) \<Longrightarrow>
   fold (\<lambda>(k, v). header_Set k v) hs m = m ++ map_of (canonical_headers hs)"
proof (induction hs arbitrary: m)
  case (Cons h hs)
  obtain k v where h: "h = (k, v)"
    by (cases h)
  have "header_Set k v m ++ map_of (canonical_headers hs) =
      (m ++ map_of (canonical_headers hs))(CanonicalHeaderKey k \<mapsto> v)"
    unfolding header_Set_def
    using Cons.prems by (intro map_add_upd_left) (force simp: h canonical_headers_def dom_map_of_conv_image_fst)
  moreover have "fold (\<lambda>(k, v). header_Set k v) hs (header_Set k v m) = header_Set k v m ++ map_of (canonical_headers hs)"
    using Cons by (simp add: canonical_headers_def)
  ultimately show ?case
    by (simp add: h canonical_headers_def map_add_def fun_eq_iff)
qed (simp add: canonical_headers_def)

lemma fold_default_headers:
  assumes "distinct (map fst (canonical_headers hs))"
  shows "fold (\<lambda>(k, v). if k \<in> K then id else header_Set k v) hs m =
    m ++ map_of (canonical_headers (filter (\<lambda>(k, v). k \<notin> K) hs))"
proof -
  have "fold (\<lambda>(k, v). if k \<in> K then id else header_Set k v) hs m =
      fold (\<lambda>(k, v). header_Set k v) (filter (\<lambda>(k, v). k \<notin> K) hs) m"
    by (induction hs arbitrary: m) (auto split: prod.splits)
  moreover have "distinct (map fst (canonical_headers (filter (\<lambda>(k, v). k \<notin> K) hs)))"
    using assms by (induction hs) (force simp: canonical_headers_def)+
  ultimately show ?thesis
    by (simp add: fold_header_Set)
qed

lemma skipped_defaults_are_overridden:
  assumes "distinct (map fst (canonical_headers defaults))"
  shows "map_of (canonical_headers (filter (\<lambda>(k, v). k \<notin> fst ` set own) defaults)) ++ map_of (canonical_headers own) =
    map_of (canonical_headers defaults) ++ map_of (canonical_headers own)"
proof
  fix c
  show "(map_of (canonical_headers (filter (\<lambda>(k, v). k \<notin> fst ` set own) defaults)) ++ map_of (canonical_headers own)) c =
      (map_of (canonical_headers defaults) ++ map_of (canonical_headers own)) c"
  proof (cases "map_of (canonical_headers own) c")
    case None
    then have "c \<notin> fst ` set (canonical_headers own)"
      by (simp add: map_of_eq_None_iff)
    then have "map_of (canonical_headers (filter (\<lambda>(k, v). k \<notin> fst ` set own) defaults)) c = map_of (canonical_headers defaults) c"
      by (induction defaults) (force simp: canonical_headers_def split: prod.splits)+
    then show ?thesis
      using None by (simp add: map_add_def)
  qed (simp add: map_add_def)
qed

text \<open>
  The header fields of a reply are the default headers of the server overridden by those of the
  pipeline, name for canonical name, whatever order the two maps are visited in.
\<close>

theorem pipeline_headers_override_defaults:
  assumes "distinct (map fst (canonical_headers defaults))" and "distinct (map fst (canonical_headers (sr_Headers resp)))"
    and "success_reply defaults resp = Inr p"
  shows "rp_headers p = map_of (canonical_headers defaults) ++ map_of (canonical_headers (sr_Headers resp))"
  using assms
  by (auto simp: success_reply_def success_headers_def WriteHeader_def fold_header_Set fold_default_headers
      skipped_defaults_are_overridden split: if_splits)

definition demo_response :: submit_response where
  "demo_response = \<lparr>sr_StatusCode = 0, sr_Headers = [(''content-type'', ''b'')], sr_Body = []\<rparr>"

lemma pipeline_headers_override_defaults_witness:
  "\<exists>p. success_reply [(''Content-Type'', ''a''), (''X-Id'', ''1'')] demo_response = Inr p \<and>
     rp_headers p = map_of [(''Content-Type'', ''a''), (''X-Id'', ''1'')] ++ map_of [(''Content-Type'', ''b'')]"
proof -
  have c: "canonical_headers [(''Content-Type'', ''a''), (''X-Id'', ''1'')] = [(''Content-Type'', ''a''), (''X-Id'', ''1'')]"
      "canonical_headers (sr_Headers demo_response) = [(''Content-Type'', ''b'')]"
    by code_simp+
  obtain p where p: "success_reply [(''Content-Type'', ''a''), (''X-Id'', ''1'')] demo_response = Inr p"
    by (simp add: success_reply_def WriteHeader_def demo_response_def)
  from pipeline_headers_override_defaults [OF _ _ p] show ?thesis
    unfolding c by (auto simp: p)
qed

text \<open>The status of every reply the handler itself makes up is fixed; only the pipeline chooses others.\<close>

lemma http_Error_ok: "100 \<le> status \<Longrightarrow> status \<le> 999 \<Longrightarrow> \<exists>p. http_Error msg status = Inr p \<and> rp_status p = status"
  by (simp add: http_Error_def WriteHeader_def)

definition valid_status :: "int \<Rightarrow> bool" where
  "valid_status n \<longleftrightarrow> n = 0 \<or> 100 \<le> n \<and> n \<le> 999"

definition status_of :: "panic + http_reply \<Rightarrow> int option" where
  "status_of p = (case p of Inl _ \<Rightarrow> None | Inr r \<Rightarrow> Some (rp_status r))"

definition submit_status :: "submit_error + submit_response \<Rightarrow> int" where
  "submit_status s =
     (case s of
        Inl e \<Rightarrow> (case se_server e of Some (n, _) \<Rightarrow> if n = 0 then 500 else n | None \<Rightarrow> 500)
      | Inr resp \<Rightarrow> if sr_StatusCode resp = 0 then 200 else sr_StatusCode resp)"

lemma submit_reply_status:
  "status_of (case s of Inl e \<Rightarrow> submit_error_reply e | Inr resp \<Rightarrow> success_reply defaults resp) =
     (if 100 \<le> submit_status s \<and> submit_status s \<le> 999 then Some (submit_status s) else None)"
  by (auto simp: submit_status_def submit_error_reply_def success_reply_def http_Error_def WriteHeader_def status_of_def
      split: sum.splits option.splits if_splits)

lemma fixed_statuses [simp]:
  "status_of (http_Error m 405) = Some 405" "status_of (http_Error m 401) = Some 401" "status_of (http_Error m 400) = Some 400"
  by (simp_all add: status_of_def http_Error_def WriteHeader_def)

text \<open>
  The status of a request in the order of the checks: 405 for another method, 401 for a policy
  error, 400 for a body that does not decode, and else the status the pipeline chose (500 for its
  errors and 200 for its responses where it chose none); a status of the pipeline that has not three
  digits makes the handler panic.
\<close>

theorem request_status:
  "status_of (fst (handle_request env r w)) =
     (if hs_method (hw_server w) \<noteq> '''' \<and> rq_method r \<noteq> hs_method (hw_server w) then Some 405
      else if fst (fst (authorizeRequest (he_auth env) (collectHeaders (rq_headers r)) (hs_auth (hw_server w)))) \<noteq> None then Some 401
      else case he_decode env (rq_body r) of
        Inl _ \<Rightarrow> Some 400
      | Inr d \<Rightarrow>
          let n = submit_status (he_submit env d) in if 100 \<le> n \<and> n \<le> 999 then Some n else None)"
proof -
  obtain err w1 where w1: "hs_authorize (he_auth env) r w = (err, w1)"
    by (metis surj_pair)
  have err: "fst (fst (authorizeRequest (he_auth env) (collectHeaders (rq_headers r)) (hs_auth (hw_server w)))) = err"
    using hs_authorize_spec(3) [OF w1] by simp
  show ?thesis
  proof (cases "he_decode env (rq_body r)")
    case (Inr d)
    show ?thesis
      using submit_reply_status [of "hs_headers (hw_server w1)" "he_submit env d"] unfolding err
      by (cases "he_submit env d") (auto simp: handle_request_def w1 Inr Let_def split: option.splits)
  qed (auto simp: handle_request_def w1 err split: option.splits)
qed

section \<open>Lemmas: serving\<close>

lemma hs_snapshotConfig_frozen [simp]:
  "hs_configFrozen (hw_server (hs_snapshotConfig w)) = hs_configFrozen (hw_server w)"
  by (simp add: hs_snapshotConfig_def split: prod.splits)

lemma Serve_start_started:
  assumes "Serve_start s w = (None, w1)"
  shows "hs_started (hw_server w1)" "hs_configFrozen (hw_server w1) = 1" "s"
  using assms by (auto simp: Serve_start_def Let_def split: if_splits option.splits)

lemma hs_Serve_started:
  assumes "Serve_start s w = (None, w1)"
  shows "hs_started (hw_server (snd (snd (hs_Serve env s rs e w))))"
    "hs_configFrozen (hw_server (snd (snd (hs_Serve env s rs e w)))) = 1"
  using Serve_start_started(1,2) [OF assms] handle_requests_policy [of w1 env rs]
  by (auto simp: hs_Serve_def assms Serve_finish_def same_policy_def split: prod.splits serve_end.splits)

lemma frozen_server_options: "hs_configFrozen h = 1 \<Longrightarrow> \<exists>p. apply_hs_option fs opt h = Inl p"
  by (cases opt)
    (auto simp: hs_ConnectLogger_def hs_ConnectSensor_def hs_SetAddress_def hs_SetServerConfig_def hs_AddHeader_def hs_SetTimeout_def
      hs_SetTLSConfig_def hs_SetAuthenticationOptions_def hs_SetStaticHeaders_def hs_SetDynamicAuthValidator_def
      hs_SetAuthRequired_def hs_set_auth_def hs_config_def hs_requireNotFrozen_def)

text \<open>
  A server serves once: after a \<^verbatim>\<open>Serve\<close> that got past its checks, however it ended, the next one
  fails without handling a request or changing anything, and every option panics.
\<close>

theorem server_serves_once:
  assumes "Serve_start s w = (None, w1)" and "w2 = snd (snd (hs_Serve env s rs e w))"
  shows "hs_Serve env' True rs' e' w2 = (Some (Err ''server already started''), [], w2)"
    and "\<exists>p. apply_hs_option fs opt (hw_server w2) = Inl p"
proof -
  show "hs_Serve env' True rs' e' w2 = (Some (Err ''server already started''), [], w2)"
    using hs_Serve_started(1) [OF assms(1)] by (simp add: assms(2) hs_Serve_def Serve_start_def)
  show "\<exists>p. apply_hs_option fs opt (hw_server w2) = Inl p"
    using hs_Serve_started(2) [OF assms(1)] frozen_server_options unfolding assms(2) by blast
qed

lemma server_serves_once_witness:
  "hs_Serve demo_env True [] ServerClosed (snd (snd (hs_Serve demo_env True [] ServeCancelled demo_world))) =
    (Some (Err ''server already started''), [], snd (snd (hs_Serve demo_env True [] ServeCancelled demo_world)))"
  by (rule server_serves_once(1) [OF demo_Serve_start(1) refl])

end
