(* ===== verification/Ws_Connection.thy ===== *)
theory Ws_Connection
  imports Go_Strings Go_Chan "HOL-Library.AList"
begin

text \<open>
  The connections of the WebSocket server (\<^verbatim>\<open>src/pkg/internal/jack/websocket\<close>): the formats of
  messages (\<^verbatim>\<open>codec.go\<close>), one connection with its send queue as a system of concurrent senders, closers and
  a writer (\<^verbatim>\<open>connections.go\<close>, \<^verbatim>\<open>writeLoop\<close> of \<^verbatim>\<open>serve.go\<close>), and the table of connections with its limit.
  The JSON and protobuf libraries are parameters.
\<close>

section \<open>Messages\<close>

datatype message_type = MessageText | MessageBinary

type_synonym outbound = "message_type \<times> octets"

text \<open>The type parameter of the server, as far as its formats tell types apart, and a value of it.\<close>

datatype item_type = StringType | BytesType | ProtoPointerType | OtherType

datatype 'a item = StringItem string | BytesItem octets | OtherItem 'a

text \<open>
  \<open>ml_proto_nil\<close> is \<^verbatim>\<open>proto.Unmarshal\<close> into a nil pointer of the message type, and \<open>ml_message\<close> says whether
  the type parameter or a pointer to it is a protobuf message.
\<close>

record 'a message_lib =
  ml_type :: item_type
  ml_json_marshal :: "'a item \<Rightarrow> gerr + octets"
  ml_json_unmarshal :: "octets \<Rightarrow> gerr + 'a item"
  ml_message :: bool
  ml_proto_marshal :: "'a item \<Rightarrow> gerr + octets"
  ml_proto_nil :: "octets \<Rightarrow> panic + (gerr + 'a item)"

definition normalizeFormat :: "string \<Rightarrow> string" where
  "normalizeFormat s = (let f = ToLower (TrimSpace s) in if f = '''' then ''json'' else f)"

definition validateFormat :: "string \<Rightarrow> gerr option" where
  "validateFormat s =
     (if normalizeFormat s \<in> {''json'', ''binary'', ''proto'', ''text''} then None
      else Some (Err ''unsupported websocket format''))"

definition string_of_bytes :: "octets \<Rightarrow> string" where
  "string_of_bytes b = map (\<lambda>w. char_of (unat w)) b"

text \<open>The decimal digits of a count in an error text.\<close>

fun decimal :: "nat \<Rightarrow> string" where
  "decimal n = (if n < 10 then [char_of (48 + n)] else decimal (n div 10) @ [char_of (48 + n mod 10)])"

declare decimal.simps [simp del]

definition encodeText :: "'a item \<Rightarrow> gerr + octets" where
  "encodeText m =
     (case m of
        StringItem s \<Rightarrow> Inr (bytes_of s)
      | BytesItem b \<Rightarrow> Inr b
      | OtherItem _ \<Rightarrow> Inl (Err ''text format requires T to be string or []byte''))"

definition decodeText :: "item_type \<Rightarrow> octets \<Rightarrow> gerr + 'a item" where
  "decodeText t b =
     (case t of
        StringType \<Rightarrow> Inr (StringItem (string_of_bytes b))
      | BytesType \<Rightarrow> Inr (BytesItem b)
      | _ \<Rightarrow> Inl (Err ''text format requires T to be string or []byte''))"

definition encodeBinary :: "'a item \<Rightarrow> gerr + octets" where
  "encodeBinary m =
     (case m of
        BytesItem b \<Rightarrow> Inr b
      | StringItem s \<Rightarrow> Inr (bytes_of s)
      | OtherItem _ \<Rightarrow> Inl (Err ''binary format requires T to be []byte or string''))"

definition decodeBinary :: "item_type \<Rightarrow> octets \<Rightarrow> gerr + 'a item" where
  "decodeBinary t b =
     (case t of
        BytesType \<Rightarrow> Inr (BytesItem b)
      | StringType \<Rightarrow> Inr (StringItem (string_of_bytes b))
      | _ \<Rightarrow> Inl (Err ''binary format requires T to be []byte or string''))"

definition encodeProto :: "'a message_lib \<Rightarrow> 'a item \<Rightarrow> gerr + octets" where
  "encodeProto lib m =
     (if ml_message lib then ml_proto_marshal lib m
      else Inl (Err ''proto format requires T to be a protobuf message''))"

text \<open>
  The zero value of a pointer type is a nil pointer, and a nil pointer of a message type is a message:
  it is what \<^verbatim>\<open>proto.Unmarshal\<close> is given, so the branch that allocates a message is never reached. Any other
  type falls through to the error.
\<close>

definition decodeProto :: "'a message_lib \<Rightarrow> octets \<Rightarrow> panic + (gerr + 'a item)" where
  "decodeProto lib b =
     (case ml_type lib of
        ProtoPointerType \<Rightarrow> ml_proto_nil lib b
      | _ \<Rightarrow> Inr (Inl (Err ''proto format requires T to be a protobuf message'')))"

definition encodeMessage :: "'a message_lib \<Rightarrow> string \<Rightarrow> 'a item \<Rightarrow> gerr + outbound" where
  "encodeMessage lib s m =
     (let f = normalizeFormat s in
      if f = ''json'' then map_sum id (Pair MessageText) (ml_json_marshal lib m)
      else if f = ''text'' then map_sum id (Pair MessageText) (encodeText m)
      else if f = ''binary'' then map_sum id (Pair MessageBinary) (encodeBinary m)
      else if f = ''proto'' then map_sum id (Pair MessageBinary) (encodeProto lib m)
      else Inl (Err ''unsupported websocket format''))"

definition decodeMessage :: "'a message_lib \<Rightarrow> string \<Rightarrow> octets \<Rightarrow> panic + (gerr + 'a item)" where
  "decodeMessage lib s b =
     (let f = normalizeFormat s in
      if f = ''json'' then Inr (ml_json_unmarshal lib b)
      else if f = ''text'' then Inr (decodeText (ml_type lib) b)
      else if f = ''binary'' then Inr (decodeBinary (ml_type lib) b)
      else if f = ''proto'' then decodeProto lib b
      else Inr (Inl (Err ''unsupported websocket format'')))"

section \<open>One connection\<close>

text \<open>
  Senders and closers are numbered goroutines. \<open>wc_accepted\<close>, \<open>wc_refused\<close>, \<open>wc_written\<close> and \<open>wc_lost\<close> record what
  \<^verbatim>\<open>enqueue\<close> took and refused, what went out on the socket and what the writer held when it gave up.
\<close>

datatype ws_sender = NotSending | SendLocked outbound | SendTried bool

datatype ws_closer =
    NotClosing | InOnce | CloseLocked | FlagSet | DoneClosed | SendClosed | CloseUnlocked | CloseReturned

datatype ws_writer = Selecting | Writing outbound | WriterGone

datatype ws_owner = BySender nat | ByCloser nat

datatype ws_once = OnceNew | OnceBy nat | OnceOver

record ws_conn =
  wc_send :: "outbound gochan"
  wc_done :: "unit gochan"
  wc_mu :: "ws_owner option"
  wc_closed :: bool
  wc_closeOnce :: ws_once
  wc_senders :: "nat \<Rightarrow> ws_sender"
  wc_closers :: "nat \<Rightarrow> ws_closer"
  wc_writer :: ws_writer
  wc_socket_closed :: bool
  wc_accepted :: "outbound list"
  wc_refused :: "outbound list"
  wc_written :: "outbound list"
  wc_lost :: "outbound list"
  wc_panicked :: bool

definition newWSConn :: "int \<Rightarrow> ws_conn" where
  "newWSConn buffer =
     \<lparr>wc_send = make_chan (if buffer \<le> 0 then 128 else nat buffer), wc_done = make_chan 0, wc_mu = None, wc_closed = False,
      wc_closeOnce = OnceNew, wc_senders = (\<lambda>_. NotSending), wc_closers = (\<lambda>_. NotClosing), wc_writer = Selecting,
      wc_socket_closed = False, wc_accepted = [], wc_refused = [], wc_written = [], wc_lost = [], wc_panicked = False\<rparr>"

text \<open>The body of \<^verbatim>\<open>enqueue\<close> under the lock: whether the message was taken.\<close>

definition enqueue_locked :: "outbound \<Rightarrow> ws_conn \<Rightarrow> bool \<times> ws_conn" where
  "enqueue_locked m c =
     (if wc_closed c then (False, c\<lparr>wc_refused := wc_refused c @ [m]\<rparr>)
      else case chan_send m (wc_send c) of
        Sent ch \<Rightarrow> (True, c\<lparr>wc_send := ch, wc_accepted := wc_accepted c @ [m]\<rparr>)
      | SendBlocks \<Rightarrow> (False, c\<lparr>wc_refused := wc_refused c @ [m]\<rparr>)
      | SendPanics \<Rightarrow> (False, c\<lparr>wc_panicked := True\<rparr>))"

definition set_sender :: "nat \<Rightarrow> ws_sender \<Rightarrow> ws_conn \<Rightarrow> ws_conn" where
  "set_sender i s c = c\<lparr>wc_senders := (wc_senders c)(i := s)\<rparr>"

definition set_closer :: "nat \<Rightarrow> ws_closer \<Rightarrow> ws_conn \<Rightarrow> ws_conn" where
  "set_closer i s c = c\<lparr>wc_closers := (wc_closers c)(i := s)\<rparr>"

inductive conn_step :: "ws_conn \<Rightarrow> ws_conn \<Rightarrow> bool" where
  enqueue_lock: "wc_senders c i = NotSending \<Longrightarrow> wc_mu c = None \<Longrightarrow>
    conn_step c (set_sender i (SendLocked m) (c\<lparr>wc_mu := Some (BySender i)\<rparr>))"
| enqueue_try: "wc_senders c i = SendLocked m \<Longrightarrow>
    conn_step c (set_sender i (SendTried (fst (enqueue_locked m c))) (snd (enqueue_locked m c)))"
| enqueue_unlock: "wc_senders c i = SendTried b \<Longrightarrow>
    conn_step c (set_sender i NotSending (c\<lparr>wc_mu := None\<rparr>))"
| once_enter: "wc_closers c i = NotClosing \<Longrightarrow> wc_closeOnce c = OnceNew \<Longrightarrow>
    conn_step c (set_closer i InOnce (c\<lparr>wc_closeOnce := OnceBy i\<rparr>))"
| once_wait: "wc_closers c i = NotClosing \<Longrightarrow> wc_closeOnce c = OnceOver \<Longrightarrow>
    conn_step c (set_closer i CloseReturned c)"
| close_lock: "wc_closers c i = InOnce \<Longrightarrow> wc_mu c = None \<Longrightarrow>
    conn_step c (set_closer i CloseLocked (c\<lparr>wc_mu := Some (ByCloser i)\<rparr>))"
| close_flag: "wc_closers c i = CloseLocked \<Longrightarrow>
    conn_step c (set_closer i FlagSet (c\<lparr>wc_closed := True\<rparr>))"
| close_done: "wc_closers c i = FlagSet \<Longrightarrow> chan_close (wc_done c) = Inr d \<Longrightarrow>
    conn_step c (set_closer i DoneClosed (c\<lparr>wc_done := d\<rparr>))"
| close_done_panics: "wc_closers c i = FlagSet \<Longrightarrow> chan_close (wc_done c) = Inl p \<Longrightarrow>
    conn_step c (c\<lparr>wc_panicked := True\<rparr>)"
| close_send: "wc_closers c i = DoneClosed \<Longrightarrow> chan_close (wc_send c) = Inr ch \<Longrightarrow>
    conn_step c (set_closer i SendClosed (c\<lparr>wc_send := ch\<rparr>))"
| close_send_panics: "wc_closers c i = DoneClosed \<Longrightarrow> chan_close (wc_send c) = Inl p \<Longrightarrow>
    conn_step c (c\<lparr>wc_panicked := True\<rparr>)"
| close_unlock: "wc_closers c i = SendClosed \<Longrightarrow>
    conn_step c (set_closer i CloseUnlocked (c\<lparr>wc_mu := None\<rparr>))"
| close_socket: "wc_closers c i = CloseUnlocked \<Longrightarrow>
    conn_step c (set_closer i CloseReturned (c\<lparr>wc_closeOnce := OnceOver, wc_socket_closed := True\<rparr>))"
| write_recv: "wc_writer c = Selecting \<Longrightarrow> chan_recv (wc_send c) = Received m ch \<Longrightarrow>
    conn_step c (c\<lparr>wc_writer := Writing m, wc_send := ch\<rparr>)"
| write_end: "wc_writer c = Selecting \<Longrightarrow> chan_recv (wc_send c) = RecvClosed \<Longrightarrow>
    conn_step c (c\<lparr>wc_writer := WriterGone\<rparr>)"
| write_cancelled: "wc_writer c = Selecting \<Longrightarrow> conn_step c (c\<lparr>wc_writer := WriterGone\<rparr>)"
| write_ok: "wc_writer c = Writing m \<Longrightarrow> \<not> wc_socket_closed c \<Longrightarrow>
    conn_step c (c\<lparr>wc_writer := Selecting, wc_written := wc_written c @ [m]\<rparr>)"
| write_error: "wc_writer c = Writing m \<Longrightarrow>
    conn_step c (c\<lparr>wc_writer := WriterGone, wc_lost := wc_lost c @ [m]\<rparr>)"
| peer_closes: "conn_step c (c\<lparr>wc_socket_closed := True\<rparr>)"

inductive conn_reach :: "ws_conn \<Rightarrow> ws_conn \<Rightarrow> bool" for c0 where
  conn_start: "conn_reach c0 c0"
| conn_more: "conn_reach c0 c \<Longrightarrow> conn_step c c' \<Longrightarrow> conn_reach c0 c'"

inductive_cases conn_stepE: "conn_step c c'"

section \<open>The table of connections\<close>

type_synonym ws_conns = "(nat \<times> ws_conn) list"

definition addConn :: "int \<Rightarrow> int \<Rightarrow> nat \<Rightarrow> ws_conns \<Rightarrow> gerr + ws_conns" where
  "addConn maxConnections sendBuffer k conns =
     (if maxConnections > 0 \<and> int (length conns) \<ge> maxConnections then Inl (Err ''max connections reached'')
      else Inr (AList.update k (newWSConn sendBuffer) conns))"

definition dropConn :: "nat \<Rightarrow> ws_conns \<Rightarrow> ws_conns" where
  "dropConn k conns = AList.delete k conns"

definition connectionCount :: "ws_conns \<Rightarrow> int" where
  "connectionCount conns = int (length conns)"

text \<open>\<^verbatim>\<open>Broadcast\<close> once the message is encoded: the number of connections that did not take it.\<close>

fun broadcast_loop :: "outbound \<Rightarrow> ws_conns \<Rightarrow> nat \<times> ws_conns" where
  "broadcast_loop m [] = (0, [])"
| "broadcast_loop m ((k, c) # cs) =
     (case enqueue_locked m c of (b, c') \<Rightarrow>
        (case broadcast_loop m cs of (n, cs') \<Rightarrow> (if b then n else Suc n, (k, c') # cs')))"

definition Broadcast :: "'a message_lib \<Rightarrow> string \<Rightarrow> 'a item \<Rightarrow> ws_conns \<Rightarrow> gerr option \<times> ws_conns" where
  "Broadcast lib f m conns =
     (if conns = [] then (None, conns)
      else case encodeMessage lib f m of
        Inl err \<Rightarrow> (Some err, conns)
      | Inr out \<Rightarrow>
        (case broadcast_loop out conns of
           (dropped, conns') \<Rightarrow>
             (if dropped > 0 then Some (Err (''broadcast dropped to '' @ decimal dropped @ '' connection(s)'')) else None,
              conns')))"

text \<open>
  The handlers of upgrade requests, each with the connection of its number: the early check of the count,
  the policy, the upgrade, the entry into the table and the end of the connection.
\<close>

datatype ws_handler = Arrived | Counted | Authorized | Upgraded | Running | Over

record ws_table =
  wt_conns :: ws_conns
  wt_handlers :: "nat \<Rightarrow> ws_handler"

definition set_handler :: "nat \<Rightarrow> ws_handler \<Rightarrow> ws_table \<Rightarrow> ws_table" where
  "set_handler k s t = t\<lparr>wt_handlers := (wt_handlers t)(k := s)\<rparr>"

inductive table_step :: "int \<Rightarrow> int \<Rightarrow> ws_table \<Rightarrow> ws_table \<Rightarrow> bool" for maxc buf where
  count_ok: "wt_handlers t k = Arrived \<Longrightarrow> \<not> (maxc > 0 \<and> connectionCount (wt_conns t) \<ge> maxc) \<Longrightarrow>
    table_step maxc buf t (set_handler k Counted t)"
| count_refused: "wt_handlers t k = Arrived \<Longrightarrow> maxc > 0 \<and> connectionCount (wt_conns t) \<ge> maxc \<Longrightarrow>
    table_step maxc buf t (set_handler k Over t)"
| authorized: "wt_handlers t k = Counted \<Longrightarrow> s \<in> {Authorized, Over} \<Longrightarrow>
    table_step maxc buf t (set_handler k s t)"
| upgraded: "wt_handlers t k = Authorized \<Longrightarrow> s \<in> {Upgraded, Over} \<Longrightarrow>
    table_step maxc buf t (set_handler k s t)"
| added: "wt_handlers t k = Upgraded \<Longrightarrow> addConn maxc buf k (wt_conns t) = Inr cs \<Longrightarrow>
    table_step maxc buf t (set_handler k Running (t\<lparr>wt_conns := cs\<rparr>))"
| refused: "wt_handlers t k = Upgraded \<Longrightarrow> addConn maxc buf k (wt_conns t) = Inl err \<Longrightarrow>
    table_step maxc buf t (set_handler k Over t)"
| connection: "map_of (wt_conns t) k = Some c \<Longrightarrow> conn_step c c' \<Longrightarrow>
    table_step maxc buf t (t\<lparr>wt_conns := AList.update k c' (wt_conns t)\<rparr>)"
| dropped: "wt_handlers t k = Running \<Longrightarrow>
    table_step maxc buf t (set_handler k Over (t\<lparr>wt_conns := dropConn k (wt_conns t)\<rparr>))"

inductive table_reach :: "int \<Rightarrow> int \<Rightarrow> ws_table \<Rightarrow> bool" for maxc buf where
  table_start: "table_reach maxc buf \<lparr>wt_conns = [], wt_handlers = (\<lambda>_. Arrived)\<rparr>"
| table_more: "table_reach maxc buf t \<Longrightarrow> table_step maxc buf t t' \<Longrightarrow> table_reach maxc buf t'"

section \<open>Lemmas: one connection\<close>

text \<open>How far a closer has come, and the one execution of the closing function.\<close>

fun close_rank :: "ws_closer \<Rightarrow> nat" where
  "close_rank NotClosing = 0"
| "close_rank InOnce = 1"
| "close_rank CloseLocked = 2"
| "close_rank FlagSet = 3"
| "close_rank DoneClosed = 4"
| "close_rank SendClosed = 5"
| "close_rank CloseUnlocked = 6"
| "close_rank CloseReturned = 7"

fun close_locked :: "ws_closer \<Rightarrow> bool" where
  "close_locked NotClosing = False"
| "close_locked InOnce = False"
| "close_locked CloseLocked = True"
| "close_locked FlagSet = True"
| "close_locked DoneClosed = True"
| "close_locked SendClosed = True"
| "close_locked CloseUnlocked = False"
| "close_locked CloseReturned = False"

definition in_once :: "ws_closer \<Rightarrow> bool" where
  "in_once s \<longleftrightarrow> s \<noteq> NotClosing \<and> s \<noteq> CloseReturned"

definition close_phase :: "ws_conn \<Rightarrow> nat" where
  "close_phase c = (case wc_closeOnce c of OnceNew \<Rightarrow> 0 | OnceBy i \<Rightarrow> close_rank (wc_closers c i) | OnceOver \<Rightarrow> 7)"

definition writer_hand :: "ws_conn \<Rightarrow> outbound list" where
  "writer_hand c = (case wc_writer c of Writing m \<Rightarrow> [m] | _ \<Rightarrow> [])"

definition lock_inv :: "ws_conn \<Rightarrow> bool" where
  "lock_inv c \<longleftrightarrow>
     (\<forall>i. (wc_senders c i \<noteq> NotSending) = (wc_mu c = Some (BySender i))) \<and>
     (\<forall>i. close_locked (wc_closers c i) = (wc_mu c = Some (ByCloser i)))"

definition once_inv :: "ws_conn \<Rightarrow> bool" where
  "once_inv c \<longleftrightarrow>
     (\<forall>i. in_once (wc_closers c i) = (wc_closeOnce c = OnceBy i))"

definition phase_inv :: "ws_conn \<Rightarrow> bool" where
  "phase_inv c \<longleftrightarrow>
     wc_closed c = (3 \<le> close_phase c) \<and> ch_closed (wc_done c) = (4 \<le> close_phase c) \<and>
     ch_closed (wc_send c) = (5 \<le> close_phase c)"

definition queue_inv :: "ws_conn \<Rightarrow> bool" where
  "queue_inv c \<longleftrightarrow>
     chan_ok (wc_send c) \<and> (wc_writer c = WriterGone \<or> wc_lost c = []) \<and>
     wc_accepted c = wc_written c @ wc_lost c @ writer_hand c @ ch_buf (wc_send c)"

definition conn_inv :: "ws_conn \<Rightarrow> bool" where
  "conn_inv c \<longleftrightarrow> lock_inv c \<and> once_inv c \<and> phase_inv c \<and> queue_inv c \<and> \<not> wc_panicked c"

lemmas conn_inv_defs = lock_inv_def once_inv_def phase_inv_def queue_inv_def

lemma conn_inv_new: "conn_inv (newWSConn n)"
  by (simp add: conn_inv_def conn_inv_defs in_once_def newWSConn_def close_phase_def writer_hand_def) (simp add: make_chan_def)

lemma set_sender_same [simp]:
  "wc_senders (set_sender i s c) = (wc_senders c)(i := s)" "wc_closers (set_sender i s c) = wc_closers c"
  "wc_mu (set_sender i s c) = wc_mu c" "wc_closeOnce (set_sender i s c) = wc_closeOnce c"
  "wc_closed (set_sender i s c) = wc_closed c" "wc_done (set_sender i s c) = wc_done c"
  "wc_send (set_sender i s c) = wc_send c" "wc_writer (set_sender i s c) = wc_writer c"
  "wc_lost (set_sender i s c) = wc_lost c" "wc_accepted (set_sender i s c) = wc_accepted c"
  "wc_written (set_sender i s c) = wc_written c" "wc_panicked (set_sender i s c) = wc_panicked c"
  by (simp_all add: set_sender_def)

lemma set_closer_same [simp]:
  "wc_closers (set_closer i t c) = (wc_closers c)(i := t)" "wc_senders (set_closer i t c) = wc_senders c"
  "wc_mu (set_closer i t c) = wc_mu c" "wc_closeOnce (set_closer i t c) = wc_closeOnce c"
  "wc_closed (set_closer i t c) = wc_closed c" "wc_done (set_closer i t c) = wc_done c"
  "wc_send (set_closer i t c) = wc_send c" "wc_writer (set_closer i t c) = wc_writer c"
  "wc_lost (set_closer i t c) = wc_lost c" "wc_accepted (set_closer i t c) = wc_accepted c"
  "wc_written (set_closer i t c) = wc_written c" "wc_panicked (set_closer i t c) = wc_panicked c"
  by (simp_all add: set_closer_def)

lemma enqueue_locked_same [simp]:
  "wc_senders (snd (enqueue_locked m c)) = wc_senders c" "wc_closers (snd (enqueue_locked m c)) = wc_closers c"
  "wc_mu (snd (enqueue_locked m c)) = wc_mu c" "wc_closeOnce (snd (enqueue_locked m c)) = wc_closeOnce c"
  "wc_closed (snd (enqueue_locked m c)) = wc_closed c" "wc_done (snd (enqueue_locked m c)) = wc_done c"
  "wc_writer (snd (enqueue_locked m c)) = wc_writer c" "wc_lost (snd (enqueue_locked m c)) = wc_lost c"
  "wc_written (snd (enqueue_locked m c)) = wc_written c"
  "ch_closed (wc_send (snd (enqueue_locked m c))) = ch_closed (wc_send c)"
  by (simp_all add: enqueue_locked_def chan_send_def)

lemma chan_close_closed: "chan_close ch = Inr ch' \<Longrightarrow> ch' = ch\<lparr>ch_closed := True\<rparr> \<and> \<not> ch_closed ch"
  by (auto simp: chan_close_def split: if_splits)

lemma lock_holder:
  assumes "lock_inv c"
  shows "wc_senders c i \<noteq> NotSending \<Longrightarrow> wc_mu c = Some (BySender i)"
    and "close_locked (wc_closers c i) \<Longrightarrow> wc_mu c = Some (ByCloser i)"
    and "wc_mu c = Some (BySender i) \<Longrightarrow> wc_senders c i \<noteq> NotSending"
    and "wc_mu c = Some (ByCloser i) \<Longrightarrow> close_locked (wc_closers c i)"
  using assms by (auto simp: lock_inv_def)

lemma once_holder:
  assumes "once_inv c"
  shows "in_once (wc_closers c i) \<Longrightarrow> wc_closeOnce c = OnceBy i" and "wc_closeOnce c = OnceBy i \<Longrightarrow> in_once (wc_closers c i)"
  using assms by (auto simp: once_inv_def)

lemma lock_inv_step:
  assumes "conn_step c c'" and "lock_inv c"
  shows "lock_inv c'"
proof -
  have s: "wc_mu c = Some (BySender i) \<longleftrightarrow> wc_senders c i \<noteq> NotSending"
      and k: "wc_mu c = Some (ByCloser i) \<longleftrightarrow> close_locked (wc_closers c i)" for i
    using assms(2) by (simp_all add: lock_inv_def)
  have free: "wc_senders c i = NotSending" "\<not> close_locked (wc_closers c i)" if "wc_mu c = None" for i
    using that s k by auto
  have others: "wc_senders c j = NotSending" "\<not> close_locked (wc_closers c i)" if "wc_mu c = Some (BySender k)" "j \<noteq> k" for i j k
    using that s [of j] k [of i] by auto
  have others': "wc_senders c j = NotSending" "i \<noteq> k \<Longrightarrow> \<not> close_locked (wc_closers c i)" if "wc_mu c = Some (ByCloser k)" for i j k
    using that s [of j] k [of i] by auto
  show ?thesis
    using assms(1)
  proof cases
    case (enqueue_lock i m)
    then show ?thesis by (simp add: lock_inv_def free)
  next
    case (enqueue_unlock i b)
    then have "wc_mu c = Some (BySender i)" by (simp add: s)
    with others [OF this] others(2) [OF this, of "Suc i"] enqueue_unlock show ?thesis by (simp add: lock_inv_def)
  next
    case (close_lock i)
    then show ?thesis by (simp add: lock_inv_def free)
  next
    case (close_unlock i)
    then have "wc_mu c = Some (ByCloser i)" by (simp add: k)
    with others' [OF this] close_unlock show ?thesis by (simp add: lock_inv_def)
  qed (simp_all add: lock_inv_def s k)
qed

lemma once_inv_step:
  assumes "conn_step c c'" and "once_inv c"
  shows "once_inv c'"
proof -
  have l: "wc_closeOnce c = OnceBy i \<longleftrightarrow> in_once (wc_closers c i)" for i
    using assms(2) by (simp add: once_inv_def)
  have other: "\<not> in_once (wc_closers c j)" if "wc_closeOnce c = OnceBy i" "j \<noteq> i" for i j
    using that l [of j] by auto
  have none: "\<not> in_once (wc_closers c j)" if "\<forall>i. wc_closeOnce c \<noteq> OnceBy i" for j
    using that l [of j] by auto
  show ?thesis
    using assms(1)
  proof cases
    case (once_enter i)
    then show ?thesis using none by (simp add: once_inv_def in_once_def)
  next
    case (once_wait i)
    then show ?thesis using none by (simp add: once_inv_def) (simp add: in_once_def)
  next
    case (close_socket i)
    then have "wc_closeOnce c = OnceBy i" by (simp add: l in_once_def)
    with other [OF this] close_socket show ?thesis by (simp add: once_inv_def) (simp add: in_once_def)
  qed (simp_all add: once_inv_def l, simp_all add: in_once_def)
qed

text \<open>The closer that runs the closing function is the one whose progress \<open>close_phase\<close> shows.\<close>

lemma phase_of_closer: "once_inv c \<Longrightarrow> in_once (wc_closers c i) \<Longrightarrow> close_phase c = close_rank (wc_closers c i)"
  by (simp add: close_phase_def once_inv_def)

lemma close_phase_sender [simp]:
  "close_phase (set_sender i s c) = close_phase c" "close_phase (snd (enqueue_locked m c)) = close_phase c"
  by (simp_all add: close_phase_def cong: ws_once.case_cong)

lemma close_phase_update [simp]:
  "close_phase (c\<lparr>wc_writer := w\<rparr>) = close_phase c" "close_phase (c\<lparr>wc_send := ch\<rparr>) = close_phase c"
  "close_phase (c\<lparr>wc_mu := mu\<rparr>) = close_phase c" "close_phase (c\<lparr>wc_lost := ms\<rparr>) = close_phase c"
  "close_phase (c\<lparr>wc_written := ms\<rparr>) = close_phase c" "close_phase (c\<lparr>wc_socket_closed := b\<rparr>) = close_phase c"
  "close_phase (c\<lparr>wc_panicked := b\<rparr>) = close_phase c"
  by (simp_all add: close_phase_def cong: ws_once.case_cong)

lemma phase_inv_step:
  assumes "conn_step c c'" and "once_inv c" and "phase_inv c"
  shows "phase_inv c' \<and> wc_panicked c' = wc_panicked c"
proof -
  have mine: "wc_closeOnce c = OnceBy i" if "in_once (wc_closers c i)" for i
    using that assms(2) by (simp add: once_inv_def)
  have other: "wc_closeOnce c \<noteq> OnceBy i" if "\<not> in_once (wc_closers c i)" for i
    using that assms(2) by (simp add: once_inv_def)
  have attempt: "wc_panicked (snd (enqueue_locked m c)) = wc_panicked c" for m
    using assms(3) by (auto simp: phase_inv_def enqueue_locked_def chan_send_def)
  show ?thesis
    using assms(1)
  proof cases
    case (once_enter i)
    then show ?thesis using assms(3) by (simp add: phase_inv_def close_phase_def)
  next
    case (once_wait i)
    then show ?thesis using assms(3) by (simp add: phase_inv_def close_phase_def)
  next
    case (close_lock i)
    then show ?thesis using assms(3) mine [of i] by (simp add: phase_inv_def close_phase_def in_once_def)
  next
    case (close_flag i)
    then show ?thesis using assms(3) mine [of i] by (simp add: phase_inv_def close_phase_def in_once_def)
  next
    case (close_done i d)
    then show ?thesis using assms(3) mine [of i]
      by (auto simp: phase_inv_def close_phase_def in_once_def dest!: chan_close_closed)
  next
    case (close_done_panics i p)
    then show ?thesis using assms(3) mine [of i]
      by (simp add: phase_inv_def close_phase_def in_once_def chan_close_def)
  next
    case (close_send i ch)
    then show ?thesis using assms(3) mine [of i]
      by (auto simp: phase_inv_def close_phase_def in_once_def dest!: chan_close_closed)
  next
    case (close_send_panics i p)
    then show ?thesis using assms(3) mine [of i]
      by (simp add: phase_inv_def close_phase_def in_once_def chan_close_def)
  next
    case (close_unlock i)
    then show ?thesis using assms(3) mine [of i] by (simp add: phase_inv_def close_phase_def in_once_def)
  next
    case (close_socket i)
    then show ?thesis using assms(3) mine [of i] by (simp add: phase_inv_def close_phase_def in_once_def)
  next
    case (enqueue_try i m)
    then show ?thesis using assms(3) by (simp add: phase_inv_def attempt)
  next
    case (write_recv m ch)
    then show ?thesis using assms(3)
      by (auto simp: phase_inv_def chan_recv_def split: list.splits if_splits)
  qed (use assms(3) in \<open>simp_all add: phase_inv_def\<close>)
qed

lemma enqueue_locked_queue:
  assumes "queue_inv c"
  shows "queue_inv (snd (enqueue_locked m c))"
  using assms by (auto simp: queue_inv_def enqueue_locked_def chan_send_def chan_ok_def writer_hand_def split: ws_writer.splits)

lemma queue_inv_step:
  assumes "conn_step c c'" and "queue_inv c"
  shows "queue_inv c'"
  using assms(1)
proof cases
  case (enqueue_try i m)
  have "queue_inv (set_sender i s d) = queue_inv d" for s and d :: ws_conn
    by (simp add: queue_inv_def writer_hand_def)
  with enqueue_try enqueue_locked_queue [OF assms(2)] show ?thesis by simp
next
  case (close_send i ch)
  then show ?thesis using assms(2)
    by (auto simp: queue_inv_def writer_hand_def chan_ok_def dest!: chan_close_closed)
next
  case (write_recv m ch)
  then show ?thesis using assms(2)
    by (auto simp: queue_inv_def writer_hand_def dest: chan_recv_ok)
qed (use assms(2) in \<open>auto simp: queue_inv_def writer_hand_def\<close>)

lemma conn_inv_step: "conn_step c c' \<Longrightarrow> conn_inv c \<Longrightarrow> conn_inv c'"
  using lock_inv_step once_inv_step phase_inv_step queue_inv_step unfolding conn_inv_def by blast

lemma conn_inv_reach: "conn_reach c0 c \<Longrightarrow> conn_inv c0 \<Longrightarrow> conn_inv c"
  by (induction rule: conn_reach.induct) (auto intro: conn_inv_step)

text \<open>The writer fails on one message at most, because it stops there.\<close>

lemma lost_step:
  assumes "conn_step c c'" and "queue_inv c" and "length (wc_lost c) \<le> 1"
  shows "length (wc_lost c') \<le> 1"
  using assms by cases (auto simp: queue_inv_def)

lemma lost_at_most_one: "conn_reach (newWSConn n) c \<Longrightarrow> length (wc_lost c) \<le> 1"
proof (induction rule: conn_reach.induct)
  case conn_start
  show ?case by (simp add: newWSConn_def)
next
  case (conn_more c c')
  then show ?case
    using lost_step conn_inv_reach [OF _ conn_inv_new] by (simp add: conn_inv_def)
qed

text \<open>Once the flag is set nothing more is taken.\<close>

lemma closed_step:
  assumes "conn_step c c'" and "wc_closed c"
  shows "wc_closed c' \<and> wc_accepted c' = wc_accepted c"
  using assms by cases (auto simp: enqueue_locked_def)

lemma closed_reach: "conn_reach c c' \<Longrightarrow> wc_closed c \<Longrightarrow> wc_closed c' \<and> wc_accepted c' = wc_accepted c"
  by (induction rule: conn_reach.induct) (use closed_step in force)+

lemma chan_cap_step: "conn_step c c' \<Longrightarrow> ch_cap (wc_send c') = ch_cap (wc_send c)"
  by (erule conn_stepE)
    (auto simp: enqueue_locked_def chan_send_def chan_recv_def split: list.splits if_splits dest!: chan_close_closed)

lemma chan_cap_reach: "conn_reach c0 c \<Longrightarrow> ch_cap (wc_send c) = ch_cap (wc_send c0)"
  by (induction rule: conn_reach.induct) (simp_all add: chan_cap_step)

text \<open>
  C30: However the senders, the closers, the writer and the peer of a WebSocket connection interleave, nothing
  panics on a closed channel, the queue keeps within its size, the messages taken are those
  written, then at most one the writer failed on, then those in its hand and in the queue, in order, and after the
  connection is marked closed no further message is taken.
\<close>

theorem ws_connection_safe:
  assumes "conn_reach (newWSConn n) c" and "conn_reach c c'"
  shows "\<not> wc_panicked c \<and> int (length (ch_buf (wc_send c))) \<le> (if n \<le> 0 then 128 else n) \<and>
    length (wc_lost c) \<le> 1 \<and>
    wc_accepted c = wc_written c @ wc_lost c @ writer_hand c @ ch_buf (wc_send c) \<and>
    (if wc_closed c then wc_closed c' \<and> wc_accepted c' = wc_accepted c else True)"
proof -
  have inv: "conn_inv c"
    using conn_inv_reach [OF assms(1) conn_inv_new] .
  then have "int (length (ch_buf (wc_send c))) \<le> (if n \<le> 0 then 128 else n)"
    using chan_cap_reach [OF assms(1)]
    by (auto simp: conn_inv_def queue_inv_def chan_ok_def newWSConn_def make_chan_def split: if_splits)
  with inv lost_at_most_one [OF assms(1)] closed_reach [OF assms(2)] show ?thesis
    by (auto simp: conn_inv_def queue_inv_def)
qed

definition sending_conn :: ws_conn where
  "sending_conn = set_sender 0 (SendTried True)
     ((newWSConn 1)\<lparr>wc_mu := Some (BySender 0), wc_send := (make_chan 1)\<lparr>ch_buf := [(MessageText, [1])]\<rparr>,
        wc_accepted := [(MessageText, [1])]\<rparr>)"

lemma sending_conn_reach: "conn_reach (newWSConn 1) sending_conn"
proof -
  let ?c = "set_sender 0 (SendLocked (MessageText, [1])) ((newWSConn 1)\<lparr>wc_mu := Some (BySender 0)\<rparr>)"
  have 1: "conn_step (newWSConn 1) ?c"
    by (rule enqueue_lock) (simp_all add: newWSConn_def)
  have 2: "conn_step ?c (set_sender 0 (SendTried (fst (enqueue_locked (MessageText, [1]) ?c))) (snd (enqueue_locked (MessageText, [1]) ?c)))"
    by (rule enqueue_try) simp
  also have "set_sender 0 (SendTried (fst (enqueue_locked (MessageText, [1]) ?c))) (snd (enqueue_locked (MessageText, [1]) ?c)) =
      sending_conn"
    by (simp add: sending_conn_def enqueue_locked_def newWSConn_def set_sender_def chan_send_def make_chan_def fun_upd_def fun_eq_iff)
  finally show ?thesis
    using 1 by (meson conn_start conn_more)
qed

theorem ws_connection_safe_witness:
  "\<not> wc_panicked sending_conn \<and> int (length (ch_buf (wc_send sending_conn))) \<le> 1 \<and>
    wc_accepted sending_conn = wc_written sending_conn @ wc_lost sending_conn @ writer_hand sending_conn @ ch_buf (wc_send sending_conn)"
  using ws_connection_safe [OF sending_conn_reach conn_start] by simp

text \<open>After the writer has given up nothing is written any more, although \<^verbatim>\<open>enqueue\<close> still takes messages.\<close>

lemma gone_writer_step:
  assumes "conn_step c c'" and "wc_writer c = WriterGone"
  shows "wc_writer c' = WriterGone \<and> wc_written c' = wc_written c"
  using assms by cases auto

lemma gone_writer_writes_nothing:
  "conn_reach c c' \<Longrightarrow> wc_writer c = WriterGone \<Longrightarrow> wc_writer c' = WriterGone \<and> wc_written c' = wc_written c"
  by (induction rule: conn_reach.induct) (use gone_writer_step in force)+

lemma gone_writer_still_accepts:
  "wc_writer c = WriterGone \<Longrightarrow> \<not> wc_closed c \<Longrightarrow> \<not> ch_closed (wc_send c) \<Longrightarrow> length (ch_buf (wc_send c)) < ch_cap (wc_send c) \<Longrightarrow>
   fst (enqueue_locked m c)"
  by (simp add: enqueue_locked_def chan_send_def)

section \<open>Lemmas: the table\<close>

definition has_room :: "ws_conn \<Rightarrow> bool" where
  "has_room c \<longleftrightarrow> \<not> wc_closed c \<and> length (ch_buf (wc_send c)) < ch_cap (wc_send c)"

lemma enqueue_locked_takes:
  assumes "conn_inv c"
  shows "fst (enqueue_locked m c) = has_room c"
    and "ch_buf (wc_send (snd (enqueue_locked m c))) = (if has_room c then ch_buf (wc_send c) @ [m] else ch_buf (wc_send c))"
proof -
  have "\<not> wc_closed c \<Longrightarrow> \<not> ch_closed (wc_send c)"
    using assms by (auto simp: conn_inv_def phase_inv_def)
  then show "fst (enqueue_locked m c) = has_room c"
    "ch_buf (wc_send (snd (enqueue_locked m c))) = (if has_room c then ch_buf (wc_send c) @ [m] else ch_buf (wc_send c))"
    by (auto simp: enqueue_locked_def chan_send_def has_room_def)
qed

lemma broadcast_loop_spec:
  assumes "\<forall>(k, c)\<in>set conns. conn_inv c"
  shows "fst (broadcast_loop m conns) = length (filter (\<lambda>(k, c). \<not> has_room c) conns) \<and>
    map (\<lambda>(k, c). (k, ch_buf (wc_send c))) (snd (broadcast_loop m conns)) =
      map (\<lambda>(k, c). (k, if has_room c then ch_buf (wc_send c) @ [m] else ch_buf (wc_send c))) conns"
  using assms
proof (induction conns)
  case (Cons kc conns)
  obtain k c where kc: "kc = (k, c)" by (cases kc)
  obtain n cs where l: "broadcast_loop m conns = (n, cs)" by (cases "broadcast_loop m conns")
  obtain b c' where e: "enqueue_locked m c = (b, c')" by (cases "enqueue_locked m c")
  from Cons.prems have inv: "conn_inv c" by (simp add: kc)
  then show ?case
    using Cons enqueue_locked_takes [OF inv, of m] by (simp add: kc l e)
qed simp

text \<open>
  C32: A broadcast puts the encoded message at the end of the queue of every connection that is open and has
  room, leaves the other queues as they are, and its error tells how many connections those are.
\<close>

theorem broadcast_reports_drops:
  assumes "\<forall>(k, c)\<in>set conns. \<exists>n. conn_reach (newWSConn n) c" and "encodeMessage lib f m = Inr out"
  shows "fst (Broadcast lib f m conns) =
      (let n = length (filter (\<lambda>(k, c). \<not> has_room c) conns) in
       if n = 0 then None else Some (Err (''broadcast dropped to '' @ decimal n @ '' connection(s)''))) \<and>
    map (\<lambda>(k, c). (k, ch_buf (wc_send c))) (snd (Broadcast lib f m conns)) =
      map (\<lambda>(k, c). (k, if has_room c then ch_buf (wc_send c) @ [out] else ch_buf (wc_send c))) conns"
proof -
  have inv: "\<forall>(k, c)\<in>set conns. conn_inv c"
    using assms(1) conn_inv_reach [OF _ conn_inv_new] by blast
  show ?thesis
    using broadcast_loop_spec [OF inv, of out]
    by (auto simp: Broadcast_def assms(2) Let_def split: prod.splits)
qed

definition demo_messages :: "unit message_lib" where
  "demo_messages = \<lparr>ml_type = StringType, ml_json_marshal = (\<lambda>m. case m of StringItem s \<Rightarrow> Inr (bytes_of s) | _ \<Rightarrow> Inl (Err ''json'')),
     ml_json_unmarshal = (\<lambda>b. Inr (StringItem (string_of_bytes b))), ml_message = False,
     ml_proto_marshal = (\<lambda>m. Inl (Err ''proto'')), ml_proto_nil = (\<lambda>b. Inl (Panic ''nil''))\<rparr>"

theorem broadcast_reports_drops_witness:
  "fst (Broadcast demo_messages ''text'' (StringItem ''a'') [(0, sending_conn), (1, newWSConn 2)]) =
     Some (Err ''broadcast dropped to 1 connection(s)'')"
proof -
  have r: "\<forall>(k, c)\<in>set [(0::nat, sending_conn), (1, newWSConn 2)]. \<exists>n. conn_reach (newWSConn n) c"
    using sending_conn_reach conn_start by auto
  have e: "encodeMessage demo_messages ''text'' (StringItem ''a'') = Inr (MessageText, [97])"
    by code_simp
  have t: "\<not> has_room sending_conn" "has_room (newWSConn 2)" "decimal (Suc 0) = ''1''"
    by (simp add: has_room_def sending_conn_def newWSConn_def make_chan_def)
      (simp add: has_room_def newWSConn_def make_chan_def, code_simp)
  show ?thesis
    using broadcast_reports_drops [OF r e] by (simp add: t Let_def)
qed

text \<open>The invariant of the table: its keys are the running handlers, and the limit holds.\<close>

definition table_inv :: "int \<Rightarrow> ws_table \<Rightarrow> bool" where
  "table_inv maxc t \<longleftrightarrow>
     distinct (map fst (wt_conns t)) \<and> fst ` set (wt_conns t) = {k. wt_handlers t k = Running} \<and>
     (maxc \<le> 0 \<or> int (length (wt_conns t)) \<le> maxc) \<and> (\<forall>(k, c)\<in>set (wt_conns t). conn_inv c)"

lemma set_handler_same [simp]:
  "wt_conns (set_handler k s t) = wt_conns t" "wt_handlers (set_handler k s t) = (wt_handlers t)(k := s)"
  by (simp_all add: set_handler_def)

lemma length_AList_update:
  "length (AList.update k v xs) = (if k \<in> fst ` set xs then length xs else Suc (length xs))"
  by (induction xs) auto

lemma set_AList_update: "set (AList.update k v xs) \<subseteq> insert (k, v) (set xs)"
  by (induction xs) auto


lemma table_inv_step:
  assumes "table_step maxc buf t t'" and inv: "table_inv maxc t"
  shows "table_inv maxc t'"
  using assms(1)
proof cases
  case (added k cs)
  have new: "k \<notin> fst ` set (wt_conns t)"
    using inv added by (auto simp: table_inv_def)
  have cs: "cs = AList.update k (newWSConn buf) (wt_conns t)" and room: "maxc \<le> 0 \<or> int (length (wt_conns t)) < maxc"
    using added by (auto simp: addConn_def split: if_splits)
  have "fst ` set cs = {j. ((wt_handlers t)(k := Running)) j = Running}"
    using inv by (auto simp: cs dom_update table_inv_def)
  moreover have "distinct (map fst cs)"
    using inv by (simp add: cs distinct_update table_inv_def)
  moreover have "\<forall>(k, c)\<in>set cs. conn_inv c"
    using inv set_AList_update [of k "newWSConn buf" "wt_conns t"] conn_inv_new [of buf] by (auto simp: cs table_inv_def)
  moreover have "maxc \<le> 0 \<or> int (length cs) \<le> maxc"
    using room new by (auto simp: cs length_AList_update)
  ultimately show ?thesis
    by (simp add: table_inv_def added)
next
  case (connection k c c')
  have mem: "(k, c) \<in> set (wt_conns t)"
    using connection by (simp add: map_of_SomeD)
  then have "conn_inv c'" and key: "k \<in> fst ` set (wt_conns t)"
    using inv connection conn_inv_step by (force simp: table_inv_def)+
  then show ?thesis
    using inv connection set_AList_update [of k c' "wt_conns t"]
    by (auto simp: table_inv_def length_AList_update distinct_update dom_update)
next
  case (dropped k)
  have keys: "fst ` set (AList.delete k (wt_conns t)) = fst ` set (wt_conns t) - {k}"
    by (auto simp: AList.delete_eq image_iff)
  then have "fst ` set (AList.delete k (wt_conns t)) = {j. ((wt_handlers t)(k := Over)) j = Running}"
    using inv by (auto simp: table_inv_def)
  moreover have "\<forall>(k, c)\<in>set (AList.delete k (wt_conns t)). conn_inv c"
    using inv by (auto simp: table_inv_def AList.delete_eq)
  ultimately show ?thesis
    using inv length_delete_le [of k "wt_conns t"] by (auto simp: table_inv_def dropped dropConn_def distinct_delete)
qed (use inv in \<open>auto simp: table_inv_def\<close>)

text \<open>
  C31: However the handlers of upgrade requests and the connections interleave, the table of a WebSocket
  server with a limit never holds more connections than the limit, and it holds exactly those whose
  handlers are running.
\<close>

theorem connection_limit_holds:
  assumes "table_reach maxc buf t"
  shows "(maxc \<le> 0 \<or> int (length (wt_conns t)) \<le> maxc) \<and>
    fst ` set (wt_conns t) = {k. wt_handlers t k = Running} \<and> distinct (map fst (wt_conns t))"
proof -
  have "table_inv maxc t"
    using assms
  proof induction
    case table_start
    show ?case by (simp add: table_inv_def) linarith
  next
    case (table_more t t')
    then show ?case by (blast intro: table_inv_step)
  qed
  then show ?thesis
    by (simp add: table_inv_def)
qed

theorem connection_limit_holds_witness:
  "int (length (wt_conns (set_handler 7 Counted \<lparr>wt_conns = [], wt_handlers = (\<lambda>_. Arrived)\<rparr>))) \<le> 1"
proof -
  have "table_reach 1 4 (set_handler 7 Counted \<lparr>wt_conns = [], wt_handlers = (\<lambda>_. Arrived)\<rparr>)"
    by (rule table_more [OF table_start], rule count_ok) (simp_all add: connectionCount_def)
  from connection_limit_holds [OF this] show ?thesis by simp
qed

section \<open>Lemmas: messages\<close>

lemma unat_of_char: "unat (of_char c :: 8 word) = of_char c"
proof -
  have "(of_char c :: 8 word) = of_nat (of_char c)"
    by (simp only: of_nat_of_char)
  then show ?thesis
    using nat_of_char_less_256 [of c] by (simp only: unat_of_nat) simp
qed

lemma string_of_bytes_of [simp]: "string_of_bytes (bytes_of s) = s"
  by (induction s) (simp_all add: string_of_bytes_def bytes_of_def unat_of_char)

definition item_fits :: "item_type \<Rightarrow> 'a item \<Rightarrow> bool" where
  "item_fits t m = (case m of StringItem _ \<Rightarrow> t = StringType | BytesItem _ \<Rightarrow> t = BytesType | OtherItem _ \<Rightarrow> t = OtherType \<or> t = ProtoPointerType)"

text \<open>
  In the JSON, text and binary formats a message that one side encodes is what the other side decodes,
  given that the JSON library reads back what it writes.
\<close>

theorem ws_message_round_trip:
  assumes "item_fits (ml_type lib) m" and "encodeMessage lib f m = Inr (t, b)" and "normalizeFormat f \<noteq> ''proto''"
    and json: "\<And>x y. ml_json_marshal lib x = Inr y \<Longrightarrow> ml_json_unmarshal lib y = Inr x"
  shows "decodeMessage lib f b = Inr (Inr m)"
proof (cases m)
  case (StringItem s)
  then show ?thesis using assms
    by (auto simp: item_fits_def encodeMessage_def decodeMessage_def encodeText_def encodeBinary_def decodeText_def decodeBinary_def
        Let_def map_sum_def split: if_splits sum.splits)
next
  case (BytesItem s)
  then show ?thesis using assms
    by (auto simp: item_fits_def encodeMessage_def decodeMessage_def encodeText_def encodeBinary_def decodeText_def decodeBinary_def
        Let_def map_sum_def split: if_splits sum.splits)
next
  case (OtherItem s)
  then show ?thesis using assms
    by (auto simp: item_fits_def encodeMessage_def decodeMessage_def encodeText_def encodeBinary_def decodeText_def decodeBinary_def
        Let_def map_sum_def split: if_splits sum.splits)
qed

theorem ws_message_round_trip_witness:
  "decodeMessage demo_messages ''Text'' [104, 105] = Inr (Inr (StringItem ''hi''))"
proof (rule ws_message_round_trip)
  show "encodeMessage demo_messages ''Text'' (StringItem ''hi'') = Inr (MessageText, [104, 105])"
    by code_simp
  show "normalizeFormat ''Text'' \<noteq> ''proto''"
    by code_simp
  show "ml_json_marshal demo_messages x = Inr y \<Longrightarrow> ml_json_unmarshal demo_messages y = Inr x" for x y
    by (auto simp: demo_messages_def split: item.splits)
qed (simp add: item_fits_def demo_messages_def)

text \<open>In the protobuf format nothing is ever decoded when a nil pointer cannot be filled.\<close>

lemma proto_format_never_decodes:
  assumes "normalizeFormat f = ''proto''" and "\<And>b. \<exists>p. ml_proto_nil lib b = Inl p"
  shows "decodeMessage lib f b \<noteq> Inr (Inr m)"
  using assms(1) assms(2) [of b] by (auto simp: decodeMessage_def decodeProto_def split: item_type.splits)

end
