(* ===== verification/Ws_Server.thy ===== *)
theory Ws_Server
  imports Http_Server Ws_Connection
begin

text \<open>
  The WebSocket server (\<^verbatim>\<open>src/pkg/internal/jack/websocket\<close>): configuration, the handler of an upgrade
  request, the read loop of a connection, broadcasts and \<^verbatim>\<open>Serve\<close>. The upgrade itself
  (\<^verbatim>\<open>websocket.Accept\<close>), the frames a peer sends and the function that takes the messages are parameters.
\<close>

section \<open>State\<close>

record ws_server =
  ws_metadata :: metadata
  ws_address :: string
  ws_endpoint :: string
  ws_headers :: "(string \<times> string) list"
  ws_allowedOrigins :: "string list"
  ws_tokenQueryParam :: string
  ws_readLimit :: int
  ws_writeTimeout :: duration
  ws_idleTimeout :: duration
  ws_sendBuffer :: int
  ws_maxConnections :: int
  ws_format :: string
  ws_tlsConfig :: "http_tls option"
  ws_tlsConfigErr :: "gerr option"
  ws_loggers :: "logger option list"   \<comment> \<open>nil entries are kept and skipped by the loops\<close>
  ws_sensors :: "sensor option list"
  ws_auth :: http_auth
  ws_outputWires :: "nat option list"
  ws_configFrozen :: int
  ws_started :: bool

record 'a ws_world =
  ww_server :: ws_server
  ww_conns :: ws_conns
  ww_submitted :: "'a item list"
  ww_trace :: "'a item effect list"

definition NewWebSocketServer_base :: "string \<Rightarrow> ws_server" where
  "NewWebSocketServer_base hash =
     \<lparr>ws_metadata = \<lparr>meta_ID = hash, meta_Type = ''WEBSOCKET_SERVER'', meta_Name = ''''\<rparr>, ws_address = '':8080'',
      ws_endpoint = ''/ws'', ws_headers = [], ws_allowedOrigins = [], ws_tokenQueryParam = '''', ws_readLimit = 2 ^ 20,
      ws_writeTimeout = 5 * time_Second, ws_idleTimeout = 0, ws_sendBuffer = 256, ws_maxConnections = 0, ws_format = ''json'',
      ws_tlsConfig = None, ws_tlsConfigErr = None, ws_loggers = [], ws_sensors = [], ws_auth = new_http_auth,
      ws_outputWires = [], ws_configFrozen = 0, ws_started = False\<rparr>"

definition ws_NotifyLoggers ::
  "loglevel \<Rightarrow> string \<Rightarrow> (string \<times> 'a item logval) list \<Rightarrow> 'a ws_world \<Rightarrow> 'a ws_world" where
  "ws_NotifyLoggers level msg kvs w =
     w\<lparr>ww_trace := ww_trace w @ log_calls logger_wants_by_level (present (ws_loggers (ww_server w))) level msg kvs\<rparr>"

text \<open>The pairs every log call of the server starts with.\<close>

definition ws_kvs :: "string \<Rightarrow> 'a ws_world \<Rightarrow> (string \<times> 'a item logval) list" where
  "ws_kvs event w = [(''component'', LMeta (ws_metadata (ww_server w))), (''event'', LStr event)]"

definition notifyLifecycle :: "(metadata \<Rightarrow> 'a item sensor_call) \<Rightarrow> string \<Rightarrow> string \<Rightarrow> 'a ws_world \<Rightarrow> 'a ws_world" where
  "notifyLifecycle call msg event w =
     (let ss = ws_sensors (ww_server w);
          w1 = w\<lparr>ww_trace := ww_trace w @ sensor_calls (present ss) (call (ws_metadata (ww_server w)))\<rparr>
      in if ss = [] then w1 else ws_NotifyLoggers DebugLevel msg (ws_kvs event w @ [(''result'', LStr ''SUCCESS'')]) w1)"

definition notifyLifecycleStart :: "'a ws_world \<Rightarrow> 'a ws_world" where
  "notifyLifecycleStart = notifyLifecycle InvokeOnStart ''WebSocket server started'' ''Start''"

definition notifyLifecycleStop :: "'a ws_world \<Rightarrow> 'a ws_world" where
  "notifyLifecycleStop = notifyLifecycle InvokeOnStop ''WebSocket server stopped'' ''Stop''"

section \<open>Configuration\<close>

definition ws_requireNotFrozen :: "string \<Rightarrow> ws_server \<Rightarrow> panic option" where
  "ws_requireNotFrozen action s =
     (if ws_configFrozen s = 1
      then Some (Panic (''attempted to modify frozen configuration of started component: action='' @ action)) else None)"

definition ws_config :: "string \<Rightarrow> (ws_server \<Rightarrow> ws_server) \<Rightarrow> ws_server \<Rightarrow> panic + ws_server" where
  "ws_config action f s = (case ws_requireNotFrozen action s of Some p \<Rightarrow> Inl p | None \<Rightarrow> Inr (f s))"

definition ws_SetAddress :: "string \<Rightarrow> ws_server \<Rightarrow> panic + ws_server" where
  "ws_SetAddress a = ws_config ''SetAddress'' (\<lambda>s. s\<lparr>ws_address := TrimSpace a\<rparr>)"

definition ws_SetEndpoint :: "string \<Rightarrow> ws_server \<Rightarrow> panic + ws_server" where
  "ws_SetEndpoint p = ws_config ''SetEndpoint'' (\<lambda>s. s\<lparr>ws_endpoint := TrimSpace p\<rparr>)"

definition ws_AddHeader :: "string \<Rightarrow> string \<Rightarrow> ws_server \<Rightarrow> panic + ws_server" where
  "ws_AddHeader key val =
     ws_config ''AddHeader'' (\<lambda>s. if TrimSpace key = '''' then s else s\<lparr>ws_headers := AList.update key val (ws_headers s)\<rparr>)"

definition trimStrings :: "string list \<Rightarrow> string list" where
  "trimStrings xs = filter (\<lambda>v. v \<noteq> '''') (map TrimSpace xs)"

definition ws_SetAllowedOrigins :: "string list \<Rightarrow> ws_server \<Rightarrow> panic + ws_server" where
  "ws_SetAllowedOrigins os = ws_config ''SetAllowedOrigins'' (\<lambda>s. s\<lparr>ws_allowedOrigins := trimStrings os\<rparr>)"

definition ws_SetTokenQueryParam :: "string \<Rightarrow> ws_server \<Rightarrow> panic + ws_server" where
  "ws_SetTokenQueryParam n = ws_config ''SetTokenQueryParam'' (\<lambda>s. s\<lparr>ws_tokenQueryParam := TrimSpace n\<rparr>)"

definition ws_SetMessageFormat :: "string \<Rightarrow> ws_server \<Rightarrow> panic + ws_server" where
  "ws_SetMessageFormat f =
     ws_config ''SetMessageFormat'' (\<lambda>s. if TrimSpace f \<noteq> '''' then s\<lparr>ws_format := ToLower (TrimSpace f)\<rparr> else s)"

definition ws_SetReadLimit :: "int \<Rightarrow> ws_server \<Rightarrow> panic + ws_server" where
  "ws_SetReadLimit n = ws_config ''SetReadLimit'' (\<lambda>s. if n > 0 then s\<lparr>ws_readLimit := n\<rparr> else s)"

definition ws_SetWriteTimeout :: "duration \<Rightarrow> ws_server \<Rightarrow> panic + ws_server" where
  "ws_SetWriteTimeout d = ws_config ''SetWriteTimeout'' (\<lambda>s. if d > 0 then s\<lparr>ws_writeTimeout := d\<rparr> else s)"

definition ws_SetIdleTimeout :: "duration \<Rightarrow> ws_server \<Rightarrow> panic + ws_server" where
  "ws_SetIdleTimeout d = ws_config ''SetIdleTimeout'' (\<lambda>s. s\<lparr>ws_idleTimeout := d\<rparr>)"

definition ws_SetSendBuffer :: "int \<Rightarrow> ws_server \<Rightarrow> panic + ws_server" where
  "ws_SetSendBuffer n = ws_config ''SetSendBuffer'' (\<lambda>s. if n > 0 then s\<lparr>ws_sendBuffer := n\<rparr> else s)"

definition ws_SetMaxConnections :: "int \<Rightarrow> ws_server \<Rightarrow> panic + ws_server" where
  "ws_SetMaxConnections n = ws_config ''SetMaxConnections'' (\<lambda>s. if n \<ge> 0 then s\<lparr>ws_maxConnections := n\<rparr> else s)"

definition ws_SetTLSConfig :: "tls_files \<Rightarrow> tls_config \<Rightarrow> ws_server \<Rightarrow> panic + ws_server" where
  "ws_SetTLSConfig fs c =
     ws_config ''SetTLSConfig''
       (\<lambda>s. case buildTLSConfig fs c of
              Inl err \<Rightarrow> s\<lparr>ws_tlsConfig := None, ws_tlsConfigErr := Some err\<rparr>
            | Inr conf \<Rightarrow> s\<lparr>ws_tlsConfig := conf, ws_tlsConfigErr := None\<rparr>)"

definition ws_set_auth :: "string \<Rightarrow> (http_auth \<Rightarrow> http_auth) \<Rightarrow> ws_server \<Rightarrow> panic + ws_server" where
  "ws_set_auth action f = ws_config action (\<lambda>s. s\<lparr>ws_auth := f (ws_auth s)\<rparr>)"

definition ws_SetComponentMetadata :: "string \<Rightarrow> string \<Rightarrow> ws_server \<Rightarrow> panic + ws_server" where
  "ws_SetComponentMetadata name i =
     ws_config ''SetComponentMetadata'' (\<lambda>s. s\<lparr>ws_metadata := (ws_metadata s)\<lparr>meta_Name := name, meta_ID := i\<rparr>\<rparr>)"

definition ws_ConnectLogger :: "logger option list \<Rightarrow> ws_server \<Rightarrow> panic + ws_server" where
  "ws_ConnectLogger ls = ws_config ''ConnectLogger'' (\<lambda>s. s\<lparr>ws_loggers := ws_loggers s @ ls\<rparr>)"

definition ws_ConnectSensor :: "sensor option list \<Rightarrow> ws_server \<Rightarrow> panic + ws_server" where
  "ws_ConnectSensor ss = ws_config ''ConnectSensor'' (\<lambda>s. s\<lparr>ws_sensors := ws_sensors s @ ss\<rparr>)"

definition ws_ConnectOutput :: "nat option list \<Rightarrow> ws_server \<Rightarrow> panic + ws_server" where
  "ws_ConnectOutput is = ws_config ''ConnectOutput'' (\<lambda>s. s\<lparr>ws_outputWires := ws_outputWires s @ is\<rparr>)"

datatype ws_option =
    WS_WithLogger "logger option list"
  | WS_WithSensor "sensor option list"
  | WS_WithAddress string
  | WS_WithEndpoint string
  | WS_WithHeader string string
  | WS_WithAllowedOrigins "string list"
  | WS_WithTokenQueryParam string
  | WS_WithMessageFormat string
  | WS_WithReadLimit int
  | WS_WithWriteTimeout duration
  | WS_WithIdleTimeout duration
  | WS_WithSendBuffer int
  | WS_WithMaxConnections int
  | WS_WithTLS tls_config
  | WS_WithAuthenticationOptions "authentication_options option"
  | WS_WithStaticHeaders "(string \<times> string) list"
  | WS_WithDynamicAuthValidator "(header_map \<Rightarrow> gerr option) option"
  | WS_WithAuthRequired bool
  | WS_WithOutputWire "nat option list"

fun apply_ws_option :: "tls_files \<Rightarrow> ws_option \<Rightarrow> ws_server \<Rightarrow> panic + ws_server" where
  "apply_ws_option fs (WS_WithLogger ls) s = ws_ConnectLogger ls s"
| "apply_ws_option fs (WS_WithSensor ss) s = ws_ConnectSensor ss s"
| "apply_ws_option fs (WS_WithAddress a) s = ws_SetAddress a s"
| "apply_ws_option fs (WS_WithEndpoint e) s = ws_SetEndpoint e s"
| "apply_ws_option fs (WS_WithHeader k v) s = ws_AddHeader k v s"
| "apply_ws_option fs (WS_WithAllowedOrigins os) s = ws_SetAllowedOrigins os s"
| "apply_ws_option fs (WS_WithTokenQueryParam n) s = ws_SetTokenQueryParam n s"
| "apply_ws_option fs (WS_WithMessageFormat f) s = ws_SetMessageFormat f s"
| "apply_ws_option fs (WS_WithReadLimit n) s = ws_SetReadLimit n s"
| "apply_ws_option fs (WS_WithWriteTimeout d) s = ws_SetWriteTimeout d s"
| "apply_ws_option fs (WS_WithIdleTimeout d) s = ws_SetIdleTimeout d s"
| "apply_ws_option fs (WS_WithSendBuffer n) s = ws_SetSendBuffer n s"
| "apply_ws_option fs (WS_WithMaxConnections n) s = ws_SetMaxConnections n s"
| "apply_ws_option fs (WS_WithTLS c) s = ws_SetTLSConfig fs c s"
| "apply_ws_option fs (WS_WithAuthenticationOptions opts) s =
     ws_set_auth ''SetAuthenticationOptions'' (\<lambda>a. a\<lparr>ha_authOptions := opts\<rparr>) s"
| "apply_ws_option fs (WS_WithStaticHeaders hs) s = ws_set_auth ''SetStaticHeaders'' (\<lambda>a. a\<lparr>ha_staticHeaders := hs\<rparr>) s"
| "apply_ws_option fs (WS_WithDynamicAuthValidator f) s =
     ws_set_auth ''SetDynamicAuthValidator'' (\<lambda>a. a\<lparr>ha_validator := map_option UserValidator f\<rparr>) s"
| "apply_ws_option fs (WS_WithAuthRequired b) s = ws_set_auth ''SetAuthRequired'' (\<lambda>a. a\<lparr>ha_authRequired := b\<rparr>) s"
| "apply_ws_option fs (WS_WithOutputWire is) s = ws_ConnectOutput is s"

fun apply_ws_options :: "tls_files \<Rightarrow> ws_option list \<Rightarrow> ws_server \<Rightarrow> panic + ws_server" where
  "apply_ws_options fs [] s = Inr s"
| "apply_ws_options fs (opt # opts) s =
     (case apply_ws_option fs opt s of Inl p \<Rightarrow> Inl p | Inr s' \<Rightarrow> apply_ws_options fs opts s')"

definition NewWebSocketServer :: "tls_files \<Rightarrow> string \<Rightarrow> ws_option list \<Rightarrow> panic + ws_server" where
  "NewWebSocketServer fs hash opts = apply_ws_options fs opts (NewWebSocketServer_base hash)"

text \<open>The snapshot of the configuration installs the default validator, and normalises the format.\<close>

definition ws_snapshotConfig :: "'a ws_world \<Rightarrow> ws_server \<times> 'a ws_world" where
  "ws_snapshotConfig w =
     (case ensureDefaultAuthValidatorLocked (ws_auth (ww_server w)) of
        (msgs, a) \<Rightarrow>
          let w1 = fold (\<lambda>msg. ws_NotifyLoggers InfoLevel msg []) msgs (w\<lparr>ww_server := (ww_server w)\<lparr>ws_auth := a\<rparr>\<rparr>)
          in ((ww_server w1)\<lparr>ws_format := normalizeFormat (ws_format (ww_server w1))\<rparr>, w1))"

section \<open>An upgrade request\<close>

record ws_request = http_request +
  wr_query :: "string \<Rightarrow> string"
  wr_remote :: string

text \<open>\<open>we_accept\<close> is \<^verbatim>\<open>websocket.Accept\<close> with the origins allowed; \<open>we_submit\<close> is the \<^verbatim>\<open>submit\<close> given to \<^verbatim>\<open>Serve\<close>.\<close>

record 'a ws_env =
  we_auth :: http_auth_env
  we_lib :: "'a message_lib"
  we_accept :: "string list \<Rightarrow> ws_request \<Rightarrow> gerr option"
  we_submit :: "'a item \<Rightarrow> gerr option"

datatype ws_outcome =
    WsReply "panic + http_reply"   \<comment> \<open>answered as a plain request\<close>
  | AcceptFailed
  | PolicyViolation string         \<comment> \<open>upgraded and closed again\<close>
  | Joined "string \<rightharpoonup> string"      \<comment> \<open>in the table, with the header of the reply\<close>

definition ws_authorize ::
  "http_auth_env \<Rightarrow> ws_server \<Rightarrow> ws_request \<Rightarrow> 'a ws_world \<Rightarrow> gerr option \<times> 'a ws_world" where
  "ws_authorize env cfg r w =
     (case authorizeRequest env
             (token_from_query (ws_tokenQueryParam cfg) (wr_query r (ws_tokenQueryParam cfg)) (collectHeaders (rq_headers r)))
             (ws_auth (ww_server w)) of
        ((err, soft), a) \<Rightarrow>
          (err, fold (\<lambda>e. ws_NotifyLoggers WarnLevel ''Auth: soft-failing policy error''
                     (ws_kvs ''AuthPolicy'' w @ [(''error'', LErr (Some e))]))
                 soft (w\<lparr>ww_server := (ww_server w)\<lparr>ws_auth := a\<rparr>\<rparr>)))"

definition ws_upgrade ::
  "'a ws_env \<Rightarrow> ws_server \<Rightarrow> ws_request \<Rightarrow> nat \<Rightarrow> 'a ws_world \<Rightarrow> ws_outcome \<times> 'a ws_world" where
  "ws_upgrade env cfg r k w =
     (if rq_method r \<noteq> ''GET'' then (WsReply (http_Error ''Method Not Allowed'' 405), w)
      else if ws_maxConnections cfg > 0 \<and> connectionCount (ww_conns w) \<ge> ws_maxConnections cfg
      then (WsReply (http_Error ''Too Many Connections'' 503), w)
      else case ws_authorize (we_auth env) cfg r w of
        (Some err, w1) \<Rightarrow>
          (WsReply (http_Error ''Unauthorized'' 401),
           ws_NotifyLoggers WarnLevel ''Auth: request rejected'' (ws_kvs ''AuthReject'' w1 @ [(''error'', LErr (Some err))]) w1)
      | (None, w1) \<Rightarrow>
        (case we_accept env (ws_allowedOrigins cfg) r of
           Some err \<Rightarrow>
             (AcceptFailed,
              ws_NotifyLoggers ErrorLevel ''Accept: error'' (ws_kvs ''AcceptError'' w1 @ [(''error'', LErr (Some err))]) w1)
         | None \<Rightarrow>
           (case addConn (ws_maxConnections cfg) (ws_sendBuffer cfg) k (ww_conns w1) of
              Inl err \<Rightarrow>
                (PolicyViolation ''max connections reached'',
                 ws_NotifyLoggers WarnLevel ''Accept: rejected connection''
                   (ws_kvs ''AcceptReject'' w1 @ [(''error'', LErr (Some err))]) w1)
            | Inr conns \<Rightarrow>
                (Joined (fold (\<lambda>(k, v). header_Set k v) (ws_headers cfg) Map.empty),
                 ws_NotifyLoggers InfoLevel ''Connection accepted''
                   (ws_kvs ''ConnectionAccepted'' w1 @ [(''remote'', LStr (wr_remote r))]) (w1\<lparr>ww_conns := conns\<rparr>)))))"

section \<open>The read loop\<close>

text \<open>A failed read: the error, its close status and whether its chain holds a context error.\<close>

record read_error =
  re_error :: gerr
  re_status :: int
  re_context :: bool

datatype ws_read = ReadMessage message_type octets | ReadFails read_error

datatype read_end = StillReading | ReadReturned "gerr option" | ReadPanicked panic

definition handleReadError :: "read_error \<Rightarrow> gerr option" where
  "handleReadError e =
     (if re_status e = 1000 \<or> re_status e = 1001 then None else if re_context e then None else Some (re_error e))"

definition format_mismatch :: "string \<Rightarrow> message_type \<Rightarrow> (string \<times> string) option" where
  "format_mismatch f t =
     (if t = MessageBinary \<and> f \<in> {''text'', ''json''}
      then Some (''ReadLoop: received binary payload for text/json format'', ''binary'')
      else if t = MessageText \<and> f \<in> {''binary'', ''proto''}
      then Some (''ReadLoop: received text payload for binary/proto format'', ''text'') else None)"

definition ws_log_mismatch :: "string \<Rightarrow> message_type \<Rightarrow> 'a ws_world \<Rightarrow> 'a ws_world" where
  "ws_log_mismatch f t w =
     (case format_mismatch f t of
        None \<Rightarrow> w
      | Some (msg, got) \<Rightarrow>
          ws_NotifyLoggers DebugLevel msg
            (ws_kvs ''ReadLoopFormatMismatch'' w @ [(''message_type'', LStr got), (''expected_format'', LStr f)]) w)"

fun readLoop :: "'a ws_env \<Rightarrow> ws_server \<Rightarrow> ws_read list \<Rightarrow> 'a ws_world \<Rightarrow> read_end \<times> 'a ws_world" where
  "readLoop env cfg [] w = (StillReading, w)"
| "readLoop env cfg (ReadFails e # rs) w = (ReadReturned (handleReadError e), w)"
| "readLoop env cfg (ReadMessage t payload # rs) w =
     (let w1 = ws_log_mismatch (ws_format cfg) t w in
      case decodeMessage (we_lib env) (ws_format cfg) payload of
        Inl p \<Rightarrow> (ReadPanicked p, w1)
      | Inr (Inl err) \<Rightarrow>
          readLoop env cfg rs
            (ws_NotifyLoggers WarnLevel ''ReadLoop: decode error'' (ws_kvs ''Decode'' w1 @ [(''error'', LErr (Some err))]) w1)
      | Inr (Inr m) \<Rightarrow>
          let w2 = w1\<lparr>ww_submitted := ww_submitted w1 @ [m]\<rparr> in
          (case we_submit env m of
             None \<Rightarrow> readLoop env cfg rs w2
           | Some err \<Rightarrow>
               readLoop env cfg rs
                 (ws_NotifyLoggers WarnLevel ''ReadLoop: submit error'' (ws_kvs ''Submit'' w2 @ [(''error'', LErr (Some err))]) w2)))"

text \<open>
  The end of a connection: an error of the read loop is logged, the connection leaves the table. What closing
  does to the connection itself is a sequence of steps of \<open>Ws_Connection\<close>.
\<close>

definition runConn :: "'a ws_env \<Rightarrow> ws_server \<Rightarrow> ws_read list \<Rightarrow> nat \<Rightarrow> string \<Rightarrow> 'a ws_world \<Rightarrow> read_end \<times> 'a ws_world" where
  "runConn env cfg rs k remote w =
     (case readLoop env cfg rs w of
        (ReadReturned res, w1) \<Rightarrow>
          let w2 = (case res of
                      None \<Rightarrow> w1
                    | Some err \<Rightarrow>
                        ws_NotifyLoggers WarnLevel ''ReadLoop error'' (ws_kvs ''ReadLoop'' w1 @ [(''error'', LErr (Some err))]) w1);
              w3 = ws_NotifyLoggers InfoLevel ''Connection closed'' (ws_kvs ''ConnectionClosed'' w2 @ [(''remote'', LStr remote)]) w2
          in (ReadReturned res, w3\<lparr>ww_conns := dropConn k (ww_conns w3)\<rparr>)
      | (res, w1) \<Rightarrow> (res, w1))"

section \<open>Broadcasts and serving\<close>

definition ws_Broadcast :: "'a message_lib \<Rightarrow> 'a item \<Rightarrow> 'a ws_world \<Rightarrow> gerr option \<times> 'a ws_world" where
  "ws_Broadcast lib m w =
     (if ww_conns w = [] then (None, w)
      else case ws_snapshotConfig w of
        (cfg, w1) \<Rightarrow>
          (case Broadcast lib (ws_format cfg) m (ww_conns w1) of (err, conns) \<Rightarrow> (err, w1\<lparr>ww_conns := conns\<rparr>)))"

text \<open>What the fan-out does with an element of an output wire.\<close>

definition fanout_element :: "'a message_lib \<Rightarrow> 'a item \<Rightarrow> 'a ws_world \<Rightarrow> 'a ws_world" where
  "fanout_element lib m w =
     (case ws_Broadcast lib m w of
        (None, w1) \<Rightarrow> w1
      | (Some err, w1) \<Rightarrow>
          ws_NotifyLoggers WarnLevel ''Broadcast: output wire error'' (ws_kvs ''Broadcast'' w1 @ [(''error'', LErr (Some err))]) w1)"

definition ws_precheck :: "ws_server \<Rightarrow> gerr option" where
  "ws_precheck cfg =
     (if ws_tlsConfigErr cfg \<noteq> None then ws_tlsConfigErr cfg
      else if ws_endpoint cfg = '''' then Some (Err ''endpoint not configured'')
      else validateFormat (ws_format cfg))"

text \<open>The start of \<^verbatim>\<open>Serve\<close>: an early error, or the configuration that the handlers use.\<close>

definition ws_Serve_start :: "bool \<Rightarrow> 'a ws_world \<Rightarrow> (gerr + ws_server) \<times> 'a ws_world" where
  "ws_Serve_start submit_set w =
     (if \<not> submit_set then (Inl (Err ''submit cannot be nil''), w)
      else if ws_started (ww_server w) then (Inl (Err ''server already started''), w)
      else case ws_snapshotConfig w of
        (cfg, w1) \<Rightarrow>
          (case ws_precheck cfg of
             Some err \<Rightarrow> (Inl err, w1)
           | None \<Rightarrow>
             let w2 = w1\<lparr>ww_server := (ww_server w1)\<lparr>ws_configFrozen := 1, ws_started := True\<rparr>\<rparr> in
             (Inr cfg,
              notifyLifecycleStart
                (ws_NotifyLoggers InfoLevel ''Serve: starting WebSocket server''
                   (ws_kvs ''ServeStart'' w2 @ [(''tls'', LBool (ws_tlsConfig cfg \<noteq> None)), (''address'', LStr (ws_address cfg)),
                      (''endpoint'', LStr (ws_endpoint cfg))]) w2))))"

definition ws_Serve_finish :: "serve_end \<Rightarrow> 'a ws_world \<Rightarrow> gerr option \<times> 'a ws_world" where
  "ws_Serve_finish e w =
     (case e of
        ServeCancelled \<Rightarrow>
          (Some CtxErr, notifyLifecycleStop (ws_NotifyLoggers WarnLevel ''Serve: context canceled, shutting down''
             (ws_kvs ''ServeStop'' w @ [(''result'', LStr ''CANCELLED'')]) w))
      | ServerClosed \<Rightarrow> (None, notifyLifecycleStop w)
      | ServerFailed err \<Rightarrow>
          (Some err, notifyLifecycleStop (ws_NotifyLoggers ErrorLevel ''Serve: server error''
             (ws_kvs ''ServeError'' w @ [(''error'', LErr (Some err))]) w)))"

section \<open>Lemmas\<close>

lemma ws_NotifyLoggers_same [simp]:
  "ww_server (ws_NotifyLoggers l msg kvs w) = ww_server w" "ww_conns (ws_NotifyLoggers l msg kvs w) = ww_conns w"
  "ww_submitted (ws_NotifyLoggers l msg kvs w) = ww_submitted w"
  by (simp_all add: ws_NotifyLoggers_def)

lemma fold_ws_NotifyLoggers_same [simp]:
  "ww_server (fold (\<lambda>x. ws_NotifyLoggers l (m x) (k x)) xs w) = ww_server w"
  "ww_conns (fold (\<lambda>x. ws_NotifyLoggers l (m x) (k x)) xs w) = ww_conns w"
  "ww_submitted (fold (\<lambda>x. ws_NotifyLoggers l (m x) (k x)) xs w) = ww_submitted w"
  by (induction xs arbitrary: w) simp_all

lemma ws_log_mismatch_same [simp]: "ww_submitted (ws_log_mismatch f t w) = ww_submitted w"
  by (simp add: ws_log_mismatch_def split: option.splits prod.splits)

text \<open>The payloads that decode, in order.\<close>

definition decoded_payloads :: "'a message_lib \<Rightarrow> string \<Rightarrow> (message_type \<times> octets) list \<Rightarrow> 'a item list" where
  "decoded_payloads lib f ms =
     List.map_filter (\<lambda>(t, b). case decodeMessage lib f b of Inr (Inr m) \<Rightarrow> Some m | _ \<Rightarrow> None) ms"

lemma decoded_payloads_simps [simp]:
  "decoded_payloads lib f [] = []"
  "decoded_payloads lib f ((t, b) # ms) =
     (case decodeMessage lib f b of Inr (Inr m) \<Rightarrow> [m] | _ \<Rightarrow> []) @ decoded_payloads lib f ms"
  by (simp_all add: decoded_payloads_def List.map_filter_simps split: sum.splits)

text \<open>Messages on whose decoding the code does not panic (\<open>decodeProto\<close> does on a type that is a pointer).\<close>

definition decode_returns :: "'a message_lib \<Rightarrow> string \<Rightarrow> message_type \<times> octets \<Rightarrow> bool" where
  "decode_returns lib f tb \<longleftrightarrow> \<not> isl (decodeMessage lib f (snd tb))"

lemma readLoop_submits:
  fixes env :: "'a ws_env" and cfg :: ws_server
  defines "ok \<equiv> decode_returns (we_lib env) (ws_format cfg)"
  shows "ww_submitted (snd (readLoop env cfg (map (\<lambda>(t, b). ReadMessage t b) ms @ ReadFails e # rs) w)) =
      ww_submitted w @ decoded_payloads (we_lib env) (ws_format cfg) (takeWhile ok ms) \<and>
    fst (readLoop env cfg (map (\<lambda>(t, b). ReadMessage t b) ms @ ReadFails e # rs) w) =
      (case dropWhile ok ms of
         [] \<Rightarrow> ReadReturned (handleReadError e)
       | tb # _ \<Rightarrow> ReadPanicked (projl (decodeMessage (we_lib env) (ws_format cfg) (snd tb))))"
proof (induction ms arbitrary: w)
  case (Cons tb ms)
  obtain t b where tb: "tb = (t, b)" by (cases tb)
  show ?case
  proof (cases "decodeMessage (we_lib env) (ws_format cfg) b")
    case (Inl p)
    then show ?thesis by (simp add: tb ok_def decode_returns_def Let_def)
  next
    case (Inr r)
    then show ?thesis
      using Cons by (cases r) (auto simp: tb ok_def decode_returns_def Let_def split: option.splits)
  qed
qed simp

text \<open>
  C33: The read loop of a WebSocket connection goes on past messages that do not decode and past errors of
  the pipeline: by the time a read fails it has submitted what the payloads that decode decode to, once each and
  in order, and it returns no error when the peer closed the connection in an orderly way or the context ended.
  If the decoding of a message panics (as that of the proto format does for a pointer type), the loop panics
  there, having submitted exactly what the messages before it decode to.
\<close>

theorem read_loop_submits_decoded:
  fixes env :: "'a ws_env" and cfg :: ws_server
  shows "let r = readLoop env cfg (map (\<lambda>(t, b). ReadMessage t b) ms @ [ReadFails e]) w;
      ok = decode_returns (we_lib env) (ws_format cfg)
    in ww_submitted (snd r) = ww_submitted w @ decoded_payloads (we_lib env) (ws_format cfg) (takeWhile ok ms) \<and>
      fst r = (case dropWhile ok ms of
         [] \<Rightarrow> ReadReturned (if re_status e \<in> {1000, 1001} \<or> re_context e then None else Some (re_error e))
       | tb # _ \<Rightarrow> ReadPanicked (projl (decodeMessage (we_lib env) (ws_format cfg) (snd tb))))"
proof -
  have h: "handleReadError e = (if re_status e \<in> {1000, 1001} \<or> re_context e then None else Some (re_error e))"
    by (simp add: handleReadError_def)
  show ?thesis
    using readLoop_submits [of env cfg ms e "[]" w] unfolding h Let_def by simp
qed

definition demo_ws_env :: "unit ws_env" where
  "demo_ws_env = \<lparr>we_auth = undefined, we_lib = demo_messages, we_accept = (\<lambda>os r. None), we_submit = (\<lambda>m. Some (Err ''full''))\<rparr>"

definition demo_ws_world :: "unit ws_world" where
  "demo_ws_world = \<lparr>ww_server = (NewWebSocketServer_base ''h'')\<lparr>ws_format := ''text''\<rparr>, ww_conns = [], ww_submitted = [], ww_trace = []\<rparr>"

theorem read_loop_submits_decoded_witness:
  "ww_submitted (snd (readLoop demo_ws_env (ww_server demo_ws_world)
     [ReadMessage MessageText [97], ReadMessage MessageBinary [98], ReadFails \<lparr>re_error = Err ''gone'', re_status = 1000, re_context = False\<rparr>]
     demo_ws_world)) = [StringItem ''a'', StringItem ''b'']"
proof -
  let ?ms = "[(MessageText, [97]), (MessageBinary, [98])] :: (message_type \<times> octets) list"
  let ?e = "\<lparr>re_error = Err ''gone'', re_status = 1000, re_context = False\<rparr>"
  have f: "we_lib demo_ws_env = demo_messages" "ws_format (ww_server demo_ws_world) = ''text''"
    "ww_submitted demo_ws_world = []"
    by (simp_all add: demo_ws_env_def demo_ws_world_def)
  have d: "decodeMessage demo_messages ''text'' [97] = Inr (Inr (StringItem ''a''))"
      "decodeMessage demo_messages ''text'' [98] = Inr (Inr (StringItem ''b''))"
    by code_simp+
  show ?thesis
    using read_loop_submits_decoded [of demo_ws_env "ww_server demo_ws_world" ?ms ?e demo_ws_world]
    by (simp add: f d decode_returns_def Let_def)
qed

text \<open>
  A request joins a strict server only with the method GET, the static headers, which may hold the token of
  the query, and the consent of the validator, and only while there is room.
\<close>

lemma websocket_joins_only_admitted:
  assumes "ws_upgrade env cfg r k w = (Joined hs, w')" and "ha_authRequired (ws_auth (ww_server w))"
  shows "rq_method r = ''GET''"
    and "\<forall>(n, v)\<in>set (ha_staticHeaders (ws_auth (ww_server w))).
      token_from_query (ws_tokenQueryParam cfg) (wr_query r (ws_tokenQueryParam cfg)) (collectHeaders (rq_headers r)) (ToLower n) = Some v"
    and "\<forall>f. ha_validator (ws_auth (ww_server w)) = Some f \<longrightarrow>
      fst (http_run_validator (we_auth env) f
        (token_from_query (ws_tokenQueryParam cfg) (wr_query r (ws_tokenQueryParam cfg)) (collectHeaders (rq_headers r)))
        (ws_auth (ww_server w))) = None"
    and "ws_maxConnections cfg \<le> 0 \<or> int (length (ww_conns w)) < ws_maxConnections cfg"
proof -
  let ?h = "token_from_query (ws_tokenQueryParam cfg) (wr_query r (ws_tokenQueryParam cfg)) (collectHeaders (rq_headers r))"
  have auth: "fst (fst (authorizeRequest (we_auth env) ?h (ws_auth (ww_server w)))) = None"
    using assms(1) by (auto simp: ws_upgrade_def ws_authorize_def split: if_splits option.splits prod.splits)
  show "rq_method r = ''GET''" "ws_maxConnections cfg \<le> 0 \<or> int (length (ww_conns w)) < ws_maxConnections cfg"
    using assms(1) by (auto simp: ws_upgrade_def connectionCount_def split: if_splits)
  show "\<forall>(n, v)\<in>set (ha_staticHeaders (ws_auth (ww_server w))). ?h (ToLower n) = Some v"
    "\<forall>f. ha_validator (ws_auth (ww_server w)) = Some f \<longrightarrow>
      fst (http_run_validator (we_auth env) f ?h (ws_auth (ww_server w))) = None"
    using authorizeRequest_strict [OF auth assms(2)] by blast+
qed

end
