(* ===== verification/Http_Client.thy ===== *)
theory Http_Client
  imports Http_Server Relay_Credentials Internal_Logger
begin

text \<open>
  The HTTP client adapter (\<^verbatim>\<open>src/pkg/internal/adapter/httpclient\<close>): configuration, OAuth2 client
  credentials, \<^verbatim>\<open>Fetch\<close>, retries with their back-off, \<^verbatim>\<open>Serve\<close> and the pinning of certificates. The
  server and the token server are parameters, numbered by call, with the clock, the JSON and XML decoders and
  the random source. A body given as a reader is what is left to read of it; the header fields are a map, kept as a
  list, and each request walks them in an order of its own (\<open>ce_order\<close>), as Go leaves it open.
\<close>

section \<open>State\<close>

record oauth2_config =
  oc_ClientID :: string
  oc_Secret :: string
  oc_TokenURL :: string
  oc_Audience :: string
  oc_Scopes :: "string list"

record http_client =
  hc_metadata :: metadata
  hc_method :: string
  hc_endpoint :: string
  hc_body :: "octets option"
  hc_headers :: "(string \<times> string) list"
  hc_interval :: duration
  hc_maxRetries :: int
  hc_timeout :: duration
  hc_oauthConfig :: "oauth2_config option"
  hc_pinnedCert :: octets
  hc_pinEnabled :: bool
  hc_oAuthToken :: "(string \<times> gotime) option"
  hc_sensors :: "sensor option list"   \<comment> \<open>a nil one is kept and skipped by every call\<close>
  hc_loggers :: "logger option list"
  hc_isServing :: bool

record client_request =
  cq_method :: string
  cq_endpoint :: string
  cq_headers :: "string \<rightharpoonup> string"
  cq_body :: octets

record client_response =
  cs_StatusCode :: int
  cs_ContentType :: string
  cs_Body :: "gerr + octets"

record token_answer =
  ta_access_token :: string
  ta_expires_in :: int
  ta_error :: string
  ta_error_description :: string

text \<open>\<open>ce_do\<close> also says how much of the body the transport has read.\<close>

record 'a client_env =
  ce_token :: "nat \<Rightarrow> oauth2_config \<Rightarrow> gerr + (gerr + token_answer) http_response"
  ce_now :: "nat \<Rightarrow> gotime"
  ce_newRequest :: "string \<Rightarrow> string \<Rightarrow> gerr option"
  ce_do :: "nat \<Rightarrow> client_request \<Rightarrow> (gerr + client_response) \<times> nat"
  ce_json :: "octets \<Rightarrow> gerr + 'a"
  ce_xml :: "octets \<Rightarrow> gerr + 'a"
  ce_zero :: 'a
  ce_submit :: "nat \<Rightarrow> 'a \<Rightarrow> gerr option"
  ce_order :: "nat \<Rightarrow> (string \<times> string) list \<Rightarrow> (string \<times> string) list"

record 'a client_world =
  cw_client :: http_client
  cw_clock :: nat                      \<comment> \<open>readings of the clock so far\<close>
  cw_tokens :: nat                     \<comment> \<open>token requests so far\<close>
  cw_sent :: "client_request list"
  cw_submitted :: "('a \<times> gerr option) list"   \<comment> \<open>each submission with its result\<close>
  cw_trace :: "'a effect list"

definition NewHTTPClientAdapter_base :: "string \<Rightarrow> http_client" where
  "NewHTTPClientAdapter_base hash =
     \<lparr>hc_metadata = \<lparr>meta_ID = hash, meta_Type = ''HTTP_ADAPTER'', meta_Name = ''''\<rparr>, hc_method = '''', hc_endpoint = '''',
      hc_body = None, hc_headers = [], hc_interval = time_Second, hc_maxRetries = 0, hc_timeout = 30 * time_Second,
      hc_oauthConfig = None, hc_pinnedCert = [], hc_pinEnabled = False, hc_oAuthToken = None, hc_sensors = [], hc_loggers = [],
      hc_isServing = False\<rparr>"

definition hc_NotifyLoggers ::
  "loglevel \<Rightarrow> string \<Rightarrow> (string \<times> 'a logval) list \<Rightarrow> 'a client_world \<Rightarrow> 'a client_world" where
  "hc_NotifyLoggers level msg kvs w =
     w\<lparr>cw_trace := cw_trace w @ log_calls logger_wants_by_level (present (hc_loggers (cw_client w))) level msg kvs\<rparr>"

definition hc_notify :: "(metadata \<Rightarrow> 'a sensor_call) \<Rightarrow> 'a client_world \<Rightarrow> 'a client_world" where
  "hc_notify call w =
     w\<lparr>cw_trace := cw_trace w @ sensor_calls (present (hc_sensors (cw_client w))) (call (hc_metadata (cw_client w)))\<rparr>"

definition notifyHTTPClientRequestStart :: "'a client_world \<Rightarrow> 'a client_world" where
  "notifyHTTPClientRequestStart = hc_notify InvokeOnHTTPClientRequestStart"

definition notifyHTTPClientError :: "gerr \<Rightarrow> 'a client_world \<Rightarrow> 'a client_world" where
  "notifyHTTPClientError err = hc_notify (\<lambda>m. InvokeOnHTTPClientError m err)"

definition notifyHTTPClientResponseReceived :: "'a client_world \<Rightarrow> 'a client_world" where
  "notifyHTTPClientResponseReceived = hc_notify InvokeOnHTTPClientResponseReceived"

definition notifyHTTPClientRequestComplete :: "'a client_world \<Rightarrow> 'a client_world" where
  "notifyHTTPClientRequestComplete = hc_notify InvokeOnHTTPClientRequestComplete"

section \<open>Configuration\<close>

definition hc_set :: "(http_client \<Rightarrow> http_client) \<Rightarrow> 'a client_world \<Rightarrow> 'a client_world" where
  "hc_set f w = w\<lparr>cw_client := f (cw_client w)\<rparr>"

definition hc_SetRequestConfig :: "string \<Rightarrow> string \<Rightarrow> octets option \<Rightarrow> 'a client_world \<Rightarrow> 'a client_world" where
  "hc_SetRequestConfig method endpoint body =
     hc_set (\<lambda>c. c\<lparr>hc_method := method, hc_endpoint := endpoint, hc_body := body\<rparr>)"

definition hc_SetInterval :: "duration \<Rightarrow> 'a client_world \<Rightarrow> 'a client_world" where
  "hc_SetInterval d = hc_set (\<lambda>c. c\<lparr>hc_interval := d\<rparr>)"

definition hc_SetTimeout :: "duration \<Rightarrow> 'a client_world \<Rightarrow> 'a client_world" where
  "hc_SetTimeout d = hc_set (\<lambda>c. c\<lparr>hc_timeout := d\<rparr>)"

definition hc_SetMaxRetries :: "int \<Rightarrow> 'a client_world \<Rightarrow> 'a client_world" where
  "hc_SetMaxRetries n = hc_set (\<lambda>c. c\<lparr>hc_maxRetries := n\<rparr>)"

definition hc_SetOAuth2Config :: "oauth2_config \<Rightarrow> 'a client_world \<Rightarrow> 'a client_world" where
  "hc_SetOAuth2Config oc = hc_set (\<lambda>c. c\<lparr>hc_oauthConfig := Some oc\<rparr>)"

definition validateHeaderValue :: "string \<Rightarrow> 'a client_world \<Rightarrow> gerr option \<times> 'a client_world" where
  "validateHeaderValue v w =
     (if CHR 0x0D \<in> set v \<or> CHR 0x0A \<in> set v
      then let err = Err ''header contains unsupported character'' in
        (Some err,
         hc_NotifyLoggers ErrorLevel ''httpclient invalid header value''
           [(''component'', LMeta (hc_metadata (cw_client w))), (''event'', LStr ''ValidateHeader''), (''error'', LErr (Some err))]
           (notifyHTTPClientError err w))
      else (None, w))"

definition hc_AddHeader :: "string \<Rightarrow> string \<Rightarrow> 'a client_world \<Rightarrow> 'a client_world" where
  "hc_AddHeader key val w =
     (case validateHeaderValue val w of
        (Some _, w1) \<Rightarrow> w1
      | (None, w1) \<Rightarrow> hc_set (\<lambda>c. c\<lparr>hc_headers := AList.update key val (hc_headers c)\<rparr>) w1)"

text \<open>\<^verbatim>\<open>base64.StdEncoding.EncodeToString\<close>.\<close>

definition base64_char :: "nat \<Rightarrow> char" where
  "base64_char n =
     (if n < 26 then char_of (n + 65) else if n < 52 then char_of (n + 71) else if n < 62 then char_of (n - 4)
      else if n = 62 then CHR ''+'' else CHR ''/'')"

fun base64_EncodeToString :: "octets \<Rightarrow> string" where
  "base64_EncodeToString [] = ''''"
| "base64_EncodeToString [a] = (let x = unat a in [base64_char (x div 4), base64_char (x mod 4 * 16), CHR ''='', CHR ''=''])"
| "base64_EncodeToString [a, b] =
     (let x = unat a; y = unat b in
      [base64_char (x div 4), base64_char (x mod 4 * 16 + y div 16), base64_char (y mod 16 * 4), CHR ''=''])"
| "base64_EncodeToString (a # b # c # rest) =
     (let x = unat a; y = unat b; z = unat c in
      base64_char (x div 4) # base64_char (x mod 4 * 16 + y div 16) # base64_char (y mod 16 * 4 + z div 64) #
      base64_char (z mod 64) # base64_EncodeToString rest)"

definition hc_SetBasicAuth :: "string \<Rightarrow> string \<Rightarrow> 'a client_world \<Rightarrow> 'a client_world" where
  "hc_SetBasicAuth user password =
     hc_AddHeader ''Authorization'' (''Basic '' @ base64_EncodeToString (bytes_of (user @ '':'' @ password)))"

definition hc_ConnectSensor :: "sensor option list \<Rightarrow> 'a client_world \<Rightarrow> 'a client_world" where
  "hc_ConnectSensor ss = hc_set (\<lambda>c. c\<lparr>hc_sensors := hc_sensors c @ ss\<rparr>)"

definition hc_ConnectLogger :: "logger option list \<Rightarrow> 'a client_world \<Rightarrow> 'a client_world" where
  "hc_ConnectLogger ls = hc_set (\<lambda>c. c\<lparr>hc_loggers := hc_loggers c @ ls\<rparr>)"

definition hc_SetComponentMetadata :: "string \<Rightarrow> string \<Rightarrow> 'a client_world \<Rightarrow> 'a client_world" where
  "hc_SetComponentMetadata name i = hc_set (\<lambda>c. c\<lparr>hc_metadata := (hc_metadata c)\<lparr>meta_Name := name, meta_ID := i\<rparr>\<rparr>)"

text \<open>The certificate read from the file, or the error of \<^verbatim>\<open>loadCertificate\<close>.\<close>

definition SetTlsPinnedCertificate :: "(string \<Rightarrow> gerr + octets) \<Rightarrow> string \<Rightarrow> 'a client_world \<Rightarrow> 'a client_world" where
  "SetTlsPinnedCertificate load path w =
     (case load path of
        Inl err \<Rightarrow>
          hc_NotifyLoggers ErrorLevel ''httpclient tls pinning failed''
            [(''component'', LMeta (hc_metadata (cw_client w))), (''event'', LStr ''TLSPinning''), (''cert_path'', LStr path),
             (''error'', LErr (Some err))] (notifyHTTPClientError err w)
      | Inr cert \<Rightarrow> hc_set (\<lambda>c. c\<lparr>hc_pinnedCert := cert, hc_pinEnabled := True\<rparr>) w)"

definition verifyServerCertificate :: "http_client \<Rightarrow> octets list list \<Rightarrow> gerr option" where
  "verifyServerCertificate c verified =
     (if \<not> hc_pinEnabled c then None
      else if list_ex (list_ex (\<lambda>cert. cert = hc_pinnedCert c)) verified then None
      else Some (Err ''TLS certificate pinning check failed''))"

section \<open>Tokens\<close>

definition GetTokenFromOAuthServer ::
  "'a client_env \<Rightarrow> oauth2_config \<Rightarrow> 'a client_world \<Rightarrow> (gerr + string) \<times> 'a client_world" where
  "GetTokenFromOAuthServer env oc w =
     (let w1 = w\<lparr>cw_tokens := Suc (cw_tokens w)\<rparr> in
      case ce_token env (cw_tokens w) oc of
        Inl err \<Rightarrow> (Inl err, w1)
      | Inr resp \<Rightarrow>
        (case resp_Body resp of
           Inl err \<Rightarrow> (Inl err, w1)
         | Inr answer \<Rightarrow>
           if resp_StatusCode resp < 200 \<or> resp_StatusCode resp \<ge> 300
           then (Inl (Err (''oauth token request failed: '' @ resp_Status resp)), w1)
           else case answer of
             Inl err \<Rightarrow> (Inl err, w1)
           | Inr a \<Rightarrow>
             if ta_error a \<noteq> '''' then (Inl (Err (''oauth error: '' @ ta_error a @ '' - '' @ ta_error_description a)), w1)
             else
               let expiresAt = time_Add (ce_now env (cw_clock w1)) (wrap_i64 (ta_expires_in a * time_Second)) in
               (Inr (ta_access_token a),
                hc_set (\<lambda>c. c\<lparr>hc_oAuthToken := Some (ta_access_token a, expiresAt)\<rparr>) (w1\<lparr>cw_clock := Suc (cw_clock w1)\<rparr>))))"

definition EnsureValidToken :: "'a client_env \<Rightarrow> oauth2_config \<Rightarrow> 'a client_world \<Rightarrow> gerr option \<times> 'a client_world" where
  "EnsureValidToken env oc w =
     (let refresh = (\<lambda>w. case GetTokenFromOAuthServer env oc w of
                           (Inl err, w1) \<Rightarrow> (Some err, w1) | (Inr _, w1) \<Rightarrow> (None, w1)) in
      case hc_oAuthToken (cw_client w) of
        None \<Rightarrow> refresh w
      | Some (tok, expiresAt) \<Rightarrow>
          let w1 = w\<lparr>cw_clock := Suc (cw_clock w)\<rparr> in
          if time_Before (ce_now env (cw_clock w)) expiresAt then (None, w1) else refresh w1)"

section \<open>Fetching\<close>

text \<open>The value of a body by its content type; the bytes of a body that is neither JSON nor XML go nowhere.\<close>

definition processResponse :: "'a client_env \<Rightarrow> client_response \<Rightarrow> gerr + 'a" where
  "processResponse env resp =
     (let ct = cs_ContentType resp;
          read = (\<lambda>f. case cs_Body resp of Inl err \<Rightarrow> Inl err | Inr b \<Rightarrow> f b) in
      if Contains ct ''application/json'' then read (ce_json env)
      else if Contains ct ''text/xml'' \<or> Contains ct ''application/xml'' then read (ce_xml env)
      else if Contains ct ''application/octet-stream'' \<or> Contains ct ''text/plain'' \<or> Contains ct ''text/html''
      then read (\<lambda>b. Inr (ce_zero env))
      else case cs_Body resp of Inl err \<Rightarrow> Inl (Err ''unsupported content type'') | Inr b \<Rightarrow> Inr (ce_zero env))"

text \<open>The fields of a map in the order in which the \<open>n\<close>th request visits them: any order, each field once.\<close>

definition walk_headers :: "'a client_env \<Rightarrow> nat \<Rightarrow> (string \<times> string) list \<Rightarrow> (string \<times> string) list" where
  "walk_headers env n kvs = (let walk = ce_order env n kvs in if mset walk = mset kvs then walk else kvs)"

definition build_request :: "'a client_env \<Rightarrow> nat \<Rightarrow> http_client \<Rightarrow> client_request" where
  "build_request env n c =
     \<lparr>cq_method = hc_method c, cq_endpoint = hc_endpoint c,
      cq_headers = fold (\<lambda>(k, v). header_Set k v) (walk_headers env n (hc_headers c)) Map.empty,
      cq_body = (case hc_body c of None \<Rightarrow> [] | Some b \<Rightarrow> b)\<rparr>"

text \<open>The request on its way: the transport reads from the reader the configuration holds.\<close>

definition client_Do :: "'a client_env \<Rightarrow> 'a client_world \<Rightarrow> (gerr + client_response) \<times> 'a client_world" where
  "client_Do env w =
     (let req = build_request env (length (cw_sent w)) (cw_client w) in
      case ce_do env (length (cw_sent w)) req of
        (res, n) \<Rightarrow>
          (res, hc_set (\<lambda>c. c\<lparr>hc_body := map_option (drop n) (hc_body c)\<rparr>) (w\<lparr>cw_sent := cw_sent w @ [req]\<rparr>)))"

definition client_authorize :: "'a client_env \<Rightarrow> 'a client_world \<Rightarrow> gerr option \<times> 'a client_world" where
  "client_authorize env w =
     (case hc_oauthConfig (cw_client w) of None \<Rightarrow> (None, w) | Some oc \<Rightarrow> EnsureValidToken env oc w)"

definition fetch_authorized :: "'a client_env \<Rightarrow> 'a client_world \<Rightarrow> ((int \<times> 'a) \<times> gerr option) \<times> 'a client_world" where
  "fetch_authorized env w =
     (case ce_newRequest env (hc_method (cw_client w)) (hc_endpoint (cw_client w)) of
        Some err \<Rightarrow>
          (((0, ce_zero env), Some (Wrapped ''failed to create HTTP request'' err)), notifyHTTPClientError err w)
      | None \<Rightarrow>
        (case client_Do env w of
           (Inl err, w1) \<Rightarrow>
             (((0, ce_zero env), Some (Wrapped ''http request execution failed'' err)), notifyHTTPClientError err w1)
         | (Inr resp, w1) \<Rightarrow>
           if cs_StatusCode resp < 200 \<or> cs_StatusCode resp \<ge> 300 then
             let err = Err ''http request failed with status code'' in
             (((cs_StatusCode resp, ce_zero env), Some (Wrapped ''http request failed with non-success status'' err)),
              notifyHTTPClientError err w1)
           else
             let w2 = notifyHTTPClientResponseReceived w1 in
             (case processResponse env resp of
                Inl err \<Rightarrow> (((0, ce_zero env), Some err), w2)
              | Inr d \<Rightarrow> (((cs_StatusCode resp, d), None), notifyHTTPClientRequestComplete w2))))"

definition Fetch :: "'a client_env \<Rightarrow> 'a client_world \<Rightarrow> ((int \<times> 'a) \<times> gerr option) \<times> 'a client_world" where
  "Fetch env w =
     (case client_authorize env (notifyHTTPClientRequestStart w) of
        (Some err, w1) \<Rightarrow> (((0, ce_zero env), Some err), notifyHTTPClientError err w1)
      | (None, w1) \<Rightarrow> fetch_authorized env w1)"

section \<open>Retries and serving\<close>

text \<open>
  The bound of the random wait: a power of two, converted from a float, times a second in 64 bits.
  From \<open>2^63\<close> on the conversion is implementation specific: \<open>oor\<close>.
\<close>

definition backoff_bound :: "int \<Rightarrow> int \<Rightarrow> duration" where
  "backoff_bound oor attempt =
     (if attempt < 0 then 0 else wrap_i64 ((if attempt < 63 then 2 ^ nat attempt else oor) * time_Second))"

definition backoffDuration :: "int \<Rightarrow> (int \<Rightarrow> int) \<Rightarrow> int \<Rightarrow> duration" where
  "backoffDuration oor rand attempt = (let e = backoff_bound oor attempt in if e \<le> 0 then 0 else rand e)"

definition sleepWithContext :: "gerr option \<Rightarrow> duration \<Rightarrow> gerr option" where
  "sleepWithContext interrupted d = (if d \<le> 0 then None else interrupted)"

text \<open>
  What the context and the clock do during the attempts of a tick: the error of the context before an attempt, the
  wait after it, and the error if the context ends during the wait.
\<close>

record tick_env =
  te_ctx :: "int \<Rightarrow> gerr option"
  te_oor :: int
  te_rand :: "int \<Rightarrow> int"
  te_interrupted :: "int \<Rightarrow> gerr option"

definition try_once :: "'a client_env \<Rightarrow> 'a client_world \<Rightarrow> gerr option \<times> 'a client_world" where
  "try_once env w =
     (case Fetch env w of
        ((_, Some err), w1) \<Rightarrow> (Some err, w1)
      | ((resp, None), w1) \<Rightarrow>
          let r = ce_submit env (length (cw_submitted w1)) (snd resp) in
          (r, w1\<lparr>cw_submitted := cw_submitted w1 @ [(snd resp, r)]\<rparr>))"

function attempt_loop :: "'a client_env \<Rightarrow> tick_env \<Rightarrow> int \<Rightarrow> int \<Rightarrow> gerr option \<Rightarrow> 'a client_world \<Rightarrow> gerr option \<times> 'a client_world" where
  "attempt_loop env te maxRetries attempt lastErr w =
     (if attempt > maxRetries then
        (Some (Wrapped ''retries exhausted'' (case lastErr of None \<Rightarrow> Err ''retries exhausted'' | Some e \<Rightarrow> e)), w)
      else case te_ctx te attempt of
        Some err \<Rightarrow> (Some err, w)
      | None \<Rightarrow>
        (case try_once env w of
           (None, w1) \<Rightarrow> (None, w1)
         | (Some err, w1) \<Rightarrow>
           if attempt < maxRetries then
             (case sleepWithContext (te_interrupted te attempt) (backoffDuration (te_oor te) (te_rand te) attempt) of
                Some e \<Rightarrow> (Some e, w1)
              | None \<Rightarrow> attempt_loop env te maxRetries (attempt + 1) (Some err) w1)
           else (Some (Wrapped ''retries exhausted'' err), w1)))"
  by pat_completeness auto

termination attempt_loop
  by (relation "measure (\<lambda>(env, te, maxRetries, attempt, lastErr, w). nat (maxRetries + 1 - attempt))") auto

declare attempt_loop.simps [simp del]

definition attemptFetchAndSubmit ::
  "'a client_env \<Rightarrow> tick_env \<Rightarrow> int \<Rightarrow> 'a client_world \<Rightarrow> gerr option \<times> 'a client_world" where
  "attemptFetchAndSubmit env te maxRetries w = attempt_loop env te maxRetries 0 None w"

datatype serve_event = ServeTick tick_env | ServeCancel

fun client_serve_loop :: "'a client_env \<Rightarrow> int \<Rightarrow> serve_event list \<Rightarrow> 'a client_world \<Rightarrow> gerr option option \<times> 'a client_world" where
  "client_serve_loop env maxRetries [] w = (None, w)"
| "client_serve_loop env maxRetries (ServeCancel # es) w =
     (Some None, hc_NotifyLoggers WarnLevel ''httpclient serve canceled''
        [(''component'', LMeta (hc_metadata (cw_client w))), (''event'', LStr ''ServeStop''), (''result'', LStr ''CANCELLED'')] w)"
| "client_serve_loop env maxRetries (ServeTick te # es) w =
     (case attemptFetchAndSubmit env te maxRetries w of
        (None, w1) \<Rightarrow> client_serve_loop env maxRetries es w1
      | (Some err, w1) \<Rightarrow>
          (Some (Some err), hc_NotifyLoggers ErrorLevel ''httpclient serve failed''
             [(''component'', LMeta (hc_metadata (cw_client w1))), (''event'', LStr ''ServeError''), (''error'', LErr (Some err))] w1))"

definition client_Serve ::
  "'a client_env \<Rightarrow> bool \<Rightarrow> serve_event list \<Rightarrow> 'a client_world \<Rightarrow> gerr option option \<times> 'a client_world" where
  "client_Serve env submit_set es w =
     (if \<not> submit_set then (Some (Some (Err ''submit function is required'')), w)
      else if hc_isServing (cw_client w) then (Some None, w)
      else if hc_interval (cw_client w) \<le> 0 then (Some (Some (Err ''interval must be greater than zero'')), w)
      else
        let w1 = hc_NotifyLoggers InfoLevel ''httpclient serve started''
                   [(''component'', LMeta (hc_metadata (cw_client w))), (''event'', LStr ''ServeStart''),
                    (''interval'', LInt (hc_interval (cw_client w)))] (hc_set (\<lambda>c. c\<lparr>hc_isServing := True\<rparr>) w) in
        (case client_serve_loop env (hc_maxRetries (cw_client w)) es w1 of
           (None, w2) \<Rightarrow> (None, w2)
         | (Some r, w2) \<Rightarrow> (Some r, hc_set (\<lambda>c. c\<lparr>hc_isServing := False\<rparr>) w2)))"

section \<open>Options\<close>

datatype client_option =
    HC_WithContentType string
  | HC_WithHeader string string
  | HC_WithInterval duration
  | HC_WithLogger "logger option list"
  | HC_WithMaxRetries int
  | HC_WithOAuth2ClientCredentials oauth2_config
  | HC_WithRequestConfig string string "octets option"
  | HC_WithSensor "sensor option list"
  | HC_WithTimeout duration
  | HC_WithTLSPinning string
  | HC_WithUserAgent string

fun apply_client_option ::
  "'a client_env \<Rightarrow> (string \<Rightarrow> gerr + octets) \<Rightarrow> client_option \<Rightarrow> 'a client_world \<Rightarrow> 'a client_world" where
  "apply_client_option env load (HC_WithContentType ct) w = hc_AddHeader ''Content-Type'' ct w"
| "apply_client_option env load (HC_WithHeader k v) w = hc_AddHeader k v w"
| "apply_client_option env load (HC_WithInterval d) w = hc_SetInterval d w"
| "apply_client_option env load (HC_WithLogger ls) w = hc_ConnectLogger ls w"
| "apply_client_option env load (HC_WithMaxRetries n) w = hc_SetMaxRetries n w"
| "apply_client_option env load (HC_WithOAuth2ClientCredentials oc) w =
     (let w1 = hc_SetOAuth2Config oc w in
      case GetTokenFromOAuthServer env oc w1 of
        (Inl err, w2) \<Rightarrow>
          hc_NotifyLoggers ErrorLevel ''OAuth2 credentials failed''
            [(''component'', LMeta (hc_metadata (cw_client w2))), (''event'', LStr ''OAuth2Config''), (''error'', LErr (Some err)),
             (''token_url'', LStr (oc_TokenURL oc)), (''audience'', LStr (oc_Audience oc)),
             (''scopes'', LPtr (oc_Scopes oc \<noteq> []))] w2
      | (Inr token, w2) \<Rightarrow> hc_AddHeader ''Authorization'' (''Bearer '' @ token) w2)"
| "apply_client_option env load (HC_WithRequestConfig m e b) w = hc_SetRequestConfig m e b w"
| "apply_client_option env load (HC_WithSensor ss) w = hc_ConnectSensor ss w"
| "apply_client_option env load (HC_WithTimeout d) w = hc_SetTimeout d w"
| "apply_client_option env load (HC_WithTLSPinning p) w = SetTlsPinnedCertificate load p w"
| "apply_client_option env load (HC_WithUserAgent ua) w = hc_AddHeader ''User-Agent'' ua w"

definition NewHTTPClientAdapter ::
  "'a client_env \<Rightarrow> (string \<Rightarrow> gerr + octets) \<Rightarrow> string \<Rightarrow> client_option option list \<Rightarrow> 'a client_world" where
  "NewHTTPClientAdapter env load hash opts =
     fold (apply_client_option env load) (present opts)
       \<lparr>cw_client = NewHTTPClientAdapter_base hash, cw_clock = 0, cw_tokens = 0, cw_sent = [], cw_submitted = [], cw_trace = []\<rparr>"

section \<open>Lemmas\<close>

lemma hc_notify_same [simp]:
  "cw_client (hc_notify f w) = cw_client w" "cw_sent (hc_notify f w) = cw_sent w" "cw_submitted (hc_notify f w) = cw_submitted w"
  "cw_client (hc_NotifyLoggers l m k w) = cw_client w" "cw_sent (hc_NotifyLoggers l m k w) = cw_sent w"
  "cw_submitted (hc_NotifyLoggers l m k w) = cw_submitted w"
  by (simp_all add: hc_notify_def hc_NotifyLoggers_def)

lemma hc_set_same [simp]:
  "cw_client (hc_set f w) = f (cw_client w)" "cw_sent (hc_set f w) = cw_sent w" "cw_submitted (hc_set f w) = cw_submitted w"
  by (simp_all add: hc_set_def)

lemmas client_notifications =
  notifyHTTPClientRequestStart_def notifyHTTPClientError_def notifyHTTPClientResponseReceived_def
  notifyHTTPClientRequestComplete_def

text \<open>What fetching never changes: all of the configuration but the reader and the token.\<close>

definition same_request :: "http_client \<Rightarrow> http_client \<Rightarrow> bool" where
  "same_request c c' \<longleftrightarrow>
     hc_method c' = hc_method c \<and> hc_endpoint c' = hc_endpoint c \<and> hc_headers c' = hc_headers c \<and>
     hc_oauthConfig c' = hc_oauthConfig c \<and> hc_maxRetries c' = hc_maxRetries c"

lemma same_request_refl [simp]: "same_request c c"
  by (simp add: same_request_def)

lemma same_request_trans: "same_request a b \<Longrightarrow> same_request b c \<Longrightarrow> same_request a c"
  by (simp add: same_request_def)

lemma GetToken_spec:
  assumes "GetTokenFromOAuthServer env oc w = (r, w')"
  shows "same_request (cw_client w) (cw_client w') \<and> hc_body (cw_client w') = hc_body (cw_client w) \<and>
    cw_sent w' = cw_sent w \<and> cw_submitted w' = cw_submitted w"
  using assms
  by (auto simp: GetTokenFromOAuthServer_def Let_def same_request_def split: sum.splits if_splits)

lemma EnsureValidToken_spec:
  assumes "EnsureValidToken env oc w = (r, w')"
  shows "same_request (cw_client w) (cw_client w') \<and> hc_body (cw_client w') = hc_body (cw_client w) \<and>
    cw_sent w' = cw_sent w \<and> cw_submitted w' = cw_submitted w"
proof -
  have g: "same_request (cw_client v) (cw_client (snd (GetTokenFromOAuthServer env oc v))) \<and>
      hc_body (cw_client (snd (GetTokenFromOAuthServer env oc v))) = hc_body (cw_client v) \<and>
      cw_sent (snd (GetTokenFromOAuthServer env oc v)) = cw_sent v \<and>
      cw_submitted (snd (GetTokenFromOAuthServer env oc v)) = cw_submitted v" for v
    using GetToken_spec [of env oc v] by (metis surjective_pairing)
  show ?thesis
    using assms g [of w] g [of "w\<lparr>cw_clock := Suc (cw_clock w)\<rparr>"]
    by (auto simp: EnsureValidToken_def Let_def split: option.splits prod.splits sum.splits if_splits)
qed

text \<open>
  A fetch sends at most one request, built from the configuration as it stands; it submits nothing, and leaves
  of the reader what the transport has not read.
\<close>

lemma client_authorize_spec:
  assumes "client_authorize env w = (r, w')"
  shows "same_request (cw_client w) (cw_client w') \<and> hc_body (cw_client w') = hc_body (cw_client w) \<and>
    cw_sent w' = cw_sent w \<and> cw_submitted w' = cw_submitted w"
  using assms EnsureValidToken_spec [of env _ w r w'] by (auto simp: client_authorize_def split: option.splits)

lemma fetch_authorized_spec:
  assumes "fetch_authorized env w = (r, w')"
  shows "same_request (cw_client w) (cw_client w') \<and> cw_submitted w' = cw_submitted w \<and>
    (cw_sent w' = cw_sent w \<and> hc_body (cw_client w') = hc_body (cw_client w) \<or>
     cw_sent w' = cw_sent w @ [build_request env (length (cw_sent w)) (cw_client w)] \<and>
     hc_body (cw_client w') = map_option (drop (snd (ce_do env (length (cw_sent w)) (build_request env (length (cw_sent w)) (cw_client w))))) (hc_body (cw_client w)))"
proof -
  obtain res n where doit: "ce_do env (length (cw_sent w)) (build_request env (length (cw_sent w)) (cw_client w)) = (res, n)"
    by (metis surj_pair)
  show ?thesis
    using assms
    by (cases res)
      (auto simp: fetch_authorized_def client_Do_def doit Let_def same_request_def client_notifications
        split: option.splits if_splits sum.splits)
qed

lemma Fetch_spec:
  assumes "Fetch env w = (r, w')"
  shows "same_request (cw_client w) (cw_client w') \<and> cw_submitted w' = cw_submitted w \<and>
    (cw_sent w' = cw_sent w \<and> hc_body (cw_client w') = hc_body (cw_client w) \<or>
     cw_sent w' = cw_sent w @ [build_request env (length (cw_sent w)) (cw_client w)] \<and>
     hc_body (cw_client w') = map_option (drop (snd (ce_do env (length (cw_sent w)) (build_request env (length (cw_sent w)) (cw_client w))))) (hc_body (cw_client w)))"
proof -
  obtain err w1 where auth: "client_authorize env (notifyHTTPClientRequestStart w) = (err, w1)"
    by (metis surj_pair)
  note a = client_authorize_spec [OF auth]
  have build: "build_request env (length (cw_sent w1)) (cw_client w1) = build_request env (length (cw_sent w)) (cw_client w)"
    using a by (simp add: build_request_def same_request_def client_notifications)
  show ?thesis
  proof (cases err)
    case None
    then have "fetch_authorized env w1 = (r, w')"
      using assms by (simp add: Fetch_def auth)
    from fetch_authorized_spec [OF this] a build show ?thesis
      using same_request_trans by (auto simp: client_notifications)
  next
    case (Some e)
    then have "w' = notifyHTTPClientError e w1"
      using assms by (simp add: Fetch_def auth)
    with a show ?thesis by (simp add: client_notifications)
  qed
qed

text \<open>The successful submissions of a world.\<close>

definition client_delivered :: "'a client_world \<Rightarrow> nat" where
  "client_delivered w = length (filter (\<lambda>s. snd s = None) (cw_submitted w))"

lemma try_once_spec:
  assumes "try_once env w = (r, w')"
  shows "client_delivered w' = client_delivered w + (if r = None then 1 else 0) \<and> length (cw_sent w') \<le> Suc (length (cw_sent w)) \<and>
    same_request (cw_client w) (cw_client w')"
proof -
  obtain resp ferr w1 where f: "Fetch env w = ((resp, ferr), w1)" by (metis surj_pair)
  show ?thesis
    using assms Fetch_spec [OF f]
    by (auto simp: try_once_def f client_delivered_def Let_def split: option.splits if_splits)
qed

lemma attempt_loop_spec:
  assumes "attempt_loop env te maxRetries attempt lastErr w = (r, w')" and "0 \<le> attempt"
  shows "client_delivered w' = client_delivered w + (if r = None then 1 else 0) \<and>
    int (length (cw_sent w')) \<le> int (length (cw_sent w)) + max 0 (maxRetries + 1 - attempt) \<and>
    same_request (cw_client w) (cw_client w')"
  using assms
proof (induction env te maxRetries attempt lastErr w arbitrary: r w' rule: attempt_loop.induct)
  case (1 env te maxRetries attempt lastErr w)
  obtain t w1 where t: "try_once env w = (t, w1)" by (metis surj_pair)
  note ts = try_once_spec [OF t]
  show ?case
  proof (cases "attempt > maxRetries \<or> te_ctx te attempt \<noteq> None \<or> t = None \<or> \<not> attempt < maxRetries \<or>
      sleepWithContext (te_interrupted te attempt) (backoffDuration (te_oor te) (te_rand te) attempt) \<noteq> None")
    case True
    then show ?thesis
      using "1.prems" ts attempt_loop.simps [of env te maxRetries attempt lastErr w]
      by (cases r; cases "te_ctx te attempt"; cases t;
          cases "sleepWithContext (te_interrupted te attempt) (backoffDuration (te_oor te) (te_rand te) attempt)")
        (auto simp: t split: if_splits)
  next
    case False
    then obtain e where go: "\<not> attempt > maxRetries" "te_ctx te attempt = None" "t = Some e" "attempt < maxRetries"
        "sleepWithContext (te_interrupted te attempt) (backoffDuration (te_oor te) (te_rand te) attempt) = None"
      by auto
    have rec: "attempt_loop env te maxRetries (attempt + 1) (Some e) w1 = (r, w')"
      using "1.prems"(1) go by (subst (asm) attempt_loop.simps) (simp add: t)
    show ?thesis
      using "1.IH" [OF go(1,2) t [symmetric, unfolded go(3)] refl go(4,5) rec] "1.prems"(2) ts go same_request_trans
      by (auto simp: max_def split: if_splits)
  qed
qed

text \<open>
  C37: A tick of the HTTP client delivers at most once: when it returns no error exactly one submission has
  succeeded, and when it returns one none has; it sends at most one request more than the retries allowed.
\<close>

theorem tick_delivers_once:
  "client_delivered (snd (attemptFetchAndSubmit env te n w)) =
     client_delivered w + (if fst (attemptFetchAndSubmit env te n w) = None then 1 else 0) \<and>
   int (length (cw_sent (snd (attemptFetchAndSubmit env te n w)))) \<le> int (length (cw_sent w)) + max 0 (n + 1)"
  using attempt_loop_spec [of env te n 0 None w "fst (attemptFetchAndSubmit env te n w)" "snd (attemptFetchAndSubmit env te n w)"]
  by (simp add: attemptFetchAndSubmit_def)

text \<open>A request that carries the configured fields, set in some order.\<close>

definition carries_fields :: "(string \<times> string) list \<Rightarrow> client_request \<Rightarrow> bool" where
  "carries_fields hs q \<longleftrightarrow> (\<exists>walk. mset walk = mset hs \<and> cq_headers q = fold (\<lambda>(k, v). header_Set k v) walk Map.empty)"

lemma build_request_carries: "carries_fields (hc_headers c) (build_request env n c)"
  unfolding carries_fields_def
  by (rule exI [of _ "walk_headers env n (hc_headers c)"]) (simp add: build_request_def walk_headers_def Let_def)

text \<open>When no two keys have the same canonical form, the order does not matter.\<close>

lemma carries_fields_distinct:
  assumes "carries_fields hs q" and "distinct (map fst (canonical_headers hs))"
  shows "cq_headers q = map_of (canonical_headers hs)"
proof -
  obtain walk where w: "mset walk = mset hs" "cq_headers q = fold (\<lambda>(k, v). header_Set k v) walk Map.empty"
    using assms(1) unfolding carries_fields_def by blast
  have m: "mset (canonical_headers walk) = mset (canonical_headers hs)"
    using w(1) by (simp add: canonical_headers_def)
  have d: "distinct (map fst (canonical_headers walk))"
    using assms(2) mset_eq_imp_distinct_iff [of "map fst (canonical_headers walk)" "map fst (canonical_headers hs)"] m by simp
  have "map_of (canonical_headers walk) = map_of (canonical_headers hs)"
    using map_of_inject_set [OF d assms(2)] mset_eq_setD [OF m] by blast
  then show ?thesis
    using fold_header_Set [OF d, of Map.empty] w(2) by simp
qed

text \<open>All requests of a run carry the fields of the configuration.\<close>

definition sends_as :: "nat \<Rightarrow> (string \<times> string) list \<Rightarrow> 'a client_world \<Rightarrow> bool" where
  "sends_as k hs w \<longleftrightarrow>
     (\<forall>q\<in>set (drop k (cw_sent w)). carries_fields hs q) \<and> hc_headers (cw_client w) = hs \<and> k \<le> length (cw_sent w)"

lemma try_once_sends_as:
  assumes "sends_as k hs w" and "try_once env w = (r, w')"
  shows "sends_as k hs w'"
proof -
  obtain resp ferr w1 where f: "Fetch env w = ((resp, ferr), w1)" by (metis surj_pair)
  have w': "cw_sent w' = cw_sent w1" "cw_client w' = cw_client w1"
    using assms(2) by (auto simp: try_once_def f Let_def split: option.splits)
  show ?thesis
    using Fetch_spec [OF f] assms(1) build_request_carries [of "cw_client w" env "length (cw_sent w)"]
    by (auto simp: sends_as_def w' same_request_def)
qed

lemma attempt_loop_sends_as:
  "sends_as k hs w \<Longrightarrow> sends_as k hs (snd (attempt_loop env te maxRetries attempt lastErr w))"
proof (induction env te maxRetries attempt lastErr w rule: attempt_loop.induct)
  case (1 env te maxRetries attempt lastErr w)
  obtain t w1 where t: "try_once env w = (t, w1)" by (metis surj_pair)
  have w1: "sends_as k hs w1"
    by (rule try_once_sends_as [OF "1.prems" t])
  let ?slept = "sleepWithContext (te_interrupted te attempt) (backoffDuration (te_oor te) (te_rand te) attempt)"
  show ?case
  proof (cases "\<not> attempt > maxRetries \<and> te_ctx te attempt = None \<and> t \<noteq> None \<and> attempt < maxRetries \<and> ?slept = None")
    case True
    then obtain e where e: "t = Some e" by auto
    from True have "snd (attempt_loop env te maxRetries attempt lastErr w) = snd (attempt_loop env te maxRetries (attempt + 1) t w1)"
      by (subst attempt_loop.simps) (simp add: t e)
    moreover have "sends_as k hs (snd (attempt_loop env te maxRetries (attempt + 1) (Some e) w1))"
      using True "1.IH" [OF _ _ t [symmetric, unfolded e] refl _ _ w1] by simp
    ultimately show ?thesis by (simp only: e)
  next
    case False
    then have "snd (attempt_loop env te maxRetries attempt lastErr w) \<in> {w, w1}"
      by (subst attempt_loop.simps) (auto simp: t split: option.splits)
    then consider "snd (attempt_loop env te maxRetries attempt lastErr w) = w" |
        "snd (attempt_loop env te maxRetries attempt lastErr w) = w1" by blast
    then show ?thesis
      using "1.prems" w1 by cases simp_all
  qed
qed

lemma sends_as_log [simp]:
  "sends_as k hs (hc_NotifyLoggers l m kv w) = sends_as k hs w"
  by (simp add: sends_as_def)

lemma client_serve_loop_sends_as: "sends_as k hs w \<Longrightarrow> sends_as k hs (snd (client_serve_loop env n es w))"
proof (induction es arbitrary: w)
  case (Cons e es)
  show ?case
  proof (cases e)
    case (ServeTick te)
    obtain r w1 where r: "attemptFetchAndSubmit env te n w = (r, w1)" by (metis surj_pair)
    have "sends_as k hs w1"
      using attempt_loop_sends_as [OF Cons.prems, of env te n 0 None] r by (simp add: attemptFetchAndSubmit_def)
    then show ?thesis
      using Cons.IH [of w1] by (simp add: ServeTick r split: option.splits)
  next
    case ServeCancel
    then show ?thesis using Cons.prems by simp
  qed
qed simp

text \<open>
  C40: Every request of a serving HTTP client carries the header fields that were configured before it
  served, set in some order, and exactly those when no two of their keys have the same canonical form. In particular a
  refreshed token is never sent: the credential of the requests stays the token the
  option fetched when the client was made, however long that has expired.
\<close>

theorem refreshed_token_is_never_sent:
  assumes "client_Serve env s es w = (r, w')" and "q \<in> set (drop (length (cw_sent w)) (cw_sent w'))"
  shows "(\<exists>walk. mset walk = mset (hc_headers (cw_client w)) \<and>
      cq_headers q = fold (\<lambda>(k, v). header_Set k v) walk Map.empty) \<and>
    (distinct (map fst (canonical_headers (hc_headers (cw_client w)))) \<longrightarrow>
      cq_headers q = map_of (canonical_headers (hc_headers (cw_client w))))"
proof -
  let ?hs = "hc_headers (cw_client w)"
  have start: "sends_as (length (cw_sent w)) ?hs v"
    if "cw_sent v = cw_sent w" "hc_headers (cw_client v) = hc_headers (cw_client w)" for v :: "'a client_world"
    using that by (simp add: sends_as_def)
  define w1 where "w1 = hc_NotifyLoggers InfoLevel ''httpclient serve started''
      [(''component'', LMeta (hc_metadata (cw_client w))), (''event'', LStr ''ServeStart''),
       (''interval'', LInt (hc_interval (cw_client w)))] (hc_set (\<lambda>c. c\<lparr>hc_isServing := True\<rparr>) w)"
  obtain res w2 where loop: "client_serve_loop env (hc_maxRetries (cw_client w)) es w1 = (res, w2)" by (metis surj_pair)
  have "sends_as (length (cw_sent w)) ?hs w1"
    by (rule start) (simp_all add: w1_def)
  then have "sends_as (length (cw_sent w)) ?hs w2"
    using client_serve_loop_sends_as loop by (metis snd_conv)
  then have w2: "\<forall>q\<in>set (drop (length (cw_sent w)) (cw_sent w2)). carries_fields ?hs q"
    unfolding sends_as_def by blast
  have "cw_sent w' = cw_sent w \<or> cw_sent w' = cw_sent w2"
    using assms(1) loop by (auto simp: client_Serve_def Let_def w1_def [symmetric] split: if_splits option.splits)
  then have "carries_fields ?hs q"
    using assms(2) w2 by auto
  then show ?thesis
    using carries_fields_distinct unfolding carries_fields_def by blast
qed

text \<open>
  From attempt 34 on the bound of the wait has left 64 bits and the client does not wait. The bytes of a text
  response are dropped, and a certificate that cannot be loaded leaves every server accepted.
\<close>

lemma backoff_overflows:
  "backoff_bound oor 33 = 2 ^ 33 * time_Second" "backoffDuration oor rand 34 = 0"
  by (simp_all add: backoff_bound_def backoffDuration_def wrap_i64_def time_Second_def)

lemma text_response_is_dropped:
  "Contains ct ''text/plain'' \<Longrightarrow> \<not> Contains ct ''application/json'' \<Longrightarrow> \<not> Contains ct ''text/xml'' \<Longrightarrow>
   \<not> Contains ct ''application/xml'' \<Longrightarrow>
   processResponse env \<lparr>cs_StatusCode = n, cs_ContentType = ct, cs_Body = Inr b\<rparr> = Inr (ce_zero env)"
  by (simp add: processResponse_def)

lemma failed_pin_accepts_all:
  assumes "load p = Inl err" and "\<not> hc_pinEnabled (cw_client w)"
  shows "verifyServerCertificate (cw_client (SetTlsPinnedCertificate load p w)) certs = None"
  using assms by (simp add: SetTlsPinnedCertificate_def verifyServerCertificate_def client_notifications)

lemma pinned_certificate_is_presented:
  assumes "load p = Inr cert"
  shows "verifyServerCertificate (cw_client (SetTlsPinnedCertificate load p w)) certs = None \<longleftrightarrow> (\<exists>ch\<in>set certs. cert \<in> set ch)"
  using assms by (auto simp: SetTlsPinnedCertificate_def verifyServerCertificate_def list_ex_iff)

definition demo_client_env :: "unit client_env" where
  "demo_client_env =
     \<lparr>ce_token = (\<lambda>n oc. Inr \<lparr>resp_StatusCode = 200, resp_Status = ''200 OK'', resp_Body = Inr (Inr
        \<lparr>ta_access_token = (if n = 0 then ''old'' else ''new''), ta_expires_in = 60, ta_error = '''', ta_error_description = ''''\<rparr>)\<rparr>),
      ce_now = (\<lambda>n. int n * 100 * time_Second), ce_newRequest = (\<lambda>m e. None),
      ce_do = (\<lambda>n q. (Inr \<lparr>cs_StatusCode = 200, cs_ContentType = ''text/plain'', cs_Body = Inr []\<rparr>, length (cq_body q))),
      ce_json = (\<lambda>b. Inr ()), ce_xml = (\<lambda>b. Inr ()), ce_zero = (), ce_submit = (\<lambda>n d. None), ce_order = (\<lambda>n. rev)\<rparr>"

definition demo_client :: "unit client_world" where
  "demo_client = NewHTTPClientAdapter demo_client_env (\<lambda>p. Inl (Err p)) ''h''
     [Some (HC_WithOAuth2ClientCredentials \<lparr>oc_ClientID = ''c'', oc_Secret = ''s'', oc_TokenURL = ''u'', oc_Audience = ''a'', oc_Scopes = []\<rparr>),
      Some (HC_WithRequestConfig ''POST'' ''/x'' (Some [1, 2, 3]))]"

definition quiet_tick :: tick_env where
  "quiet_tick = \<lparr>te_ctx = (\<lambda>n. None), te_oor = 0, te_rand = (\<lambda>n. 0), te_interrupted = (\<lambda>n. None)\<rparr>"

text \<open>A token that was granted and refreshed, and the request sent with the first one.\<close>

definition served_client :: "gerr option option \<times> unit client_world" where
  "served_client = client_Serve demo_client_env True [ServeTick quiet_tick, ServeCancel] demo_client"

lemma demo_client_value:
  "cw_client demo_client = (NewHTTPClientAdapter_base ''h'')
     \<lparr>hc_method := ''POST'', hc_endpoint := ''/x'', hc_body := Some [1, 2, 3], hc_headers := [(''Authorization'', ''Bearer old'')],
      hc_oauthConfig := Some \<lparr>oc_ClientID = ''c'', oc_Secret = ''s'', oc_TokenURL = ''u'', oc_Audience = ''a'', oc_Scopes = []\<rparr>,
      hc_oAuthToken := Some (''old'', 60 * time_Second)\<rparr>"
  "cw_clock demo_client = 1" "cw_tokens demo_client = 1" "cw_sent demo_client = []"
  by (simp_all add: demo_client_def NewHTTPClientAdapter_def hc_SetOAuth2Config_def GetTokenFromOAuthServer_def
    demo_client_env_def hc_AddHeader_def validateHeaderValue_def hc_SetRequestConfig_def hc_set_def time_Add_def
    wrap_i64_def time_Second_def NewHTTPClientAdapter_base_def)

lemma demo_content_type: "processResponse demo_client_env \<lparr>cs_StatusCode = 200, cs_ContentType = ''text/plain'', cs_Body = Inr []\<rparr> = Inr ()"
  by code_simp

lemma demo_env_simps:
  "ce_token demo_client_env n oc = Inr \<lparr>resp_StatusCode = 200, resp_Status = ''200 OK'', resp_Body = Inr (Inr
      \<lparr>ta_access_token = (if n = 0 then ''old'' else ''new''), ta_expires_in = 60, ta_error = [], ta_error_description = []\<rparr>)\<rparr>"
  "ce_now demo_client_env n = int n * 100 * time_Second" "ce_newRequest demo_client_env m e = None"
  "ce_do demo_client_env n q = (Inr \<lparr>cs_StatusCode = 200, cs_ContentType = ''text/plain'', cs_Body = Inr []\<rparr>, length (cq_body q))"
  "ce_submit demo_client_env n d = None"
  by (simp_all add: demo_client_env_def)

lemma demo_fetch:
  assumes "hc_headers (cw_client w) = [(''Authorization'', ''Bearer old'')]" and "cw_tokens w = 1" and "cw_clock w = 1"
    and "hc_oAuthToken (cw_client w) = Some (''old'', 60 * time_Second)" and "hc_oauthConfig (cw_client w) = Some oc"
  shows "\<exists>b w'. Fetch demo_client_env w = (b, w') \<and> snd b = None \<and> cw_sent w' = cw_sent w @ [build_request demo_client_env (length (cw_sent w)) (cw_client w)] \<and>
    map_option fst (hc_oAuthToken (cw_client w')) = Some ''new''"
  using assms
  by (simp add: Fetch_def client_authorize_def EnsureValidToken_def GetTokenFromOAuthServer_def fetch_authorized_def client_Do_def
    demo_env_simps demo_content_type client_notifications hc_notify_def hc_set_def time_Before_def build_request_def
    time_Second_def Let_def)

lemma demo_try:
  assumes "hc_headers (cw_client w) = [(''Authorization'', ''Bearer old'')]" and "cw_tokens w = 1" and "cw_clock w = 1"
    and "hc_oAuthToken (cw_client w) = Some (''old'', 60 * time_Second)" and "hc_oauthConfig (cw_client w) = Some oc"
  shows "\<exists>w'. attemptFetchAndSubmit demo_client_env quiet_tick 0 w = (None, w') \<and> length (cw_sent w') = Suc (length (cw_sent w)) \<and>
    map_option fst (hc_oAuthToken (cw_client w')) = Some ''new''"
  using demo_fetch [OF assms]
  by (auto simp: attemptFetchAndSubmit_def attempt_loop.simps try_once_def demo_env_simps quiet_tick_def Let_def)

lemma served_client_run:
  "map_option fst (hc_oAuthToken (cw_client (snd served_client))) = Some ''new''" "length (cw_sent (snd served_client)) = 1"
proof -
  define w where "w = hc_NotifyLoggers InfoLevel ''httpclient serve started''
      [(''component'', LMeta (hc_metadata (cw_client demo_client))), (''event'', LStr ''ServeStart''),
       (''interval'', LInt (hc_interval (cw_client demo_client)))] (hc_set (\<lambda>c. c\<lparr>hc_isServing := True\<rparr>) demo_client)"
  have "cw_tokens w = 1" "cw_clock w = 1" "cw_sent w = []"
    by (simp_all add: w_def hc_set_def hc_NotifyLoggers_def demo_client_value)
  moreover obtain oc where "hc_headers (cw_client w) = [(''Authorization'', ''Bearer old'')]"
      "hc_oAuthToken (cw_client w) = Some (''old'', 60 * time_Second)" "hc_oauthConfig (cw_client w) = Some oc"
    by (simp add: w_def demo_client_value)
  ultimately obtain w' where "attemptFetchAndSubmit demo_client_env quiet_tick 0 w = (None, w')" "length (cw_sent w') = 1"
      "map_option fst (hc_oAuthToken (cw_client w')) = Some ''new''"
    using demo_try [of w] by auto
  moreover have "\<not> hc_isServing (cw_client demo_client)" "hc_interval (cw_client demo_client) > 0"
      "hc_maxRetries (cw_client demo_client) = 0"
    by (simp_all add: demo_client_value NewHTTPClientAdapter_base_def time_Second_def)
  ultimately show "map_option fst (hc_oAuthToken (cw_client (snd served_client))) = Some ''new''"
      "length (cw_sent (snd served_client)) = 1"
    by (simp_all add: served_client_def client_Serve_def Let_def w_def [symmetric])
qed

theorem refreshed_token_is_never_sent_witness:
  "map_option fst (hc_oAuthToken (cw_client (snd served_client))) = Some ''new'' \<and>
   cq_headers (hd (cw_sent (snd served_client))) ''Authorization'' = Some ''Bearer old''"
proof -
  have "hd (cw_sent (snd served_client)) \<in> set (drop (length (cw_sent demo_client)) (cw_sent (snd served_client)))"
    using served_client_run demo_client_value(4) by (cases "cw_sent (snd served_client)") simp_all
  moreover have "client_Serve demo_client_env True [ServeTick quiet_tick, ServeCancel] demo_client =
      (fst served_client, snd served_client)"
    by (simp only: served_client_def prod.collapse)
  moreover have "distinct (map fst (canonical_headers (hc_headers (cw_client demo_client))))"
    by (simp add: demo_client_value NewHTTPClientAdapter_base_def canonical_headers_def)
  ultimately have "cq_headers (hd (cw_sent (snd served_client))) =
      map_of (canonical_headers (hc_headers (cw_client demo_client)))"
    using refreshed_token_is_never_sent [of demo_client_env True "[ServeTick quiet_tick, ServeCancel]" demo_client
      "fst served_client" "snd served_client" "hd (cw_sent (snd served_client))"]
    by blast
  moreover have "map_of (canonical_headers [(''Authorization'', ''Bearer old'')]) ''Authorization'' = Some ''Bearer old''"
    by code_simp
  ultimately show ?thesis
    using served_client_run(1) by (simp add: demo_client_value NewHTTPClientAdapter_base_def)
qed

end
