(* ===== verification/Spec2Isabelle.thy ===== *)
theory Spec2Isabelle
  imports Wire_System Generator Conduit Framing Metering Relay_System Codec Internal_Logger Ws_Server Http_Client
begin

text \<open>
  \<^bold>\<open>Electrician\<close>: a verification of the in-process pipeline library of the repository, a Go
  library in which elements of a type parameter flow from generators through wires
  (concurrent workers with a transformer chain) and conduits (chains of wires), guarded by circuit
  breakers, surge protectors and resisters (priority queues), observed by sensors and
  loggers, and carried between processes by relays.

  \<^bold>\<open>Parts and theories\<close> (sources are packages under \<^verbatim>\<open>src/pkg/internal\<close>)

  \<^item> \<open>Prelude\<close>: fixed-width integers (\<open>wrap_i32\<close>, \<open>wrap_i64\<close>), \<^verbatim>\<open>time.Time\<close> and \<^verbatim>\<open>time.Duration\<close> as
    nanoseconds, Go errors and panics as values, the in-place loop that drops nil arguments.
  \<^item> \<open>Telemetry\<close>: metadata, log levels, loggers and sensors (\<^verbatim>\<open>types\<close>). Every operation returns the
    list of calls it makes on loggers, sensors and meters, in order.
  \<^item> \<open>Circuit_Breaker\<close> (\<^verbatim>\<open>circuitbreaker\<close>): the record \<open>circuit_breaker\<close>, \<open>cb_Allow\<close>, \<open>cb_RecordError\<close>,
    \<open>cb_Reset\<close>, \<open>cb_Trip\<close>, configuration and constructor; the locale \<open>breaker_interface\<close> states
    what clients rely on and is interpreted on these operations.
  \<^item> \<open>Go_Heap\<close> and \<open>Resister\<close> (\<^verbatim>\<open>container/heap\<close> of the standard library, \<^verbatim>\<open>resister\<close>): the array heap
    with sift up and down, and the priority queue over shared elements with its index. Elements
    are addresses in a store, since the protector changes queued elements through pointers.
    The locale \<open>heap_less\<close> holds the heap lemmas, \<open>prio_buffer\<close> the contract of a drained buffer.
  \<^item> \<open>Element\<close> (\<^verbatim>\<open>types/element.go\<close>): identifiers from the 64-bit sequence in base 36, retry count
    and priority at 32 bits.
  \<^item> \<open>Surge_Protector\<close> (\<^verbatim>\<open>surgeprotector\<close>): token bucket, trip and reset, blackouts, backups, submission.
    The managed components are the operations of a record \<open>component_ops\<close>; the locale
    \<open>component_sink\<close> states what the conservation proof needs of them and is interpreted on
    wires in \<open>Wire_Lifecycle\<close>.
  \<^item> \<open>Go_Chan\<close>: channels, contexts and \<^verbatim>\<open>select\<close>. Which ready case a \<^verbatim>\<open>select\<close> runs is given by an
    oracle in the state; theorems hold for every oracle.
  \<^item> \<open>Wire\<close>, \<open>Wire_Process\<close>, \<open>Wire_Lifecycle\<close> (\<^verbatim>\<open>wire\<close>): configuration and telemetry; the work on one
    element (\<open>transformElement\<close>, \<open>attemptRecovery\<close>, \<open>handleElement\<close>, the fast path); \<open>wire_Submit\<close>,
    \<open>wire_Start\<close>, \<open>wire_Stop\<close>, \<open>wire_Restart\<close>, loading. The world is one record with all wires,
    channels, breakers, contexts, the protector and the resister.
  \<^item> \<open>Wire_System\<close>: a running wire as an interleaving of submitters, workers, error handler, consumer
    and \<^verbatim>\<open>Stop\<close>, as inductive step relations; \<open>shows_wire\<close> relates it to the world of \<open>Wire_Process\<close>.
  \<^item> \<open>Plug\<close>, \<open>Generator\<close> (\<^verbatim>\<open>plug\<close>, \<^verbatim>\<open>generator\<close>): adapters, the submit function, the life cycle, the breaker
    ticker and control loop, one tick at a time.
  \<^item> \<open>Conduit\<close> (\<^verbatim>\<open>conduit\<close>): wiring, propagation of settings, life cycle, submission.
  \<^item> \<open>Framing\<close> (\<^verbatim>\<open>quicrelay/framing.go\<close>, the same code in \<^verbatim>\<open>webtransportrelay\<close>): length-prefixed frames.
  \<^item> \<open>Go_Strings\<close>: the functions of \<^verbatim>\<open>strings\<close>, \<^verbatim>\<open>encoding/hex\<close>, \<^verbatim>\<open>encoding/base64\<close> and \<^verbatim>\<open>strconv\<close> in use.
  \<^item> \<open>Relay_Payload\<close> (\<^verbatim>\<open>relaycodec\<close>, \<^verbatim>\<open>forwardrelay/payload.go\<close>, \<^verbatim>\<open>receivingrelay/payload.go\<close> and its helpers): the
    messages of the relay protocol, wrapping and unwrapping of payloads.
  \<^item> \<open>Relay_Auth\<close> (\<^verbatim>\<open>auth\<close>, \<^verbatim>\<open>receivingrelay/auth_introspection.go\<close>): JSON web tokens and introspection.
  \<^item> \<open>Forward_Relay\<close> (\<^verbatim>\<open>forwardrelay\<close>): configuration, headers and credentials, stream sessions with their
    send loops, submission, life cycle.
  \<^item> \<open>Receiving_Relay\<close> (\<^verbatim>\<open>receivingrelay\<close>): configuration, authentication policy, TLS and listening (a partial
    function, since it may retry for ever), the stream handler as a step per reception, the unary handler, fan-out.
  \<^item> \<open>Relay_System\<close>: a forward relay and a receiving relay joined, with submissions and the send loop in any
    interleaving.
  \<^item> \<open>Relay_Credentials\<close> (\<^verbatim>\<open>forwardrelay/token_source.go\<close>, \<^verbatim>\<open>oauth2.go\<close>, \<^verbatim>\<open>auth_options.go\<close>): token sources and the
    builders of authentication options.
  \<^item> \<open>Go_Float\<close>, \<open>Metric_Names\<close>, \<open>Meter\<close> (\<^verbatim>\<open>meter\<close>, \<^verbatim>\<open>types/meter.go\<close>): \<^verbatim>\<open>float64\<close> as rationals rounded to 53 bits, the
    registry of metrics, counters at 64 bits with their interleaving, display figures, the monitor.
  \<^item> \<open>Sensor\<close>, \<open>Metering\<close> (\<^verbatim>\<open>sensor\<close>): callbacks by event, the default callbacks that report to meters, and what the
    meters show of breakers, resisters and wires.
  \<^item> \<open>Codec\<close> (\<^verbatim>\<open>codec\<close>): wave data, lines, text and bytes over readers and writers.
  \<^item> \<open>Go_Parse\<close>, \<open>Relay_Sink\<close>, \<open>Internal_Logger\<close> (\<^verbatim>\<open>internallogger\<close>, \<^verbatim>\<open>builder/relay_sink_config.go\<close>): the text conversions
    of a configuration, the sink that sends log lines through a forward relay, as a system of writers, the
    submitting goroutine and \<^verbatim>\<open>Close\<close>, and the logger with its levels, fields and sinks.
  \<^item> \<open>Http_Auth\<close>, \<open>Http_Server\<close> (\<^verbatim>\<open>jack/httpserver\<close>): the policy both servers share, the handler of a request, \<^verbatim>\<open>Serve\<close>.
  \<^item> \<open>Ws_Connection\<close>, \<open>Ws_Server\<close> (\<^verbatim>\<open>jack/websocket\<close>): message formats, a connection as a system of senders, closers and
    a writer, the table of connections; upgrade requests, the read loop, broadcasts, \<^verbatim>\<open>Serve\<close>.
  \<^item> \<open>Http_Client\<close> (\<^verbatim>\<open>adapter/httpclient\<close>): the polling client: credentials, fetches, retries, \<^verbatim>\<open>Serve\<close>, certificate pinning.

  \<^bold>\<open>What is shown.\<close> The breaker refines a two-state machine with a window; the resister refines a
  map with priorities and drains in priority order; the token bucket bounds the rate; a
  protector with a resister in front of a wire conserves data; a wire conserves elements,
  never sends on a closed channel, keeps the order with one worker and makes progress
  under every interleaving; its element handler refines the steps of that system, its fast paths
  equal its standard paths; \<^verbatim>\<open>Stop\<close> terminates it and \<^verbatim>\<open>Restart\<close> brings it back; a conduit chains
  its wires into a pipeline; framed streams are lossless. A payload wrapped by a sender is read back by a
  receiver with the same key, and a receiver with a key accepts nothing else; a stream delivers its
  payloads in order and acknowledges each one once; with strict authentication no stream passes
  without the policy; tokens are accepted only when verified, or on the word of the
  authorization server; a token source hands out live tokens only; sender and receiver joined deliver each item
  once. The meters count what the sensors report. Log lines reach every registered sink, the relay sink submits
  them in order, and its typed configuration is parsed back to itself. A strict HTTP server submits
  only what admitted requests hold; a WebSocket connection never panics and writes in order what it accepted,
  the limit on connections holds, a broadcast tells how many it missed. A tick of the
  HTTP client delivers at most once, and its refreshed tokens are never sent. Theorems about what goes wrong (a
  protector that submits to itself without end, wires started after \<^verbatim>\<open>Stop\<close>, a second call of
  \<^verbatim>\<open>ConnectWire\<close>, adapters served again on every tick, a relay stopped under an open stream, keys the
  receiver cannot use, an authentication mode that is not enforced, a replaced log sink that is never closed,
  a connection whose writer has gone) describe the code as it is.

  \<^bold>\<open>Fuel and bounds.\<close> \<open>wire_Submit\<close> and \<open>sp_Submit\<close> call each other, and a drain of the resister runs as
  long as tokens last, so they take fuel; \<open>None\<close> means that the call has not returned, be it
  for lack of fuel, because it waits on a channel, or because of a panic. The theorems say that
  a result is there: one unit of fuel for a wire without a protector of its own, one more
  than the length of the queue for a drain. \<open>read_loop\<close> is a partial function whose \<open>None\<close>
  means that the reader never delivers; \<open>reader_ok\<close> excludes it. \<open>sync_loop\<close> polls until a deadline, which a clock
  that advances reaches.

  \<^bold>\<open>Parameters.\<close> User functions (transformers, insulators, encoders, adapters, pipelines behind a server), generators
  seen from a wire (\<open>gen_env\<close>), hashes, the clock (a sequence of readings), JSON, gob, XML and protobuf encoding,
  compression, AES-GCM (\<open>lib_ok\<close> states their contract), signature primitives, HTTP exchanges, streams, the upgrade
  to WebSocket and gRPC connections are arguments. \<open>waits_for_workers\<close> is what \<^verbatim>\<open>sync.WaitGroup\<close> promises.
  Texts that Go formats from values are shortened to their fixed part.

  \<^bold>\<open>Not modelled.\<close> Locks: an operation under a mutex is atomic, and the interleaving of goroutines is modelled for
  wires, counters, the sender of a relay, the relay sink and WebSocket connections. \<open>Wire_System\<close> covers wires
  without breaker, protector, insulator and encoder. The sensor events for S3 and Kafka, the gRPC-Web server, the
  adapters for Kafka, PostgreSQL, S3 and WebSocket, the sessions of the NATS, QUIC, WebSocket and WebTransport relays and
  the examples are I/O over third-party libraries; apart from the configuration of the relay sink the builder
  package only re-exports constructors.
\<close>

section \<open>From the life cycle to the concurrent system\<close>

lemma running_is_initial:
  assumes "wire_running i s" and "inChan (the_wire i s) = Some c" and "ws_chans (w_ext s) c = make_chan n"
    and "OutputChan (the_wire i s) = Some c'" and "ws_chans (w_ext s) c' = make_chan n"
    and "errorChan (the_wire i s) = Some e" and "ws_echans (w_ext s) e = make_chan n"
  shows "initial_system (system_of i s) \<and> \<not> sys_done (system_of i s)"
  using assms by (auto simp: initial_system_def system_of_def wire_running_def make_chan_def Let_def)

text \<open>
  C14: a restarted wire behaves as a new one under every interleaving. The wire has no breaker, insulator,
  encoder, transformer factory or generators, and is restarted under a context that is not done and is not
  its own, when the goroutines of its first run have ended. \<^verbatim>\<open>Restart\<close> leaves it in a state that the concurrent
  system with empty open channels and idle workers, one per unit of concurrency, shows, and that is not
  cancelled; and whatever submitters, workers, error handler, consumer and \<^verbatim>\<open>Stop\<close> do from there in
  whatever order, every element accepted since is waiting, in a worker's hands or finished exactly
  once, finished ones have the fate the wire's chain gives them, and nothing panics.
\<close>

theorem restarted_wire_runs_correctly:
  assumes "wire_running i s" and "waits_for_workers wait"
    and "transformerFactory (the_wire i s) = None" and "wire_generators (the_wire i s) = []"
    and "\<not> is_done cx s" and "hd (wire_ctx (the_wire i s)) \<notin> set cx"
    and "\<forall>t \<in> set cx. t < ws_fresh (w_ext s)"
    and "CircuitBreaker (the_wire i s) = None" and "insulatorFunc (the_wire i s) = None"
    and "wire_encoder (the_wire i s) = None"
  shows "\<exists>s'. wire_Restart env wait cx i s = Inr (None, s') \<and>
     shows_wire i s' (system_of i s') \<and> initial_system (system_of i s') \<and> \<not> sys_done (system_of i s') \<and>
     length (sys_workers (system_of i s')) = nat (max 1 (maxConcurrency (the_wire i s))) \<and>
     (\<forall>z. reachable (system_of i s') z \<longrightarrow>
        mset (accepted z) = mset (map fst (finished z)) + mset (in_flight z) + mset (ch_buf (sys_in z)) \<and>
        (\<forall>x \<in> set (finished z). fate_ok (started_chain (the_wire i s)) x) \<and> \<not> sys_panicked z)"
proof (rule wire_Restart_running [OF assms(1-7), of env])
  fix s' c c' e
  assume r: "wire_Restart env wait cx i s = Inr (None, s')" and run: "wire_running i s'"
    and chans: "inChan (the_wire i s') = Some c" "ws_chans (w_ext s') c = make_chan (nat (maxBufferSize (the_wire i s)))"
      "OutputChan (the_wire i s') = Some c'" "ws_chans (w_ext s') c' = make_chan (nat (maxBufferSize (the_wire i s)))"
      "errorChan (the_wire i s') = Some e" "ws_echans (w_ext s') e = make_chan (nat (maxBufferSize (the_wire i s)))"
    and wk: "workers_of (wire_wg (the_wire i s')) = nat (max 1 (maxConcurrency (the_wire i s)))"
    and ne: "c \<noteq> c'" and ts: "transformations (the_wire i s') = started_chain (the_wire i s)"
    and plain: "CircuitBreaker (the_wire i s') = CircuitBreaker (the_wire i s)"
      "insulatorFunc (the_wire i s') = insulatorFunc (the_wire i s)" "wire_encoder (the_wire i s') = wire_encoder (the_wire i s)"
  have init: "initial_system (system_of i s')" "\<not> sys_done (system_of i s')"
    using running_is_initial [OF run chans] by simp_all
  have "mset (accepted z) = mset (map fst (finished z)) + mset (in_flight z) + mset (ch_buf (sys_in z)) \<and>
      (\<forall>x \<in> set (finished z). fate_ok (started_chain (the_wire i s)) x) \<and> \<not> sys_panicked z"
    if "reachable (system_of i s') z" for z
    using reachable_inv [OF that init(1)] reachable_ts [OF that] by (simp add: system_inv_def system_of_def Let_def ts)
  moreover have "length (sys_workers (system_of i s')) = nat (max 1 (maxConcurrency (the_wire i s)))"
    using wk by (simp add: system_of_def Let_def)
  moreover have "shows_wire i s' (system_of i s')"
    using chans ne plain assms(8-10) by (simp add: shows_wire_def system_of_def Let_def)
  ultimately show ?thesis using r init by blast
qed

theorem restarted_wire_runs_correctly_witness:
  "\<exists>s'. wire_Restart no_generators end_goroutines [] 0 running_world = Inr (None, s') \<and>
     shows_wire 0 s' (system_of 0 s') \<and> initial_system (system_of 0 s') \<and> \<not> sys_done (system_of 0 s') \<and>
     length (sys_workers (system_of 0 s')) = nat (max 1 (maxConcurrency (the_wire 0 running_world))) \<and>
     (\<forall>z. reachable (system_of 0 s') z \<longrightarrow>
        mset (accepted z) = mset (map fst (finished z)) + mset (in_flight z) + mset (ch_buf (sys_in z)) \<and>
        (\<forall>x \<in> set (finished z). fate_ok (started_chain (the_wire 0 running_world)) x) \<and> \<not> sys_panicked z)"
  by (rule restarted_wire_runs_correctly [OF running_world_running waits_end_goroutines])
    (simp_all add: running_world_def the_wire_def NewWire_base_def is_done_def)

end
